(* ===== verification/Board_Button.thy ===== *)
theory Board_Button
  imports Gw_Prelude
begin

text \<open>
  The gateway's push button: the pin-map validator (\<open>board_io/board_pin_map.c\<close>) and the press
  classifier (\<open>board_io/board_button_fsm.c\<close>) that turns debounced samples of the pin into a short
  press, a restart request or a factory reset. Times are 64-bit milliseconds, the two thresholds
  32-bit; all comparisons and subtractions are the unsigned ones of the source.
\<close>

section \<open>Data\<close>

datatype board_io_event =
    BOARD_IO_EVENT_BUTTON_SHORT_PRESS
  | BOARD_IO_EVENT_RESTART_REQUEST
  | BOARD_IO_EVENT_FACTORY_RESET_REQUEST
  | BOARD_IO_EVENT_COUNT

datatype board_led_overlay =
    BOARD_LED_OVERLAY_NONE
  | BOARD_LED_OVERLAY_ACTIVITY
  | BOARD_LED_OVERLAY_IDENTIFY
  | BOARD_LED_OVERLAY_RESTART_ARMED
  | BOARD_LED_OVERLAY_FACTORY_ARMED

datatype board_button_state =
    BOARD_BUTTON_FSM_RELEASED
  | BOARD_BUTTON_FSM_PRESSED
  | BOARD_BUTTON_FSM_RESTART_ARMED
  | BOARD_BUTTON_FSM_FACTORY_ARMED

record board_button_fsm =
  btn_state :: board_button_state
  btn_pressed :: bool
  press_start_ms :: u64

record board_button_fsm_result =
  has_event :: bool
  btn_event :: board_io_event
  btn_overlay :: board_led_overlay

datatype board_pin_pull = BOARD_PIN_PULL_NONE | BOARD_PIN_PULL_UP | BOARD_PIN_PULL_DOWN

record board_pin_map =
  button_enabled :: bool
  button_gpio :: int
  button_active_low :: bool
  button_pull :: board_pin_pull
  debounce_ms :: u32
  restart_ms :: u32
  factory_reset_ms :: u32
  led_enabled :: bool
  led_gpio :: int

section \<open>Operations\<close>

definition make_result ::
    "bool \<Rightarrow> board_io_event \<Rightarrow> board_led_overlay \<Rightarrow> board_button_fsm_result" where
  "make_result h e o' = \<lparr>has_event = h, btn_event = e, btn_overlay = o'\<rparr>"

definition board_button_fsm_init :: board_button_fsm where
  "board_button_fsm_init =
     \<lparr>btn_state = BOARD_BUTTON_FSM_RELEASED, btn_pressed = False, press_start_ms = 0\<rparr>"

definition board_button_fsm_feed ::
    "board_button_fsm \<Rightarrow> bool \<Rightarrow> u64 \<Rightarrow> u32 \<Rightarrow> u32 \<Rightarrow> board_button_fsm \<times> board_button_fsm_result" where
  "board_button_fsm_feed fsm pressed_now now_ms rst fct =
     (let none = make_result False BOARD_IO_EVENT_COUNT BOARD_LED_OVERLAY_NONE in
      if \<not> pressed_now then
        if \<not> btn_pressed fsm then (fsm, none)
        else
          let duration = now_ms - press_start_ms fsm;
              event = (if ucast fct \<le> duration then BOARD_IO_EVENT_FACTORY_RESET_REQUEST
                       else if ucast rst \<le> duration then BOARD_IO_EVENT_RESTART_REQUEST
                       else BOARD_IO_EVENT_BUTTON_SHORT_PRESS)
          in (fsm\<lparr>btn_state := BOARD_BUTTON_FSM_RELEASED, btn_pressed := False\<rparr>,
              make_result True event BOARD_LED_OVERLAY_NONE)
      else if \<not> btn_pressed fsm then
        (fsm\<lparr>btn_pressed := True, btn_state := BOARD_BUTTON_FSM_PRESSED,
             press_start_ms := now_ms\<rparr>, none)
      else if now_ms < press_start_ms fsm then
        (fsm\<lparr>btn_state := BOARD_BUTTON_FSM_RELEASED, btn_pressed := False\<rparr>, none)
      else
        let duration = now_ms - press_start_ms fsm;
            factory = (fsm\<lparr>btn_state := BOARD_BUTTON_FSM_FACTORY_ARMED\<rparr>,
                       make_result False BOARD_IO_EVENT_COUNT BOARD_LED_OVERLAY_FACTORY_ARMED);
            restart = (fsm\<lparr>btn_state := BOARD_BUTTON_FSM_RESTART_ARMED\<rparr>,
                       make_result False BOARD_IO_EVENT_COUNT BOARD_LED_OVERLAY_RESTART_ARMED);
            current = (fsm, make_result False BOARD_IO_EVENT_COUNT
                        (case btn_state fsm of
                           BOARD_BUTTON_FSM_RESTART_ARMED \<Rightarrow> BOARD_LED_OVERLAY_RESTART_ARMED
                         | BOARD_BUTTON_FSM_FACTORY_ARMED \<Rightarrow> BOARD_LED_OVERLAY_FACTORY_ARMED
                         | _ \<Rightarrow> BOARD_LED_OVERLAY_NONE))
        in case btn_state fsm of
             BOARD_BUTTON_FSM_PRESSED \<Rightarrow>
               (if ucast fct \<le> duration then factory
                else if ucast rst \<le> duration then restart else current)
           | BOARD_BUTTON_FSM_RESTART_ARMED \<Rightarrow>
               (if ucast fct \<le> duration then factory else current)
           | _ \<Rightarrow> current)"

text \<open>
  The pin map. \<open>GPIO_IS_VALID_GPIO\<close> and \<open>GPIO_IS_VALID_OUTPUT_GPIO\<close> are macros of the chip's SDK,
  parameters here; \<open>oct\<close> is the build switch \<open>CONFIG_SPIRAM_MODE_OCT\<close>. Log lines are left out.
\<close>

definition pin_in :: "int \<Rightarrow> int \<Rightarrow> int \<Rightarrow> bool" where
  "pin_in gpio lo hi \<longleftrightarrow> lo \<le> gpio \<and> gpio \<le> hi"

definition check_gpio_usable ::
    "(int \<Rightarrow> bool) \<Rightarrow> (int \<Rightarrow> bool) \<Rightarrow> bool \<Rightarrow> int \<Rightarrow> bool \<Rightarrow> esp_err" where
  "check_gpio_usable valid_gpio valid_out oct gpio need_output =
     (if gpio < 0 then ESP_ERR_INVALID_ARG
      else if \<not> valid_gpio gpio then ESP_ERR_INVALID_ARG
      else if need_output \<and> \<not> valid_out gpio then ESP_ERR_INVALID_ARG
      else if pin_in gpio 26 32 then ESP_ERR_INVALID_ARG
      else if oct \<and> pin_in gpio 33 37 then ESP_ERR_INVALID_ARG
      else ESP_OK)"

definition board_pin_map_validate ::
    "(int \<Rightarrow> bool) \<Rightarrow> (int \<Rightarrow> bool) \<Rightarrow> bool \<Rightarrow> board_pin_map option \<Rightarrow> esp_err" where
  "board_pin_map_validate valid_gpio valid_out oct mo =
     (case mo of
        None \<Rightarrow> ESP_ERR_INVALID_ARG
      | Some m \<Rightarrow>
          if button_enabled m \<and> led_enabled m \<and> button_gpio m = led_gpio m then ESP_ERR_INVALID_ARG
          else
            let led = (if led_enabled m
                       then check_gpio_usable valid_gpio valid_out oct (led_gpio m) True
                       else ESP_OK)
            in if button_enabled m then
                 let rc = check_gpio_usable valid_gpio valid_out oct (button_gpio m) False in
                 if rc \<noteq> ESP_OK then rc
                 else if button_active_low m \<and> button_pull m = BOARD_PIN_PULL_DOWN
                   then ESP_ERR_INVALID_ARG
                 else if \<not> button_active_low m \<and> button_pull m = BOARD_PIN_PULL_UP
                   then ESP_ERR_INVALID_ARG
                 else if restart_ms m \<le> debounce_ms m then ESP_ERR_INVALID_ARG
                 else if factory_reset_ms m \<le> restart_ms m then ESP_ERR_INVALID_ARG
                 else led
               else led)"

text \<open>A whole hold of the button: the first pressed sample, then further pressed samples.\<close>

fun feed_held ::
    "board_button_fsm \<Rightarrow> u32 \<Rightarrow> u32 \<Rightarrow> u64 list \<Rightarrow> board_button_fsm" where
  "feed_held fsm rst fct [] = fsm"
| "feed_held fsm rst fct (t # ts) =
     feed_held (fst (board_button_fsm_feed fsm True t rst fct)) rst fct ts"

text \<open>A pin map for the evaluated examples.\<close>

definition sample_pin_map :: board_pin_map where
  "sample_pin_map =
     \<lparr>button_enabled = True, button_gpio = 4, button_active_low = True,
      button_pull = BOARD_PIN_PULL_UP, debounce_ms = 30, restart_ms = 3000,
      factory_reset_ms = 10000, led_enabled = True, led_gpio = 5\<rparr>"

section \<open>The classifier\<close>

text \<open>What a hold of a given length means, and the overlay that announces it.\<close>

definition classify_press :: "u64 \<Rightarrow> u32 \<Rightarrow> u32 \<Rightarrow> board_io_event" where
  "classify_press d rst fct =
     (if ucast fct \<le> d then BOARD_IO_EVENT_FACTORY_RESET_REQUEST
      else if ucast rst \<le> d then BOARD_IO_EVENT_RESTART_REQUEST
      else BOARD_IO_EVENT_BUTTON_SHORT_PRESS)"

definition classify_overlay :: "u64 \<Rightarrow> u32 \<Rightarrow> u32 \<Rightarrow> board_led_overlay" where
  "classify_overlay d rst fct =
     (if ucast fct \<le> d then BOARD_LED_OVERLAY_FACTORY_ARMED
      else if ucast rst \<le> d then BOARD_LED_OVERLAY_RESTART_ARMED
      else BOARD_LED_OVERLAY_NONE)"

text \<open>
  The invariant of a hold that began at \<open>t0\<close> and was last sampled at \<open>t\<close>: the armed state is the
  class of the hold so far.
\<close>

definition hold_inv :: "u64 \<Rightarrow> u64 \<Rightarrow> u32 \<Rightarrow> u32 \<Rightarrow> board_button_fsm \<Rightarrow> bool" where
  "hold_inv t0 t rst fct fsm \<longleftrightarrow>
     btn_pressed fsm \<and> press_start_ms fsm = t0 \<and> t0 \<le> t \<and>
     btn_state fsm =
       (if ucast fct \<le> t - t0 then BOARD_BUTTON_FSM_FACTORY_ARMED
        else if ucast rst \<le> t - t0 then BOARD_BUTTON_FSM_RESTART_ARMED
        else BOARD_BUTTON_FSM_PRESSED)"

lemma word_diff_mono: "(a::'a::len word) \<le> b \<Longrightarrow> b \<le> c \<Longrightarrow> b - a \<le> c - a"
  by (simp add: word_le_nat_alt unat_sub)

lemma feed_first:
  "\<not> btn_pressed fsm \<Longrightarrow> 0 < rst \<Longrightarrow> rst < fct \<Longrightarrow>
     hold_inv t0 t0 rst fct (fst (board_button_fsm_feed fsm True t0 rst fct))"
  by (auto simp: hold_inv_def board_button_fsm_feed_def Let_def word_less_nat_alt word_le_nat_alt)

lemma feed_held_step:
  assumes "hold_inv t0 t rst fct fsm" "t \<le> u" "rst < fct"
  shows "hold_inv t0 u rst fct (fst (board_button_fsm_feed fsm True u rst fct))"
    and "btn_overlay (snd (board_button_fsm_feed fsm True u rst fct)) = classify_overlay (u - t0) rst fct"
    and "\<not> has_event (snd (board_button_fsm_feed fsm True u rst fct))"
proof -
  have m: "t - t0 \<le> u - t0" using assms by (auto simp: hold_inv_def intro: word_diff_mono)
  have le: "t0 \<le> u" "\<not> u < t0" using assms by (auto simp: hold_inv_def)
  have up: "x \<le> t - t0 \<Longrightarrow> x \<le> u - t0" for x using m by simp
  show "hold_inv t0 u rst fct (fst (board_button_fsm_feed fsm True u rst fct))"
    using assms(1) le up by (auto simp: hold_inv_def board_button_fsm_feed_def Let_def)
  show "btn_overlay (snd (board_button_fsm_feed fsm True u rst fct)) = classify_overlay (u - t0) rst fct"
    using assms(1) le up
    by (auto simp: hold_inv_def board_button_fsm_feed_def Let_def make_result_def classify_overlay_def)
  show "\<not> has_event (snd (board_button_fsm_feed fsm True u rst fct))"
    using assms(1) le by (auto simp: hold_inv_def board_button_fsm_feed_def Let_def make_result_def)
qed

lemma feed_held_inv:
  "\<lbrakk>hold_inv t0 t rst fct fsm; sorted (t # ts); rst < fct\<rbrakk> \<Longrightarrow>
     hold_inv t0 (last (t # ts)) rst fct (feed_held fsm rst fct ts)"
proof (induction ts arbitrary: t fsm)
  case Nil
  then show ?case by simp
next
  case (Cons u ts)
  have "hold_inv t0 u rst fct (fst (board_button_fsm_feed fsm True u rst fct))"
    using Cons.prems by (intro feed_held_step(1) [OF Cons.prems(1)]) auto
  then have "hold_inv t0 (last (u # ts)) rst fct
      (feed_held (fst (board_button_fsm_feed fsm True u rst fct)) rst fct ts)"
    using Cons.prems by (intro Cons.IH) auto
  then show ?case by simp
qed

lemma feed_release:
  "hold_inv t0 t rst fct fsm \<Longrightarrow>
     snd (board_button_fsm_feed fsm False t1 rst fct) =
       make_result True (classify_press (t1 - t0) rst fct) BOARD_LED_OVERLAY_NONE \<and>
     \<not> btn_pressed (fst (board_button_fsm_feed fsm False t1 rst fct))"
  by (simp add: hold_inv_def board_button_fsm_feed_def Let_def classify_press_def)

lemma validate_button_thresholds:
  "board_pin_map_validate vg vo oct (Some m) = ESP_OK \<Longrightarrow> button_enabled m \<Longrightarrow>
     0 < restart_ms m \<and> restart_ms m < factory_reset_ms m"
  by (auto simp: board_pin_map_validate_def Let_def word_less_nat_alt word_le_nat_alt split: if_splits)

section \<open>Properties\<close>

text \<open>
  With thresholds accepted by the pin-map validator, a press is classified by its length alone:
  however the hold is sampled between its first pressed sample \<open>t0\<close> and its release at \<open>t1\<close>, each
  sample shows the overlay of the hold so far and raises no event, and the release raises exactly
  the event of the length \<open>t1 - t0\<close> and leaves the button released.
\<close>

theorem press_classified_by_length:
  assumes "board_pin_map_validate vg vo oct (Some m) = ESP_OK" and "button_enabled m"
    and "\<not> btn_pressed fsm" and "sorted (t0 # ts @ [u])"
  shows "let rst = restart_ms m; fct = factory_reset_ms m;
             held = feed_held (fst (board_button_fsm_feed fsm True t0 rst fct)) rst fct ts
         in btn_overlay (snd (board_button_fsm_feed held True u rst fct)) =
              classify_overlay (u - t0) rst fct \<and>
            \<not> has_event (snd (board_button_fsm_feed held True u rst fct)) \<and>
            snd (board_button_fsm_feed held False t1 rst fct) =
              make_result True (classify_press (t1 - t0) rst fct) BOARD_LED_OVERLAY_NONE \<and>
            \<not> btn_pressed (fst (board_button_fsm_feed held False t1 rst fct))"
proof -
  let ?rst = "restart_ms m" and ?fct = "factory_reset_ms m"
  let ?held = "feed_held (fst (board_button_fsm_feed fsm True t0 ?rst ?fct)) ?rst ?fct ts"
  note th = validate_button_thresholds [OF assms(1,2)]
  have srt: "sorted (t0 # ts)" using assms(4) by (auto simp: sorted_append)
  have inv: "hold_inv t0 (last (t0 # ts)) ?rst ?fct ?held"
    using feed_first [OF assms(3)] th srt by (intro feed_held_inv) auto
  have "last (t0 # ts) \<le> u"
    using assms(4) last_in_set [of "t0 # ts"] by (auto simp: sorted_append split: if_splits)
  from feed_held_step(2,3) [OF inv this] th feed_release [OF inv] show ?thesis
    by (simp add: Let_def)
qed

theorem press_classified_by_length_witness:
  "board_pin_map_validate (\<lambda>_. True) (\<lambda>_. True) True (Some sample_pin_map) = ESP_OK \<and>
   snd (board_button_fsm_feed
     (feed_held (fst (board_button_fsm_feed board_button_fsm_init True 1000 3000 10000))
        3000 10000 [2500, 4100]) False 4200 3000 10000) =
   make_result True BOARD_IO_EVENT_RESTART_REQUEST BOARD_LED_OVERLAY_NONE"
proof -
  have v: "board_pin_map_validate (\<lambda>_. True) (\<lambda>_. True) True (Some sample_pin_map) = ESP_OK"
    by (simp add: board_pin_map_validate_def check_gpio_usable_def pin_in_def sample_pin_map_def)
  have e: "button_enabled sample_pin_map" by (simp add: sample_pin_map_def)
  have b: "\<not> btn_pressed board_button_fsm_init" by (simp add: board_button_fsm_init_def)
  have s: "sorted (1000 # [2500, 4100] @ [4100 :: u64])" by simp
  show ?thesis
    using v press_classified_by_length [OF v e b s, where ?t1.0 = 4200]
    by (simp add: sample_pin_map_def classify_press_def Let_def)
qed

text \<open>
  The release branch subtracts the press time without the guard the hold branch has: a release
  sampled with a clock value below the press time wraps to a huge length and is reported as a
  factory reset, while the same sample with the button still held is dropped.
\<close>

theorem release_before_press_is_factory_reset:
  assumes "btn_pressed fsm" and "now < press_start_ms fsm"
    and "unat (press_start_ms fsm) - unat now \<le> 2 ^ 64 - unat fct"
  shows "snd (board_button_fsm_feed fsm False now rst fct) =
           make_result True BOARD_IO_EVENT_FACTORY_RESET_REQUEST BOARD_LED_OVERLAY_NONE \<and>
         \<not> has_event (snd (board_button_fsm_feed fsm True now rst fct))"
proof -
  have "unat (now - press_start_ms fsm) = 2 ^ 64 + unat now - unat (press_start_ms fsm)"
    using assms(2) unat_sub_if' [of now "press_start_ms fsm"]
    by (simp add: word_less_nat_alt)
  moreover have "unat fct < 2 ^ 32" using unsigned_less [of fct] by simp
  ultimately have "(ucast fct :: u64) \<le> now - press_start_ms fsm"
    using assms(2,3) by (simp add: word_le_nat_alt word_less_nat_alt)
  with assms(1,2) show ?thesis
    by (auto simp: board_button_fsm_feed_def Let_def make_result_def)
qed

theorem release_before_press_is_factory_reset_witness:
  "snd (board_button_fsm_feed
     \<lparr>btn_state = BOARD_BUTTON_FSM_PRESSED, btn_pressed = True, press_start_ms = 5000\<rparr>
     False 4999 3000 10000) =
   make_result True BOARD_IO_EVENT_FACTORY_RESET_REQUEST BOARD_LED_OVERLAY_NONE"
  by (rule release_before_press_is_factory_reset [THEN conjunct1]) simp_all

end
