(* ===== verification/Board_Led.thy ===== *)
theory Board_Led
  imports Board_Button
begin

text \<open>
  The status LED (\<open>board_io/board_led_pattern.c\<close>): a pure function from the base status, the overlay
  and the time since the pattern began to the level of the pin and the number of milliseconds until
  the level changes. The LED task sleeps for that long, so the two outputs have to agree.
\<close>

section \<open>Data\<close>

datatype board_status =
    BOARD_STATUS_BOOTING
  | BOARD_STATUS_PROVISIONING
  | BOARD_STATUS_WIFI_CONNECTING
  | BOARD_STATUS_READY
  | BOARD_STATUS_DEGRADED
  | BOARD_STATUS_ERROR
  | BOARD_STATUS_COUNT

record board_led_pattern_input =
  base_status :: board_status
  overlay :: board_led_overlay
  identify_active :: bool
  activity_active :: bool
  pattern_epoch_ms :: u64
  now_ms :: u64

record board_led_pattern_output =
  effective :: board_led_overlay
  logical_on :: bool
  rel_next_transition_ms :: u32

abbreviation BOARD_LED_PATTERN_NO_TRANSITION :: u32 where
  "BOARD_LED_PATTERN_NO_TRANSITION \<equiv> 0xFFFFFFFF"

section \<open>Operations\<close>

definition blink_rel :: "u64 \<Rightarrow> u32 \<Rightarrow> u32 \<Rightarrow> bool \<times> u32" where
  "blink_rel elapsed period on_ms =
     (let phase = ucast (elapsed mod ucast period) :: u32
      in if phase < on_ms then (True, on_ms - phase) else (False, period - phase))"

definition evaluate_base :: "board_status \<Rightarrow> u64 \<Rightarrow> bool \<times> u32" where
  "evaluate_base status elapsed =
     (case status of
        BOARD_STATUS_BOOTING \<Rightarrow> blink_rel elapsed 200 100
      | BOARD_STATUS_PROVISIONING \<Rightarrow> blink_rel elapsed 1000 500
      | BOARD_STATUS_WIFI_CONNECTING \<Rightarrow> blink_rel elapsed 250 125
      | BOARD_STATUS_READY \<Rightarrow> (True, BOARD_LED_PATTERN_NO_TRANSITION)
      | BOARD_STATUS_DEGRADED \<Rightarrow> blink_rel elapsed 1000 150
      | BOARD_STATUS_ERROR \<Rightarrow>
          (let p = ucast (elapsed mod 1750) :: u32;
               bounds = [150, 300, 450, 600, 750, 1750];
               on = (p < 150 \<or> 300 \<le> p \<and> p < 450 \<or> 600 \<le> p \<and> p < 750)
           in case find_index (\<lambda>b. p < b) bounds of
                Some i \<Rightarrow> (on, bounds ! i - p)
              | None \<Rightarrow> (False, BOARD_LED_PATTERN_NO_TRANSITION))
      | BOARD_STATUS_COUNT \<Rightarrow> (False, BOARD_LED_PATTERN_NO_TRANSITION))"

definition board_led_pattern_evaluate ::
    "board_led_pattern_input \<Rightarrow> board_led_pattern_output" where
  "board_led_pattern_evaluate inp =
     (let elapsed = now_ms inp - pattern_epoch_ms inp;
          out = (\<lambda>eff (on, rel). \<lparr>effective = eff, logical_on = on, rel_next_transition_ms = rel\<rparr>)
      in if overlay inp = BOARD_LED_OVERLAY_FACTORY_ARMED then
           out BOARD_LED_OVERLAY_FACTORY_ARMED (blink_rel elapsed 200 100)
         else if overlay inp = BOARD_LED_OVERLAY_RESTART_ARMED then
           out BOARD_LED_OVERLAY_RESTART_ARMED (True, BOARD_LED_PATTERN_NO_TRANSITION)
         else if base_status inp = BOARD_STATUS_ERROR then
           out BOARD_LED_OVERLAY_NONE (evaluate_base (base_status inp) elapsed)
         else if overlay inp = BOARD_LED_OVERLAY_IDENTIFY \<and> identify_active inp then
           out BOARD_LED_OVERLAY_IDENTIFY (blink_rel elapsed 500 250)
         else if overlay inp = BOARD_LED_OVERLAY_ACTIVITY \<and> activity_active inp then
           out BOARD_LED_OVERLAY_ACTIVITY (True, BOARD_LED_PATTERN_NO_TRANSITION)
         else out BOARD_LED_OVERLAY_NONE (evaluate_base (base_status inp) elapsed))"

section \<open>A pattern and its next transition agree\<close>

text \<open>
  A pattern \<open>f\<close> is a function of the elapsed time. It is \<open>timed\<close> at \<open>e\<close> when it either never
  changes, or keeps its level for exactly the announced number of milliseconds and then toggles;
  \<open>e\<close> must be far enough from the end of the 64-bit clock.
\<close>

definition timed :: "(u64 \<Rightarrow> bool \<times> u32) \<Rightarrow> nat \<Rightarrow> bool" where
  "timed f e \<longleftrightarrow>
     (let (on, rel) = f (of_nat e)
      in if rel = BOARD_LED_PATTERN_NO_TRANSITION then (\<forall>x. f x = (on, rel))
         else 0 < rel \<and> unat rel \<le> 1750 \<and>
              (\<forall>d<unat rel. fst (f (of_nat (e + d))) = on) \<and>
              fst (f (of_nat (e + unat rel))) = (\<not> on))"

lemma unat_of_nat_small [simp]: "e < 2 ^ 64 \<Longrightarrow> unat (of_nat e :: u64) = e"
  by (simp add: unat_of_nat take_bit_nat_eq_self)

lemma phase_eq:
  assumes "e < 2 ^ 64" "0 < p"
  shows "unat (ucast ((of_nat e :: u64) mod ucast p) :: u32) = e mod unat (p :: u32)"
proof -
  have p: "unat (ucast p :: u64) = unat p" by simp
  have "e mod unat p < unat p"
    using assms(2) by (simp add: word_greater_zero_iff unat_gt_0)
  also have "unat p < 2 ^ 32" using unsigned_less [of p] by simp
  finally have "e mod unat p < 2 ^ 32" .
  then show ?thesis
    using assms(1) p by (simp add: unsigned_ucast_eq unat_mod_distrib take_bit_nat_eq_self unat_of_nat)
qed

lemma blink_rel_cases:
  assumes "e < 2 ^ 64" "0 < p"
  shows "fst (blink_rel (of_nat e) p on) \<longleftrightarrow> e mod unat p < unat on"
    and "unat (snd (blink_rel (of_nat e) p on)) =
           (if e mod unat p < unat on then unat on else unat p) - e mod unat p"
proof -
  have "e mod unat p \<le> unat p" using assms(2) by (simp add: word_less_nat_alt less_imp_le)
  then show "fst (blink_rel (of_nat e) p on) \<longleftrightarrow> e mod unat p < unat on"
    and "unat (snd (blink_rel (of_nat e) p on)) =
           (if e mod unat p < unat on then unat on else unat p) - e mod unat p"
    using phase_eq [OF assms]
    by (auto simp: blink_rel_def Let_def word_less_nat_alt word_le_nat_alt unat_sub)
qed

lemma mod_add_split:
  fixes e d p :: nat
  assumes "0 < p"
  shows "e mod p + d < p \<Longrightarrow> (e + d) mod p = e mod p + d"
    and "e mod p + d = p \<Longrightarrow> (e + d) mod p = 0"
  using mod_add_left_eq [of e p d] by auto

lemma timed_blink:
  assumes "e + 1750 < 2 ^ 64" "0 < on" "on < p" "unat p \<le> 1750"
  shows "timed (\<lambda>x. blink_rel x p on) e"
proof -
  let ?P = "unat p" and ?O = "unat on" and ?m = "e mod unat p"
  have p0: "0 < p" "0 < ?P" and o0: "0 < ?O" and op: "?O < ?P"
    using assms(2,3) by (auto simp: word_less_nat_alt)
  have mP: "?m < ?P" using p0 by simp
  let ?r = "(if ?m < ?O then ?O else ?P) - ?m"
  have r: "unat (snd (blink_rel (of_nat e) p on)) = ?r"
    and on: "fst (blink_rel (of_nat e) p on) = (?m < ?O)"
    using blink_rel_cases [OF _ p0(1), of e on] assms(1) by auto
  have r0: "0 < ?r" "?r \<le> ?P" using mP op o0 by (auto split: if_splits)
  have keep: "fst (blink_rel (of_nat (e + d)) p on) = (?m < ?O)" if "d < ?r" for d
  proof -
    have "?m + d < ?P" using that mP op by (auto split: if_splits)
    then have "(e + d) mod ?P = ?m + d" by (rule mod_add_split(1) [OF p0(2)])
    moreover have "e + d < 2 ^ 64" using that r0 assms(1,4) by linarith
    ultimately show ?thesis
      using that by (auto simp only: blink_rel_cases(1) [OF _ p0(1)] split: if_splits)
  qed
  have flip: "fst (blink_rel (of_nat (e + ?r)) p on) = (\<not> ?m < ?O)"
  proof -
    have lt: "e + ?r < 2 ^ 64" using r0 assms(1,4) by linarith
    show ?thesis
    proof (cases "?m < ?O")
      case True
      then have "(e + ?r) mod ?P = ?O" using mod_add_split(1) [OF p0(2), of e ?r] op by simp
      with True show ?thesis by (subst blink_rel_cases(1) [OF lt p0(1)]) simp
    next
      case False
      then have "(e + ?r) mod ?P = 0" using mod_add_split(2) [OF p0(2), of e ?r] mP by simp
      with False o0 show ?thesis by (subst blink_rel_cases(1) [OF lt p0(1)]) simp
    qed
  qed
  have "snd (blink_rel (of_nat e) p on) \<noteq> BOARD_LED_PATTERN_NO_TRANSITION"
    using r r0(2) assms(4) by auto
  then show ?thesis
    using r r0 on keep flip assms(4) unfolding timed_def
    by (auto simp: case_prod_beta word_less_nat_alt simp del: of_nat_add)
qed

text \<open>The error pattern: three short flashes and a pause, as a function of the phase.\<close>

definition err_on :: "nat \<Rightarrow> bool" where
  "err_on m \<longleftrightarrow> m < 150 \<or> 300 \<le> m \<and> m < 450 \<or> 600 \<le> m \<and> m < 750"

definition err_bound :: "nat \<Rightarrow> nat" where
  "err_bound m = (if m < 150 then 150 else if m < 300 then 300 else if m < 450 then 450
                  else if m < 600 then 600 else if m < 750 then 750 else 1750)"

lemma err_keep: "m + d < err_bound m \<Longrightarrow> err_on (m + d) = err_on m"
  by (auto simp: err_on_def err_bound_def split: if_splits)

lemma err_flip: "err_bound m < 1750 \<Longrightarrow> err_on (err_bound m) = (\<not> err_on m)"
  by (auto simp: err_on_def err_bound_def split: if_splits)

lemma err_wrap: "err_bound m = 1750 \<Longrightarrow> \<not> err_on m"
  by (auto simp: err_on_def err_bound_def split: if_splits)

lemma evaluate_error_cases:
  assumes "e < 2 ^ 64"
  shows "fst (evaluate_base BOARD_STATUS_ERROR (of_nat e)) = err_on (e mod 1750)"
    and "unat (snd (evaluate_base BOARD_STATUS_ERROR (of_nat e))) =
           err_bound (e mod 1750) - e mod 1750"
proof -
  let ?p = "ucast ((of_nat e :: u64) mod 1750) :: u32"
  have p: "unat ?p = e mod 1750" using phase_eq [OF assms, of 1750] by simp
  have lt: "(?p < b) = (e mod 1750 < unat b)" for b by (simp add: word_less_nat_alt p)
  have le: "(b \<le> ?p) = (unat b \<le> e mod 1750)" for b by (simp add: word_le_nat_alt p)
  have sub: "?p < b \<Longrightarrow> unat (b - ?p) = unat b - e mod 1750" for b
    using p unat_sub [of ?p b] by (simp add: less_imp_le)
  have m: "e mod 1750 < 1750" by simp
  show "fst (evaluate_base BOARD_STATUS_ERROR (of_nat e)) = err_on (e mod 1750)"
    using m by (simp add: evaluate_base_def Let_def lt le err_on_def split: option.splits)
  show "unat (snd (evaluate_base BOARD_STATUS_ERROR (of_nat e))) = err_bound (e mod 1750) - e mod 1750"
    using m sub [of 150] sub [of 300] sub [of 450] sub [of 600] sub [of 750] sub [of 1750]
    by (simp add: evaluate_base_def Let_def lt err_bound_def)
qed

lemma timed_error:
  assumes "e + 1750 < 2 ^ 64"
  shows "timed (evaluate_base BOARD_STATUS_ERROR) e"
proof -
  let ?f = "evaluate_base BOARD_STATUS_ERROR" and ?m = "e mod 1750"
  let ?r = "err_bound ?m - ?m"
  have e: "e < 2 ^ 64" using assms by simp
  note c = evaluate_error_cases [OF e]
  have m: "?m < err_bound ?m" "err_bound ?m \<le> 1750" by (auto simp: err_bound_def)
  have keep: "fst (?f (of_nat (e + d))) = err_on ?m" if "d < ?r" for d
  proof -
    have "(e + d) mod 1750 = ?m + d" using that m by (intro mod_add_split(1)) auto
    moreover have "e + d < 2 ^ 64" using that m assms by simp
    ultimately show ?thesis
      using that err_keep [of ?m d] evaluate_error_cases(1) [of "e + d"] by (simp del: of_nat_add)
  qed
  have flip: "fst (?f (of_nat (e + ?r))) = (\<not> err_on ?m)"
  proof -
    have lt: "e + ?r < 2 ^ 64" using m assms by simp
    show ?thesis
    proof (cases "err_bound ?m = 1750")
      case True
      then have "(e + ?r) mod 1750 = 0" using m by (intro mod_add_split(2)) auto
      then show ?thesis
        using err_wrap [OF True] by (subst evaluate_error_cases(1) [OF lt]) (simp add: err_on_def)
    next
      case False
      then have "(e + ?r) mod 1750 = err_bound ?m" using mod_add_split(1) [of 1750 e ?r] m by simp
      then show ?thesis
        using err_flip [of ?m] False m by (subst evaluate_error_cases(1) [OF lt]) simp
    qed
  qed
  have "snd (?f (of_nat e)) \<noteq> BOARD_LED_PATTERN_NO_TRANSITION" using c(2) m by auto
  then show ?thesis
    using c m keep flip unfolding timed_def
    by (auto simp: case_prod_beta word_less_nat_alt simp del: of_nat_add)
qed

lemma timed_const: "timed (\<lambda>x. (b, BOARD_LED_PATTERN_NO_TRANSITION)) e"
  by (simp add: timed_def)

lemma timed_base:
  assumes "e + 1750 < 2 ^ 64"
  shows "timed (evaluate_base st) e"
proof (cases st)
  case BOARD_STATUS_ERROR
  with timed_error [OF assms] show ?thesis by simp
qed (simp_all add: evaluate_base_def [abs_def] timed_const timed_blink [OF assms])

section \<open>Properties\<close>

text \<open>
  The LED never sleeps through a change: for every status, overlay and time since the pattern
  began (away from the end of the 64-bit clock), the level of the pin either never changes for this
  input, or stays as it is for exactly the announced number of milliseconds, at most 1750, and is
  the opposite at that moment.
\<close>

theorem led_next_transition_exact:
  assumes "unat (pattern_epoch_ms inp) + e + 1750 < 2 ^ 64"
  shows "timed (\<lambda>x. let r = board_led_pattern_evaluate (inp\<lparr>now_ms := pattern_epoch_ms inp + x\<rparr>)
                     in (logical_on r, rel_next_transition_ms r)) e"
proof -
  have e: "e + 1750 < 2 ^ 64" using assms by simp
  note t = timed_base [OF e] timed_const timed_blink [OF e]
  show ?thesis
    by (cases "overlay inp"; cases "base_status inp"; cases "identify_active inp"; cases "activity_active inp")
      (simp_all add: board_led_pattern_evaluate_def Let_def case_prod_beta t)
qed

theorem led_next_transition_exact_witness:
  "timed (\<lambda>x. let r = board_led_pattern_evaluate
       \<lparr>base_status = BOARD_STATUS_ERROR, overlay = BOARD_LED_OVERLAY_NONE, identify_active = False,
        activity_active = False, pattern_epoch_ms = 5000, now_ms = 5000 + x\<rparr>
     in (logical_on r, rel_next_transition_ms r)) 310"
  using led_next_transition_exact [of
    "\<lparr>base_status = BOARD_STATUS_ERROR, overlay = BOARD_LED_OVERLAY_NONE, identify_active = False,
      activity_active = False, pattern_epoch_ms = 5000, now_ms = 0\<rparr>" 310]
  by simp

end
