(* ===== verification/Dns_Packet.thy ===== *)
theory Dns_Packet
  imports Gw_Prelude "HOL-Library.Monad_Syntax"
begin

unbundle bit_operations_syntax

text \<open>
  The captive-portal DNS responder (\<open>wifi_provisioning/dns_packet.c\<close>). It parses a query and writes
  the answer over it in the same buffer. Every read and write of the buffer is checked: an access
  outside the buffer is \<^term>\<open>None\<close>, so a theorem that the function returns \<^term>\<open>Some\<close> is a memory-safety
  theorem. Lengths and offsets are the C \<open>int\<close>s of the source; \<open>ip\<close> is the four bytes of
  \<open>redirect_ip->addr\<close> in memory order.
\<close>

section \<open>Data\<close>

type_synonym packet = "u8 list"

datatype dns_parse_result = DNS_PARSE_OK | DNS_PARSE_MALFORMED | DNS_PARSE_UNSUPPORTED

record dns_question =
  qtype :: u16
  qclass :: u16
  question_end :: int

definition rd :: "packet \<Rightarrow> int \<Rightarrow> u8 option" where
  "rd buf i = (if 0 \<le> i \<and> i < int (length buf) then Some (buf ! nat i) else None)"

definition wr :: "packet \<Rightarrow> int \<Rightarrow> u8 \<Rightarrow> packet option" where
  "wr buf i v = (if 0 \<le> i \<and> i < int (length buf) then Some (buf[nat i := v]) else None)"

text \<open>\<open>memcpy\<close> into the buffer, byte by byte.\<close>

fun wr_all :: "packet \<Rightarrow> int \<Rightarrow> u8 list \<Rightarrow> packet option" where
  "wr_all buf i [] = Some buf"
| "wr_all buf i (b # bs) = do { buf' \<leftarrow> wr buf i b; wr_all buf' (i + 1) bs }"

section \<open>Operations\<close>

definition read_u16_be :: "packet \<Rightarrow> int \<Rightarrow> u16 option" where
  "read_u16_be buf i =
     do { hi \<leftarrow> rd buf i; lo \<leftarrow> rd buf (i + 1); Some (push_bit 8 (ucast hi) OR ucast lo) }"

definition write_u16_be :: "packet \<Rightarrow> int \<Rightarrow> u16 \<Rightarrow> packet option" where
  "write_u16_be buf i value =
     do { buf1 \<leftarrow> wr buf i (ucast (drop_bit 8 value)); wr buf1 (i + 1) (ucast (value AND 0xff)) }"

definition ascii_lower :: "u8 \<Rightarrow> u8" where
  "ascii_lower c = (if 65 \<le> c \<and> c \<le> 90 then c + 32 else c)"

definition dns_parse_header :: "packet \<Rightarrow> int \<Rightarrow> dns_parse_result option" where
  "dns_parse_header buf len =
     (if len < 12 then Some DNS_PARSE_MALFORMED
      else do {
        b2 \<leftarrow> rd buf 2;
        if b2 AND 0x80 \<noteq> 0 then Some DNS_PARSE_MALFORMED
        else if b2 AND 0x78 \<noteq> 0 then Some DNS_PARSE_UNSUPPORTED
        else do {
          qdcount \<leftarrow> read_u16_be buf 4;
          Some (if qdcount \<noteq> 1 then DNS_PARSE_UNSUPPORTED else DNS_PARSE_OK)
        }
      })"

text \<open>
  The label loop of \<open>dns_parse_question\<close>: \<open>Some None\<close> is a malformed name, \<open>Some (Some off)\<close> the
  offset behind the root label.
\<close>

function skip_name :: "packet \<Rightarrow> int \<Rightarrow> int \<Rightarrow> int option option" where
  "skip_name buf len offset =
     (if len \<le> offset then Some None
      else case rd buf offset of
             None \<Rightarrow> None
           | Some l \<Rightarrow>
               if l = 0 then Some (Some (offset + 1))
               else if l AND 0xc0 \<noteq> 0 \<or> 63 < l \<or> len < offset + 1 + uint l then Some None
               else skip_name buf len (offset + 1 + uint l))"
  by pat_completeness auto
termination
  by (relation "measure (\<lambda>(buf, len, offset). nat (len - offset))") auto

definition dns_parse_question ::
    "packet \<Rightarrow> int \<Rightarrow> (dns_parse_result \<times> dns_question option) option" where
  "dns_parse_question buf len =
     do {
       name \<leftarrow> skip_name buf len 12;
       case name of
         None \<Rightarrow> Some (DNS_PARSE_MALFORMED, None)
       | Some offset \<Rightarrow>
           if len < offset + 4 then Some (DNS_PARSE_MALFORMED, None)
           else do {
             t \<leftarrow> read_u16_be buf offset;
             c \<leftarrow> read_u16_be buf (offset + 2);
             Some (DNS_PARSE_OK, Some \<lparr>qtype = t, qclass = c, question_end = offset + 4\<rparr>)
           }
     }"

text \<open>The inner loop of \<open>question_name_equals\<close>: one label against the expected text.\<close>

fun label_matches :: "packet \<Rightarrow> int \<Rightarrow> nat \<Rightarrow> string \<Rightarrow> bool option" where
  "label_matches buf offset 0 expected = Some True"
| "label_matches buf offset (Suc n) expected =
     (case expected of
        [] \<Rightarrow> Some False
      | c # cs \<Rightarrow>
          if c = CHR ''.'' then Some False
          else do {
            b \<leftarrow> rd buf offset;
            if ascii_lower b \<noteq> ascii_lower (of_char c) then Some False
            else label_matches buf (offset + 1) n cs
          })"

function name_equals_from :: "packet \<Rightarrow> int \<Rightarrow> int \<Rightarrow> string \<Rightarrow> bool option" where
  "name_equals_from buf len offset expected =
     (if len \<le> offset then Some False
      else case rd buf offset of
             None \<Rightarrow> None
           | Some l \<Rightarrow>
               if l = 0 then Some (expected = [])
               else if l AND 0xc0 \<noteq> 0 \<or> 63 < l \<or> len < offset + 1 + uint l then Some False
               else case label_matches buf (offset + 1) (unat l) expected of
                      None \<Rightarrow> None
                    | Some False \<Rightarrow> Some False
                    | Some True \<Rightarrow>
                        (case drop (unat l) expected of
                           [] \<Rightarrow> name_equals_from buf len (offset + 1 + uint l) []
                         | c # cs \<Rightarrow>
                             if c = CHR ''.'' then name_equals_from buf len (offset + 1 + uint l) cs
                             else Some False))"
  by pat_completeness auto
termination
  by (relation "measure (\<lambda>(buf, len, offset, ex). nat (len - offset))") auto

definition question_name_equals :: "packet \<Rightarrow> int \<Rightarrow> string \<Rightarrow> bool option" where
  "question_name_equals buf len expected = name_equals_from buf len 12 expected"

definition is_adguard_injection_domain :: "packet \<Rightarrow> int \<Rightarrow> bool option" where
  "is_adguard_injection_domain buf len =
     do {
       a \<leftarrow> question_name_equals buf len ''local.adguard.org'';
       if a then Some True else question_name_equals buf len ''local.adguard.com''
     }"

text \<open>The answer record: compressed name, type A, class IN, TTL 30, length 4, the address.\<close>

definition write_answer :: "packet \<Rightarrow> int \<Rightarrow> u8 list \<Rightarrow> (packet \<times> int) option" where
  "write_answer buf qend ip =
     do {
       b1 \<leftarrow> write_u16_be buf 6 1;
       b2 \<leftarrow> wr b1 qend 0xc0;
       b3 \<leftarrow> wr b2 (qend + 1) 0x0c;
       b4 \<leftarrow> write_u16_be b3 (qend + 2) 1;
       b5 \<leftarrow> write_u16_be b4 (qend + 4) 1;
       b6 \<leftarrow> write_u16_be b5 (qend + 6) 0;
       b7 \<leftarrow> write_u16_be b6 (qend + 8) 30;
       b8 \<leftarrow> write_u16_be b7 (qend + 10) 4;
       b9 \<leftarrow> wr_all b8 (qend + 12) ip;
       Some (b9, qend + 16)
     }"

definition dns_build_response :: "packet \<Rightarrow> int \<Rightarrow> u8 list \<Rightarrow> (packet \<times> int) option" where
  "dns_build_response buf query_len ip =
     do {
       parse \<leftarrow> dns_parse_header buf query_len;
       if parse = DNS_PARSE_MALFORMED then Some (buf, -1)
       else do {
         flags \<leftarrow> rd buf 2;
         let rdbit = flags AND 0x01;
         (result, question) \<leftarrow>
           (if parse = DNS_PARSE_OK then dns_parse_question buf query_len
            else Some (DNS_PARSE_OK, None));
         if result = DNS_PARSE_MALFORMED then Some (buf, -1)
         else do {
           let unsupported = (parse = DNS_PARSE_UNSUPPORTED \<or> result = DNS_PARSE_UNSUPPORTED);
           let rcode = (if unsupported then 4 else 0);
           let qend = (case question of None \<Rightarrow> 0 | Some q \<Rightarrow> question_end q);
           b1 \<leftarrow> wr buf 2 (0x80 OR rdbit);
           b2 \<leftarrow> wr b1 3 rcode;
           b3 \<leftarrow> write_u16_be b2 6 0;
           b4 \<leftarrow> write_u16_be b3 8 0;
           b5 \<leftarrow> write_u16_be b4 10 0;
           case question of
             None \<Rightarrow> Some (b5, if 0 < qend then qend else 12)
           | Some q \<Rightarrow>
               if rcode \<noteq> 0 then Some (b5, if 0 < qend then qend else 12)
               else if qclass q \<noteq> 1 then do { b6 \<leftarrow> wr b5 3 4; Some (b6, qend) }
               else do {
                 adguard \<leftarrow> is_adguard_injection_domain b5 query_len;
                 if adguard then do { b6 \<leftarrow> wr b5 3 3; Some (b6, qend) }
                 else if qtype q \<noteq> 1 then Some (b5, qend)
                 else if 512 < qend + 16 then Some (b5, -1)
                 else write_answer b5 qend ip
               }
         }
       }
     }"

section \<open>Memory safety\<close>

declare skip_name.simps [simp del] name_equals_from.simps [simp del]

lemma rd_ok [simp]: "0 \<le> i \<Longrightarrow> i < int (length buf) \<Longrightarrow> rd buf i = Some (buf ! nat i)"
  by (simp add: rd_def)

lemma wr_ok [simp]: "0 \<le> i \<Longrightarrow> i < int (length buf) \<Longrightarrow> wr buf i v = Some (buf[nat i := v])"
  by (simp add: wr_def)

lemma read_u16_be_ok [simp]:
  "0 \<le> i \<Longrightarrow> i + 1 < int (length buf) \<Longrightarrow>
     read_u16_be buf i = Some (push_bit 8 (ucast (buf ! nat i)) OR ucast (buf ! Suc (nat i)))"
  by (simp add: read_u16_be_def Suc_nat_eq_nat_zadd1 add.commute)

lemma write_u16_be_ok:
  "0 \<le> i \<Longrightarrow> i + 1 < int (length buf) \<Longrightarrow>
     \<exists>b. write_u16_be buf i v = Some b \<and> length b = length buf"
  by (simp add: write_u16_be_def)

lemma wr_all_eq:
  "n + length bs \<le> length buf \<Longrightarrow>
     wr_all buf (int n) bs = Some (take n buf @ bs @ drop (n + length bs) buf)"
proof (induction bs arbitrary: buf n)
  case Nil
  then show ?case by simp
next
  case (Cons b bs)
  have "wr_all (buf[n := b]) (int (Suc n)) bs =
          Some (take (Suc n) (buf[n := b]) @ bs @ drop (Suc n + length bs) (buf[n := b]))"
    using Cons.prems by (intro Cons.IH) simp
  moreover have "take (Suc n) (buf[n := b]) = take n buf @ [b]"
    using Cons.prems by (simp add: take_Suc_conv_app_nth)
  ultimately show ?case
    using Cons.prems by (simp add: add.commute [of 1])
qed

lemma wr_all_ok:
  assumes "0 \<le> i" and "i + int (length bs) \<le> int (length buf)"
  shows "\<exists>b. wr_all buf i bs = Some b \<and> length b = length buf"
  using wr_all_eq [of "nat i" bs buf] assms by auto

lemma wr_all_append:
  "wr_all buf i (xs @ ys) = do { b \<leftarrow> wr_all buf i xs; wr_all b (i + int (length xs)) ys }"
  by (induction xs arbitrary: buf i) (auto simp: add.assoc split: Option.bind_splits)

lemma write_u16_be_wr_all:
  "write_u16_be buf i v = wr_all buf i [ucast (drop_bit 8 v), ucast (v AND 0xff)]"
  by (simp add: write_u16_be_def)

definition answer_record :: "u8 list \<Rightarrow> u8 list" where
  "answer_record ip = [0xc0, 0x0c, 0, 1, 0, 1, 0, 0, 0, 30, 0, 4] @ ip"

lemma write_answer_eq:
  "write_answer buf q ip =
     do { b \<leftarrow> wr_all buf 6 [0, 1]; b' \<leftarrow> wr_all b q (answer_record ip); Some (b', q + 16) }"
  by (simp add: write_answer_def write_u16_be_def answer_record_def add.assoc)

lemma skip_name_ok:
  "len \<le> int (length buf) \<Longrightarrow> 0 \<le> offset \<Longrightarrow>
     \<exists>r. skip_name buf len offset = Some r \<and> (\<forall>off. r = Some off \<longrightarrow> offset < off \<and> off \<le> len)"
proof (induction buf len offset rule: skip_name.induct)
  case (1 buf len offset)
  show ?case
  proof (cases "len \<le> offset")
    case True
    then show ?thesis by (subst skip_name.simps) simp
  next
    case False
    let ?l = "buf ! nat offset"
    have r: "rd buf offset = Some ?l" using False "1.prems" by simp
    show ?thesis
    proof (cases "?l = 0 \<or> ?l AND 0xc0 \<noteq> 0 \<or> 63 < ?l \<or> len < offset + 1 + uint ?l")
      case True
      with False r show ?thesis by (subst skip_name.simps) auto
    next
      case rec: False
      have "\<exists>r. skip_name buf len (offset + 1 + uint ?l) = Some r \<and>
              (\<forall>off. r = Some off \<longrightarrow> offset + 1 + uint ?l < off \<and> off \<le> len)"
        using "1.IH" [OF False r] rec "1.prems" by (simp add: add_nonneg_nonneg)
      moreover have "skip_name buf len offset = skip_name buf len (offset + 1 + uint ?l)"
        using False r rec by (subst skip_name.simps) simp
      moreover have "offset < offset + 1 + uint ?l" using uint_gt_minus_one [of ?l] by linarith
      ultimately show ?thesis by (auto dest: less_trans)
    qed
  qed
qed

lemma label_matches_ok:
  "0 \<le> offset \<Longrightarrow> offset + int n \<le> int (length buf) \<Longrightarrow> \<exists>b. label_matches buf offset n ex = Some b"
  by (induction n arbitrary: offset ex) (auto split: list.splits)

lemma name_equals_ok:
  "len \<le> int (length buf) \<Longrightarrow> 0 \<le> offset \<Longrightarrow> \<exists>b. name_equals_from buf len offset ex = Some b"
proof (induction buf len offset ex rule: name_equals_from.induct)
  case (1 buf len offset ex)
  show ?case
  proof (cases "len \<le> offset")
    case True
    then have "name_equals_from buf len offset ex = Some False"
      by (subst name_equals_from.simps) simp
    then show ?thesis by blast
  next
    case False
    let ?l = "buf ! nat offset"
    have r: "rd buf offset = Some ?l" using False "1.prems" by simp
    show ?thesis
    proof (cases "?l = 0 \<or> ?l AND 0xc0 \<noteq> 0 \<or> 63 < ?l \<or> len < offset + 1 + uint ?l")
      case True
      with False r show ?thesis by (subst name_equals_from.simps) auto
    next
      case rec: False
      have "\<exists>b. label_matches buf (offset + 1) (unat ?l) ex = Some b"
        using rec "1.prems" by (intro label_matches_ok) (auto simp: uint_nat [symmetric])
      then obtain b where b: "label_matches buf (offset + 1) (unat ?l) ex = Some b" by blast
      show ?thesis
        using False r rec b "1.prems" "1.IH" [OF False r]
        by (subst name_equals_from.simps) (auto split: list.splits bool.splits simp: add_nonneg_nonneg)
    qed
  qed
qed

lemma is_adguard_ok: "len \<le> int (length buf) \<Longrightarrow> \<exists>b. is_adguard_injection_domain buf len = Some b"
  using name_equals_ok [of len buf 12 "''local.adguard.org''"]
    name_equals_ok [of len buf 12 "''local.adguard.com''"]
  by (auto simp: is_adguard_injection_domain_def question_name_equals_def)

lemma write_answer_ok:
  assumes "12 \<le> q" "q + 16 \<le> int (length buf)" "length ip = 4"
  shows "\<exists>b. write_answer buf q ip = Some (b, q + 16) \<and> length b = length buf"
proof -
  from assms obtain b1 where b1: "wr_all buf 6 [0, 1] = Some b1" "length b1 = length buf"
    using wr_all_ok [of 6 "[0, 1]" buf] by auto
  moreover have "\<exists>b2. wr_all b1 q (answer_record ip) = Some b2 \<and> length b2 = length b1"
    using assms b1 by (intro wr_all_ok) (auto simp: answer_record_def)
  ultimately show ?thesis by (auto simp: write_answer_eq)
qed

text \<open>The buffer after the header rewrite, which is common to every response.\<close>

definition rewritten :: "packet \<Rightarrow> u8 \<Rightarrow> u8 \<Rightarrow> packet" where
  "rewritten buf flags rcode =
     take 2 buf @ [flags, rcode] @ take 2 (drop 4 buf) @ [0, 0, 0, 0, 0, 0] @ drop 12 buf"

lemma length_rewritten [simp]: "12 \<le> length buf \<Longrightarrow> length (rewritten buf f rc) = length buf"
  by (simp add: rewritten_def)

lemma wr_rewritten:
  assumes "12 \<le> length buf"
  shows "wr (rewritten buf f rc) 3 rc' = Some (rewritten buf f rc')"
proof -
  obtain a b xs where "buf = a # b # xs"
    using assms by (cases buf rule: remdups_adj.cases) auto
  with assms show ?thesis by (simp add: rewritten_def wr_def eval_nat_numeral)
qed

lemma header_writes_ok:
  assumes "12 \<le> length buf"
  shows "do { b1 \<leftarrow> wr buf 2 f; b2 \<leftarrow> wr b1 3 rc; b3 \<leftarrow> write_u16_be b2 6 0;
              b4 \<leftarrow> write_u16_be b3 8 0; b5 \<leftarrow> write_u16_be b4 10 0; k b5 } =
         k (rewritten buf f rc)"
proof -
  have "do { b1 \<leftarrow> wr buf 2 f; b2 \<leftarrow> wr b1 3 rc; b3 \<leftarrow> write_u16_be b2 6 0;
              b4 \<leftarrow> write_u16_be b3 8 0; b5 \<leftarrow> write_u16_be b4 10 0; k b5 } =
        do { b1 \<leftarrow> wr_all buf 2 [f, rc]; b2 \<leftarrow> wr_all b1 6 [0, 0, 0, 0, 0, 0]; k b2 }"
    by (simp add: write_u16_be_def)
  also have "\<dots> = k (rewritten buf f rc)"
    using assms wr_all_eq [of 2 "[f, rc]" buf]
      wr_all_eq [of 6 "[0, 0, 0, 0, 0, 0]" "take 2 buf @ [f, rc] @ drop 4 buf"]
    by (simp add: rewritten_def)
  finally show ?thesis .
qed

lemma header_cases:
  assumes "12 \<le> length buf" "12 \<le> len" "buf ! 2 AND 0x80 = 0"
  shows "dns_parse_header buf len = Some DNS_PARSE_OK \<or>
         dns_parse_header buf len = Some DNS_PARSE_UNSUPPORTED"
  using assms by (auto simp: dns_parse_header_def)

lemma respond_unsupported:
  assumes "12 \<le> length buf" "dns_parse_header buf len = Some DNS_PARSE_UNSUPPORTED"
  shows "dns_build_response buf len ip = Some (rewritten buf (0x80 OR (buf ! 2 AND 1)) 4, 12)"
  using assms by (simp add: dns_build_response_def header_writes_ok del: wr_ok)

lemma respond_malformed:
  assumes "12 \<le> length buf" "dns_parse_header buf len = Some DNS_PARSE_OK"
    and "dns_parse_question buf len = Some (DNS_PARSE_MALFORMED, x)"
  shows "dns_build_response buf len ip = Some (buf, -1)"
  using assms by (simp add: dns_build_response_def)

lemma respond_question:
  assumes "12 \<le> length buf" "dns_parse_header buf len = Some DNS_PARSE_OK"
    and "dns_parse_question buf len = Some (DNS_PARSE_OK, Some q)"
  shows "dns_build_response buf len ip =
    (let b = rewritten buf (0x80 OR (buf ! 2 AND 1)); qend = question_end q
     in if qclass q \<noteq> 1 then Some (b 4, qend)
        else do {
          adguard \<leftarrow> is_adguard_injection_domain (b 0) len;
          if adguard then Some (b 3, qend)
          else if qtype q \<noteq> 1 then Some (b 0, qend)
          else if 512 < qend + 16 then Some (b 0, -1)
          else write_answer (b 0) qend ip
        })"
  using assms
  by (simp add: dns_build_response_def header_writes_ok Let_def wr_rewritten del: wr_ok cong: if_cong)

lemma parse_question_cases:
  assumes "len \<le> int (length buf)"
  obtains x where "dns_parse_question buf len = Some (DNS_PARSE_MALFORMED, x)"
  | q where "dns_parse_question buf len = Some (DNS_PARSE_OK, Some q)"
    "12 \<le> question_end q" "question_end q \<le> len"
proof -
  obtain r where r: "skip_name buf len 12 = Some r" "\<forall>off. r = Some off \<longrightarrow> 12 < off \<and> off \<le> len"
    using skip_name_ok [OF assms, of 12] by auto
  show thesis
  proof (cases "\<exists>off. r = Some off \<and> off + 4 \<le> len")
    case True
    then obtain off where off: "r = Some off" "off + 4 \<le> len" by blast
    with r assms have "12 < off" by simp
    with off r(1) assms that(2) show thesis by (simp add: dns_parse_question_def)
  next
    case False
    with r have "dns_parse_question buf len = Some (DNS_PARSE_MALFORMED, None)"
      by (cases r) (auto simp: dns_parse_question_def)
    then show thesis by (rule that(1))
  qed
qed

section \<open>Names on the wire\<close>

definition encode_name :: "u8 list list \<Rightarrow> u8 list" where
  "encode_name ls = concat (map (\<lambda>l. of_nat (length l) # l) ls) @ [0]"

definition wire_labels :: "u8 list list \<Rightarrow> bool" where
  "wire_labels ls \<longleftrightarrow> (\<forall>l\<in>set ls. l \<noteq> [] \<and> length l \<le> 63)"

fun dotted :: "string list \<Rightarrow> string" where
  "dotted [] = []"
| "dotted [d] = d"
| "dotted (d # ds) = d @ CHR ''.'' # dotted ds"

definition same_name :: "u8 list list \<Rightarrow> string list \<Rightarrow> bool" where
  "same_name ls ds \<longleftrightarrow> map (map ascii_lower) ls = map (map (\<lambda>c. ascii_lower (of_char c))) ds"

lemma encode_name_simps [simp]:
  "encode_name [] = [0]"
  "encode_name (l # ls) = of_nat (length l) # l @ encode_name ls"
  by (simp_all add: encode_name_def)

lemma small_label_bits: "x \<le> (63 :: u8) \<Longrightarrow> x AND 0xc0 = 0"
proof -
  assume "x \<le> 63"
  then have "unat x < 2 ^ 6" by (simp add: word_le_nat_alt)
  then have "take_bit 6 x = x"
    by (simp add: word_eq_iff_unsigned [where ?'a = nat] unsigned_take_bit_eq take_bit_nat_eq_self)
  then have x: "bit x n \<Longrightarrow> n < 6" for n by (metis bit_take_bit_iff)
  have c: "n < 6 \<Longrightarrow> \<not> bit (0xc0 :: u8) n" for n
    by (auto simp: eval_nat_numeral less_Suc_eq)
  have "\<not> bit (x AND 0xc0) n" for n unfolding bit_and_iff using x c by blast
  then show ?thesis by (intro bit_eqI) simp
qed

lemma label_byte:
  assumes "l \<noteq> []" "length l \<le> 63"
  shows "(of_nat (length l) :: u8) \<noteq> 0" "(of_nat (length l) :: u8) AND 0xc0 = 0"
    "\<not> 63 < (of_nat (length l) :: u8)" "unat (of_nat (length l) :: u8) = length l"
    "uint (of_nat (length l) :: u8) = int (length l)"
proof -
  show u: "unat (of_nat (length l) :: u8) = length l"
    using assms by (simp add: unat_of_nat take_bit_nat_eq_self)
  then show "uint (of_nat (length l) :: u8) = int (length l)" by (metis uint_nat)
  from u show "(of_nat (length l) :: u8) \<noteq> 0" using assms by (metis length_0_conv unat_0)
  from u show "\<not> 63 < (of_nat (length l) :: u8)" using assms by (simp add: word_less_nat_alt)
  then show "(of_nat (length l) :: u8) AND 0xc0 = 0" by (intro small_label_bits) simp
qed

lemma rd_append: "rd (pre @ x # post) (int (length pre)) = Some x"
  by (simp add: rd_def)

lemma skip_encode_name:
  "\<lbrakk>wire_labels ls; int (length pre + length (encode_name ls)) \<le> len;
    len \<le> int (length (pre @ encode_name ls @ post))\<rbrakk> \<Longrightarrow>
     skip_name (pre @ encode_name ls @ post) len (int (length pre)) =
       Some (Some (int (length pre + length (encode_name ls))))"
proof (induction ls arbitrary: pre)
  case Nil
  then show ?case by (subst skip_name.simps) (simp add: rd_append)
next
  case (Cons l ls)
  let ?pre = "pre @ of_nat (length l) # l"
  note b = label_byte [of l]
  have w: "l \<noteq> []" "length l \<le> 63" "wire_labels ls" using Cons.prems(1) by (auto simp: wire_labels_def)
  have "skip_name (pre @ encode_name (l # ls) @ post) len (int (length pre)) =
        skip_name (?pre @ encode_name ls @ post) len (int (length ?pre))"
    using Cons.prems b [OF w(1,2)] by (subst skip_name.simps) (simp add: rd_append ac_simps)
  also have "\<dots> = Some (Some (int (length ?pre + length (encode_name ls))))"
    using Cons.prems w by (intro Cons.IH) auto
  finally show ?case by simp
qed

lemma label_matches_eq:
  "label_matches (pre @ l @ post) (int (length pre)) (length l) ex =
     Some (length l \<le> length ex \<and> CHR ''.'' \<notin> set (take (length l) ex) \<and>
           map ascii_lower l = map (\<lambda>c. ascii_lower (of_char c)) (take (length l) ex))"
proof (induction l arbitrary: pre ex)
  case Nil
  then show ?case by simp
next
  case (Cons b l)
  show ?case
  proof (cases ex)
    case Nil
    then show ?thesis by simp
  next
    case (Cons c cs)
    have "label_matches ((pre @ [b]) @ l @ post) (int (length (pre @ [b]))) (length l) cs =
      Some (length l \<le> length cs \<and> CHR ''.'' \<notin> set (take (length l) cs) \<and>
           map ascii_lower l = map (\<lambda>c. ascii_lower (of_char c)) (take (length l) cs))"
      by (rule Cons.IH)
    then show ?thesis
      using Cons by (auto simp: rd_append add.commute)
  qed
qed

lemma dotted_Cons:
  "dotted (d # ds) = d @ (if ds = [] then [] else CHR ''.'' # dotted ds)"
  by (cases ds) auto

lemma dotted_label:
  assumes "CHR ''.'' \<notin> set d" "l \<noteq> []"
  shows "length l \<le> length (dotted (d # ds)) \<and> CHR ''.'' \<notin> set (take (length l) (dotted (d # ds))) \<and>
           map ascii_lower l = map (\<lambda>c. ascii_lower (of_char c)) (take (length l) (dotted (d # ds))) \<longleftrightarrow>
         length l \<le> length d \<and> map ascii_lower l = map (\<lambda>c. ascii_lower (of_char c)) (take (length l) d)"
proof (cases "length l \<le> length d")
  case True
  with assms show ?thesis by (auto simp: dotted_Cons dest: in_set_takeD)
next
  case False
  then obtain k where "length l - length d = Suc k" by (metis Suc_diff_Suc not_le)
  with False show ?thesis by (auto simp: dotted_Cons)
qed

lemma name_equals_encode:
  "\<lbrakk>wire_labels ls; \<forall>d\<in>set ds. d \<noteq> [] \<and> CHR ''.'' \<notin> set d;
    int (length pre + length (encode_name ls)) \<le> len;
    len \<le> int (length (pre @ encode_name ls @ post))\<rbrakk> \<Longrightarrow>
     name_equals_from (pre @ encode_name ls @ post) len (int (length pre)) (dotted ds) =
       Some (same_name ls ds)"
proof (induction ls arbitrary: pre ds)
  case Nil
  have "dotted ds = [] \<longleftrightarrow> ds = []" using Nil.prems(2) by (cases ds) (auto simp: dotted_Cons)
  with Nil.prems show ?case by (subst name_equals_from.simps) (auto simp: rd_append same_name_def)
next
  case (Cons l ls)
  let ?pre = "pre @ of_nat (length l) # l"
  have w: "l \<noteq> []" "length l \<le> 63" "wire_labels ls" using Cons.prems(1) by (auto simp: wire_labels_def)
  note b = label_byte [OF w(1,2)]
  define P where "P ex \<longleftrightarrow> length l \<le> length ex \<and> CHR ''.'' \<notin> set (take (length l) ex) \<and>
           map ascii_lower l = map (\<lambda>c. ascii_lower (of_char c)) (take (length l) ex)" for ex
  have lm: "label_matches (pre @ of_nat (length l) # l @ encode_name ls @ post)
      (int (length pre) + 1) (length l) ex = Some (P ex)" for ex
    using label_matches_eq [of "pre @ [of_nat (length l)]" l "encode_name ls @ post" ex]
    by (simp add: add.commute P_def)
  have IH: "name_equals_from (?pre @ encode_name ls @ post) len (int (length ?pre)) (dotted ds') =
      Some (same_name ls ds')" if "set ds' \<subseteq> set ds" for ds'
    using Cons.prems w that by (intro Cons.IH) auto
  note unfold = name_equals_from.simps [of "pre @ encode_name (l # ls) @ post" len "int (length pre)"]
  have pre: "int (length pre) + 1 + int (length l) = int (length ?pre)" by simp
  show ?case
  proof (cases ds)
    case Nil
    with Cons.prems w b show ?thesis by (subst unfold) (simp add: rd_append lm same_name_def P_def)
  next
    case ds: (Cons d ds')
    have d: "d \<noteq> []" "CHR ''.'' \<notin> set d" using Cons.prems(2) ds by auto
    have dl: "P (dotted ds) \<longleftrightarrow> length l \<le> length d \<and>
        map ascii_lower l = map (\<lambda>c. ascii_lower (of_char c)) (take (length l) d)"
      using dotted_label [OF d(2) w(1), of ds'] unfolding P_def ds .
    show ?thesis
    proof (cases "length l \<le> length d \<and>
        map ascii_lower l = map (\<lambda>c. ascii_lower (of_char c)) (take (length l) d)")
      case False
      have "\<not> same_name (l # ls) ds"
      proof
        assume "same_name (l # ls) ds"
        then have m: "map ascii_lower l = map (\<lambda>c. ascii_lower (of_char c)) d"
          using ds by (simp add: same_name_def)
        then have "length l = length d" by (metis length_map)
        with m False show False by simp
      qed
      moreover have "\<not> P (dotted ds)" using dl False by blast
      ultimately show ?thesis
        using Cons.prems b by (subst unfold) (simp add: rd_append lm)
    next
      case True
      have step: "name_equals_from (pre @ encode_name (l # ls) @ post) len (int (length pre)) (dotted ds) =
        (case drop (length l) (dotted ds) of
           [] \<Rightarrow> name_equals_from (?pre @ encode_name ls @ post) len (int (length ?pre)) []
         | c # cs \<Rightarrow> if c = CHR ''.'' then
             name_equals_from (?pre @ encode_name ls @ post) len (int (length ?pre)) cs else Some False)"
      proof -
        have "P (dotted ds)" using dl True by blast
        then show ?thesis
          using Cons.prems b by (subst unfold) (simp add: rd_append lm [unfolded add.commute [of _ 1]] ac_simps split: list.split)
      qed
      show ?thesis
      proof (cases "length l = length d")
        case eq: True
        have "same_name (l # ls) ds = same_name ls ds'" using True eq ds by (simp add: same_name_def)
        with step IH [of ds'] IH [of "[]"] eq ds show ?thesis
          by (auto simp: dotted_Cons simp del: dotted.simps(2,3))
      next
        case False
        with True have lt: "length l < length d" by simp
        then obtain c cs where c: "drop (length l) d = c # cs" by (metis Cons_nth_drop_Suc)
        then have "c \<noteq> CHR ''.''" using d(2) by (metis in_set_dropD list.set_intros(1))
        moreover have "\<not> same_name (l # ls) ds"
          using lt ds by (auto simp: same_name_def dest: map_eq_imp_length_eq)
        moreover have "drop (length l) (dotted ds) =
            c # cs @ (if ds' = [] then [] else CHR ''.'' # dotted ds')"
          using c lt ds by (simp add: dotted_Cons)
        ultimately show ?thesis using step by simp
      qed
    qed
  qed
qed

section \<open>Properties\<close>

text \<open>
  C12. Memory safety of the responder: on any 512-byte buffer and any received length up to 512, the
  function reads and writes inside the buffer only, keeps its size, and returns either -1 (drop) or
  a length between the 12-byte header and the buffer's size. A packet that is itself a response, or
  is shorter than a header, is dropped without being changed.
\<close>

theorem dns_build_response_safe:
  assumes "length buf = 512" and "len \<le> 512" and "length ip = 4"
  shows "\<exists>buf' r. dns_build_response buf len ip = Some (buf', r) \<and> length buf' = 512 \<and>
           (r = -1 \<or> 12 \<le> r \<and> r \<le> 512) \<and>
           (len < 12 \<or> buf ! 2 AND 0x80 \<noteq> 0 \<longrightarrow> r = -1 \<and> buf' = buf)"
proof (cases "len < 12 \<or> buf ! 2 AND 0x80 \<noteq> 0")
  case True
  with assms show ?thesis by (auto simp: dns_build_response_def dns_parse_header_def)
next
  case False
  then have hdr: "12 \<le> length buf" "12 \<le> len" "buf ! 2 AND 0x80 = 0" using assms by auto
  from header_cases [OF hdr] show ?thesis
  proof
    assume "dns_parse_header buf len = Some DNS_PARSE_UNSUPPORTED"
    from respond_unsupported [OF hdr(1) this] False assms show ?thesis by simp
  next
    assume ok: "dns_parse_header buf len = Some DNS_PARSE_OK"
    have le: "len \<le> int (length buf)" using assms by simp
    show ?thesis
    proof (cases rule: parse_question_cases [OF le])
      case (1 x)
      from respond_malformed [OF hdr(1) ok 1] False assms show ?thesis by simp
    next
      case (2 q)
      let ?b = "rewritten buf (0x80 OR (buf ! 2 AND 1)) 0"
      have "length ?b = 512" using assms by simp
      then have "question_end q + 16 \<le> 512 \<Longrightarrow>
          \<exists>b. write_answer ?b (question_end q) ip = Some (b, question_end q + 16) \<and> length b = 512"
        using write_answer_ok [of "question_end q" ?b ip] 2 assms by simp
      moreover obtain ad where "is_adguard_injection_domain ?b len = Some ad"
        using is_adguard_ok [of len ?b] assms by auto
      ultimately show ?thesis
        using respond_question [OF hdr(1) ok 2(1), of ip] 2 False assms
        by (auto simp: Let_def)
    qed
  qed
qed

theorem dns_build_response_safe_witness:
  "\<exists>buf' r. dns_build_response (replicate 512 0) 300 [192, 168, 4, 1] = Some (buf', r) \<and> length buf' = 512"
  using dns_build_response_safe [of "replicate 512 0" 300 "[192, 168, 4, 1]"] by auto

text \<open>
  C23. What the portal answers. A well-formed query for an IPv4 address of any name is echoed with
  the QR bit set, one answer counted and the 16-byte answer record carrying the portal's address,
  unless the name is one of the two AdGuard injection domains in any letter case, which get
  NXDOMAIN and no answer; the question and the id come back unchanged.
\<close>

theorem dns_answers_portal_address:
  assumes "wire_labels ls" and "fl AND 0x80 = 0" and "fl AND 0x78 = 0" and "length counts = 6"
    and "length ip = 4" and "length buf = 512"
    and "buf = [i0, i1, fl, x3, 0, 1] @ counts @ encode_name ls @ [0, 1, 0, 1] @ pad"
    and "qend = 16 + length (encode_name ls)" and "int qend \<le> len" and "len \<le> 512"
    and "qend + 16 \<le> 512"
  shows "let adguard = (same_name ls [''local'', ''adguard'', ''org''] \<or>
                        same_name ls [''local'', ''adguard'', ''com''])
         in \<exists>buf'. dns_build_response buf len ip =
              Some (buf', if adguard then int qend else int (qend + 16)) \<and>
            take (if adguard then qend else qend + 16) buf' =
              [i0, i1, 0x80 OR (fl AND 1), if adguard then 3 else 0, 0, 1,
               0, if adguard then 0 else 1, 0, 0, 0, 0] @ encode_name ls @ [0, 1, 0, 1] @
              (if adguard then [] else answer_record ip)"
proof -
  let ?ad = "same_name ls [''local'', ''adguard'', ''org''] \<or> same_name ls [''local'', ''adguard'', ''com'']"
  let ?b = "\<lambda>rc. [i0, i1, 0x80 OR (fl AND 1), rc, 0, 1, 0, 0, 0, 0, 0, 0] @
                 encode_name ls @ [0, 1, 0, 1] @ pad"
  obtain c0 c1 c2 c3 c4 c5 where c: "counts = [c0, c1, c2, c3, c4, c5]"
    using assms(4) by (auto simp: eval_nat_numeral length_Suc_conv)
  have buf: "buf = [i0, i1, fl, x3, 0, 1, c0, c1, c2, c3, c4, c5] @ encode_name ls @ [0, 1, 0, 1] @ pad"
    using assms(7) c by simp
  have L: "12 \<le> length buf" "12 \<le> len" using assms by auto
  have fl: "buf ! 2 = fl" using buf by simp
  have hdr: "dns_parse_header buf len = Some DNS_PARSE_OK"
    using L fl assms(2,3,6) buf by (simp add: dns_parse_header_def)
  have b: "rewritten buf (0x80 OR (buf ! 2 AND 1)) rc = ?b rc" for rc
    by (simp add: rewritten_def fl) (simp add: buf)
  have skip: "skip_name buf len 12 = Some (Some (int (12 + length (encode_name ls))))"
    using skip_encode_name [OF assms(1), of "[i0, i1, fl, x3, 0, 1, c0, c1, c2, c3, c4, c5]" len "[0, 1, 0, 1] @ pad"]
      assms(6,8-11) buf by simp
  have q: "dns_parse_question buf len =
      Some (DNS_PARSE_OK, Some \<lparr>qtype = 1, qclass = 1, question_end = int qend\<rparr>)"
    using skip assms(6,8-11) L buf by (simp add: dns_parse_question_def nth_append nat_add_distrib)
  have ne: "question_name_equals (?b rc) len (dotted ds) = Some (same_name ls ds)"
    if "\<forall>d\<in>set ds. d \<noteq> [] \<and> CHR ''.'' \<notin> set d" for ds rc
    using name_equals_encode [OF assms(1) that, of "[i0, i1, 0x80 OR (fl AND 1), rc, 0, 1, 0, 0, 0, 0, 0, 0]"
        len "[0, 1, 0, 1] @ pad"] assms(6,8-11) buf
    by (simp add: question_name_equals_def)
  have ad: "is_adguard_injection_domain (?b 0) len = Some ?ad"
    using ne [of "[''local'', ''adguard'', ''org'']" 0] ne [of "[''local'', ''adguard'', ''com'']" 0]
    by (simp add: is_adguard_injection_domain_def)
  have lb: "length (?b 0) = 512" using assms(6) buf by simp
  let ?b1 = "[i0, i1, 0x80 OR (fl AND 1), 0, 0, 1, 0, 1, 0, 0, 0, 0] @
                 encode_name ls @ [0, 1, 0, 1] @ pad"
  have w1: "wr_all (?b 0) 6 [0, 1] = Some ?b1"
    using wr_all_eq [of 6 "[0, 1]" "?b 0"] lb by simp
  have w2: "wr_all ?b1 (int qend) (answer_record ip) =
      Some (take qend ?b1 @ answer_record ip @ drop (qend + 16) ?b1)"
    using wr_all_eq [of qend "answer_record ip" ?b1] lb assms(5,11) by (simp add: answer_record_def)
  have t: "take qend (([i0, i1, f, rc, 0, 1, 0, a, 0, 0, 0, 0] @ encode_name ls @ [0, 1, 0, 1]) @ pad) =
      [i0, i1, f, rc, 0, 1, 0, a, 0, 0, 0, 0] @ encode_name ls @ [0, 1, 0, 1]" for f rc a
    using assms(8) by (subst take_append) simp
  show ?thesis
  proof (cases ?ad)
    case True
    then have "dns_build_response buf len ip = Some (?b 3, int qend)"
      using respond_question [OF L(1) hdr q, of ip] ad by (simp add: Let_def b)
    with True t [of "0x80 OR (fl AND 1)" 3 0] show ?thesis by (simp add: Let_def)
  next
    case False
    then have "dns_build_response buf len ip =
        Some (take qend ?b1 @ answer_record ip @ drop (qend + 16) ?b1, int (qend + 16))"
      using respond_question [OF L(1) hdr q, of ip] ad w1 w2 assms(11)
      by (simp add: Let_def b write_answer_eq)
    moreover have "take (qend + 16) (take qend ?b1 @ answer_record ip @ drop (qend + 16) ?b1) =
        take qend ?b1 @ answer_record ip"
      using lb assms(5,11) by (simp add: answer_record_def)
    ultimately obtain R where "dns_build_response buf len ip = Some (R, int (qend + 16))"
      "take (qend + 16) R = take qend ?b1 @ answer_record ip" by blast
    with False t [of "0x80 OR (fl AND 1)" 0 1] show ?thesis by (simp add: Let_def)
  qed
qed

text \<open>A captive-portal probe, \<open>a.io\<close>, in a 512-byte buffer.\<close>

theorem dns_answers_portal_address_witness:
  "\<exists>buf'. dns_build_response
     ([7, 9, 1, 0, 0, 1] @ [0, 0, 0, 0, 0, 0] @ encode_name [[97], [105, 111]] @ [0, 1, 0, 1] @ replicate 490 0)
     22 [192, 168, 4, 1] = Some (buf', 38) \<and>
   take 38 buf' = [7, 9, 0x81, 0, 0, 1, 0, 1, 0, 0, 0, 0] @ encode_name [[97], [105, 111]] @ [0, 1, 0, 1] @
     answer_record [192, 168, 4, 1]"
proof -
  have "\<not> same_name [[97], [105, 111]] [''local'', ''adguard'', x]" for x
    by (simp add: same_name_def)
  then show ?thesis
    using dns_answers_portal_address [of "[[97], [105, 111]]" 1 "[0, 0, 0, 0, 0, 0]" "[192, 168, 4, 1]"
        _ 7 9 0 "replicate 490 0" 22 22]
    by (simp add: wire_labels_def Let_def)
qed

end
