(* ===== verification/Gw_Message.thy ===== *)
theory Gw_Message
  imports Gw_Prelude
begin

text \<open>
  The types every BLE-facing component shares: the decoded wire message \<open>gw_message_t\<close>
  (\<open>cbor_codec/include/cbor_codec.h\<close>) and the command request and result
  (\<open>device_command_types.h\<close>). Conventions:

  \<^item> an \<open>int has_x\<close> flag is a \<^typ>\<open>bool\<close>, next to its value, which the code can read with the flag
    off and which a zeroed message holds as 0;
  \<^item> a C \<open>int\<close> or \<open>int32_t\<close> that is only copied or compared is an \<^typ>\<open>int\<close>;
  \<^item> \<open>char x[N]\<close> is the string it holds; where the code checks termination of a raw array
    (\<open>setting_id\<close>, string values), the field holds the raw characters;
  \<^item> a union is carried as the value each of its views reads.
\<close>

section \<open>Wire messages\<close>

abbreviation GW_PROTOCOL_VERSION :: u8 where "GW_PROTOCOL_VERSION \<equiv> 4"
abbreviation GW_MSG_TYPE_LEN :: nat where "GW_MSG_TYPE_LEN \<equiv> 24"
abbreviation GW_MSG_DEVICE_ID_LEN :: nat where "GW_MSG_DEVICE_ID_LEN \<equiv> 32"
abbreviation GW_MSG_COMMAND_LEN :: nat where "GW_MSG_COMMAND_LEN \<equiv> 32"
abbreviation GW_MSG_NAME_LEN :: nat where "GW_MSG_NAME_LEN \<equiv> 32"
abbreviation GW_MSG_CAP_LABEL_LEN :: nat where "GW_MSG_CAP_LABEL_LEN \<equiv> 32"
abbreviation GW_MSG_CAP_UNIT_LEN :: nat where "GW_MSG_CAP_UNIT_LEN \<equiv> 12"
abbreviation GW_FEATURE_ID_LEN :: nat where "GW_FEATURE_ID_LEN \<equiv> 32"
abbreviation GW_SETTINGS_CBOR_MAX_ID_LEN :: nat where "GW_SETTINGS_CBOR_MAX_ID_LEN \<equiv> 32"
abbreviation GW_SETTINGS_VALUE_MAX_LEN :: nat where "GW_SETTINGS_VALUE_MAX_LEN \<equiv> 64"

abbreviation GW_SETTING_TYPE_BOOL :: u8 where "GW_SETTING_TYPE_BOOL \<equiv> 1"
abbreviation GW_SETTING_TYPE_INT :: u8 where "GW_SETTING_TYPE_INT \<equiv> 2"
abbreviation GW_SETTING_TYPE_STRING :: u8 where "GW_SETTING_TYPE_STRING \<equiv> 4"
abbreviation GW_SETTING_TYPE_ENUM :: u8 where "GW_SETTING_TYPE_ENUM \<equiv> 5"

record gw_msg_header =
  m_protocol_version :: u8
  m_type :: string
  m_device_id :: string
  m_command :: string
  m_request_id :: u32
  m_has_request_id :: bool
  m_int_value :: int
  m_bool_value :: int
  m_has_int_value :: bool
  m_has_bool_value :: bool
  m_has_device_id :: bool
  m_name :: string
  m_ble_addr :: "u8 list"
  m_ble_addr_type :: u8
  m_has_ble_addr :: bool

record gw_msg_capability = gw_msg_header +
  m_snapshot_id :: u32
  m_has_snapshot_id :: bool
  m_sequence :: u16
  m_has_sequence :: bool
  m_total :: u16
  m_has_total :: bool
  m_value_type :: u8
  m_has_value_type :: bool
  m_capability_flags :: u8
  m_has_capability_flags :: bool
  m_min_value :: int
  m_has_min_value :: bool
  m_max_value :: int
  m_has_max_value :: bool
  m_step :: u32
  m_has_step :: bool
  m_capability_label :: string
  m_capability_unit :: string
  m_capability_revision :: u32
  m_has_capability_revision :: bool

record gw_msg_feature = gw_msg_capability +
  m_feature_id :: string
  m_has_feature_id :: bool
  m_feature_type :: u8
  m_has_feature_type :: bool
  m_feature_schema_version :: u16
  m_has_feature_schema_version :: bool
  m_feature_flags :: u16
  m_has_feature_flags :: bool
  m_property_id :: u8
  m_has_property_id :: bool
  m_feature_value_bool :: bool
  m_has_feature_value_bool :: bool
  m_feature_value_int :: int
  m_has_feature_value_int :: bool
  m_feature_tool :: string
  m_has_feature_tool :: bool
  m_feature_total :: u16
  m_has_feature_total :: bool
  m_feature_decimals :: u8
  m_has_feature_decimals :: bool

record gw_message = gw_msg_feature +
  m_settings_supported :: bool
  m_has_settings_supported :: bool
  m_settings_schema_revision :: u16
  m_has_settings_schema_revision :: bool
  m_setting_id :: string
  m_has_setting_id :: bool
  m_has_setting_group :: bool
  m_setting_type :: u8
  m_has_setting_type :: bool
  m_setting_flags :: u16
  m_has_setting_flags :: bool
  m_setting_value_bool :: bool
  m_setting_value_int :: int
  m_setting_value_enum :: u8
  m_setting_value_string :: string
  m_has_setting_value :: bool
  m_settings_transaction_id :: u64
  m_has_settings_transaction_id :: bool
  m_settings_expected_revision :: u32
  m_has_settings_expected_revision :: bool
  m_settings_new_revision :: u32
  m_has_settings_new_revision :: bool
  m_settings_option_index :: u8
  m_has_settings_option_index :: bool
  m_settings_max_length :: u16
  m_has_settings_max_length :: bool
  m_settings_option_count :: u16
  m_has_settings_option_count :: bool
  m_settings_sequence :: u16
  m_has_settings_sequence :: bool

text \<open>\<open>memset(message, 0, sizeof *message)\<close>.\<close>

definition zero_message :: gw_message where
  "zero_message =
     \<lparr>m_protocol_version = 0, m_type = [], m_device_id = [], m_command = [], m_request_id = 0,
      m_has_request_id = False, m_int_value = 0, m_bool_value = 0, m_has_int_value = False,
      m_has_bool_value = False, m_has_device_id = False, m_name = [], m_ble_addr = replicate 6 0,
      m_ble_addr_type = 0, m_has_ble_addr = False, m_snapshot_id = 0, m_has_snapshot_id = False,
      m_sequence = 0, m_has_sequence = False, m_total = 0, m_has_total = False, m_value_type = 0,
      m_has_value_type = False, m_capability_flags = 0, m_has_capability_flags = False,
      m_min_value = 0, m_has_min_value = False, m_max_value = 0, m_has_max_value = False, m_step = 0,
      m_has_step = False, m_capability_label = [], m_capability_unit = [], m_capability_revision = 0,
      m_has_capability_revision = False, m_feature_id = [], m_has_feature_id = False,
      m_feature_type = 0, m_has_feature_type = False, m_feature_schema_version = 0,
      m_has_feature_schema_version = False, m_feature_flags = 0, m_has_feature_flags = False,
      m_property_id = 0, m_has_property_id = False, m_feature_value_bool = False,
      m_has_feature_value_bool = False, m_feature_value_int = 0, m_has_feature_value_int = False,
      m_feature_tool = [], m_has_feature_tool = False, m_feature_total = 0,
      m_has_feature_total = False, m_feature_decimals = 0, m_has_feature_decimals = False,
      m_settings_supported = False, m_has_settings_supported = False, m_settings_schema_revision = 0,
      m_has_settings_schema_revision = False, m_setting_id = [], m_has_setting_id = False,
      m_has_setting_group = False, m_setting_type = 0, m_has_setting_type = False,
      m_setting_flags = 0, m_has_setting_flags = False, m_setting_value_bool = False,
      m_setting_value_int = 0, m_setting_value_enum = 0, m_setting_value_string = [],
      m_has_setting_value = False, m_settings_transaction_id = 0,
      m_has_settings_transaction_id = False, m_settings_expected_revision = 0,
      m_has_settings_expected_revision = False, m_settings_new_revision = 0,
      m_has_settings_new_revision = False, m_settings_option_index = 0,
      m_has_settings_option_index = False, m_settings_max_length = 0,
      m_has_settings_max_length = False, m_settings_option_count = 0,
      m_has_settings_option_count = False, m_settings_sequence = 0, m_has_settings_sequence = False\<rparr>"

section \<open>Command requests and results\<close>

datatype device_command_origin =
    DEVICE_CMD_ORIGIN_CONTROL
  | DEVICE_CMD_ORIGIN_SCHEMA_DISCOVERY
  | DEVICE_CMD_ORIGIN_STATE_READ
  | DEVICE_CMD_ORIGIN_SETTINGS

record device_command_settings_payload =
  sp_has_transaction_id :: bool
  sp_transaction_id :: u64
  sp_has_expected_revision :: bool
  sp_expected_revision :: u32
  sp_has_new_revision :: bool
  sp_new_revision :: u32
  sp_has_setting_id :: bool
  sp_setting_id :: string
  sp_has_setting_value :: bool
  sp_setting_type :: u8
  sp_bool_value :: bool
  sp_int_value :: int
  sp_enum_value :: u8
  sp_string_value :: string

definition zero_settings_payload :: device_command_settings_payload where
  "zero_settings_payload =
     \<lparr>sp_has_transaction_id = False, sp_transaction_id = 0, sp_has_expected_revision = False,
      sp_expected_revision = 0, sp_has_new_revision = False, sp_new_revision = 0,
      sp_has_setting_id = False, sp_setting_id = [], sp_has_setting_value = False,
      sp_setting_type = 0, sp_bool_value = False, sp_int_value = 0, sp_enum_value = 0,
      sp_string_value = []\<rparr>"

record device_command_request =
  rq_origin :: device_command_origin
  rq_device_id :: string
  rq_command :: string
  rq_has_bool_value :: bool
  rq_bool_value :: bool
  rq_has_int_value :: bool
  rq_int_value :: int
  rq_has_feature_id :: bool
  rq_feature_id :: string
  rq_has_property_id :: bool
  rq_property_id :: u8
  rq_settings :: device_command_settings_payload

definition zero_request :: device_command_request where
  "zero_request =
     \<lparr>rq_origin = DEVICE_CMD_ORIGIN_CONTROL, rq_device_id = [], rq_command = [],
      rq_has_bool_value = False, rq_bool_value = False, rq_has_int_value = False, rq_int_value = 0,
      rq_has_feature_id = False, rq_feature_id = [], rq_has_property_id = False, rq_property_id = 0,
      rq_settings = zero_settings_payload\<rparr>"

datatype device_command_status =
    DEVICE_CMD_STATUS_OK
  | DEVICE_CMD_STATUS_INVALID_ARGUMENT
  | DEVICE_CMD_STATUS_SCHEMA_NOT_READY
  | DEVICE_CMD_STATUS_UNSUPPORTED_COMMAND
  | DEVICE_CMD_STATUS_TYPE_MISMATCH
  | DEVICE_CMD_STATUS_RANGE_ERROR
  | DEVICE_CMD_STATUS_NOT_CONNECTED
  | DEVICE_CMD_STATUS_BUSY
  | DEVICE_CMD_STATUS_QUEUE_FULL
  | DEVICE_CMD_STATUS_TRANSPORT_ERROR
  | DEVICE_CMD_STATUS_TIMEOUT
  | DEVICE_CMD_STATUS_REJECTED
  | DEVICE_CMD_STATUS_CANCELLED
  | DEVICE_CMD_STATUS_INTERNAL

record device_command_result =
  rs_status :: device_command_status
  rs_request_id :: u32
  rs_accepted :: bool
  rs_has_bool_value :: bool
  rs_bool_value :: bool
  rs_has_int_value :: bool
  rs_int_value :: int
  rs_has_feature_value_bool :: bool
  rs_feature_value_bool :: bool
  rs_has_feature_value_int :: bool
  rs_feature_value_int :: int

definition zero_result :: device_command_result where
  "zero_result =
     \<lparr>rs_status = DEVICE_CMD_STATUS_OK, rs_request_id = 0, rs_accepted = False,
      rs_has_bool_value = False, rs_bool_value = False, rs_has_int_value = False, rs_int_value = 0,
      rs_has_feature_value_bool = False, rs_feature_value_bool = False,
      rs_has_feature_value_int = False, rs_feature_value_int = 0\<rparr>"

end
