(* ===== verification/Gateway_Events.thy ===== *)
theory Gateway_Events
  imports Gw_Prelude
begin

text \<open>
  The event bus (\<open>gateway_events/gateway_events.c\<close>): a table of four listener slots and a 32-bit
  sequence counter behind one spin lock. Every operation holds the lock for all of its accesses to
  the state, so each is one atomic step here. A listener is a function pointer with a context;
  pointers are numbers, a null pointer is \<^term>\<open>None\<close>, and publishing returns the calls it makes.
\<close>

section \<open>Data\<close>

datatype gateway_event_type =
    GW_EVENT_DEVICE_CHANGED
  | GW_EVENT_DEVICE_CONNECTION
  | GW_EVENT_DEVICE_SCHEMA
  | GW_EVENT_FEATURE_STATE
  | GW_EVENT_RESYNC_REQUIRED
  | GW_EVENT_DEVICE_ADDED
  | GW_EVENT_DEVICE_RENAMED
  | GW_EVENT_DEVICE_REMOVED
  | GW_EVENT_SETTINGS_CHANGED
  | GW_EVENT_SETTINGS_STATE
  | GW_EVENT_SETTINGS_TRANSACTION

datatype gateway_event_value_kind = GW_EVENT_VALUE_NONE | GW_EVENT_VALUE_BOOL | GW_EVENT_VALUE_INT

record gateway_event =
  ev_seq :: u32
  ev_type :: gateway_event_type
  ev_device_id :: string
  ev_feature_id :: string
  ev_property_id :: u8
  ev_value_kind :: gateway_event_value_kind
  ev_bool_value :: bool
  ev_int_value :: int
  ev_schema_revision :: u32
  ev_config_revision :: u32
  ev_transaction_id :: u64
  ev_expected_revision :: u32
  ev_new_revision :: u32
  ev_progress_current :: u16
  ev_progress_total :: u16
  ev_settings_state :: u8
  ev_settings_tx_state :: u8
  ev_settings_tx_result :: u8
  ev_updated_at_ms :: int

text \<open>The value of \<open>gateway_event_t ev = {0}\<close>.\<close>

definition zero_event :: gateway_event where
  "zero_event =
     \<lparr>ev_seq = 0, ev_type = GW_EVENT_DEVICE_CHANGED, ev_device_id = [], ev_feature_id = [],
      ev_property_id = 0, ev_value_kind = GW_EVENT_VALUE_NONE, ev_bool_value = False,
      ev_int_value = 0, ev_schema_revision = 0, ev_config_revision = 0, ev_transaction_id = 0,
      ev_expected_revision = 0, ev_new_revision = 0, ev_progress_current = 0,
      ev_progress_total = 0, ev_settings_state = 0, ev_settings_tx_state = 0,
      ev_settings_tx_result = 0, ev_updated_at_ms = 0\<rparr>"

record listener_slot =
  ls_fn :: "nat option"
  ls_context :: nat
  ls_in_use :: bool

definition zero_slot :: listener_slot where
  "zero_slot = \<lparr>ls_fn = None, ls_context = 0, ls_in_use = False\<rparr>"

record events_state =
  es_initialized :: bool
  es_seq :: u32
  es_listeners :: "listener_slot list"

abbreviation GATEWAY_EVENT_MAX_LISTENERS :: nat where
  "GATEWAY_EVENT_MAX_LISTENERS \<equiv> 4"

definition events_boot :: events_state where
  "events_boot = \<lparr>es_initialized = False, es_seq = 0, es_listeners = replicate 4 zero_slot\<rparr>"

section \<open>Operations\<close>

definition gateway_events_init :: "events_state \<Rightarrow> events_state \<times> esp_err" where
  "gateway_events_init s =
     (if es_initialized s then (s, ESP_OK)
      else (s\<lparr>es_seq := 0, es_listeners := replicate GATEWAY_EVENT_MAX_LISTENERS zero_slot,
              es_initialized := True\<rparr>, ESP_OK))"

definition gateway_events_register ::
    "events_state \<Rightarrow> nat option \<Rightarrow> nat \<Rightarrow> events_state \<times> esp_err" where
  "gateway_events_register s listener context =
     (case listener of
        None \<Rightarrow> (s, ESP_ERR_INVALID_ARG)
      | Some fn \<Rightarrow>
          if \<not> es_initialized s then (s, ESP_ERR_INVALID_STATE)
          else case find_index (\<lambda>l. \<not> ls_in_use l) (es_listeners s) of
                 Some i \<Rightarrow>
                   (s\<lparr>es_listeners := (es_listeners s)
                        [i := \<lparr>ls_fn = Some fn, ls_context = context, ls_in_use = True\<rparr>]\<rparr>, ESP_OK)
               | None \<Rightarrow> (s, ESP_ERR_NO_MEM))"

definition deliveries :: "listener_slot list \<Rightarrow> gateway_event \<Rightarrow> (nat \<times> nat \<times> gateway_event) list" where
  "deliveries ls ev =
     concat (map (\<lambda>l. case ls_fn l of
                        Some fn \<Rightarrow> if ls_in_use l then [(fn, ls_context l, ev)] else []
                      | None \<Rightarrow> []) ls)"

definition gateway_events_publish ::
    "events_state \<Rightarrow> gateway_event option \<Rightarrow> events_state \<times> (nat \<times> nat \<times> gateway_event) list" where
  "gateway_events_publish s event =
     (case event of
        None \<Rightarrow> (s, [])
      | Some ev \<Rightarrow>
          if \<not> es_initialized s then (s, [])
          else let seq = es_seq s + 1;
                   ev' = ev\<lparr>ev_seq := seq\<rparr>;
                   local = es_listeners s
               in (s\<lparr>es_seq := seq\<rparr>, deliveries local ev'))"

definition gateway_events_current_seq :: "events_state \<Rightarrow> u32" where
  "gateway_events_current_seq s = (if \<not> es_initialized s then 0 else es_seq s)"

definition gateway_events_reset_for_test :: "events_state \<Rightarrow> events_state" where
  "gateway_events_reset_for_test s =
     (if \<not> es_initialized s then s
      else s\<lparr>es_seq := 0, es_listeners := replicate GATEWAY_EVENT_MAX_LISTENERS zero_slot\<rparr>)"

text \<open>Running a sequence of registrations, and of publications.\<close>

fun register_all :: "events_state \<Rightarrow> (nat \<times> nat) list \<Rightarrow> events_state" where
  "register_all s [] = s"
| "register_all s ((fn, ctx) # ls) = register_all (fst (gateway_events_register s (Some fn) ctx)) ls"

fun publish_all ::
    "events_state \<Rightarrow> gateway_event list \<Rightarrow> events_state \<times> (nat \<times> nat \<times> gateway_event) list" where
  "publish_all s [] = (s, [])"
| "publish_all s (e # es) =
     (let (s1, d1) = gateway_events_publish s (Some e); (s2, d2) = publish_all s1 es
      in (s2, d1 @ d2))"

section \<open>The interface of a sequenced source\<close>

text \<open>
  What a client of the bus relies on: each stamp is the successor of the counter. Stamps of fewer
  than \<open>2 ^ 32\<close> events in a row are then pairwise different.
\<close>

locale sequencer =
  fixes stamp :: "'s \<Rightarrow> 'e \<Rightarrow> 's"
    and current :: "'s \<Rightarrow> 32 word"
    and ready :: "'s \<Rightarrow> bool"
  assumes ready_stamp: "ready s \<Longrightarrow> ready (stamp s e)"
    and current_stamp: "ready s \<Longrightarrow> current (stamp s e) = current s + 1"
begin

lemma current_fold:
  "ready s \<Longrightarrow> ready (fold (\<lambda>e s. stamp s e) es s) \<and>
     current (fold (\<lambda>e s. stamp s e) es s) = current s + of_nat (length es)"
  by (induction es arbitrary: s) (simp_all add: ready_stamp current_stamp)

lemma stamps_distinct:
  assumes "ready s" "length es < 2 ^ 32" "i < j" "j \<le> length es"
  shows "current (fold (\<lambda>e s. stamp s e) (take i es) s) \<noteq> current (fold (\<lambda>e s. stamp s e) (take j es) s)"
proof
  assume "current (fold (\<lambda>e s. stamp s e) (take i es) s) = current (fold (\<lambda>e s. stamp s e) (take j es) s)"
  then have "(of_nat i :: 32 word) = of_nat j"
    using current_fold [OF assms(1), of "take i es"] current_fold [OF assms(1), of "take j es"] assms(3,4)
    by simp
  then have "take_bit 32 i = take_bit 32 j" by (simp add: word_of_nat_eq_iff)
  then show False using assms by (simp add: take_bit_nat_eq_self)
qed

end

interpretation bus: sequencer "\<lambda>s e. fst (gateway_events_publish s (Some e))"
    gateway_events_current_seq es_initialized
  by unfold_locales (auto simp: gateway_events_publish_def gateway_events_current_seq_def Let_def)

section \<open>Registration and delivery\<close>

definition listening :: "(nat \<times> nat) list \<Rightarrow> events_state \<Rightarrow> bool" where
  "listening ls s \<longleftrightarrow>
     es_initialized s \<and> length ls \<le> 4 \<and>
     es_listeners s = map (\<lambda>(f, c). \<lparr>ls_fn = Some f, ls_context = c, ls_in_use = True\<rparr>) ls @
                      replicate (4 - length ls) zero_slot"

lemma listening_init: "listening [] (fst (gateway_events_init events_boot))"
  by (simp add: listening_def gateway_events_init_def events_boot_def)

lemma find_free_slot:
  "find_index (\<lambda>l. \<not> ls_in_use l)
     (map (\<lambda>(f, c). \<lparr>ls_fn = Some f, ls_context = c, ls_in_use = True\<rparr>) ls @ replicate n zero_slot) =
   (if n = 0 then None else Some (length ls))"
  by (induction ls) (auto simp: zero_slot_def gr0_conv_Suc)

lemma listening_register:
  assumes "listening ls s"
  shows "length ls < 4 \<Longrightarrow> listening (ls @ [(f, c)]) (fst (gateway_events_register s (Some f) c)) \<and>
           snd (gateway_events_register s (Some f) c) = ESP_OK"
    and "length ls = 4 \<Longrightarrow> gateway_events_register s (Some f) c = (s, ESP_ERR_NO_MEM)"
proof -
  assume "length ls < 4"
  then obtain k where k: "4 - length ls = Suc k" by (metis Suc_diff_Suc)
  then have k': "3 - length ls = k" by simp
  show "listening (ls @ [(f, c)]) (fst (gateway_events_register s (Some f) c)) \<and>
           snd (gateway_events_register s (Some f) c) = ESP_OK"
    using assms \<open>length ls < 4\<close> k k' find_free_slot [of ls "Suc k", simplified]
    by (auto simp: listening_def gateway_events_register_def find_free_slot list_update_append)
next
  assume "length ls = 4"
  then show "gateway_events_register s (Some f) c = (s, ESP_ERR_NO_MEM)"
    using assms find_free_slot [of ls 0]
    by (simp add: listening_def gateway_events_register_def)
qed

lemma listening_register_all:
  "listening ls s \<Longrightarrow> length (ls @ ms) \<le> 4 \<Longrightarrow> listening (ls @ ms) (register_all s ms)"
proof (induction ms arbitrary: s ls)
  case Nil
  then show ?case by simp
next
  case (Cons m ms)
  obtain f c where m: "m = (f, c)" by fastforce
  have "listening (ls @ [m]) (fst (gateway_events_register s (Some f) c))"
    using listening_register(1) [OF Cons.prems(1)] Cons.prems(2) m by simp
  from Cons.IH [OF this] Cons.prems(2) m show ?case by simp
qed

lemma deliveries_listening:
  "listening ls s \<Longrightarrow> deliveries (es_listeners s) ev = map (\<lambda>(f, c). (f, c, ev)) ls"
  by (auto simp: listening_def deliveries_def zero_slot_def comp_def case_prod_beta concat_map_singleton)

lemma publish_listening:
  "listening ls s \<Longrightarrow>
     listening ls (fst (gateway_events_publish s (Some e))) \<and>
     snd (gateway_events_publish s (Some e)) =
       map (\<lambda>(f, c). (f, c, e\<lparr>ev_seq := gateway_events_current_seq s + 1\<rparr>)) ls"
  using deliveries_listening [of ls s]
  by (auto simp: gateway_events_publish_def gateway_events_current_seq_def listening_def Let_def)

lemma publish_all_listening:
  "listening ls s \<Longrightarrow>
     listening ls (fst (publish_all s es)) \<and>
     snd (publish_all s es) =
       concat (map (\<lambda>i. map (\<lambda>(f, c). (f, c, (es ! i)\<lparr>ev_seq := gateway_events_current_seq s + 1 + of_nat i\<rparr>)) ls)
         [0..<length es])"
proof (induction es arbitrary: s)
  case Nil
  then show ?case by simp
next
  case (Cons e es)
  let ?s = "fst (gateway_events_publish s (Some e))"
  note p = publish_listening [OF Cons.prems, of e]
  have cur: "gateway_events_current_seq ?s = gateway_events_current_seq s + 1"
    using bus.current_stamp Cons.prems by (simp add: listening_def)
  have up: "[0..<Suc (length es)] = 0 # map Suc [0..<length es]"
    by (simp add: map_Suc_upt upt_conv_Cons del: upt_Suc)
  from Cons.IH [of ?s] p show ?case
    by (simp add: Let_def case_prod_beta up cur comp_def ac_simps del: upt_Suc)
qed

section \<open>Properties\<close>

text \<open>
  After boot, up to four listeners registered in order receive every published event exactly
  once each, in registration order, events in publication order, the \<open>i\<close>-th event carrying the
  sequence number \<open>i + 1\<close>; a fifth registration is refused and changes nothing.
\<close>

theorem events_delivered_in_order:
  assumes "length ls \<le> 4"
  shows "let s = register_all (fst (gateway_events_init events_boot)) ls
         in snd (publish_all s es) =
              concat (map (\<lambda>i. map (\<lambda>(f, c). (f, c, (es ! i)\<lparr>ev_seq := 1 + of_nat i\<rparr>)) ls) [0..<length es]) \<and>
            gateway_events_current_seq (fst (publish_all s es)) = of_nat (length es) \<and>
            (length ls = 4 \<longrightarrow> gateway_events_register s (Some f) c = (s, ESP_ERR_NO_MEM))"
proof -
  let ?s = "register_all (fst (gateway_events_init events_boot)) ls"
  have l: "listening ls ?s" using listening_register_all [OF listening_init, of ls] assms by simp
  have reg1: "es_seq (fst (gateway_events_register t (Some f) c)) = es_seq t" for t f c
    by (simp add: gateway_events_register_def split: option.splits)
  have reg: "es_seq (register_all t ms) = es_seq t" for t ms
    by (induction ms arbitrary: t) (auto simp: reg1)
  have cur: "gateway_events_current_seq ?s = 0"
    using reg [of "fst (gateway_events_init events_boot)" ls]
    by (simp add: gateway_events_current_seq_def gateway_events_init_def events_boot_def)
  have pub: "fst (publish_all t es) = fold (\<lambda>e s. fst (gateway_events_publish s (Some e))) es t" for t
    by (induction es arbitrary: t) (auto simp: Let_def case_prod_beta)
  have "gateway_events_current_seq (fst (publish_all ?s es)) = of_nat (length es)"
    using bus.current_fold [of ?s es] l cur pub by (simp add: listening_def)
  then show ?thesis
    using publish_all_listening [OF l, of es] cur listening_register(2) [OF l] by (simp add: Let_def)
qed

theorem events_delivered_in_order_witness:
  "snd (publish_all (register_all (fst (gateway_events_init events_boot)) [(11, 0), (12, 7)]) [zero_event]) =
     [(11, 0, zero_event\<lparr>ev_seq := 1\<rparr>), (12, 7, zero_event\<lparr>ev_seq := 1\<rparr>)]"
  using events_delivered_in_order [of "[(11, 0), (12, 7)]" "[zero_event]" 0 0] by (simp add: Let_def)

end
