(* ===== verification/Device_State.thy ===== *)
theory Device_State
  imports Gw_Message Gateway_Events
begin

text \<open>
  The cache of feature values (\<open>device_state/device_state.c\<close>): 192 entries, the first \<open>count\<close> of them
  live, keyed by device, feature and property. An update comes from a device notification or from a
  command acknowledgement, is stored under a spin lock and then published on the event bus; the
  pair is one step here, with the clock read as an argument. \<open>device_state_forget\<close> compacts the
  array in place. The seeding of the cache after a schema commit (\<open>device_state_seed.c\<close>) is a separate
  session table, whose reset \<open>device_state_forget\<close> and \<open>device_state_reset_for_test\<close> also ask for.
\<close>

section \<open>Data\<close>

abbreviation DEVICE_STATE_MAX_ENTRIES :: nat where "DEVICE_STATE_MAX_ENTRIES \<equiv> 192"
abbreviation DEVICE_STATE_SNAPSHOT_MAX :: nat where "DEVICE_STATE_SNAPSHOT_MAX \<equiv> 12"

record device_state_entry =
  st_device_id :: string
  st_feature_id :: string
  st_property_id :: u8
  st_value_bool :: bool
  st_value_int :: int
  st_valid :: bool
  st_updated_at_ms :: int

definition zero_state_entry :: device_state_entry where
  "zero_state_entry =
     \<lparr>st_device_id = [], st_feature_id = [], st_property_id = 0, st_value_bool = False,
      st_value_int = 0, st_valid = False, st_updated_at_ms = 0\<rparr>"

record state_cache =
  sc_entries :: "device_state_entry list"
  sc_count :: nat
  sc_initialized :: bool

definition cache_boot :: state_cache where
  "cache_boot = \<lparr>sc_entries = replicate DEVICE_STATE_MAX_ENTRIES zero_state_entry, sc_count = 0,
                 sc_initialized = False\<rparr>"

section \<open>Operations\<close>

definition entry_key :: "device_state_entry \<Rightarrow> string \<times> string \<times> u8" where
  "entry_key e = (st_device_id e, st_feature_id e, st_property_id e)"

definition live :: "state_cache \<Rightarrow> device_state_entry list" where
  "live c = take (sc_count c) (sc_entries c)"

definition find_entry :: "state_cache \<Rightarrow> string \<Rightarrow> string \<Rightarrow> u8 \<Rightarrow> nat option" where
  "find_entry c device_id feature_id property_id =
     find_index (\<lambda>e. st_device_id e = device_id \<and> st_feature_id e = feature_id \<and>
                     st_property_id e = property_id) (live c)"

definition allocate_entry :: "state_cache \<Rightarrow> state_cache \<times> nat option" where
  "allocate_entry c =
     (if sc_count c < DEVICE_STATE_MAX_ENTRIES
      then (c\<lparr>sc_count := sc_count c + 1\<rparr>, Some (sc_count c)) else (c, None))"

record feature_update =
  fu_feature_id :: string
  fu_property_id :: u8
  fu_has_bool :: bool
  fu_bool_value :: bool
  fu_has_int :: bool
  fu_int_value :: int

definition write_value :: "feature_update \<Rightarrow> int \<Rightarrow> device_state_entry \<Rightarrow> device_state_entry" where
  "write_value u now e =
     (let e1 = (if fu_has_bool u then e\<lparr>st_value_bool := fu_bool_value u\<rparr> else e);
          e2 = (if fu_has_int u then e1\<lparr>st_value_int := fu_int_value u\<rparr> else e1)
      in e2\<lparr>st_valid := True, st_updated_at_ms := now\<rparr>)"

definition state_event :: "string \<Rightarrow> feature_update \<Rightarrow> int \<Rightarrow> gateway_event" where
  "state_event device_id u now =
     (let ev = zero_event\<lparr>ev_type := GW_EVENT_FEATURE_STATE,
                          ev_device_id := strlcpy GW_MSG_DEVICE_ID_LEN device_id,
                          ev_feature_id := strlcpy GW_FEATURE_ID_LEN (fu_feature_id u),
                          ev_property_id := fu_property_id u, ev_updated_at_ms := now\<rparr>
      in if fu_has_bool u
         then ev\<lparr>ev_value_kind := GW_EVENT_VALUE_BOOL, ev_bool_value := fu_bool_value u\<rparr>
         else if fu_has_int u
         then ev\<lparr>ev_value_kind := GW_EVENT_VALUE_INT, ev_int_value := fu_int_value u\<rparr>
         else ev)"

type_synonym bus_calls = "(nat \<times> nat \<times> gateway_event) list"

definition apply_feature_state ::
    "string \<Rightarrow> feature_update \<Rightarrow> int \<Rightarrow> state_cache \<Rightarrow> events_state \<Rightarrow>
     state_cache \<times> events_state \<times> bus_calls" where
  "apply_feature_state device_id u now c bus =
     (let (c1, slot) =
            (case find_entry c device_id (fu_feature_id u) (fu_property_id u) of
               Some i \<Rightarrow> (c, Some i)
             | None \<Rightarrow>
                 (case allocate_entry c of
                    (c', None) \<Rightarrow> (c', None)
                  | (c', Some i) \<Rightarrow>
                      (c'\<lparr>sc_entries := (sc_entries c')
                         [i := (sc_entries c' ! i)
                             \<lparr>st_device_id := strlcpy GW_MSG_DEVICE_ID_LEN device_id,
                              st_feature_id := strlcpy GW_FEATURE_ID_LEN (fu_feature_id u),
                              st_property_id := fu_property_id u\<rparr>]\<rparr>, Some i)))
      in case slot of
           None \<Rightarrow> (c1, bus, [])
         | Some i \<Rightarrow>
             let c2 = c1\<lparr>sc_entries := (sc_entries c1)[i := write_value u now (sc_entries c1 ! i)]\<rparr>;
                 (bus', calls) = gateway_events_publish bus (Some (state_event device_id u now))
             in (c2, bus', calls))"

text \<open>
  \<open>seed_err\<close> is what the registration of the seed listener returned, which is only logged.
\<close>

definition device_state_init :: "esp_err \<Rightarrow> state_cache \<Rightarrow> state_cache \<times> esp_err" where
  "device_state_init seed_err c =
     (if sc_initialized c then (c, ESP_OK)
      else (\<lparr>sc_entries = replicate DEVICE_STATE_MAX_ENTRIES zero_state_entry, sc_count = 0,
             sc_initialized = True\<rparr>, ESP_OK))"

definition message_update :: "gw_message \<Rightarrow> feature_update" where
  "message_update msg =
     \<lparr>fu_feature_id = m_feature_id msg, fu_property_id = m_property_id msg,
      fu_has_bool = m_has_feature_value_bool msg, fu_bool_value = m_feature_value_bool msg,
      fu_has_int = m_has_feature_value_int msg, fu_int_value = m_feature_value_int msg\<rparr>"

definition device_state_on_notify ::
    "string option \<Rightarrow> gw_message option \<Rightarrow> int \<Rightarrow> state_cache \<Rightarrow> events_state \<Rightarrow>
     bool \<times> state_cache \<times> events_state \<times> bus_calls" where
  "device_state_on_notify device_id message now c bus =
     (case (message, device_id) of
        (Some msg, Some dev) \<Rightarrow>
          if m_type msg \<noteq> ''device_event'' \<or> m_command msg \<noteq> ''feature_state'' \<or> \<not> m_has_feature_id msg
          then (False, c, bus, [])
          else (True, apply_feature_state dev (message_update msg) now c bus)
      | _ \<Rightarrow> (False, c, bus, []))"

definition device_state_on_command_ack ::
    "string option \<Rightarrow> gw_message option \<Rightarrow> int \<Rightarrow> state_cache \<Rightarrow> events_state \<Rightarrow>
     state_cache \<times> events_state \<times> bus_calls" where
  "device_state_on_command_ack device_id message now c bus =
     (case (device_id, message) of
        (Some dev, Some msg) \<Rightarrow>
          if m_type msg \<noteq> ''device_ack'' then (c, bus, [])
          else if m_bool_value msg = 0 then (c, bus, [])
          else if \<not> m_has_feature_id msg \<or> \<not> m_has_property_id msg then (c, bus, [])
          else if \<not> m_has_feature_value_bool msg \<and> \<not> m_has_feature_value_int msg then (c, bus, [])
          else apply_feature_state dev (message_update msg) now c bus
      | _ \<Rightarrow> (c, bus, []))"

text \<open>The result carries \<open>*out\<close> when it is written; \<open>have_out\<close> is \<open>out != NULL\<close>.\<close>

definition device_state_get ::
    "bool \<Rightarrow> string \<Rightarrow> string \<Rightarrow> u8 \<Rightarrow> state_cache \<Rightarrow> esp_err \<times> device_state_entry option" where
  "device_state_get have_out device_id feature_id property_id c =
     (if \<not> have_out then (ESP_ERR_INVALID_ARG, None)
      else case find_entry c device_id feature_id property_id of
             Some i \<Rightarrow> if st_valid (sc_entries c ! i) then (ESP_OK, Some (sc_entries c ! i))
                       else (ESP_ERR_NOT_FOUND, None)
           | None \<Rightarrow> (ESP_ERR_NOT_FOUND, None))"

fun snapshot_loop ::
    "string \<Rightarrow> device_state_entry list \<Rightarrow> device_state_entry list \<Rightarrow> device_state_entry list" where
  "snapshot_loop device_id [] out = out"
| "snapshot_loop device_id (e # es) out =
     (if length out < DEVICE_STATE_SNAPSHOT_MAX
      then snapshot_loop device_id es (if st_device_id e = device_id then out @ [e] else out)
      else out)"

definition device_state_snapshot ::
    "bool \<Rightarrow> string \<Rightarrow> state_cache \<Rightarrow> esp_err \<times> device_state_entry list" where
  "device_state_snapshot have_out device_id c =
     (if \<not> have_out then (ESP_ERR_INVALID_ARG, []) else (ESP_OK, snapshot_loop device_id (live c) []))"

text \<open>The in-place compaction: \<open>read\<close> walks the live entries, \<open>write\<close> is the next slot to keep.\<close>

fun compact_loop ::
    "string \<Rightarrow> nat list \<Rightarrow> nat \<Rightarrow> device_state_entry list \<Rightarrow> device_state_entry list \<times> nat" where
  "compact_loop device_id [] write es = (es, write)"
| "compact_loop device_id (read # rs) write es =
     (if st_device_id (es ! read) \<noteq> device_id
      then compact_loop device_id rs (write + 1) (if write \<noteq> read then es[write := es ! read] else es)
      else compact_loop device_id rs write es)"

definition device_state_forget :: "string option \<Rightarrow> state_cache \<Rightarrow> state_cache" where
  "device_state_forget device_id c =
     (case device_id of
        None \<Rightarrow> c
      | Some dev \<Rightarrow>
          let (es, write) = compact_loop dev [0..<sc_count c] 0 (sc_entries c)
          in c\<lparr>sc_entries := es, sc_count := write\<rparr>)"

definition device_state_reset_for_test :: "state_cache \<Rightarrow> state_cache" where
  "device_state_reset_for_test c =
     c\<lparr>sc_entries := replicate DEVICE_STATE_MAX_ENTRIES zero_state_entry, sc_count := 0\<rparr>"

section \<open>The cache as a map\<close>

definition cache_ok :: "state_cache \<Rightarrow> bool" where
  "cache_ok c \<longleftrightarrow>
     length (sc_entries c) = DEVICE_STATE_MAX_ENTRIES \<and> sc_count c \<le> DEVICE_STATE_MAX_ENTRIES \<and>
     distinct (map entry_key (live c)) \<and> (\<forall>e\<in>set (live c). st_valid e)"

definition lookup :: "state_cache \<Rightarrow> string \<times> string \<times> u8 \<Rightarrow> device_state_entry option" where
  "lookup c k = map_of (map (\<lambda>e. (entry_key e, e)) (live c)) k"

lemma length_live [simp]: "cache_ok c \<Longrightarrow> length (live c) = sc_count c"
  by (simp add: cache_ok_def live_def)

lemma live_nth [simp]: "i < sc_count c \<Longrightarrow> live c ! i = sc_entries c ! i"
  by (simp add: live_def)

lemma find_entry_key: "find_entry c d f p = find_index (\<lambda>e. entry_key e = (d, f, p)) (live c)"
  by (auto simp: find_entry_def entry_key_def intro!: find_index_cong)

lemma find_entry_Some:
  "cache_ok c \<Longrightarrow> find_entry c d f p = Some i \<Longrightarrow> i < sc_count c \<and> entry_key (sc_entries c ! i) = (d, f, p)"
  unfolding find_entry_key by (drule find_index_SomeD) auto

lemma find_entry_None: "find_entry c d f p = None \<longleftrightarrow> (d, f, p) \<notin> entry_key ` set (live c)"
  unfolding find_entry_key find_index_None by (metis (mono_tags, lifting) imageE image_eqI)

lemma map_of_keys_update:
  assumes "distinct (map f xs)" "i < length xs" "f y = f (xs ! i)"
  shows "map_of (map (\<lambda>e. (f e, e)) (xs[i := y])) = (map_of (map (\<lambda>e. (f e, e)) xs))(f y \<mapsto> y)"
  using assms
proof (induction xs arbitrary: i)
  case Nil
  then show ?case by simp
next
  case (Cons x xs)
  show ?case
  proof (cases i)
    case 0
    with Cons.prems show ?thesis by (auto simp: fun_eq_iff)
  next
    case (Suc k)
    then have "f x \<noteq> f y" using Cons.prems by (metis distinct.simps(2) length_Cons list.simps(9) not_less_eq nth_Cons_Suc nth_map nth_mem length_map)
    with Suc Cons.prems Cons.IH [of k] show ?thesis by (auto simp: fun_upd_twist)
  qed
qed

lemma map_of_keys_filter:
  "map_of (map (\<lambda>e. (f e, e)) (filter (\<lambda>e. Q (f e)) xs)) k = (if Q k then map_of (map (\<lambda>e. (f e, e)) xs) k else None)"
  by (induction xs) auto

lemma map_of_keys_append:
  "f y \<notin> f ` set xs \<Longrightarrow>
     map_of (map (\<lambda>e. (f e, e)) (xs @ [y])) = (map_of (map (\<lambda>e. (f e, e)) xs))(f y \<mapsto> y)"
  by (induction xs) (auto simp: fun_upd_twist)

lemma get_lookup:
  assumes "cache_ok c"
  shows "device_state_get True d f p c =
    (case lookup c (d, f, p) of Some e \<Rightarrow> (ESP_OK, Some e) | None \<Rightarrow> (ESP_ERR_NOT_FOUND, None))"
proof (cases "find_entry c d f p")
  case None
  then have "lookup c (d, f, p) = None"
    by (auto simp: lookup_def find_entry_None map_of_eq_None_iff image_image)
  with None show ?thesis by (simp add: device_state_get_def)
next
  case (Some i)
  note i = find_entry_Some [OF assms Some]
  have m: "sc_entries c ! i \<in> set (live c)" using i length_live [OF assms] by (metis live_nth nth_mem)
  then have "lookup c (d, f, p) = Some (sc_entries c ! i)"
    unfolding lookup_def using assms i by (intro map_of_is_SomeI) (auto simp: cache_ok_def o_def intro!: image_eqI)
  with Some m assms show ?thesis by (simp add: device_state_get_def cache_ok_def)
qed

lemma compact_loop_live:
  "\<lbrakk>w \<le> r; r \<le> n; n \<le> length es; compact_loop d [r..<n] w es = (es', w')\<rbrakk> \<Longrightarrow>
     length es' = length es \<and> w' \<le> n \<and>
     take w' es' = take w es @ filter (\<lambda>e. st_device_id e \<noteq> d) (take (n - r) (drop r es))"
proof (induction "n - r" arbitrary: r w es)
  case 0
  then show ?case by simp
next
  case (Suc k)
  then have rn: "r < n" "r < length es" by auto
  have st: "take (n - r) (drop r es) = es ! r # take (n - Suc r) (drop (Suc r) es)"
    using rn by (simp add: Suc_diff_Suc [symmetric] Cons_nth_drop_Suc [symmetric])
  let ?es = "if st_device_id (es ! r) \<noteq> d \<and> w \<noteq> r then es[w := es ! r] else es"
  let ?w = "if st_device_id (es ! r) \<noteq> d then w + 1 else w"
  have "compact_loop d [Suc r..<n] ?w ?es = (es', w')"
    using Suc.prems(4) rn by (auto simp: upt_conv_Cons split: if_splits)
  then have IH: "length es' = length ?es \<and> w' \<le> n \<and>
      take w' es' = take ?w ?es @ filter (\<lambda>e. st_device_id e \<noteq> d) (take (n - Suc r) (drop (Suc r) ?es))"
    using Suc.hyps(2) Suc.prems rn by (intro Suc.hyps(1)) auto
  have "take ?w ?es = (if st_device_id (es ! r) \<noteq> d then take w es @ [es ! r] else take w es)"
    using Suc.prems(1) rn by (auto simp: take_Suc_conv_app_nth)
  moreover have "drop (Suc r) ?es = drop (Suc r) es" using Suc.prems(1) by simp
  ultimately show ?case using IH st by (auto split: if_splits)
qed

lemma forget_live:
  assumes "cache_ok c"
  shows "live (device_state_forget (Some d) c) = filter (\<lambda>e. st_device_id e \<noteq> d) (live c) \<and>
         cache_ok (device_state_forget (Some d) c)"
proof -
  obtain es' w' where l: "compact_loop d [0..<sc_count c] 0 (sc_entries c) = (es', w')" by fastforce
  have r: "length es' = length (sc_entries c) \<and> w' \<le> sc_count c \<and>
      take w' es' = take 0 (sc_entries c) @ filter (\<lambda>e. st_device_id e \<noteq> d) (take (sc_count c - 0) (drop 0 (sc_entries c)))"
    using assms by (intro compact_loop_live [OF _ _ _ l]) (auto simp: cache_ok_def)
  have f: "device_state_forget (Some d) c = c\<lparr>sc_entries := es', sc_count := w'\<rparr>"
    by (simp add: device_state_forget_def l)
  then have "live (device_state_forget (Some d) c) = filter (\<lambda>e. st_device_id e \<noteq> d) (live c)"
    using r by (simp add: live_def)
  with assms r f show ?thesis by (auto simp: cache_ok_def distinct_map_filter)
qed

definition update_key :: "string \<Rightarrow> feature_update \<Rightarrow> string \<times> string \<times> u8" where
  "update_key d u = (d, fu_feature_id u, fu_property_id u)"

definition short_ids :: "string \<Rightarrow> feature_update \<Rightarrow> bool" where
  "short_ids d u \<longleftrightarrow> length d < GW_MSG_DEVICE_ID_LEN \<and> length (fu_feature_id u) < GW_FEATURE_ID_LEN"

lemma write_value_simps [simp]:
  "entry_key (write_value u now e) = entry_key e" "st_valid (write_value u now e)"
  "st_updated_at_ms (write_value u now e) = now"
  "st_value_bool (write_value u now e) = (if fu_has_bool u then fu_bool_value u else st_value_bool e)"
  "st_value_int (write_value u now e) = (if fu_has_int u then fu_int_value u else st_value_int e)"
  by (auto simp: write_value_def entry_key_def Let_def)

lemma apply_known:
  assumes "cache_ok c" "lookup c (update_key d u) = Some e" "apply_feature_state d u now c bus = (c', bus', calls)"
  shows "cache_ok c' \<and> lookup c' = (lookup c)(update_key d u \<mapsto> write_value u now e) \<and>
    (bus', calls) = gateway_events_publish bus (Some (state_event d u now))"
proof -
  have "find_entry c d (fu_feature_id u) (fu_property_id u) \<noteq> None"
    using assms(2) unfolding find_entry_None lookup_def update_key_def
    by (force dest: map_of_SomeD)
  then obtain i where i: "find_entry c d (fu_feature_id u) (fu_property_id u) = Some i" by blast
  note f = find_entry_Some [OF assms(1) i]
  have e: "sc_entries c ! i = e"
    using get_lookup [OF assms(1), of d "fu_feature_id u" "fu_property_id u"] i assms(2)
    by (auto simp: device_state_get_def update_key_def split: if_splits)
  have r: "c' = c\<lparr>sc_entries := (sc_entries c)[i := write_value u now e]\<rparr>"
      "(bus', calls) = gateway_events_publish bus (Some (state_event d u now))"
    using assms(3) i e by (auto simp: apply_feature_state_def split: prod.splits)
  have l: "live c' = (live c)[i := write_value u now e]" using r f by (simp add: live_def take_update_swap)
  have k: "entry_key (write_value u now e) = entry_key (live c ! i)" using f e by simp
  have "map entry_key (live c') = (map entry_key (live c))[i := map entry_key (live c) ! i]"
    using f length_live [OF assms(1)] by (simp only: l map_update k nth_map)
  then have "distinct (map entry_key (live c'))" using assms(1) by (simp only: list_update_id cache_ok_def)
  moreover have "\<forall>x\<in>set (live c'). st_valid x"
    using assms(1) l by (auto simp: cache_ok_def dest: set_update_subset_insert [THEN subsetD])
  moreover have "lookup c' = (lookup c)(entry_key (write_value u now e) \<mapsto> write_value u now e)"
    using assms(1) f k by (simp add: lookup_def l fun_eq_iff map_of_keys_update cache_ok_def length_live [OF assms(1)])
  ultimately show ?thesis using assms(1) r f e by (simp add: cache_ok_def update_key_def)
qed

lemma apply_new:
  assumes "cache_ok c" "lookup c (update_key d u) = None" "short_ids d u" "sc_count c < DEVICE_STATE_MAX_ENTRIES"
    and "apply_feature_state d u now c bus = (c', bus', calls)"
  shows "\<exists>e. cache_ok c' \<and> lookup c' = (lookup c)(update_key d u \<mapsto> write_value u now e) \<and>
    (bus', calls) = gateway_events_publish bus (Some (state_event d u now))"
proof -
  have n: "find_entry c d (fu_feature_id u) (fu_property_id u) = None"
    using assms(2) by (auto simp: find_entry_None lookup_def update_key_def map_of_eq_None_iff image_image)
  let ?e = "(sc_entries c ! sc_count c)\<lparr>st_device_id := d, st_feature_id := fu_feature_id u,
              st_property_id := fu_property_id u\<rparr>"
  have k: "entry_key ?e = update_key d u" by (simp add: entry_key_def update_key_def)
  have len: "sc_count c < length (sc_entries c)" using assms(1,4) by (simp add: cache_ok_def)
  have r: "c' = c\<lparr>sc_count := sc_count c + 1, sc_entries := (sc_entries c)[sc_count c := write_value u now ?e]\<rparr>"
      "(bus', calls) = gateway_events_publish bus (Some (state_event d u now))"
    using assms(3,4,5) n len
    by (auto simp: apply_feature_state_def allocate_entry_def short_ids_def split: prod.splits)
  have l: "live c' = live c @ [write_value u now ?e]"
    using r(1) len by (simp add: live_def take_Suc_conv_app_nth)
  have fresh: "entry_key (write_value u now ?e) \<notin> entry_key ` set (live c)"
    using n k by (simp add: find_entry_None update_key_def)
  have "lookup c' = (lookup c)(entry_key (write_value u now ?e) \<mapsto> write_value u now ?e)"
    using map_of_keys_append [OF fresh] by (simp add: lookup_def l fun_eq_iff)
  moreover have "cache_ok c'"
    using assms(1,4) fresh l r(1) by (simp add: cache_ok_def)
  ultimately show ?thesis using r(2) k by auto
qed

section \<open>What the cache promises\<close>

datatype cache_op = CacheUpdate string feature_update int | CacheForget string

fun cache_step :: "cache_op \<Rightarrow> state_cache \<times> events_state \<Rightarrow> (state_cache \<times> events_state) \<times> bus_calls" where
  "cache_step (CacheUpdate d u now) (c, bus) =
     (let (c', bus', calls) = apply_feature_state d u now c bus in ((c', bus'), calls))"
| "cache_step (CacheForget d) (c, bus) = ((device_state_forget (Some d) c, bus), [])"

fun cache_run :: "cache_op list \<Rightarrow> state_cache \<times> events_state \<Rightarrow> (state_cache \<times> events_state) \<times> bus_calls" where
  "cache_run [] w = (w, [])"
| "cache_run (op # ops) w =
     (let (w1, calls) = cache_step op w; (w2, calls2) = cache_run ops w1 in (w2, calls @ calls2))"

text \<open>
  The specification: an unbounded map from key to the values reported for it since the device was
  last forgotten, and the time of the last report.
\<close>

type_synonym reported = "bool option \<times> int option \<times> int"

fun report_step :: "cache_op \<Rightarrow> (string \<times> string \<times> u8 \<Rightarrow> reported option) \<Rightarrow> (string \<times> string \<times> u8 \<Rightarrow> reported option)" where
  "report_step (CacheUpdate d u now) m =
     (let (bo, io, t) = (case m (update_key d u) of Some r \<Rightarrow> r | None \<Rightarrow> (None, None, 0))
      in m(update_key d u \<mapsto> (if fu_has_bool u then Some (fu_bool_value u) else bo,
                               if fu_has_int u then Some (fu_int_value u) else io, now)))"
| "report_step (CacheForget d) m = (\<lambda>k. if fst k = d then None else m k)"

definition matches :: "reported \<Rightarrow> device_state_entry \<Rightarrow> bool" where
  "matches r e = (case r of (bo, io, t) \<Rightarrow>
     st_updated_at_ms e = t \<and> (bo = None \<or> bo = Some (st_value_bool e)) \<and>
     (io = None \<or> io = Some (st_value_int e)))"

definition cache_sim :: "(string \<times> string \<times> u8 \<Rightarrow> reported option) \<Rightarrow> state_cache \<Rightarrow> bool" where
  "cache_sim m c \<longleftrightarrow> cache_ok c \<and>
     (\<forall>k. case m k of None \<Rightarrow> lookup c k = None
                    | Some r \<Rightarrow> (\<exists>e. lookup c k = Some e \<and> matches r e))"

definition op_in :: "(string \<times> string \<times> u8) set \<Rightarrow> cache_op \<Rightarrow> bool" where
  "op_in K op = (case op of CacheUpdate d u now \<Rightarrow> update_key d u \<in> K \<and> short_ids d u | CacheForget d \<Rightarrow> True)"

lemma cache_simD:
  assumes "cache_sim m c"
  shows "cache_ok c" and "m k = None \<Longrightarrow> lookup c k = None"
    and "m k = Some r \<Longrightarrow> \<exists>e. lookup c k = Some e \<and> matches r e"
proof -
  have "case m k of None \<Rightarrow> lookup c k = None | Some r \<Rightarrow> \<exists>e. lookup c k = Some e \<and> matches r e"
    using assms unfolding cache_sim_def by blast
  then show "m k = None \<Longrightarrow> lookup c k = None" "m k = Some r \<Longrightarrow> \<exists>e. lookup c k = Some e \<and> matches r e"
    by simp_all
qed (use assms in \<open>simp add: cache_sim_def\<close>)

lemma cache_simI:
  assumes "cache_ok c" "\<And>k. m k = None \<Longrightarrow> lookup c k = None"
    and "\<And>k r. m k = Some r \<Longrightarrow> \<exists>e. lookup c k = Some e \<and> matches r e"
  shows "cache_sim m c"
  unfolding cache_sim_def
proof (intro conjI allI)
  fix k
  show "case m k of None \<Rightarrow> lookup c k = None | Some r \<Rightarrow> \<exists>e. lookup c k = Some e \<and> matches r e"
    using assms(2,3) [of k] by (cases "m k") auto
qed (rule assms(1))

lemma dom_lookup: "dom (lookup c) = entry_key ` set (live c)"
  unfolding lookup_def [abs_def] dom_map_of_conv_image_fst by (simp add: image_image)

lemma count_lookup: "cache_ok c \<Longrightarrow> card (dom (lookup c)) = sc_count c"
  by (metis cache_ok_def distinct_card dom_lookup length_live length_map list.set_map)

lemma room_left:
  assumes "cache_ok c" "dom (lookup c) \<subseteq> K" "finite K" "card K \<le> DEVICE_STATE_MAX_ENTRIES"
    and "k \<in> K" "lookup c k = None"
  shows "sc_count c < DEVICE_STATE_MAX_ENTRIES"
proof -
  have "dom (lookup c) \<subset> K" using assms(2,5,6) by auto
  then have "card (dom (lookup c)) < card K" using assms(3) by (rule psubset_card_mono [rotated])
  with assms(4) count_lookup [OF assms(1)] show ?thesis by simp
qed

lemma forget_lookup:
  assumes "cache_ok c"
  shows "lookup (device_state_forget (Some d) c) k = (if fst k = d then None else lookup c k)"
proof -
  have "filter (\<lambda>e. st_device_id e \<noteq> d) (live c) = filter (\<lambda>e. (\<lambda>k. fst k \<noteq> d) (entry_key e)) (live c)"
    by (simp add: entry_key_def)
  with forget_live [OF assms, of d] map_of_keys_filter [of entry_key "\<lambda>k. fst k \<noteq> d" "live c" k]
  show ?thesis by (simp only: lookup_def) simp
qed

lemma cache_step_sim:
  assumes "cache_sim m c" "dom m \<subseteq> K" "finite K" "card K \<le> DEVICE_STATE_MAX_ENTRIES" "op_in K op"
    and "cache_step op (c, bus) = ((c', bus'), calls)"
  shows "cache_sim (report_step op m) c' \<and> dom (report_step op m) \<subseteq> K"
proof (cases op)
  case (CacheForget d)
  then have c': "c' = device_state_forget (Some d) c" using assms(6) by simp
  have "dom (report_step op m) \<subseteq> dom m" using CacheForget by (auto split: if_splits)
  moreover have "cache_sim (report_step op m) c'"
    unfolding CacheForget c' report_step.simps
  proof (rule cache_simI)
    show "cache_ok (device_state_forget (Some d) c)"
      using cache_simD(1) [OF assms(1)] forget_live by simp
  qed (use cache_simD [OF assms(1)] forget_lookup [of c d] in \<open>simp_all split: if_splits\<close>)
  ultimately show ?thesis using assms(2) by blast
next
  case (CacheUpdate d u now)
  let ?k = "update_key d u"
  have ap: "apply_feature_state d u now c bus = (c', bus', calls)" using assms(6) CacheUpdate by (simp split: prod.splits)
  have ok: "cache_ok c" "?k \<in> K" "short_ids d u" using assms(1,5) CacheUpdate by (auto simp: cache_sim_def op_in_def)
  have dl: "dom (lookup c) = dom m"
  proof (rule set_eqI)
    show "k \<in> dom (lookup c) \<longleftrightarrow> k \<in> dom m" for k
      using cache_simD(2,3) [OF assms(1), of k] by (cases "m k") auto
  qed
  obtain e where e: "cache_ok c'" "lookup c' = (lookup c)(?k \<mapsto> write_value u now e)"
      "m ?k = None \<or> lookup c ?k = Some e"
  proof (cases "lookup c ?k")
    case None
    moreover have "m ?k = None" using None dl by (auto simp: domIff)
    moreover have "sc_count c < DEVICE_STATE_MAX_ENTRIES"
      using None ok assms(2,3,4) dl by (intro room_left [of c K ?k]) auto
    ultimately show thesis using apply_new [OF ok(1) None ok(3) _ ap] that by blast
  next
    case (Some x)
    then show thesis using apply_known [OF ok(1) Some ap] that by blast
  qed
  have "matches (the (report_step op m ?k)) (write_value u now e)"
    using e(3) cache_simD(3) [OF assms(1), of ?k] CacheUpdate
    by (cases "m ?k") (auto simp: matches_def)
  moreover have "report_step op m = m(?k \<mapsto> the (report_step op m ?k))"
    using CacheUpdate by (auto simp: fun_eq_iff split: prod.splits)
  moreover have "cache_sim (m(?k \<mapsto> r)) c'" if "matches r (write_value u now e)" for r
    using cache_simD [OF assms(1)] e(1,2) that by (intro cache_simI) (auto split: if_splits)
  ultimately show ?thesis using assms(2) ok(2)
    by (metis dom_fun_upd insert_subset option.distinct(1))
qed

lemma cache_run_sim:
  "\<lbrakk>cache_sim m c; dom m \<subseteq> K; finite K; card K \<le> DEVICE_STATE_MAX_ENTRIES; \<forall>op\<in>set ops. op_in K op;
    cache_run ops (c, bus) = ((c', bus'), calls)\<rbrakk> \<Longrightarrow> cache_sim (fold report_step ops m) c'"
proof (induction ops arbitrary: m c bus calls)
  case Nil
  then show ?case by simp
next
  case (Cons op ops)
  obtain c1 bus1 calls1 where 1: "cache_step op (c, bus) = ((c1, bus1), calls1)" by (metis prod.collapse)
  with Cons.prems obtain calls2 where 2: "cache_run ops (c1, bus1) = ((c', bus'), calls2)"
    by (auto split: prod.splits)
  have "cache_sim (report_step op m) c1 \<and> dom (report_step op m) \<subseteq> K"
    using Cons.prems by (intro cache_step_sim [OF _ _ _ _ _ 1]) auto
  with Cons.IH [OF _ _ _ _ _ 2] Cons.prems show ?case by simp
qed

lemma cache_boot_sim: "cache_sim Map.empty cache_boot"
  by (simp add: cache_sim_def cache_ok_def cache_boot_def live_def lookup_def)


definition level_update :: "int \<Rightarrow> feature_update" where
  "level_update v = \<lparr>fu_feature_id = ''dim'', fu_property_id = 2, fu_has_bool = False,
     fu_bool_value = False, fu_has_int = True, fu_int_value = v\<rparr>"

definition cache_demo :: "cache_op list" where
  "cache_demo = [CacheUpdate ''a'' (level_update 10) 1, CacheUpdate ''b'' (level_update 20) 2,
     CacheForget ''a'', CacheUpdate ''b'' (level_update 30) 3]"

lemma cache_demo_in: "\<forall>op\<in>set cache_demo. op_in {(''a'', ''dim'', 2), (''b'', ''dim'', 2)} op"
  by (simp add: cache_demo_def op_in_def update_key_def level_update_def short_ids_def)

lemma cache_demo_reports:
  "fold report_step cache_demo Map.empty (''b'', ''dim'', 2) = Some (None, Some 30, 3)"
  by (simp add: cache_demo_def update_key_def level_update_def)


definition level_event :: "int option \<Rightarrow> gw_message" where
  "level_event v = zero_message\<lparr>m_type := ''device_event'', m_command := ''feature_state'',
     m_feature_id := ''dim'', m_has_feature_id := True, m_property_id := 2, m_has_property_id := True,
     m_has_feature_value_int := (v \<noteq> None), m_feature_value_int := (case v of Some x \<Rightarrow> x | None \<Rightarrow> 0)\<rparr>"

text \<open>
  A slot freed by forgetting a device keeps that device's values. A \<open>feature_state\<close> event that
  names a feature but carries no value is accepted for a new key; the entry it creates reuses such a
  slot without clearing it, is marked valid, and reads back the value of the forgotten device.
\<close>

theorem forgotten_value_reappears:
  "let (r1, c1, b1, _) = device_state_on_notify (Some ''a'') (Some (level_event (Some 77))) 1 cache_boot events_boot;
       c2 = device_state_forget (Some ''a'') c1;
       (r2, c3, b3, _) = device_state_on_notify (Some ''b'') (Some (level_event None)) 2 c2 b1
   in device_state_get True ''a'' ''dim'' 2 c2 = (ESP_ERR_NOT_FOUND, None) \<and>
      map_option st_value_int (snd (device_state_get True ''b'' ''dim'' 2 c3)) = Some 77"
  by code_simp

end
