(* ===== verification/Device_Template.thy ===== *)
theory Device_Template
  imports Gw_Prelude
begin

text \<open>
  The static registry of semantic feature templates (\<open>device_template/device_template.c\<close>): which
  primary property a feature type has, and the value type and names of features and properties.
  The wire numbers are those of \<open>cbor_codec.h\<close>.
\<close>

section \<open>Data\<close>

abbreviation GW_FEATURE_GENERIC_RELAY :: u8 where "GW_FEATURE_GENERIC_RELAY \<equiv> 1"
abbreviation GW_FEATURE_GENERIC_VALUE :: u8 where "GW_FEATURE_GENERIC_VALUE \<equiv> 2"
abbreviation GW_FEATURE_ON_OFF_PLUGIN_UNIT :: u8 where "GW_FEATURE_ON_OFF_PLUGIN_UNIT \<equiv> 10"
abbreviation GW_FEATURE_ON_OFF_LIGHT :: u8 where "GW_FEATURE_ON_OFF_LIGHT \<equiv> 11"
abbreviation GW_FEATURE_DIMMABLE_LIGHT :: u8 where "GW_FEATURE_DIMMABLE_LIGHT \<equiv> 12"
abbreviation GW_FEATURE_FAN :: u8 where "GW_FEATURE_FAN \<equiv> 20"
abbreviation GW_FEATURE_TEMPERATURE_SENSOR :: u8 where "GW_FEATURE_TEMPERATURE_SENSOR \<equiv> 30"
abbreviation GW_FEATURE_HUMIDITY_SENSOR :: u8 where "GW_FEATURE_HUMIDITY_SENSOR \<equiv> 31"
abbreviation GW_FEATURE_CONTACT_SENSOR :: u8 where "GW_FEATURE_CONTACT_SENSOR \<equiv> 40"

abbreviation GW_PROP_NONE :: u8 where "GW_PROP_NONE \<equiv> 0"
abbreviation GW_PROP_ON_OFF :: u8 where "GW_PROP_ON_OFF \<equiv> 1"
abbreviation GW_PROP_LEVEL :: u8 where "GW_PROP_LEVEL \<equiv> 2"
abbreviation GW_PROP_PERCENT_SETTING :: u8 where "GW_PROP_PERCENT_SETTING \<equiv> 3"
abbreviation GW_PROP_PERCENT_CURRENT :: u8 where "GW_PROP_PERCENT_CURRENT \<equiv> 4"
abbreviation GW_PROP_TEMPERATURE :: u8 where "GW_PROP_TEMPERATURE \<equiv> 5"
abbreviation GW_PROP_HUMIDITY :: u8 where "GW_PROP_HUMIDITY \<equiv> 6"
abbreviation GW_PROP_CONTACT :: u8 where "GW_PROP_CONTACT \<equiv> 7"
abbreviation GW_PROP_VALUE :: u8 where "GW_PROP_VALUE \<equiv> 8"

abbreviation DEVICE_TEMPLATE_VALUE_NONE :: u8 where "DEVICE_TEMPLATE_VALUE_NONE \<equiv> 0"
abbreviation DEVICE_TEMPLATE_VALUE_BOOL :: u8 where "DEVICE_TEMPLATE_VALUE_BOOL \<equiv> 1"
abbreviation DEVICE_TEMPLATE_VALUE_INT :: u8 where "DEVICE_TEMPLATE_VALUE_INT \<equiv> 2"

record device_template =
  dt_feature_type :: u8
  dt_schema_version :: u16
  dt_semantic_name :: string
  dt_primary_property :: u8

definition s_templates :: "device_template list" where
  "s_templates =
     [\<lparr>dt_feature_type = GW_FEATURE_GENERIC_VALUE, dt_schema_version = 1,
       dt_semantic_name = ''value'', dt_primary_property = GW_PROP_VALUE\<rparr>,
      \<lparr>dt_feature_type = GW_FEATURE_GENERIC_RELAY, dt_schema_version = 1,
       dt_semantic_name = ''relay'', dt_primary_property = GW_PROP_ON_OFF\<rparr>,
      \<lparr>dt_feature_type = GW_FEATURE_ON_OFF_PLUGIN_UNIT, dt_schema_version = 1,
       dt_semantic_name = ''outlet'', dt_primary_property = GW_PROP_ON_OFF\<rparr>,
      \<lparr>dt_feature_type = GW_FEATURE_ON_OFF_LIGHT, dt_schema_version = 1,
       dt_semantic_name = ''light'', dt_primary_property = GW_PROP_ON_OFF\<rparr>,
      \<lparr>dt_feature_type = GW_FEATURE_DIMMABLE_LIGHT, dt_schema_version = 1,
       dt_semantic_name = ''light'', dt_primary_property = GW_PROP_LEVEL\<rparr>,
      \<lparr>dt_feature_type = GW_FEATURE_FAN, dt_schema_version = 1,
       dt_semantic_name = ''fan'', dt_primary_property = GW_PROP_PERCENT_SETTING\<rparr>,
      \<lparr>dt_feature_type = GW_FEATURE_TEMPERATURE_SENSOR, dt_schema_version = 1,
       dt_semantic_name = ''temperature'', dt_primary_property = GW_PROP_TEMPERATURE\<rparr>,
      \<lparr>dt_feature_type = GW_FEATURE_HUMIDITY_SENSOR, dt_schema_version = 1,
       dt_semantic_name = ''humidity'', dt_primary_property = GW_PROP_HUMIDITY\<rparr>,
      \<lparr>dt_feature_type = GW_FEATURE_CONTACT_SENSOR, dt_schema_version = 1,
       dt_semantic_name = ''contact'', dt_primary_property = GW_PROP_CONTACT\<rparr>]"

definition s_feature_names :: "(u8 \<times> string) list" where
  "s_feature_names =
     [(0, ''none''), (GW_FEATURE_GENERIC_RELAY, ''relay''), (GW_FEATURE_GENERIC_VALUE, ''value''),
      (GW_FEATURE_ON_OFF_PLUGIN_UNIT, ''outlet''), (GW_FEATURE_ON_OFF_LIGHT, ''light''),
      (GW_FEATURE_DIMMABLE_LIGHT, ''light''), (GW_FEATURE_FAN, ''fan''),
      (GW_FEATURE_TEMPERATURE_SENSOR, ''temperature''), (GW_FEATURE_HUMIDITY_SENSOR, ''humidity''),
      (GW_FEATURE_CONTACT_SENSOR, ''contact'')]"

definition s_property_info :: "(u8 \<times> string \<times> u8) list" where
  "s_property_info =
     [(GW_PROP_NONE, ''none'', DEVICE_TEMPLATE_VALUE_NONE),
      (GW_PROP_ON_OFF, ''on_off'', DEVICE_TEMPLATE_VALUE_BOOL),
      (GW_PROP_LEVEL, ''level'', DEVICE_TEMPLATE_VALUE_INT),
      (GW_PROP_PERCENT_SETTING, ''percent_setting'', DEVICE_TEMPLATE_VALUE_INT),
      (GW_PROP_PERCENT_CURRENT, ''percent_current'', DEVICE_TEMPLATE_VALUE_INT),
      (GW_PROP_TEMPERATURE, ''temperature'', DEVICE_TEMPLATE_VALUE_INT),
      (GW_PROP_HUMIDITY, ''humidity'', DEVICE_TEMPLATE_VALUE_INT),
      (GW_PROP_CONTACT, ''contact'', DEVICE_TEMPLATE_VALUE_BOOL),
      (GW_PROP_VALUE, ''value'', DEVICE_TEMPLATE_VALUE_INT)]"

section \<open>Lookups\<close>

definition device_template_resolve :: "u8 \<Rightarrow> u16 \<Rightarrow> device_template option" where
  "device_template_resolve feature_type schema_version =
     map_option (nth s_templates)
       (find_index (\<lambda>t. dt_feature_type t = feature_type \<and> dt_schema_version t = schema_version) s_templates)"

definition device_template_semantic_name :: "device_template option \<Rightarrow> string" where
  "device_template_semantic_name tpl = (case tpl of None \<Rightarrow> [] | Some t \<Rightarrow> dt_semantic_name t)"

definition device_template_primary_property :: "device_template option \<Rightarrow> u8" where
  "device_template_primary_property tpl = (case tpl of None \<Rightarrow> 0 | Some t \<Rightarrow> dt_primary_property t)"

definition device_template_feature_name :: "u8 \<Rightarrow> string" where
  "device_template_feature_name feature_type =
     (case find_index (\<lambda>(t, n). t = feature_type) s_feature_names of
        Some i \<Rightarrow> snd (s_feature_names ! i) | None \<Rightarrow> ''unknown'')"

definition device_template_property_name :: "u8 \<Rightarrow> string" where
  "device_template_property_name property_id =
     (case find_index (\<lambda>(p, n, v). p = property_id) s_property_info of
        Some i \<Rightarrow> fst (snd (s_property_info ! i)) | None \<Rightarrow> ''unknown'')"

definition device_template_property_value_type :: "u8 \<Rightarrow> u8" where
  "device_template_property_value_type property_id =
     (case find_index (\<lambda>(p, n, v). p = property_id) s_property_info of
        Some i \<Rightarrow> snd (snd (s_property_info ! i)) | None \<Rightarrow> DEVICE_TEMPLATE_VALUE_NONE)"

lemma property_value_type_cases:
  "device_template_property_value_type p \<in> {DEVICE_TEMPLATE_VALUE_NONE, DEVICE_TEMPLATE_VALUE_BOOL, DEVICE_TEMPLATE_VALUE_INT}"
  by (simp add: device_template_property_value_type_def s_property_info_def)

lemma resolve_key:
  "device_template_resolve ft sv = Some t \<Longrightarrow> dt_feature_type t = ft \<and> dt_schema_version t = sv \<and> t \<in> set s_templates"
  unfolding device_template_resolve_def
  by (auto dest!: find_index_SomeD)

end
