(* ===== verification/Device_Store_Nvs.thy ===== *)
theory Device_Store_Nvs
  imports Gw_Prelude
begin

unbundle bit_operations_syntax

text \<open>
  Persistence of the device list: entry validation (\<open>device_store/device_store_entry.c\<close>), the
  schema-versioned record loaders (\<open>device_store_migration.c\<close>) and the NVS backend
  (\<open>device_store_nvs.c\<close>).

  NVS is flash storage of the SDK. Its functions are the fields of the record \<open>nvs_api\<close>, an argument
  of every definition that calls them, over an unspecified storage state \<open>'n\<close>; the locale
  \<open>nvs_contract\<close> states the documented behaviour the code relies on: a write that reports success is
  what the next read of that key returns, a write that reports an error changed nothing, and a
  missing key is reported as such. \<open>nvs_open\<close> yields a handle exactly when it returns \<open>ESP_OK\<close>.
\<close>

section \<open>Data\<close>

record 'n nvs_api =
  nvs_open :: "'n \<Rightarrow> 'n \<times> esp_err"
  nvs_close :: "'n \<Rightarrow> 'n"
  nvs_commit :: "'n \<Rightarrow> 'n \<times> esp_err"
  nvs_get_u8 :: "'n \<Rightarrow> string \<Rightarrow> esp_err \<times> u8"
  nvs_set_u8 :: "'n \<Rightarrow> string \<Rightarrow> u8 \<Rightarrow> 'n \<times> esp_err"
  nvs_get_str :: "'n \<Rightarrow> string \<Rightarrow> nat \<Rightarrow> esp_err \<times> string"
  nvs_set_str :: "'n \<Rightarrow> string \<Rightarrow> string \<Rightarrow> 'n \<times> esp_err"
  nvs_get_blob :: "'n \<Rightarrow> string \<Rightarrow> nat \<Rightarrow> esp_err \<times> u8 list"
  nvs_set_blob :: "'n \<Rightarrow> string \<Rightarrow> u8 list \<Rightarrow> 'n \<times> esp_err"
  nvs_erase_key :: "'n \<Rightarrow> string \<Rightarrow> 'n \<times> esp_err"

datatype device_store_result =
    DEVICE_STORE_OK
  | DEVICE_STORE_ERR_INVALID_ARG
  | DEVICE_STORE_ERR_NOT_FOUND
  | DEVICE_STORE_ERR_DUPLICATE_ID
  | DEVICE_STORE_ERR_DUPLICATE_BLE_IDENTITY
  | DEVICE_STORE_ERR_FULL
  | DEVICE_STORE_ERR_BUSY
  | DEVICE_STORE_ERR_PERSISTENCE
  | DEVICE_STORE_ERR_CORRUPT
  | DEVICE_STORE_ERR_SCHEMA_TOO_NEW
  | DEVICE_STORE_ERR_BUFFER_TOO_SMALL
  | DEVICE_STORE_ERR_CAPACITY_EXCEEDED
  | DEVICE_STORE_ERR_INVALID_STATE

record device_entry =
  de_device_id :: string
  de_name :: string
  de_ble_addr :: "u8 list"
  de_ble_addr_type :: u8
  de_has_ble_identity :: bool

definition zero_entry :: device_entry where
  "zero_entry = \<lparr>de_device_id = [], de_name = [], de_ble_addr = replicate 6 0,
                 de_ble_addr_type = 0, de_has_ble_identity = False\<rparr>"

abbreviation DEVICE_ID_MAX_LEN :: nat where "DEVICE_ID_MAX_LEN \<equiv> 32"
abbreviation DEVICE_NAME_MAX_LEN :: nat where "DEVICE_NAME_MAX_LEN \<equiv> 32"
abbreviation DEVICE_TYPE_MAX_LEN_V2 :: nat where "DEVICE_TYPE_MAX_LEN_V2 \<equiv> 16"
abbreviation DEVICE_STORE_MAX_DEVICES :: nat where "DEVICE_STORE_MAX_DEVICES \<equiv> 16"
abbreviation DEVICE_STORE_SCHEMA_VERSION :: u8 where "DEVICE_STORE_SCHEMA_VERSION \<equiv> 3"

section \<open>Entries\<close>

definition valid_text :: "string option \<Rightarrow> nat \<Rightarrow> bool" where
  "valid_text value max_length =
     (case value of None \<Rightarrow> False
      | Some s \<Rightarrow> (let len = min max_length (length s) in 0 < len \<and> len < max_length))"

definition hex_value :: "char \<Rightarrow> int" where
  "hex_value c =
     (let n = of_char c :: int
      in if 48 \<le> n \<and> n \<le> 57 then n - 48
         else if 97 \<le> n \<and> n \<le> 102 then n - 97 + 10
         else if 65 \<le> n \<and> n \<le> 70 then n - 65 + 10
         else -1)"

text \<open>One pass of the loop of \<open>device_store_entry_parse_ble_addr\<close> per byte; NUL ends the text.\<close>

fun parse_addr_bytes :: "nat \<Rightarrow> string \<Rightarrow> u8 list \<Rightarrow> (u8 list \<times> string) option" where
  "parse_addr_bytes 0 text acc = Some (acc, text)"
| "parse_addr_bytes (Suc k) text acc =
     (case text of
        h # l # rest \<Rightarrow>
          if hex_value h < 0 then None
          else if hex_value l < 0 then None
          else let acc' = acc @ [word_of_int (push_bit 4 (hex_value h) OR hex_value l)]
               in if 0 < k then
                    (case rest of
                       c # rest' \<Rightarrow> if c \<noteq> CHR '':'' \<and> c \<noteq> CHR ''-'' then None
                                   else parse_addr_bytes k rest' acc'
                     | [] \<Rightarrow> None)
                  else parse_addr_bytes k rest acc'
      | _ \<Rightarrow> None)"

definition device_store_entry_parse_ble_addr :: "string option \<Rightarrow> u8 list option" where
  "device_store_entry_parse_ble_addr text =
     (case text of None \<Rightarrow> None
      | Some s \<Rightarrow>
          (case parse_addr_bytes 6 s [] of
             None \<Rightarrow> None
           | Some (display_order, rest) \<Rightarrow> if rest \<noteq> [] then None else Some (rev display_order)))"

definition device_store_entry_create :: "string option \<Rightarrow> string option \<Rightarrow> device_entry option" where
  "device_store_entry_create device_id name =
     (if \<not> valid_text device_id DEVICE_ID_MAX_LEN \<or> \<not> valid_text name DEVICE_NAME_MAX_LEN then None
      else Some (zero_entry\<lparr>de_device_id := strlcpy DEVICE_ID_MAX_LEN (the device_id),
                            de_name := strlcpy DEVICE_NAME_MAX_LEN (the name)\<rparr>))"

definition device_store_entry_edit :: "device_entry \<Rightarrow> string option \<Rightarrow> device_entry option" where
  "device_store_entry_edit entry new_name =
     (if new_name = None \<or> \<not> valid_text new_name DEVICE_NAME_MAX_LEN then None
      else Some (entry\<lparr>de_name := strlcpy DEVICE_NAME_MAX_LEN (the new_name)\<rparr>))"

section \<open>Keys\<close>

definition digit :: "nat \<Rightarrow> char" where
  "digit n = char_of (48 + n)"

fun dec :: "nat \<Rightarrow> string" where
  "dec n = (if n < 10 then [digit n] else dec (n div 10) @ [digit (n mod 10)])"

declare dec.simps [simp del]

text \<open>\<open>snprintf(key, sizeof key, "id_%d", index)\<close> and its companions.\<close>

definition id_key :: "nat \<Rightarrow> string" where "id_key i = ''id_'' @ dec i"
definition name_key :: "nat \<Rightarrow> string" where "name_key i = ''name_'' @ dec i"
definition type_key :: "nat \<Rightarrow> string" where "type_key i = ''type_'' @ dec i"
definition addr_key :: "nat \<Rightarrow> string" where "addr_key i = ''addr_'' @ dec i"
definition atype_key :: "nat \<Rightarrow> string" where "atype_key i = ''atype_'' @ dec i"

section \<open>Loaders\<close>

definition classify_key_error :: "esp_err \<Rightarrow> device_store_result" where
  "classify_key_error err =
     (case err of
        ESP_OK \<Rightarrow> DEVICE_STORE_OK
      | ESP_ERR_NVS_NOT_FOUND \<Rightarrow> DEVICE_STORE_ERR_CORRUPT
      | ESP_ERR_NVS_TYPE_MISMATCH \<Rightarrow> DEVICE_STORE_ERR_CORRUPT
      | ESP_ERR_NVS_INVALID_LENGTH \<Rightarrow> DEVICE_STORE_ERR_CORRUPT
      | _ \<Rightarrow> DEVICE_STORE_ERR_PERSISTENCE)"

definition load_required_str_v2 ::
    "'n nvs_api \<Rightarrow> 'n \<Rightarrow> string \<Rightarrow> nat \<Rightarrow> device_store_result \<times> string" where
  "load_required_str_v2 N n key out_size =
     (let (err, s) = nvs_get_str N n key out_size
      in if err = ESP_OK \<and> s = [] then (DEVICE_STORE_ERR_CORRUPT, s)
         else (classify_key_error err, s))"

text \<open>What a blob read leaves in a six-byte array that held zeros.\<close>

definition blob_into :: "u8 list \<Rightarrow> u8 list" where
  "blob_into bs = bs @ drop (length bs) (replicate 6 0)"

definition load_entry_v1 ::
    "'n nvs_api \<Rightarrow> 'n \<Rightarrow> nat \<Rightarrow> device_store_result \<times> device_entry" where
  "load_entry_v1 N n index =
     (let (result, dev) = load_required_str_v2 N n (id_key index) DEVICE_ID_MAX_LEN
      in if result \<noteq> DEVICE_STORE_OK then (result, zero_entry)
         else
           let (nerr, nm) = nvs_get_str N n (name_key index) DEVICE_NAME_MAX_LEN;
               name = (if nerr \<noteq> ESP_OK then strlcpy DEVICE_NAME_MAX_LEN dev else nm);
               entry = zero_entry\<lparr>de_device_id := dev, de_name := name\<rparr>;
               (aerr, addr) = nvs_get_blob N n (addr_key index) 6
           in if aerr = ESP_OK \<and> length addr = 6 then
                let (terr, ty) = nvs_get_u8 N n (atype_key index);
                    addr_type = (if terr = ESP_OK then ty else 0)
                in (DEVICE_STORE_OK,
                    entry\<lparr>de_ble_addr := addr, de_ble_addr_type := addr_type,
                          de_has_ble_identity := True\<rparr>)
              else
                let entry' = (if aerr = ESP_OK then entry\<lparr>de_ble_addr := blob_into addr\<rparr> else entry)
                in case device_store_entry_parse_ble_addr (Some dev) of
                     Some a \<Rightarrow> (DEVICE_STORE_OK,
                                entry'\<lparr>de_ble_addr := a, de_ble_addr_type := 0,
                                       de_has_ble_identity := True\<rparr>)
                   | None \<Rightarrow> (DEVICE_STORE_OK, entry'))"

text \<open>The identity pair of schema 2 and 3: both keys or neither.\<close>

definition load_identity ::
    "'n nvs_api \<Rightarrow> 'n \<Rightarrow> nat \<Rightarrow> device_entry \<Rightarrow> device_store_result \<times> device_entry" where
  "load_identity N n index entry =
     (let (addr_err, addr) = nvs_get_blob N n (addr_key index) 6;
          (type_err, addr_type) = nvs_get_u8 N n (atype_key index)
      in if addr_err = ESP_OK \<and> type_err = ESP_OK then
           (if length addr \<noteq> 6 then (DEVICE_STORE_ERR_CORRUPT, entry)
            else (DEVICE_STORE_OK,
                  entry\<lparr>de_ble_addr := addr, de_ble_addr_type := addr_type,
                        de_has_ble_identity := True\<rparr>))
         else if addr_err \<noteq> ESP_ERR_NVS_NOT_FOUND \<or> type_err \<noteq> ESP_ERR_NVS_NOT_FOUND then
           (DEVICE_STORE_ERR_CORRUPT, entry)
         else (DEVICE_STORE_OK, entry))"

definition load_entry_v2 ::
    "'n nvs_api \<Rightarrow> 'n \<Rightarrow> nat \<Rightarrow> device_store_result \<times> device_entry" where
  "load_entry_v2 N n index =
     (let (r1, dev) = load_required_str_v2 N n (id_key index) DEVICE_ID_MAX_LEN
      in if r1 \<noteq> DEVICE_STORE_OK then (r1, zero_entry)
         else
           let (r2, name) = load_required_str_v2 N n (name_key index) DEVICE_NAME_MAX_LEN
           in if r2 \<noteq> DEVICE_STORE_OK then (r2, zero_entry)
              else
                let (r3, _) = load_required_str_v2 N n (type_key index) DEVICE_TYPE_MAX_LEN_V2
                in if r3 \<noteq> DEVICE_STORE_OK then (r3, zero_entry)
                   else load_identity N n index (zero_entry\<lparr>de_device_id := dev, de_name := name\<rparr>))"

definition load_entry_v3 ::
    "'n nvs_api \<Rightarrow> 'n \<Rightarrow> nat \<Rightarrow> device_store_result \<times> device_entry" where
  "load_entry_v3 N n index =
     (let (r1, dev) = load_required_str_v2 N n (id_key index) DEVICE_ID_MAX_LEN
      in if r1 \<noteq> DEVICE_STORE_OK then (r1, zero_entry)
         else
           let (r2, name) = load_required_str_v2 N n (name_key index) DEVICE_NAME_MAX_LEN
           in if r2 \<noteq> DEVICE_STORE_OK then (r2, zero_entry)
              else load_identity N n index (zero_entry\<lparr>de_device_id := dev, de_name := name\<rparr>))"

definition device_store_migration_load_entry ::
    "'n nvs_api \<Rightarrow> 'n \<Rightarrow> u8 \<Rightarrow> nat \<Rightarrow> device_store_result \<times> device_entry" where
  "device_store_migration_load_entry N n stored_schema index =
     (if stored_schema = 1 then load_entry_v1 N n index
      else if stored_schema = 2 then load_entry_v2 N n index
      else if stored_schema = DEVICE_STORE_SCHEMA_VERSION then load_entry_v3 N n index
      else (DEVICE_STORE_ERR_SCHEMA_TOO_NEW, zero_entry))"

section \<open>The backend\<close>

definition result_from :: "esp_err \<Rightarrow> device_store_result" where
  "result_from err =
     (case err of
        ESP_OK \<Rightarrow> DEVICE_STORE_OK
      | ESP_ERR_NVS_TYPE_MISMATCH \<Rightarrow> DEVICE_STORE_ERR_CORRUPT
      | ESP_ERR_NVS_INVALID_LENGTH \<Rightarrow> DEVICE_STORE_ERR_CORRUPT
      | _ \<Rightarrow> DEVICE_STORE_ERR_PERSISTENCE)"

definition save_metadata :: "'n nvs_api \<Rightarrow> 'n \<Rightarrow> nat \<Rightarrow> 'n \<times> esp_err" where
  "save_metadata N n count =
     (let (n1, err) = nvs_set_u8 N n ''count'' (of_nat count)
      in if err = ESP_OK then nvs_set_u8 N n1 ''schema_ver'' DEVICE_STORE_SCHEMA_VERSION
         else (n1, err))"

definition save_entry :: "'n nvs_api \<Rightarrow> 'n \<Rightarrow> nat \<Rightarrow> device_entry \<Rightarrow> 'n \<times> esp_err" where
  "save_entry N n index entry =
     (let (n1, e1) = nvs_set_str N n (id_key index) (de_device_id entry)
      in if e1 \<noteq> ESP_OK then (n1, e1)
         else
           let (n2, e2) = nvs_set_str N n1 (name_key index) (de_name entry)
           in if e2 \<noteq> ESP_OK then (n2, e2)
              else
                let (n3, _) = nvs_erase_key N n2 (type_key index)
                in if de_has_ble_identity entry then
                     (let (n4, e4) = nvs_set_blob N n3 (addr_key index) (de_ble_addr entry)
                      in if e4 \<noteq> ESP_OK then (n4, e4)
                         else nvs_set_u8 N n4 (atype_key index) (de_ble_addr_type entry))
                   else
                     (let (n4, e4) = nvs_erase_key N n3 (addr_key index)
                      in if e4 \<noteq> ESP_OK \<and> e4 \<noteq> ESP_ERR_NVS_NOT_FOUND then (n4, e4)
                         else
                           let (n5, e5) = nvs_erase_key N n4 (atype_key index)
                           in (n5, if e5 = ESP_ERR_NVS_NOT_FOUND then ESP_OK else e5)))"

fun erase_keys :: "'n nvs_api \<Rightarrow> 'n \<Rightarrow> string list \<Rightarrow> 'n \<times> esp_err" where
  "erase_keys N n [] = (n, ESP_OK)"
| "erase_keys N n (k # ks) =
     (let (n1, err) = nvs_erase_key N n k
      in if err \<noteq> ESP_OK \<and> err \<noteq> ESP_ERR_NVS_NOT_FOUND then (n1, err) else erase_keys N n1 ks)"

definition erase_entry :: "'n nvs_api \<Rightarrow> 'n \<Rightarrow> nat \<Rightarrow> 'n \<times> esp_err" where
  "erase_entry N n index =
     erase_keys N n [id_key index, name_key index, type_key index, addr_key index, atype_key index]"

text \<open>\<open>for (i = from; err == ESP_OK && i < from + |es|; i++) err = save_entry(i, &es[i - from])\<close>.\<close>

fun save_entries :: "'n nvs_api \<Rightarrow> 'n \<Rightarrow> nat \<Rightarrow> device_entry list \<Rightarrow> 'n \<times> esp_err" where
  "save_entries N n i [] = (n, ESP_OK)"
| "save_entries N n i (e # es) =
     (let (n1, err) = save_entry N n i e
      in if err = ESP_OK then save_entries N n1 (Suc i) es else (n1, err))"

fun erase_entries :: "'n nvs_api \<Rightarrow> 'n \<Rightarrow> nat list \<Rightarrow> 'n \<times> esp_err" where
  "erase_entries N n [] = (n, ESP_OK)"
| "erase_entries N n (i # is) =
     (let (n1, err) = erase_entry N n i
      in if err = ESP_OK then erase_entries N n1 is else (n1, err))"

text \<open>
  The load loop: corrupt records are skipped, any other error stops it. The result is the last
  one seen, as in the source.
\<close>

fun load_loop ::
    "'n nvs_api \<Rightarrow> 'n \<Rightarrow> u8 \<Rightarrow> nat list \<Rightarrow> device_store_result \<Rightarrow> device_entry list \<Rightarrow>
     device_store_result \<times> device_entry list" where
  "load_loop N n ver [] result loaded = (result, loaded)"
| "load_loop N n ver (i # is) result loaded =
     (let (r, entry) = device_store_migration_load_entry N n ver i
      in if r = DEVICE_STORE_ERR_CORRUPT then load_loop N n ver is r loaded
         else if r \<noteq> DEVICE_STORE_OK then (r, loaded)
         else load_loop N n ver is r (loaded @ [entry]))"

definition device_store_nvs_load ::
    "'n nvs_api \<Rightarrow> 'n \<Rightarrow> nat \<Rightarrow> 'n \<times> device_store_result \<times> device_entry list" where
  "device_store_nvs_load N n capacity =
     (if capacity = 0 then (n, DEVICE_STORE_ERR_INVALID_ARG, [])
      else
        let (n0, err) = nvs_open N n
        in if err \<noteq> ESP_OK then (n0, DEVICE_STORE_ERR_PERSISTENCE, [])
           else
             let (verr, v) = nvs_get_u8 N n0 ''schema_ver'';
                 stored_version = (if verr = ESP_ERR_NVS_NOT_FOUND then 1 else v)
             in if verr \<noteq> ESP_ERR_NVS_NOT_FOUND \<and> verr \<noteq> ESP_OK then
                  (nvs_close N n0, result_from verr, [])
                else if DEVICE_STORE_SCHEMA_VERSION < stored_version then
                  (nvs_close N n0, DEVICE_STORE_ERR_SCHEMA_TOO_NEW, [])
                else
                  let (cerr, c) = nvs_get_u8 N n0 ''count'';
                      raw_count = (if cerr = ESP_ERR_NVS_NOT_FOUND then 0 else unat c)
                  in if cerr \<noteq> ESP_ERR_NVS_NOT_FOUND \<and> cerr \<noteq> ESP_OK then
                       (nvs_close N n0, result_from cerr, [])
                     else if capacity < raw_count then
                       (nvs_close N n0, DEVICE_STORE_ERR_CAPACITY_EXCEEDED, [])
                     else
                       let (result, es) =
                             load_loop N n0 stored_version [0..<raw_count] DEVICE_STORE_OK []
                       in if result \<noteq> DEVICE_STORE_OK \<and> result \<noteq> DEVICE_STORE_ERR_CORRUPT then
                            (nvs_close N n0, result, [])
                          else if stored_version \<noteq> DEVICE_STORE_SCHEMA_VERSION \<or> length es \<noteq> raw_count then
                            let (n1, e1) = save_metadata N n0 (length es);
                                (n2, e2) = (if e1 = ESP_OK then save_entries N n1 0 es else (n1, e1));
                                (n3, e3) = (if e2 = ESP_OK
                                            then erase_entries N n2 [length es..<raw_count] else (n2, e2));
                                (n4, e4) = (if e3 = ESP_OK then nvs_commit N n3 else (n3, e3))
                            in if e4 \<noteq> ESP_OK then (nvs_close N n4, result_from e4, [])
                               else (nvs_close N n4, DEVICE_STORE_OK, es)
                          else (nvs_close N n0, DEVICE_STORE_OK, es))"

text \<open>Open, run the writes while they succeed, commit, close: shared by the three mutations.\<close>

definition with_handle ::
    "'n nvs_api \<Rightarrow> 'n \<Rightarrow> ('n \<Rightarrow> 'n \<times> esp_err) \<Rightarrow> 'n \<times> device_store_result" where
  "with_handle N n body =
     (let (n0, err) = nvs_open N n
      in if err \<noteq> ESP_OK then (n0, result_from err)
         else
           let (n1, e1) = body n0;
               (n2, e2) = (if e1 = ESP_OK then nvs_commit N n1 else (n1, e1))
           in (nvs_close N n2, result_from e2))"

definition device_store_nvs_append ::
    "'n nvs_api \<Rightarrow> 'n \<Rightarrow> nat \<Rightarrow> nat \<Rightarrow> device_entry \<Rightarrow> 'n \<times> device_store_result" where
  "device_store_nvs_append N n index new_count entry =
     with_handle N n (\<lambda>n0.
       let (n1, e1) = save_entry N n0 index entry
       in if e1 = ESP_OK then save_metadata N n1 new_count else (n1, e1))"

definition device_store_nvs_update ::
    "'n nvs_api \<Rightarrow> 'n \<Rightarrow> nat \<Rightarrow> device_entry \<Rightarrow> 'n \<times> device_store_result" where
  "device_store_nvs_update N n index entry = with_handle N n (\<lambda>n0. save_entry N n0 index entry)"

definition device_store_nvs_delete ::
    "'n nvs_api \<Rightarrow> 'n \<Rightarrow> nat \<Rightarrow> device_entry list \<Rightarrow> nat \<Rightarrow> 'n \<times> device_store_result" where
  "device_store_nvs_delete N n index compacted previous_count =
     with_handle N n (\<lambda>n0.
       let (n1, e1) = save_entries N n0 index (take (previous_count - 1 - index) (drop index compacted));
           (n2, e2) = (if e1 = ESP_OK then erase_entry N n1 (previous_count - 1) else (n1, e1))
       in if e2 = ESP_OK then save_metadata N n2 (previous_count - 1) else (n2, e2))"

section \<open>What the code relies on\<close>

datatype nvs_value = NvsU8 u8 | NvsStr string | NvsBlob "u8 list"

locale nvs_contract =
  fixes N :: "'n nvs_api" and view :: "'n \<Rightarrow> string \<Rightarrow> nvs_value option"
  assumes open_view: "nvs_open N n = (n', e) \<Longrightarrow> view n' = view n"
    and close_view: "view (nvs_close N n) = view n"
    and commit_view: "nvs_commit N n = (n', e) \<Longrightarrow> view n' = view n"
    and get_u8_Some: "view n k = Some (NvsU8 v) \<Longrightarrow> nvs_get_u8 N n k = (ESP_OK, v)"
    and get_u8_None: "view n k = None \<Longrightarrow> fst (nvs_get_u8 N n k) = ESP_ERR_NVS_NOT_FOUND"
    and get_str_Some: "view n k = Some (NvsStr t) \<Longrightarrow> length t < cap \<Longrightarrow> nvs_get_str N n k cap = (ESP_OK, t)"
    and get_blob_Some: "view n k = Some (NvsBlob b) \<Longrightarrow> length b \<le> cap \<Longrightarrow> nvs_get_blob N n k cap = (ESP_OK, b)"
    and get_blob_None: "view n k = None \<Longrightarrow> fst (nvs_get_blob N n k cap) = ESP_ERR_NVS_NOT_FOUND"
    and set_u8_view: "nvs_set_u8 N n k v = (n', e) \<Longrightarrow>
          view n' = (if e = ESP_OK then (view n)(k \<mapsto> NvsU8 v) else view n)"
    and set_str_view: "nvs_set_str N n k t = (n', e) \<Longrightarrow>
          view n' = (if e = ESP_OK then (view n)(k \<mapsto> NvsStr t) else view n)"
    and set_blob_view: "nvs_set_blob N n k b = (n', e) \<Longrightarrow>
          view n' = (if e = ESP_OK then (view n)(k \<mapsto> NvsBlob b) else view n)"
    and erase_view: "nvs_erase_key N n k = (n', e) \<Longrightarrow>
          view n' = (if e = ESP_OK then (view n)(k := None) else view n)"
    and erase_missing: "nvs_erase_key N n k = (n', ESP_ERR_NVS_NOT_FOUND) \<Longrightarrow> view n k = None"

text \<open>A working NVS: a map from keys to typed values. Values whose type differs are a mismatch.\<close>

definition map_nvs :: "(string \<Rightarrow> nvs_value option) nvs_api" where
  "map_nvs =
     \<lparr>nvs_open = (\<lambda>m. (m, ESP_OK)), nvs_close = (\<lambda>m. m), nvs_commit = (\<lambda>m. (m, ESP_OK)),
      nvs_get_u8 = (\<lambda>m k. case m k of None \<Rightarrow> (ESP_ERR_NVS_NOT_FOUND, 0)
                       | Some (NvsU8 v) \<Rightarrow> (ESP_OK, v) | _ \<Rightarrow> (ESP_ERR_NVS_TYPE_MISMATCH, 0)),
      nvs_set_u8 = (\<lambda>m k v. (m(k \<mapsto> NvsU8 v), ESP_OK)),
      nvs_get_str = (\<lambda>m k cap. case m k of None \<Rightarrow> (ESP_ERR_NVS_NOT_FOUND, [])
                       | Some (NvsStr t) \<Rightarrow>
                           if length t < cap then (ESP_OK, t) else (ESP_ERR_NVS_INVALID_LENGTH, [])
                       | _ \<Rightarrow> (ESP_ERR_NVS_TYPE_MISMATCH, [])),
      nvs_set_str = (\<lambda>m k t. (m(k \<mapsto> NvsStr t), ESP_OK)),
      nvs_get_blob = (\<lambda>m k cap. case m k of None \<Rightarrow> (ESP_ERR_NVS_NOT_FOUND, [])
                       | Some (NvsBlob b) \<Rightarrow>
                           if length b \<le> cap then (ESP_OK, b) else (ESP_ERR_NVS_INVALID_LENGTH, [])
                       | _ \<Rightarrow> (ESP_ERR_NVS_TYPE_MISMATCH, [])),
      nvs_set_blob = (\<lambda>m k b. (m(k \<mapsto> NvsBlob b), ESP_OK)),
      nvs_erase_key = (\<lambda>m k. case m k of None \<Rightarrow> (m, ESP_ERR_NVS_NOT_FOUND)
                       | Some _ \<Rightarrow> (m(k := None), ESP_OK))\<rparr>"

interpretation map_nvs: nvs_contract map_nvs "\<lambda>m. m"
  by unfold_locales (auto simp: map_nvs_def split: option.splits)

section \<open>Keys do not collide\<close>

definition undec :: "string \<Rightarrow> nat" where
  "undec t = foldl (\<lambda>a c. 10 * a + (of_char c - 48)) 0 t"

lemma of_char_digit: "n < 10 \<Longrightarrow> (of_char (digit n) :: nat) = 48 + n"
  by (simp add: digit_def)

lemma undec_dec: "undec (dec n) = n"
proof (induction n rule: dec.induct)
  case (1 n)
  show ?case
  proof (cases "n < 10")
    case True
    then show ?thesis by (subst dec.simps) (simp add: undec_def of_char_digit)
  next
    case False
    with "1.IH" have "undec (dec (n div 10)) = n div 10" by simp
    with False show ?thesis
      by (subst dec.simps) (simp add: undec_def of_char_digit)
  qed
qed

lemma dec_inject [simp]: "dec i = dec j \<longleftrightarrow> i = j"
  by (metis undec_dec)

lemmas key_defs = id_key_def name_key_def type_key_def addr_key_def atype_key_def

definition record_keys :: "nat \<Rightarrow> string set" where
  "record_keys i = {id_key i, name_key i, type_key i, addr_key i, atype_key i}"

lemma record_keys_disjoint: "i \<noteq> j \<Longrightarrow> k \<in> record_keys i \<Longrightarrow> k \<notin> record_keys j"
  by (auto simp: record_keys_def key_defs)

lemma keys_distinct [simp]:
  "id_key i \<noteq> name_key j" "id_key i \<noteq> type_key j" "id_key i \<noteq> addr_key j" "id_key i \<noteq> atype_key j"
  "name_key i \<noteq> id_key j" "name_key i \<noteq> type_key j" "name_key i \<noteq> addr_key j" "name_key i \<noteq> atype_key j"
  "addr_key i \<noteq> id_key j" "addr_key i \<noteq> name_key j" "addr_key i \<noteq> type_key j" "addr_key i \<noteq> atype_key j"
  "atype_key i \<noteq> id_key j" "atype_key i \<noteq> name_key j" "atype_key i \<noteq> type_key j" "atype_key i \<noteq> addr_key j"
  by (auto simp: key_defs)

lemma meta_keys [simp]: "''count'' \<notin> record_keys i" "''schema_ver'' \<notin> record_keys i"
  by (auto simp: record_keys_def key_defs)

lemma record_keysI [simp]:
  "id_key i \<in> record_keys i" "name_key i \<in> record_keys i" "type_key i \<in> record_keys i"
  "addr_key i \<in> record_keys i" "atype_key i \<in> record_keys i"
  by (auto simp: record_keys_def)

section \<open>Stored records\<close>

definition wf_entry :: "device_entry \<Rightarrow> bool" where
  "wf_entry e \<longleftrightarrow>
     de_device_id e \<noteq> [] \<and> length (de_device_id e) < DEVICE_ID_MAX_LEN \<and>
     de_name e \<noteq> [] \<and> length (de_name e) < DEVICE_NAME_MAX_LEN \<and> length (de_ble_addr e) = 6 \<and>
     (\<not> de_has_ble_identity e \<longrightarrow> de_ble_addr e = replicate 6 0 \<and> de_ble_addr_type e = 0)"

definition entry_stored :: "(string \<Rightarrow> nvs_value option) \<Rightarrow> nat \<Rightarrow> device_entry \<Rightarrow> bool" where
  "entry_stored v i e \<longleftrightarrow>
     v (id_key i) = Some (NvsStr (de_device_id e)) \<and> v (name_key i) = Some (NvsStr (de_name e)) \<and>
     (if de_has_ble_identity e
      then v (addr_key i) = Some (NvsBlob (de_ble_addr e)) \<and>
           v (atype_key i) = Some (NvsU8 (de_ble_addr_type e))
      else v (addr_key i) = None \<and> v (atype_key i) = None)"

definition synced :: "(string \<Rightarrow> nvs_value option) \<Rightarrow> device_entry list \<Rightarrow> bool" where
  "synced v es \<longleftrightarrow>
     v ''schema_ver'' = Some (NvsU8 DEVICE_STORE_SCHEMA_VERSION) \<and>
     v ''count'' = Some (NvsU8 (of_nat (length es))) \<and>
     (\<forall>i<length es. entry_stored v i (es ! i))"

lemma entry_stored_frame:
  "(\<And>k. k \<in> record_keys i \<Longrightarrow> v' k = v k) \<Longrightarrow> entry_stored v' i e = entry_stored v i e"
  by (simp add: entry_stored_def)

lemma unat_count [simp]: "c \<le> 16 \<Longrightarrow> unat (of_nat c :: u8) = c"
  by (simp add: unat_of_nat take_bit_nat_eq_self)

context nvs_contract
begin

lemma erase_gone:
  "nvs_erase_key N n k = (n', e) \<Longrightarrow> e = ESP_OK \<or> e = ESP_ERR_NVS_NOT_FOUND \<Longrightarrow>
     view n' = (view n)(k := None)"
  using erase_view [of n k n' e] erase_missing [of n k n'] by (auto simp: fun_upd_idem)

lemma erase_frame: "nvs_erase_key N n k = (n', e) \<Longrightarrow> k' \<noteq> k \<Longrightarrow> view n' k' = view n k'"
  by (simp add: erase_view)

lemma save_entry_effect:
  assumes "save_entry N n i e = (n', ESP_OK)"
  shows "entry_stored (view n') i e \<and> (\<forall>k. k \<notin> record_keys i \<longrightarrow> view n' k = view n k)"
proof -
  obtain n1 e1 where 1: "nvs_set_str N n (id_key i) (de_device_id e) = (n1, e1)" by fastforce
  obtain n2 e2 where 2: "nvs_set_str N n1 (name_key i) (de_name e) = (n2, e2)" by fastforce
  obtain n3 e3 where 3: "nvs_erase_key N n2 (type_key i) = (n3, e3)" by fastforce
  have ok: "e1 = ESP_OK" "e2 = ESP_OK"
    using assms 1 2 by (auto simp: save_entry_def split: if_splits)
  have v3: "view n3 k = ((view n)(id_key i \<mapsto> NvsStr (de_device_id e), name_key i \<mapsto> NvsStr (de_name e))) k"
    if "k \<noteq> type_key i" for k
    using erase_frame [OF 3 that] set_str_view [OF 1] set_str_view [OF 2] ok by simp
  show ?thesis
  proof (cases "de_has_ble_identity e")
    case True
    obtain n4 e4 where 4: "nvs_set_blob N n3 (addr_key i) (de_ble_addr e) = (n4, e4)" by fastforce
    have 5: "e4 = ESP_OK" "nvs_set_u8 N n4 (atype_key i) (de_ble_addr_type e) = (n', ESP_OK)"
      using assms 1 2 3 4 ok True by (auto simp: save_entry_def split: if_splits)
    have "view n' = (view n3)(addr_key i \<mapsto> NvsBlob (de_ble_addr e), atype_key i \<mapsto> NvsU8 (de_ble_addr_type e))"
      using set_blob_view [OF 4] set_u8_view [OF 5(2)] 5(1) by simp
    with v3 True show ?thesis by (auto simp: entry_stored_def record_keys_def)
  next
    case False
    obtain n4 e4 where 4: "nvs_erase_key N n3 (addr_key i) = (n4, e4)" by fastforce
    obtain n5 e5 where 5: "nvs_erase_key N n4 (atype_key i) = (n5, e5)" by fastforce
    have 6: "e4 = ESP_OK \<or> e4 = ESP_ERR_NVS_NOT_FOUND" "n5 = n'"
        "e5 = ESP_OK \<or> e5 = ESP_ERR_NVS_NOT_FOUND"
      using assms 1 2 3 4 5 ok False by (auto simp: save_entry_def split: if_splits)
    have "view n' = (view n3)(addr_key i := None, atype_key i := None)"
      using erase_gone [OF 4 6(1)] erase_gone [OF 5 6(3)] 6(2) by simp
    with v3 False show ?thesis by (auto simp: entry_stored_def record_keys_def)
  qed
qed

lemma erase_keys_frame:
  "erase_keys N n ks = (n', e) \<Longrightarrow> k \<notin> set ks \<Longrightarrow> view n' k = view n k"
proof (induction ks arbitrary: n)
  case Nil
  then show ?case by simp
next
  case (Cons a ks)
  obtain n1 e1 where 1: "nvs_erase_key N n a = (n1, e1)" by fastforce
  with Cons.prems have "view n1 k = view n k" by (intro erase_frame) auto
  with Cons 1 show ?case by (auto split: if_splits)
qed

lemma erase_entry_frame:
  "erase_entry N n i = (n', e) \<Longrightarrow> k \<notin> record_keys i \<Longrightarrow> view n' k = view n k"
  unfolding erase_entry_def by (erule erase_keys_frame) (simp add: record_keys_def)

lemma save_metadata_effect:
  assumes "save_metadata N n c = (n', ESP_OK)"
  shows "view n' = (view n)(''count'' \<mapsto> NvsU8 (of_nat c), ''schema_ver'' \<mapsto> NvsU8 DEVICE_STORE_SCHEMA_VERSION)"
proof -
  obtain n1 e1 where 1: "nvs_set_u8 N n ''count'' (of_nat c) = (n1, e1)" by fastforce
  with assms have 2: "e1 = ESP_OK" "nvs_set_u8 N n1 ''schema_ver'' DEVICE_STORE_SCHEMA_VERSION = (n', ESP_OK)"
    by (auto simp: save_metadata_def split: if_splits)
  with set_u8_view [OF 1] set_u8_view [OF 2(2)] show ?thesis by simp
qed

lemma save_entries_effect:
  "save_entries N n i es = (n', ESP_OK) \<Longrightarrow>
     (\<forall>j<length es. entry_stored (view n') (i + j) (es ! j)) \<and>
     (\<forall>k. (\<forall>j<length es. k \<notin> record_keys (i + j)) \<longrightarrow> view n' k = view n k)"
proof (induction es arbitrary: n i)
  case Nil
  then show ?case by simp
next
  case (Cons e es)
  obtain n1 e1 where 1: "save_entry N n i e = (n1, e1)" by fastforce
  with Cons.prems have 2: "e1 = ESP_OK" "save_entries N n1 (Suc i) es = (n', ESP_OK)"
    by (auto split: if_splits)
  note s = save_entry_effect [OF 1 [unfolded 2(1)]] and IH = Cons.IH [OF 2(2)]
  have k0: "k \<in> record_keys i \<Longrightarrow> view n' k = view n1 k" for k
    using IH record_keys_disjoint [of i "Suc (i + j)" k for j] by auto
  have "entry_stored (view n') i e"
    using s entry_stored_frame [of i "view n'" "view n1" e] k0 by auto
  then have "entry_stored (view n') (i + j) ((e # es) ! j)" if "j < length (e # es)" for j
    using that IH by (cases j) auto
  moreover have "view n' k = view n k" if "\<forall>j<length (e # es). k \<notin> record_keys (i + j)" for k
  proof -
    have "k \<notin> record_keys i" "\<forall>j<length es. k \<notin> record_keys (Suc i + j)"
      using that by (auto dest: spec [of _ 0])
    then show ?thesis using IH s by auto
  qed
  ultimately show ?case by blast
qed

lemma with_handle_effect:
  assumes "with_handle N n body = (n', DEVICE_STORE_OK)"
  obtains n0 n1 where "view n0 = view n" "body n0 = (n1, ESP_OK)" "view n' = view n1"
proof -
  obtain n0 e0 where 0: "nvs_open N n = (n0, e0)" by fastforce
  obtain n1 e1 where 1: "body n0 = (n1, e1)" by fastforce
  obtain n2 e2 where 2: "nvs_commit N n1 = (n2, e2)" by fastforce
  have r: "result_from x = DEVICE_STORE_OK \<longleftrightarrow> x = ESP_OK" for x
    by (cases x) (auto simp: result_from_def)
  have "e1 = ESP_OK" "n' = nvs_close N n2"
    using assms 0 1 2 by (auto simp: with_handle_def r split: if_splits)
  then show thesis
    using that [of n0 n1] open_view [OF 0] commit_view [OF 2] close_view 1 by auto
qed

lemma append_synced:
  assumes "synced (view n) es"
    and "device_store_nvs_append N n (length es) (Suc (length es)) e = (n', DEVICE_STORE_OK)"
  shows "synced (view n') (es @ [e])"
proof -
  obtain n0 n1 where 0: "view n0 = view n" "view n' = view n1"
    "(let (m, e1) = save_entry N n0 (length es) e
      in if e1 = ESP_OK then save_metadata N m (Suc (length es)) else (m, e1)) = (n1, ESP_OK)"
    using assms(2) unfolding device_store_nvs_append_def by (rule with_handle_effect) auto
  obtain m e1 where m: "save_entry N n0 (length es) e = (m, e1)" by fastforce
  with 0(3) have 1: "e1 = ESP_OK" "save_metadata N m (Suc (length es)) = (n1, ESP_OK)"
    by (auto split: if_splits)
  note s = save_entry_effect [OF m [unfolded 1(1)]]
  have v: "view n' k = view m k" if "k \<noteq> ''count''" "k \<noteq> ''schema_ver''" for k
    using save_metadata_effect [OF 1(2)] 0(2) that by simp
  have st: "entry_stored (view n') i x = entry_stored (view m) i x" for i x
    by (rule entry_stored_frame) (metis v meta_keys)
  have "entry_stored (view m) i (es ! i)" if "i < length es" for i
    using assms(1) s 0(1) that record_keys_disjoint [of i "length es"]
      entry_stored_frame [of i "view m" "view n" "es ! i"]
    by (auto simp: synced_def)
  then show ?thesis
    using save_metadata_effect [OF 1(2)] 0(2) s st by (auto simp: synced_def nth_append less_Suc_eq)
qed

lemma update_synced:
  assumes "synced (view n) es" "i < length es"
    and "device_store_nvs_update N n i e = (n', DEVICE_STORE_OK)"
  shows "synced (view n') (es[i := e])"
proof -
  obtain n0 n1 where 0: "view n0 = view n" "view n' = view n1" "save_entry N n0 i e = (n1, ESP_OK)"
    using assms(3) unfolding device_store_nvs_update_def by (rule with_handle_effect) auto
  note s = save_entry_effect [OF 0(3)]
  have "entry_stored (view n') j (es ! j)" if "j < length es" "j \<noteq> i" for j
    using assms(1) s 0(1,2) that record_keys_disjoint [of j i]
      entry_stored_frame [of j "view n'" "view n" "es ! j"]
    by (auto simp: synced_def)
  then show ?thesis
    using assms(1,2) s 0(1,2) by (auto simp: synced_def nth_list_update)
qed

lemma delete_synced:
  assumes "synced (view n) es" "i < length es"
    and c: "take (length es - 1) compacted = take i es @ drop (Suc i) es"
    and "device_store_nvs_delete N n i compacted (length es) = (n', DEVICE_STORE_OK)"
  shows "synced (view n') (take i es @ drop (Suc i) es)"
proof -
  let ?r = "take i es @ drop (Suc i) es" and ?m = "length es - 1"
  have tl: "take (length es - Suc i) (drop i compacted) = drop (Suc i) es"
    using arg_cong [OF c, of "drop i"] assms(2) by (simp add: drop_take)
  obtain n0 n4 where 0: "view n0 = view n" "view n' = view n4"
    "(let (n1, e1) = save_entries N n0 i (take (?m - i) (drop i compacted));
          (n2, e2) = (if e1 = ESP_OK then erase_entry N n1 ?m else (n1, e1))
      in if e2 = ESP_OK then save_metadata N n2 ?m else (n2, e2)) = (n4, ESP_OK)"
    using assms(4) unfolding device_store_nvs_delete_def by (rule with_handle_effect) auto
  obtain n1 e1 where 1: "save_entries N n0 i (drop (Suc i) es) = (n1, e1)" by fastforce
  obtain n2 e2 where 2: "erase_entry N n1 ?m = (n2, e2)" by fastforce
  have ok: "e1 = ESP_OK" "e2 = ESP_OK" "save_metadata N n2 ?m = (n4, ESP_OK)"
    using 0(3) 1 2 tl by (auto simp: Let_def split: if_splits)
  note s = save_entries_effect [OF 1 [unfolded ok(1)]]
  have v: "view n' k = view n1 k" if "k \<noteq> ''count''" "k \<noteq> ''schema_ver''" "k \<notin> record_keys ?m" for k
    using save_metadata_effect [OF ok(3)] 0(2) that erase_entry_frame [OF 2 that(3)] by simp
  have st: "entry_stored (view n') j x = entry_stored (view n1) j x" if "j < ?m" for j x
    by (rule entry_stored_frame) (use that in \<open>metis v meta_keys record_keys_disjoint nat_neq_iff\<close>)
  have "entry_stored (view n1) j (?r ! j)" if "j < ?m" for j
  proof (cases "j < i")
    case True
    then have "entry_stored (view n1) j (es ! j) = entry_stored (view n) j (es ! j)"
      using s 0(1) record_keys_disjoint [of j "i + x" for x] by (intro entry_stored_frame) auto
    with True assms(1,2) show ?thesis by (simp add: synced_def nth_append)
  next
    case False
    then have "entry_stored (view n1) j (drop (Suc i) es ! (j - i))"
      using conjunct1 [OF s, rule_format, of "j - i"] that by simp
    with False that assms(2) show ?thesis by (simp add: nth_append)
  qed
  then show ?thesis
    using save_metadata_effect [OF ok(3)] 0(2) st assms(2) by (auto simp: synced_def)
qed

lemma load_entry_stored:
  assumes "entry_stored (view n) i e" "wf_entry e"
  shows "device_store_migration_load_entry N n DEVICE_STORE_SCHEMA_VERSION i = (DEVICE_STORE_OK, e)"
proof -
  have dev: "load_required_str_v2 N n (id_key i) DEVICE_ID_MAX_LEN = (DEVICE_STORE_OK, de_device_id e)"
    and name: "load_required_str_v2 N n (name_key i) DEVICE_NAME_MAX_LEN = (DEVICE_STORE_OK, de_name e)"
    using assms get_str_Some
    by (auto simp: load_required_str_v2_def entry_stored_def wf_entry_def classify_key_error_def)
  let ?e = "zero_entry\<lparr>de_device_id := de_device_id e, de_name := de_name e\<rparr>"
  have "load_identity N n i ?e = (DEVICE_STORE_OK, e)"
  proof (cases "de_has_ble_identity e")
    case True
    with assms get_blob_Some [of n "addr_key i" "de_ble_addr e" 6] get_u8_Some [of n "atype_key i"]
    show ?thesis by (simp add: load_identity_def entry_stored_def wf_entry_def zero_entry_def)
  next
    case False
    obtain a b c d where g: "nvs_get_blob N n (addr_key i) 6 = (a, b)" "nvs_get_u8 N n (atype_key i) = (c, d)"
      by fastforce
    with False assms get_blob_None [of n "addr_key i" 6] get_u8_None [of n "atype_key i"]
    have "a = ESP_ERR_NVS_NOT_FOUND" "c = ESP_ERR_NVS_NOT_FOUND" by (auto simp: entry_stored_def)
    with g False assms show ?thesis by (simp add: load_identity_def wf_entry_def zero_entry_def)
  qed
  with dev name show ?thesis
    by (simp add: device_store_migration_load_entry_def load_entry_v3_def)
qed

lemma load_loop_stored:
  "\<lbrakk>\<forall>j<length es. entry_stored (view n) (i + j) (es ! j); \<forall>e\<in>set es. wf_entry e\<rbrakk> \<Longrightarrow>
     load_loop N n DEVICE_STORE_SCHEMA_VERSION [i..<i + length es] DEVICE_STORE_OK acc =
       (DEVICE_STORE_OK, acc @ es)"
proof (induction es arbitrary: i acc)
  case Nil
  then show ?case by simp
next
  case (Cons e es)
  have "device_store_migration_load_entry N n DEVICE_STORE_SCHEMA_VERSION i = (DEVICE_STORE_OK, e)"
    using Cons.prems by (intro load_entry_stored) auto
  moreover have "load_loop N n DEVICE_STORE_SCHEMA_VERSION [Suc i..<Suc i + length es] DEVICE_STORE_OK (acc @ [e]) =
      (DEVICE_STORE_OK, (acc @ [e]) @ es)"
    using Cons.prems by (intro Cons.IH) auto
  ultimately show ?case by (simp add: upt_conv_Cons del: upt_Suc)
qed

lemma load_synced:
  assumes "synced (view n) es" "length es \<le> DEVICE_STORE_MAX_DEVICES" "\<forall>e\<in>set es. wf_entry e"
    and "snd (nvs_open N n) = ESP_OK"
  shows "\<exists>n'. device_store_nvs_load N n DEVICE_STORE_MAX_DEVICES = (n', DEVICE_STORE_OK, es) \<and>
              view n' = view n"
proof -
  obtain n0 where 0: "nvs_open N n = (n0, ESP_OK)" using assms(4) by (metis prod.collapse)
  have v: "view n0 = view n" by (rule open_view [OF 0])
  have g: "nvs_get_u8 N n0 ''schema_ver'' = (ESP_OK, DEVICE_STORE_SCHEMA_VERSION)"
    "nvs_get_u8 N n0 ''count'' = (ESP_OK, of_nat (length es))"
    using assms(1) v by (auto simp: synced_def intro: get_u8_Some)
  have "load_loop N n0 DEVICE_STORE_SCHEMA_VERSION [0..<length es] DEVICE_STORE_OK [] = (DEVICE_STORE_OK, es)"
    using load_loop_stored [of es n0 0 "[]"] assms v by (simp add: synced_def)
  with 0 g assms(2) have "device_store_nvs_load N n DEVICE_STORE_MAX_DEVICES = (nvs_close N n0, DEVICE_STORE_OK, es)"
    by (simp add: device_store_nvs_load_def)
  with close_view v show ?thesis by auto
qed

end

end
