(* ===== verification/Device_Store.thy ===== *)
theory Device_Store
  imports Device_Store_Nvs
begin

text \<open>
  The device list (\<open>device_store/device_store.c\<close>): a RAM cache of at most sixteen entries in front of
  NVS, guarded by one mutex. Every public function holds the mutex for its whole body, so it is one
  step; \<open>lock\<close> says whether the mutex was obtained within its two-second limit. The array and its
  count are kept as the source keeps them; \<open>store_entries\<close> is the live part.
\<close>

section \<open>Data\<close>

record store_state =
  ss_cache :: "device_entry list"
  ss_count :: nat
  ss_initialized :: bool

definition store_boot :: store_state where
  "store_boot = \<lparr>ss_cache = replicate DEVICE_STORE_MAX_DEVICES zero_entry, ss_count = 0,
                 ss_initialized = False\<rparr>"

definition store_entries :: "store_state \<Rightarrow> device_entry list" where
  "store_entries s = take (ss_count s) (ss_cache s)"

section \<open>Operations\<close>

definition find_unlocked :: "store_state \<Rightarrow> string \<Rightarrow> nat option" where
  "find_unlocked s device_id = find_index (\<lambda>e. de_device_id e = device_id) (store_entries s)"

definition identity_in_use_unlocked :: "store_state \<Rightarrow> string \<Rightarrow> u8 list \<Rightarrow> u8 \<Rightarrow> bool" where
  "identity_in_use_unlocked s device_id ble_addr addr_type \<longleftrightarrow>
     (\<exists>e\<in>set (store_entries s). de_has_ble_identity e \<and> de_device_id e \<noteq> device_id \<and>
        de_ble_addr_type e = addr_type \<and> de_ble_addr e = ble_addr)"

definition device_store_init ::
    "'n nvs_api \<Rightarrow> bool \<Rightarrow> store_state \<Rightarrow> 'n \<Rightarrow> store_state \<times> 'n \<times> device_store_result" where
  "device_store_init N lock s n =
     (if \<not> lock then (s, n, DEVICE_STORE_ERR_INVALID_STATE)
      else if ss_initialized s then (s, n, DEVICE_STORE_ERR_INVALID_STATE)
      else
        let s0 = s\<lparr>ss_cache := replicate DEVICE_STORE_MAX_DEVICES zero_entry, ss_count := 0\<rparr>;
            (n', result, loaded) = device_store_nvs_load N n DEVICE_STORE_MAX_DEVICES
        in if result = DEVICE_STORE_OK then
             (s0\<lparr>ss_cache := loaded @ drop (length loaded) (ss_cache s0),
                 ss_count := length loaded, ss_initialized := True\<rparr>, n', result)
           else (s0, n', result))"

definition device_store_add ::
    "'n nvs_api \<Rightarrow> bool \<Rightarrow> string option \<Rightarrow> string option \<Rightarrow> store_state \<Rightarrow> 'n \<Rightarrow>
     store_state \<times> 'n \<times> device_store_result" where
  "device_store_add N lock device_id name s n =
     (case device_store_entry_create device_id name of
        None \<Rightarrow> (s, n, DEVICE_STORE_ERR_INVALID_ARG)
      | Some entry \<Rightarrow>
          if \<not> lock then (s, n, DEVICE_STORE_ERR_BUSY)
          else if \<not> ss_initialized s then (s, n, DEVICE_STORE_ERR_INVALID_STATE)
          else if find_unlocked s (the device_id) \<noteq> None then (s, n, DEVICE_STORE_ERR_DUPLICATE_ID)
          else if DEVICE_STORE_MAX_DEVICES \<le> ss_count s then (s, n, DEVICE_STORE_ERR_FULL)
          else
            let (n', result) = device_store_nvs_append N n (ss_count s) (ss_count s + 1) entry
            in (if result = DEVICE_STORE_OK
                then s\<lparr>ss_cache := (ss_cache s)[ss_count s := entry], ss_count := ss_count s + 1\<rparr>
                else s, n', result))"

text \<open>\<open>for (i = index; i < count - 1; i++) compacted[i] = compacted[i + 1];\<close>\<close>

fun shift_down :: "device_entry list \<Rightarrow> nat list \<Rightarrow> device_entry list" where
  "shift_down c [] = c"
| "shift_down c (i # is) = shift_down (c[i := c ! Suc i]) is"

definition device_store_delete ::
    "'n nvs_api \<Rightarrow> bool \<Rightarrow> string option \<Rightarrow> store_state \<Rightarrow> 'n \<Rightarrow>
     store_state \<times> 'n \<times> device_store_result" where
  "device_store_delete N lock device_id s n =
     (case device_id of
        None \<Rightarrow> (s, n, DEVICE_STORE_ERR_INVALID_ARG)
      | Some dev \<Rightarrow>
          if \<not> lock then (s, n, DEVICE_STORE_ERR_BUSY)
          else if \<not> ss_initialized s then (s, n, DEVICE_STORE_ERR_INVALID_STATE)
          else
            case find_unlocked s dev of
              None \<Rightarrow> (s, n, DEVICE_STORE_ERR_NOT_FOUND)
            | Some index \<Rightarrow>
                let compacted = (shift_down (ss_cache s) [index..<ss_count s - 1])
                                  [ss_count s - 1 := zero_entry];
                    (n', result) = device_store_nvs_delete N n index compacted (ss_count s)
                in (if result = DEVICE_STORE_OK
                    then s\<lparr>ss_cache := compacted, ss_count := ss_count s - 1\<rparr> else s, n', result))"

definition device_store_edit ::
    "'n nvs_api \<Rightarrow> bool \<Rightarrow> string option \<Rightarrow> string option \<Rightarrow> store_state \<Rightarrow> 'n \<Rightarrow>
     store_state \<times> 'n \<times> device_store_result" where
  "device_store_edit N lock device_id new_name s n =
     (case device_id of
        None \<Rightarrow> (s, n, DEVICE_STORE_ERR_INVALID_ARG)
      | Some dev \<Rightarrow>
          if \<not> lock then (s, n, DEVICE_STORE_ERR_BUSY)
          else if \<not> ss_initialized s then (s, n, DEVICE_STORE_ERR_INVALID_STATE)
          else
            case find_unlocked s dev of
              None \<Rightarrow> (s, n, DEVICE_STORE_ERR_NOT_FOUND)
            | Some index \<Rightarrow>
                (case device_store_entry_edit (ss_cache s ! index) new_name of
                   None \<Rightarrow> (s, n, DEVICE_STORE_ERR_INVALID_ARG)
                 | Some updated \<Rightarrow>
                     let (n', result) = device_store_nvs_update N n index updated
                     in (if result = DEVICE_STORE_OK
                         then s\<lparr>ss_cache := (ss_cache s)[index := updated]\<rparr> else s, n', result)))"

definition device_store_get ::
    "bool \<Rightarrow> string option \<Rightarrow> store_state \<Rightarrow> device_store_result \<times> device_entry option" where
  "device_store_get lock device_id s =
     (case device_id of
        None \<Rightarrow> (DEVICE_STORE_ERR_INVALID_ARG, None)
      | Some dev \<Rightarrow>
          if \<not> lock then (DEVICE_STORE_ERR_BUSY, None)
          else if \<not> ss_initialized s then (DEVICE_STORE_ERR_INVALID_STATE, None)
          else case find_unlocked s dev of
                 None \<Rightarrow> (DEVICE_STORE_ERR_NOT_FOUND, None)
               | Some i \<Rightarrow> (DEVICE_STORE_OK, Some (ss_cache s ! i)))"

text \<open>\<open>capacity = None\<close> is a null output array; the result carries the entries copied and \<open>*out_count\<close>.\<close>

definition device_store_snapshot ::
    "bool \<Rightarrow> bool \<Rightarrow> nat \<Rightarrow> store_state \<Rightarrow> device_store_result \<times> device_entry list \<times> nat option" where
  "device_store_snapshot lock have_buffer capacity s =
     (if \<not> have_buffer \<and> 0 < capacity then (DEVICE_STORE_ERR_INVALID_ARG, [], None)
      else if \<not> lock then (DEVICE_STORE_ERR_BUSY, [], None)
      else if \<not> ss_initialized s then (DEVICE_STORE_ERR_INVALID_STATE, [], None)
      else if \<not> have_buffer \<and> capacity = 0 then (DEVICE_STORE_OK, [], Some (ss_count s))
      else if capacity < ss_count s then (DEVICE_STORE_ERR_BUFFER_TOO_SMALL, [], Some (ss_count s))
      else (DEVICE_STORE_OK, store_entries s, Some (ss_count s)))"

definition device_store_set_ble_identity ::
    "'n nvs_api \<Rightarrow> bool \<Rightarrow> string option \<Rightarrow> u8 list option \<Rightarrow> u8 \<Rightarrow> store_state \<Rightarrow> 'n \<Rightarrow>
     store_state \<times> 'n \<times> device_store_result" where
  "device_store_set_ble_identity N lock device_id ble_addr addr_type s n =
     (if device_id = None \<or> ble_addr = None \<or> 3 < addr_type then (s, n, DEVICE_STORE_ERR_INVALID_ARG)
      else if \<not> lock then (s, n, DEVICE_STORE_ERR_BUSY)
      else if \<not> ss_initialized s then (s, n, DEVICE_STORE_ERR_INVALID_STATE)
      else
        let dev = the device_id; addr = the ble_addr
        in case find_unlocked s dev of
             None \<Rightarrow> (s, n, DEVICE_STORE_ERR_NOT_FOUND)
           | Some index \<Rightarrow>
               let entry = ss_cache s ! index
               in if de_has_ble_identity entry \<and> de_ble_addr_type entry = addr_type \<and>
                     de_ble_addr entry = addr
                  then (s, n, DEVICE_STORE_OK)
                  else if identity_in_use_unlocked s dev addr addr_type
                  then (s, n, DEVICE_STORE_ERR_DUPLICATE_BLE_IDENTITY)
                  else
                    let updated = entry\<lparr>de_ble_addr := addr, de_ble_addr_type := addr_type,
                                        de_has_ble_identity := True\<rparr>;
                        (n', result) = device_store_nvs_update N n index updated
                    in (if result = DEVICE_STORE_OK
                        then s\<lparr>ss_cache := (ss_cache s)[index := updated]\<rparr> else s, n', result))"

definition device_store_reset_for_test :: "bool \<Rightarrow> store_state \<Rightarrow> store_state" where
  "device_store_reset_for_test lock s = (if \<not> lock then s else s\<lparr>ss_initialized := False\<rparr>)"

text \<open>The four mutations as one type, and a run of them with the lock outcome of each.\<close>

datatype store_op =
    OpAdd "string option" "string option"
  | OpDelete "string option"
  | OpEdit "string option" "string option"
  | OpSetIdentity "string option" "u8 list option" u8

fun run_op ::
    "'n nvs_api \<Rightarrow> bool \<times> store_op \<Rightarrow> store_state \<times> 'n \<Rightarrow> (store_state \<times> 'n) \<times> device_store_result" where
  "run_op N (lock, OpAdd d nm) (s, n) =
     (let (s', n', r) = device_store_add N lock d nm s n in ((s', n'), r))"
| "run_op N (lock, OpDelete d) (s, n) =
     (let (s', n', r) = device_store_delete N lock d s n in ((s', n'), r))"
| "run_op N (lock, OpEdit d nm) (s, n) =
     (let (s', n', r) = device_store_edit N lock d nm s n in ((s', n'), r))"
| "run_op N (lock, OpSetIdentity d a t) (s, n) =
     (let (s', n', r) = device_store_set_ble_identity N lock d a t s n in ((s', n'), r))"

fun run_ops ::
    "'n nvs_api \<Rightarrow> (bool \<times> store_op) list \<Rightarrow> store_state \<times> 'n \<Rightarrow> (store_state \<times> 'n) \<times> device_store_result list" where
  "run_ops N [] w = (w, [])"
| "run_ops N (op # ops) w =
     (let (w1, r) = run_op N op w; (w2, rs) = run_ops N ops w1 in (w2, r # rs))"

section \<open>The invariant\<close>

definition identity_of :: "device_entry \<Rightarrow> (u8 \<times> u8 list) option" where
  "identity_of e = (if de_has_ble_identity e then Some (de_ble_addr_type e, de_ble_addr e) else None)"

definition idents_unique :: "device_entry list \<Rightarrow> bool" where
  "idents_unique es \<longleftrightarrow>
     (\<forall>e\<in>set es. \<forall>e'\<in>set es.
        identity_of e \<noteq> None \<longrightarrow> identity_of e = identity_of e' \<longrightarrow> de_device_id e = de_device_id e')"

definition store_inv :: "store_state \<Rightarrow> bool" where
  "store_inv s \<longleftrightarrow>
     length (ss_cache s) = DEVICE_STORE_MAX_DEVICES \<and> ss_count s \<le> DEVICE_STORE_MAX_DEVICES \<and>
     (\<forall>e\<in>set (store_entries s). wf_entry e) \<and>
     distinct (map de_device_id (store_entries s)) \<and> idents_unique (store_entries s)"

text \<open>A hardware address handed to the store has six bytes.\<close>

definition ident_ok :: "store_op \<Rightarrow> bool" where
  "ident_ok op = (case op of OpSetIdentity d (Some a) t \<Rightarrow> length a = 6 | _ \<Rightarrow> True)"

lemma length_shift_down [simp]: "length (shift_down c is) = length c"
  by (induction c "is" rule: shift_down.induct) auto

lemma shift_down_eq:
  "k < length c \<Longrightarrow> i \<le> k \<Longrightarrow> shift_down c [i..<k] = take i c @ take (k - i) (drop (Suc i) c) @ drop k c"
proof (induction "k - i" arbitrary: i c)
  case 0
  then show ?case by simp
next
  case (Suc d)
  then have ik: "i < k" by simp
  let ?c = "c[i := c ! Suc i]"
  have "shift_down ?c [Suc i..<k] =
      take (Suc i) ?c @ take (k - Suc i) (drop (Suc (Suc i)) ?c) @ drop k ?c"
    using Suc ik by (intro Suc.hyps) auto
  moreover have "take (Suc i) ?c = take i c @ [c ! Suc i]"
    using ik Suc.prems by (simp add: take_Suc_conv_app_nth)
  moreover have "take (k - i) (drop (Suc i) c) = c ! Suc i # take (k - Suc i) (drop (Suc (Suc i)) c)"
    using ik Suc.prems by (simp add: Suc_diff_Suc [symmetric] Cons_nth_drop_Suc [symmetric])
  moreover have "drop k ?c = drop k c" "drop (Suc (Suc i)) ?c = drop (Suc (Suc i)) c" using ik by auto
  ultimately show ?case using ik by (simp add: upt_conv_Cons)
qed

text \<open>What a mutation that reports success does to the live entries.\<close>

fun op_effect :: "store_op \<Rightarrow> device_entry list \<Rightarrow> device_entry list" where
  "op_effect (OpAdd d nm) es = es @ [zero_entry\<lparr>de_device_id := the d, de_name := the nm\<rparr>]"
| "op_effect (OpDelete d) es = filter (\<lambda>e. de_device_id e \<noteq> the d) es"
| "op_effect (OpEdit d nm) es =
     map (\<lambda>e. if de_device_id e = the d then e\<lparr>de_name := the nm\<rparr> else e) es"
| "op_effect (OpSetIdentity d a t) es =
     map (\<lambda>e. if de_device_id e = the d
              then e\<lparr>de_ble_addr := the a, de_ble_addr_type := t, de_has_ble_identity := True\<rparr>
              else e) es"

lemma store_entries_length: "store_inv s \<Longrightarrow> length (store_entries s) = ss_count s"
  by (simp add: store_inv_def store_entries_def)

lemma store_entries_nth: "i < ss_count s \<Longrightarrow> store_entries s ! i = ss_cache s ! i"
  by (simp add: store_entries_def)

lemma find_unlocked_Some:
  assumes "store_inv s" "find_unlocked s d = Some i"
  shows "i < ss_count s \<and> de_device_id (ss_cache s ! i) = d \<and> ss_cache s ! i \<in> set (store_entries s)"
proof -
  have i: "i < length (store_entries s)" "de_device_id (store_entries s ! i) = d"
    using assms(2) find_index_SomeD [of "\<lambda>e. de_device_id e = d" "store_entries s" i]
    by (simp_all add: find_unlocked_def)
  then have "store_entries s ! i \<in> set (store_entries s)" by simp
  with i show ?thesis using store_entries_length [OF assms(1)] store_entries_nth [of i s] by simp
qed

lemma find_unlocked_None:
  "find_unlocked s d = None \<longleftrightarrow> d \<notin> de_device_id ` set (store_entries s)"
  by (auto simp: find_unlocked_def find_index_None)

text \<open>With unique identifiers, changing the entry at its index is changing the entry of that name.\<close>

lemma update_at_id:
  assumes "distinct (map f xs)" "i < length xs"
  shows "xs[i := g (xs ! i)] = map (\<lambda>x. if f x = f (xs ! i) then g x else x) xs"
  using assms by (intro nth_equalityI) (auto simp: nth_list_update distinct_conv_nth)

lemma remove_at_id:
  "distinct (map f xs) \<Longrightarrow> i < length xs \<Longrightarrow>
     take i xs @ drop (Suc i) xs = filter (\<lambda>x. f x \<noteq> f (xs ! i)) xs"
proof (induction xs arbitrary: i)
  case Nil
  then show ?case by simp
next
  case (Cons x xs)
  show ?case
  proof (cases i)
    case 0
    with Cons.prems have "filter (\<lambda>y. f y \<noteq> f x) xs = xs" by (intro filter_True) (metis distinct.simps(2) image_eqI image_set list.simps(9))
    with 0 show ?thesis by simp
  next
    case (Suc k)
    with Cons.prems Cons.IH [of k] show ?thesis by force
  qed
qed

lemma append_entries:
  "store_inv s \<Longrightarrow> ss_count s < DEVICE_STORE_MAX_DEVICES \<Longrightarrow>
     store_entries (s\<lparr>ss_cache := (ss_cache s)[ss_count s := e], ss_count := ss_count s + 1\<rparr>) =
       store_entries s @ [e]"
  by (simp add: store_entries_def store_inv_def take_Suc_conv_app_nth)

lemma update_entries:
  assumes "store_inv s" "find_unlocked s d = Some i"
  shows "store_entries (s\<lparr>ss_cache := (ss_cache s)[i := g (ss_cache s ! i)]\<rparr>) =
     map (\<lambda>e. if de_device_id e = d then g e else e) (store_entries s)"
proof -
  note f = find_unlocked_Some [OF assms]
  have "store_entries (s\<lparr>ss_cache := (ss_cache s)[i := g (ss_cache s ! i)]\<rparr>) =
      (store_entries s)[i := g (store_entries s ! i)]"
    using f by (simp add: store_entries_def take_update_swap)
  also have "\<dots> = map (\<lambda>e. if de_device_id e = de_device_id (store_entries s ! i) then g e else e) (store_entries s)"
    using assms(1) f store_entries_length [OF assms(1)]
    by (intro update_at_id) (auto simp: store_inv_def)
  finally show ?thesis using f by (simp add: store_entries_nth)
qed

definition compacted :: "store_state \<Rightarrow> nat \<Rightarrow> device_entry list" where
  "compacted s i = (shift_down (ss_cache s) [i..<ss_count s - 1])[ss_count s - 1 := zero_entry]"

lemma compacted_entries:
  assumes "store_inv s" "i < ss_count s"
  shows "take (ss_count s - 1) (compacted s i) = take i (store_entries s) @ drop (Suc i) (store_entries s)"
proof -
  have l: "ss_count s \<le> length (ss_cache s)" using assms(1) by (simp add: store_inv_def)
  then have "shift_down (ss_cache s) [i..<ss_count s - 1] =
      take i (ss_cache s) @ take (ss_count s - 1 - i) (drop (Suc i) (ss_cache s)) @ drop (ss_count s - 1) (ss_cache s)"
    using assms(2) by (intro shift_down_eq) auto
  moreover have "ss_count s - Suc 0 \<le> i \<Longrightarrow> ss_count s - Suc 0 = i" using assms(2) by simp
  ultimately show ?thesis
    using l assms(2) by (auto simp: compacted_def store_entries_def drop_take min_def)
qed

lemma delete_entries:
  assumes "store_inv s" "find_unlocked s d = Some i"
  shows "store_entries (s\<lparr>ss_cache := compacted s i, ss_count := ss_count s - 1\<rparr>) =
     filter (\<lambda>e. de_device_id e \<noteq> d) (store_entries s)"
proof -
  note f = find_unlocked_Some [OF assms]
  have "take i (store_entries s) @ drop (Suc i) (store_entries s) =
      filter (\<lambda>e. de_device_id e \<noteq> de_device_id (store_entries s ! i)) (store_entries s)"
    using assms(1) f store_entries_length [OF assms(1)] by (intro remove_at_id) (auto simp: store_inv_def)
  with compacted_entries [OF assms(1)] f show ?thesis
    by (simp add: store_entries_def [of "_\<lparr>ss_cache := _, ss_count := _\<rparr>"] store_entries_nth)
qed

text \<open>The invariant in terms of the live entries only.\<close>

definition entries_ok :: "device_entry list \<Rightarrow> bool" where
  "entries_ok es \<longleftrightarrow>
     (\<forall>e\<in>set es. wf_entry e) \<and> distinct (map de_device_id es) \<and> idents_unique es"

lemma store_inv_entries:
  "store_inv s \<longleftrightarrow> length (ss_cache s) = DEVICE_STORE_MAX_DEVICES \<and>
     ss_count s \<le> DEVICE_STORE_MAX_DEVICES \<and> entries_ok (store_entries s)"
  by (auto simp: store_inv_def entries_ok_def)

lemma idents_uniqueD:
  "\<lbrakk>idents_unique es; e \<in> set es; e' \<in> set es; identity_of e = Some p; identity_of e' = Some p\<rbrakk> \<Longrightarrow>
     de_device_id e = de_device_id e'"
  unfolding idents_unique_def by (metis option.distinct(1))

lemma idents_uniqueI:
  "(\<And>e e' p. \<lbrakk>e \<in> set es; e' \<in> set es; identity_of e = Some p; identity_of e' = Some p\<rbrakk> \<Longrightarrow>
      de_device_id e = de_device_id e') \<Longrightarrow> idents_unique es"
  unfolding idents_unique_def by (metis not_None_eq)

lemma entries_ok_filter: "entries_ok es \<Longrightarrow> entries_ok (filter P es)"
  by (auto simp: entries_ok_def distinct_map_filter intro!: idents_uniqueI dest: idents_uniqueD)

lemma entries_ok_append:
  assumes "entries_ok es" "wf_entry e" "\<not> de_has_ble_identity e" "de_device_id e \<notin> de_device_id ` set es"
  shows "entries_ok (es @ [e])"
proof -
  have "identity_of e = None" using assms(3) by (simp add: identity_of_def)
  then have "idents_unique (es @ [e])"
    using assms(1) by (intro idents_uniqueI) (auto simp: entries_ok_def dest: idents_uniqueD)
  with assms show ?thesis by (auto simp: entries_ok_def)
qed

lemma entries_ok_map:
  assumes "entries_ok es"
    and "\<And>e. e \<in> set es \<Longrightarrow> wf_entry (g e) \<and> de_device_id (g e) = de_device_id e"
    and "\<And>e e' p. \<lbrakk>e \<in> set es; e' \<in> set es; identity_of (g e) = Some p; identity_of (g e') = Some p\<rbrakk> \<Longrightarrow>
           de_device_id e = de_device_id e'"
  shows "entries_ok (map g es)"
proof -
  have "map de_device_id (map g es) = map de_device_id es" using assms(2) by simp
  then have "distinct (map de_device_id (map g es))" using assms(1) by (simp only: entries_ok_def)
  moreover have "\<forall>e\<in>set (map g es). wf_entry e" using assms(2) by auto
  moreover have "idents_unique (map g es)"
  proof (rule idents_uniqueI)
    fix e e' p
    assume "e \<in> set (map g es)" "e' \<in> set (map g es)" and p: "identity_of e = Some p" "identity_of e' = Some p"
    then obtain x y where xy: "x \<in> set es" "y \<in> set es" "e = g x" "e' = g y" by auto
    with p have "de_device_id x = de_device_id y" by (intro assms(3)) auto
    with xy show "de_device_id e = de_device_id e'" using assms(2) by simp
  qed
  ultimately show ?thesis by (simp only: entries_ok_def)
qed

lemma valid_textD: "valid_text t n \<Longrightarrow> \<exists>s. t = Some s \<and> 0 < length s \<and> length s < n"
  by (auto simp: valid_text_def Let_def split: option.splits)

lemma entry_create_Some:
  assumes "device_store_entry_create d nm = Some e"
  shows "e = zero_entry\<lparr>de_device_id := the d, de_name := the nm\<rparr> \<and> wf_entry e \<and> d \<noteq> None"
  using assms valid_textD [of d DEVICE_ID_MAX_LEN] valid_textD [of nm DEVICE_NAME_MAX_LEN]
  by (auto simp: device_store_entry_create_def wf_entry_def zero_entry_def split: if_splits)

lemma entry_edit_Some:
  assumes "device_store_entry_edit e nm = Some e'" "wf_entry e"
  shows "e' = e\<lparr>de_name := the nm\<rparr> \<and> 0 < length (the nm) \<and> length (the nm) < DEVICE_NAME_MAX_LEN"
  using assms valid_textD [of nm DEVICE_NAME_MAX_LEN]
  by (auto simp: device_store_entry_edit_def split: if_splits)

section \<open>Each operation on its success and on its failures\<close>

lemma add_effect:
  assumes "store_inv s" "device_store_add N lock d nm s n = (s', n', r)"
  shows "(r \<noteq> DEVICE_STORE_OK \<longrightarrow> s' = s) \<and>
     (r = DEVICE_STORE_OK \<longrightarrow> store_inv s' \<and> ss_initialized s' \<and>
        store_entries s' = op_effect (OpAdd d nm) (store_entries s))"
proof (cases "r = DEVICE_STORE_OK")
  case False
  with assms(2) show ?thesis
    by (auto simp: device_store_add_def Let_def split: option.splits if_splits prod.splits)
next
  case True
  then obtain e where e: "device_store_entry_create d nm = Some e"
    using assms(2) by (auto simp: device_store_add_def split: option.splits)
  note c = entry_create_Some [OF e]
  have g: "find_unlocked s (the d) = None" "ss_count s < DEVICE_STORE_MAX_DEVICES" "ss_initialized s"
    "s' = s\<lparr>ss_cache := (ss_cache s)[ss_count s := e], ss_count := ss_count s + 1\<rparr>"
    using assms(2) e True by (auto simp: device_store_add_def Let_def split: if_splits prod.splits)
  have en: "store_entries s' = store_entries s @ [e]"
    using append_entries [OF assms(1) g(2)] g(4) by simp
  have "entries_ok (store_entries s @ [e])"
    using assms(1) c g(1) by (intro entries_ok_append)
      (auto simp: store_inv_entries find_unlocked_None zero_entry_def)
  with True en g c assms(1) show ?thesis by (simp add: store_inv_entries)
qed

lemma delete_effect:
  assumes "store_inv s" "device_store_delete N lock d s n = (s', n', r)"
  shows "(r \<noteq> DEVICE_STORE_OK \<longrightarrow> s' = s) \<and>
     (r = DEVICE_STORE_OK \<longrightarrow> store_inv s' \<and> ss_initialized s' \<and>
        store_entries s' = op_effect (OpDelete d) (store_entries s))"
proof (cases "r = DEVICE_STORE_OK")
  case False
  with assms(2) show ?thesis
    by (auto simp: device_store_delete_def Let_def split: option.splits if_splits prod.splits)
next
  case True
  then obtain dev i where g: "d = Some dev" "find_unlocked s dev = Some i" "ss_initialized s"
    "s' = s\<lparr>ss_cache := compacted s i, ss_count := ss_count s - 1\<rparr>"
    using assms(2) by (auto simp: device_store_delete_def compacted_def Let_def
        split: option.splits if_splits prod.splits)
  have en: "store_entries s' = filter (\<lambda>e. de_device_id e \<noteq> dev) (store_entries s)"
    using delete_entries [OF assms(1) g(2)] g(4) by simp
  with True g assms(1) show ?thesis
    by (auto simp: store_inv_entries compacted_def entries_ok_filter)
qed

lemma edit_effect:
  assumes "store_inv s" "device_store_edit N lock d nm s n = (s', n', r)"
  shows "(r \<noteq> DEVICE_STORE_OK \<longrightarrow> s' = s) \<and>
     (r = DEVICE_STORE_OK \<longrightarrow> store_inv s' \<and> ss_initialized s' \<and>
        store_entries s' = op_effect (OpEdit d nm) (store_entries s))"
proof (cases "r = DEVICE_STORE_OK")
  case False
  with assms(2) show ?thesis
    by (auto simp: device_store_edit_def Let_def split: option.splits if_splits prod.splits)
next
  case True
  then obtain dev i e where g: "d = Some dev" "find_unlocked s dev = Some i" "ss_initialized s"
    "device_store_entry_edit (ss_cache s ! i) nm = Some e" "s' = s\<lparr>ss_cache := (ss_cache s)[i := e]\<rparr>"
    using assms(2) by (auto simp: device_store_edit_def Let_def
        split: option.splits if_splits prod.splits)
  note f = find_unlocked_Some [OF assms(1) g(2)]
  have e: "e = (ss_cache s ! i)\<lparr>de_name := the nm\<rparr>" "0 < length (the nm)" "length (the nm) < DEVICE_NAME_MAX_LEN"
    using entry_edit_Some [OF g(4)] f assms(1) by (auto simp: store_inv_def)
  have en: "store_entries s' = op_effect (OpEdit d nm) (store_entries s)"
    using update_entries [OF assms(1) g(2), of "\<lambda>e. e\<lparr>de_name := the nm\<rparr>"] g(1,5) e(1) by simp
  have "entries_ok (op_effect (OpEdit d nm) (store_entries s))"
    unfolding op_effect.simps
  proof (rule entries_ok_map)
    show "entries_ok (store_entries s)" using assms(1) by (simp add: store_inv_entries)
  qed (use assms(1) e in \<open>auto simp: store_inv_def wf_entry_def identity_of_def
        dest: idents_uniqueD split: if_splits\<close>)
  with True en g assms(1) show ?thesis by (simp add: store_inv_entries)
qed

definition with_identity :: "u8 list \<Rightarrow> u8 \<Rightarrow> device_entry \<Rightarrow> device_entry" where
  "with_identity a t e = e\<lparr>de_ble_addr := a, de_ble_addr_type := t, de_has_ble_identity := True\<rparr>"

lemma with_identity_simps [simp]:
  "de_device_id (with_identity a t e) = de_device_id e" "identity_of (with_identity a t e) = Some (t, a)"
  "length a = 6 \<Longrightarrow> wf_entry e \<Longrightarrow> wf_entry (with_identity a t e)"
  by (auto simp: with_identity_def identity_of_def wf_entry_def)

lemma set_identity_ok:
  assumes "entries_ok es" "length a = 6"
    and free: "\<And>e. e \<in> set es \<Longrightarrow> identity_of e = Some (t, a) \<Longrightarrow> de_device_id e = d"
  shows "entries_ok (map (\<lambda>e. if de_device_id e = d then with_identity a t e else e) es)"
proof (rule entries_ok_map [OF assms(1)])
  fix e assume "e \<in> set es"
  then show "wf_entry (if de_device_id e = d then with_identity a t e else e) \<and>
      de_device_id (if de_device_id e = d then with_identity a t e else e) = de_device_id e"
    using assms(1,2) by (auto simp: entries_ok_def)
next
  fix e e' p
  assume "e \<in> set es" "e' \<in> set es"
    "identity_of (if de_device_id e = d then with_identity a t e else e) = Some p"
    "identity_of (if de_device_id e' = d then with_identity a t e' else e') = Some p"
  then show "de_device_id e = de_device_id e'"
    using assms(1) free by (auto simp: entries_ok_def dest: idents_uniqueD split: if_splits)
qed

lemma identity_in_use_iff:
  "identity_in_use_unlocked s d a t \<longleftrightarrow>
     (\<exists>e\<in>set (store_entries s). identity_of e = Some (t, a) \<and> de_device_id e \<noteq> d)"
  by (auto simp: identity_in_use_unlocked_def identity_of_def)

lemma set_identity_effect:
  assumes "store_inv s" "device_store_set_ble_identity N lock d a t s n = (s', n', r)"
    and "ident_ok (OpSetIdentity d a t)"
  shows "(r \<noteq> DEVICE_STORE_OK \<longrightarrow> s' = s) \<and>
     (r = DEVICE_STORE_OK \<longrightarrow> store_inv s' \<and> ss_initialized s' \<and>
        store_entries s' = op_effect (OpSetIdentity d a t) (store_entries s))"
proof (cases "r = DEVICE_STORE_OK")
  case False
  with assms(2) show ?thesis
    by (auto simp: device_store_set_ble_identity_def Let_def split: option.splits if_splits prod.splits)
next
  case True
  then obtain dev addr i where g: "d = Some dev" "a = Some addr" "find_unlocked s dev = Some i" "ss_initialized s"
    using assms(2) by (auto simp: device_store_set_ble_identity_def Let_def
        split: option.splits if_splits prod.splits)
  let ?g = "with_identity addr t"
  note f = find_unlocked_Some [OF assms(1) g(3)]
  have ef: "op_effect (OpSetIdentity d a t) (store_entries s) =
      map (\<lambda>e. if de_device_id e = dev then ?g e else e) (store_entries s)"
    using g by (simp add: with_identity_def)
  have ui: "de_device_id e = dev \<Longrightarrow> e \<in> set (store_entries s) \<Longrightarrow> e = ss_cache s ! i" for e
    using assms(1) f by (auto simp: store_inv_def distinct_map dest: inj_onD)
  show ?thesis
  proof (cases "identity_of (ss_cache s ! i) = Some (t, addr)")
    case same: True
    then have "?g (ss_cache s ! i) = ss_cache s ! i"
      by (auto simp: with_identity_def identity_of_def split: if_splits)
    then have "op_effect (OpSetIdentity d a t) (store_entries s) = store_entries s"
      unfolding ef using ui by (intro map_idI) auto
    moreover have "s' = s"
      using same assms(2) g by (auto simp: device_store_set_ble_identity_def identity_of_def Let_def split: if_splits)
    ultimately show ?thesis using assms(1) g(4) by simp
  next
    case new: False
    have nu: "\<not> identity_in_use_unlocked s dev addr t"
        "s' = s\<lparr>ss_cache := (ss_cache s)[i := ?g (ss_cache s ! i)]\<rparr>"
      using new assms(2) g True
      by (auto simp: device_store_set_ble_identity_def identity_of_def with_identity_def Let_def
          split: if_splits prod.splits)
    have en: "store_entries s' = op_effect (OpSetIdentity d a t) (store_entries s)"
      unfolding ef nu(2) by (rule update_entries [OF assms(1) g(3)])
    have "entries_ok (store_entries s')"
      unfolding en ef using assms(1,3) nu(1) g(2)
      by (intro set_identity_ok) (auto simp: store_inv_entries ident_ok_def identity_in_use_iff)
    with True en nu(2) g(4) assms(1) show ?thesis by (simp add: store_inv_entries)
  qed
qed

text \<open>All four together: the step of the device list.\<close>

lemma run_op_effect:
  assumes "store_inv s" "ident_ok op" "run_op N (lock, op) (s, n) = ((s', n'), r)"
  shows "(r \<noteq> DEVICE_STORE_OK \<longrightarrow> s' = s) \<and>
     (r = DEVICE_STORE_OK \<longrightarrow> store_inv s' \<and> ss_initialized s' \<and>
        store_entries s' = op_effect op (store_entries s))"
  using assms add_effect [OF assms(1)] delete_effect [OF assms(1)] edit_effect [OF assms(1)]
    set_identity_effect [OF assms(1)]
  by (cases op) (fastforce split: prod.splits)+

text \<open>
  The abstract directory: the operations that reported success, applied in order to the list of live
  entries; the others leave it alone.
\<close>

fun directory_run :: "(bool \<times> store_op) list \<Rightarrow> device_store_result list \<Rightarrow> device_entry list \<Rightarrow> device_entry list" where
  "directory_run ((lock, op) # ops) (r # rs) es =
     directory_run ops rs (if r = DEVICE_STORE_OK then op_effect op es else es)"
| "directory_run _ _ es = es"

lemma store_run_refines:
  assumes "store_inv s" "\<forall>(lock, op)\<in>set ops. ident_ok op" "run_ops N ops (s, n) = ((s', n'), rs)"
  shows "store_inv s' \<and> store_entries s' = directory_run ops rs (store_entries s)"
  using assms
proof (induction ops arbitrary: s n rs)
  case Nil
  then show ?case by simp
next
  case (Cons lop ops)
  obtain lock op where [simp]: "lop = (lock, op)" by fastforce
  obtain s1 n1 r where 1: "run_op N (lock, op) (s, n) = ((s1, n1), r)" by (metis prod.collapse)
  obtain rs2 where 2: "run_ops N ops (s1, n1) = ((s', n'), rs2)" "rs = r # rs2"
    using Cons.prems(3) 1 by (auto split: prod.splits)
  have e: "(r \<noteq> DEVICE_STORE_OK \<longrightarrow> s1 = s) \<and> (r = DEVICE_STORE_OK \<longrightarrow> store_inv s1 \<and> ss_initialized s1 \<and>
      store_entries s1 = op_effect op (store_entries s))"
    using Cons.prems by (intro run_op_effect [OF _ _ 1]) auto
  then have "store_inv s1" using Cons.prems(1) by (cases "r = DEVICE_STORE_OK") auto
  from Cons.IH [OF this _ 2(1)] Cons.prems(2) e show ?case by (auto simp: 2(2))
qed

text \<open>
  C10. The device list refines the abstract directory. Take any run of add, delete, rename and
  set-identity requests, with any lock outcome for each and any behaviour of NVS, failures included.
  The list keeps its invariant (at most sixteen entries, well-formed texts, unique identifiers, no
  BLE identity shared by two devices), and its entries are exactly what the successful requests
  produce: a request that reports an error, whatever the error, has not changed the list.
\<close>

theorem store_refines_directory:
  assumes "store_inv s" "\<forall>(lock, op)\<in>set ops. ident_ok op" "run_ops N ops (s, n) = ((s', n'), rs)"
  shows "store_inv s' \<and> store_entries s' = directory_run ops rs (store_entries s)"
  using assms by (rule store_run_refines)

section \<open>Restart\<close>

lemma result_from_cases: "result_from e \<in> {DEVICE_STORE_OK, DEVICE_STORE_ERR_CORRUPT, DEVICE_STORE_ERR_PERSISTENCE}"
  by (cases e) (auto simp: result_from_def)

lemma with_handle_result:
  "with_handle N n body = (n', r) \<Longrightarrow>
     r \<in> {DEVICE_STORE_OK, DEVICE_STORE_ERR_CORRUPT, DEVICE_STORE_ERR_PERSISTENCE}"
  using result_from_cases by (auto simp: with_handle_def Let_def split: prod.splits if_splits)

definition storage_error :: "device_store_result \<Rightarrow> bool" where
  "storage_error r \<longleftrightarrow> r = DEVICE_STORE_ERR_PERSISTENCE \<or> r = DEVICE_STORE_ERR_CORRUPT"

lemma nvs_results:
  "device_store_nvs_append N n i c e = (n', r) \<Longrightarrow> \<not> storage_error r \<Longrightarrow> r = DEVICE_STORE_OK"
  "device_store_nvs_update N n i e = (n', r) \<Longrightarrow> \<not> storage_error r \<Longrightarrow> r = DEVICE_STORE_OK"
  "device_store_nvs_delete N n i es c = (n', r) \<Longrightarrow> \<not> storage_error r \<Longrightarrow> r = DEVICE_STORE_OK"
  unfolding device_store_nvs_append_def device_store_nvs_update_def device_store_nvs_delete_def
  by (auto dest!: with_handle_result simp: storage_error_def)

text \<open>A request refused before NVS is reached has changed neither the list nor NVS.\<close>

lemma refused_pure:
  assumes "run_op N (lock, op) (s, n) = ((s', n'), r)" "r \<noteq> DEVICE_STORE_OK" "\<not> storage_error r"
  shows "n' = n"
proof -
  have no: "device_store_nvs_append N n i c e \<noteq> (m, r)" "device_store_nvs_update N n i e \<noteq> (m, r)"
    "device_store_nvs_delete N n i es c \<noteq> (m, r)" for i c e es m
    using assms(2,3) by (auto dest: nvs_results)
  show ?thesis
  proof (cases op)
    case (OpAdd d nm)
    with assms(1,2) no show ?thesis
      by (auto simp: device_store_add_def Let_def split: option.splits if_splits prod.splits)
  next
    case (OpDelete d)
    with assms(1,2) no show ?thesis
      by (auto simp: device_store_delete_def Let_def split: option.splits if_splits prod.splits)
  next
    case (OpEdit d nm)
    with assms(1,2) no show ?thesis
      by (auto simp: device_store_edit_def Let_def split: option.splits if_splits prod.splits)
  next
    case (OpSetIdentity d a t)
    with assms(1,2) no show ?thesis
      by (auto simp: device_store_set_ble_identity_def Let_def split: option.splits if_splits prod.splits)
  qed
qed

context nvs_contract
begin

lemma add_synced:
  assumes "store_inv s" "synced (view n) (store_entries s)"
    and "device_store_add N lock d nm s n = (s', n', DEVICE_STORE_OK)"
  shows "synced (view n') (store_entries s')"
proof -
  obtain e where g: "ss_count s < DEVICE_STORE_MAX_DEVICES"
    "device_store_nvs_append N n (ss_count s) (ss_count s + 1) e = (n', DEVICE_STORE_OK)"
    "s' = s\<lparr>ss_cache := (ss_cache s)[ss_count s := e], ss_count := ss_count s + 1\<rparr>"
    using assms(3)
    by (auto simp: device_store_add_def Let_def split: option.splits if_splits prod.splits)
  with append_synced [OF assms(2), of e n'] store_entries_length [OF assms(1)]
    append_entries [OF assms(1) g(1), of e]
  show ?thesis by simp
qed

lemma delete_synced_store:
  assumes "store_inv s" "synced (view n) (store_entries s)"
    and "device_store_delete N lock d s n = (s', n', DEVICE_STORE_OK)"
  shows "synced (view n') (store_entries s')"
proof -
  obtain dev i where g: "find_unlocked s dev = Some i"
    "device_store_nvs_delete N n i (compacted s i) (ss_count s) = (n', DEVICE_STORE_OK)"
    "s' = s\<lparr>ss_cache := compacted s i, ss_count := ss_count s - 1\<rparr>"
    using assms(3)
    by (auto simp: device_store_delete_def compacted_def Let_def split: option.splits if_splits prod.splits)
  note f = find_unlocked_Some [OF assms(1) g(1)] and l = store_entries_length [OF assms(1)]
  have "store_entries s' = take i (store_entries s) @ drop (Suc i) (store_entries s)"
    using compacted_entries [OF assms(1)] f g(3)
    by (simp add: store_entries_def [of "_\<lparr>ss_cache := _, ss_count := _\<rparr>"])
  with delete_synced [OF assms(2), of i "compacted s i" n'] f g(2) l compacted_entries [OF assms(1)]
  show ?thesis by simp
qed

lemma update_synced_store:
  assumes "store_inv s" "synced (view n) (store_entries s)" "find_unlocked s dev = Some i"
    and "device_store_nvs_update N n i e = (n', DEVICE_STORE_OK)"
  shows "synced (view n') (store_entries (s\<lparr>ss_cache := (ss_cache s)[i := e]\<rparr>))"
proof -
  have "i < length (store_entries s)"
    using find_unlocked_Some [OF assms(1,3)] store_entries_length [OF assms(1)] by simp
  from update_synced [OF assms(2) this assms(4)] show ?thesis
    by (simp add: store_entries_def take_update_swap)
qed

lemma edit_synced:
  assumes "store_inv s" "synced (view n) (store_entries s)"
    and "device_store_edit N lock d nm s n = (s', n', DEVICE_STORE_OK)"
  shows "synced (view n') (store_entries s')"
proof -
  obtain dev i e where g: "find_unlocked s dev = Some i"
    "device_store_nvs_update N n i e = (n', DEVICE_STORE_OK)" "s' = s\<lparr>ss_cache := (ss_cache s)[i := e]\<rparr>"
    using assms(3)
    by (auto simp: device_store_edit_def Let_def split: option.splits if_splits prod.splits)
  then show ?thesis using update_synced_store [OF assms(1,2) g(1)] by simp
qed

lemma set_identity_synced:
  assumes "store_inv s" "synced (view n) (store_entries s)"
    and "device_store_set_ble_identity N lock d a t s n = (s', n', DEVICE_STORE_OK)"
  shows "synced (view n') (store_entries s')"
proof -
  obtain dev addr i where g: "d = Some dev" "a = Some addr" "find_unlocked s dev = Some i"
    using assms(3) by (auto simp: device_store_set_ble_identity_def Let_def
        split: option.splits if_splits prod.splits)
  show ?thesis
  proof (cases "identity_of (ss_cache s ! i) = Some (t, addr)")
    case True
    with assms(3) g have "s' = s \<and> n' = n"
      by (auto simp: device_store_set_ble_identity_def identity_of_def Let_def split: if_splits)
    with assms(2) show ?thesis by simp
  next
    case False
    with assms(3) g
    have "device_store_nvs_update N n i (with_identity addr t (ss_cache s ! i)) = (n', DEVICE_STORE_OK) \<and>
        s' = s\<lparr>ss_cache := (ss_cache s)[i := with_identity addr t (ss_cache s ! i)]\<rparr>"
      by (auto simp: device_store_set_ble_identity_def identity_of_def with_identity_def Let_def
          split: if_splits prod.splits)
    then show ?thesis using update_synced_store [OF assms(1,2) g(3)] by simp
  qed
qed

lemma run_op_synced:
  assumes "store_inv s" "ident_ok op" "synced (view n) (store_entries s)"
    and "run_op N (lock, op) (s, n) = ((s', n'), r)" "\<not> storage_error r"
  shows "synced (view n') (store_entries s')"
proof (cases "r = DEVICE_STORE_OK")
  case True
  with assms add_synced [OF assms(1,3)] delete_synced_store [OF assms(1,3)] edit_synced [OF assms(1,3)]
    set_identity_synced [OF assms(1,3)]
  show ?thesis by (cases op) (fastforce split: prod.splits)+
next
  case False
  with run_op_effect [OF assms(1,2,4)] refused_pure [OF assms(4)] assms(3,5) show ?thesis by simp
qed

lemma run_ops_synced:
  "\<lbrakk>store_inv s; synced (view n) (store_entries s); \<forall>(lock, op)\<in>set ops. ident_ok op;
    run_ops N ops (s, n) = ((s', n'), rs); \<forall>r\<in>set rs. \<not> storage_error r\<rbrakk> \<Longrightarrow>
     store_inv s' \<and> synced (view n') (store_entries s')"
proof (induction ops arbitrary: s n rs)
  case Nil
  then show ?case by simp
next
  case (Cons lop ops)
  obtain lock op where [simp]: "lop = (lock, op)" by fastforce
  obtain s1 n1 r where 1: "run_op N (lock, op) (s, n) = ((s1, n1), r)" by (metis prod.collapse)
  obtain rs2 where 2: "run_ops N ops (s1, n1) = ((s', n'), rs2)" "rs = r # rs2"
    using Cons.prems(4) 1 by (auto split: prod.splits)
  have "store_inv s1" using run_op_effect [OF Cons.prems(1) _ 1] Cons.prems(1,3) by (cases "r = DEVICE_STORE_OK") auto
  moreover have "synced (view n1) (store_entries s1)"
    using Cons.prems(1,2,3,5) 2(2) by (intro run_op_synced [OF _ _ _ 1]) auto
  ultimately show ?case using Cons.prems(3,5) 2 by (intro Cons.IH) auto
qed

lemma init_blank:
  assumes "view n ''schema_ver'' = None" "view n ''count'' = None"
    and "device_store_init N lock store_boot n = (s, n', DEVICE_STORE_OK)"
  shows "store_inv s \<and> ss_initialized s \<and> store_entries s = [] \<and> synced (view n') []"
proof -
  obtain loaded where l: "device_store_nvs_load N n DEVICE_STORE_MAX_DEVICES = (n', DEVICE_STORE_OK, loaded)"
    "s = store_boot\<lparr>ss_cache := loaded @ drop (length loaded) (replicate DEVICE_STORE_MAX_DEVICES zero_entry),
           ss_count := length loaded, ss_initialized := True\<rparr>"
    using assms(3) by (auto simp: device_store_init_def store_boot_def Let_def split: if_splits prod.splits)
  obtain n0 e0 where 0: "nvs_open N n = (n0, e0)" by fastforce
  obtain ve v ce c where gv: "nvs_get_u8 N n0 ''schema_ver'' = (ve, v)" and gc: "nvs_get_u8 N n0 ''count'' = (ce, c)"
    by fastforce
  have e: "ve = ESP_ERR_NVS_NOT_FOUND" "ce = ESP_ERR_NVS_NOT_FOUND"
    using get_u8_None [of n0] open_view [OF 0] assms(1,2) gv gc by (metis fst_conv)+
  obtain n1 e1 where m: "save_metadata N n0 0 = (n1, e1)" by fastforce
  obtain n2 e2 where cm: "nvs_commit N n1 = (n2, e2)" by fastforce
  have r: "result_from x = DEVICE_STORE_OK \<longleftrightarrow> x = ESP_OK" for x
    by (cases x) (auto simp: result_from_def)
  have q: "e1 = ESP_OK" "loaded = []" "n' = nvs_close N n2"
    using l(1) 0 gv gc e m cm r by (auto simp: device_store_nvs_load_def Let_def split: if_splits)
  have "view n' = (view n0)(''count'' \<mapsto> NvsU8 (of_nat 0), ''schema_ver'' \<mapsto> NvsU8 DEVICE_STORE_SCHEMA_VERSION)"
    using save_metadata_effect [OF m [unfolded q(1)]] commit_view [OF cm] close_view q(3) by simp
  then show ?thesis
    using l(2) q(2) by (simp add: synced_def store_inv_def store_entries_def idents_unique_def store_boot_def)
qed

lemma init_synced:
  assumes "synced (view n) es" "entries_ok es" "length es \<le> DEVICE_STORE_MAX_DEVICES"
    and "snd (nvs_open N n) = ESP_OK" "\<not> ss_initialized s0"
  shows "\<exists>s n'. device_store_init N True s0 n = (s, n', DEVICE_STORE_OK) \<and> store_entries s = es \<and>
           store_inv s \<and> ss_initialized s \<and> synced (view n') es"
proof -
  obtain n' where l: "device_store_nvs_load N n DEVICE_STORE_MAX_DEVICES = (n', DEVICE_STORE_OK, es)" "view n' = view n"
    using load_synced [OF assms(1,3) _ assms(4)] assms(2) by (auto simp: entries_ok_def)
  let ?s = "s0\<lparr>ss_cache := es @ drop (length es) (replicate DEVICE_STORE_MAX_DEVICES zero_entry),
              ss_count := length es, ss_initialized := True\<rparr>"
  have "device_store_init N True s0 n = (?s, n', DEVICE_STORE_OK)"
    using l(1) assms(5) by (simp add: device_store_init_def)
  moreover have "store_entries ?s = es" by (simp add: store_entries_def)
  ultimately show ?thesis
    using assms(1,2,3) l(2) by (intro exI [of _ ?s] exI [of _ n']) (simp add: store_inv_entries)
qed

end


definition demo_ops :: "(bool \<times> store_op) list" where
  "demo_ops = [(True, OpAdd (Some ''lamp'') (Some ''Lamp'')), (True, OpAdd (Some ''fan'') (Some ''Fan'')),
     (True, OpAdd (Some ''lamp'') (Some ''Again'')), (True, OpSetIdentity (Some ''fan'') (Some [1, 2, 3, 4, 5, 6]) 1),
     (False, OpDelete (Some ''fan'')), (True, OpDelete (Some ''lamp''))]"

definition demo_start :: "store_state \<times> (string \<Rightarrow> nvs_value option)" where
  "demo_start = (let (s, n, r) = device_store_init map_nvs True store_boot Map.empty in (s, n))"

definition demo_end :: "(store_state \<times> (string \<Rightarrow> nvs_value option)) \<times> device_store_result list" where
  "demo_end = run_ops map_nvs demo_ops demo_start"

lemma demo_start_init:
  "device_store_init map_nvs True store_boot Map.empty = (fst demo_start, snd demo_start, DEVICE_STORE_OK)"
proof -
  have "snd (snd (device_store_init map_nvs True store_boot Map.empty)) = DEVICE_STORE_OK" by code_simp
  then show ?thesis by (auto simp: demo_start_def split: prod.splits)
qed

lemma demo_end_run: "run_ops map_nvs demo_ops (fst demo_start, snd demo_start) =
    ((fst (fst demo_end), snd (fst demo_end)), snd demo_end)"
  by (simp add: demo_end_def)

lemma demo_results: "snd demo_end = [DEVICE_STORE_OK, DEVICE_STORE_OK, DEVICE_STORE_ERR_DUPLICATE_ID,
    DEVICE_STORE_OK, DEVICE_STORE_ERR_BUSY, DEVICE_STORE_OK]"
  by code_simp

lemma demo_ops_ok: "\<forall>(lock, op)\<in>set demo_ops. ident_ok op"
  by code_simp

theorem store_refines_directory_witness:
  "store_inv (fst (fst demo_end)) \<and> map de_device_id (store_entries (fst (fst demo_end))) = [''fan'']"
proof -
  have b: "store_inv (fst demo_start) \<and> ss_initialized (fst demo_start) \<and> store_entries (fst demo_start) = []
      \<and> synced (snd demo_start) []"
    by (rule map_nvs.init_blank [OF _ _ demo_start_init]) auto
  then have "store_inv (fst (fst demo_end)) \<and>
      store_entries (fst (fst demo_end)) = directory_run demo_ops (snd demo_end) []"
    using store_refines_directory [OF _ demo_ops_ok demo_end_run] by simp
  then show ?thesis unfolding demo_results by (simp add: demo_ops_def)
qed


section \<open>Storage that fails in the middle of a request\<close>

text \<open>
  Working storage that refuses every write after the first \<open>b\<close>: the second component is what is
  left of the budget. It satisfies the contract, so the loss below is the code's.
\<close>

type_synonym budget_state = "(string \<Rightarrow> nvs_value option) \<times> nat"

definition budgeted :: "(string \<Rightarrow> nvs_value option) \<times> esp_err \<Rightarrow> budget_state \<Rightarrow> budget_state \<times> esp_err" where
  "budgeted w n = (if snd n = 0 then (n, ESP_FAIL) else ((fst w, snd n - 1), snd w))"

definition budget_nvs :: "budget_state nvs_api" where
  "budget_nvs =
     \<lparr>nvs_open = (\<lambda>n. (n, ESP_OK)), nvs_close = (\<lambda>n. n), nvs_commit = (\<lambda>n. (n, ESP_OK)),
      nvs_get_u8 = (\<lambda>n. nvs_get_u8 map_nvs (fst n)),
      nvs_set_u8 = (\<lambda>n k v. budgeted (nvs_set_u8 map_nvs (fst n) k v) n),
      nvs_get_str = (\<lambda>n. nvs_get_str map_nvs (fst n)),
      nvs_set_str = (\<lambda>n k v. budgeted (nvs_set_str map_nvs (fst n) k v) n),
      nvs_get_blob = (\<lambda>n. nvs_get_blob map_nvs (fst n)),
      nvs_set_blob = (\<lambda>n k v. budgeted (nvs_set_blob map_nvs (fst n) k v) n),
      nvs_erase_key = (\<lambda>n k. budgeted (nvs_erase_key map_nvs (fst n) k) n)\<rparr>"

interpretation budget_nvs: nvs_contract budget_nvs fst
  by unfold_locales
    (auto simp: budget_nvs_def budgeted_def map_nvs_def split: option.splits if_splits)

definition three_devices :: "budget_state" where
  "three_devices =
     (case run_ops map_nvs
        [(True, OpAdd (Some ''a'') (Some ''A'')), (True, OpAdd (Some ''b'') (Some ''B'')),
         (True, OpAdd (Some ''c'') (Some ''C''))] demo_start
      of ((s, n), rs) \<Rightarrow> (n, 6))"


section \<open>Storage written by newer firmware\<close>

lemma uninitialized_refuses:
  assumes "\<not> ss_initialized s"
  shows "run_op N (lock, op) (s, n) = ((s, n), r) \<Longrightarrow> r \<noteq> DEVICE_STORE_OK"
    and "fst (run_op N (lock, op) (s, n)) = (s, n)"
  using assms
  by (cases op; auto simp: device_store_add_def device_store_delete_def device_store_edit_def
      device_store_set_ble_identity_def Let_def split: option.splits if_splits prod.splits)+

lemma uninitialized_run:
  "\<not> ss_initialized s \<Longrightarrow> fst (run_ops N ops (s, n)) = (s, n) \<and> DEVICE_STORE_OK \<notin> set (snd (run_ops N ops (s, n)))"
proof (induction ops)
  case Nil
  then show ?case by simp
next
  case (Cons lop ops)
  obtain lock op r where [simp]: "lop = (lock, op)" and 1: "run_op N (lock, op) (s, n) = ((s, n), r)"
    using uninitialized_refuses(2) [OF Cons.prems] by (metis prod.collapse)
  with Cons uninitialized_refuses(1) [OF Cons.prems 1] show ?case by (auto split: prod.splits)
qed

text \<open>
  C24. Older firmware never writes over a list stored by newer firmware. When the stored schema
  version is above the supported one, start-up reports it, and whatever requests follow, nothing of
  the stored data changes and no request is accepted.
\<close>

theorem newer_schema_is_untouched:
  assumes "nvs_contract N view" "view n ''schema_ver'' = Some (NvsU8 ver)"
    and "DEVICE_STORE_SCHEMA_VERSION < ver" "snd (nvs_open N n) = ESP_OK"
  shows "let (s, n1, r) = device_store_init N True store_boot n;
             (w, rs) = run_ops N ops (s, n1)
         in r = DEVICE_STORE_ERR_SCHEMA_TOO_NEW \<and> view (snd w) = view n \<and> DEVICE_STORE_OK \<notin> set rs"
proof -
  obtain n0 where 0: "nvs_open N n = (n0, ESP_OK)" using assms(4) by (metis prod.collapse)
  have v: "view n0 = view n" by (rule nvs_contract.open_view [OF assms(1) 0])
  have g: "nvs_get_u8 N n0 ''schema_ver'' = (ESP_OK, ver)"
    using assms(2) v by (intro nvs_contract.get_u8_Some [OF assms(1)]) simp
  obtain s where s: "device_store_init N True store_boot n = (s, nvs_close N n0, DEVICE_STORE_ERR_SCHEMA_TOO_NEW)"
      "\<not> ss_initialized s"
    using 0 g assms(3) by (auto simp: device_store_init_def device_store_nvs_load_def store_boot_def)
  with uninitialized_run [OF s(2), of N ops "nvs_close N n0"] nvs_contract.close_view [OF assms(1)] v
  show ?thesis by (auto split: prod.splits)
qed

theorem newer_schema_is_untouched_witness:
  "let n = [''schema_ver'' \<mapsto> NvsU8 4, ''count'' \<mapsto> NvsU8 1, ''id_0'' \<mapsto> NvsStr ''x''];
       (s, n1, r) = device_store_init map_nvs True store_boot n;
       (w, rs) = run_ops map_nvs demo_ops (s, n1)
   in r = DEVICE_STORE_ERR_SCHEMA_TOO_NEW \<and> snd w = n \<and> DEVICE_STORE_OK \<notin> set rs"
  unfolding Let_def
  using newer_schema_is_untouched [OF map_nvs.nvs_contract_axioms,
      of "[''schema_ver'' \<mapsto> NvsU8 4, ''count'' \<mapsto> NvsU8 1, ''id_0'' \<mapsto> NvsStr ''x'']" 4 demo_ops]
  by (simp add: map_nvs_def)

end
