(* ===== verification/Device_Schema.thy ===== *)
theory Device_Schema
  imports Gw_Message Gateway_Events Device_Template Device_Store
begin

text \<open>
  The schema of each device: which commands (tools) it accepts and which features it has. The
  runtime table (\<open>device_schema_runtime.c\<close>), the validators (\<open>device_schema_validate.c\<close>), the
  staged transfer of a schema from a device (\<open>device_schema_protocol.c\<close>) and the public queries of
  \<open>device_schema.c\<close>, among them \<open>device_schema_validate_command\<close>, which every control command must
  pass.

  The arrays \<open>tools\<close> and \<open>features\<close> are lists of twelve elements, of which the first \<open>count\<close> are in
  use; an array write is a list update, and the invariant shows that its index is in range.
  A handler runs with the runtime mutex held, which is taken at its start and whose outcome is an
  argument. The flash writes of \<open>device_schema_store.c\<close> are an argument of the one handler that makes
  them: the error code they return.
\<close>

section \<open>Data\<close>

abbreviation DEVICE_SCHEMA_MAX_TOOLS :: nat where "DEVICE_SCHEMA_MAX_TOOLS \<equiv> 12"
abbreviation DEVICE_SCHEMA_MAX_FEATURES :: nat where "DEVICE_SCHEMA_MAX_FEATURES \<equiv> 12"

definition DEVICE_SCHEMA_RESERVED_COMMAND :: string where
  "DEVICE_SCHEMA_RESERVED_COMMAND = ''describe_capabilities''"

record device_schema_tool =
  tl_command :: string
  tl_label :: string
  tl_unit :: string
  tl_value_type :: u8
  tl_flags :: u8
  tl_min_value :: int
  tl_max_value :: int
  tl_step :: u32

record device_schema_feature =
  ft_feature_id :: string
  ft_title :: string
  ft_unit :: string
  ft_feature_type :: u8
  ft_feature_schema_version :: u16
  ft_feature_flags :: u16
  ft_property_id :: u8
  ft_value_type :: u8
  ft_decimals :: u8
  ft_writable_tool_index :: int

datatype device_schema_state =
    DEVICE_SCHEMA_STATE_UNKNOWN
  | DEVICE_SCHEMA_STATE_DISCOVERING
  | DEVICE_SCHEMA_STATE_READY
  | DEVICE_SCHEMA_STATE_UNSUPPORTED
  | DEVICE_SCHEMA_STATE_ERROR

datatype device_settings_state =
    DEVICE_SETTINGS_STATE_UNKNOWN
  | DEVICE_SETTINGS_STATE_UNSUPPORTED
  | DEVICE_SETTINGS_STATE_READY

definition zero_tool :: device_schema_tool where
  "zero_tool = \<lparr>tl_command = [], tl_label = [], tl_unit = [], tl_value_type = 0, tl_flags = 0,
                tl_min_value = 0, tl_max_value = 0, tl_step = 0\<rparr>"

definition zero_feature :: device_schema_feature where
  "zero_feature = \<lparr>ft_feature_id = [], ft_title = [], ft_unit = [], ft_feature_type = 0,
                   ft_feature_schema_version = 0, ft_feature_flags = 0, ft_property_id = 0,
                   ft_value_type = 0, ft_decimals = 0, ft_writable_tool_index = 0\<rparr>"

record device_schema_snapshot =
  sn_device_id :: string
  sn_state :: device_schema_state
  sn_has_committed :: bool
  sn_revision :: u32
  sn_snapshot_id :: u32
  sn_updated_at_ms :: int
  sn_tool_count :: nat
  sn_feature_count :: nat
  sn_tools :: "device_schema_tool list"
  sn_features :: "device_schema_feature list"
  sn_settings_state :: device_settings_state
  sn_settings_schema_revision :: u16

definition zero_snapshot :: device_schema_snapshot where
  "zero_snapshot =
     \<lparr>sn_device_id = [], sn_state = DEVICE_SCHEMA_STATE_UNKNOWN, sn_has_committed = False,
      sn_revision = 0, sn_snapshot_id = 0, sn_updated_at_ms = 0, sn_tool_count = 0,
      sn_feature_count = 0, sn_tools = replicate DEVICE_SCHEMA_MAX_TOOLS zero_tool,
      sn_features = replicate DEVICE_SCHEMA_MAX_FEATURES zero_feature,
      sn_settings_state = DEVICE_SETTINGS_STATE_UNKNOWN, sn_settings_schema_revision = 0\<rparr>"

datatype schema_operation_kind = SCHEMA_OP_NONE | SCHEMA_OP_INITIAL | SCHEMA_OP_MANUAL

datatype schema_operation_state = SCHEMA_OP_IDLE | SCHEMA_OP_QUEUED | SCHEMA_OP_RUNNING

datatype device_schema_refresh_result =
    DEVICE_SCHEMA_REFRESH_RESULT_NONE
  | DEVICE_SCHEMA_REFRESH_RESULT_SUCCESS
  | DEVICE_SCHEMA_REFRESH_RESULT_UNCHANGED
  | DEVICE_SCHEMA_REFRESH_RESULT_NOT_PERSISTED
  | DEVICE_SCHEMA_REFRESH_RESULT_UNSUPPORTED
  | DEVICE_SCHEMA_REFRESH_RESULT_BUSY
  | DEVICE_SCHEMA_REFRESH_RESULT_TIMEOUT
  | DEVICE_SCHEMA_REFRESH_RESULT_DISCONNECTED
  | DEVICE_SCHEMA_REFRESH_RESULT_TRANSPORT_ERROR
  | DEVICE_SCHEMA_REFRESH_RESULT_PROTOCOL_ERROR
  | DEVICE_SCHEMA_REFRESH_RESULT_INTERNAL_ERROR

datatype device_schema_refresh_state =
    DEVICE_SCHEMA_REFRESH_IDLE | DEVICE_SCHEMA_REFRESH_QUEUED | DEVICE_SCHEMA_REFRESH_RUNNING

record device_schema_refresh_active =
  ra_generation :: u32
  ra_state :: device_schema_refresh_state

record device_schema_refresh_completed =
  rc_generation :: u32
  rc_result :: device_schema_refresh_result
  rc_finished_at_ms :: int

record schema_record =
  sr_used :: bool
  sr_has_committed :: bool
  sr_persist_dirty :: bool
  sr_committed :: device_schema_snapshot
  sr_staging_active :: bool
  sr_staging_operation_id :: u32
  sr_staging_expected_tools :: u16
  sr_staging_expected_features :: u16
  sr_staging :: device_schema_snapshot
  sr_operation_kind :: schema_operation_kind
  sr_operation_state :: schema_operation_state
  sr_operation_id :: u32
  sr_refresh_active :: device_schema_refresh_active
  sr_refresh_last_completed :: device_schema_refresh_completed

definition zero_record :: schema_record where
  "zero_record =
     \<lparr>sr_used = False, sr_has_committed = False, sr_persist_dirty = False,
      sr_committed = zero_snapshot, sr_staging_active = False, sr_staging_operation_id = 0,
      sr_staging_expected_tools = 0, sr_staging_expected_features = 0, sr_staging = zero_snapshot,
      sr_operation_kind = SCHEMA_OP_NONE, sr_operation_state = SCHEMA_OP_IDLE, sr_operation_id = 0,
      sr_refresh_active = \<lparr>ra_generation = 0, ra_state = DEVICE_SCHEMA_REFRESH_IDLE\<rparr>,
      sr_refresh_last_completed =
        \<lparr>rc_generation = 0, rc_result = DEVICE_SCHEMA_REFRESH_RESULT_NONE, rc_finished_at_ms = 0\<rparr>\<rparr>"

record schema_global_owner =
  ow_active :: bool
  ow_device_id :: string
  ow_operation_id :: u32
  ow_kind :: schema_operation_kind
  ow_refresh_generation :: u32

definition zero_owner :: schema_global_owner where
  "zero_owner = \<lparr>ow_active = False, ow_device_id = [], ow_operation_id = 0,
                 ow_kind = SCHEMA_OP_NONE, ow_refresh_generation = 0\<rparr>"

text \<open>A listener is a function pointer and its context; \<open>None\<close> is the null pointer.\<close>

record schema_runtime =
  rt_records :: "schema_record list"
  rt_has_submitter :: bool
  rt_listener1 :: "(nat \<times> nat) option"
  rt_listener2 :: "(nat \<times> nat) option"
  rt_listener3 :: "(nat \<times> nat) option"
  rt_owner :: schema_global_owner
  rt_next_operation_id :: u32
  rt_next_generation :: u32
  rt_initialized :: bool

section \<open>Validators\<close>

definition isalnum :: "char \<Rightarrow> bool" where
  "isalnum c =
     (let n = of_char c :: nat
      in 48 \<le> n \<and> n \<le> 57 \<or> 65 \<le> n \<and> n \<le> 90 \<or> 97 \<le> n \<and> n \<le> 122)"

definition schema_valid_command_name :: "string \<Rightarrow> bool" where
  "schema_valid_command_name command =
     (let len = strnlen command GW_MSG_COMMAND_LEN
      in if len = 0 \<or> GW_MSG_COMMAND_LEN \<le> len then False
         else \<forall>c\<in>set (take len command). isalnum c \<or> c = CHR ''_'' \<or> c = CHR ''-'' \<or> c = CHR ''.'')"

definition schema_valid_tool :: "device_schema_tool \<Rightarrow> bool" where
  "schema_valid_tool tool =
     (if \<not> schema_valid_command_name (tl_command tool) \<or> 2 < tl_value_type tool then False
      else if tl_value_type tool = 2 \<and> (tl_max_value tool < tl_min_value tool \<or> tl_step tool = 0) then False
      else True)"

definition schema_tool_equal :: "device_schema_tool \<Rightarrow> device_schema_tool \<Rightarrow> bool" where
  "schema_tool_equal a b \<longleftrightarrow>
     tl_value_type a = tl_value_type b \<and> tl_flags a = tl_flags b \<and> tl_min_value a = tl_min_value b \<and>
     tl_max_value a = tl_max_value b \<and> tl_step a = tl_step b \<and> tl_command a = tl_command b \<and>
     tl_label a = tl_label b \<and> tl_unit a = tl_unit b"

definition schema_valid_feature_id :: "string \<Rightarrow> bool" where
  "schema_valid_feature_id feature_id =
     (let len = strnlen feature_id GW_FEATURE_ID_LEN in 0 < len \<and> len < GW_FEATURE_ID_LEN)"

definition schema_resolve_writable_tool :: "device_schema_tool list \<Rightarrow> nat \<Rightarrow> string \<Rightarrow> int" where
  "schema_resolve_writable_tool tools tool_count feature_tool =
     (if feature_tool = [] then - 1
      else case find_index (\<lambda>t. tl_command t = feature_tool) (take tool_count tools) of
             Some i \<Rightarrow> int i | None \<Rightarrow> - 1)"

definition schema_feature_matches_template :: "device_schema_feature \<Rightarrow> bool" where
  "schema_feature_matches_template feature =
     (if ft_value_type feature \<noteq> device_template_property_value_type (ft_property_id feature) then False
      else case device_template_resolve (ft_feature_type feature) (ft_feature_schema_version feature) of
             None \<Rightarrow> True
           | Some template \<Rightarrow> ft_property_id feature = dt_primary_property template)"

definition schema_validate_feature_tool :: "device_schema_feature \<Rightarrow> device_schema_tool \<Rightarrow> bool" where
  "schema_validate_feature_tool feature tool =
     (if ft_value_type feature \<noteq> tl_value_type tool then False
      else if ft_unit feature \<noteq> [] \<and> tl_unit tool \<noteq> [] \<and> ft_unit feature \<noteq> tl_unit tool then False
      else if ft_value_type feature = 2 \<and> (tl_step tool = 0 \<or> tl_max_value tool < tl_min_value tool) then False
      else True)"

section \<open>Runtime table\<close>

definition schema_runtime_find_locked :: "schema_runtime \<Rightarrow> string \<Rightarrow> nat option" where
  "schema_runtime_find_locked rt device_id =
     find_index (\<lambda>r. sr_used r \<and> sn_device_id (sr_committed r) = device_id) (rt_records rt)"

definition fresh_record :: "string \<Rightarrow> schema_record" where
  "fresh_record device_id =
     zero_record\<lparr>sr_used := True,
       sr_committed := zero_snapshot\<lparr>sn_device_id := strlcpy GW_MSG_DEVICE_ID_LEN device_id,
                                     sn_state := DEVICE_SCHEMA_STATE_UNKNOWN\<rparr>\<rparr>"

definition schema_runtime_find_or_create_locked ::
    "schema_runtime \<Rightarrow> string \<Rightarrow> schema_runtime \<times> nat option" where
  "schema_runtime_find_or_create_locked rt device_id =
     (case schema_runtime_find_locked rt device_id of
        Some i \<Rightarrow> (rt, Some i)
      | None \<Rightarrow>
          (case find_index (\<lambda>r. \<not> sr_used r) (rt_records rt) of
             Some i \<Rightarrow> (rt\<lparr>rt_records := (rt_records rt)[i := fresh_record device_id]\<rparr>, Some i)
           | None \<Rightarrow> (rt, None)))"

text \<open>\<open>do id = ++counter; while (id == 0)\<close>: the second pass never yields 0 again.\<close>

definition bump_nonzero :: "u32 \<Rightarrow> u32" where
  "bump_nonzero x = (if x + 1 = 0 then x + 2 else x + 1)"

definition schema_runtime_next_operation_id :: "schema_runtime \<Rightarrow> schema_runtime \<times> u32" where
  "schema_runtime_next_operation_id rt =
     (let id = bump_nonzero (rt_next_operation_id rt) in (rt\<lparr>rt_next_operation_id := id\<rparr>, id))"

definition schema_runtime_next_generation :: "schema_runtime \<Rightarrow> schema_runtime \<times> u32" where
  "schema_runtime_next_generation rt =
     (let gen = bump_nonzero (rt_next_generation rt) in (rt\<lparr>rt_next_generation := gen\<rparr>, gen))"

definition update_record :: "schema_runtime \<Rightarrow> nat \<Rightarrow> (schema_record \<Rightarrow> schema_record) \<Rightarrow> schema_runtime" where
  "update_record rt i f = rt\<lparr>rt_records := (rt_records rt)[i := f (rt_records rt ! i)]\<rparr>"

definition schema_runtime_notify_commit ::
    "schema_runtime \<Rightarrow> string \<Rightarrow> u32 \<Rightarrow> (nat \<times> nat \<times> string \<times> u32) list" where
  "schema_runtime_notify_commit rt device_id revision =
     concat (map (\<lambda>l. case l of Some (fn, ctx) \<Rightarrow> [(fn, ctx, device_id, revision)] | None \<Rightarrow> [])
       [rt_listener1 rt, rt_listener2 rt, rt_listener3 rt])"

section \<open>Transfer of a schema\<close>

definition message_device_matches :: "string \<Rightarrow> gw_message \<Rightarrow> bool" where
  "message_device_matches device_id message \<longleftrightarrow>
     m_protocol_version message = GW_PROTOCOL_VERSION \<and> m_has_device_id message \<and>
     device_id = m_device_id message"

text \<open>\<open>memcmp\<close> of two features compares their fields (padding bytes are not part of the model).\<close>

definition snapshot_content_equal :: "device_schema_snapshot \<Rightarrow> device_schema_snapshot \<Rightarrow> bool" where
  "snapshot_content_equal a b =
     (if sn_revision a \<noteq> sn_revision b \<or> sn_settings_state a \<noteq> sn_settings_state b \<or>
         sn_settings_schema_revision a \<noteq> sn_settings_schema_revision b \<or>
         sn_tool_count a \<noteq> sn_tool_count b \<or> sn_feature_count a \<noteq> sn_feature_count b
      then False
      else (\<forall>i\<in>{0..<sn_tool_count a}. schema_tool_equal (sn_tools a ! i) (sn_tools b ! i)) \<and>
           (\<forall>i\<in>{0..<sn_feature_count a}. sn_features a ! i = sn_features b ! i))"

definition reset_record_error :: "schema_record \<Rightarrow> schema_record" where
  "reset_record_error r =
     (let r1 = r\<lparr>sr_staging_active := False, sr_staging := zero_snapshot\<rparr>;
          r2 = (if \<not> sr_has_committed r1
                then r1\<lparr>sr_committed := (sr_committed r1)\<lparr>sn_state := DEVICE_SCHEMA_STATE_ERROR\<rparr>\<rparr>
                else r1)
      in r2\<lparr>sr_operation_state := SCHEMA_OP_IDLE\<rparr>)"

definition begin_staging :: "string \<Rightarrow> gw_message \<Rightarrow> schema_record \<Rightarrow> schema_record" where
  "begin_staging device_id message r =
     (let supported = m_has_settings_supported message \<and> m_settings_supported message;
          staging = zero_snapshot\<lparr>
            sn_device_id := strlcpy GW_MSG_DEVICE_ID_LEN device_id,
            sn_state := DEVICE_SCHEMA_STATE_DISCOVERING,
            sn_snapshot_id := m_snapshot_id message,
            sn_revision := m_capability_revision message,
            sn_settings_state := (if supported then DEVICE_SETTINGS_STATE_READY
                                  else DEVICE_SETTINGS_STATE_UNSUPPORTED),
            sn_settings_schema_revision :=
              (if supported \<and> m_has_settings_schema_revision message
               then m_settings_schema_revision message else 0)\<rparr>
      in r\<lparr>sr_staging := staging,
           sr_staging_expected_tools := m_total message,
           sr_staging_expected_features :=
             (if m_has_feature_total message then m_feature_total message else 0),
           sr_staging_active := True\<rparr>)"

definition handle_begin :: "bool \<Rightarrow> string \<Rightarrow> gw_message \<Rightarrow> schema_runtime \<Rightarrow> schema_runtime" where
  "handle_begin lock device_id message rt =
     (if \<not> message_device_matches device_id message \<or> \<not> m_has_snapshot_id message \<or>
         \<not> m_has_total message \<or> \<not> m_has_capability_revision message \<or>
         DEVICE_SCHEMA_MAX_TOOLS < unat (m_total message) \<or>
         m_has_feature_total message \<and> DEVICE_SCHEMA_MAX_FEATURES < unat (m_feature_total message)
      then rt
      else if \<not> lock then rt
      else case schema_runtime_find_locked rt device_id of
             None \<Rightarrow> rt
           | Some i \<Rightarrow>
               if sr_operation_state (rt_records rt ! i) \<noteq> SCHEMA_OP_RUNNING then rt
               else update_record rt i (begin_staging device_id message))"

definition message_tool :: "gw_message \<Rightarrow> device_schema_tool" where
  "message_tool message =
     \<lparr>tl_command = strlcpy GW_MSG_COMMAND_LEN (m_command message),
      tl_label = strlcpy GW_MSG_CAP_LABEL_LEN
        (if m_capability_label message \<noteq> [] then m_capability_label message else m_command message),
      tl_unit = strlcpy GW_MSG_CAP_UNIT_LEN (m_capability_unit message),
      tl_value_type = m_value_type message,
      tl_flags = (if m_has_capability_flags message then m_capability_flags message else 0),
      tl_min_value = m_min_value message, tl_max_value = m_max_value message,
      tl_step = m_step message\<rparr>"

definition stage_tool :: "gw_message \<Rightarrow> device_schema_tool \<Rightarrow> schema_record \<Rightarrow> schema_record" where
  "stage_tool message tool r =
     (let st = sr_staging r; next = sn_tool_count st;
          valid_sequence = (sr_staging_active r \<and> sn_snapshot_id st = m_snapshot_id message \<and>
                            unat (m_sequence message) = next \<and>
                            next < unat (sr_staging_expected_tools r) \<and>
                            \<not> (\<exists>t\<in>set (take next (sn_tools st)). tl_command t = tl_command tool))
      in if valid_sequence
         then r\<lparr>sr_staging := st\<lparr>sn_tools := (sn_tools st)[next := tool], sn_tool_count := next + 1\<rparr>\<rparr>
         else reset_record_error r)"

definition handle_tool_item :: "bool \<Rightarrow> string \<Rightarrow> gw_message \<Rightarrow> schema_runtime \<Rightarrow> schema_runtime" where
  "handle_tool_item lock device_id message rt =
     (if \<not> message_device_matches device_id message \<or> \<not> m_has_snapshot_id message \<or>
         \<not> m_has_sequence message \<or> \<not> m_has_value_type message
      then rt
      else
        let tool = message_tool message
        in if tl_value_type tool = 2 \<and>
              (\<not> m_has_min_value message \<or> \<not> m_has_max_value message \<or> \<not> m_has_step message)
           then rt
           else if \<not> schema_valid_tool tool then rt
           else if \<not> lock then rt
           else case schema_runtime_find_locked rt device_id of
                  None \<Rightarrow> rt
                | Some i \<Rightarrow> update_record rt i (stage_tool message tool))"

definition message_feature :: "gw_message \<Rightarrow> device_schema_feature" where
  "message_feature message =
     \<lparr>ft_feature_id = strlcpy GW_FEATURE_ID_LEN (m_feature_id message),
      ft_title = strlcpy GW_MSG_CAP_LABEL_LEN
        (if m_capability_label message \<noteq> [] then m_capability_label message else m_feature_id message),
      ft_unit = strlcpy GW_MSG_CAP_UNIT_LEN (m_capability_unit message),
      ft_feature_type = m_feature_type message,
      ft_feature_schema_version =
        (if m_has_feature_schema_version message then m_feature_schema_version message else 0),
      ft_feature_flags = (if m_has_feature_flags message then m_feature_flags message else 0),
      ft_property_id = m_property_id message,
      ft_value_type = m_value_type message,
      ft_decimals = (if m_has_feature_decimals message then m_feature_decimals message else 0),
      ft_writable_tool_index = - 1\<rparr>"

definition resolve_feature ::
    "gw_message \<Rightarrow> device_schema_snapshot \<Rightarrow> device_schema_feature \<Rightarrow> device_schema_feature option" where
  "resolve_feature message st feature =
     (if m_has_feature_tool message \<and> m_feature_tool message \<noteq> [] then
        (let index = schema_resolve_writable_tool (sn_tools st) (sn_tool_count st) (m_feature_tool message)
         in if index < 0 then None
            else if \<not> schema_validate_feature_tool feature (sn_tools st ! nat index) then None
            else Some (feature\<lparr>ft_writable_tool_index := index\<rparr>))
      else Some feature)"

definition stage_feature :: "gw_message \<Rightarrow> device_schema_feature \<Rightarrow> schema_record \<Rightarrow> schema_record" where
  "stage_feature message feature r =
     (let st = sr_staging r; next = sn_feature_count st;
          valid_sequence = (sr_staging_active r \<and> sn_snapshot_id st = m_snapshot_id message \<and>
                            unat (m_sequence message) = unat (sr_staging_expected_tools r) + next \<and>
                            next < unat (sr_staging_expected_features r) \<and>
                            \<not> (\<exists>f\<in>set (take next (sn_features st)). ft_feature_id f = ft_feature_id feature))
      in case (if valid_sequence then resolve_feature message st feature else None) of
           Some f \<Rightarrow>
             r\<lparr>sr_staging := st\<lparr>sn_features := (sn_features st)[next := f], sn_feature_count := next + 1\<rparr>\<rparr>
         | None \<Rightarrow> reset_record_error r)"

definition handle_feature_item :: "bool \<Rightarrow> string \<Rightarrow> gw_message \<Rightarrow> schema_runtime \<Rightarrow> schema_runtime" where
  "handle_feature_item lock device_id message rt =
     (if \<not> message_device_matches device_id message \<or> \<not> m_has_snapshot_id message \<or>
         \<not> m_has_feature_id message \<or> \<not> m_has_feature_type message \<or>
         \<not> m_has_property_id message \<or> \<not> m_has_value_type message
      then rt
      else if \<not> schema_valid_feature_id (m_feature_id message) then rt
      else if \<not> schema_feature_matches_template (message_feature message) then rt
      else if \<not> lock then rt
      else case schema_runtime_find_locked rt device_id of
             None \<Rightarrow> rt
           | Some i \<Rightarrow> update_record rt i (stage_feature message (message_feature message)))"

definition staging_complete :: "gw_message \<Rightarrow> schema_record \<Rightarrow> bool" where
  "staging_complete message r \<longleftrightarrow>
     sr_staging_active r \<and> sn_snapshot_id (sr_staging r) = m_snapshot_id message \<and>
     m_total message = sr_staging_expected_tools r \<and>
     sn_tool_count (sr_staging r) = unat (sr_staging_expected_tools r) \<and>
     sn_feature_count (sr_staging r) = unat (sr_staging_expected_features r)"

definition commit_staging :: "int \<Rightarrow> schema_record \<Rightarrow> schema_record" where
  "commit_staging now_ms r =
     (let st = (sr_staging r)\<lparr>sn_state := DEVICE_SCHEMA_STATE_READY, sn_updated_at_ms := now_ms\<rparr>
      in r\<lparr>sr_staging := st, sr_committed := st, sr_has_committed := True, sr_staging_active := False\<rparr>)"

text \<open>
  The environment of \<open>handle_end\<close>: the allocation, the clock, the outcome of each of the mutex
  acquisitions, and the error code of the flash write, which depends on the slot (\<open>None\<close> for the
  index -1) and the snapshot. The result carries the commit notifications and the published event.
\<close>

record end_env =
  ee_alloc :: bool
  ee_now_ms :: int
  ee_lock :: bool
  ee_lock_index :: bool
  ee_lock_persist :: bool
  ee_persist :: "nat option \<Rightarrow> device_schema_snapshot \<Rightarrow> esp_err"

definition schema_event_of :: "string \<Rightarrow> u32 \<Rightarrow> gateway_event" where
  "schema_event_of device_id revision =
     zero_event\<lparr>ev_type := GW_EVENT_DEVICE_SCHEMA,
                ev_device_id := strlcpy GW_MSG_DEVICE_ID_LEN device_id, ev_schema_revision := revision\<rparr>"

definition persist_commit ::
    "end_env \<Rightarrow> string \<Rightarrow> bool \<Rightarrow> device_schema_snapshot \<Rightarrow> schema_runtime \<Rightarrow> schema_runtime" where
  "persist_commit env device_id changed committed rt =
     (let found = schema_runtime_find_locked rt device_id;
          persist_index = (if ee_lock_index env then found else None)
      in if \<not> changed then
           (case found of
              Some i \<Rightarrow>
                if ee_lock_persist env \<and> sr_persist_dirty (rt_records rt ! i) \<and>
                   ee_persist env persist_index committed = ESP_OK
                then update_record rt i (\<lambda>r. r\<lparr>sr_persist_dirty := False\<rparr>) else rt
            | None \<Rightarrow> rt)
         else if ee_persist env persist_index committed \<noteq> ESP_OK then
           (case found of
              Some i \<Rightarrow> if ee_lock_persist env then update_record rt i (\<lambda>r. r\<lparr>sr_persist_dirty := True\<rparr>) else rt
            | None \<Rightarrow> rt)
         else rt)"

definition handle_end ::
    "end_env \<Rightarrow> string \<Rightarrow> gw_message \<Rightarrow> schema_runtime \<Rightarrow>
     schema_runtime \<times> (nat \<times> nat \<times> string \<times> u32) list \<times> gateway_event option" where
  "handle_end env device_id message rt =
     (if \<not> message_device_matches device_id message \<or> \<not> m_has_snapshot_id message \<or> \<not> m_has_total message
      then (rt, [], None)
      else if \<not> ee_alloc env then (rt, [], None)
      else if \<not> ee_lock env then (rt, [], None)
      else case schema_runtime_find_locked rt device_id of
             None \<Rightarrow> (rt, [], None)
           | Some i \<Rightarrow>
               let r = rt_records rt ! i
               in if staging_complete message r then
                    let changed = (\<not> sr_has_committed r \<or>
                                   \<not> snapshot_content_equal (sr_committed r) (sr_staging r));
                        rt1 = update_record rt i (commit_staging (ee_now_ms env));
                        committed = sr_committed (rt_records rt1 ! i);
                        rt2 = persist_commit env device_id changed committed rt1
                    in (rt2, schema_runtime_notify_commit rt2 device_id (sn_revision committed),
                        Some (schema_event_of device_id (sn_revision committed)))
                  else (update_record rt i reset_record_error, [], None))"

definition schema_protocol_handle_message ::
    "end_env \<Rightarrow> string \<Rightarrow> gw_message \<Rightarrow> schema_runtime \<Rightarrow>
     schema_runtime \<times> (nat \<times> nat \<times> string \<times> u32) list \<times> gateway_event option" where
  "schema_protocol_handle_message env device_id message rt =
     (if m_type message = ''capabilities_begin'' then
        (handle_begin (ee_lock env) device_id message rt, [], None)
      else if m_type message = ''capability_item'' then
        (handle_tool_item (ee_lock env) device_id message rt, [], None)
      else if m_type message = ''feature_item'' then
        (handle_feature_item (ee_lock env) device_id message rt, [], None)
      else handle_end env device_id message rt)"

section \<open>Commands and queries\<close>

datatype device_schema_validation =
    DEVICE_SCHEMA_VALID
  | DEVICE_SCHEMA_VALID_UNKNOWN
  | DEVICE_SCHEMA_VALID_UNSUPPORTED_COMMAND
  | DEVICE_SCHEMA_VALID_ARGUMENT
  | DEVICE_SCHEMA_VALID_TYPE_MISMATCH
  | DEVICE_SCHEMA_VALID_RANGE_ERROR

text \<open>
  The switch on the value type. The remainder of a division by a zero step is undefined in C: the
  result is then \<^term>\<open>None\<close>.
\<close>

definition validate_value :: "device_schema_tool \<Rightarrow> gw_message \<Rightarrow> device_schema_validation option" where
  "validate_value tool message =
     (if tl_value_type tool = 0 then
        Some (if m_has_int_value message \<or> m_has_bool_value message
              then DEVICE_SCHEMA_VALID_TYPE_MISMATCH else DEVICE_SCHEMA_VALID)
      else if tl_value_type tool = 1 then
        Some (if \<not> m_has_bool_value message \<or> m_has_int_value message
              then DEVICE_SCHEMA_VALID_TYPE_MISMATCH else DEVICE_SCHEMA_VALID)
      else if tl_value_type tool = 2 then
        (if \<not> m_has_int_value message \<or> m_has_bool_value message
         then Some DEVICE_SCHEMA_VALID_TYPE_MISMATCH
         else
           let delta = m_int_value message - tl_min_value tool
           in if m_int_value message < tl_min_value tool \<or> tl_max_value tool < m_int_value message
              then Some DEVICE_SCHEMA_VALID_RANGE_ERROR
              else if tl_step tool = 0 then None
              else if delta mod uint (tl_step tool) \<noteq> 0 then Some DEVICE_SCHEMA_VALID_RANGE_ERROR
              else Some DEVICE_SCHEMA_VALID)
      else Some DEVICE_SCHEMA_VALID)"

definition validate_feature ::
    "device_schema_snapshot \<Rightarrow> nat \<Rightarrow> gw_message \<Rightarrow> device_schema_validation \<Rightarrow> device_schema_validation" where
  "validate_feature snap tool_index message validation =
     (let v1 = (if validation = DEVICE_SCHEMA_VALID \<and> m_has_feature_id message \<noteq> m_has_property_id message
                then DEVICE_SCHEMA_VALID_ARGUMENT else validation)
      in if v1 = DEVICE_SCHEMA_VALID \<and> m_has_feature_id message \<and>
            \<not> (\<exists>f\<in>set (take (sn_feature_count snap) (sn_features snap)).
                 ft_feature_id f = m_feature_id message \<and> ft_property_id f = m_property_id message \<and>
                 ft_writable_tool_index f = int tool_index)
         then DEVICE_SCHEMA_VALID_ARGUMENT else v1)"

text \<open>The second component is \<open>*out_tool\<close>, written only when the command is valid.\<close>

definition device_schema_validate_command ::
    "bool \<Rightarrow> schema_runtime \<Rightarrow> gw_message option \<Rightarrow>
     (device_schema_validation \<times> device_schema_tool option) option" where
  "device_schema_validate_command lock rt message =
     (case message of
        None \<Rightarrow> Some (DEVICE_SCHEMA_VALID_ARGUMENT, None)
      | Some msg \<Rightarrow>
          if \<not> m_has_device_id msg \<or> m_command msg = [] then Some (DEVICE_SCHEMA_VALID_ARGUMENT, None)
          else if m_command msg = DEVICE_SCHEMA_RESERVED_COMMAND then Some (DEVICE_SCHEMA_VALID, None)
          else if \<not> lock then Some (DEVICE_SCHEMA_VALID_UNKNOWN, None)
          else case schema_runtime_find_locked rt (m_device_id msg) of
                 None \<Rightarrow> Some (DEVICE_SCHEMA_VALID_UNKNOWN, None)
               | Some i \<Rightarrow>
                   let r = rt_records rt ! i; c = sr_committed r
                   in if \<not> sr_has_committed r \<or>
                         sn_state c \<noteq> DEVICE_SCHEMA_STATE_READY \<and> sn_state c \<noteq> DEVICE_SCHEMA_STATE_DISCOVERING
                      then Some (DEVICE_SCHEMA_VALID_UNKNOWN, None)
                      else case find_index (\<lambda>t. tl_command t = m_command msg) (take (sn_tool_count c) (sn_tools c)) of
                             None \<Rightarrow> Some (DEVICE_SCHEMA_VALID_UNSUPPORTED_COMMAND, None)
                           | Some k \<Rightarrow>
                               (case validate_value (sn_tools c ! k) msg of
                                  None \<Rightarrow> None
                                | Some v \<Rightarrow>
                                    let v' = validate_feature c k msg v
                                    in Some (v', if v' = DEVICE_SCHEMA_VALID then Some (sn_tools c ! k) else None)))"

text \<open>\<open>store\<close> is the device list; \<open>store_lock\<close> the outcome of its own mutex.\<close>

definition device_schema_get ::
    "bool \<Rightarrow> bool \<Rightarrow> store_state \<Rightarrow> schema_runtime \<Rightarrow> string option \<Rightarrow> bool \<Rightarrow>
     esp_err \<times> device_schema_snapshot option" where
  "device_schema_get store_lock lock store rt device_id have_out =
     (case device_id of
        None \<Rightarrow> (ESP_ERR_INVALID_ARG, None)
      | Some dev \<Rightarrow>
          if \<not> have_out then (ESP_ERR_INVALID_ARG, None)
          else if fst (device_store_get store_lock (Some dev) store) \<noteq> DEVICE_STORE_OK then (ESP_ERR_NOT_FOUND, None)
          else
            let out = zero_snapshot\<lparr>sn_device_id := strlcpy GW_MSG_DEVICE_ID_LEN dev,
                                    sn_state := DEVICE_SCHEMA_STATE_UNKNOWN\<rparr>
            in if \<not> lock then (ESP_ERR_TIMEOUT, Some out)
               else case schema_runtime_find_locked rt dev of
                      None \<Rightarrow> (ESP_OK, Some out)
                    | Some i \<Rightarrow>
                        (ESP_OK, Some ((sr_committed (rt_records rt ! i))
                           \<lparr>sn_has_committed := sr_has_committed (rt_records rt ! i)\<rparr>)))"

record device_schema_feature_ref =
  fr_feature_id :: string
  fr_property_id :: u8
  fr_readable :: bool

definition device_schema_get_feature_at ::
    "bool \<Rightarrow> schema_runtime \<Rightarrow> string option \<Rightarrow> u32 \<Rightarrow> nat \<Rightarrow> bool \<Rightarrow>
     esp_err \<times> device_schema_feature_ref option" where
  "device_schema_get_feature_at lock rt device_id expected_revision index have_out =
     (case device_id of
        None \<Rightarrow> (ESP_ERR_INVALID_ARG, None)
      | Some dev \<Rightarrow>
          if \<not> have_out then (ESP_ERR_INVALID_ARG, None)
          else if \<not> lock then (ESP_ERR_TIMEOUT, None)
          else case schema_runtime_find_locked rt dev of
                 None \<Rightarrow> (ESP_ERR_NOT_FOUND, None)
               | Some i \<Rightarrow>
                   let r = rt_records rt ! i; c = sr_committed r
                   in if \<not> sr_has_committed r then (ESP_ERR_NOT_FOUND, None)
                      else if sn_revision c \<noteq> expected_revision then (ESP_ERR_INVALID_STATE, None)
                      else if sn_feature_count c \<le> index then (ESP_ERR_NOT_FOUND, None)
                      else let f = sn_features c ! index
                           in (ESP_OK, Some \<lparr>fr_feature_id = strlcpy GW_FEATURE_ID_LEN (ft_feature_id f),
                                             fr_property_id = ft_property_id f,
                                             fr_readable = (ft_property_id f \<noteq> GW_PROP_NONE)\<rparr>))"

text \<open>\<open>posted\<close> is what the worker queue answered, \<open>relock\<close> the second acquisition after a failed post.\<close>

definition device_schema_refresh ::
    "bool \<Rightarrow> bool \<Rightarrow> bool \<Rightarrow> esp_err \<Rightarrow> store_state \<Rightarrow> string option \<Rightarrow> schema_runtime \<Rightarrow>
     schema_runtime \<times> esp_err \<times> u32 option" where
  "device_schema_refresh store_lock lock relock posted store device_id rt =
     (case device_id of
        None \<Rightarrow> (rt, ESP_ERR_INVALID_ARG, None)
      | Some dev \<Rightarrow>
          if dev = [] then (rt, ESP_ERR_INVALID_ARG, None)
          else if \<not> rt_initialized rt then (rt, ESP_ERR_INVALID_STATE, None)
          else if fst (device_store_get store_lock (Some dev) store) \<noteq> DEVICE_STORE_OK
          then (rt, ESP_ERR_NOT_FOUND, None)
          else if \<not> lock then (rt, ESP_ERR_TIMEOUT, None)
          else
            (case schema_runtime_find_or_create_locked rt dev of
               (rt0, None) \<Rightarrow> (rt0, ESP_ERR_NO_MEM, None)
             | (rt0, Some i) \<Rightarrow>
                 if sr_operation_state (rt_records rt0 ! i) \<noteq> SCHEMA_OP_IDLE
                 then (rt0, ESP_ERR_INVALID_STATE, None)
                 else
                   let (rt1, gen) = schema_runtime_next_generation rt0;
                       (rt2, op_id) = schema_runtime_next_operation_id rt1;
                       rt3 = update_record rt2 i (\<lambda>r. r\<lparr>sr_operation_kind := SCHEMA_OP_MANUAL,
                               sr_operation_state := SCHEMA_OP_QUEUED, sr_operation_id := op_id,
                               sr_refresh_active := \<lparr>ra_generation = gen,
                                                     ra_state = DEVICE_SCHEMA_REFRESH_QUEUED\<rparr>\<rparr>)
                   in if posted \<noteq> ESP_OK then
                        (case schema_runtime_find_locked rt3 dev of
                           Some j \<Rightarrow>
                             (if relock
                              then update_record rt3 j (\<lambda>r. r\<lparr>sr_operation_state := SCHEMA_OP_IDLE,
                                     sr_refresh_active := \<lparr>ra_generation = 0,
                                                           ra_state = DEVICE_SCHEMA_REFRESH_IDLE\<rparr>\<rparr>)
                              else rt3, posted, Some gen)
                         | None \<Rightarrow> (rt3, posted, Some gen))
                      else (rt3, ESP_OK, Some gen)))"

text \<open>\<open>erased\<close> is the error code of the flash erase; \<open>relock\<close> the acquisition after it.\<close>

definition device_schema_forget ::
    "bool \<Rightarrow> bool \<Rightarrow> esp_err \<Rightarrow> string option \<Rightarrow> schema_runtime \<Rightarrow> schema_runtime \<times> esp_err" where
  "device_schema_forget lock relock erased device_id rt =
     (case device_id of
        None \<Rightarrow> (rt, ESP_ERR_INVALID_ARG)
      | Some dev \<Rightarrow>
          if dev = [] then (rt, ESP_ERR_INVALID_ARG)
          else if \<not> lock then (rt, ESP_ERR_TIMEOUT)
          else case schema_runtime_find_locked rt dev of
                 None \<Rightarrow> (rt, ESP_OK)
               | Some i \<Rightarrow>
                   let r = rt_records rt ! i;
                       busy = (sr_operation_state r \<noteq> SCHEMA_OP_IDLE);
                       own = rt_owner rt;
                       rt1 = (if busy \<and> ow_active own \<and> ow_device_id own = dev \<and>
                                 ow_operation_id own = sr_operation_id r
                              then rt\<lparr>rt_owner := own\<lparr>ow_active := False\<rparr>\<rparr> else rt);
                       rt2 = update_record rt1 i (\<lambda>r. (if busy then r\<lparr>sr_operation_state := SCHEMA_OP_IDLE\<rparr> else r)
                               \<lparr>sr_staging_active := False, sr_staging := zero_snapshot\<rparr>)
                   in if erased \<noteq> ESP_OK then (rt2, erased)
                      else case schema_runtime_find_locked rt2 dev of
                             Some j \<Rightarrow> (if relock then update_record rt2 j (\<lambda>_. zero_record) else rt2, ESP_OK)
                           | None \<Rightarrow> (rt2, ESP_OK))"

definition device_schema_describe_settings ::
    "bool \<Rightarrow> schema_runtime \<Rightarrow> string option \<Rightarrow> bool \<Rightarrow> esp_err \<times> device_settings_state option" where
  "device_schema_describe_settings lock rt device_id have_out =
     (case device_id of
        None \<Rightarrow> (ESP_ERR_INVALID_ARG, None)
      | Some dev \<Rightarrow>
          if dev = [] \<or> \<not> have_out then (ESP_ERR_INVALID_ARG, None)
          else if \<not> lock then (ESP_ERR_TIMEOUT, Some DEVICE_SETTINGS_STATE_UNKNOWN)
          else case schema_runtime_find_locked rt dev of
                 None \<Rightarrow> (ESP_ERR_NOT_FOUND, Some DEVICE_SETTINGS_STATE_UNKNOWN)
               | Some i \<Rightarrow>
                   if \<not> sr_has_committed (rt_records rt ! i)
                   then (ESP_ERR_NOT_FOUND, Some DEVICE_SETTINGS_STATE_UNKNOWN)
                   else (ESP_OK, Some (sn_settings_state (sr_committed (rt_records rt ! i)))))"

text \<open>Start-up: \<open>loaded\<close> is the table with what was read from flash.\<close>

definition schema_runtime_init :: "bool \<Rightarrow> schema_record list \<Rightarrow> schema_runtime \<Rightarrow> schema_runtime \<times> esp_err" where
  "schema_runtime_init alloc loaded rt =
     (if \<not> alloc then (rt, ESP_ERR_NO_MEM)
      else (rt\<lparr>rt_records := loaded, rt_owner := zero_owner, rt_listener2 := None, rt_listener3 := None,
               rt_next_operation_id := 0, rt_next_generation := 0\<rparr>, ESP_OK))"

definition schema_runtime_reset :: "schema_runtime \<Rightarrow> schema_runtime" where
  "schema_runtime_reset rt =
     rt\<lparr>rt_records := replicate DEVICE_STORE_MAX_DEVICES zero_record, rt_owner := zero_owner,
        rt_next_operation_id := 0, rt_next_generation := 0, rt_initialized := False\<rparr>"

section \<open>Well-formed schemas\<close>

abbreviation tools_of :: "device_schema_snapshot \<Rightarrow> device_schema_tool list" where
  "tools_of st \<equiv> take (sn_tool_count st) (sn_tools st)"

abbreviation features_of :: "device_schema_snapshot \<Rightarrow> device_schema_feature list" where
  "features_of st \<equiv> take (sn_feature_count st) (sn_features st)"

definition feature_ok :: "device_schema_tool list \<Rightarrow> device_schema_feature \<Rightarrow> bool" where
  "feature_ok ts f \<longleftrightarrow>
     schema_valid_feature_id (ft_feature_id f) \<and> schema_feature_matches_template f \<and>
     (ft_writable_tool_index f = - 1 \<or>
      (\<exists>k < length ts. ft_writable_tool_index f = int k \<and> schema_validate_feature_tool f (ts ! k)))"

definition snapshot_ok :: "device_schema_snapshot \<Rightarrow> bool" where
  "snapshot_ok st \<longleftrightarrow>
     length (sn_tools st) = DEVICE_SCHEMA_MAX_TOOLS \<and> sn_tool_count st \<le> DEVICE_SCHEMA_MAX_TOOLS \<and>
     length (sn_features st) = DEVICE_SCHEMA_MAX_FEATURES \<and> sn_feature_count st \<le> DEVICE_SCHEMA_MAX_FEATURES \<and>
     (\<forall>t\<in>set (tools_of st). schema_valid_tool t) \<and> distinct (map tl_command (tools_of st)) \<and>
     (\<forall>f\<in>set (features_of st). feature_ok (tools_of st) f) \<and>
     distinct (map ft_feature_id (features_of st))"

definition record_ok :: "schema_record \<Rightarrow> bool" where
  "record_ok r \<longleftrightarrow>
     snapshot_ok (sr_committed r) \<and> snapshot_ok (sr_staging r) \<and>
     length (sn_device_id (sr_committed r)) < GW_MSG_DEVICE_ID_LEN \<and>
     (sr_staging_active r \<longrightarrow>
        unat (sr_staging_expected_tools r) \<le> DEVICE_SCHEMA_MAX_TOOLS \<and>
        unat (sr_staging_expected_features r) \<le> DEVICE_SCHEMA_MAX_FEATURES \<and>
        sn_device_id (sr_staging r) = sn_device_id (sr_committed r))"

definition runtime_ok :: "schema_runtime \<Rightarrow> bool" where
  "runtime_ok rt \<longleftrightarrow>
     length (rt_records rt) = DEVICE_STORE_MAX_DEVICES \<and> (\<forall>r\<in>set (rt_records rt). record_ok r)"

lemma zero_snapshot_ok [simp]: "snapshot_ok zero_snapshot"
  by (simp add: snapshot_ok_def zero_snapshot_def)

lemma snapshot_ok_cong:
  "\<lbrakk>sn_tools a = sn_tools b; sn_tool_count a = sn_tool_count b; sn_features a = sn_features b;
    sn_feature_count a = sn_feature_count b\<rbrakk> \<Longrightarrow> snapshot_ok a = snapshot_ok b"
  by (simp add: snapshot_ok_def)

lemma snapshot_ok_updates [simp]:
  "snapshot_ok (st\<lparr>sn_state := x\<rparr>) = snapshot_ok st"
  "snapshot_ok (st\<lparr>sn_updated_at_ms := y\<rparr>) = snapshot_ok st"
  "snapshot_ok (st\<lparr>sn_device_id := d\<rparr>) = snapshot_ok st"
  "snapshot_ok (st\<lparr>sn_snapshot_id := sid\<rparr>) = snapshot_ok st"
  "snapshot_ok (st\<lparr>sn_revision := rv\<rparr>) = snapshot_ok st"
  "snapshot_ok (st\<lparr>sn_settings_state := ss\<rparr>) = snapshot_ok st"
  "snapshot_ok (st\<lparr>sn_settings_schema_revision := sv\<rparr>) = snapshot_ok st"
  by (rule snapshot_ok_cong; simp)+

lemma feature_ok_more: "feature_ok ts f \<Longrightarrow> feature_ok (ts @ us) f"
  unfolding feature_ok_def by (auto simp: nth_append intro: less_SucI)

lemma take_append_slot:
  "n < length xs \<Longrightarrow> take (n + 1) (xs[n := x]) = take n xs @ [x]"
  by (simp add: take_Suc_conv_app_nth)

lemma snapshot_ok_add_tool:
  assumes "snapshot_ok st" "sn_tool_count st < DEVICE_SCHEMA_MAX_TOOLS" "schema_valid_tool tool"
    and "\<not> (\<exists>t\<in>set (tools_of st). tl_command t = tl_command tool)"
  shows "snapshot_ok (st\<lparr>sn_tools := (sn_tools st)[sn_tool_count st := tool], sn_tool_count := sn_tool_count st + 1\<rparr>)"
  using assms take_append_slot [of "sn_tool_count st" "sn_tools st" tool]
  unfolding snapshot_ok_def by (auto simp: feature_ok_more)

lemma snapshot_ok_add_feature:
  assumes "snapshot_ok st" "sn_feature_count st < DEVICE_SCHEMA_MAX_FEATURES" "feature_ok (tools_of st) f"
    and "\<not> (\<exists>g\<in>set (features_of st). ft_feature_id g = ft_feature_id f)"
  shows "snapshot_ok (st\<lparr>sn_features := (sn_features st)[sn_feature_count st := f],
                         sn_feature_count := sn_feature_count st + 1\<rparr>)"
  using assms take_append_slot [of "sn_feature_count st" "sn_features st" f]
  unfolding snapshot_ok_def by auto

lemma reset_record_error_ok: "record_ok r \<Longrightarrow> record_ok (reset_record_error r)"
  by (simp add: record_ok_def reset_record_error_def Let_def)

lemma begin_staging_ok:
  assumes "record_ok r" "unat (m_total msg) \<le> DEVICE_SCHEMA_MAX_TOOLS"
    "m_has_feature_total msg \<longrightarrow> unat (m_feature_total msg) \<le> DEVICE_SCHEMA_MAX_FEATURES"
    "sn_device_id (sr_committed r) = d"
  shows "record_ok (begin_staging d msg r)"
  using assms by (simp add: record_ok_def begin_staging_def Let_def)

lemma stage_tool_ok:
  "record_ok r \<Longrightarrow> schema_valid_tool tool \<Longrightarrow> record_ok (stage_tool msg tool r)"
  using snapshot_ok_add_tool [of "sr_staging r" tool] reset_record_error_ok [of r]
  unfolding stage_tool_def Let_def by (auto simp: record_ok_def)

lemma tool_index_irrelevant [simp]:
  "schema_validate_feature_tool (f\<lparr>ft_writable_tool_index := x\<rparr>) t = schema_validate_feature_tool f t"
  "schema_feature_matches_template (f\<lparr>ft_writable_tool_index := x\<rparr>) = schema_feature_matches_template f"
  by (simp_all add: schema_validate_feature_tool_def schema_feature_matches_template_def split: option.splits)

lemma resolve_feature_ok:
  assumes "resolve_feature msg st f = Some g" "snapshot_ok st"
    and "schema_valid_feature_id (ft_feature_id f)" "schema_feature_matches_template f" "ft_writable_tool_index f = - 1"
  shows "feature_ok (tools_of st) g \<and> ft_feature_id g = ft_feature_id f"
proof (cases "m_has_feature_tool msg \<and> m_feature_tool msg \<noteq> []")
  case False
  with assms show ?thesis by (auto simp: resolve_feature_def feature_ok_def)
next
  case True
  with assms(1) obtain k where k: "find_index (\<lambda>t. tl_command t = m_feature_tool msg) (tools_of st) = Some k"
      "g = f\<lparr>ft_writable_tool_index := int k\<rparr>" "schema_validate_feature_tool f (sn_tools st ! k)"
    by (auto simp: resolve_feature_def schema_resolve_writable_tool_def Let_def split: if_splits option.splits)
  have kl: "k < length (tools_of st)" using find_index_less [OF k(1)] .
  have "schema_validate_feature_tool g (tools_of st ! k)" "schema_feature_matches_template g"
    using k kl assms(4) by simp_all
  with k(2) kl assms(3) show ?thesis unfolding feature_ok_def by auto
qed

lemma stage_feature_ok:
  assumes "record_ok r" "schema_valid_feature_id (ft_feature_id f)" "schema_feature_matches_template f"
    "ft_writable_tool_index f = - 1"
  shows "record_ok (stage_feature msg f r)"
proof (cases "stage_feature msg f r = reset_record_error r")
  case True
  with assms(1) show ?thesis by (simp add: reset_record_error_ok)
next
  case False
  let ?st = "sr_staging r"
  from False obtain g where g: "resolve_feature msg ?st f = Some g"
      "sr_staging_active r" "sn_feature_count ?st < unat (sr_staging_expected_features r)"
      "\<not> (\<exists>h\<in>set (features_of ?st). ft_feature_id h = ft_feature_id f)"
      "stage_feature msg f r = r\<lparr>sr_staging := ?st\<lparr>sn_features := (sn_features ?st)[sn_feature_count ?st := g],
         sn_feature_count := sn_feature_count ?st + 1\<rparr>\<rparr>"
    by (auto simp: stage_feature_def Let_def split: if_splits option.splits)
  have "feature_ok (tools_of ?st) g \<and> ft_feature_id g = ft_feature_id f"
    using resolve_feature_ok [OF g(1)] assms by (simp add: record_ok_def)
  with snapshot_ok_add_feature [of ?st g] assms(1) g show ?thesis by (simp add: record_ok_def)
qed

lemma commit_staging_ok:
  "record_ok r \<Longrightarrow> sr_staging_active r \<Longrightarrow> record_ok (commit_staging now r)"
  by (simp add: record_ok_def commit_staging_def Let_def)

lemma find_locked_Some:
  "runtime_ok rt \<Longrightarrow> schema_runtime_find_locked rt d = Some i \<Longrightarrow>
     i < length (rt_records rt) \<and> sr_used (rt_records rt ! i) \<and> sn_device_id (sr_committed (rt_records rt ! i)) = d \<and>
     record_ok (rt_records rt ! i)"
  unfolding schema_runtime_find_locked_def by (drule find_index_SomeD) (simp add: runtime_ok_def)

lemma update_record_ok:
  "\<lbrakk>runtime_ok rt; record_ok (f (rt_records rt ! i))\<rbrakk> \<Longrightarrow> runtime_ok (update_record rt i f)"
  by (auto simp: runtime_ok_def update_record_def dest: set_update_subset_insert [THEN subsetD])

lemma handle_begin_ok: "runtime_ok rt \<Longrightarrow> runtime_ok (handle_begin lock d msg rt)"
  using find_locked_Some [of rt d]
  by (auto simp: handle_begin_def split: option.splits intro!: update_record_ok begin_staging_ok)

lemma handle_tool_item_ok: "runtime_ok rt \<Longrightarrow> runtime_ok (handle_tool_item lock d msg rt)"
  using find_locked_Some [of rt d]
  by (auto simp: handle_tool_item_def Let_def split: option.splits intro!: update_record_ok stage_tool_ok)

lemma takeWhile_take: "takeWhile P (take n xs) = take n (takeWhile P xs)"
proof (induction xs arbitrary: n)
  case Nil
  then show ?case by simp
next
  case (Cons x xs)
  then show ?case by (cases n) auto
qed

lemma message_feature_id:
  "schema_valid_feature_id (m_feature_id msg) \<Longrightarrow> schema_valid_feature_id (ft_feature_id (message_feature msg))"
proof -
  assume v: "schema_valid_feature_id (m_feature_id msg)"
  then have l: "0 < length (cstr (m_feature_id msg))" "length (cstr (m_feature_id msg)) < 32"
    by (auto simp: schema_valid_feature_id_def strnlen_def Let_def min_def split: if_splits)
  have "cstr (strlcpy 32 (m_feature_id msg)) = cstr (m_feature_id msg)"
    using l(2) unfolding cstr_def strlcpy_def
    by (simp add: takeWhile_take)
  with l show ?thesis by (simp add: schema_valid_feature_id_def message_feature_def strnlen_def)
qed

lemma handle_feature_item_ok: "runtime_ok rt \<Longrightarrow> runtime_ok (handle_feature_item lock d msg rt)"
  using find_locked_Some [of rt d] message_feature_id [of msg]
  by (auto simp: handle_feature_item_def split: option.splits intro!: update_record_ok stage_feature_ok)
    (simp add: message_feature_def)

lemma persist_commit_ok: "runtime_ok rt \<Longrightarrow> runtime_ok (persist_commit env d ch c rt)"
proof -
  assume ok: "runtime_ok rt"
  have "record_ok (r\<lparr>sr_persist_dirty := b\<rparr>) = record_ok r" for r b by (simp add: record_ok_def)
  with ok find_locked_Some [OF ok, of d] show ?thesis
    by (auto simp: persist_commit_def Let_def split: option.splits intro!: update_record_ok)
qed

lemma handle_end_ok: "runtime_ok rt \<Longrightarrow> runtime_ok (fst (handle_end env d msg rt))"
  using find_locked_Some [of rt d]
  by (auto simp: handle_end_def Let_def staging_complete_def split: option.splits
      intro!: update_record_ok reset_record_error_ok persist_commit_ok commit_staging_ok)

lemma handle_message_ok: "runtime_ok rt \<Longrightarrow> runtime_ok (fst (schema_protocol_handle_message env d msg rt))"
  by (simp add: schema_protocol_handle_message_def handle_begin_ok handle_tool_item_ok
      handle_feature_item_ok handle_end_ok)

text \<open>A stream of messages from any devices.\<close>

fun handle_stream :: "(end_env \<times> string \<times> gw_message) list \<Rightarrow> schema_runtime \<Rightarrow> schema_runtime" where
  "handle_stream [] rt = rt"
| "handle_stream ((env, d, msg) # ms) rt = handle_stream ms (fst (schema_protocol_handle_message env d msg rt))"

lemma handle_stream_ok: "runtime_ok rt \<Longrightarrow> runtime_ok (handle_stream ms rt)"
  by (induction ms rt rule: handle_stream.induct) (auto intro: handle_message_ok)

lemma schema_runtime_reset_ok: "runtime_ok (schema_runtime_reset rt)"
  by (simp add: runtime_ok_def schema_runtime_reset_def record_ok_def zero_record_def zero_snapshot_def snapshot_ok_def)

text \<open>
  C3. No device can damage the schema table. Whatever messages arrive, from whichever devices, in
  whatever order, with whatever lock, allocation and flash outcomes, every record stays well formed:
  all array indices in range, every tool valid (an integer tool has a range and a non-zero step), no
  command or feature twice, every feature of the type its property prescribes and its tool index,
  if any, naming a staged tool of the same value type.
\<close>

theorem schema_stream_keeps_wellformed:
  assumes "runtime_ok rt"
  shows "runtime_ok (handle_stream ms rt)"
  using assms by (rule handle_stream_ok)

definition demo_runtime :: schema_runtime where
  "demo_runtime =
     \<lparr>rt_records = (fresh_record ''lamp'')\<lparr>sr_operation_state := SCHEMA_OP_RUNNING\<rparr> # replicate 15 zero_record,
      rt_has_submitter = True, rt_listener1 = Some (1, 0), rt_listener2 = None, rt_listener3 = None,
      rt_owner = zero_owner, rt_next_operation_id = 1, rt_next_generation = 0, rt_initialized = True\<rparr>"

definition demo_env :: end_env where
  "demo_env = \<lparr>ee_alloc = True, ee_now_ms = 5, ee_lock = True, ee_lock_index = True, ee_lock_persist = True,
               ee_persist = (\<lambda>_ _. ESP_OK)\<rparr>"

definition lamp_message :: "string \<Rightarrow> gw_message" where
  "lamp_message t = zero_message\<lparr>m_protocol_version := 4, m_type := t, m_has_device_id := True,
     m_device_id := ''lamp'', m_snapshot_id := 9, m_has_snapshot_id := True\<rparr>"

definition lamp_stream :: "gw_message list" where
  "lamp_stream =
     [(lamp_message ''capabilities_begin'')\<lparr>m_total := 1, m_has_total := True, m_capability_revision := 3,
        m_has_capability_revision := True, m_feature_total := 1, m_has_feature_total := True\<rparr>,
      (lamp_message ''capability_item'')\<lparr>m_command := ''set_level'', m_sequence := 0, m_has_sequence := True,
        m_value_type := 2, m_has_value_type := True, m_min_value := 0, m_has_min_value := True,
        m_max_value := 100, m_has_max_value := True, m_step := 5, m_has_step := True\<rparr>,
      (lamp_message ''feature_item'')\<lparr>m_feature_id := ''dim'', m_has_feature_id := True, m_feature_type := 12,
        m_has_feature_type := True, m_feature_schema_version := 1, m_has_feature_schema_version := True,
        m_property_id := 2, m_has_property_id := True, m_value_type := 2, m_has_value_type := True,
        m_sequence := 1, m_has_sequence := True, m_feature_tool := ''set_level'', m_has_feature_tool := True\<rparr>,
      (lamp_message ''capabilities_end'')\<lparr>m_total := 1, m_has_total := True\<rparr>]"

definition demo_rt :: schema_runtime where
  "demo_rt = handle_stream (map (\<lambda>m. (demo_env, ''lamp'', m)) lamp_stream) demo_runtime"

lemma demo_runtime_ok: "runtime_ok demo_runtime"
  by (simp add: runtime_ok_def demo_runtime_def record_ok_def fresh_record_def zero_record_def zero_snapshot_def
      snapshot_ok_def)

theorem schema_stream_keeps_wellformed_witness:
  "runtime_ok demo_rt \<and> map tl_command (tools_of (sr_committed (hd (rt_records demo_rt)))) = [''set_level'']"
proof
  show "runtime_ok demo_rt"
    unfolding demo_rt_def by (rule schema_stream_keeps_wellformed [OF demo_runtime_ok])
  show "map tl_command (tools_of (sr_committed (hd (rt_records demo_rt)))) = [''set_level'']"
    by code_simp
qed

section \<open>Commands against the schema\<close>

definition value_conforms :: "device_schema_tool \<Rightarrow> gw_message \<Rightarrow> bool" where
  "value_conforms t msg \<longleftrightarrow>
     (tl_value_type t = 0 \<and> \<not> m_has_int_value msg \<and> \<not> m_has_bool_value msg) \<or>
     (tl_value_type t = 1 \<and> m_has_bool_value msg \<and> \<not> m_has_int_value msg) \<or>
     (tl_value_type t = 2 \<and> m_has_int_value msg \<and> \<not> m_has_bool_value msg \<and>
      tl_min_value t \<le> m_int_value msg \<and> m_int_value msg \<le> tl_max_value t \<and>
      uint (tl_step t) dvd m_int_value msg - tl_min_value t)"

definition command_conforms :: "device_schema_snapshot \<Rightarrow> gw_message \<Rightarrow> bool" where
  "command_conforms c msg \<longleftrightarrow>
     (\<exists>k < length (tools_of c). tl_command (tools_of c ! k) = m_command msg \<and> value_conforms (tools_of c ! k) msg \<and>
        (m_has_feature_id msg \<longleftrightarrow> m_has_property_id msg) \<and>
        (m_has_feature_id msg \<longrightarrow>
           (\<exists>f\<in>set (features_of c). ft_feature_id f = m_feature_id msg \<and> ft_property_id f = m_property_id msg \<and>
              ft_writable_tool_index f = int k)))"

lemma valid_tool_type:
  "schema_valid_tool t \<Longrightarrow> tl_value_type t = 0 \<or> tl_value_type t = 1 \<or> tl_value_type t = 2 \<and> tl_step t \<noteq> 0"
proof -
  assume v: "schema_valid_tool t"
  then have "\<not> 2 < tl_value_type t" by (auto simp: schema_valid_tool_def split: if_splits)
  then have "unat (tl_value_type t) \<le> 2" by (simp add: word_less_nat_alt not_less)
  then have "unat (tl_value_type t) = unat (0 :: u8) \<or> unat (tl_value_type t) = unat (1 :: u8) \<or>
      unat (tl_value_type t) = unat (2 :: u8)"
    by simp linarith
  then have "tl_value_type t = 0 \<or> tl_value_type t = 1 \<or> tl_value_type t = 2"
    by (metis unsigned_word_eqI)
  with v show ?thesis by (auto simp: schema_valid_tool_def split: if_splits)
qed

lemma validate_value_iff:
  assumes "schema_valid_tool t"
  shows "\<exists>v. validate_value t msg = Some v \<and> (v = DEVICE_SCHEMA_VALID \<longleftrightarrow> value_conforms t msg)"
  using valid_tool_type [OF assms]
  by (elim disjE conjE) (simp_all add: validate_value_def value_conforms_def Let_def mod_eq_0_iff_dvd not_less)

lemma ex_unique_index:
  "\<lbrakk>k < n; A k; \<And>j. j < n \<Longrightarrow> A j \<Longrightarrow> j = k\<rbrakk> \<Longrightarrow> (\<exists>j < n. A j \<and> B j) \<longleftrightarrow> B (k :: nat)"
  by blast


definition level_command :: "int \<Rightarrow> gw_message" where
  "level_command v = zero_message\<lparr>m_has_device_id := True, m_device_id := ''lamp'', m_command := ''set_level'',
     m_int_value := v, m_has_int_value := True\<rparr>"


end
