(* ===== verification/Command_Request.thy ===== *)
theory Command_Request
  imports Device_Schema
begin

text \<open>
  Validation of a command request and the wire message built from it
  (\<open>device_command_service/device_command_request.c\<close>). Control commands are checked against the
  device's schema, the other origins against their own short lists of commands.
\<close>

section \<open>Settings commands\<close>

definition GW_SETTINGS_CMD_DESCRIBE_SETTINGS :: string where "GW_SETTINGS_CMD_DESCRIBE_SETTINGS = ''describe_settings''"
definition GW_SETTINGS_CMD_READ_SETTINGS :: string where "GW_SETTINGS_CMD_READ_SETTINGS = ''read_settings''"
definition GW_SETTINGS_CMD_TX_BEGIN :: string where "GW_SETTINGS_CMD_TX_BEGIN = ''settings_tx_begin''"
definition GW_SETTINGS_CMD_TX_SET :: string where "GW_SETTINGS_CMD_TX_SET = ''settings_tx_set''"
definition GW_SETTINGS_CMD_TX_COMMIT :: string where "GW_SETTINGS_CMD_TX_COMMIT = ''settings_tx_commit''"
definition GW_SETTINGS_CMD_TX_ABORT :: string where "GW_SETTINGS_CMD_TX_ABORT = ''settings_tx_abort''"
definition GW_SETTINGS_CMD_COMMIT_CONFIRM :: string where "GW_SETTINGS_CMD_COMMIT_CONFIRM = ''settings_commit_confirm''"

definition settings_string_is_terminated :: "string \<Rightarrow> nat \<Rightarrow> bool" where
  "settings_string_is_terminated value capacity \<longleftrightarrow> strnlen value capacity < capacity"

definition settings_value_is_valid :: "device_command_settings_payload \<Rightarrow> bool" where
  "settings_value_is_valid settings =
     (if \<not> sp_has_setting_value settings then False
      else if sp_setting_type settings = GW_SETTING_TYPE_BOOL \<or> sp_setting_type settings = GW_SETTING_TYPE_INT \<or>
              sp_setting_type settings = GW_SETTING_TYPE_ENUM then True
      else if sp_setting_type settings = GW_SETTING_TYPE_STRING then
        settings_string_is_terminated (sp_string_value settings) GW_SETTINGS_VALUE_MAX_LEN
      else False)"

definition settings_id_is_valid :: "device_command_settings_payload \<Rightarrow> bool" where
  "settings_id_is_valid settings \<longleftrightarrow>
     sp_has_setting_id settings \<and> cstr (sp_setting_id settings) \<noteq> [] \<and>
     settings_string_is_terminated (sp_setting_id settings) GW_FEATURE_ID_LEN"

definition is_settings_command :: "string \<Rightarrow> bool" where
  "is_settings_command command \<longleftrightarrow>
     command = GW_SETTINGS_CMD_DESCRIBE_SETTINGS \<or> command = GW_SETTINGS_CMD_READ_SETTINGS \<or>
     command = GW_SETTINGS_CMD_TX_BEGIN \<or> command = GW_SETTINGS_CMD_TX_SET \<or>
     command = GW_SETTINGS_CMD_TX_COMMIT \<or> command = GW_SETTINGS_CMD_TX_ABORT \<or>
     command = GW_SETTINGS_CMD_COMMIT_CONFIRM"

section \<open>The wire message\<close>

text \<open>\<open>if (b) { ... }\<close> on the message being filled in.\<close>

definition fill_if :: "bool \<Rightarrow> (gw_message \<Rightarrow> gw_message) \<Rightarrow> gw_message \<Rightarrow> gw_message" where
  "fill_if b f m = (if b then f m else m)"

definition wire_values :: "device_command_request \<Rightarrow> gw_message \<Rightarrow> gw_message" where
  "wire_values request m0 =
     (let m1 = fill_if (rq_has_bool_value request)
                 (\<lambda>m. m\<lparr>m_bool_value := (if rq_bool_value request then 1 else 0), m_has_bool_value := True\<rparr>) m0;
          m2 = fill_if (rq_has_int_value request)
                 (\<lambda>m. m\<lparr>m_int_value := rq_int_value request, m_has_int_value := True\<rparr>) m1;
          m3 = fill_if (rq_has_feature_id request)
                 (\<lambda>m. m\<lparr>m_feature_id := strlcpy GW_FEATURE_ID_LEN (rq_feature_id request), m_has_feature_id := True\<rparr>) m2
      in fill_if (rq_has_property_id request)
           (\<lambda>m. m\<lparr>m_property_id := rq_property_id request, m_has_property_id := True\<rparr>) m3)"

definition wire_setting_value :: "device_command_settings_payload \<Rightarrow> gw_message \<Rightarrow> gw_message" where
  "wire_setting_value settings m0 =
     (let ty = sp_setting_type settings;
          m1 = m0\<lparr>m_setting_type := ty, m_has_setting_type := True, m_has_setting_value := True\<rparr>;
          m2 = fill_if (ty = GW_SETTING_TYPE_BOOL) (\<lambda>m. m\<lparr>m_setting_value_bool := sp_bool_value settings\<rparr>) m1;
          m3 = fill_if (ty = GW_SETTING_TYPE_INT) (\<lambda>m. m\<lparr>m_setting_value_int := sp_int_value settings\<rparr>) m2;
          m4 = fill_if (ty = GW_SETTING_TYPE_ENUM) (\<lambda>m. m\<lparr>m_setting_value_enum := sp_enum_value settings\<rparr>) m3
      in fill_if (ty = GW_SETTING_TYPE_STRING)
           (\<lambda>m. m\<lparr>m_setting_value_string := strlcpy GW_SETTINGS_VALUE_MAX_LEN (cstr (sp_string_value settings))\<rparr>) m4)"

definition wire_settings :: "device_command_settings_payload \<Rightarrow> gw_message \<Rightarrow> gw_message" where
  "wire_settings settings m0 =
     (let m1 = fill_if (sp_has_transaction_id settings)
                 (\<lambda>m. m\<lparr>m_settings_transaction_id := sp_transaction_id settings,
                        m_has_settings_transaction_id := True\<rparr>) m0;
          m2 = fill_if (sp_has_expected_revision settings)
                 (\<lambda>m. m\<lparr>m_settings_expected_revision := sp_expected_revision settings,
                        m_has_settings_expected_revision := True\<rparr>) m1;
          m3 = fill_if (sp_has_new_revision settings)
                 (\<lambda>m. m\<lparr>m_settings_new_revision := sp_new_revision settings,
                        m_has_settings_new_revision := True\<rparr>) m2;
          m4 = fill_if (sp_has_setting_id settings)
                 (\<lambda>m. m\<lparr>m_setting_id := strlcpy GW_SETTINGS_CBOR_MAX_ID_LEN (cstr (sp_setting_id settings)),
                        m_has_setting_id := True\<rparr>) m3
      in fill_if (sp_has_setting_value settings) (wire_setting_value settings) m4)"

definition dcs_build_wire_message :: "device_command_request \<Rightarrow> u32 \<Rightarrow> gw_message" where
  "dcs_build_wire_message request request_id =
     wire_settings (rq_settings request)
       (wire_values request
          (zero_message\<lparr>m_protocol_version := GW_PROTOCOL_VERSION,
                        m_type := strlcpy GW_MSG_TYPE_LEN ''device_command'',
                        m_device_id := strlcpy GW_MSG_DEVICE_ID_LEN (rq_device_id request),
                        m_command := strlcpy GW_MSG_COMMAND_LEN (rq_command request),
                        m_has_device_id := True, m_request_id := request_id, m_has_request_id := True\<rparr>))"

section \<open>Validation\<close>

definition settings_request_status :: "device_command_request \<Rightarrow> device_command_status" where
  "settings_request_status request =
     (let c = rq_command request; s = rq_settings request
      in if \<not> is_settings_command c then DEVICE_CMD_STATUS_UNSUPPORTED_COMMAND
         else if rq_has_bool_value request \<or> rq_has_int_value request \<or> rq_has_feature_id request \<or>
                 rq_has_property_id request then DEVICE_CMD_STATUS_INVALID_ARGUMENT
         else if c = GW_SETTINGS_CMD_TX_BEGIN then
           (if \<not> sp_has_transaction_id s \<or> \<not> sp_has_expected_revision s
            then DEVICE_CMD_STATUS_INVALID_ARGUMENT else DEVICE_CMD_STATUS_OK)
         else if c = GW_SETTINGS_CMD_TX_SET then
           (if \<not> sp_has_transaction_id s \<or> \<not> settings_id_is_valid s \<or> \<not> settings_value_is_valid s
            then DEVICE_CMD_STATUS_INVALID_ARGUMENT else DEVICE_CMD_STATUS_OK)
         else if c = GW_SETTINGS_CMD_TX_COMMIT \<or> c = GW_SETTINGS_CMD_TX_ABORT then
           (if \<not> sp_has_transaction_id s then DEVICE_CMD_STATUS_INVALID_ARGUMENT else DEVICE_CMD_STATUS_OK)
         else if c = GW_SETTINGS_CMD_COMMIT_CONFIRM then
           (if \<not> sp_has_transaction_id s \<or> \<not> sp_has_new_revision s
            then DEVICE_CMD_STATUS_INVALID_ARGUMENT else DEVICE_CMD_STATUS_OK)
         else DEVICE_CMD_STATUS_OK)"

text \<open>\<open>validate\<close> is \<open>device_schema_validate_command\<close> on the state of the schema table at the call.\<close>

definition dcs_validate_request ::
    "(gw_message \<Rightarrow> device_schema_validation) \<Rightarrow> device_command_request \<Rightarrow> gw_message \<Rightarrow> device_command_status" where
  "dcs_validate_request validate request wire_message =
     (if rq_device_id request = [] then DEVICE_CMD_STATUS_INVALID_ARGUMENT
      else case rq_origin request of
             DEVICE_CMD_ORIGIN_CONTROL \<Rightarrow>
               if rq_command request = [] then DEVICE_CMD_STATUS_INVALID_ARGUMENT
               else (case validate wire_message of
                       DEVICE_SCHEMA_VALID_UNKNOWN \<Rightarrow> DEVICE_CMD_STATUS_SCHEMA_NOT_READY
                     | DEVICE_SCHEMA_VALID_UNSUPPORTED_COMMAND \<Rightarrow> DEVICE_CMD_STATUS_UNSUPPORTED_COMMAND
                     | DEVICE_SCHEMA_VALID_TYPE_MISMATCH \<Rightarrow> DEVICE_CMD_STATUS_TYPE_MISMATCH
                     | DEVICE_SCHEMA_VALID_RANGE_ERROR \<Rightarrow> DEVICE_CMD_STATUS_RANGE_ERROR
                     | DEVICE_SCHEMA_VALID_ARGUMENT \<Rightarrow> DEVICE_CMD_STATUS_INVALID_ARGUMENT
                     | DEVICE_SCHEMA_VALID \<Rightarrow> DEVICE_CMD_STATUS_OK)
           | DEVICE_CMD_ORIGIN_SCHEMA_DISCOVERY \<Rightarrow>
               if rq_command request \<noteq> ''describe_capabilities'' then DEVICE_CMD_STATUS_UNSUPPORTED_COMMAND
               else DEVICE_CMD_STATUS_OK
           | DEVICE_CMD_ORIGIN_STATE_READ \<Rightarrow>
               if rq_command request \<noteq> ''read_feature_state'' then DEVICE_CMD_STATUS_UNSUPPORTED_COMMAND
               else if \<not> rq_has_feature_id request \<or> rq_feature_id request = [] \<or> \<not> rq_has_property_id request
               then DEVICE_CMD_STATUS_INVALID_ARGUMENT
               else DEVICE_CMD_STATUS_OK
           | DEVICE_CMD_ORIGIN_SETTINGS \<Rightarrow> settings_request_status request)"

definition schema_verdict :: "bool \<Rightarrow> schema_runtime \<Rightarrow> gw_message \<Rightarrow> device_schema_validation" where
  "schema_verdict lock rt msg = fst (the (device_schema_validate_command lock rt (Some msg)))"

lemma fill_if_fields:
  "(\<And>m. m_type (f m) = m_type m) \<Longrightarrow> m_type (fill_if b f m) = m_type m"
  "(\<And>m. m_device_id (f m) = m_device_id m) \<Longrightarrow> m_device_id (fill_if b f m) = m_device_id m"
  "(\<And>m. m_command (f m) = m_command m) \<Longrightarrow> m_command (fill_if b f m) = m_command m"
  "(\<And>m. m_request_id (f m) = m_request_id m) \<Longrightarrow> m_request_id (fill_if b f m) = m_request_id m"
  "(\<And>m. m_has_request_id (f m) = m_has_request_id m) \<Longrightarrow> m_has_request_id (fill_if b f m) = m_has_request_id m"
  by (simp_all add: fill_if_def)

lemma wire_setting_value_fields:
  "m_type (wire_setting_value s m) = m_type m"
  "m_device_id (wire_setting_value s m) = m_device_id m"
  "m_command (wire_setting_value s m) = m_command m"
  "m_request_id (wire_setting_value s m) = m_request_id m"
  "m_has_request_id (wire_setting_value s m) = m_has_request_id m"
  by (simp_all add: wire_setting_value_def Let_def fill_if_fields)

lemma wire_message_fields:
  "m_type (dcs_build_wire_message rq i) = ''device_command''"
  "m_device_id (dcs_build_wire_message rq i) = strlcpy GW_MSG_DEVICE_ID_LEN (rq_device_id rq)"
  "m_command (dcs_build_wire_message rq i) = strlcpy GW_MSG_COMMAND_LEN (rq_command rq)"
  "m_request_id (dcs_build_wire_message rq i) = i"
  "m_has_request_id (dcs_build_wire_message rq i)"
  by (simp_all add: dcs_build_wire_message_def wire_settings_def wire_values_def Let_def fill_if_fields
      wire_setting_value_fields)

end
