(* ===== verification/Command_Service.thy ===== *)
theory Command_Service
  imports Command_Request "HOL-Library.Multiset"
begin

text \<open>
  The command service (\<open>device_command_service/\<close>): one task that owns four pending slots, fed by a
  queue of eight submissions and a queue of eight urgent events (acknowledgements, disconnects,
  cancellations, shutdown). Only the task touches the slots; the public functions only enqueue.

  \<^item> A completion callback is a function pointer with a context; a handler returns the calls it makes.
  \<^item> What a handler reads from outside (the clock, the link state, the outcome of the send, the
    schema) is an argument, the record \<open>submit_env\<close> or a time.
  \<^item> A queue is a list, \<^term>\<open>None\<close> when it does not exist; FreeRTOS queues hold at most their length
    and a send to a full queue fails (the bounded waits of 100 ms end in the same failure).
\<close>

section \<open>Data\<close>

abbreviation DCS_QUEUE_LEN :: nat where "DCS_QUEUE_LEN \<equiv> 8"
abbreviation DCS_URGENT_QUEUE_LEN :: nat where "DCS_URGENT_QUEUE_LEN \<equiv> 8"
abbreviation DCS_MAX_PENDING :: nat where "DCS_MAX_PENDING \<equiv> 4"
abbreviation DCS_ACK_TIMEOUT_MS :: int where "DCS_ACK_TIMEOUT_MS \<equiv> 2000"

record dcs_submit_event =
  se_request :: device_command_request
  se_completion :: "nat option"
  se_context :: nat

record dcs_ack_event =
  ak_device_id :: string
  ak_request_id :: u32
  ak_command :: string
  ak_accepted :: bool
  ak_has_bool_value :: bool
  ak_bool_value :: bool
  ak_has_int_value :: bool
  ak_int_value :: int
  ak_has_feature_value_bool :: bool
  ak_feature_value_bool :: bool
  ak_has_feature_value_int :: bool
  ak_feature_value_int :: int

text \<open>The urgent event with the member of its union that its type selects.\<close>

datatype dcs_urgent_event =
    DCS_URGENT_EVENT_ACK int dcs_ack_event
  | DCS_URGENT_EVENT_DISCONNECT string
  | DCS_URGENT_EVENT_CANCEL string
  | DCS_URGENT_EVENT_SHUTDOWN

record dcs_pending_slot =
  ps_in_use :: bool
  ps_request_id :: u32
  ps_device_id :: string
  ps_command :: string
  ps_origin :: device_command_origin
  ps_completion :: "nat option"
  ps_context :: nat
  ps_deadline_us :: int
  ps_has_bool_value :: bool
  ps_bool_value :: bool
  ps_has_int_value :: bool
  ps_int_value :: int
  ps_has_feature_id :: bool
  ps_feature_id :: string
  ps_has_property_id :: bool
  ps_property_id :: u8

definition zero_pending :: dcs_pending_slot where
  "zero_pending =
     \<lparr>ps_in_use = False, ps_request_id = 0, ps_device_id = [], ps_command = [],
      ps_origin = DEVICE_CMD_ORIGIN_CONTROL, ps_completion = None, ps_context = 0, ps_deadline_us = 0,
      ps_has_bool_value = False, ps_bool_value = False, ps_has_int_value = False, ps_int_value = 0,
      ps_has_feature_id = False, ps_feature_id = [], ps_has_property_id = False, ps_property_id = 0\<rparr>"

record dcs_completed_ack =
  ca_device_id :: string
  ca_request_id :: u32
  ca_command :: string

record device_command_service_stats =
  sx_submitted :: u32
  sx_completed_ok :: u32
  sx_completed_error :: u32
  sx_busy_rejections :: u32
  sx_timeout_count :: u32
  sx_disconnect_count :: u32
  sx_transport_errors :: u32
  sx_queue_full :: u32
  sx_urgent_queue_full :: u32
  sx_ack_received :: u32
  sx_ack_unmatched :: u32
  sx_ack_duplicate :: u32
  sx_ack_dispatch_latency_max_us :: u32
  sx_max_pending :: u32

definition zero_stats :: device_command_service_stats where
  "zero_stats =
     \<lparr>sx_submitted = 0, sx_completed_ok = 0, sx_completed_error = 0, sx_busy_rejections = 0,
      sx_timeout_count = 0, sx_disconnect_count = 0, sx_transport_errors = 0, sx_queue_full = 0,
      sx_urgent_queue_full = 0, sx_ack_received = 0, sx_ack_unmatched = 0, sx_ack_duplicate = 0,
      sx_ack_dispatch_latency_max_us = 0, sx_max_pending = 0\<rparr>"

record dcs_state =
  dc_normal_queue :: "dcs_submit_event list option"
  dc_urgent_queue :: "dcs_urgent_event list option"
  dc_running :: bool
  dc_task_stopped :: bool
  dc_pending :: "dcs_pending_slot list"
  dc_completed_acks :: "dcs_completed_ack list"
  dc_completed_ack_next :: u32
  dc_next_request_id :: u32
  dc_stats :: device_command_service_stats

type_synonym completion_call = "nat \<times> nat \<times> device_command_result"

section \<open>Pending slots (\<open>device_command_pending.c\<close>)\<close>

definition dcs_pending_reset :: "dcs_state \<Rightarrow> dcs_state" where
  "dcs_pending_reset s =
     s\<lparr>dc_pending := replicate DCS_MAX_PENDING zero_pending,
       dc_completed_acks := replicate DCS_MAX_PENDING \<lparr>ca_device_id = [], ca_request_id = 0, ca_command = []\<rparr>,
       dc_completed_ack_next := 0, dc_next_request_id := 0\<rparr>"

definition dcs_pending_note_completed_ack :: "dcs_pending_slot \<Rightarrow> dcs_state \<Rightarrow> dcs_state" where
  "dcs_pending_note_completed_ack slot s =
     s\<lparr>dc_completed_acks := (dc_completed_acks s)[unat (dc_completed_ack_next s) mod DCS_MAX_PENDING :=
          \<lparr>ca_device_id = strlcpy GW_MSG_DEVICE_ID_LEN (ps_device_id slot), ca_request_id = ps_request_id slot,
           ca_command = strlcpy GW_MSG_COMMAND_LEN (ps_command slot)\<rparr>],
       dc_completed_ack_next := dc_completed_ack_next s + 1\<rparr>"

definition dcs_pending_is_duplicate_ack :: "dcs_state \<Rightarrow> dcs_ack_event \<Rightarrow> bool" where
  "dcs_pending_is_duplicate_ack s ack \<longleftrightarrow>
     (\<exists>e\<in>set (dc_completed_acks s). ca_request_id e = ak_request_id ack \<and>
        ca_device_id e = ak_device_id ack \<and> ca_command e = ak_command ack)"

definition dcs_pending_find_device :: "dcs_state \<Rightarrow> string \<Rightarrow> nat option" where
  "dcs_pending_find_device s device_id =
     find_index (\<lambda>p. ps_in_use p \<and> ps_device_id p = device_id) (dc_pending s)"

definition dcs_pending_find_id :: "dcs_state \<Rightarrow> string \<Rightarrow> u32 \<Rightarrow> nat option" where
  "dcs_pending_find_id s device_id request_id =
     find_index (\<lambda>p. ps_in_use p \<and> ps_device_id p = device_id \<and> ps_request_id p = request_id) (dc_pending s)"

definition dcs_pending_allocate :: "dcs_state \<Rightarrow> nat option" where
  "dcs_pending_allocate s = find_index (\<lambda>p. \<not> ps_in_use p) (dc_pending s)"

text \<open>
  One pass of the \<open>do ... while (collision)\<close> loop takes the next non-zero counter value. The loop has
  fuel; five passes always suffice for four slots.
\<close>

fun next_id_loop :: "nat \<Rightarrow> dcs_pending_slot list \<Rightarrow> u32 \<Rightarrow> u32 option" where
  "next_id_loop 0 ps counter = None"
| "next_id_loop (Suc fuel) ps counter =
     (let id = bump_nonzero counter
      in if \<exists>p\<in>set ps. ps_in_use p \<and> ps_request_id p = id then next_id_loop fuel ps id else Some id)"

definition dcs_pending_next_request_id :: "dcs_state \<Rightarrow> dcs_state \<times> u32" where
  "dcs_pending_next_request_id s =
     (let id = the (next_id_loop (DCS_MAX_PENDING + 1) (dc_pending s) (dc_next_request_id s))
      in (s\<lparr>dc_next_request_id := id\<rparr>, id))"

definition dcs_pending_count :: "dcs_state \<Rightarrow> nat" where
  "dcs_pending_count s = count_if ps_in_use (dc_pending s)"

definition dcs_pending_complete :: "nat \<Rightarrow> device_command_result \<Rightarrow> dcs_state \<Rightarrow> dcs_state \<times> completion_call list" where
  "dcs_pending_complete i result s =
     (let slot = dc_pending s ! i
      in (s\<lparr>dc_pending := (dc_pending s)[i := zero_pending]\<rparr>,
          case ps_completion slot of Some fn \<Rightarrow> [(fn, ps_context slot, result)] | None \<Rightarrow> []))"

definition dcs_pending_complete_status ::
    "nat \<Rightarrow> device_command_status \<Rightarrow> dcs_state \<Rightarrow> dcs_state \<times> completion_call list" where
  "dcs_pending_complete_status i status s =
     dcs_pending_complete i
       (zero_result\<lparr>rs_status := status, rs_request_id := ps_request_id (dc_pending s ! i)\<rparr>) s"

definition dcs_stats_map :: "(device_command_service_stats \<Rightarrow> device_command_service_stats) \<Rightarrow> dcs_state \<Rightarrow> dcs_state" where
  "dcs_stats_map f s = s\<lparr>dc_stats := f (dc_stats s)\<rparr>"

section \<open>The public functions (\<open>device_command_service.c\<close>, \<open>device_command_urgent.c\<close>)\<close>

definition dcs_urgent_enqueue :: "dcs_urgent_event \<Rightarrow> dcs_state \<Rightarrow> dcs_state \<times> bool" where
  "dcs_urgent_enqueue event s =
     (case dc_urgent_queue s of
        Some q \<Rightarrow>
          if length q < DCS_URGENT_QUEUE_LEN then (s\<lparr>dc_urgent_queue := Some (q @ [event])\<rparr>, True)
          else (dcs_stats_map (\<lambda>t. t\<lparr>sx_urgent_queue_full := sx_urgent_queue_full t + 1\<rparr>) s, False)
      | None \<Rightarrow> (s, False))"

definition device_command_service_init :: "bool \<Rightarrow> bool \<Rightarrow> bool \<Rightarrow> dcs_state \<Rightarrow> dcs_state \<times> esp_err" where
  "device_command_service_init normal_ok urgent_ok task_ok s =
     (if dc_normal_queue s \<noteq> None then (s, ESP_ERR_INVALID_STATE)
      else
        let s1 = (dcs_pending_reset s)\<lparr>dc_stats := zero_stats\<rparr>
        in if \<not> normal_ok \<or> \<not> urgent_ok
           then (s1\<lparr>dc_normal_queue := None, dc_urgent_queue := None\<rparr>, ESP_ERR_NO_MEM)
           else
             let s2 = s1\<lparr>dc_normal_queue := Some [], dc_urgent_queue := Some [], dc_running := True,
                         dc_task_stopped := False\<rparr>
             in if \<not> task_ok then (s2\<lparr>dc_normal_queue := None, dc_urgent_queue := None\<rparr>, ESP_ERR_NO_MEM)
                else (s2, ESP_OK))"

definition device_command_service_submit ::
    "device_command_request option \<Rightarrow> nat option \<Rightarrow> nat \<Rightarrow> dcs_state \<Rightarrow> dcs_state \<times> esp_err" where
  "device_command_service_submit request completion context s =
     (case (request, completion) of
        (Some rq, Some fn) \<Rightarrow>
          (case dc_normal_queue s of
             None \<Rightarrow> (s, ESP_ERR_INVALID_STATE)
           | Some q \<Rightarrow>
               if \<not> dc_running s then (s, ESP_ERR_INVALID_STATE)
               else if DCS_QUEUE_LEN \<le> length q
               then (dcs_stats_map (\<lambda>t. t\<lparr>sx_queue_full := sx_queue_full t + 1\<rparr>) s, ESP_ERR_NO_MEM)
               else (s\<lparr>dc_normal_queue := Some (q @ [\<lparr>se_request = rq, se_completion = Some fn, se_context = context\<rparr>])\<rparr>,
                     ESP_OK))
      | _ \<Rightarrow> (s, ESP_ERR_INVALID_ARG))"

definition message_ack :: "string \<Rightarrow> gw_message \<Rightarrow> dcs_ack_event" where
  "message_ack device_id msg =
     \<lparr>ak_device_id = strlcpy GW_MSG_DEVICE_ID_LEN device_id, ak_request_id = m_request_id msg,
      ak_command = strlcpy GW_MSG_COMMAND_LEN (m_command msg), ak_accepted = (m_bool_value msg \<noteq> 0),
      ak_has_bool_value = m_has_bool_value msg, ak_bool_value = (m_bool_value msg \<noteq> 0),
      ak_has_int_value = m_has_int_value msg, ak_int_value = m_int_value msg,
      ak_has_feature_value_bool = m_has_feature_value_bool msg, ak_feature_value_bool = m_feature_value_bool msg,
      ak_has_feature_value_int = m_has_feature_value_int msg, ak_feature_value_int = m_feature_value_int msg\<rparr>"

definition device_command_service_on_notify ::
    "int \<Rightarrow> string option \<Rightarrow> gw_message option \<Rightarrow> dcs_state \<Rightarrow> dcs_state \<times> bool" where
  "device_command_service_on_notify now_us device_id message s =
     (case (device_id, message) of
        (Some dev, Some msg) \<Rightarrow>
          if m_type msg \<noteq> ''device_ack'' \<or> \<not> m_has_request_id msg \<or> m_request_id msg = 0 \<or>
             dc_urgent_queue s = None \<or> \<not> dc_running s
          then (s, False)
          else dcs_urgent_enqueue (DCS_URGENT_EVENT_ACK now_us (message_ack dev msg)) s
      | _ \<Rightarrow> (s, False))"

definition device_command_service_on_disconnect :: "string option \<Rightarrow> dcs_state \<Rightarrow> dcs_state" where
  "device_command_service_on_disconnect device_id s =
     (case device_id of
        None \<Rightarrow> s
      | Some dev \<Rightarrow>
          if dev = [] \<or> dc_urgent_queue s = None \<or> \<not> dc_running s then s
          else fst (dcs_urgent_enqueue (DCS_URGENT_EVENT_DISCONNECT (strlcpy GW_MSG_DEVICE_ID_LEN dev)) s))"

definition device_command_service_cancel_device :: "string option \<Rightarrow> dcs_state \<Rightarrow> dcs_state \<times> esp_err" where
  "device_command_service_cancel_device device_id s =
     (case device_id of
        None \<Rightarrow> (s, ESP_ERR_INVALID_ARG)
      | Some dev \<Rightarrow>
          if dev = [] then (s, ESP_ERR_INVALID_ARG)
          else if dc_urgent_queue s = None \<or> \<not> dc_running s then (s, ESP_ERR_INVALID_STATE)
          else let (s', ok) = dcs_urgent_enqueue (DCS_URGENT_EVENT_CANCEL (strlcpy GW_MSG_DEVICE_ID_LEN dev)) s
               in (s', if ok then ESP_OK else ESP_ERR_NO_MEM))"

text \<open>The first half of \<open>device_command_service_deinit\<close>: ask the task to stop.\<close>

definition dcs_request_shutdown :: "dcs_state \<Rightarrow> dcs_state" where
  "dcs_request_shutdown s =
     (case dc_normal_queue s of
        None \<Rightarrow> s
      | Some _ \<Rightarrow>
          let (s', ok) = dcs_urgent_enqueue DCS_URGENT_EVENT_SHUTDOWN s
          in if ok then s' else s'\<lparr>dc_running := False\<rparr>)"

text \<open>The second half, after the wait for the task: both queues are deleted with what they hold.\<close>

definition dcs_delete_queues :: "dcs_state \<Rightarrow> dcs_state" where
  "dcs_delete_queues s =
     (case dc_normal_queue s of
        None \<Rightarrow> s
      | Some _ \<Rightarrow> s\<lparr>dc_normal_queue := None, dc_urgent_queue := None\<rparr>)"

definition device_command_service_get_pending_count :: "dcs_state \<Rightarrow> nat" where
  "device_command_service_get_pending_count s = dcs_pending_count s"

definition device_command_service_get_stats :: "dcs_state \<Rightarrow> device_command_service_stats" where
  "device_command_service_get_stats s = dc_stats s"

section \<open>The task (\<open>device_command_worker.c\<close>)\<close>

definition complete_event :: "dcs_submit_event \<Rightarrow> device_command_status \<Rightarrow> completion_call list" where
  "complete_event event status =
     (case se_completion event of
        Some fn \<Rightarrow> [(fn, se_context event, zero_result\<lparr>rs_status := status\<rparr>)] | None \<Rightarrow> [])"

record submit_env =
  sv_now_us :: int
  sv_is_connected :: "string \<Rightarrow> int"
  sv_send_command :: "string \<Rightarrow> gw_message \<Rightarrow> int"
  sv_validate :: "gw_message \<Rightarrow> device_schema_validation"

definition fill_slot :: "submit_env \<Rightarrow> dcs_submit_event \<Rightarrow> u32 \<Rightarrow> dcs_pending_slot \<Rightarrow> dcs_pending_slot" where
  "fill_slot env event request_id slot =
     (let request = se_request event;
          slot1 = slot\<lparr>ps_in_use := True, ps_request_id := request_id,
                       ps_device_id := strlcpy GW_MSG_DEVICE_ID_LEN (rq_device_id request),
                       ps_command := strlcpy GW_MSG_COMMAND_LEN (rq_command request),
                       ps_origin := rq_origin request, ps_completion := se_completion event,
                       ps_context := se_context event,
                       ps_deadline_us := sv_now_us env + DCS_ACK_TIMEOUT_MS * 1000,
                       ps_has_bool_value := rq_has_bool_value request, ps_bool_value := rq_bool_value request,
                       ps_has_int_value := rq_has_int_value request, ps_int_value := rq_int_value request,
                       ps_has_feature_id := rq_has_feature_id request\<rparr>;
          slot2 = (if rq_has_feature_id request
                   then slot1\<lparr>ps_feature_id := strlcpy GW_FEATURE_ID_LEN (rq_feature_id request)\<rparr> else slot1)
      in slot2\<lparr>ps_has_property_id := rq_has_property_id request, ps_property_id := rq_property_id request\<rparr>)"

text \<open>The result of \<open>dcs_handle_submit\<close>: the completions it calls and the message it sends, if any.\<close>

definition dcs_handle_submit ::
    "submit_env \<Rightarrow> dcs_submit_event \<Rightarrow> dcs_state \<Rightarrow> dcs_state \<times> completion_call list \<times> (string \<times> gw_message) option" where
  "dcs_handle_submit env event s =
     (let request = se_request event;
          wire_message = (dcs_build_wire_message request 0)\<lparr>m_has_request_id := False\<rparr>;
          validation = dcs_validate_request (sv_validate env) request wire_message
      in if validation \<noteq> DEVICE_CMD_STATUS_OK then (s, complete_event event validation, None)
         else if sv_is_connected env (rq_device_id request) \<le> 0
         then (s, complete_event event DEVICE_CMD_STATUS_NOT_CONNECTED, None)
         else if dcs_pending_find_device s (rq_device_id request) \<noteq> None
         then (dcs_stats_map (\<lambda>t. t\<lparr>sx_busy_rejections := sx_busy_rejections t + 1\<rparr>) s,
               complete_event event DEVICE_CMD_STATUS_BUSY, None)
         else case dcs_pending_allocate s of
                None \<Rightarrow>
                  (dcs_stats_map (\<lambda>t. t\<lparr>sx_queue_full := sx_queue_full t + 1\<rparr>) s,
                   complete_event event DEVICE_CMD_STATUS_QUEUE_FULL, None)
              | Some i \<Rightarrow>
                  let s1 = s\<lparr>dc_pending := (dc_pending s)[i := (dc_pending s ! i)\<lparr>ps_in_use := True\<rparr>]\<rparr>;
                      (s2, request_id) = dcs_pending_next_request_id s1;
                      s3 = s2\<lparr>dc_pending := (dc_pending s2)[i := fill_slot env event request_id (dc_pending s2 ! i)]\<rparr>;
                      count = dcs_pending_count s3;
                      s4 = dcs_stats_map (\<lambda>t. if unat (sx_max_pending t) < count
                                              then t\<lparr>sx_max_pending := of_nat count\<rparr> else t) s3;
                      message = dcs_build_wire_message request request_id;
                      dev = ps_device_id (dc_pending s4 ! i)
                  in if sv_send_command env dev message \<noteq> 0 then
                       (let (s5, calls) = dcs_pending_complete_status i DEVICE_CMD_STATUS_TRANSPORT_ERROR
                              (dcs_stats_map (\<lambda>t. t\<lparr>sx_transport_errors := sx_transport_errors t + 1\<rparr>) s4)
                        in (s5, calls, Some (dev, message)))
                     else (dcs_stats_map (\<lambda>t. t\<lparr>sx_submitted := sx_submitted t + 1\<rparr>) s4, [], Some (dev, message)))"

definition ack_result :: "dcs_ack_event \<Rightarrow> dcs_pending_slot \<Rightarrow> device_command_result" where
  "ack_result ack slot =
     (let r0 = zero_result\<lparr>rs_request_id := ps_request_id slot\<rparr>
      in if ak_accepted ack then
           r0\<lparr>rs_status := DEVICE_CMD_STATUS_OK, rs_accepted := True,
              rs_has_bool_value := ak_has_bool_value ack,
              rs_bool_value := (ak_has_bool_value ack \<and> ak_bool_value ack),
              rs_has_int_value := ak_has_int_value ack,
              rs_int_value := (if ak_has_int_value ack then ak_int_value ack else 0),
              rs_has_feature_value_bool := ak_has_feature_value_bool ack,
              rs_feature_value_bool := (ak_has_feature_value_bool ack \<and> ak_feature_value_bool ack),
              rs_has_feature_value_int := ak_has_feature_value_int ack,
              rs_feature_value_int := (if ak_has_feature_value_int ack then ak_feature_value_int ack else 0)\<rparr>
         else r0\<lparr>rs_status := DEVICE_CMD_STATUS_REJECTED, rs_accepted := False\<rparr>)"

definition note_latency :: "int \<Rightarrow> int \<Rightarrow> dcs_state \<Rightarrow> dcs_state" where
  "note_latency now_us enqueued_us s =
     (if 0 < enqueued_us then
        let latency_us = word_of_int (now_us - enqueued_us) :: u32
        in dcs_stats_map (\<lambda>t. if sx_ack_dispatch_latency_max_us t < latency_us
                              then t\<lparr>sx_ack_dispatch_latency_max_us := latency_us\<rparr> else t) s
      else s)"

definition handle_ack :: "int \<Rightarrow> int \<Rightarrow> dcs_ack_event \<Rightarrow> dcs_state \<Rightarrow> dcs_state \<times> completion_call list" where
  "handle_ack now_us enqueued_us ack s0 =
     (let s = dcs_stats_map (\<lambda>t. t\<lparr>sx_ack_received := sx_ack_received t + 1\<rparr>) s0
      in if ak_request_id ack = 0 then (s, [])
         else case dcs_pending_find_id s (ak_device_id ack) (ak_request_id ack) of
                None \<Rightarrow>
                  let s1 = dcs_stats_map (\<lambda>t. t\<lparr>sx_ack_unmatched := sx_ack_unmatched t + 1\<rparr>) s
                  in (if dcs_pending_is_duplicate_ack s1 ack
                      then dcs_stats_map (\<lambda>t. t\<lparr>sx_ack_duplicate := sx_ack_duplicate t + 1\<rparr>) s1 else s1, [])
              | Some i \<Rightarrow>
                  let slot = dc_pending s ! i
                  in if ps_command slot \<noteq> ak_command ack then (s, [])
                     else
                       let s1 = note_latency now_us enqueued_us s;
                           s2 = dcs_stats_map (\<lambda>t. if ak_accepted ack
                                  then t\<lparr>sx_completed_ok := sx_completed_ok t + 1\<rparr>
                                  else t\<lparr>sx_completed_error := sx_completed_error t + 1\<rparr>) s1
                       in dcs_pending_complete i (ack_result ack slot) (dcs_pending_note_completed_ack slot s2))"

definition dcs_handle_disconnect :: "string \<Rightarrow> dcs_state \<Rightarrow> dcs_state \<times> completion_call list" where
  "dcs_handle_disconnect device_id s =
     (case dcs_pending_find_device s device_id of
        None \<Rightarrow> (s, [])
      | Some i \<Rightarrow> dcs_pending_complete_status i DEVICE_CMD_STATUS_NOT_CONNECTED
                    (dcs_stats_map (\<lambda>t. t\<lparr>sx_disconnect_count := sx_disconnect_count t + 1\<rparr>) s))"

definition dcs_handle_cancel :: "string \<Rightarrow> dcs_state \<Rightarrow> dcs_state \<times> completion_call list" where
  "dcs_handle_cancel device_id s =
     (case dcs_pending_find_device s device_id of
        None \<Rightarrow> (s, [])
      | Some i \<Rightarrow> dcs_pending_complete_status i DEVICE_CMD_STATUS_CANCELLED s)"

fun timeout_loop :: "int \<Rightarrow> nat list \<Rightarrow> dcs_state \<Rightarrow> dcs_state \<times> completion_call list" where
  "timeout_loop now_us [] s = (s, [])"
| "timeout_loop now_us (i # is) s =
     (if ps_in_use (dc_pending s ! i) \<and> ps_deadline_us (dc_pending s ! i) \<le> now_us then
        let (s1, calls) = dcs_pending_complete_status i DEVICE_CMD_STATUS_TIMEOUT
              (dcs_stats_map (\<lambda>t. t\<lparr>sx_timeout_count := sx_timeout_count t + 1\<rparr>) s);
            (s2, calls2) = timeout_loop now_us is s1
        in (s2, calls @ calls2)
      else timeout_loop now_us is s)"

definition check_timeouts :: "int \<Rightarrow> dcs_state \<Rightarrow> dcs_state \<times> completion_call list" where
  "check_timeouts now_us s = timeout_loop now_us [0..<DCS_MAX_PENDING] s"

definition handle_urgent :: "int \<Rightarrow> dcs_urgent_event \<Rightarrow> dcs_state \<Rightarrow> dcs_state \<times> completion_call list" where
  "handle_urgent now_us event s =
     (case event of
        DCS_URGENT_EVENT_ACK enqueued_us ack \<Rightarrow> handle_ack now_us enqueued_us ack s
      | DCS_URGENT_EVENT_DISCONNECT dev \<Rightarrow> dcs_handle_disconnect dev s
      | DCS_URGENT_EVENT_CANCEL dev \<Rightarrow> dcs_handle_cancel dev s
      | DCS_URGENT_EVENT_SHUTDOWN \<Rightarrow> (s\<lparr>dc_running := False\<rparr>, []))"

text \<open>
  \<open>while (xQueueReceive(...)) { ...; if (!running) break; }\<close>: the recursion is on what the queue
  holds when the drain starts, which it consumes front to back.
\<close>

fun drain_loop :: "int \<Rightarrow> dcs_urgent_event list \<Rightarrow> dcs_state \<Rightarrow> dcs_state \<times> completion_call list" where
  "drain_loop now_us [] s = (s\<lparr>dc_urgent_queue := Some []\<rparr>, [])"
| "drain_loop now_us (e # q) s =
     (let (s1, calls) = handle_urgent now_us e (s\<lparr>dc_urgent_queue := Some q\<rparr>)
      in if \<not> dc_running s1 then (s1, calls)
         else let (s2, calls2) = drain_loop now_us q s1 in (s2, calls @ calls2))"

definition dcs_urgent_drain :: "int \<Rightarrow> dcs_state \<Rightarrow> dcs_state \<times> completion_call list" where
  "dcs_urgent_drain now_us s =
     (case dc_urgent_queue s of Some q \<Rightarrow> drain_loop now_us q s | None \<Rightarrow> (s, []))"

text \<open>
  One turn of the \<open>while (running)\<close> loop of the task, up to its wait. The result tells the
  completions, the message sent, and whether the turn ended in the \<open>break\<close>.
\<close>

definition dcs_service_turn ::
    "submit_env \<Rightarrow> dcs_state \<Rightarrow> dcs_state \<times> completion_call list \<times> (string \<times> gw_message) option \<times> bool" where
  "dcs_service_turn env s0 =
     (let now = sv_now_us env;
          (s1, c1) = dcs_urgent_drain now s0;
          (s2, c2) = check_timeouts now s1
      in if \<not> dc_running s2 then (s2, c1 @ c2, None, True)
         else case dc_normal_queue s2 of
                Some (event # q) \<Rightarrow>
                  let (s3, c3, sent) = dcs_handle_submit env event (s2\<lparr>dc_normal_queue := Some q\<rparr>);
                      (s4, c4) = dcs_urgent_drain now s3;
                      (s5, c5) = check_timeouts now s4
                  in (s5, c1 @ c2 @ c3 @ c4 @ c5, sent, False)
              | _ \<Rightarrow> (s2, c1 @ c2, None, False))"

text \<open>The wait of a turn, in microseconds: up to one second, less when a deadline is nearer.\<close>

definition dcs_wait_us :: "int \<Rightarrow> dcs_state \<Rightarrow> int" where
  "dcs_wait_us now_us s =
     foldl (\<lambda>nearest p. if ps_in_use p \<and> ps_deadline_us p < nearest then ps_deadline_us p else nearest)
       (now_us + 1000000) (dc_pending s) - now_us"

fun cancel_loop :: "nat list \<Rightarrow> dcs_state \<Rightarrow> dcs_state \<times> completion_call list" where
  "cancel_loop [] s = (s, [])"
| "cancel_loop (i # is) s =
     (if ps_in_use (dc_pending s ! i) then
        let (s1, calls) = dcs_pending_complete_status i DEVICE_CMD_STATUS_CANCELLED s;
            (s2, calls2) = cancel_loop is s1
        in (s2, calls @ calls2)
      else cancel_loop is s)"

definition dcs_service_exit :: "dcs_state \<Rightarrow> dcs_state \<times> completion_call list" where
  "dcs_service_exit s =
     (let (s1, calls) = cancel_loop [0..<DCS_MAX_PENDING] s in (s1\<lparr>dc_task_stopped := True\<rparr>, calls))"

section \<open>Request identifiers\<close>

lemma bump_at_end: "x + 1 = 0 \<Longrightarrow> bump_nonzero x = 1"
proof -
  assume x: "x + 1 = 0"
  have "x + 2 = (x + 1) + 1" unfolding add.assoc one_add_one by (rule refl)
  also have "\<dots> = 1" unfolding x by (rule add_0)
  finally show ?thesis unfolding bump_nonzero_def using x by simp
qed

lemma bump_nonzero_ne [simp]: "bump_nonzero x \<noteq> 0"
proof (cases "x + 1 = 0")
  case True
  then show ?thesis by (simp add: bump_at_end)
next
  case False
  then show ?thesis by (simp add: bump_nonzero_def)
qed

lemma unat_bump: "unat (bump_nonzero x) = unat x mod (2 ^ 32 - 1) + 1"
proof (cases "x + 1 = 0")
  case True
  then have "x = - 1" by (simp add: eq_neg_iff_add_eq_0)
  then have "unat x = 2 ^ 32 - 1" by (simp add: unsigned_minus_1_eq_mask mask_eq_exp_minus_1)
  with True show ?thesis by (simp add: bump_at_end)
next
  case False
  then have "unat (x + 1) = unat x + 1" by (metis Suc_eq_plus1 add.commute unatSuc)
  moreover have "unat (x + 1) < 2 ^ 32" using unsigned_less [of "x + 1"] by simp
  ultimately show ?thesis using False by (simp add: bump_nonzero_def)
qed

lemma unat_bump_iter: "unat ((bump_nonzero ^^ Suc k) x) = (unat x + k) mod (2 ^ 32 - 1) + 1"
proof (induction k)
  case 0
  then show ?case by (simp add: unat_bump)
next
  case (Suc k)
  have "unat ((bump_nonzero ^^ Suc (Suc k)) x) = unat ((bump_nonzero ^^ Suc k) x) mod (2 ^ 32 - 1) + 1"
    by (simp add: unat_bump)
  also have "\<dots> = Suc ((unat x + k) mod (2 ^ 32 - 1)) mod (2 ^ 32 - 1) + 1" unfolding Suc.IH by simp
  also have "\<dots> = Suc (unat x + k) mod (2 ^ 32 - 1) + 1" by (simp only: mod_Suc_eq)
  finally show ?case by (simp only: add_Suc_right)
qed

lemma bump_iter_inj:
  assumes "(bump_nonzero ^^ Suc j) x = (bump_nonzero ^^ Suc k) x" "j \<le> k" "k < 2 ^ 32 - 1"
  shows "j = k"
proof -
  have "(unat x + j) mod (2 ^ 32 - 1) = (unat x + k) mod (2 ^ 32 - 1)"
    using assms(1) unat_bump_iter [of j x] unat_bump_iter [of k x] by (metis add_right_cancel)
  then have "(2 ^ 32 - 1 :: nat) dvd (unat x + k) - (unat x + j)"
    using assms(2) by (metis mod_eq_dvd_iff_nat add_le_cancel_left)
  then have "(2 ^ 32 - 1 :: nat) dvd k - j" by simp
  with assms(2,3) show ?thesis by (metis diff_le_self diff_self_eq_0 dvd_imp_le leD le_antisym le_trans not_less zero_less_diff diff_is_0_eq nat_dvd_not_less)
qed

lemma next_id_loop_None:
  "next_id_loop n ps c = None \<Longrightarrow> k < n \<Longrightarrow>
     (bump_nonzero ^^ Suc k) c \<in> ps_request_id ` set (filter ps_in_use ps)"
proof (induction n arbitrary: c k)
  case 0
  then show ?case by simp
next
  case (Suc n)
  then have hit: "\<exists>p\<in>set ps. ps_in_use p \<and> ps_request_id p = bump_nonzero c"
    and rest: "next_id_loop n ps (bump_nonzero c) = None"
    by (auto simp: Let_def split: if_splits)
  show ?case
  proof (cases k)
    case 0
    with hit show ?thesis by force
  next
    case (Suc m)
    with Suc.IH [OF rest, of m] Suc.prems(2) show ?thesis by (simp add: funpow_swap1)
  qed
qed

lemma next_id_loop_Some:
  "next_id_loop n ps c = Some i \<Longrightarrow> i \<noteq> 0 \<and> (\<forall>p\<in>set ps. ps_in_use p \<longrightarrow> ps_request_id p \<noteq> i)"
  by (induction n arbitrary: c) (auto simp: Let_def split: if_splits)

lemma next_id_loop_ends:
  assumes "length ps < n" "n < 2 ^ 32"
  shows "\<exists>i. next_id_loop n ps c = Some i"
proof (rule ccontr)
  assume "\<nexists>i. next_id_loop n ps c = Some i"
  then have none: "next_id_loop n ps c = None" by simp
  let ?f = "\<lambda>k. (bump_nonzero ^^ Suc k) c"
  have "inj_on ?f {..<n}"
  proof (rule inj_onI)
    fix j k
    assume jk: "j \<in> {..<n}" "k \<in> {..<n}" "?f j = ?f k"
    then have "j < 2 ^ 32 - 1" "k < 2 ^ 32 - 1" using assms(2) by auto
    with jk(3) show "j = k" by (metis bump_iter_inj nat_le_linear)
  qed
  then have "n = card (?f ` {..<n})" by (simp add: card_image)
  also have "\<dots> \<le> card (ps_request_id ` set (filter ps_in_use ps))"
    using next_id_loop_None [OF none] by (intro card_mono) auto
  also have "\<dots> \<le> length (filter ps_in_use ps)" by (meson card_image_le card_length finite_set le_trans)
  also have "\<dots> \<le> length ps" by simp
  finally show False using assms(1) by simp
qed

section \<open>The invariant and the tickets\<close>

definition slot_ok :: "dcs_pending_slot \<Rightarrow> bool" where
  "slot_ok p \<longleftrightarrow>
     (if ps_in_use p then ps_request_id p \<noteq> 0 \<and> ps_completion p \<noteq> None else p = zero_pending)"

definition slots_unique :: "dcs_pending_slot list \<Rightarrow> bool" where
  "slots_unique ps \<longleftrightarrow>
     (\<forall>i < length ps. \<forall>j < length ps. i \<noteq> j \<longrightarrow> ps_in_use (ps ! i) \<longrightarrow> ps_in_use (ps ! j) \<longrightarrow>
        ps_request_id (ps ! i) \<noteq> ps_request_id (ps ! j) \<and> ps_device_id (ps ! i) \<noteq> ps_device_id (ps ! j))"

text \<open>A request as its C type bounds it: terminated text in arrays of 32 bytes.\<close>

definition request_fits :: "device_command_request \<Rightarrow> bool" where
  "request_fits rq \<longleftrightarrow> length (rq_device_id rq) < GW_MSG_DEVICE_ID_LEN \<and> length (rq_command rq) < GW_MSG_COMMAND_LEN"

definition event_ok :: "dcs_submit_event \<Rightarrow> bool" where
  "event_ok e \<longleftrightarrow> se_completion e \<noteq> None \<and> request_fits (se_request e)"

definition dcs_inv :: "dcs_state \<Rightarrow> bool" where
  "dcs_inv s \<longleftrightarrow>
     length (dc_pending s) = DCS_MAX_PENDING \<and> length (dc_completed_acks s) = DCS_MAX_PENDING \<and>
     (\<forall>p\<in>set (dc_pending s). slot_ok p) \<and> slots_unique (dc_pending s) \<and>
     (case dc_normal_queue s of Some q \<Rightarrow> length q \<le> DCS_QUEUE_LEN \<and> (\<forall>e\<in>set q. event_ok e) | None \<Rightarrow> True) \<and>
     (case dc_urgent_queue s of Some q \<Rightarrow> length q \<le> DCS_URGENT_QUEUE_LEN | None \<Rightarrow> True)"

text \<open>
  A ticket is a completion callback with its context. What a state owes are the tickets of its
  queued submissions and of its pending slots.
\<close>

definition slot_ticket :: "dcs_pending_slot \<Rightarrow> (nat \<times> nat) multiset" where
  "slot_ticket p = (if ps_in_use p then {#(the (ps_completion p), ps_context p)#} else {#})"

definition slot_tickets :: "dcs_pending_slot list \<Rightarrow> (nat \<times> nat) multiset" where
  "slot_tickets ps = sum_list (map slot_ticket ps)"

definition queue_tickets :: "dcs_submit_event list option \<Rightarrow> (nat \<times> nat) multiset" where
  "queue_tickets q = (case q of Some es \<Rightarrow> mset (map (\<lambda>e. (the (se_completion e), se_context e)) es) | None \<Rightarrow> {#})"

definition owed :: "dcs_state \<Rightarrow> (nat \<times> nat) multiset" where
  "owed s = queue_tickets (dc_normal_queue s) + slot_tickets (dc_pending s)"

definition called :: "completion_call list \<Rightarrow> (nat \<times> nat) multiset" where
  "called calls = mset (map (\<lambda>(fn, ctx, r). (fn, ctx)) calls)"

lemma called_simps [simp]:
  "called [] = {#}" "called (c # cs) = add_mset (fst c, fst (snd c)) (called cs)" "called (cs @ ds) = called cs + called ds"
  by (auto simp: called_def split: prod.splits)

lemma slot_tickets_update:
  "i < length ps \<Longrightarrow> slot_tickets (ps[i := p]) + slot_ticket (ps ! i) = slot_tickets ps + slot_ticket p"
proof (induction ps arbitrary: i)
  case Nil
  then show ?case by simp
next
  case (Cons x ps)
  show ?case
  proof (cases i)
    case 0
    then show ?thesis by (simp add: slot_tickets_def add.commute add.left_commute)
  next
    case (Suc k)
    with Cons.prems Cons.IH [of k] show ?thesis by (simp add: slot_tickets_def add.assoc)
  qed
qed

lemma zero_pending_simps [simp]: "\<not> ps_in_use zero_pending" "slot_ok zero_pending" "slot_ticket zero_pending = {#}"
  by (simp_all add: zero_pending_def slot_ok_def slot_ticket_def)

lemma stats_map_simps [simp]:
  "dc_pending (dcs_stats_map f s) = dc_pending s" "dc_normal_queue (dcs_stats_map f s) = dc_normal_queue s"
  "dc_urgent_queue (dcs_stats_map f s) = dc_urgent_queue s" "dc_running (dcs_stats_map f s) = dc_running s"
  "dc_completed_acks (dcs_stats_map f s) = dc_completed_acks s"
  "dc_next_request_id (dcs_stats_map f s) = dc_next_request_id s"
  "dc_completed_ack_next (dcs_stats_map f s) = dc_completed_ack_next s"
  by (simp_all add: dcs_stats_map_def)

lemma inv_stats [simp]: "dcs_inv (dcs_stats_map f s) = dcs_inv s" "owed (dcs_stats_map f s) = owed s"
  by (simp_all add: dcs_inv_def owed_def)

lemma slots_uniqueD:
  "\<lbrakk>slots_unique ps; i < length ps; j < length ps; i \<noteq> j; ps_in_use (ps ! i); ps_in_use (ps ! j)\<rbrakk> \<Longrightarrow>
     ps_request_id (ps ! i) \<noteq> ps_request_id (ps ! j) \<and> ps_device_id (ps ! i) \<noteq> ps_device_id (ps ! j)"
  by (simp add: slots_unique_def)

lemma slots_unique_clear:
  assumes "slots_unique ps" "\<not> ps_in_use p"
  shows "slots_unique (ps[i := p])"
  unfolding slots_unique_def
proof (intro allI impI)
  fix a b
  assume h: "a < length (ps[i := p])" "b < length (ps[i := p])" "a \<noteq> b" "ps_in_use (ps[i := p] ! a)" "ps_in_use (ps[i := p] ! b)"
  then have "a \<noteq> i" "b \<noteq> i" using assms(2) by auto
  with h assms(1) show "ps_request_id (ps[i := p] ! a) \<noteq> ps_request_id (ps[i := p] ! b) \<and>
      ps_device_id (ps[i := p] ! a) \<noteq> ps_device_id (ps[i := p] ! b)"
    by (simp add: slots_unique_def)
qed

lemma slots_unique_fill:
  assumes "slots_unique ps" "\<forall>q\<in>set ps. ps_in_use q \<longrightarrow> ps_request_id q \<noteq> ps_request_id p \<and> ps_device_id q \<noteq> ps_device_id p"
  shows "slots_unique (ps[i := p])"
  unfolding slots_unique_def
proof (intro allI impI)
  fix a b
  assume h: "a < length (ps[i := p])" "b < length (ps[i := p])" "a \<noteq> b" "ps_in_use (ps[i := p] ! a)" "ps_in_use (ps[i := p] ! b)"
  then have "a \<noteq> i \<Longrightarrow> ps_in_use (ps ! a) \<and> ps ! a \<in> set ps" "b \<noteq> i \<Longrightarrow> ps_in_use (ps ! b) \<and> ps ! b \<in> set ps" by auto
  with h assms show "ps_request_id (ps[i := p] ! a) \<noteq> ps_request_id (ps[i := p] ! b) \<and>
      ps_device_id (ps[i := p] ! a) \<noteq> ps_device_id (ps[i := p] ! b)"
    unfolding slots_unique_def by (cases "a = i"; cases "b = i") auto
qed

lemma all_set_update: "\<forall>x\<in>set xs. P x \<Longrightarrow> P y \<Longrightarrow> \<forall>x\<in>set (xs[i := y]). P x"
  using set_update_subset_insert by fastforce

lemma complete_step:
  assumes "dcs_inv s" "i < length (dc_pending s)" "ps_in_use (dc_pending s ! i)"
    and "dcs_pending_complete i r s = (s', calls)"
  shows "dcs_inv s' \<and> owed s = owed s' + called calls \<and> calls = [(the (ps_completion (dc_pending s ! i)), ps_context (dc_pending s ! i), r)]
     \<and> dc_pending s' = (dc_pending s)[i := zero_pending] \<and> dc_running s' = dc_running s \<and>
     dc_normal_queue s' = dc_normal_queue s \<and> dc_urgent_queue s' = dc_urgent_queue s"
proof -
  let ?p = "dc_pending s ! i"
  have s': "s' = s\<lparr>dc_pending := (dc_pending s)[i := zero_pending]\<rparr>"
    using assms(4) by (simp add: dcs_pending_complete_def Let_def)
  have "slot_ok ?p" using assms(1,2) by (simp add: dcs_inv_def)
  then obtain fn where fn: "ps_completion ?p = Some fn" using assms(3) by (auto simp: slot_ok_def)
  then have calls: "calls = [(fn, ps_context ?p, r)]" using assms(4) by (simp add: dcs_pending_complete_def Let_def)
  have "slot_tickets (dc_pending s) = slot_tickets (dc_pending s') + called calls"
    using slot_tickets_update [OF assms(2), of zero_pending] assms(3) fn calls by (simp add: s' slot_ticket_def)
  moreover have "dcs_inv s'"
    using assms(1) slots_unique_clear [of "dc_pending s" zero_pending i]
      all_set_update [of "dc_pending s" slot_ok zero_pending i] by (simp add: s' dcs_inv_def)
  ultimately show ?thesis using fn calls s' by (simp add: owed_def add.assoc)
qed

text \<open>A handler keeps the invariant and pays exactly the tickets it takes from the state.\<close>

definition pays :: "dcs_state \<Rightarrow> dcs_state \<Rightarrow> completion_call list \<Rightarrow> bool" where
  "pays s s' calls \<longleftrightarrow> dcs_inv s' \<and> owed s = owed s' + called calls"

lemma pays_refl: "dcs_inv s \<Longrightarrow> pays s s []"
  by (simp add: pays_def)

lemma pays_trans: "pays s t c \<Longrightarrow> pays t u d \<Longrightarrow> pays s u (c @ d)"
  by (simp add: pays_def ac_simps)

lemma pays_inv: "pays s t c \<Longrightarrow> dcs_inv t"
  by (simp add: pays_def)

lemma pays_stats [simp]:
  "pays (dcs_stats_map f s) t c = pays s t c" "pays s (dcs_stats_map f t) c = pays s t c"
  by (simp_all add: pays_def)

lemma complete_pays:
  "\<lbrakk>dcs_inv s; i < length (dc_pending s); ps_in_use (dc_pending s ! i); dcs_pending_complete i r s = (s', calls)\<rbrakk> \<Longrightarrow>
     pays s s' calls"
  by (frule (3) complete_step) (simp add: pays_def)

lemma complete_status_pays:
  "\<lbrakk>dcs_inv s; i < length (dc_pending s); ps_in_use (dc_pending s ! i); dcs_pending_complete_status i st s = (s', calls)\<rbrakk> \<Longrightarrow>
     pays s s' calls"
  unfolding dcs_pending_complete_status_def by (rule complete_pays)

lemma find_device_Some:
  "dcs_pending_find_device s d = Some i \<Longrightarrow>
     i < length (dc_pending s) \<and> ps_in_use (dc_pending s ! i) \<and> ps_device_id (dc_pending s ! i) = d"
  unfolding dcs_pending_find_device_def by (drule find_index_SomeD) simp

lemma find_id_Some:
  "dcs_pending_find_id s d r = Some i \<Longrightarrow>
     i < length (dc_pending s) \<and> ps_in_use (dc_pending s ! i) \<and> ps_device_id (dc_pending s ! i) = d \<and>
     ps_request_id (dc_pending s ! i) = r"
  unfolding dcs_pending_find_id_def by (drule find_index_SomeD) simp

lemma stats_find [simp]:
  "dcs_pending_find_device (dcs_stats_map f s) = dcs_pending_find_device s"
  "dcs_pending_find_id (dcs_stats_map f s) = dcs_pending_find_id s"
  "dcs_pending_is_duplicate_ack (dcs_stats_map f s) = dcs_pending_is_duplicate_ack s"
  by (auto simp: fun_eq_iff dcs_pending_find_device_def dcs_pending_find_id_def dcs_pending_is_duplicate_ack_def)

lemma note_latency_simps [simp]:
  "dc_pending (note_latency n e s) = dc_pending s" "dcs_inv (note_latency n e s) = dcs_inv s"
  "owed (note_latency n e s) = owed s" "dc_running (note_latency n e s) = dc_running s"
  "dc_completed_acks (note_latency n e s) = dc_completed_acks s"
  "dc_completed_ack_next (note_latency n e s) = dc_completed_ack_next s"
  "dc_normal_queue (note_latency n e s) = dc_normal_queue s" "dc_urgent_queue (note_latency n e s) = dc_urgent_queue s"
  by (simp_all add: note_latency_def Let_def)

lemma note_ack_simps [simp]:
  "dc_pending (dcs_pending_note_completed_ack p s) = dc_pending s"
  "dcs_inv (dcs_pending_note_completed_ack p s) = dcs_inv s"
  "owed (dcs_pending_note_completed_ack p s) = owed s"
  "dc_running (dcs_pending_note_completed_ack p s) = dc_running s"
  by (simp_all add: dcs_pending_note_completed_ack_def dcs_inv_def owed_def)

lemma handle_ack_pays:
  assumes "dcs_inv s" "handle_ack now enq ack s = (s', calls)"
  shows "pays s s' calls"
proof (cases "dcs_pending_find_id s (ak_device_id ack) (ak_request_id ack)")
  case None
  with assms show ?thesis by (auto simp: handle_ack_def pays_refl Let_def split: if_splits)
next
  case (Some i)
  note f = find_id_Some [OF Some]
  let ?s2 = "dcs_pending_note_completed_ack (dc_pending s ! i)
      (dcs_stats_map (\<lambda>t. if ak_accepted ack then t\<lparr>sx_completed_ok := sx_completed_ok t + 1\<rparr>
          else t\<lparr>sx_completed_error := sx_completed_error t + 1\<rparr>)
        (note_latency now enq (dcs_stats_map (\<lambda>t. t\<lparr>sx_ack_received := sx_ack_received t + 1\<rparr>) s)))"
  have "pays s s' calls"
    if c: "dcs_pending_complete i (ack_result ack (dc_pending s ! i)) ?s2 = (s', calls)"
  proof -
    have "pays ?s2 s' calls" using assms(1) f by (intro complete_pays [OF _ _ _ c]) auto
    then show ?thesis by (simp add: pays_def)
  qed
  with assms Some show ?thesis by (auto simp: handle_ack_def pays_refl Let_def split: if_splits)
qed

lemma handle_disconnect_pays:
  assumes "dcs_inv s" "dcs_handle_disconnect d s = (s', calls)"
  shows "pays s s' calls"
proof (cases "dcs_pending_find_device s d")
  case None
  with assms show ?thesis by (simp add: dcs_handle_disconnect_def pays_refl)
next
  case (Some i)
  note f = find_device_Some [OF Some]
  from Some assms(2) have c: "dcs_pending_complete_status i DEVICE_CMD_STATUS_NOT_CONNECTED
      (dcs_stats_map (\<lambda>t. t\<lparr>sx_disconnect_count := sx_disconnect_count t + 1\<rparr>) s) = (s', calls)"
    by (simp add: dcs_handle_disconnect_def)
  show ?thesis using complete_status_pays [OF _ _ _ c] assms(1) f by simp
qed

lemma handle_cancel_pays:
  assumes "dcs_inv s" "dcs_handle_cancel d s = (s', calls)"
  shows "pays s s' calls"
proof (cases "dcs_pending_find_device s d")
  case None
  with assms show ?thesis by (simp add: dcs_handle_cancel_def pays_refl)
next
  case (Some i)
  with assms find_device_Some [OF Some] show ?thesis
    by (intro complete_status_pays [of s i DEVICE_CMD_STATUS_CANCELLED]) (auto simp: dcs_handle_cancel_def)
qed

lemma handle_urgent_pays:
  assumes "dcs_inv s" "handle_urgent now e s = (s', calls)"
  shows "pays s s' calls"
proof (cases e)
  case (DCS_URGENT_EVENT_ACK enq ack)
  with assms show ?thesis by (auto simp: handle_urgent_def intro: handle_ack_pays)
next
  case (DCS_URGENT_EVENT_DISCONNECT d)
  with assms show ?thesis by (auto simp: handle_urgent_def intro: handle_disconnect_pays)
next
  case (DCS_URGENT_EVENT_CANCEL d)
  with assms show ?thesis by (auto simp: handle_urgent_def intro: handle_cancel_pays)
next
  case DCS_URGENT_EVENT_SHUTDOWN
  with assms show ?thesis by (auto simp: handle_urgent_def pays_def dcs_inv_def owed_def)
qed

lemma complete_status_length [simp]:
  "dcs_pending_complete_status i st s = (s', calls) \<Longrightarrow> length (dc_pending s') = length (dc_pending s)"
  by (auto simp: dcs_pending_complete_status_def dcs_pending_complete_def Let_def)

lemma timeout_loop_pays:
  "\<lbrakk>dcs_inv s; \<forall>i\<in>set is. i < length (dc_pending s); timeout_loop now is s = (s', calls)\<rbrakk> \<Longrightarrow> pays s s' calls"
proof (induction "is" arbitrary: s calls)
  case Nil
  then show ?case by (simp add: pays_refl)
next
  case (Cons i "is")
  show ?case
  proof (cases "ps_in_use (dc_pending s ! i) \<and> ps_deadline_us (dc_pending s ! i) \<le> now")
    case False
    with Cons show ?thesis by auto
  next
    case True
    let ?t = "dcs_stats_map (\<lambda>t. t\<lparr>sx_timeout_count := sx_timeout_count t + 1\<rparr>) s"
    obtain s1 c1 where 1: "dcs_pending_complete_status i DEVICE_CMD_STATUS_TIMEOUT ?t = (s1, c1)" by fastforce
    obtain c2 where 2: "timeout_loop now is s1 = (s', c2)" "calls = c1 @ c2"
      using Cons.prems(3) True 1 by (auto split: prod.splits)
    have p: "pays ?t s1 c1" using Cons.prems True by (intro complete_status_pays [OF _ _ _ 1]) auto
    then have "pays s1 s' c2"
      using Cons.prems(2) complete_status_length [OF 1] 2(1) by (intro Cons.IH) (auto dest: pays_inv)
    with p 2(2) show ?thesis using pays_trans by fastforce
  qed
qed

lemma check_timeouts_pays: "dcs_inv s \<Longrightarrow> check_timeouts now s = (s', calls) \<Longrightarrow> pays s s' calls"
  unfolding check_timeouts_def by (erule timeout_loop_pays [rotated 2]) (auto simp: dcs_inv_def)

lemma cancel_loop_pays:
  "\<lbrakk>dcs_inv s; \<forall>i\<in>set is. i < length (dc_pending s); cancel_loop is s = (s', calls)\<rbrakk> \<Longrightarrow> pays s s' calls"
proof (induction "is" arbitrary: s calls)
  case Nil
  then show ?case by (simp add: pays_refl)
next
  case (Cons i "is")
  show ?case
  proof (cases "ps_in_use (dc_pending s ! i)")
    case False
    with Cons show ?thesis by auto
  next
    case True
    obtain s1 c1 where 1: "dcs_pending_complete_status i DEVICE_CMD_STATUS_CANCELLED s = (s1, c1)" by fastforce
    obtain c2 where 2: "cancel_loop is s1 = (s', c2)" "calls = c1 @ c2"
      using Cons.prems(3) True 1 by (auto split: prod.splits)
    have p: "pays s s1 c1" using Cons.prems True by (intro complete_status_pays [OF _ _ _ 1]) auto
    then have "pays s1 s' c2"
      using Cons.prems(2) complete_status_length [OF 1] 2(1) by (intro Cons.IH) (auto dest: pays_inv)
    with p 2(2) show ?thesis using pays_trans by fastforce
  qed
qed

lemma service_exit_pays: "dcs_inv s \<Longrightarrow> dcs_service_exit s = (s', calls) \<Longrightarrow> pays s s' calls"
proof -
  assume inv: "dcs_inv s" and e: "dcs_service_exit s = (s', calls)"
  obtain s1 c1 where 1: "cancel_loop [0..<DCS_MAX_PENDING] s = (s1, c1)" by fastforce
  have "pays s s1 c1" using inv by (intro cancel_loop_pays [OF _ _ 1]) (auto simp: dcs_inv_def)
  with e 1 show ?thesis by (auto simp: dcs_service_exit_def pays_def dcs_inv_def owed_def)
qed

definition event_ticket :: "dcs_submit_event \<Rightarrow> nat \<times> nat" where
  "event_ticket e = (the (se_completion e), se_context e)"

lemma complete_event_called: "event_ok e \<Longrightarrow> called (complete_event e st) = {#event_ticket e#}"
  by (auto simp: event_ok_def complete_event_def event_ticket_def)

lemma fill_slot_simps [simp]:
  "ps_in_use (fill_slot env e r p)" "ps_request_id (fill_slot env e r p) = r"
  "ps_device_id (fill_slot env e r p) = strlcpy GW_MSG_DEVICE_ID_LEN (rq_device_id (se_request e))"
  "ps_command (fill_slot env e r p) = strlcpy GW_MSG_COMMAND_LEN (rq_command (se_request e))"
  "ps_completion (fill_slot env e r p) = se_completion e" "ps_context (fill_slot env e r p) = se_context e"
  "ps_deadline_us (fill_slot env e r p) = sv_now_us env + DCS_ACK_TIMEOUT_MS * 1000"
  by (simp_all add: fill_slot_def Let_def)

text \<open>The slot that is being filled: free, so zeroed, and marked in use before the identifier is drawn.\<close>

lemma new_slot:
  assumes "dcs_inv s" "event_ok e" "dcs_pending_find_device s (rq_device_id (se_request e)) = None"
    and "dcs_pending_allocate s = Some i"
    and "s1 = s\<lparr>dc_pending := (dc_pending s)[i := (dc_pending s ! i)\<lparr>ps_in_use := True\<rparr>]\<rparr>"
    and "dcs_pending_next_request_id s1 = (s2, rid)"
    and "s3 = s2\<lparr>dc_pending := (dc_pending s2)[i := fill_slot env e rid (dc_pending s2 ! i)]\<rparr>"
  shows "dcs_inv s3 \<and> owed s3 = add_mset (event_ticket e) (owed s) \<and> i < length (dc_pending s3) \<and>
    dc_pending s3 = (dc_pending s)[i := fill_slot env e rid (zero_pending\<lparr>ps_in_use := True\<rparr>)] \<and> rid \<noteq> 0 \<and>
    (\<forall>p\<in>set (dc_pending s). ps_in_use p \<longrightarrow> ps_request_id p \<noteq> rid)"
proof -
  have i: "i < length (dc_pending s)" "\<not> ps_in_use (dc_pending s ! i)"
    using assms(4) unfolding dcs_pending_allocate_def by (auto dest: find_index_SomeD)
  have z: "dc_pending s ! i = zero_pending" using assms(1) i by (auto simp: dcs_inv_def slot_ok_def dest: nth_mem)
  have l1: "length (dc_pending s1) = DCS_MAX_PENDING" using assms(1,5) by (simp add: dcs_inv_def)
  obtain n where n: "next_id_loop (DCS_MAX_PENDING + 1) (dc_pending s1) (dc_next_request_id s1) = Some n"
    using next_id_loop_ends [of "dc_pending s1" "DCS_MAX_PENDING + 1"] l1 by auto
  then have rid: "rid = n" "s2 = s1\<lparr>dc_next_request_id := n\<rparr>"
    using assms(6) by (auto simp: dcs_pending_next_request_id_def Let_def)
  note id = next_id_loop_Some [OF n]
  have fresh: "\<forall>p\<in>set (dc_pending s). ps_in_use p \<longrightarrow> ps_request_id p \<noteq> rid"
  proof (intro ballI impI)
    fix p assume p: "p \<in> set (dc_pending s)" "ps_in_use p"
    then obtain j where j: "j < length (dc_pending s)" "p = dc_pending s ! j" by (metis in_set_conv_nth)
    moreover have "j \<noteq> i" using p(2) i(2) j(2) by auto
    ultimately have "dc_pending s1 ! j = p" "j < length (dc_pending s1)" by (simp_all add: assms(5))
    with id p(2) rid(1) show "ps_request_id p \<noteq> rid" by (metis nth_mem)
  qed
  let ?f = "fill_slot env e rid (zero_pending\<lparr>ps_in_use := True\<rparr>)"
  have p3: "dc_pending s3 = (dc_pending s)[i := ?f]" using assms(5,7) rid(2) i z by simp
  have dev: "strlcpy GW_MSG_DEVICE_ID_LEN (rq_device_id (se_request e)) = rq_device_id (se_request e)"
    using assms(2) by (simp add: event_ok_def request_fits_def)
  have "\<forall>q\<in>set (dc_pending s). ps_in_use q \<longrightarrow> ps_device_id q \<noteq> rq_device_id (se_request e)"
    using assms(3) by (auto simp: dcs_pending_find_device_def find_index_None)
  then have "slots_unique (dc_pending s3)"
    unfolding p3 using assms(1) fresh dev by (intro slots_unique_fill) (auto simp: dcs_inv_def)
  moreover have "\<forall>p\<in>set (dc_pending s3). slot_ok p"
    unfolding p3 using assms(1,2) id rid(1)
    by (intro all_set_update) (auto simp: dcs_inv_def slot_ok_def event_ok_def)
  moreover have "dc_normal_queue s3 = dc_normal_queue s" "dc_urgent_queue s3 = dc_urgent_queue s"
    "dc_completed_acks s3 = dc_completed_acks s"
    using assms(5,7) rid(2) by simp_all
  moreover have "slot_tickets (dc_pending s3) = add_mset (event_ticket e) (slot_tickets (dc_pending s))"
    using slot_tickets_update [OF i(1), of ?f] z by (simp add: p3 slot_ticket_def event_ticket_def)
  ultimately show ?thesis using assms(1) i(1) p3 fresh id rid(1) by (simp add: dcs_inv_def owed_def)
qed

lemma handle_submit_pays:
  assumes "dcs_inv s" "event_ok e" "dcs_handle_submit env e s = (s', calls, sent)"
  shows "dcs_inv s' \<and> add_mset (event_ticket e) (owed s) = owed s' + called calls"
proof (cases "dcs_validate_request (sv_validate env) (se_request e)
      ((dcs_build_wire_message (se_request e) 0)\<lparr>m_has_request_id := False\<rparr>) = DEVICE_CMD_STATUS_OK \<and>
    0 < sv_is_connected env (rq_device_id (se_request e)) \<and>
    dcs_pending_find_device s (rq_device_id (se_request e)) = None \<and> dcs_pending_allocate s \<noteq> None")
  case False
  then have "\<exists>st f. calls = complete_event e st \<and> (s' = s \<or> s' = dcs_stats_map f s)"
    using assms(3) by (auto simp: dcs_handle_submit_def Let_def not_less split: if_splits option.splits)
  with assms(1,2) show ?thesis by (auto simp: complete_event_called)
next
  case True
  then obtain i where i: "dcs_pending_allocate s = Some i" by blast
  define s1 where "s1 = s\<lparr>dc_pending := (dc_pending s)[i := (dc_pending s ! i)\<lparr>ps_in_use := True\<rparr>]\<rparr>"
  obtain s2 rid where 2: "dcs_pending_next_request_id s1 = (s2, rid)" by fastforce
  define s3 where "s3 = s2\<lparr>dc_pending := (dc_pending s2)[i := fill_slot env e rid (dc_pending s2 ! i)]\<rparr>"
  note n = new_slot [OF assms(1,2) _ i s1_def 2 s3_def]
  have "\<exists>f. (calls = [] \<and> s' = dcs_stats_map f s3) \<or>
      (\<exists>t. dcs_pending_complete_status i DEVICE_CMD_STATUS_TRANSPORT_ERROR (dcs_stats_map f (dcs_stats_map t s3)) = (s', calls))"
    using assms(3) True i 2 s1_def s3_def
    by (simp add: dcs_handle_submit_def Let_def split: if_splits prod.splits)
      (auto simp: dcs_stats_map_def)
  then show ?thesis
  proof (elim exE disjE)
    fix f assume "calls = [] \<and> s' = dcs_stats_map f s3"
    with n True show ?thesis by simp
  next
    fix f t
    assume c: "dcs_pending_complete_status i DEVICE_CMD_STATUS_TRANSPORT_ERROR (dcs_stats_map f (dcs_stats_map t s3)) = (s', calls)"
    have "pays (dcs_stats_map f (dcs_stats_map t s3)) s' calls"
      using n True by (intro complete_status_pays [OF _ _ _ c]) auto
    with n True show ?thesis by (simp add: pays_def)
  qed
qed

section \<open>The service as a state machine\<close>

text \<open>
  A configuration is the state with its history: the tickets of the submissions that were answered
  \<open>ESP_OK\<close> and those of the completions that were called. Public calls come from other tasks at any
  moment, between any two actions of the service task.
\<close>

record dcs_config =
  cf_state :: dcs_state
  cf_accepted :: "(nat \<times> nat) multiset"
  cf_completed :: "(nat \<times> nat) multiset"

inductive dcs_step :: "dcs_config \<Rightarrow> dcs_config \<Rightarrow> bool" where
  submit: "\<lbrakk>device_command_service_submit (Some rq) (Some fn) ctx (cf_state c) = (s', err); request_fits rq\<rbrakk> \<Longrightarrow>
     dcs_step c (c\<lparr>cf_state := s',
       cf_accepted := cf_accepted c + (if err = ESP_OK then {#(fn, ctx)#} else {#})\<rparr>)"
| notify: "device_command_service_on_notify now dev msg (cf_state c) = (s', consumed) \<Longrightarrow>
     dcs_step c (c\<lparr>cf_state := s'\<rparr>)"
| disconnect: "dcs_step c (c\<lparr>cf_state := device_command_service_on_disconnect dev (cf_state c)\<rparr>)"
| cancel: "device_command_service_cancel_device dev (cf_state c) = (s', err) \<Longrightarrow> dcs_step c (c\<lparr>cf_state := s'\<rparr>)"
| shutdown: "dcs_step c (c\<lparr>cf_state := dcs_request_shutdown (cf_state c)\<rparr>)"
| urgent: "\<lbrakk>dc_running (cf_state c); dc_urgent_queue (cf_state c) = Some (e # q);
            handle_urgent now e ((cf_state c)\<lparr>dc_urgent_queue := Some q\<rparr>) = (s', calls)\<rbrakk> \<Longrightarrow>
     dcs_step c (c\<lparr>cf_state := s', cf_completed := cf_completed c + called calls\<rparr>)"
| timeouts: "check_timeouts now (cf_state c) = (s', calls) \<Longrightarrow>
     dcs_step c (c\<lparr>cf_state := s', cf_completed := cf_completed c + called calls\<rparr>)"
| work: "\<lbrakk>dc_running (cf_state c); dc_normal_queue (cf_state c) = Some (ev # q);
          dcs_handle_submit env ev ((cf_state c)\<lparr>dc_normal_queue := Some q\<rparr>) = (s', calls, sent)\<rbrakk> \<Longrightarrow>
     dcs_step c (c\<lparr>cf_state := s', cf_completed := cf_completed c + called calls\<rparr>)"
| exit: "\<lbrakk>\<not> dc_running (cf_state c); dcs_service_exit (cf_state c) = (s', calls)\<rbrakk> \<Longrightarrow>
     dcs_step c (c\<lparr>cf_state := s', cf_completed := cf_completed c + called calls\<rparr>)"

definition dcs_start :: "dcs_config \<Rightarrow> bool" where
  "dcs_start c \<longleftrightarrow>
     (\<exists>s. device_command_service_init True True True s = (cf_state c, ESP_OK)) \<and>
     cf_accepted c = {#} \<and> cf_completed c = {#}"

definition dcs_ledger :: "dcs_config \<Rightarrow> bool" where
  "dcs_ledger c \<longleftrightarrow> dcs_inv (cf_state c) \<and> cf_accepted c = cf_completed c + owed (cf_state c)"

lemma enqueue_ledger:
  "dcs_urgent_enqueue e s = (s', ok) \<Longrightarrow> dcs_inv s \<Longrightarrow> dcs_inv s' \<and> owed s' = owed s"
  by (auto simp: dcs_urgent_enqueue_def dcs_inv_def owed_def split: option.splits if_splits)

lemma submit_ledger:
  assumes "device_command_service_submit (Some rq) (Some fn) ctx s = (s', err)" "request_fits rq" "dcs_inv s"
  shows "dcs_inv s' \<and> owed s' = owed s + (if err = ESP_OK then {#(fn, ctx)#} else {#})"
  using assms
  by (auto simp: device_command_service_submit_def dcs_inv_def owed_def queue_tickets_def event_ok_def
      split: option.splits if_splits)

lemma ledger_pays:
  "\<lbrakk>dcs_ledger c; pays (cf_state c) s' calls\<rbrakk> \<Longrightarrow>
     dcs_ledger (c\<lparr>cf_state := s', cf_completed := cf_completed c + called calls\<rparr>)"
  by (simp add: dcs_ledger_def pays_def ac_simps)

lemma ledger_same:
  "\<lbrakk>dcs_ledger c; dcs_inv s'; owed s' = owed (cf_state c)\<rbrakk> \<Longrightarrow> dcs_ledger (c\<lparr>cf_state := s'\<rparr>)"
  by (simp add: dcs_ledger_def)

lemma dcs_step_ledger: "dcs_step c c' \<Longrightarrow> dcs_ledger c \<Longrightarrow> dcs_ledger c'"
proof (induction rule: dcs_step.induct)
  case (submit rq fn ctx c s' err)
  with submit_ledger [OF submit(1,2)] show ?case by (auto simp: dcs_ledger_def ac_simps)
next
  case (notify now dev msg c s' consumed)
  have "dcs_inv s' \<and> owed s' = owed (cf_state c)"
    using notify enqueue_ledger [of _ "cf_state c"]
    by (auto simp: device_command_service_on_notify_def dcs_ledger_def split: option.splits if_splits)
  with notify(2) show ?case by (intro ledger_same) auto
next
  case (disconnect c dev)
  let ?s = "device_command_service_on_disconnect dev (cf_state c)"
  have "dcs_inv ?s \<and> owed ?s = owed (cf_state c)"
    using disconnect enqueue_ledger [of _ "cf_state c", OF prod.collapse [symmetric]]
    by (auto simp: device_command_service_on_disconnect_def dcs_ledger_def split: option.splits)
  with disconnect show ?case by (intro ledger_same) auto
next
  case (cancel dev c s' err)
  have "dcs_inv s' \<and> owed s' = owed (cf_state c)"
    using cancel enqueue_ledger [of _ "cf_state c"]
    by (auto simp: device_command_service_cancel_device_def dcs_ledger_def split: option.splits if_splits prod.splits)
  with cancel(2) show ?case by (intro ledger_same) auto
next
  case (shutdown c)
  let ?s = "dcs_request_shutdown (cf_state c)"
  have "dcs_inv (t\<lparr>dc_running := b\<rparr>) = dcs_inv t" "owed (t\<lparr>dc_running := b\<rparr>) = owed t" for t b
    by (simp_all add: dcs_inv_def owed_def)
  then have "dcs_inv ?s \<and> owed ?s = owed (cf_state c)"
    using shutdown enqueue_ledger [of _ "cf_state c"]
    by (auto simp: dcs_request_shutdown_def dcs_ledger_def split: option.splits prod.splits)
  with shutdown show ?case by (intro ledger_same) auto
next
  case (urgent c e q now s' calls)
  let ?s = "(cf_state c)\<lparr>dc_urgent_queue := Some q\<rparr>"
  have "dcs_inv ?s" "owed ?s = owed (cf_state c)"
    using urgent(2,4) by (auto simp: dcs_ledger_def dcs_inv_def owed_def)
  with handle_urgent_pays [OF _ urgent(3)] urgent(4) show ?case by (intro ledger_pays) (auto simp: pays_def)
next
  case (timeouts now c s' calls)
  then show ?case by (intro ledger_pays check_timeouts_pays) (auto simp: dcs_ledger_def)
next
  case (work c ev q env s' calls sent)
  let ?s = "(cf_state c)\<lparr>dc_normal_queue := Some q\<rparr>"
  have "dcs_inv ?s" "event_ok ev" "owed (cf_state c) = add_mset (event_ticket ev) (owed ?s)"
    using work(2,4) by (auto simp: dcs_ledger_def dcs_inv_def owed_def queue_tickets_def event_ticket_def)
  with handle_submit_pays [OF _ _ work(3)] work(4) show ?case by (intro ledger_pays) (auto simp: pays_def)
next
  case (exit c s' calls)
  then show ?case by (intro ledger_pays service_exit_pays) (auto simp: dcs_ledger_def)
qed

lemma init_ledger:
  "device_command_service_init True True True s = (t, ESP_OK) \<Longrightarrow> dcs_inv t \<and> owed t = {#} \<and> dc_running t"
  by (auto simp: device_command_service_init_def dcs_pending_reset_def dcs_inv_def owed_def queue_tickets_def
      slot_tickets_def slots_unique_def Let_def split: if_splits) (simp add: numeral_eq_Suc)

lemma dcs_start_ledger: "dcs_start c \<Longrightarrow> dcs_ledger c"
  by (auto simp: dcs_start_def dcs_ledger_def dest: init_ledger)

interpretation dcs: step_system dcs_start dcs_step dcs_ledger
  by unfold_locales (auto intro: dcs_start_ledger dcs_step_ledger)


definition demo_start_state :: dcs_state where
  "demo_start_state = fst (device_command_service_init True True True
     \<lparr>dc_normal_queue = None, dc_urgent_queue = None, dc_running = False, dc_task_stopped = False,
      dc_pending = [], dc_completed_acks = [], dc_completed_ack_next = 0, dc_next_request_id = 0,
      dc_stats = zero_stats\<rparr>)"

definition demo_config :: dcs_config where
  "demo_config = \<lparr>cf_state = demo_start_state, cf_accepted = {#}, cf_completed = {#}\<rparr>"

definition demo_request :: device_command_request where
  "demo_request = zero_request\<lparr>rq_origin := DEVICE_CMD_ORIGIN_SCHEMA_DISCOVERY, rq_device_id := ''lamp'',
     rq_command := ''describe_capabilities''\<rparr>"

definition demo_submitted :: dcs_state where
  "demo_submitted = fst (device_command_service_submit (Some demo_request) (Some 7) 5 demo_start_state)"

lemma demo_config_start: "dcs_start demo_config"
proof -
  have "snd (device_command_service_init True True True
     \<lparr>dc_normal_queue = None, dc_urgent_queue = None, dc_running = False, dc_task_stopped = False,
      dc_pending = [], dc_completed_acks = [], dc_completed_ack_next = 0, dc_next_request_id = 0,
      dc_stats = zero_stats\<rparr>) = ESP_OK" by code_simp
  then show ?thesis unfolding dcs_start_def demo_config_def demo_start_state_def
    by (metis dcs_config.select_convs prod.collapse)
qed

lemma demo_submit: "device_command_service_submit (Some demo_request) (Some 7) 5 demo_start_state = (demo_submitted, ESP_OK)"
proof (rule prod_eqI)
  show "snd (device_command_service_submit (Some demo_request) (Some 7) 5 demo_start_state) = snd (demo_submitted, ESP_OK)"
    by code_simp
qed (simp add: demo_submitted_def)

lemma demo_request_fits: "request_fits demo_request"
  by code_simp


text \<open>
  C13. What the task relies on holds in every reachable state. There are four slots, and the two queues
  stay within their capacity; two requests in flight never share a request identifier or a device, so
  an acknowledgement names at most one of them and a device has at most one command on the air; and
  every identifier in flight is non-zero.
\<close>

theorem in_flight_requests_are_distinct:
  assumes "dcs_start c0" "dcs_step\<^sup>*\<^sup>* c0 c"
  shows "let ps = dc_pending (cf_state c) in
     length ps = DCS_MAX_PENDING \<and> slots_unique ps \<and> (\<forall>p\<in>set ps. ps_in_use p \<longrightarrow> ps_request_id p \<noteq> 0) \<and>
     (\<forall>q. dc_normal_queue (cf_state c) = Some q \<longrightarrow> length q \<le> DCS_QUEUE_LEN) \<and>
     (\<forall>q. dc_urgent_queue (cf_state c) = Some q \<longrightarrow> length q \<le> DCS_URGENT_QUEUE_LEN)"
  using dcs.inv_reachable [OF assms] by (auto simp: dcs_ledger_def dcs_inv_def slot_ok_def Let_def)

theorem in_flight_requests_are_distinct_witness:
  "slots_unique (dc_pending demo_start_state) \<and> length (dc_pending demo_start_state) = 4"
  using in_flight_requests_are_distinct [OF demo_config_start rtranclp.rtrancl_refl]
  by (simp add: Let_def demo_config_def)

section \<open>Single handlers\<close>

text \<open>
  Drawing a request identifier always ends: for any four slots and any counter, including one
  about to wrap, five passes of the loop are enough, and the identifier drawn is non-zero and not
  that of a request in flight.
\<close>

theorem request_id_loop_ends:
  assumes "length (dc_pending s) = DCS_MAX_PENDING"
  shows "\<exists>i. next_id_loop (DCS_MAX_PENDING + 1) (dc_pending s) (dc_next_request_id s) = Some i \<and>
    dcs_pending_next_request_id s = (s\<lparr>dc_next_request_id := i\<rparr>, i) \<and> i \<noteq> 0 \<and>
    (\<forall>p\<in>set (dc_pending s). ps_in_use p \<longrightarrow> ps_request_id p \<noteq> i)"
proof -
  obtain i where i: "next_id_loop (DCS_MAX_PENDING + 1) (dc_pending s) (dc_next_request_id s) = Some i"
    using next_id_loop_ends [of "dc_pending s" "DCS_MAX_PENDING + 1"] assms by auto
  with next_id_loop_Some [OF i] show ?thesis by (simp add: dcs_pending_next_request_id_def Let_def)
qed

definition wrapping_state :: dcs_state where
  "wrapping_state = demo_start_state\<lparr>dc_next_request_id := - 1,
     dc_pending := [zero_pending\<lparr>ps_in_use := True, ps_request_id := 1\<rparr>, zero_pending, zero_pending, zero_pending]\<rparr>"

theorem request_id_loop_ends_witness:
  "snd (dcs_pending_next_request_id wrapping_state) \<noteq> 0 \<and> snd (dcs_pending_next_request_id wrapping_state) \<noteq> 1"
proof -
  have "length (dc_pending wrapping_state) = DCS_MAX_PENDING" by (simp add: wrapping_state_def)
  from request_id_loop_ends [OF this] show ?thesis by (auto simp: wrapping_state_def)
qed

lemma complete_status_eq:
  "slot_ok (dc_pending s ! i) \<Longrightarrow> ps_in_use (dc_pending s ! i) \<Longrightarrow> dcs_pending_complete_status i st s =
     (s\<lparr>dc_pending := (dc_pending s)[i := zero_pending]\<rparr>,
      [(the (ps_completion (dc_pending s ! i)), ps_context (dc_pending s ! i),
        zero_result\<lparr>rs_status := st, rs_request_id := ps_request_id (dc_pending s ! i)\<rparr>)])"
  by (auto simp: dcs_pending_complete_status_def dcs_pending_complete_def slot_ok_def Let_def)

definition expired :: "int \<Rightarrow> dcs_pending_slot \<Rightarrow> bool" where
  "expired now p \<longleftrightarrow> ps_in_use p \<and> ps_deadline_us p \<le> now"

definition timeout_call :: "dcs_pending_slot \<Rightarrow> completion_call" where
  "timeout_call p = (the (ps_completion p), ps_context p,
     zero_result\<lparr>rs_status := DEVICE_CMD_STATUS_TIMEOUT, rs_request_id := ps_request_id p\<rparr>)"

lemma timeout_loop_effect:
  "\<lbrakk>\<forall>p\<in>set (dc_pending s). slot_ok p; n \<le> length (dc_pending s); timeout_loop now [k..<n] s = (s', calls)\<rbrakk> \<Longrightarrow>
     dc_pending s' = take k (dc_pending s) @
       map (\<lambda>p. if expired now p then zero_pending else p) (take (n - k) (drop k (dc_pending s))) @ drop (max k n) (dc_pending s) \<and>
     calls = map timeout_call (filter (expired now) (take (n - k) (drop k (dc_pending s))))"
proof (induction "n - k" arbitrary: k s calls)
  case 0
  then show ?case by (simp add: max_def)
next
  case (Suc d)
  then have kn: "k < n" "k < length (dc_pending s)" by auto
  let ?p = "dc_pending s ! k"
  have st: "take (n - k) (drop k (dc_pending s)) = ?p # take (n - Suc k) (drop (Suc k) (dc_pending s))"
    using kn by (simp add: Suc_diff_Suc [symmetric] Cons_nth_drop_Suc [symmetric])
  have ok: "slot_ok ?p" using Suc.prems(1) kn by simp
  define s1 where "s1 = (if expired now ?p
     then (dcs_stats_map (\<lambda>t. t\<lparr>sx_timeout_count := sx_timeout_count t + 1\<rparr>) s)\<lparr>dc_pending := (dc_pending s)[k := zero_pending]\<rparr>
     else s)"
  obtain c2 where c2: "timeout_loop now [Suc k..<n] s1 = (s', c2)"
      "calls = (if expired now ?p then [timeout_call ?p] else []) @ c2"
    using Suc.prems(3) kn ok
    by (auto simp: s1_def upt_conv_Cons expired_def timeout_call_def complete_status_eq split: prod.splits if_splits)
  have p1: "dc_pending s1 = (dc_pending s)[k := if expired now ?p then zero_pending else ?p]" by (simp add: s1_def)
  have IH: "dc_pending s' = take (Suc k) (dc_pending s1) @
       map (\<lambda>p. if expired now p then zero_pending else p) (take (n - Suc k) (drop (Suc k) (dc_pending s1))) @
       drop (max (Suc k) n) (dc_pending s1) \<and>
     c2 = map timeout_call (filter (expired now) (take (n - Suc k) (drop (Suc k) (dc_pending s1))))"
  proof (rule Suc.hyps(1) [OF _ _ _ c2(1)])
    show "\<forall>p\<in>set (dc_pending s1). slot_ok p"
      unfolding p1 using Suc.prems(1) ok by (intro all_set_update) auto
  qed (use Suc in \<open>auto simp: p1\<close>)
  have "take (Suc k) (dc_pending s1) = take k (dc_pending s) @ [if expired now ?p then zero_pending else ?p]"
    using kn by (simp add: p1 take_Suc_conv_app_nth)
  with IH c2(2) st kn show ?case by (simp add: p1 max_def)
qed

text \<open>
  C22. The timeout check completes with \<open>TIMEOUT\<close> exactly the requests whose deadline has come, in slot
  order, frees exactly their slots and leaves the others as they are. A request is given two seconds
  from its submission: once a check runs at that time or later, it is no longer pending.
\<close>

theorem timeouts_complete_exactly_expired:
  assumes "dcs_inv s" "check_timeouts now s = (s', calls)"
  shows "dc_pending s' = map (\<lambda>p. if expired now p then zero_pending else p) (dc_pending s) \<and>
         calls = map timeout_call (filter (expired now) (dc_pending s)) \<and>
         (\<forall>p\<in>set (dc_pending s'). \<not> expired now p)"
proof -
  have l: "length (dc_pending s) = DCS_MAX_PENDING" "\<forall>p\<in>set (dc_pending s). slot_ok p"
    using assms(1) by (auto simp: dcs_inv_def)
  have "dc_pending s' = take 0 (dc_pending s) @
       map (\<lambda>p. if expired now p then zero_pending else p) (take (DCS_MAX_PENDING - 0) (drop 0 (dc_pending s))) @
       drop (max 0 DCS_MAX_PENDING) (dc_pending s) \<and>
     calls = map timeout_call (filter (expired now) (take (DCS_MAX_PENDING - 0) (drop 0 (dc_pending s))))"
    using assms(2) l unfolding check_timeouts_def by (intro timeout_loop_effect) auto
  with l(1) show ?thesis by (auto simp: expired_def)
qed

definition demo_submit_env :: submit_env where
  "demo_submit_env = \<lparr>sv_now_us = 100, sv_is_connected = (\<lambda>_. 1), sv_send_command = (\<lambda>_ _. 0),
     sv_validate = (\<lambda>_. DEVICE_SCHEMA_VALID)\<rparr>"

definition demo_slot :: dcs_pending_slot where
  "demo_slot = fill_slot demo_submit_env \<lparr>se_request = demo_request, se_completion = Some 7, se_context = 5\<rparr> 1 zero_pending"

definition demo_pending :: dcs_state where
  "demo_pending = demo_start_state\<lparr>dc_pending := [demo_slot, zero_pending, zero_pending, zero_pending]\<rparr>"

lemma demo_pending_inv: "dcs_inv demo_pending"
proof -
  have "slots_unique [demo_slot, zero_pending, zero_pending, zero_pending]"
    by (auto simp: slots_unique_def nth_Cons' split: if_splits)
  moreover have "slot_ok demo_slot" by (simp add: slot_ok_def demo_slot_def)
  moreover have "dc_completed_acks demo_start_state = replicate 4 \<lparr>ca_device_id = [], ca_request_id = 0, ca_command = []\<rparr>"
    "dc_normal_queue demo_start_state = Some []" "dc_urgent_queue demo_start_state = Some []"
    by (simp_all add: demo_start_state_def device_command_service_init_def dcs_pending_reset_def Let_def)
  ultimately show ?thesis by (simp add: dcs_inv_def demo_pending_def)
qed

theorem timeouts_complete_exactly_expired_witness:
  "map (\<lambda>(fn, ctx, r). (fn, ctx, rs_status r)) (snd (check_timeouts 2000100 demo_pending)) = [(7, 5, DEVICE_CMD_STATUS_TIMEOUT)]"
proof -
  have "filter (expired 2000100) (dc_pending demo_pending) = [demo_slot]"
    by (simp add: demo_pending_def expired_def demo_slot_def demo_submit_env_def)
  moreover have "snd (check_timeouts 2000100 demo_pending) =
      map timeout_call (filter (expired 2000100) (dc_pending demo_pending))"
    by (rule conjunct1 [OF conjunct2 [OF timeouts_complete_exactly_expired
            [OF demo_pending_inv prod.collapse [symmetric]]]])
  ultimately show ?thesis by (simp add: timeout_call_def demo_slot_def)
qed

lemma find_id_unique:
  assumes "dcs_inv s" "i < length (dc_pending s)" "ps_in_use (dc_pending s ! i)"
  shows "dcs_pending_find_id s (ps_device_id (dc_pending s ! i)) (ps_request_id (dc_pending s ! i)) = Some i"
  unfolding dcs_pending_find_id_def
proof (rule find_index_SomeI)
  show "\<forall>j<i. \<not> (ps_in_use (dc_pending s ! j) \<and> ps_device_id (dc_pending s ! j) = ps_device_id (dc_pending s ! i) \<and>
      ps_request_id (dc_pending s ! j) = ps_request_id (dc_pending s ! i))"
    using assms by (auto simp: dcs_inv_def slots_unique_def)
qed (use assms in auto)

definition ack_matches :: "dcs_ack_event \<Rightarrow> dcs_pending_slot \<Rightarrow> bool" where
  "ack_matches ack p \<longleftrightarrow> ps_in_use p \<and> ps_device_id p = ak_device_id ack \<and> ps_request_id p = ak_request_id ack \<and>
     ps_command p = ak_command ack"

lemma handle_ack_match:
  assumes "dcs_inv s" "i < length (dc_pending s)" "ack_matches ack (dc_pending s ! i)" "handle_ack now enq ack s = (s', calls)"
  shows "calls = [(the (ps_completion (dc_pending s ! i)), ps_context (dc_pending s ! i), ack_result ack (dc_pending s ! i))] \<and>
    dc_pending s' = (dc_pending s)[i := zero_pending] \<and>
    dc_completed_acks s' = dc_completed_acks (dcs_pending_note_completed_ack (dc_pending s ! i) s)"
proof -
  let ?p = "dc_pending s ! i"
  have f: "dcs_pending_find_id s (ak_device_id ack) (ak_request_id ack) = Some i"
    using find_id_unique [OF assms(1,2)] assms(3) by (simp add: ack_matches_def)
  have ok: "slot_ok ?p" using assms(1,2) by (simp add: dcs_inv_def)
  then obtain fn where fn: "ps_completion ?p = Some fn" using assms(3) by (auto simp: slot_ok_def ack_matches_def)
  have "ak_request_id ack \<noteq> 0" using ok assms(3) by (auto simp: slot_ok_def ack_matches_def)
  then show ?thesis
    using assms(3,4) f fn
    by (auto simp: handle_ack_def Let_def ack_matches_def dcs_pending_complete_def dcs_pending_note_completed_ack_def)
qed


definition demo_ack :: dcs_ack_event where
  "demo_ack = \<lparr>ak_device_id = ''lamp'', ak_request_id = 1, ak_command = ''describe_capabilities'', ak_accepted = True,
     ak_has_bool_value = True, ak_bool_value = True, ak_has_int_value = False, ak_int_value = 0,
     ak_has_feature_value_bool = False, ak_feature_value_bool = False, ak_has_feature_value_int = False,
     ak_feature_value_int = 0\<rparr>"

lemma demo_ack_matches: "ack_matches demo_ack (dc_pending demo_pending ! 0)"
  by (simp add: ack_matches_def demo_ack_def demo_pending_def demo_slot_def demo_request_def zero_request_def)


text \<open>
  An acknowledgement that matches no pending request in device, identifier and command (late,
  forged, or for another command) completes nothing and leaves every slot as it is.
\<close>

theorem stray_ack_is_harmless:
  assumes "\<forall>p\<in>set (dc_pending s). \<not> ack_matches ack p" "handle_ack now enq ack s = (s', calls)"
  shows "calls = [] \<and> dc_pending s' = dc_pending s \<and> dc_completed_acks s' = dc_completed_acks s"
proof (cases "dcs_pending_find_id s (ak_device_id ack) (ak_request_id ack)")
  case None
  with assms(2) show ?thesis by (auto simp: handle_ack_def Let_def split: if_splits)
next
  case (Some i)
  note f = find_id_Some [OF Some]
  then have "dc_pending s ! i \<in> set (dc_pending s)" by simp
  with assms(1) f have "ps_command (dc_pending s ! i) \<noteq> ak_command ack" by (auto simp: ack_matches_def)
  with Some assms(2) show ?thesis by (auto simp: handle_ack_def Let_def split: if_splits)
qed

theorem stray_ack_is_harmless_witness:
  "snd (handle_ack 200 150 (demo_ack\<lparr>ak_command := ''off''\<rparr>) demo_pending) = []"
proof -
  have "\<forall>p\<in>set (dc_pending demo_pending). \<not> ack_matches (demo_ack\<lparr>ak_command := ''off''\<rparr>) p"
    by (simp add: ack_matches_def demo_pending_def demo_slot_def demo_ack_def demo_request_def zero_request_def)
  from conjunct1 [OF stray_ack_is_harmless [OF this prod.collapse [symmetric]]] show ?thesis .
qed

lemma handle_submit_sent:
  assumes "dcs_inv s" "event_ok e" "dcs_handle_submit env e s = (s', calls, Some (dev, msg))"
  shows "dcs_validate_request (sv_validate env) (se_request e)
           ((dcs_build_wire_message (se_request e) 0)\<lparr>m_has_request_id := False\<rparr>) = DEVICE_CMD_STATUS_OK \<and>
    0 < sv_is_connected env dev \<and> dcs_pending_find_device s dev = None \<and> dev = rq_device_id (se_request e) \<and>
    (\<exists>rid i p0. msg = dcs_build_wire_message (se_request e) rid \<and> rid \<noteq> 0 \<and>
       (\<forall>p\<in>set (dc_pending s). ps_in_use p \<longrightarrow> ps_request_id p \<noteq> rid) \<and> i < length (dc_pending s) \<and>
       (sv_send_command env dev msg = 0 \<longrightarrow> calls = [] \<and> dc_pending s' = (dc_pending s)[i := fill_slot env e rid p0]) \<and>
       (sv_send_command env dev msg \<noteq> 0 \<longrightarrow> dc_pending s' = (dc_pending s)[i := zero_pending]))"
proof -
  let ?rq = "se_request e"
  have v: "dcs_validate_request (sv_validate env) ?rq ((dcs_build_wire_message ?rq 0)\<lparr>m_has_request_id := False\<rparr>) = DEVICE_CMD_STATUS_OK"
    "0 < sv_is_connected env (rq_device_id ?rq)" "dcs_pending_find_device s (rq_device_id ?rq) = None"
    "dcs_pending_allocate s \<noteq> None"
    using assms(3) by (auto simp: dcs_handle_submit_def Let_def not_le split: if_splits option.splits)
  then obtain i where i: "dcs_pending_allocate s = Some i" by blast
  define s1 where "s1 = s\<lparr>dc_pending := (dc_pending s)[i := (dc_pending s ! i)\<lparr>ps_in_use := True\<rparr>]\<rparr>"
  obtain s2 rid where 2: "dcs_pending_next_request_id s1 = (s2, rid)" by fastforce
  define s3 where "s3 = s2\<lparr>dc_pending := (dc_pending s2)[i := fill_slot env e rid (dc_pending s2 ! i)]\<rparr>"
  note n = new_slot [OF assms(1,2) v(3) i s1_def 2 s3_def]
  have p3s: "(dc_pending s2)[i := fill_slot env e rid (dc_pending s2 ! i)] = dc_pending s3" by (simp add: s3_def)
  have il: "i < length (dc_pending s)" using n by (metis length_list_update)
  have d: "ps_device_id (dc_pending s3 ! i) = rq_device_id ?rq"
    using n il assms(2) by (simp add: event_ok_def request_fits_def)
  have r: "dev = rq_device_id ?rq" "msg = dcs_build_wire_message ?rq rid"
    "sv_send_command env dev msg = 0 \<longrightarrow> calls = [] \<and> dc_pending s' = dc_pending s3"
    "sv_send_command env dev msg \<noteq> 0 \<longrightarrow> dc_pending s' = (dc_pending s3)[i := zero_pending]"
    using assms(3) v i 2 d
    by (auto simp: dcs_handle_submit_def Let_def s1_def [symmetric] s3_def [symmetric] p3s
        dcs_pending_complete_status_def dcs_pending_complete_def split: if_splits)
  then show ?thesis using v n il by (auto simp: list_update_overwrite)
qed


definition demo_event :: dcs_submit_event where
  "demo_event = \<lparr>se_request = demo_request, se_completion = Some 7, se_context = 5\<rparr>"

lemma demo_event_ok: "event_ok demo_event"
  by (simp add: event_ok_def demo_event_def demo_request_fits)

lemma demo_idle_inv: "dcs_inv demo_start_state"
  using dcs_start_ledger [OF demo_config_start] by (simp add: dcs_ledger_def demo_config_def)

lemma demo_sent:
  "\<exists>s' calls msg. dcs_handle_submit demo_submit_env demo_event demo_start_state = (s', calls, Some (''lamp'', msg))"
proof -
  have p: "dc_pending demo_start_state = replicate 4 zero_pending"
    by (simp add: demo_start_state_def device_command_service_init_def dcs_pending_reset_def Let_def)
  have "dcs_pending_find_device demo_start_state ''lamp'' = None" "dcs_pending_allocate demo_start_state = Some 0"
    by (simp_all add: dcs_pending_find_device_def dcs_pending_allocate_def p numeral_eq_Suc)
  then show ?thesis
    by (simp add: dcs_handle_submit_def demo_event_def demo_request_def zero_request_def dcs_validate_request_def
        demo_submit_env_def Let_def p dcs_pending_next_request_id_def)
qed


text \<open>
  Shutting the service down loses what is still queued. A submission answered \<open>ESP_OK\<close> that the
  task has not taken yet when the shutdown event arrives is never completed: the task leaves its loop
  and cancels only the pending slots, and the queue is then deleted with the submission in it, although
  the interface promises a completion for every accepted request.
\<close>

theorem shutdown_drops_queued_request:
  "let (s1, err) = device_command_service_submit (Some demo_request) (Some 7) 5 demo_start_state;
       s2 = dcs_request_shutdown s1;
       (s3, calls, sent, stop) = dcs_service_turn demo_submit_env s2;
       (s4, calls4) = dcs_service_exit s3
   in err = ESP_OK \<and> stop \<and> calls = [] \<and> calls4 = [] \<and> dc_task_stopped s4 \<and>
      map_option (map event_ticket) (dc_normal_queue s4) = Some [(7, 5)] \<and>
      dc_normal_queue (dcs_delete_queues s4) = None"
  by code_simp

end
