(* ===== verification/Control_Scheduler.thy ===== *)
theory Control_Scheduler
  imports Gw_Message "HOL-Library.Multiset" "HOL-Library.Signed_Division"
begin

text \<open>
  The control scheduler (\<open>device_control_scheduler/\<close>): it stands between the clients that want a
  device command and the command service. Twenty-four job slots, sixteen device entries and sixteen
  lease slots sit behind one spin lock; a worker task ages, completes and dispatches the slots.

  \<^item> A critical section is one function on the whole state \<open>g_ctrl\<close>; a callback or a call of the
    command service happens between two of them. What a function reads from outside (the clock, the
    answer of the command service) is an argument.
  \<^item> A completion is a function pointer with a context; a function returns the calls it makes.
  \<^item> \<open>priority\<close> and \<open>source\<close> are the integers of the C enumerations, which the code checks for range.
  \<^item> Time is \<^typ>\<open>int\<close> microseconds (\<open>int64_t\<close>); \<open>inflight\<close>, \<open>high_burst\<close>, the identifiers and the
    statistics keep their width.
\<close>

section \<open>Data\<close>

abbreviation DEVICE_CTRL_MAX_DEVICES :: nat where "DEVICE_CTRL_MAX_DEVICES \<equiv> 16"
abbreviation DEVICE_CTRL_MAX_JOBS :: nat where "DEVICE_CTRL_MAX_JOBS \<equiv> 24"
abbreviation DEVICE_CTRL_MAX_INFLIGHT :: nat where "DEVICE_CTRL_MAX_INFLIGHT \<equiv> 4"
abbreviation DEVICE_CTRL_HIGH_BURST_MAX :: nat where "DEVICE_CTRL_HIGH_BURST_MAX \<equiv> 8"

abbreviation DEVICE_CTRL_PRIORITY_HIGH :: nat where "DEVICE_CTRL_PRIORITY_HIGH \<equiv> 0"
abbreviation DEVICE_CTRL_PRIORITY_NORMAL :: nat where "DEVICE_CTRL_PRIORITY_NORMAL \<equiv> 1"
abbreviation DEVICE_CTRL_PRIORITY_LOW :: nat where "DEVICE_CTRL_PRIORITY_LOW \<equiv> 2"
abbreviation DEVICE_CTRL_PRIORITY_BACKGROUND :: nat where "DEVICE_CTRL_PRIORITY_BACKGROUND \<equiv> 3"
abbreviation DEVICE_CTRL_SOURCE_SCHEMA :: nat where "DEVICE_CTRL_SOURCE_SCHEMA \<equiv> 2"
abbreviation DEVICE_CTRL_SOURCE_SETTINGS :: nat where "DEVICE_CTRL_SOURCE_SETTINGS \<equiv> 3"
abbreviation DEVICE_CTRL_SOURCE_STATE :: nat where "DEVICE_CTRL_SOURCE_STATE \<equiv> 4"
abbreviation DEVICE_CTRL_SOURCE_INTERNAL :: nat where "DEVICE_CTRL_SOURCE_INTERNAL \<equiv> 5"

datatype device_control_dedupe =
    DEVICE_CTRL_DEDUPE_NONE
  | DEVICE_CTRL_DEDUPE_DROP_IF_EXISTS
  | DEVICE_CTRL_DEDUPE_REPLACE_QUEUED

datatype device_control_terminal =
    DEVICE_CTRL_TERMINAL_COMMAND
  | DEVICE_CTRL_TERMINAL_CANCELLED
  | DEVICE_CTRL_TERMINAL_SUPERSEDED
  | DEVICE_CTRL_TERMINAL_DEADLINE_EXCEEDED

record device_control_job =
  j_request :: device_command_request
  j_priority :: nat
  j_source :: nat
  j_dedupe :: device_control_dedupe
  j_owner_token :: u32
  j_lease_id :: u32
  j_max_queue_wait_ms :: u32
  j_dedupe_hash :: u32

definition zero_job :: device_control_job where
  "zero_job =
     \<lparr>j_request = zero_request, j_priority = 0, j_source = 0, j_dedupe = DEVICE_CTRL_DEDUPE_NONE,
      j_owner_token = 0, j_lease_id = 0, j_max_queue_wait_ms = 0, j_dedupe_hash = 0\<rparr>"

record device_control_result =
  cr_scheduler_job_id :: u32
  cr_terminal :: device_control_terminal
  cr_command_result :: device_command_result

record device_control_lease_request =
  lr_device_id :: "string option"
  lr_priority :: nat
  lr_source :: nat
  lr_owner_token :: u32

record device_control_scheduler_stats =
  ct_submitted :: u32
  ct_dispatched :: u32
  ct_completed :: u32
  ct_cancelled :: u32
  ct_superseded :: u32
  ct_deadline_exceeded :: u32
  ct_queue_full :: u32
  ct_deduped :: u32
  ct_max_queued :: u32
  ct_max_inflight :: u32
  ct_lease_granted :: u32
  ct_lease_revoked :: u32
  ct_max_active_leases :: u32
  ct_lease_hold_max_ms :: u32
  ct_dcs_busy :: u32
  ct_completion_mailbox_conflict :: u32

definition zero_ctrl_stats :: device_control_scheduler_stats where
  "zero_ctrl_stats =
     \<lparr>ct_submitted = 0, ct_dispatched = 0, ct_completed = 0, ct_cancelled = 0, ct_superseded = 0,
      ct_deadline_exceeded = 0, ct_queue_full = 0, ct_deduped = 0, ct_max_queued = 0,
      ct_max_inflight = 0, ct_lease_granted = 0, ct_lease_revoked = 0, ct_max_active_leases = 0,
      ct_lease_hold_max_ms = 0, ct_dcs_busy = 0, ct_completion_mailbox_conflict = 0\<rparr>"

datatype ctrl_slot_state =
    CTRL_SLOT_FREE
  | CTRL_SLOT_ENQUEUE_PENDING
  | CTRL_SLOT_QUEUED
  | CTRL_SLOT_INFLIGHT
  | CTRL_SLOT_COMPLETION_PENDING
  | CTRL_SLOT_COMPLETING

record ctrl_dcs_context =
  dx_slot :: nat
  dx_generation :: u32

record ctrl_slot =
  cs_state :: ctrl_slot_state
  cs_generation :: u32
  cs_id :: u32
  cs_job :: device_control_job
  cs_completion :: "nat option"
  cs_context :: nat
  cs_enqueue_us :: int
  cs_deadline_us :: int
  cs_pending_result :: device_command_result
  cs_dcs_context :: ctrl_dcs_context
  cs_terminal :: device_control_terminal
  cs_completion_written :: bool
  cs_device_index :: nat

definition zero_ctrl_slot :: ctrl_slot where
  "zero_ctrl_slot =
     \<lparr>cs_state = CTRL_SLOT_FREE, cs_generation = 0, cs_id = 0, cs_job = zero_job,
      cs_completion = None, cs_context = 0, cs_enqueue_us = 0, cs_deadline_us = 0,
      cs_pending_result = zero_result, cs_dcs_context = \<lparr>dx_slot = 0, dx_generation = 0\<rparr>,
      cs_terminal = DEVICE_CTRL_TERMINAL_COMMAND, cs_completion_written = False,
      cs_device_index = 0\<rparr>"

record ctrl_device =
  cd_used :: bool
  cd_blocked :: bool
  cd_transport_inflight :: bool
  cd_device_id :: string
  cd_inflight_slot :: int
  cd_lease :: u32
  cd_lease_owner :: u32
  cd_lease_source :: nat
  cd_lease_started_us :: int

definition zero_device :: ctrl_device where
  "zero_device =
     \<lparr>cd_used = False, cd_blocked = False, cd_transport_inflight = False, cd_device_id = [],
      cd_inflight_slot = 0, cd_lease = 0, cd_lease_owner = 0, cd_lease_source = 0,
      cd_lease_started_us = 0\<rparr>"

datatype ctrl_lease_state =
    CTRL_LEASE_FREE
  | CTRL_LEASE_PENDING
  | CTRL_LEASE_ACTIVE
  | CTRL_LEASE_COMPLETION_PENDING

record ctrl_lease =
  cl_state :: ctrl_lease_state
  cl_id :: u32
  cl_device_index :: nat
  cl_priority :: nat
  cl_source :: nat
  cl_owner :: u32
  cl_completion :: "nat option"
  cl_context :: nat
  cl_completion_status :: esp_err

definition zero_lease :: ctrl_lease where
  "zero_lease =
     \<lparr>cl_state = CTRL_LEASE_FREE, cl_id = 0, cl_device_index = 0, cl_priority = 0, cl_source = 0,
      cl_owner = 0, cl_completion = None, cl_context = 0, cl_completion_status = ESP_OK\<rparr>"

text \<open>\<open>g_ctrl\<close>. \<open>g_task\<close> says whether the worker task exists.\<close>

record ctrl_state =
  g_task :: bool
  g_running :: bool
  g_stopped :: bool
  g_slots :: "ctrl_slot list"
  g_devices :: "ctrl_device list"
  g_leases :: "ctrl_lease list"
  g_next_job :: u32
  g_next_lease :: u32
  g_inflight :: u32
  g_rr_device :: nat
  g_high_burst :: u32
  g_stats :: device_control_scheduler_stats

type_synonym job_call = "nat option \<times> nat \<times> device_control_result"
type_synonym lease_call = "nat option \<times> nat \<times> esp_err \<times> u32"

abbreviation slot_map :: "nat \<Rightarrow> (ctrl_slot \<Rightarrow> ctrl_slot) \<Rightarrow> ctrl_state \<Rightarrow> ctrl_state" where
  "slot_map i f g \<equiv> g\<lparr>g_slots := (g_slots g)[i := f (g_slots g ! i)]\<rparr>"

abbreviation device_map :: "nat \<Rightarrow> (ctrl_device \<Rightarrow> ctrl_device) \<Rightarrow> ctrl_state \<Rightarrow> ctrl_state" where
  "device_map d f g \<equiv> g\<lparr>g_devices := (g_devices g)[d := f (g_devices g ! d)]\<rparr>"

abbreviation lease_map :: "nat \<Rightarrow> (ctrl_lease \<Rightarrow> ctrl_lease) \<Rightarrow> ctrl_state \<Rightarrow> ctrl_state" where
  "lease_map i f g \<equiv> g\<lparr>g_leases := (g_leases g)[i := f (g_leases g ! i)]\<rparr>"

definition ctrl_count :: "(device_control_scheduler_stats \<Rightarrow> device_control_scheduler_stats) \<Rightarrow> ctrl_state \<Rightarrow> ctrl_state" where
  "ctrl_count f g = g\<lparr>g_stats := f (g_stats g)\<rparr>"

section \<open>Public operations (\<open>device_control_scheduler.c\<close>)\<close>

definition ctrl_find_device_locked :: "string \<Rightarrow> bool \<Rightarrow> ctrl_state \<Rightarrow> ctrl_state \<times> nat option" where
  "ctrl_find_device_locked ident create g =
     (case find_index (\<lambda>d. cd_used d \<and> cd_device_id d = ident) (g_devices g) of
        Some i \<Rightarrow> (g, Some i)
      | None \<Rightarrow>
          if \<not> create then (g, None)
          else (case find_index (\<lambda>d. \<not> cd_used d) (g_devices g) of
                  Some i \<Rightarrow> (device_map i (\<lambda>d. d\<lparr>cd_used := True, cd_inflight_slot := - 1,
                                   cd_device_id := strlcpy GW_MSG_DEVICE_ID_LEN ident\<rparr>) g, Some i)
                | None \<Rightarrow> (g, None)))"

text \<open>
  \<open>memcmp\<close> over the two requests is equality of the records: the callers build a job from a zeroed
  structure, so that padding and the bytes behind a terminator are zero in both.
\<close>

definition ctrl_job_equal :: "device_control_job \<Rightarrow> device_control_job \<Rightarrow> bool" where
  "ctrl_job_equal a b \<longleftrightarrow>
     j_dedupe_hash a = j_dedupe_hash b \<and> j_source a = j_source b \<and>
     j_owner_token a = j_owner_token b \<and> rq_origin (j_request a) = rq_origin (j_request b) \<and>
     j_request a = j_request b"

definition ctrl_stats_locked :: "ctrl_state \<Rightarrow> ctrl_state" where
  "ctrl_stats_locked g =
     (let queued = of_nat (count_if (\<lambda>s. cs_state s = CTRL_SLOT_ENQUEUE_PENDING \<or> cs_state s = CTRL_SLOT_QUEUED)
                            (g_slots g));
          leases = of_nat (count_if (\<lambda>d. cd_lease d \<noteq> 0) (g_devices g))
      in ctrl_count (\<lambda>t. t\<lparr>ct_max_queued := max queued (ct_max_queued t),
                          ct_max_inflight := max (g_inflight g) (ct_max_inflight t),
                          ct_max_active_leases := max leases (ct_max_active_leases t)\<rparr>) g)"

definition device_control_scheduler_init :: "bool \<Rightarrow> ctrl_state \<Rightarrow> ctrl_state \<times> esp_err" where
  "device_control_scheduler_init task_created g =
     (if g_task g then (g, ESP_ERR_INVALID_STATE)
      else (let g = \<lparr>g_task = False, g_running = True, g_stopped = False,
                     g_slots = replicate DEVICE_CTRL_MAX_JOBS zero_ctrl_slot,
                     g_devices = replicate DEVICE_CTRL_MAX_DEVICES zero_device,
                     g_leases = replicate DEVICE_CTRL_MAX_DEVICES zero_lease,
                     g_next_job = 0, g_next_lease = 0, g_inflight = 0, g_rr_device = 0,
                     g_high_burst = 0, g_stats = zero_ctrl_stats\<rparr>
            in if \<not> task_created then (g\<lparr>g_running := False, g_task := False\<rparr>, ESP_ERR_NO_MEM)
               else (g\<lparr>g_task := True\<rparr>, ESP_OK)))"

text \<open>
  \<open>deinit\<close> is three moments with waits between them: the marking of every job that is not in flight,
  the end of \<open>running\<close>, and the end of \<open>task\<close>.
\<close>

definition deinit_mark :: "ctrl_state \<Rightarrow> ctrl_state" where
  "deinit_mark g =
     (if \<not> g_task g then g
      else g\<lparr>g_slots := map (\<lambda>s. if cs_state s \<noteq> CTRL_SLOT_FREE \<and> cs_state s \<noteq> CTRL_SLOT_INFLIGHT
                               then s\<lparr>cs_terminal := DEVICE_CTRL_TERMINAL_CANCELLED,
                                      cs_state := CTRL_SLOT_COMPLETION_PENDING\<rparr>
                               else s) (g_slots g)\<rparr>)"

definition deinit_stop :: "ctrl_state \<Rightarrow> ctrl_state" where
  "deinit_stop g = (if \<not> g_task g then g else g\<lparr>g_running := False\<rparr>)"

definition deinit_forget :: "ctrl_state \<Rightarrow> ctrl_state" where
  "deinit_forget g = (if \<not> g_task g then g else g\<lparr>g_task := False\<rparr>)"

text \<open>
  The loop over the queued jobs at the start of a submission: a job equal to a queued one is dropped,
  with the identifier of that one, or supersedes it.
\<close>

fun dedupe_loop :: "device_control_job \<Rightarrow> nat list \<Rightarrow> ctrl_state \<Rightarrow> ctrl_state \<times> u32 option" where
  "dedupe_loop job [] g = (g, None)"
| "dedupe_loop job (i # is) g =
     (let s = g_slots g ! i in
      if cs_state s = CTRL_SLOT_QUEUED \<and> j_dedupe job \<noteq> DEVICE_CTRL_DEDUPE_NONE \<and> ctrl_job_equal (cs_job s) job
      then (let g = ctrl_count (\<lambda>t. t\<lparr>ct_deduped := ct_deduped t + 1\<rparr>) g in
            if j_dedupe job = DEVICE_CTRL_DEDUPE_DROP_IF_EXISTS then (g, Some (cs_id s))
            else dedupe_loop job is
                   (slot_map i (\<lambda>s. s\<lparr>cs_terminal := DEVICE_CTRL_TERMINAL_SUPERSEDED,
                                     cs_state := CTRL_SLOT_COMPLETION_PENDING\<rparr>) g))
      else dedupe_loop job is g)"

definition next_id :: "u32 \<Rightarrow> u32" where
  "next_id n = (if n + 1 = 0 then 1 else n + 1)"

definition enqueue_job :: "int \<Rightarrow> device_control_job \<Rightarrow> nat \<Rightarrow> nat \<Rightarrow> nat \<Rightarrow> nat \<Rightarrow> ctrl_state \<Rightarrow> ctrl_state" where
  "enqueue_job now job fn ctx device i g =
     (let generation = cs_generation (g_slots g ! i) + 1 in
      slot_map i (\<lambda>_. zero_ctrl_slot\<lparr>cs_state := CTRL_SLOT_ENQUEUE_PENDING,
          cs_generation := (if generation \<noteq> 0 then generation else 1),
          cs_id := next_id (g_next_job g), cs_job := job, cs_completion := Some fn, cs_context := ctx,
          cs_device_index := device, cs_enqueue_us := now,
          cs_deadline_us := (if j_max_queue_wait_ms job \<noteq> 0
                             then now + int (unat (j_max_queue_wait_ms job)) * 1000 else 0)\<rparr>)
        (g\<lparr>g_next_job := next_id (g_next_job g)\<rparr>))"

definition device_control_scheduler_submit ::
    "int \<Rightarrow> device_control_job option \<Rightarrow> nat option \<Rightarrow> nat \<Rightarrow> ctrl_state \<Rightarrow> ctrl_state \<times> esp_err \<times> u32 option" where
  "device_control_scheduler_submit now job_opt completion ctx g =
     (case (job_opt, completion) of
        (Some job, Some fn) \<Rightarrow>
          if rq_device_id (j_request job) = [] \<or> j_priority job > DEVICE_CTRL_PRIORITY_BACKGROUND \<or>
             j_source job > DEVICE_CTRL_SOURCE_INTERNAL
          then (g, ESP_ERR_INVALID_ARG, None)
          else if j_dedupe job \<noteq> DEVICE_CTRL_DEDUPE_NONE \<and> j_priority job \<noteq> DEVICE_CTRL_PRIORITY_BACKGROUND
          then (g, ESP_ERR_INVALID_ARG, None)
          else if \<not> g_running g then (g, ESP_ERR_INVALID_STATE, None)
          else (case ctrl_find_device_locked (rq_device_id (j_request job)) True g of
             (g, None) \<Rightarrow> (ctrl_count (\<lambda>t. t\<lparr>ct_queue_full := ct_queue_full t + 1\<rparr>) g, ESP_ERR_NO_MEM, None)
           | (g, Some device) \<Rightarrow>
               (case dedupe_loop job [0..<DEVICE_CTRL_MAX_JOBS] g of
                  (g, Some existing) \<Rightarrow> (g, ESP_ERR_INVALID_STATE, Some existing)
                | (g, None) \<Rightarrow>
                    (case find_index (\<lambda>s. cs_state s = CTRL_SLOT_FREE) (g_slots g) of
                       None \<Rightarrow> (ctrl_count (\<lambda>t. t\<lparr>ct_queue_full := ct_queue_full t + 1\<rparr>) g, ESP_ERR_NO_MEM, None)
                     | Some i \<Rightarrow>
                         (ctrl_stats_locked (ctrl_count (\<lambda>t. t\<lparr>ct_submitted := ct_submitted t + 1\<rparr>)
                            (enqueue_job now job fn ctx device i g)),
                          ESP_OK, Some (next_id (g_next_job g))))))
      | _ \<Rightarrow> (g, ESP_ERR_INVALID_ARG, None))"

text \<open>
  The two loops of a cancellation. \<open>cancels\<close> is the negation of the condition of the \<open>continue\<close> of
  the first; a job in flight is left to the command service, whose cancellation the caller requests
  for the last such device.
\<close>

definition cancels :: "string \<Rightarrow> nat \<Rightarrow> u32 \<Rightarrow> bool \<Rightarrow> u32 \<Rightarrow> ctrl_slot \<Rightarrow> bool" where
  "cancels device_id source owner all_sources ident s \<longleftrightarrow>
     \<not> (cs_state s = CTRL_SLOT_FREE \<or> (ident \<noteq> 0 \<and> cs_id s \<noteq> ident) \<or>
        (ident = 0 \<and> rq_device_id (j_request (cs_job s)) \<noteq> device_id) \<or>
        (\<not> all_sources \<and> (j_source (cs_job s) \<noteq> source \<or> j_owner_token (cs_job s) \<noteq> owner)))"

fun cancel_jobs :: "(ctrl_slot \<Rightarrow> bool) \<Rightarrow> nat list \<Rightarrow> ctrl_state \<Rightarrow> bool \<Rightarrow> string option \<Rightarrow> ctrl_state \<times> bool \<times> string option" where
  "cancel_jobs P [] g found inflight = (g, found, inflight)"
| "cancel_jobs P (i # is) g found inflight =
     (let s = g_slots g ! i in
      if \<not> P s then cancel_jobs P is g found inflight
      else if cs_state s = CTRL_SLOT_INFLIGHT
      then cancel_jobs P is g True (Some (strlcpy GW_MSG_DEVICE_ID_LEN (rq_device_id (j_request (cs_job s)))))
      else cancel_jobs P is
             (ctrl_count (\<lambda>t. t\<lparr>ct_cancelled := ct_cancelled t + 1\<rparr>)
                (slot_map i (\<lambda>s. s\<lparr>cs_terminal := DEVICE_CTRL_TERMINAL_CANCELLED,
                                  cs_state := CTRL_SLOT_COMPLETION_PENDING\<rparr>) g)) True inflight)"

fun cancel_leases :: "string \<Rightarrow> nat \<Rightarrow> u32 \<Rightarrow> bool \<Rightarrow> nat list \<Rightarrow> ctrl_state \<Rightarrow> bool \<Rightarrow> ctrl_state \<times> bool" where
  "cancel_leases device_id source owner all_sources [] g found = (g, found)"
| "cancel_leases device_id source owner all_sources (i # is) g found =
     (let l = g_leases g ! i in
      if cl_state l = CTRL_LEASE_FREE \<or> cd_device_id (g_devices g ! cl_device_index l) \<noteq> device_id \<or>
         (\<not> all_sources \<and> (cl_source l \<noteq> source \<or> cl_owner l \<noteq> owner))
      then cancel_leases device_id source owner all_sources is g found
      else if cl_state l = CTRL_LEASE_ACTIVE
      then cancel_leases device_id source owner all_sources is
             (lease_map i (\<lambda>l. l\<lparr>cl_state := CTRL_LEASE_FREE\<rparr>)
                (ctrl_count (\<lambda>t. t\<lparr>ct_lease_revoked := ct_lease_revoked t + 1\<rparr>)
                   (device_map (cl_device_index l) (\<lambda>d. d\<lparr>cd_lease := 0\<rparr>) g))) True
      else cancel_leases device_id source owner all_sources is
             (lease_map i (\<lambda>l. l\<lparr>cl_completion_status := ESP_ERR_INVALID_STATE,
                                 cl_state := CTRL_LEASE_COMPLETION_PENDING\<rparr>) g) True)"

text \<open>The last component is the device whose command the command service is asked to cancel.\<close>

definition ctrl_cancel_match ::
    "string \<Rightarrow> nat \<Rightarrow> u32 \<Rightarrow> bool \<Rightarrow> u32 \<Rightarrow> ctrl_state \<Rightarrow> ctrl_state \<times> esp_err \<times> string option" where
  "ctrl_cancel_match device_id source owner all_sources ident g =
     (case cancel_jobs (cancels device_id source owner all_sources ident) [0..<DEVICE_CTRL_MAX_JOBS] g False None of
        (g, found, inflight) \<Rightarrow>
          (case (if ident = 0 then cancel_leases device_id source owner all_sources [0..<DEVICE_CTRL_MAX_DEVICES] g found
                 else (g, found)) of
             (g, found) \<Rightarrow> (g, if found then ESP_OK else ESP_ERR_NOT_FOUND, inflight)))"

definition device_control_scheduler_cancel_job :: "u32 \<Rightarrow> ctrl_state \<Rightarrow> ctrl_state \<times> esp_err \<times> string option" where
  "device_control_scheduler_cancel_job ident g =
     (if ident \<noteq> 0 then ctrl_cancel_match [] 0 0 True ident g else (g, ESP_ERR_INVALID_ARG, None))"

definition device_control_scheduler_cancel_source ::
    "string option \<Rightarrow> nat \<Rightarrow> u32 \<Rightarrow> ctrl_state \<Rightarrow> ctrl_state \<times> esp_err \<times> string option" where
  "device_control_scheduler_cancel_source dev source owner g =
     (case dev of Some ident \<Rightarrow> ctrl_cancel_match ident source owner False 0 g | None \<Rightarrow> (g, ESP_ERR_INVALID_ARG, None))"

definition device_control_scheduler_cancel_device :: "string option \<Rightarrow> ctrl_state \<Rightarrow> ctrl_state \<times> esp_err \<times> string option" where
  "device_control_scheduler_cancel_device dev g =
     (case dev of Some ident \<Rightarrow> ctrl_cancel_match ident 0 0 True 0 g | None \<Rightarrow> (g, ESP_ERR_INVALID_ARG, None))"

definition device_control_scheduler_block_device :: "string option \<Rightarrow> ctrl_state \<Rightarrow> ctrl_state \<times> esp_err" where
  "device_control_scheduler_block_device dev g =
     (if dev = None \<or> dev = Some [] then (g, ESP_ERR_INVALID_ARG)
      else (case ctrl_find_device_locked (the dev) True g of
              (g, Some d) \<Rightarrow> (device_map d (\<lambda>v. v\<lparr>cd_blocked := True\<rparr>) g, ESP_OK)
            | (g, None) \<Rightarrow> (g, ESP_ERR_NO_MEM)))"

definition device_control_scheduler_unblock_device :: "string option \<Rightarrow> ctrl_state \<Rightarrow> ctrl_state \<times> esp_err" where
  "device_control_scheduler_unblock_device dev g =
     (case dev of
        None \<Rightarrow> (g, ESP_ERR_INVALID_ARG)
      | Some ident \<Rightarrow> (case ctrl_find_device_locked ident False g of
              (g, Some d) \<Rightarrow> (device_map d (\<lambda>v. v\<lparr>cd_blocked := False\<rparr>) g, ESP_OK)
            | (g, None) \<Rightarrow> (g, ESP_ERR_NOT_FOUND)))"

definition device_control_scheduler_is_idle :: "string \<Rightarrow> ctrl_state \<Rightarrow> bool" where
  "device_control_scheduler_is_idle ident g =
     (case ctrl_find_device_locked ident False g of
        (g, Some d) \<Rightarrow>
          \<not> cd_transport_inflight (g_devices g ! d) \<and> cd_lease (g_devices g ! d) = 0 \<and>
          \<not> (\<exists>s\<in>set (g_slots g). cs_state s \<noteq> CTRL_SLOT_FREE \<and> cs_device_index s = d)
      | (g, None) \<Rightarrow> True)"

text \<open>
  \<open>quiesce\<close> polls every 10 ms; \<open>ws\<close> is what the rest of the system does to the state during each
  wait. The counter is a \<open>uint32_t\<close>; with no wait left the poll has not returned.
\<close>

fun quiesce_wait :: "string \<Rightarrow> u32 \<Rightarrow> u32 \<Rightarrow> (ctrl_state \<Rightarrow> ctrl_state) list \<Rightarrow> ctrl_state \<Rightarrow> ctrl_state \<times> esp_err option" where
  "quiesce_wait ident t timeout_ms ws g =
     (if t < timeout_ms
      then (if device_control_scheduler_is_idle ident g then (g, Some ESP_OK)
            else (case ws of [] \<Rightarrow> (g, None) | w # ws \<Rightarrow> quiesce_wait ident (t + 10) timeout_ms ws (w g)))
      else (g, Some ESP_ERR_TIMEOUT))"

declare quiesce_wait.simps [simp del]

definition device_control_scheduler_quiesce_device ::
    "string option \<Rightarrow> u32 \<Rightarrow> (ctrl_state \<Rightarrow> ctrl_state) list \<Rightarrow> ctrl_state \<Rightarrow> ctrl_state \<times> esp_err option" where
  "device_control_scheduler_quiesce_device dev timeout_ms ws g =
     (case device_control_scheduler_block_device dev g of
        (g, e) \<Rightarrow> if e \<noteq> ESP_OK then (g, Some e)
                  else quiesce_wait (the dev) 0 timeout_ms ws (fst (device_control_scheduler_cancel_device dev g)))"

definition device_control_scheduler_get_stats :: "ctrl_state \<Rightarrow> device_control_scheduler_stats" where
  "device_control_scheduler_get_stats g = g_stats g"

section \<open>Leases (\<open>device_control_scheduler_lease.c\<close>)\<close>

definition device_control_scheduler_acquire_lease ::
    "device_control_lease_request option \<Rightarrow> nat option \<Rightarrow> nat \<Rightarrow> ctrl_state \<Rightarrow> ctrl_state \<times> esp_err" where
  "device_control_scheduler_acquire_lease request completion ctx g =
     (case (request, completion) of
        (Some r, Some fn) \<Rightarrow>
          if lr_device_id r = None \<or> lr_device_id r = Some [] \<or> lr_priority r > DEVICE_CTRL_PRIORITY_BACKGROUND
          then (g, ESP_ERR_INVALID_ARG)
          else if \<not> g_running g then (g, ESP_ERR_INVALID_STATE)
          else (case ctrl_find_device_locked (the (lr_device_id r)) True g of
                  (g, device) \<Rightarrow>
                    (case (device, find_index (\<lambda>l. cl_state l = CTRL_LEASE_FREE) (g_leases g)) of
                       (Some d, Some i) \<Rightarrow>
                         (lease_map i (\<lambda>_. zero_lease\<lparr>cl_state := CTRL_LEASE_PENDING,
                             cl_id := next_id (g_next_lease g), cl_device_index := d,
                             cl_priority := lr_priority r, cl_source := lr_source r,
                             cl_owner := lr_owner_token r, cl_completion := Some fn, cl_context := ctx\<rparr>)
                            (g\<lparr>g_next_lease := next_id (g_next_lease g)\<rparr>), ESP_OK)
                     | _ \<Rightarrow> (ctrl_count (\<lambda>t. t\<lparr>ct_queue_full := ct_queue_full t + 1\<rparr>) g, ESP_ERR_NO_MEM)))
      | _ \<Rightarrow> (g, ESP_ERR_INVALID_ARG))"

definition device_control_scheduler_release_lease :: "int \<Rightarrow> u32 \<Rightarrow> ctrl_state \<Rightarrow> ctrl_state \<times> esp_err" where
  "device_control_scheduler_release_lease now ident g =
     (if ident = 0 then (g, ESP_ERR_INVALID_ARG)
      else (case find_index (\<lambda>l. cl_state l = CTRL_LEASE_ACTIVE \<and> cl_id l = ident) (g_leases g) of
              None \<Rightarrow> (g, ESP_ERR_NOT_FOUND)
            | Some i \<Rightarrow>
                (let d = cl_device_index (g_leases g ! i); dev = g_devices g ! d in
                 if cd_lease dev \<noteq> ident then (g, ESP_ERR_INVALID_STATE)
                 else (let held = word_of_int ((now - cd_lease_started_us dev) sdiv 1000) :: u32 in
                       (lease_map i (\<lambda>l. l\<lparr>cl_state := CTRL_LEASE_FREE\<rparr>)
                          (device_map d (\<lambda>v. v\<lparr>cd_lease := 0, cd_lease_owner := 0\<rparr>)
                             (ctrl_count (\<lambda>t. t\<lparr>ct_lease_hold_max_ms := max held (ct_lease_hold_max_ms t)\<rparr>) g)),
                        ESP_OK)))))"

text \<open>The body of the loop of \<open>ctrl_process_leases\<close> for one lease slot.\<close>

definition process_lease :: "int \<Rightarrow> nat \<Rightarrow> ctrl_state \<Rightarrow> ctrl_state \<times> lease_call list" where
  "process_lease now i g =
     (let l = g_leases g ! i in
      if cl_state l = CTRL_LEASE_COMPLETION_PENDING
      then (lease_map i (\<lambda>_. zero_lease) g,
            [(cl_completion l, cl_context l, cl_completion_status l, cl_id l)])
      else if cl_state l = CTRL_LEASE_PENDING
      then (let d = g_devices g ! cl_device_index l in
            if \<not> cd_blocked d \<and> \<not> cd_transport_inflight d \<and> cd_lease d = 0
            then (ctrl_stats_locked (ctrl_count (\<lambda>t. t\<lparr>ct_lease_granted := ct_lease_granted t + 1\<rparr>)
                    (lease_map i (\<lambda>l. l\<lparr>cl_state := CTRL_LEASE_ACTIVE\<rparr>)
                       (device_map (cl_device_index l) (\<lambda>v. v\<lparr>cd_lease := cl_id l,
                            cd_lease_owner := cl_owner l, cd_lease_source := cl_source l,
                            cd_lease_started_us := now\<rparr>) g))),
                  [(cl_completion l, cl_context l, ESP_OK, cl_id l)])
            else (g, []))
      else (g, []))"

fun ctrl_process_leases :: "(nat \<Rightarrow> int) \<Rightarrow> nat list \<Rightarrow> ctrl_state \<Rightarrow> ctrl_state \<times> lease_call list" where
  "ctrl_process_leases clock [] g = (g, [])"
| "ctrl_process_leases clock (i # is) g =
     (case process_lease (clock i) i g of (g, calls) \<Rightarrow>
        (case ctrl_process_leases clock is g of (g, calls') \<Rightarrow> (g, calls @ calls')))"

section \<open>The worker (\<open>device_control_scheduler_worker.c\<close>)\<close>

definition make_terminal :: "device_control_terminal \<Rightarrow> ctrl_slot \<Rightarrow> ctrl_slot" where
  "make_terminal terminal s =
     s\<lparr>cs_terminal := terminal, cs_pending_result := zero_result, cs_state := CTRL_SLOT_COMPLETION_PENDING\<rparr>"

text \<open>
  The completion the command service calls. Its context is a pointer to the \<open>dcs_context\<close> member of
  the slot \<open>p\<close> the job was dispatched from, read when the call comes.
\<close>

definition ctrl_dcs_complete :: "device_command_result option \<Rightarrow> nat option \<Rightarrow> ctrl_state \<Rightarrow> ctrl_state" where
  "ctrl_dcs_complete result ctx_ptr g =
     (case ctx_ptr of
        None \<Rightarrow> g
      | Some p \<Rightarrow>
          (let ctx = cs_dcs_context (g_slots g ! p) in
           if dx_slot ctx \<ge> DEVICE_CTRL_MAX_JOBS then g
           else (let s = g_slots g ! dx_slot ctx in
                 if cs_state s \<noteq> CTRL_SLOT_INFLIGHT \<or> cs_generation s \<noteq> dx_generation ctx \<or> cs_completion_written s
                 then ctrl_count (\<lambda>t. t\<lparr>ct_completion_mailbox_conflict := ct_completion_mailbox_conflict t + 1\<rparr>) g
                 else slot_map (dx_slot ctx) (\<lambda>s. s\<lparr>
                        cs_pending_result := (case result of Some r \<Rightarrow> r
                           | None \<Rightarrow> zero_result\<lparr>rs_status := DEVICE_CMD_STATUS_INTERNAL\<rparr>),
                        cs_terminal := DEVICE_CTRL_TERMINAL_COMMAND, cs_completion_written := True,
                        cs_state := CTRL_SLOT_COMPLETION_PENDING\<rparr>) g)))"

text \<open>
  \<open>ctrl_complete_slot\<close>: the first critical section takes the completion out of the slot, the second,
  after the call, clears the slot except for its generation.
\<close>

definition count_terminal :: "device_control_terminal \<Rightarrow> ctrl_state \<Rightarrow> ctrl_state" where
  "count_terminal terminal =
     (case terminal of
        DEVICE_CTRL_TERMINAL_SUPERSEDED \<Rightarrow> ctrl_count (\<lambda>t. t\<lparr>ct_superseded := ct_superseded t + 1\<rparr>)
      | DEVICE_CTRL_TERMINAL_DEADLINE_EXCEEDED \<Rightarrow> ctrl_count (\<lambda>t. t\<lparr>ct_deadline_exceeded := ct_deadline_exceeded t + 1\<rparr>)
      | DEVICE_CTRL_TERMINAL_COMMAND \<Rightarrow> ctrl_count (\<lambda>t. t\<lparr>ct_completed := ct_completed t + 1\<rparr>)
      | DEVICE_CTRL_TERMINAL_CANCELLED \<Rightarrow> (\<lambda>g. g))"

definition release_transport :: "nat \<Rightarrow> nat \<Rightarrow> ctrl_state \<Rightarrow> ctrl_state" where
  "release_transport index d g =
     (if cd_inflight_slot (g_devices g ! d) = int index
      then (device_map d (\<lambda>v. v\<lparr>cd_inflight_slot := - 1, cd_transport_inflight := False\<rparr>) g)
             \<lparr>g_inflight := (if g_inflight g \<noteq> 0 then g_inflight g - 1 else g_inflight g)\<rparr>
      else g)"

definition complete_take :: "nat \<Rightarrow> ctrl_state \<Rightarrow> ctrl_state \<times> job_call option" where
  "complete_take index g =
     (let s = g_slots g ! index in
      if cs_state s \<noteq> CTRL_SLOT_COMPLETION_PENDING then (g, None)
      else (slot_map index (\<lambda>s. s\<lparr>cs_state := CTRL_SLOT_COMPLETING\<rparr>)
              (count_terminal (cs_terminal s) (release_transport index (cs_device_index s) g)),
            Some (cs_completion s, cs_context s,
                  \<lparr>cr_scheduler_job_id = cs_id s, cr_terminal = cs_terminal s,
                   cr_command_result = cs_pending_result s\<rparr>)))"

definition complete_clear :: "nat \<Rightarrow> ctrl_state \<Rightarrow> ctrl_state" where
  "complete_clear index g = slot_map index (\<lambda>s. zero_ctrl_slot\<lparr>cs_generation := cs_generation s\<rparr>) g"

definition ctrl_complete_slot :: "nat \<Rightarrow> ctrl_state \<Rightarrow> ctrl_state \<times> job_call list" where
  "ctrl_complete_slot index g =
     (case complete_take index g of
        (g, None) \<Rightarrow> (g, [])
      | (g, Some call) \<Rightarrow> (complete_clear index g, [call]))"

text \<open>
  The choice of the next job: the two nested loops over the devices, from \<open>rr_device\<close> on, and over
  the slots, with \<open>best\<close> and \<open>best_prio\<close>.
\<close>

definition normal_available :: "ctrl_state \<Rightarrow> bool" where
  "normal_available g \<longleftrightarrow>
     (\<exists>s\<in>set (g_slots g). cs_state s = CTRL_SLOT_QUEUED \<and> j_priority (cs_job s) = DEVICE_CTRL_PRIORITY_NORMAL)"

definition skip_slot :: "ctrl_state \<Rightarrow> nat \<Rightarrow> nat \<Rightarrow> bool" where
  "skip_slot g d i \<longleftrightarrow>
     (let s = g_slots g ! i; dev = g_devices g ! d in
      cs_state s \<noteq> CTRL_SLOT_QUEUED \<or> cs_device_index s \<noteq> d \<or>
      (cd_lease dev \<noteq> 0 \<and> j_lease_id (cs_job s) \<noteq> cd_lease dev) \<or>
      (unat (g_high_burst g) \<ge> DEVICE_CTRL_HIGH_BURST_MAX \<and> normal_available g \<and>
       j_priority (cs_job s) = DEVICE_CTRL_PRIORITY_HIGH))"

fun select_in_slots :: "ctrl_state \<Rightarrow> nat \<Rightarrow> nat list \<Rightarrow> nat option \<times> nat \<Rightarrow> nat option \<times> nat" where
  "select_in_slots g d [] acc = acc"
| "select_in_slots g d (i # is) (best, best_prio) =
     (if skip_slot g d i then select_in_slots g d is (best, best_prio)
      else if best = None \<or> j_priority (cs_job (g_slots g ! i)) < best_prio
      then select_in_slots g d is (Some i, j_priority (cs_job (g_slots g ! i)))
      else select_in_slots g d is (best, best_prio))"

fun select_in_devices :: "ctrl_state \<Rightarrow> nat list \<Rightarrow> nat option \<times> nat \<Rightarrow> nat option \<times> nat" where
  "select_in_devices g [] acc = acc"
| "select_in_devices g (offset # os) acc =
     (let d = (g_rr_device g + offset) mod DEVICE_CTRL_MAX_DEVICES; dev = g_devices g ! d in
      if \<not> cd_used dev \<or> cd_blocked dev \<or> cd_transport_inflight dev then select_in_devices g os acc
      else select_in_devices g os (select_in_slots g d [0..<DEVICE_CTRL_MAX_JOBS] acc))"

definition select_slot_locked :: "ctrl_state \<Rightarrow> nat option" where
  "select_slot_locked g =
     fst (select_in_devices g [0..<DEVICE_CTRL_MAX_DEVICES] (None, DEVICE_CTRL_PRIORITY_BACKGROUND))"

text \<open>\<open>dispatch_one\<close>: the critical section before the submission to the command service, and the one after it.\<close>

definition dispatch_take :: "ctrl_state \<Rightarrow> ctrl_state \<times> (nat \<times> device_command_request) option" where
  "dispatch_take g =
     (if unat (g_inflight g) \<ge> DEVICE_CTRL_MAX_INFLIGHT then (g, None)
      else (case select_slot_locked g of
              None \<Rightarrow> (g, None)
            | Some i \<Rightarrow>
                (let s = g_slots g ! i; d = cs_device_index s in
                 (ctrl_stats_locked (ctrl_count (\<lambda>t. t\<lparr>ct_dispatched := ct_dispatched t + 1\<rparr>)
                    ((slot_map i (\<lambda>s. s\<lparr>cs_state := CTRL_SLOT_INFLIGHT,
                          cs_dcs_context := \<lparr>dx_slot = i, dx_generation = cs_generation s\<rparr>\<rparr>)
                       (device_map d (\<lambda>v. v\<lparr>cd_transport_inflight := True, cd_inflight_slot := int i\<rparr>) g))
                     \<lparr>g_inflight := g_inflight g + 1, g_rr_device := (d + 1) mod DEVICE_CTRL_MAX_DEVICES,
                      g_high_burst := (if j_priority (cs_job s) = DEVICE_CTRL_PRIORITY_HIGH then g_high_burst g + 1
                                       else if j_priority (cs_job s) = DEVICE_CTRL_PRIORITY_NORMAL then 0
                                       else g_high_burst g)\<rparr>)),
                  Some (i, j_request (cs_job s))))))"

definition dispatch_result :: "nat \<Rightarrow> esp_err \<Rightarrow> ctrl_state \<Rightarrow> ctrl_state" where
  "dispatch_result i err g =
     (if err \<noteq> ESP_OK \<and> cs_state (g_slots g ! i) = CTRL_SLOT_INFLIGHT
      then slot_map i (\<lambda>s. s\<lparr>
             cs_pending_result := (cs_pending_result s)\<lparr>rs_status :=
               (if err = ESP_ERR_NO_MEM then DEVICE_CMD_STATUS_QUEUE_FULL else DEVICE_CMD_STATUS_INTERNAL)\<rparr>,
             cs_terminal := DEVICE_CTRL_TERMINAL_COMMAND, cs_completion_written := True,
             cs_state := CTRL_SLOT_COMPLETION_PENDING\<rparr>) g
      else g)"

definition dispatch_one :: "(device_command_request \<Rightarrow> esp_err) \<Rightarrow> ctrl_state \<Rightarrow> ctrl_state \<times> device_command_request list" where
  "dispatch_one dcs_submit g =
     (case dispatch_take g of
        (g, None) \<Rightarrow> (g, [])
      | (g, Some (i, request)) \<Rightarrow> (dispatch_result i (dcs_submit request) g, [request]))"

definition age_slot :: "int \<Rightarrow> ctrl_slot \<Rightarrow> ctrl_slot" where
  "age_slot now s =
     (let s = (if cs_state s = CTRL_SLOT_ENQUEUE_PENDING then s\<lparr>cs_state := CTRL_SLOT_QUEUED\<rparr> else s) in
      if cs_state s = CTRL_SLOT_QUEUED \<and> cs_deadline_us s \<noteq> 0 \<and> now \<ge> cs_deadline_us s
      then make_terminal DEVICE_CTRL_TERMINAL_DEADLINE_EXCEEDED s else s)"

definition age_slots :: "int \<Rightarrow> ctrl_state \<Rightarrow> ctrl_state" where
  "age_slots now g = g\<lparr>g_slots := map (age_slot now) (g_slots g)\<rparr>"

fun complete_slots :: "nat list \<Rightarrow> ctrl_state \<Rightarrow> ctrl_state \<times> job_call list" where
  "complete_slots [] g = (g, [])"
| "complete_slots (i # is) g =
     (case ctrl_complete_slot i g of (g, calls) \<Rightarrow>
        (case complete_slots is g of (g, calls') \<Rightarrow> (g, calls @ calls')))"

fun dispatch_slots :: "nat \<Rightarrow> (nat \<Rightarrow> device_command_request \<Rightarrow> esp_err) \<Rightarrow> ctrl_state \<Rightarrow> ctrl_state \<times> device_command_request list" where
  "dispatch_slots 0 dcs_submit g = (g, [])"
| "dispatch_slots (Suc n) dcs_submit g =
     (case dispatch_one (dcs_submit n) g of (g, sent) \<Rightarrow>
        (case dispatch_slots n dcs_submit g of (g, sent') \<Rightarrow> (g, sent @ sent')))"

text \<open>
  One pass of the worker that no other task interrupts, with what it reads: the time, the time at
  each lease, and the answers of the command service.
\<close>

record process_env =
  pe_now :: int
  pe_lease_clock :: "nat \<Rightarrow> int"
  pe_dcs_submit :: "nat \<Rightarrow> device_command_request \<Rightarrow> esp_err"

definition ctrl_process :: "process_env \<Rightarrow> ctrl_state \<Rightarrow> ctrl_state \<times> lease_call list \<times> job_call list \<times> device_command_request list" where
  "ctrl_process env g =
     (case ctrl_process_leases (pe_lease_clock env) [0..<DEVICE_CTRL_MAX_DEVICES] (age_slots (pe_now env) g) of
        (g, lease_calls) \<Rightarrow>
          (case complete_slots [0..<DEVICE_CTRL_MAX_JOBS] g of
             (g, calls) \<Rightarrow>
               (case dispatch_slots DEVICE_CTRL_MAX_INFLIGHT (pe_dcs_submit env) g of
                  (g, sent) \<Rightarrow> (g, lease_calls, calls, sent))))"

end
