(* ===== verification/Scheduler_Run.thy ===== *)
theory Scheduler_Run
  imports Control_Scheduler
begin

text \<open>
  The control scheduler as a concurrent system: the critical sections of the worker, one after the
  other, interleaved with the critical sections of the public functions and of the completions the
  command service calls. The invariant says which device owns which slot and which lease; the ledger
  says that each accepted job and each accepted lease request is answered exactly once.
\<close>

section \<open>Configurations and steps\<close>

text \<open>Where the worker stands between two critical sections.\<close>

datatype ctrl_pc =
    PC_TOP
  | PC_AGE
  | PC_LEASE nat
  | PC_COMPLETE nat
  | PC_CALLBACK nat
  | PC_DISPATCH nat
  | PC_SUBMIT nat nat
  | PC_DONE

type_synonym ticket = "nat option \<times> nat \<times> u32"

record ctrl_config =
  k_ctrl :: ctrl_state
  k_pc :: ctrl_pc
  k_last :: bool
  k_accepted :: "ticket multiset"
  k_called :: "ticket multiset"
  k_lease_accepted :: "(nat option \<times> nat) multiset"
  k_lease_called :: "(nat option \<times> nat) multiset"

definition call_ticket :: "job_call \<Rightarrow> ticket" where
  "call_ticket call = (case call of (fn, ctx, r) \<Rightarrow> (fn, ctx, cr_scheduler_job_id r))"

definition lease_call_ticket :: "lease_call \<Rightarrow> nat option \<times> nat" where
  "lease_call_ticket call = (case call of (fn, ctx, e, i) \<Rightarrow> (fn, ctx))"

inductive ctrl_step :: "ctrl_config \<Rightarrow> ctrl_config \<Rightarrow> bool" where
  top: "k_pc c = PC_TOP \<Longrightarrow> ctrl_step c (c\<lparr>k_pc := PC_AGE, k_last := \<not> g_running (k_ctrl c)\<rparr>)"
| age: "k_pc c = PC_AGE \<Longrightarrow> ctrl_step c (c\<lparr>k_ctrl := age_slots now (k_ctrl c), k_pc := PC_LEASE 0\<rparr>)"
| lease: "\<lbrakk>k_pc c = PC_LEASE i; i < DEVICE_CTRL_MAX_DEVICES; process_lease now i (k_ctrl c) = (g', calls)\<rbrakk> \<Longrightarrow>
     ctrl_step c (c\<lparr>k_ctrl := g', k_pc := PC_LEASE (Suc i),
       k_lease_called := k_lease_called c + mset (map lease_call_ticket calls)\<rparr>)"
| leases_done: "k_pc c = PC_LEASE DEVICE_CTRL_MAX_DEVICES \<Longrightarrow> ctrl_step c (c\<lparr>k_pc := PC_COMPLETE 0\<rparr>)"
| take_none: "\<lbrakk>k_pc c = PC_COMPLETE i; i < DEVICE_CTRL_MAX_JOBS; complete_take i (k_ctrl c) = (g', None)\<rbrakk> \<Longrightarrow>
     ctrl_step c (c\<lparr>k_ctrl := g', k_pc := PC_COMPLETE (Suc i)\<rparr>)"
| take_call: "\<lbrakk>k_pc c = PC_COMPLETE i; i < DEVICE_CTRL_MAX_JOBS; complete_take i (k_ctrl c) = (g', Some call)\<rbrakk> \<Longrightarrow>
     ctrl_step c (c\<lparr>k_ctrl := g', k_pc := PC_CALLBACK i, k_called := k_called c + {#call_ticket call#}\<rparr>)"
| clear: "k_pc c = PC_CALLBACK i \<Longrightarrow>
     ctrl_step c (c\<lparr>k_ctrl := complete_clear i (k_ctrl c), k_pc := PC_COMPLETE (Suc i)\<rparr>)"
| completes_done: "k_pc c = PC_COMPLETE DEVICE_CTRL_MAX_JOBS \<Longrightarrow> ctrl_step c (c\<lparr>k_pc := PC_DISPATCH 0\<rparr>)"
| dispatch_none: "\<lbrakk>k_pc c = PC_DISPATCH n; n < DEVICE_CTRL_MAX_INFLIGHT; dispatch_take (k_ctrl c) = (g', None)\<rbrakk> \<Longrightarrow>
     ctrl_step c (c\<lparr>k_ctrl := g', k_pc := PC_DISPATCH (Suc n)\<rparr>)"
| dispatch: "\<lbrakk>k_pc c = PC_DISPATCH n; n < DEVICE_CTRL_MAX_INFLIGHT; dispatch_take (k_ctrl c) = (g', Some (i, rq))\<rbrakk> \<Longrightarrow>
     ctrl_step c (c\<lparr>k_ctrl := g', k_pc := PC_SUBMIT n i\<rparr>)"
| submitted: "k_pc c = PC_SUBMIT n i \<Longrightarrow>
     ctrl_step c (c\<lparr>k_ctrl := dispatch_result i err (k_ctrl c), k_pc := PC_DISPATCH (Suc n)\<rparr>)"
| pass_done: "k_pc c = PC_DISPATCH DEVICE_CTRL_MAX_INFLIGHT \<Longrightarrow>
     ctrl_step c (if k_last c then c\<lparr>k_ctrl := (k_ctrl c)\<lparr>g_stopped := True\<rparr>, k_pc := PC_DONE\<rparr>
                  else c\<lparr>k_pc := PC_TOP\<rparr>)"
| submit: "device_control_scheduler_submit now (Some job) (Some fn) ctx (k_ctrl c) = (g', err, out) \<Longrightarrow>
     ctrl_step c (c\<lparr>k_ctrl := g',
       k_accepted := k_accepted c + (if err = ESP_OK then {#(Some fn, ctx, the out)#} else {#})\<rparr>)"
| cancel: "ctrl_cancel_match dev src owner all_sources job_id (k_ctrl c) = (g', err, inflight) \<Longrightarrow>
     ctrl_step c (c\<lparr>k_ctrl := g'\<rparr>)"
| block: "device_control_scheduler_block_device dev (k_ctrl c) = (g', err) \<Longrightarrow> ctrl_step c (c\<lparr>k_ctrl := g'\<rparr>)"
| unblock: "device_control_scheduler_unblock_device dev (k_ctrl c) = (g', err) \<Longrightarrow> ctrl_step c (c\<lparr>k_ctrl := g'\<rparr>)"
| acquire: "device_control_scheduler_acquire_lease (Some r) (Some fn) ctx (k_ctrl c) = (g', err) \<Longrightarrow>
     ctrl_step c (c\<lparr>k_ctrl := g',
       k_lease_accepted := k_lease_accepted c + (if err = ESP_OK then {#(Some fn, ctx)#} else {#})\<rparr>)"
| release: "device_control_scheduler_release_lease now lease_id (k_ctrl c) = (g', err) \<Longrightarrow> ctrl_step c (c\<lparr>k_ctrl := g'\<rparr>)"
| dcs_complete: "p < DEVICE_CTRL_MAX_JOBS \<Longrightarrow> ctrl_step c (c\<lparr>k_ctrl := ctrl_dcs_complete result (Some p) (k_ctrl c)\<rparr>)"
| mark: "ctrl_step c (c\<lparr>k_ctrl := deinit_mark (k_ctrl c)\<rparr>)"
| stop: "ctrl_step c (c\<lparr>k_ctrl := deinit_stop (k_ctrl c)\<rparr>)"

definition ctrl_start :: "ctrl_config \<Rightarrow> bool" where
  "ctrl_start c \<longleftrightarrow>
     (\<exists>g. device_control_scheduler_init True g = (k_ctrl c, ESP_OK)) \<and> k_pc c = PC_TOP \<and> \<not> k_last c \<and>
     k_accepted c = {#} \<and> k_called c = {#} \<and> k_lease_accepted c = {#} \<and> k_lease_called c = {#}"

section \<open>The invariant\<close>

definition transport_ok :: "ctrl_slot list \<Rightarrow> ctrl_device list \<Rightarrow> bool" where
  "transport_ok S D \<longleftrightarrow>
     (\<forall>d<length D. cd_transport_inflight (D ! d) \<longrightarrow>
        cd_used (D ! d) \<and>
        (\<exists>i<length S. cd_inflight_slot (D ! d) = int i \<and> cs_device_index (S ! i) = d \<and>
           (cs_state (S ! i) = CTRL_SLOT_INFLIGHT \<or> cs_state (S ! i) = CTRL_SLOT_COMPLETION_PENDING))) \<and>
     (\<forall>d<length D. cd_used (D ! d) \<and> \<not> cd_transport_inflight (D ! d) \<longrightarrow> cd_inflight_slot (D ! d) = - 1) \<and>
     (\<forall>i<length S. cs_state (S ! i) \<noteq> CTRL_SLOT_FREE \<longrightarrow>
        cs_device_index (S ! i) < length D \<and> cd_used (D ! cs_device_index (S ! i))) \<and>
     (\<forall>i<length S. cs_state (S ! i) = CTRL_SLOT_INFLIGHT \<longrightarrow>
        cd_transport_inflight (D ! cs_device_index (S ! i)) \<and>
        cd_inflight_slot (D ! cs_device_index (S ! i)) = int i)"

lemma transport_okI:
  assumes "\<And>d. \<lbrakk>d < length D; cd_transport_inflight (D ! d)\<rbrakk> \<Longrightarrow> cd_used (D ! d) \<and>
        (\<exists>i<length S. cd_inflight_slot (D ! d) = int i \<and> cs_device_index (S ! i) = d \<and>
           (cs_state (S ! i) = CTRL_SLOT_INFLIGHT \<or> cs_state (S ! i) = CTRL_SLOT_COMPLETION_PENDING))"
    and "\<And>d. \<lbrakk>d < length D; cd_used (D ! d); \<not> cd_transport_inflight (D ! d)\<rbrakk> \<Longrightarrow> cd_inflight_slot (D ! d) = - 1"
    and "\<And>i. \<lbrakk>i < length S; cs_state (S ! i) \<noteq> CTRL_SLOT_FREE\<rbrakk> \<Longrightarrow>
        cs_device_index (S ! i) < length D \<and> cd_used (D ! cs_device_index (S ! i))"
    and "\<And>i. \<lbrakk>i < length S; cs_state (S ! i) = CTRL_SLOT_INFLIGHT\<rbrakk> \<Longrightarrow>
        cd_transport_inflight (D ! cs_device_index (S ! i)) \<and> cd_inflight_slot (D ! cs_device_index (S ! i)) = int i"
  shows "transport_ok S D"
  unfolding transport_ok_def using assms by blast

lemma transport_okD:
  assumes "transport_ok S D"
  shows "\<lbrakk>d < length D; cd_transport_inflight (D ! d)\<rbrakk> \<Longrightarrow> cd_used (D ! d)"
    and "\<lbrakk>d < length D; cd_transport_inflight (D ! d)\<rbrakk> \<Longrightarrow>
        \<exists>i<length S. cd_inflight_slot (D ! d) = int i \<and> cs_device_index (S ! i) = d \<and>
           (cs_state (S ! i) = CTRL_SLOT_INFLIGHT \<or> cs_state (S ! i) = CTRL_SLOT_COMPLETION_PENDING)"
    and "\<lbrakk>d < length D; cd_used (D ! d); \<not> cd_transport_inflight (D ! d)\<rbrakk> \<Longrightarrow> cd_inflight_slot (D ! d) = - 1"
    and "\<lbrakk>i < length S; cs_state (S ! i) \<noteq> CTRL_SLOT_FREE\<rbrakk> \<Longrightarrow>
        cs_device_index (S ! i) < length D \<and> cd_used (D ! cs_device_index (S ! i))"
    and "\<lbrakk>i < length S; cs_state (S ! i) = CTRL_SLOT_INFLIGHT\<rbrakk> \<Longrightarrow>
        cd_transport_inflight (D ! cs_device_index (S ! i)) \<and> cd_inflight_slot (D ! cs_device_index (S ! i)) = int i"
  using assms unfolding transport_ok_def by blast+

definition leases_ok :: "ctrl_lease list \<Rightarrow> ctrl_device list \<Rightarrow> bool" where
  "leases_ok L D \<longleftrightarrow>
     (\<forall>i<length L. cl_state (L ! i) \<noteq> CTRL_LEASE_FREE \<longrightarrow>
        cl_id (L ! i) \<noteq> 0 \<and> cl_device_index (L ! i) < length D \<and> cd_used (D ! cl_device_index (L ! i))) \<and>
     (\<forall>i<length L. cl_state (L ! i) = CTRL_LEASE_ACTIVE \<longrightarrow>
        cd_lease (D ! cl_device_index (L ! i)) = cl_id (L ! i)) \<and>
     (\<forall>i<length L. \<forall>j<length L. cl_state (L ! i) = CTRL_LEASE_ACTIVE \<and> cl_state (L ! j) = CTRL_LEASE_ACTIVE \<and>
        cl_device_index (L ! i) = cl_device_index (L ! j) \<longrightarrow> i = j) \<and>
     (\<forall>d<length D. cd_lease (D ! d) \<noteq> 0 \<longrightarrow>
        (\<exists>i<length L. cl_state (L ! i) = CTRL_LEASE_ACTIVE \<and> cl_device_index (L ! i) = d))"

definition callback_ok :: "nat option \<Rightarrow> ctrl_slot list \<Rightarrow> ctrl_device list \<Rightarrow> bool" where
  "callback_ok cb S D \<longleftrightarrow>
     (\<forall>i<length S. cs_state (S ! i) = CTRL_SLOT_COMPLETING \<longrightarrow> cb = Some i) \<and>
     (\<forall>i. cb = Some i \<longrightarrow> i < length S \<and>
        (cs_state (S ! i) = CTRL_SLOT_COMPLETING \<or> cs_state (S ! i) = CTRL_SLOT_COMPLETION_PENDING) \<and>
        (\<forall>d<length D. cd_transport_inflight (D ! d) \<longrightarrow> cd_inflight_slot (D ! d) \<noteq> int i))"

lemma callback_okD:
  assumes "callback_ok cb S D"
  shows "\<lbrakk>i < length S; cs_state (S ! i) = CTRL_SLOT_COMPLETING\<rbrakk> \<Longrightarrow> cb = Some i"
    and "cb = Some i \<Longrightarrow> i < length S \<and>
        (cs_state (S ! i) = CTRL_SLOT_COMPLETING \<or> cs_state (S ! i) = CTRL_SLOT_COMPLETION_PENDING)"
    and "\<lbrakk>cb = Some i; d < length D; cd_transport_inflight (D ! d)\<rbrakk> \<Longrightarrow> cd_inflight_slot (D ! d) \<noteq> int i"
  using assms unfolding callback_ok_def by blast+

lemma callback_okI:
  assumes "\<And>i. \<lbrakk>i < length S; cs_state (S ! i) = CTRL_SLOT_COMPLETING\<rbrakk> \<Longrightarrow> cb = Some i"
    and "\<And>i. cb = Some i \<Longrightarrow> i < length S \<and>
        (cs_state (S ! i) = CTRL_SLOT_COMPLETING \<or> cs_state (S ! i) = CTRL_SLOT_COMPLETION_PENDING)"
    and "\<And>i d. \<lbrakk>cb = Some i; d < length D; cd_transport_inflight (D ! d)\<rbrakk> \<Longrightarrow> cd_inflight_slot (D ! d) \<noteq> int i"
  shows "callback_ok cb S D"
  using assms unfolding callback_ok_def by blast

definition ctrl_inv :: "nat option \<Rightarrow> ctrl_state \<Rightarrow> bool" where
  "ctrl_inv cb g \<longleftrightarrow>
     length (g_slots g) = DEVICE_CTRL_MAX_JOBS \<and> length (g_devices g) = DEVICE_CTRL_MAX_DEVICES \<and>
     length (g_leases g) = DEVICE_CTRL_MAX_DEVICES \<and>
     unat (g_inflight g) = count_if cd_transport_inflight (g_devices g) \<and>
     unat (g_inflight g) \<le> DEVICE_CTRL_MAX_INFLIGHT \<and> g_rr_device g < DEVICE_CTRL_MAX_DEVICES \<and>
     transport_ok (g_slots g) (g_devices g) \<and> leases_ok (g_leases g) (g_devices g) \<and>
     callback_ok cb (g_slots g) (g_devices g)"

text \<open>What is owed: the slots in use, except the one whose completion is being called.\<close>

definition ticket :: "ctrl_slot \<Rightarrow> ticket" where
  "ticket s = (cs_completion s, cs_context s, cs_id s)"

definition busy :: "nat option \<Rightarrow> ctrl_slot list \<Rightarrow> nat set" where
  "busy cb S = {i. i < length S \<and> cs_state (S ! i) \<noteq> CTRL_SLOT_FREE \<and> cb \<noteq> Some i}"

definition jobs_owed :: "nat option \<Rightarrow> ctrl_slot list \<Rightarrow> ticket multiset" where
  "jobs_owed cb S = image_mset (\<lambda>i. ticket (S ! i)) (mset_set (busy cb S))"

definition awaits :: "ctrl_lease \<Rightarrow> bool" where
  "awaits l \<longleftrightarrow> cl_state l = CTRL_LEASE_PENDING \<or> cl_state l = CTRL_LEASE_COMPLETION_PENDING"

definition lease_owed :: "ctrl_lease list \<Rightarrow> (nat option \<times> nat) multiset" where
  "lease_owed L = mset (map (\<lambda>l. (cl_completion l, cl_context l)) (filter awaits L))"

definition cb_of :: "ctrl_pc \<Rightarrow> nat option" where
  "cb_of pc = (case pc of PC_CALLBACK i \<Rightarrow> Some i | _ \<Rightarrow> None)"

definition ctrl_ledger :: "ctrl_config \<Rightarrow> bool" where
  "ctrl_ledger c \<longleftrightarrow>
     ctrl_inv (cb_of (k_pc c)) (k_ctrl c) \<and>
     k_accepted c = k_called c + jobs_owed (cb_of (k_pc c)) (g_slots (k_ctrl c)) \<and>
     k_lease_accepted c = k_lease_called c + lease_owed (g_leases (k_ctrl c))"

section \<open>Relabelling of slots\<close>

text \<open>
  Most critical sections only move slots towards their completion: a slot in use becomes
  completion-pending or, if it was just enqueued, queued. Such a move keeps everything.
\<close>

definition slot_step :: "ctrl_slot \<Rightarrow> ctrl_slot \<Rightarrow> bool" where
  "slot_step s t \<longleftrightarrow>
     cs_device_index t = cs_device_index s \<and> ticket t = ticket s \<and>
     (cs_state t = cs_state s \<or>
      cs_state s \<noteq> CTRL_SLOT_FREE \<and> cs_state t = CTRL_SLOT_COMPLETION_PENDING \<or>
      cs_state s = CTRL_SLOT_ENQUEUE_PENDING \<and> cs_state t = CTRL_SLOT_QUEUED)"

definition moves :: "ctrl_state \<Rightarrow> ctrl_state \<Rightarrow> bool" where
  "moves g h \<longleftrightarrow>
     list_all2 slot_step (g_slots g) (g_slots h) \<and> g_devices h = g_devices g \<and> g_leases h = g_leases g \<and>
     g_inflight h = g_inflight g \<and> g_rr_device h = g_rr_device g"

lemma slot_step_refl [simp]: "slot_step s s"
  by (simp add: slot_step_def)

lemma slot_step_trans: "slot_step s t \<Longrightarrow> slot_step t u \<Longrightarrow> slot_step s u"
  by (auto simp: slot_step_def)

lemma moves_refl [simp]: "moves g g"
  by (simp add: moves_def list_all2_conv_all_nth)

lemma moves_trans: "moves g h \<Longrightarrow> moves h k \<Longrightarrow> moves g k"
  unfolding moves_def list_all2_conv_all_nth by (metis slot_step_trans)

lemma ctrl_count_simps [simp]:
  "g_slots (ctrl_count f g) = g_slots g" "g_devices (ctrl_count f g) = g_devices g"
  "g_leases (ctrl_count f g) = g_leases g" "g_inflight (ctrl_count f g) = g_inflight g"
  "g_rr_device (ctrl_count f g) = g_rr_device g" "g_running (ctrl_count f g) = g_running g"
  "g_next_job (ctrl_count f g) = g_next_job g" "g_high_burst (ctrl_count f g) = g_high_burst g"
  by (simp_all add: ctrl_count_def)

lemma ctrl_stats_simps [simp]:
  "g_slots (ctrl_stats_locked g) = g_slots g" "g_devices (ctrl_stats_locked g) = g_devices g"
  "g_leases (ctrl_stats_locked g) = g_leases g" "g_inflight (ctrl_stats_locked g) = g_inflight g"
  "g_rr_device (ctrl_stats_locked g) = g_rr_device g" "g_running (ctrl_stats_locked g) = g_running g"
  "g_next_job (ctrl_stats_locked g) = g_next_job g" "g_high_burst (ctrl_stats_locked g) = g_high_burst g"
  by (simp_all add: ctrl_stats_locked_def Let_def)

lemma inv_count [simp]: "ctrl_inv cb (ctrl_count f g) = ctrl_inv cb g" "ctrl_inv cb (ctrl_stats_locked g) = ctrl_inv cb g"
  by (simp_all add: ctrl_inv_def)

lemma moves_count [simp]: "moves g (ctrl_count f h) = moves g h"
  by (simp add: moves_def)

lemma moves_slot:
  "slot_step (g_slots g ! i) (f (g_slots g ! i)) \<Longrightarrow> moves g (slot_map i f g)"
  by (cases "i < length (g_slots g)") (auto simp: moves_def list_all2_conv_all_nth nth_list_update)

lemma moves_nth:
  "moves g h \<Longrightarrow> i < length (g_slots g) \<Longrightarrow>
     length (g_slots h) = length (g_slots g) \<and> slot_step (g_slots g ! i) (g_slots h ! i)"
  by (simp add: moves_def list_all2_conv_all_nth)

lemma slot_step_states:
  assumes "slot_step s t"
  shows "cs_device_index t = cs_device_index s" "ticket t = ticket s"
    and "cs_state t = CTRL_SLOT_FREE \<longleftrightarrow> cs_state s = CTRL_SLOT_FREE"
    and "cs_state t = CTRL_SLOT_INFLIGHT \<Longrightarrow> cs_state s = CTRL_SLOT_INFLIGHT"
    and "cs_state t = CTRL_SLOT_COMPLETING \<Longrightarrow> cs_state s = CTRL_SLOT_COMPLETING"
    and "cs_state s = CTRL_SLOT_INFLIGHT \<or> cs_state s = CTRL_SLOT_COMPLETION_PENDING \<Longrightarrow>
           cs_state t = CTRL_SLOT_INFLIGHT \<or> cs_state t = CTRL_SLOT_COMPLETION_PENDING"
    and "cs_state s = CTRL_SLOT_COMPLETING \<or> cs_state s = CTRL_SLOT_COMPLETION_PENDING \<Longrightarrow>
           cs_state t = CTRL_SLOT_COMPLETING \<or> cs_state t = CTRL_SLOT_COMPLETION_PENDING"
  using assms by (auto simp: slot_step_def)

lemma transport_ok_moves:
  assumes "list_all2 slot_step S T" "transport_ok S D"
  shows "transport_ok T D"
proof -
  have len: "length T = length S" and st: "\<And>i. i < length S \<Longrightarrow> slot_step (S ! i) (T ! i)"
    using assms(1) by (simp_all add: list_all2_conv_all_nth)
  note slot = slot_step_states [OF st]
  show ?thesis
    using assms(2) slot unfolding transport_ok_def len by (intro conjI) (blast, blast, metis, metis)
qed

lemma callback_ok_moves:
  assumes "list_all2 slot_step S T" "callback_ok cb S D"
  shows "callback_ok cb T D"
proof -
  have len: "length T = length S" and st: "\<And>i. i < length S \<Longrightarrow> slot_step (S ! i) (T ! i)"
    using assms(1) by (simp_all add: list_all2_conv_all_nth)
  show ?thesis
    using assms(2) slot_step_states(5,7) [OF st] unfolding callback_ok_def len by blast
qed

lemma inv_moves: "moves g h \<Longrightarrow> ctrl_inv cb g \<Longrightarrow> ctrl_inv cb h"
  by (auto simp: ctrl_inv_def moves_def list_all2_lengthD [symmetric]
      intro: transport_ok_moves callback_ok_moves)

lemma jobs_owed_moves:
  assumes "moves g h"
  shows "jobs_owed cb (g_slots h) = jobs_owed cb (g_slots g)"
proof -
  have len: "length (g_slots h) = length (g_slots g)"
    and st: "\<And>i. i < length (g_slots g) \<Longrightarrow> slot_step (g_slots g ! i) (g_slots h ! i)"
    using assms by (simp_all add: moves_def list_all2_conv_all_nth)
  have "busy cb (g_slots h) = busy cb (g_slots g)"
    using st by (fastforce simp: busy_def len slot_step_def)
  moreover have "ticket (g_slots h ! i) = ticket (g_slots g ! i)" if "i \<in> busy cb (g_slots g)" for i
    using st that by (simp add: busy_def slot_step_def)
  ultimately show ?thesis
    unfolding jobs_owed_def by (auto intro!: image_mset_cong simp: busy_def)
qed

lemma moves_age: "moves g (age_slots now g)"
  by (auto simp: moves_def age_slots_def age_slot_def make_terminal_def list_all2_conv_all_nth slot_step_def
      ticket_def Let_def)

lemma moves_mark: "moves g (deinit_mark g)"
  by (auto simp: moves_def deinit_mark_def list_all2_conv_all_nth slot_step_def ticket_def)

lemma moves_stop: "moves g (deinit_stop g)"
  by (auto simp: moves_def deinit_stop_def list_all2_conv_all_nth)

lemma moves_dcs_complete: "moves g (ctrl_dcs_complete result p g)"
  by (auto simp: ctrl_dcs_complete_def Let_def slot_step_def ticket_def split: option.split intro!: moves_slot)

lemma moves_dispatch_result: "moves g (dispatch_result i err g)"
  by (auto simp: dispatch_result_def slot_step_def ticket_def intro!: moves_slot)

lemma moves_dedupe: "dedupe_loop job is g = (h, r) \<Longrightarrow> moves g h"
proof (induction job "is" g arbitrary: h r rule: dedupe_loop.induct)
  case (1 job g)
  then show ?case by simp
next
  case (2 job i "is" g)
  let ?u = "\<lambda>s. s\<lparr>cs_terminal := DEVICE_CTRL_TERMINAL_SUPERSEDED, cs_state := CTRL_SLOT_COMPLETION_PENDING\<rparr>"
  let ?g = "ctrl_count (\<lambda>t. t\<lparr>ct_deduped := ct_deduped t + 1\<rparr>) g"
  show ?case
  proof (cases "cs_state (g_slots g ! i) = CTRL_SLOT_QUEUED \<and> j_dedupe job \<noteq> DEVICE_CTRL_DEDUPE_NONE \<and>
      ctrl_job_equal (cs_job (g_slots g ! i)) job")
    case True
    then have "moves ?g (slot_map i ?u ?g)" by (intro moves_slot) (simp add: slot_step_def ticket_def)
    then have "moves g (slot_map i ?u ?g)" by (rule moves_trans [rotated]) simp
    with True 2 show ?thesis by (auto simp: Let_def split: if_splits intro: moves_trans)
  next
    case False
    with 2 show ?thesis by (auto simp: Let_def)
  qed
qed

lemma moves_cancel_jobs:
  assumes "\<And>s. P s \<Longrightarrow> cs_state s \<noteq> CTRL_SLOT_FREE"
  shows "cancel_jobs P is g found inflight = (h, r) \<Longrightarrow> moves g h"
  using assms
proof (induction P "is" g found inflight arbitrary: h r rule: cancel_jobs.induct)
  case (1 P g found inflight)
  then show ?case by simp
next
  case (2 P i "is" g found inflight)
  let ?u = "\<lambda>s. s\<lparr>cs_terminal := DEVICE_CTRL_TERMINAL_CANCELLED, cs_state := CTRL_SLOT_COMPLETION_PENDING\<rparr>"
  have "moves g (slot_map i ?u g)" if "P (g_slots g ! i)"
    using 2(5) [OF that] by (intro moves_slot) (simp add: slot_step_def ticket_def)
  then have "moves g h" if "P (g_slots g ! i)"
      "moves (ctrl_count (\<lambda>t. t\<lparr>ct_cancelled := ct_cancelled t + 1\<rparr>) (slot_map i ?u g)) h"
    using that by (intro moves_trans [OF _ that(2)]) simp
  with 2 show ?case by (auto simp: Let_def split: if_splits)
qed

section \<open>Device entries and leases\<close>

text \<open>
  The other public functions change device entries: an unused entry may become used, an entry may be
  blocked or unblocked, a lease may come or go. The transport fields of a used entry stay.
\<close>

definition dev_step :: "ctrl_device \<Rightarrow> ctrl_device \<Rightarrow> bool" where
  "dev_step d e \<longleftrightarrow>
     cd_transport_inflight e = cd_transport_inflight d \<and> (cd_used d \<longrightarrow> cd_used e) \<and>
     (cd_used d \<longrightarrow> cd_inflight_slot e = cd_inflight_slot d) \<and>
     (\<not> cd_used d \<longrightarrow> \<not> cd_used e \<or> cd_inflight_slot e = - 1)"

lemma dev_step_refl [simp]: "dev_step d d"
  by (simp add: dev_step_def)

lemma transport_ok_devices:
  assumes "list_all2 dev_step D E" "transport_ok S D"
  shows "transport_ok S E"
proof -
  note ok = transport_okD [OF assms(2)]
  have len: "length E = length D" and st: "\<And>d. d < length D \<Longrightarrow> dev_step (D ! d) (E ! d)"
    using assms(1) by (simp_all add: list_all2_conv_all_nth)
  show ?thesis
  proof (rule transport_okI)
    fix d assume d: "d < length E" "cd_transport_inflight (E ! d)"
    with st [of d] ok(1,2) [of d] len show "cd_used (E ! d) \<and>
        (\<exists>i<length S. cd_inflight_slot (E ! d) = int i \<and> cs_device_index (S ! i) = d \<and>
           (cs_state (S ! i) = CTRL_SLOT_INFLIGHT \<or> cs_state (S ! i) = CTRL_SLOT_COMPLETION_PENDING))"
      by (auto simp: dev_step_def)
  next
    fix d assume "d < length E" "cd_used (E ! d)" "\<not> cd_transport_inflight (E ! d)"
    with st [of d] ok(3) [of d] len show "cd_inflight_slot (E ! d) = - 1" by (auto simp: dev_step_def)
  next
    fix i assume "i < length S" "cs_state (S ! i) \<noteq> CTRL_SLOT_FREE"
    with ok(4) [of i] st [of "cs_device_index (S ! i)"] len
    show "cs_device_index (S ! i) < length E \<and> cd_used (E ! cs_device_index (S ! i))" by (auto simp: dev_step_def)
  next
    fix i assume "i < length S" "cs_state (S ! i) = CTRL_SLOT_INFLIGHT"
    with ok(4,5) [of i] st [of "cs_device_index (S ! i)"]
    show "cd_transport_inflight (E ! cs_device_index (S ! i)) \<and> cd_inflight_slot (E ! cs_device_index (S ! i)) = int i"
      by (auto simp: dev_step_def)
  qed
qed

lemma callback_ok_devices:
  assumes "list_all2 dev_step D E" "transport_ok S D" "callback_ok cb S D"
  shows "callback_ok cb S E"
proof -
  have len: "length E = length D" and st: "\<And>d. d < length D \<Longrightarrow> dev_step (D ! d) (E ! d)"
    using assms(1) by (simp_all add: list_all2_conv_all_nth)
  have "cd_inflight_slot (E ! d) \<noteq> int i" if "cb = Some i" "d < length E" "cd_transport_inflight (E ! d)" for d i
    using that st [of d] len transport_okD(1) [OF assms(2), of d] assms(3) by (auto simp: dev_step_def callback_ok_def)
  with assms(3) show ?thesis unfolding callback_ok_def by blast
qed

lemma count_devices:
  "list_all2 dev_step D E \<Longrightarrow> count_if cd_transport_inflight E = count_if cd_transport_inflight D"
  by (induction rule: list_all2_induct) (auto simp: dev_step_def)

lemma inv_devices:
  assumes "ctrl_inv cb g" "list_all2 dev_step (g_devices g) (g_devices h)" "g_slots h = g_slots g"
    and "length (g_leases h) = length (g_leases g)" "leases_ok (g_leases h) (g_devices h)"
    and "g_inflight h = g_inflight g" "g_rr_device h = g_rr_device g"
  shows "ctrl_inv cb h"
  using assms transport_ok_devices [OF assms(2)] callback_ok_devices [OF assms(2)] count_devices [OF assms(2)]
    list_all2_lengthD [OF assms(2)]
  by (simp add: ctrl_inv_def)

lemma dev_step_update:
  "dev_step (D ! d) v \<Longrightarrow> list_all2 dev_step D (D[d := v])"
  by (cases "d < length D") (auto simp: list_all2_conv_all_nth nth_list_update)

lemma leases_ok_devices:
  assumes "leases_ok L D" "list_all2 dev_step D E"
    and "\<And>d. d < length D \<Longrightarrow> cd_lease (E ! d) = cd_lease (D ! d)"
  shows "leases_ok L E"
proof -
  have "length E = length D" "\<And>d. d < length D \<Longrightarrow> cd_used (D ! d) \<longrightarrow> cd_used (E ! d)"
    using assms(2) by (auto simp: list_all2_conv_all_nth dev_step_def)
  with assms(1,3) show ?thesis unfolding leases_ok_def by simp
qed

lemma inv_lengths:
  "ctrl_inv cb g \<Longrightarrow> length (g_slots g) = 24 \<and> length (g_devices g) = 16 \<and> length (g_leases g) = 16"
  by (simp add: ctrl_inv_def)

lemma inv_parts:
  assumes "ctrl_inv cb g"
  shows "transport_ok (g_slots g) (g_devices g)" "leases_ok (g_leases g) (g_devices g)"
    and "callback_ok cb (g_slots g) (g_devices g)"
  using assms by (simp_all add: ctrl_inv_def)

text \<open>Finding or creating the entry of a device; an update of a used entry that keeps its transport and lease.\<close>

lemma inv_device_map:
  assumes "ctrl_inv cb g" "dev_step (g_devices g ! d) (f (g_devices g ! d))"
    and "cd_lease (f (g_devices g ! d)) = cd_lease (g_devices g ! d)"
  shows "ctrl_inv cb (device_map d f g)"
proof (rule inv_devices [OF assms(1)])
  show l: "list_all2 dev_step (g_devices g) (g_devices (device_map d f g))"
    using dev_step_update [OF assms(2)] by simp
  have "cd_lease ((g_devices g)[d := f (g_devices g ! d)] ! e) = cd_lease (g_devices g ! e)" for e
    using assms(3) by (cases "d < length (g_devices g)") (auto simp: nth_list_update list_update_beyond)
  then show "leases_ok (g_leases (device_map d f g)) (g_devices (device_map d f g))"
    using leases_ok_devices [OF inv_parts(2) [OF assms(1)] l] by simp
qed simp_all

lemma find_device_inv:
  assumes "ctrl_find_device_locked dev create g = (h, r)" "ctrl_inv cb g"
  shows "ctrl_inv cb h \<and> (\<forall>d. r = Some d \<longrightarrow> d < 16 \<and> cd_used (g_devices h ! d))"
proof (cases "find_index (\<lambda>d. cd_used d \<and> cd_device_id d = dev) (g_devices g)")
  case (Some i)
  with assms find_index_SomeD [OF Some] inv_lengths [OF assms(2)] show ?thesis
    by (auto simp: ctrl_find_device_locked_def)
next
  case None
  show ?thesis
  proof (cases "find_index (\<lambda>d. \<not> cd_used d) (g_devices g)")
    case (Some i)
    let ?f = "\<lambda>d. d\<lparr>cd_used := True, cd_inflight_slot := - 1, cd_device_id := strlcpy GW_MSG_DEVICE_ID_LEN dev\<rparr>"
    have i: "i < length (g_devices g)" "\<not> cd_used (g_devices g ! i)" using find_index_SomeD [OF Some] by auto
    then have "ctrl_inv cb (device_map i ?f g)"
      by (intro inv_device_map [OF assms(2)]) (simp_all add: dev_step_def)
    with assms None Some i inv_lengths [OF assms(2)] show ?thesis
      by (auto simp: ctrl_find_device_locked_def split: if_splits)
  next
    case 2: None
    with assms None show ?thesis by (auto simp: ctrl_find_device_locked_def split: if_splits)
  qed
qed

lemma find_device_frame:
  "ctrl_find_device_locked dev create g = (h, r) \<Longrightarrow>
     g_slots h = g_slots g \<and> g_leases h = g_leases g \<and> g_running h = g_running g \<and> g_next_job h = g_next_job g"
  by (auto simp: ctrl_find_device_locked_def split: option.splits if_splits)

lemma mset_filter_update:
  "i < length xs \<Longrightarrow>
    mset (map f (filter P (xs[i := y]))) + (if P (xs ! i) then {#f (xs ! i)#} else {#}) =
    mset (map f (filter P xs)) + (if P y then {#f y#} else {#})"
proof (induction xs arbitrary: i)
  case Nil
  then show ?case by simp
next
  case (Cons x xs)
  show ?case
  proof (cases i)
    case 0
    then show ?thesis by simp
  next
    case (Suc k)
    with Cons.prems Cons.IH [of k] show ?thesis by (auto split: if_splits)
  qed
qed

lemmas lease_owed_update = mset_filter_update [where P = awaits and f = "\<lambda>l. (cl_completion l, cl_context l)",
  folded lease_owed_def]

lemma leases_okI:
  assumes "\<And>i. \<lbrakk>i < length L; cl_state (L ! i) \<noteq> CTRL_LEASE_FREE\<rbrakk> \<Longrightarrow>
        cl_id (L ! i) \<noteq> 0 \<and> cl_device_index (L ! i) < length D \<and> cd_used (D ! cl_device_index (L ! i))"
    and "\<And>i. \<lbrakk>i < length L; cl_state (L ! i) = CTRL_LEASE_ACTIVE\<rbrakk> \<Longrightarrow>
        cd_lease (D ! cl_device_index (L ! i)) = cl_id (L ! i)"
    and "\<And>i j. \<lbrakk>i < length L; j < length L; cl_state (L ! i) = CTRL_LEASE_ACTIVE; cl_state (L ! j) = CTRL_LEASE_ACTIVE;
        cl_device_index (L ! i) = cl_device_index (L ! j)\<rbrakk> \<Longrightarrow> i = j"
    and "\<And>d. \<lbrakk>d < length D; cd_lease (D ! d) \<noteq> 0\<rbrakk> \<Longrightarrow>
        \<exists>i<length L. cl_state (L ! i) = CTRL_LEASE_ACTIVE \<and> cl_device_index (L ! i) = d"
  shows "leases_ok L D"
  unfolding leases_ok_def using assms by blast

lemma leases_okD:
  assumes "leases_ok L D"
  shows "\<lbrakk>i < length L; cl_state (L ! i) \<noteq> CTRL_LEASE_FREE\<rbrakk> \<Longrightarrow>
        cl_id (L ! i) \<noteq> 0 \<and> cl_device_index (L ! i) < length D \<and> cd_used (D ! cl_device_index (L ! i))"
    and "\<lbrakk>i < length L; cl_state (L ! i) = CTRL_LEASE_ACTIVE\<rbrakk> \<Longrightarrow>
        cd_lease (D ! cl_device_index (L ! i)) = cl_id (L ! i)"
    and "\<lbrakk>i < length L; j < length L; cl_state (L ! i) = CTRL_LEASE_ACTIVE; cl_state (L ! j) = CTRL_LEASE_ACTIVE;
        cl_device_index (L ! i) = cl_device_index (L ! j)\<rbrakk> \<Longrightarrow> i = j"
    and "\<lbrakk>d < length D; cd_lease (D ! d) \<noteq> 0\<rbrakk> \<Longrightarrow>
        \<exists>i<length L. cl_state (L ! i) = CTRL_LEASE_ACTIVE \<and> cl_device_index (L ! i) = d"
  using assms unfolding leases_ok_def by blast+

lemma leases_ok_inactive:
  assumes ok: "leases_ok L D" and i: "i < length L" "cl_state (L ! i) \<noteq> CTRL_LEASE_ACTIVE"
    and l: "cl_state l \<noteq> CTRL_LEASE_ACTIVE"
      "cl_state l \<noteq> CTRL_LEASE_FREE \<Longrightarrow> cl_id l \<noteq> 0 \<and> cl_device_index l < length D \<and> cd_used (D ! cl_device_index l)"
  shows "leases_ok (L[i := l]) D"
proof -
  note ok = leases_okD [OF ok]
  show ?thesis
  proof (rule leases_okI)
    fix k assume "k < length (L[i := l])" "cl_state (L[i := l] ! k) \<noteq> CTRL_LEASE_FREE"
    with ok(1) [of k] l show "cl_id (L[i := l] ! k) \<noteq> 0 \<and> cl_device_index (L[i := l] ! k) < length D \<and>
        cd_used (D ! cl_device_index (L[i := l] ! k))"
      by (cases "k = i") auto
  next
    fix k assume "k < length (L[i := l])" "cl_state (L[i := l] ! k) = CTRL_LEASE_ACTIVE"
    with ok(2) [of k] l(1) show "cd_lease (D ! cl_device_index (L[i := l] ! k)) = cl_id (L[i := l] ! k)"
      by (cases "k = i") auto
  next
    fix k j
    assume "k < length (L[i := l])" "j < length (L[i := l])" "cl_state (L[i := l] ! k) = CTRL_LEASE_ACTIVE"
      "cl_state (L[i := l] ! j) = CTRL_LEASE_ACTIVE" "cl_device_index (L[i := l] ! k) = cl_device_index (L[i := l] ! j)"
    with ok(3) [of k j] l(1) i(1) show "k = j" by (cases "k = i"; cases "j = i") auto
  next
    fix d assume "d < length D" "cd_lease (D ! d) \<noteq> 0"
    with ok(4) obtain k where k: "k < length L" "cl_state (L ! k) = CTRL_LEASE_ACTIVE" "cl_device_index (L ! k) = d"
      by blast
    with i(2) have "k \<noteq> i" by auto
    with k show "\<exists>k<length (L[i := l]). cl_state (L[i := l] ! k) = CTRL_LEASE_ACTIVE \<and> cl_device_index (L[i := l] ! k) = d"
      by (intro exI [of _ k]) simp
  qed
qed

lemma leases_ok_revoke:
  assumes ok: "leases_ok L D" and i: "i < length L" "cl_state (L ! i) = CTRL_LEASE_ACTIVE"
    and v: "cd_lease v = 0" "cd_used v" and l: "cl_state l = CTRL_LEASE_FREE"
  shows "leases_ok (L[i := l]) (D[cl_device_index (L ! i) := v])"
proof -
  note ok = leases_okD [OF ok]
  let ?d = "cl_device_index (L ! i)"
  have d: "?d < length D" using ok(1) i by auto
  have other: "cl_device_index (L ! k) \<noteq> ?d" if "k < length L" "cl_state (L ! k) = CTRL_LEASE_ACTIVE" "k \<noteq> i" for k
    using ok(3) [of k i] i that by blast
  show ?thesis
  proof (rule leases_okI)
    fix k assume "k < length (L[i := l])" "cl_state (L[i := l] ! k) \<noteq> CTRL_LEASE_FREE"
    with ok(1) [of k] l v d show "cl_id (L[i := l] ! k) \<noteq> 0 \<and> cl_device_index (L[i := l] ! k) < length (D[?d := v]) \<and>
        cd_used (D[?d := v] ! cl_device_index (L[i := l] ! k))"
      by (cases "k = i") (auto simp: nth_list_update)
  next
    fix k assume "k < length (L[i := l])" "cl_state (L[i := l] ! k) = CTRL_LEASE_ACTIVE"
    with ok(2) [of k] l other [of k] show "cd_lease (D[?d := v] ! cl_device_index (L[i := l] ! k)) = cl_id (L[i := l] ! k)"
      by (cases "k = i") (auto simp: nth_list_update)
  next
    fix k j
    assume "k < length (L[i := l])" "j < length (L[i := l])" "cl_state (L[i := l] ! k) = CTRL_LEASE_ACTIVE"
      "cl_state (L[i := l] ! j) = CTRL_LEASE_ACTIVE" "cl_device_index (L[i := l] ! k) = cl_device_index (L[i := l] ! j)"
    with ok(3) [of k j] l i(1) show "k = j" by (cases "k = i"; cases "j = i") auto
  next
    fix e assume e: "e < length (D[?d := v])" "cd_lease (D[?d := v] ! e) \<noteq> 0"
    with v d have "e \<noteq> ?d" by auto
    with e ok(4) [of e] obtain k where k: "k < length L" "cl_state (L ! k) = CTRL_LEASE_ACTIVE" "cl_device_index (L ! k) = e"
      by auto
    with \<open>e \<noteq> ?d\<close> have "k \<noteq> i" by auto
    with k show "\<exists>k<length (L[i := l]). cl_state (L[i := l] ! k) = CTRL_LEASE_ACTIVE \<and> cl_device_index (L[i := l] ! k) = e"
      by (intro exI [of _ k]) simp
  qed
qed

lemma leases_ok_grant:
  assumes ok: "leases_ok L D" and i: "i < length L" "cl_state (L ! i) = CTRL_LEASE_PENDING"
    and d: "cd_lease (D ! cl_device_index (L ! i)) = 0" and v: "cd_lease v = cl_id (L ! i)" "cd_used v"
  shows "leases_ok (L[i := (L ! i)\<lparr>cl_state := CTRL_LEASE_ACTIVE\<rparr>]) (D[cl_device_index (L ! i) := v])"
proof -
  note ok = leases_okD [OF ok]
  let ?d = "cl_device_index (L ! i)" and ?L = "L[i := (L ! i)\<lparr>cl_state := CTRL_LEASE_ACTIVE\<rparr>]"
  have dl: "?d < length D" "cl_id (L ! i) \<noteq> 0" using ok(1) i by auto
  have other: "cl_device_index (L ! k) \<noteq> ?d" if "k < length L" "cl_state (L ! k) = CTRL_LEASE_ACTIVE" for k
    using ok(1) [of k] ok(2) [of k] that d by auto
  show ?thesis
  proof (rule leases_okI)
    fix k assume "k < length ?L" "cl_state (?L ! k) \<noteq> CTRL_LEASE_FREE"
    with ok(1) [of k] i dl v show "cl_id (?L ! k) \<noteq> 0 \<and> cl_device_index (?L ! k) < length (D[?d := v]) \<and>
        cd_used (D[?d := v] ! cl_device_index (?L ! k))"
      by (cases "k = i") (auto simp: nth_list_update)
  next
    fix k assume "k < length ?L" "cl_state (?L ! k) = CTRL_LEASE_ACTIVE"
    with ok(2) [of k] other [of k] v dl show "cd_lease (D[?d := v] ! cl_device_index (?L ! k)) = cl_id (?L ! k)"
      by (cases "k = i") (auto simp: nth_list_update)
  next
    fix k j
    assume "k < length ?L" "j < length ?L" "cl_state (?L ! k) = CTRL_LEASE_ACTIVE"
      "cl_state (?L ! j) = CTRL_LEASE_ACTIVE" "cl_device_index (?L ! k) = cl_device_index (?L ! j)"
    with ok(3) [of k j] other [of k] other [of j] show "k = j" by (cases "k = i"; cases "j = i") auto
  next
    fix e assume e: "e < length (D[?d := v])" "cd_lease (D[?d := v] ! e) \<noteq> 0"
    show "\<exists>k<length ?L. cl_state (?L ! k) = CTRL_LEASE_ACTIVE \<and> cl_device_index (?L ! k) = e"
    proof (cases "e = ?d")
      case True
      with i show ?thesis by (intro exI [of _ i]) simp
    next
      case False
      with e ok(4) [of e] obtain k where k: "k < length L" "cl_state (L ! k) = CTRL_LEASE_ACTIVE" "cl_device_index (L ! k) = e"
        by auto
      with i have "k \<noteq> i" by auto
      with k show ?thesis by (intro exI [of _ k]) simp
    qed
  qed
qed

text \<open>The lease operations keep the invariant; what is owed changes by the requests taken and the calls made.\<close>

lemma inv_lease_map:
  assumes "ctrl_inv cb g" "leases_ok ((g_leases g)[i := f (g_leases g ! i)]) (g_devices g)"
  shows "ctrl_inv cb (lease_map i f g)"
  using assms by (simp add: ctrl_inv_def)

lemma inv_revoke:
  assumes "ctrl_inv cb g" "i < 16" "cl_state (g_leases g ! i) = CTRL_LEASE_ACTIVE"
    and "d = cl_device_index (g_leases g ! i)" "\<And>l. cl_state (f l) = CTRL_LEASE_FREE"
    and "\<And>v. dev_step v (u v) \<and> cd_lease (u v) = 0"
    and "g_devices h = (g_devices g)[d := u (g_devices g ! d)]" "g_leases h = (g_leases g)[i := f (g_leases g ! i)]"
    and "g_slots h = g_slots g" "g_inflight h = g_inflight g" "g_rr_device h = g_rr_device g"
  shows "ctrl_inv cb h \<and> lease_owed (g_leases h) = lease_owed (g_leases g)"
proof
  have i: "i < length (g_leases g)" using assms(2) inv_lengths [OF assms(1)] by simp
  note ok = leases_okD(1) [OF inv_parts(2) [OF assms(1)] i]
  have used: "cd_used (u (g_devices g ! d))" using assms(3,4) assms(6) [of "g_devices g ! d"] ok by (auto simp: dev_step_def)
  have "leases_ok (g_leases h) (g_devices h)"
    unfolding assms(7,8) assms(4)
    using leases_ok_revoke [OF inv_parts(2) [OF assms(1)] i assms(3)] assms(5,6) used assms(4) by simp
  then show "ctrl_inv cb h"
    using assms by (intro inv_devices [OF assms(1)]) (auto intro: dev_step_update)
  show "lease_owed (g_leases h) = lease_owed (g_leases g)"
    unfolding assms(8) using lease_owed_update [OF i] assms(3,5) by (simp add: awaits_def)
qed

lemma cancel_leases_inv:
  "\<lbrakk>cancel_leases dev src owner all_sources is g found = (h, r); ctrl_inv cb g; \<forall>i\<in>set is. i < 16\<rbrakk> \<Longrightarrow>
     ctrl_inv cb h \<and> g_slots h = g_slots g \<and> lease_owed (g_leases h) = lease_owed (g_leases g)"
proof (induction dev src owner all_sources "is" g found rule: cancel_leases.induct)
  case (1 dev src owner all_sources g found)
  then show ?case by simp
next
  case (2 dev src owner all_sources i "is" g found)
  let ?l = "g_leases g ! i"
  have i: "i < length (g_leases g)" using 2(6) inv_lengths [OF 2(5)] by simp
  consider (skip) "cl_state ?l = CTRL_LEASE_FREE \<or> cd_device_id (g_devices g ! cl_device_index ?l) \<noteq> dev \<or>
      (\<not> all_sources \<and> (cl_source ?l \<noteq> src \<or> cl_owner ?l \<noteq> owner))"
    | (active) "\<not> (cl_state ?l = CTRL_LEASE_FREE \<or> cd_device_id (g_devices g ! cl_device_index ?l) \<noteq> dev \<or>
      (\<not> all_sources \<and> (cl_source ?l \<noteq> src \<or> cl_owner ?l \<noteq> owner)))" "cl_state ?l = CTRL_LEASE_ACTIVE"
    | (waiting) "\<not> (cl_state ?l = CTRL_LEASE_FREE \<or> cd_device_id (g_devices g ! cl_device_index ?l) \<noteq> dev \<or>
      (\<not> all_sources \<and> (cl_source ?l \<noteq> src \<or> cl_owner ?l \<noteq> owner)))" "cl_state ?l \<noteq> CTRL_LEASE_ACTIVE"
    by blast
  then show ?case
  proof cases
    case skip
    with 2 show ?thesis by (simp add: Let_def)
  next
    case active
    let ?h = "lease_map i (\<lambda>l. l\<lparr>cl_state := CTRL_LEASE_FREE\<rparr>)
        (ctrl_count (\<lambda>t. t\<lparr>ct_lease_revoked := ct_lease_revoked t + 1\<rparr>)
          (device_map (cl_device_index ?l) (\<lambda>d. d\<lparr>cd_lease := 0\<rparr>) g))"
    have "ctrl_inv cb ?h \<and> lease_owed (g_leases ?h) = lease_owed (g_leases g)"
      using 2(6) active(2)
      by (intro inv_revoke [OF 2(5), where i = i and d = "cl_device_index ?l" and u = "\<lambda>d. d\<lparr>cd_lease := 0\<rparr>"
            and f = "\<lambda>l. l\<lparr>cl_state := CTRL_LEASE_FREE\<rparr>"]) (simp_all add: dev_step_def)
    moreover have "cancel_leases dev src owner all_sources is ?h True = (h, r)"
      using 2(4) by (simp only: cancel_leases.simps Let_def if_not_P [OF active(1)] if_P [OF active(2)])
    ultimately show ?thesis using 2(2) [OF refl active] 2(6) by auto
  next
    case waiting
    let ?f = "\<lambda>l. l\<lparr>cl_completion_status := ESP_ERR_INVALID_STATE, cl_state := CTRL_LEASE_COMPLETION_PENDING\<rparr>"
    have "ctrl_inv cb (lease_map i ?f g)"
      using leases_okD(1) [OF inv_parts(2) [OF 2(5)] i] waiting i
      by (intro inv_lease_map [OF 2(5)] leases_ok_inactive inv_parts(2) [OF 2(5)]) auto
    moreover have "lease_owed (g_leases (lease_map i ?f g)) = lease_owed (g_leases g)"
      using lease_owed_update [OF i, of "?f ?l"] waiting by (cases "cl_state ?l") (simp_all add: awaits_def)
    moreover have "cancel_leases dev src owner all_sources is (lease_map i ?f g) True = (h, r)"
      using 2(4) by (simp only: cancel_leases.simps Let_def if_not_P [OF waiting(1)] if_not_P [OF waiting(2)])
    ultimately show ?thesis using 2(3) [OF refl waiting] 2(6) by auto
  qed
qed

lemma cancel_match_inv:
  assumes "ctrl_cancel_match dev src owner all_sources job_id g = (h, err, inflight)" "ctrl_inv cb g"
  shows "ctrl_inv cb h \<and> jobs_owed cb (g_slots h) = jobs_owed cb (g_slots g) \<and> lease_owed (g_leases h) = lease_owed (g_leases g)"
proof -
  obtain g1 found infl where c: "cancel_jobs (cancels dev src owner all_sources job_id) [0..<24] g False None = (g1, found, infl)"
    by (metis prod_cases3)
  have m: "moves g g1" by (rule moves_cancel_jobs [OF _ c]) (simp add: cancels_def)
  have 1: "ctrl_inv cb g1" "g_leases g1 = g_leases g"
    using inv_moves [OF m assms(2)] m by (simp_all add: moves_def)
  show ?thesis
  proof (cases "job_id = 0")
    case True
    obtain g2 found2 where l: "cancel_leases dev src owner all_sources [0..<16] g1 found = (g2, found2)" by fastforce
    with cancel_leases_inv [OF l 1(1)] True c assms(1) jobs_owed_moves [OF m] 1(2) show ?thesis
      by (auto simp: ctrl_cancel_match_def)
  next
    case False
    with c assms(1) jobs_owed_moves [OF m] 1 show ?thesis by (auto simp: ctrl_cancel_match_def)
  qed
qed

lemma release_inv:
  assumes "device_control_scheduler_release_lease now lease_id g = (h, err)" "ctrl_inv cb g"
  shows "ctrl_inv cb h \<and> g_slots h = g_slots g \<and> lease_owed (g_leases h) = lease_owed (g_leases g)"
proof (cases "lease_id = 0 \<or> h = g")
  case True
  with assms show ?thesis by (auto simp: device_control_scheduler_release_lease_def)
next
  case False
  then obtain i where i: "find_index (\<lambda>l. cl_state l = CTRL_LEASE_ACTIVE \<and> cl_id l = lease_id) (g_leases g) = Some i"
    using assms(1) by (auto simp: device_control_scheduler_release_lease_def split: option.splits)
  define d where "d = cl_device_index (g_leases g ! i)"
  have a: "i < 16" "cl_state (g_leases g ! i) = CTRL_LEASE_ACTIVE"
    using find_index_SomeD [OF i] inv_lengths [OF assms(2)] by auto
  have h: "g_devices h = (g_devices g)[d := (\<lambda>v. v\<lparr>cd_lease := 0, cd_lease_owner := 0\<rparr>) (g_devices g ! d)]"
    "g_leases h = (g_leases g)[i := (\<lambda>l. l\<lparr>cl_state := CTRL_LEASE_FREE\<rparr>) (g_leases g ! i)]"
    "g_slots h = g_slots g" "g_inflight h = g_inflight g" "g_rr_device h = g_rr_device g"
    using assms(1) False i
    by (auto simp: device_control_scheduler_release_lease_def Let_def d_def split: if_splits)
  have "ctrl_inv cb h \<and> lease_owed (g_leases h) = lease_owed (g_leases g)"
    using h a by (intro inv_revoke [OF assms(2), where i = i and d = d and u = "\<lambda>v. v\<lparr>cd_lease := 0, cd_lease_owner := 0\<rparr>"
          and f = "\<lambda>l. l\<lparr>cl_state := CTRL_LEASE_FREE\<rparr>"]) (simp_all add: dev_step_def d_def)
  with h show ?thesis by simp
qed

lemma next_id_nonzero [simp]: "next_id n \<noteq> 0"
  by (simp add: next_id_def)

lemma acquire_inv:
  assumes "device_control_scheduler_acquire_lease (Some r) (Some fn) ctx g = (h, err)" "ctrl_inv cb g"
  shows "ctrl_inv cb h \<and> g_slots h = g_slots g \<and>
    lease_owed (g_leases h) = lease_owed (g_leases g) + (if err = ESP_OK then {#(Some fn, ctx)#} else {#})"
proof (cases "lr_device_id r = None \<or> lr_device_id r = Some [] \<or> lr_priority r > DEVICE_CTRL_PRIORITY_BACKGROUND \<or> \<not> g_running g")
  case True
  with assms show ?thesis by (auto simp: device_control_scheduler_acquire_lease_def split: if_splits)
next
  case False
  obtain g1 dv where f: "ctrl_find_device_locked (the (lr_device_id r)) True g = (g1, dv)" by fastforce
  note inv = find_device_inv [OF f assms(2)] and frame = find_device_frame [OF f]
  show ?thesis
  proof (cases "dv = None \<or> find_index (\<lambda>l. cl_state l = CTRL_LEASE_FREE) (g_leases g1) = None")
    case True
    then have "h = ctrl_count (\<lambda>t. t\<lparr>ct_queue_full := ct_queue_full t + 1\<rparr>) g1 \<and> err = ESP_ERR_NO_MEM"
      using assms(1) False f by (auto simp: device_control_scheduler_acquire_lease_def split: option.splits)
    with inv frame show ?thesis by simp
  next
    case some: False
    then obtain d i where di: "dv = Some d" "find_index (\<lambda>l. cl_state l = CTRL_LEASE_FREE) (g_leases g1) = Some i" by auto
    have i: "i < length (g_leases g1)" "cl_state (g_leases g1 ! i) = CTRL_LEASE_FREE" using find_index_SomeD [OF di(2)] by auto
    let ?l = "zero_lease\<lparr>cl_state := CTRL_LEASE_PENDING, cl_id := next_id (g_next_lease g1), cl_device_index := d,
        cl_priority := lr_priority r, cl_source := lr_source r, cl_owner := lr_owner_token r,
        cl_completion := Some fn, cl_context := ctx\<rparr>"
    have h: "h = (g1\<lparr>g_next_lease := next_id (g_next_lease g1)\<rparr>)\<lparr>g_leases := (g_leases g1)[i := ?l]\<rparr>" "err = ESP_OK"
      using assms(1) False f di by (auto simp: device_control_scheduler_acquire_lease_def)
    have "leases_ok ((g_leases g1)[i := ?l]) (g_devices g1)"
      using inv di i inv_lengths [of cb g1] by (intro leases_ok_inactive inv_parts(2)) auto
    with inv h have "ctrl_inv cb h" by (simp add: ctrl_inv_def)
    moreover have "lease_owed (g_leases h) = lease_owed (g_leases g) + {#(Some fn, ctx)#}"
      using lease_owed_update [OF i(1), of ?l] i(2) frame h by (simp add: awaits_def zero_lease_def)
    ultimately show ?thesis using h frame by simp
  qed
qed

lemma process_lease_inv:
  assumes "process_lease now i g = (h, calls)" "ctrl_inv cb g" "i < 16"
  shows "ctrl_inv cb h \<and> g_slots h = g_slots g \<and>
    lease_owed (g_leases g) = lease_owed (g_leases h) + mset (map lease_call_ticket calls)"
proof -
  let ?l = "g_leases g ! i"
  have i: "i < length (g_leases g)" using assms(3) inv_lengths [OF assms(2)] by simp
  consider (finished) "cl_state ?l = CTRL_LEASE_COMPLETION_PENDING"
    | (grant) "cl_state ?l = CTRL_LEASE_PENDING" "\<not> cd_blocked (g_devices g ! cl_device_index ?l)"
        "\<not> cd_transport_inflight (g_devices g ! cl_device_index ?l)" "cd_lease (g_devices g ! cl_device_index ?l) = 0"
    | (none) "h = g" "calls = []"
    using assms(1) by (auto simp: process_lease_def Let_def split: if_splits)
  then show ?thesis
  proof cases
    case finished
    then have "leases_ok ((g_leases g)[i := zero_lease]) (g_devices g)"
      by (intro leases_ok_inactive inv_parts(2) [OF assms(2)] i) (auto simp: zero_lease_def)
    then have "ctrl_inv cb (lease_map i (\<lambda>_. zero_lease) g)" by (intro inv_lease_map [OF assms(2)]) simp
    moreover have "lease_owed (g_leases g) = lease_owed ((g_leases g)[i := zero_lease]) + {#(cl_completion ?l, cl_context ?l)#}"
      using lease_owed_update [OF i, of zero_lease] finished by (simp add: awaits_def zero_lease_def)
    ultimately show ?thesis using assms(1) finished by (auto simp: process_lease_def lease_call_ticket_def Let_def)
  next
    case grant
    let ?d = "cl_device_index ?l"
    let ?u = "\<lambda>v. v\<lparr>cd_lease := cl_id ?l, cd_lease_owner := cl_owner ?l, cd_lease_source := cl_source ?l, cd_lease_started_us := now\<rparr>"
    have used: "cd_used (g_devices g ! ?d)" using leases_okD(1) [OF inv_parts(2) [OF assms(2)] i] grant by simp
    have lk: "leases_ok ((g_leases g)[i := ?l\<lparr>cl_state := CTRL_LEASE_ACTIVE\<rparr>]) ((g_devices g)[?d := ?u (g_devices g ! ?d)])"
      using grant used by (intro leases_ok_grant inv_parts(2) [OF assms(2)] i) simp_all
    have h: "g_leases h = (g_leases g)[i := ?l\<lparr>cl_state := CTRL_LEASE_ACTIVE\<rparr>]" "g_devices h = (g_devices g)[?d := ?u (g_devices g ! ?d)]"
      "g_slots h = g_slots g" "g_inflight h = g_inflight g" "g_rr_device h = g_rr_device g"
      "calls = [(cl_completion ?l, cl_context ?l, ESP_OK, cl_id ?l)]"
      using assms(1) grant by (auto simp: process_lease_def Let_def)
    have "ctrl_inv cb h"
      using lk h by (intro inv_devices [OF assms(2)]) (simp_all add: dev_step_update dev_step_def)
    moreover have "lease_owed (g_leases g) = lease_owed (g_leases h) + {#(cl_completion ?l, cl_context ?l)#}"
      using lease_owed_update [OF i, of "?l\<lparr>cl_state := CTRL_LEASE_ACTIVE\<rparr>"] grant h by (simp add: awaits_def)
    ultimately show ?thesis using h by (simp add: lease_call_ticket_def)
  next
    case none
    with assms show ?thesis by simp
  qed
qed

section \<open>Entering and leaving the slots\<close>

lemma jobs_owed_enter:
  assumes "i < length S" "cs_state (S ! i) = CTRL_SLOT_FREE" "cs_state s \<noteq> CTRL_SLOT_FREE" "cb \<noteq> Some i"
  shows "jobs_owed cb (S[i := s]) = jobs_owed cb S + {#ticket s#}"
proof -
  have b: "busy cb (S[i := s]) = insert i (busy cb S)" "i \<notin> busy cb S" "finite (busy cb S)"
    using assms by (auto simp: busy_def nth_list_update)
  have "image_mset (\<lambda>k. ticket (S[i := s] ! k)) (mset_set (busy cb S)) = image_mset (\<lambda>k. ticket (S ! k)) (mset_set (busy cb S))"
    using b by (intro image_mset_cong arg_cong [of _ _ ticket] nth_list_update_neq) auto
  with b assms(1) show ?thesis by (simp add: jobs_owed_def)
qed

lemma enqueue_inv:
  assumes inv: "ctrl_inv cb g" and i: "i < 24" "cs_state (g_slots g ! i) = CTRL_SLOT_FREE"
    and d: "d < 16" "cd_used (g_devices g ! d)" and h: "h = enqueue_job now job fn ctx d i g"
  shows "ctrl_inv cb h \<and> jobs_owed cb (g_slots h) = jobs_owed cb (g_slots g) + {#(Some fn, ctx, next_id (g_next_job g))#} \<and>
    g_leases h = g_leases g"
proof -
  let ?S = "g_slots g" and ?D = "g_devices g"
  define s where "s = g_slots h ! i"
  have i': "i < length ?S" using i inv_lengths [OF inv] by simp
  have S: "g_slots h = ?S[i := s]" and s: "cs_state s = CTRL_SLOT_ENQUEUE_PENDING" "cs_device_index s = d"
      "ticket s = (Some fn, ctx, next_id (g_next_job g))"
    using h i' by (simp_all add: s_def enqueue_job_def Let_def ticket_def)
  have rest: "g_devices h = ?D" "g_leases h = g_leases g" "g_inflight h = g_inflight g" "g_rr_device h = g_rr_device g"
    using h by (simp_all add: enqueue_job_def Let_def)
  note ok = transport_okD [OF inv_parts(1) [OF inv]]
  have "transport_ok (?S[i := s]) ?D"
  proof (rule transport_okI)
    fix e assume e: "e < length ?D" "cd_transport_inflight (?D ! e)"
    with ok(2) [OF e] obtain k where k: "k < length ?S" "cd_inflight_slot (?D ! e) = int k" "cs_device_index (?S ! k) = e"
        "cs_state (?S ! k) = CTRL_SLOT_INFLIGHT \<or> cs_state (?S ! k) = CTRL_SLOT_COMPLETION_PENDING" by blast
    with i have "k \<noteq> i" by auto
    with k ok(1) [OF e] show "cd_used (?D ! e) \<and> (\<exists>k<length (?S[i := s]). cd_inflight_slot (?D ! e) = int k \<and>
        cs_device_index (?S[i := s] ! k) = e \<and> (cs_state (?S[i := s] ! k) = CTRL_SLOT_INFLIGHT \<or>
          cs_state (?S[i := s] ! k) = CTRL_SLOT_COMPLETION_PENDING))"
      by (intro conjI exI [of _ k]) auto
  next
    fix k assume k: "k < length (?S[i := s])" "cs_state (?S[i := s] ! k) \<noteq> CTRL_SLOT_FREE"
    with ok(4) [of k] s d inv_lengths [OF inv]
    show "cs_device_index (?S[i := s] ! k) < length ?D \<and> cd_used (?D ! cs_device_index (?S[i := s] ! k))"
      by (cases "k = i") auto
  next
    fix k assume k: "k < length (?S[i := s])" "cs_state (?S[i := s] ! k) = CTRL_SLOT_INFLIGHT"
    with s have "k \<noteq> i" by auto
    with k ok(5) [of k] show "cd_transport_inflight (?D ! cs_device_index (?S[i := s] ! k)) \<and>
        cd_inflight_slot (?D ! cs_device_index (?S[i := s] ! k)) = int k" by simp
  qed (use ok(3) in blast)
  moreover note cbo = callback_okD [OF inv_parts(3) [OF inv]]
  have cb: "cb \<noteq> Some i" using cbo(2) [of i] i by auto
  have "callback_ok cb (?S[i := s]) ?D"
  proof (rule callback_okI)
    fix k assume "k < length (?S[i := s])" "cs_state (?S[i := s] ! k) = CTRL_SLOT_COMPLETING"
    with s cbo(1) [of k] show "cb = Some k" by (cases "k = i") auto
  next
    fix k assume "cb = Some k"
    with cb cbo(2) [of k] show "k < length (?S[i := s]) \<and> (cs_state (?S[i := s] ! k) = CTRL_SLOT_COMPLETING \<or>
        cs_state (?S[i := s] ! k) = CTRL_SLOT_COMPLETION_PENDING)" by auto
  qed (use cbo(3) in blast)
  ultimately have "ctrl_inv cb h" using inv S rest by (simp add: ctrl_inv_def)
  with jobs_owed_enter [OF i' i(2) _ cb, of s] s S rest show ?thesis by simp
qed

lemma submit_inv:
  assumes "device_control_scheduler_submit now (Some job) (Some fn) ctx g = (h, err, out)" "ctrl_inv cb g"
  shows "ctrl_inv cb h \<and> g_leases h = g_leases g \<and>
    jobs_owed cb (g_slots h) = jobs_owed cb (g_slots g) + (if err = ESP_OK then {#(Some fn, ctx, the out)#} else {#})"
proof (cases "rq_device_id (j_request job) = [] \<or> j_priority job > DEVICE_CTRL_PRIORITY_BACKGROUND \<or>
    j_source job > DEVICE_CTRL_SOURCE_INTERNAL \<or>
    (j_dedupe job \<noteq> DEVICE_CTRL_DEDUPE_NONE \<and> j_priority job \<noteq> DEVICE_CTRL_PRIORITY_BACKGROUND) \<or> \<not> g_running g")
  case True
  with assms show ?thesis by (auto simp: device_control_scheduler_submit_def split: if_splits)
next
  case False
  obtain g1 dv where f: "ctrl_find_device_locked (rq_device_id (j_request job)) True g = (g1, dv)" by fastforce
  note inv1 = find_device_inv [OF f assms(2)] and fr = find_device_frame [OF f]
  show ?thesis
  proof (cases dv)
    case None
    then have "h = ctrl_count (\<lambda>t. t\<lparr>ct_queue_full := ct_queue_full t + 1\<rparr>) g1 \<and> err = ESP_ERR_NO_MEM"
      using assms(1) False f by (auto simp: device_control_scheduler_submit_def)
    with inv1 fr show ?thesis by simp
  next
    case (Some d)
    obtain g2 ex where l: "dedupe_loop job [0..<24] g1 = (g2, ex)" by fastforce
    have m: "moves g1 g2" by (rule moves_dedupe [OF l])
    have inv2: "ctrl_inv cb g2" using inv_moves [OF m] inv1 by blast
    have o2: "jobs_owed cb (g_slots g2) = jobs_owed cb (g_slots g)" "g_leases g2 = g_leases g" "g_devices g2 = g_devices g1"
      using jobs_owed_moves [OF m] fr m by (simp_all add: moves_def)
    show ?thesis
    proof (cases "ex \<noteq> None \<or> find_index (\<lambda>s. cs_state s = CTRL_SLOT_FREE) (g_slots g2) = None")
      case True
      then have "(h = g2 \<or> h = ctrl_count (\<lambda>t. t\<lparr>ct_queue_full := ct_queue_full t + 1\<rparr>) g2) \<and> err \<noteq> ESP_OK"
        using assms(1) False f Some l by (auto simp: device_control_scheduler_submit_def split: option.splits)
      with inv2 o2 show ?thesis by auto
    next
      case free: False
      then obtain i where i: "find_index (\<lambda>s. cs_state s = CTRL_SLOT_FREE) (g_slots g2) = Some i" by auto
      have h: "h = ctrl_stats_locked (ctrl_count (\<lambda>t. t\<lparr>ct_submitted := ct_submitted t + 1\<rparr>) (enqueue_job now job fn ctx d i g2))"
        "err = ESP_OK" "out = Some (next_id (g_next_job g2))"
        using assms(1) False f Some l free i by (auto simp: device_control_scheduler_submit_def)
      have "ctrl_inv cb (enqueue_job now job fn ctx d i g2) \<and>
          jobs_owed cb (g_slots (enqueue_job now job fn ctx d i g2)) = jobs_owed cb (g_slots g2) + {#(Some fn, ctx, next_id (g_next_job g2))#} \<and>
          g_leases (enqueue_job now job fn ctx d i g2) = g_leases g2"
        using find_index_SomeD [OF i] inv_lengths [OF inv2] inv1 Some o2
        by (intro enqueue_inv [OF inv2]) auto
      with h o2 show ?thesis by simp
    qed
  qed
qed

text \<open>
  Taking a completion out of its slot. \<open>transport_release\<close> is the heart: the slot leaves
  the completion-pending state and, if it held the transport of its device, gives it back.
\<close>

lemma transport_release:
  assumes "transport_ok S D" "i < length S" "cs_state (S ! i) = CTRL_SLOT_COMPLETION_PENDING"
    and s: "cs_state s = CTRL_SLOT_COMPLETING" "cs_device_index s = cs_device_index (S ! i)"
    and d: "d = cs_device_index (S ! i)"
    and D': "D' = (if cd_inflight_slot (D ! d) = int i
                   then D[d := (D ! d)\<lparr>cd_inflight_slot := - 1, cd_transport_inflight := False\<rparr>] else D)"
  shows "transport_ok (S[i := s]) D'"
proof -
  note ok = transport_okD [OF assms(1)]
  have dl: "d < length D" "cd_used (D ! d)" using ok(4) [of i] assms(2,3) d by auto
  have len: "length D' = length D" by (simp add: D')
  have same: "e \<noteq> d \<Longrightarrow> D' ! e = D ! e" for e by (simp add: D')
  have at: "cd_used (D' ! d)" using dl by (simp add: D')
  show ?thesis
  proof (rule transport_okI)
    fix e assume e: "e < length D'" "cd_transport_inflight (D' ! e)"
    then have De: "D' ! e = D ! e" "cd_transport_inflight (D ! e)" "e < length D"
      using dl by (auto simp: D' nth_list_update split: if_splits)
    with ok(2) [of e] obtain k where k: "k < length S" "cd_inflight_slot (D ! e) = int k" "cs_device_index (S ! k) = e"
        "cs_state (S ! k) = CTRL_SLOT_INFLIGHT \<or> cs_state (S ! k) = CTRL_SLOT_COMPLETION_PENDING" by blast
    have "k \<noteq> i"
    proof
      assume "k = i"
      with k d have "e = d" "cd_inflight_slot (D ! d) = int i" by auto
      then show False using e dl by (auto simp: D')
    qed
    with k De ok(1) [of e] show "cd_used (D' ! e) \<and> (\<exists>k<length (S[i := s]). cd_inflight_slot (D' ! e) = int k \<and>
        cs_device_index (S[i := s] ! k) = e \<and> (cs_state (S[i := s] ! k) = CTRL_SLOT_INFLIGHT \<or>
          cs_state (S[i := s] ! k) = CTRL_SLOT_COMPLETION_PENDING))"
      by (intro conjI exI [of _ k]) auto
  next
    fix e assume "e < length D'" "cd_used (D' ! e)" "\<not> cd_transport_inflight (D' ! e)"
    with ok(3) [of e] dl show "cd_inflight_slot (D' ! e) = - 1" by (auto simp: D' nth_list_update split: if_splits)
  next
    fix k assume "k < length (S[i := s])" "cs_state (S[i := s] ! k) \<noteq> CTRL_SLOT_FREE"
    with ok(4) [of k] s assms(3) d at same [of "cs_device_index (S ! k)"] len dl
    show "cs_device_index (S[i := s] ! k) < length D' \<and> cd_used (D' ! cs_device_index (S[i := s] ! k))"
      by (cases "k = i"; cases "cs_device_index (S ! k) = d") auto
  next
    fix k assume k: "k < length (S[i := s])" "cs_state (S[i := s] ! k) = CTRL_SLOT_INFLIGHT"
    have "k \<noteq> i" using k s by auto
    with k have ki: "k \<noteq> i" "k < length S" "cs_state (S ! k) = CTRL_SLOT_INFLIGHT" by simp_all
    with ok(5) [of k] have "D' ! cs_device_index (S ! k) = D ! cs_device_index (S ! k)"
      by (cases "cs_device_index (S ! k) = d") (auto simp: D')
    with ok(5) [of k] ki show "cd_transport_inflight (D' ! cs_device_index (S[i := s] ! k)) \<and>
        cd_inflight_slot (D' ! cs_device_index (S[i := s] ! k)) = int k" by simp
  qed
qed

lemma count_terminal_simps [simp]:
  "g_slots (count_terminal t g) = g_slots g" "g_devices (count_terminal t g) = g_devices g"
  "g_leases (count_terminal t g) = g_leases g" "g_inflight (count_terminal t g) = g_inflight g"
  "g_rr_device (count_terminal t g) = g_rr_device g" "g_high_burst (count_terminal t g) = g_high_burst g"
  by (cases t; simp add: count_terminal_def)+

lemma release_transport_simps [simp]:
  "g_slots (release_transport i d g) = g_slots g" "g_leases (release_transport i d g) = g_leases g"
  "g_rr_device (release_transport i d g) = g_rr_device g" "g_high_burst (release_transport i d g) = g_high_burst g"
  by (simp_all add: release_transport_def)

lemma jobs_owed_take:
  assumes "i < length S" "cs_state (S ! i) \<noteq> CTRL_SLOT_FREE" "cs_state s \<noteq> CTRL_SLOT_FREE" "ticket s = ticket (S ! i)"
  shows "jobs_owed None S = jobs_owed (Some i) (S[i := s]) + {#ticket (S ! i)#}"
proof -
  have b: "busy None S = insert i (busy (Some i) (S[i := s]))" "i \<notin> busy (Some i) (S[i := s])" "finite (busy (Some i) (S[i := s]))"
    using assms by (auto simp: busy_def nth_list_update)
  have "image_mset (\<lambda>k. ticket (S[i := s] ! k)) (mset_set (busy (Some i) (S[i := s]))) =
      image_mset (\<lambda>k. ticket (S ! k)) (mset_set (busy (Some i) (S[i := s])))"
    using b by (intro image_mset_cong arg_cong [of _ _ ticket] nth_list_update_neq) auto
  with b show ?thesis by (simp add: jobs_owed_def)
qed

lemma complete_take_inv:
  assumes take: "complete_take i g = (h, r)" and inv: "ctrl_inv None g" and i: "i < 24"
  shows "case r of None \<Rightarrow> h = g
    | Some call \<Rightarrow> ctrl_inv (Some i) h \<and> g_leases h = g_leases g \<and>
        jobs_owed None (g_slots g) = jobs_owed (Some i) (g_slots h) + {#call_ticket call#}"
proof (cases "cs_state (g_slots g ! i) = CTRL_SLOT_COMPLETION_PENDING")
  case False
  with take show ?thesis by (auto simp: complete_take_def Let_def)
next
  case True
  let ?S = "g_slots g" and ?D = "g_devices g"
  define d where "d = cs_device_index (?S ! i)"
  let ?s = "(?S ! i)\<lparr>cs_state := CTRL_SLOT_COMPLETING\<rparr>"
  define D' where "D' = (if cd_inflight_slot (?D ! d) = int i
                   then ?D[d := (?D ! d)\<lparr>cd_inflight_slot := - 1, cd_transport_inflight := False\<rparr>] else ?D)"
  have len: "i < length ?S" "length ?D = 16" using i inv_lengths [OF inv] by auto
  note ok = transport_okD [OF inv_parts(1) [OF inv]]
  have dl: "d < length ?D" "cd_used (?D ! d)" using ok(4) [of i] len True d_def by auto
  have h: "g_slots h = ?S[i := ?s]" "g_devices h = D'" "g_leases h = g_leases g" "g_rr_device h = g_rr_device g"
      "r = Some (cs_completion (?S ! i), cs_context (?S ! i), \<lparr>cr_scheduler_job_id = cs_id (?S ! i),
          cr_terminal = cs_terminal (?S ! i), cr_command_result = cs_pending_result (?S ! i)\<rparr>)"
      "g_inflight h = (if cd_inflight_slot (?D ! d) = int i \<and> g_inflight g \<noteq> 0 then g_inflight g - 1 else g_inflight g)"
    using take True by (auto simp: complete_take_def Let_def D'_def d_def release_transport_def)
  have tr: "transport_ok (?S[i := ?s]) D'"
    by (rule transport_release [OF inv_parts(1) [OF inv] len(1) True _ _ d_def D'_def]) simp_all
  have held: "cd_transport_inflight (?D ! d)" if "cd_inflight_slot (?D ! d) = int i"
    using ok(3) [OF dl] that by (cases "cd_transport_inflight (?D ! d)") auto
  have count: "unat (g_inflight h) = count_if cd_transport_inflight D' \<and> unat (g_inflight h) \<le> 4"
  proof (cases "cd_inflight_slot (?D ! d) = int i")
    case True
    with held count_if_update [OF dl(1), of cd_transport_inflight "(?D ! d)\<lparr>cd_inflight_slot := - 1, cd_transport_inflight := False\<rparr>"]
    have c: "count_if cd_transport_inflight D' + 1 = count_if cd_transport_inflight ?D" by (simp add: D'_def)
    have "g_inflight g \<noteq> 0" using c inv by (auto simp: ctrl_inv_def)
    then have "unat (g_inflight h) = unat (g_inflight g) - 1" using h True by (simp add: unat_minus_one)
    moreover have "unat (g_inflight g) = count_if cd_transport_inflight ?D" "unat (g_inflight g) \<le> 4"
      using inv by (simp_all add: ctrl_inv_def)
    ultimately show ?thesis using c by linarith
  next
    case False
    with inv h show ?thesis by (simp add: ctrl_inv_def D'_def)
  qed
  have lk: "leases_ok (g_leases g) D'"
    using inv_parts(2) [OF inv] dl by (auto simp: leases_ok_def D'_def nth_list_update)
  note cbo = callback_okD [OF inv_parts(3) [OF inv]]
  have "callback_ok (Some i) (?S[i := ?s]) D'"
  proof (rule callback_okI)
    fix k assume "k < length (?S[i := ?s])" "cs_state (?S[i := ?s] ! k) = CTRL_SLOT_COMPLETING"
    with cbo(1) [of k] show "Some i = Some k" by (cases "k = i") auto
  next
    fix k e assume k: "Some i = Some k" "e < length D'" "cd_transport_inflight (D' ! e)"
    have "cd_inflight_slot (D' ! e) \<noteq> int i"
    proof
      assume a: "cd_inflight_slot (D' ! e) = int i"
      with k dl have e: "e < length ?D" "cd_transport_inflight (?D ! e)" "cd_inflight_slot (?D ! e) = int i"
        by (auto simp: D'_def nth_list_update split: if_splits)
      with ok(2) [of e] d_def have "e = d" by auto
      with a k dl show False by (auto simp: D'_def split: if_splits)
    qed
    with k show "cd_inflight_slot (D' ! e) \<noteq> int k" by simp
  qed (use len in auto)
  then have "ctrl_inv (Some i) h" using h tr count lk inv by (simp add: ctrl_inv_def D'_def)
  with jobs_owed_take [OF len(1), of ?s] True h show ?thesis by (simp add: call_ticket_def ticket_def)
qed

lemma complete_clear_inv:
  assumes "ctrl_inv (Some i) g"
  shows "ctrl_inv None (complete_clear i g) \<and> jobs_owed None (g_slots (complete_clear i g)) = jobs_owed (Some i) (g_slots g) \<and>
    g_leases (complete_clear i g) = g_leases g"
proof -
  let ?S = "g_slots g" and ?D = "g_devices g" and ?s = "zero_ctrl_slot\<lparr>cs_generation := cs_generation (g_slots g ! i)\<rparr>"
  note ok = transport_okD [OF inv_parts(1) [OF assms]] and cbo = callback_okD [OF inv_parts(3) [OF assms]]
  have i: "i < length ?S" "cs_state (?S ! i) \<noteq> CTRL_SLOT_FREE" "cs_state (?S ! i) \<noteq> CTRL_SLOT_INFLIGHT"
    using cbo(2) [of i] by auto
  have s: "cs_state ?s = CTRL_SLOT_FREE" by (simp add: zero_ctrl_slot_def)
  have "transport_ok (?S[i := ?s]) ?D"
  proof (rule transport_okI)
    fix e assume e: "e < length ?D" "cd_transport_inflight (?D ! e)"
    with ok(2) [of e] obtain k where k: "k < length ?S" "cd_inflight_slot (?D ! e) = int k" "cs_device_index (?S ! k) = e"
        "cs_state (?S ! k) = CTRL_SLOT_INFLIGHT \<or> cs_state (?S ! k) = CTRL_SLOT_COMPLETION_PENDING" by blast
    with cbo(3) [of i e] e have "k \<noteq> i" by auto
    with k e ok(1) [of e] show "cd_used (?D ! e) \<and> (\<exists>k<length (?S[i := ?s]). cd_inflight_slot (?D ! e) = int k \<and>
        cs_device_index (?S[i := ?s] ! k) = e \<and> (cs_state (?S[i := ?s] ! k) = CTRL_SLOT_INFLIGHT \<or>
          cs_state (?S[i := ?s] ! k) = CTRL_SLOT_COMPLETION_PENDING))"
      by (intro conjI exI [of _ k]) auto
  next
    fix k assume "k < length (?S[i := ?s])" "cs_state (?S[i := ?s] ! k) \<noteq> CTRL_SLOT_FREE"
    with ok(4) [of k] s show "cs_device_index (?S[i := ?s] ! k) < length ?D \<and> cd_used (?D ! cs_device_index (?S[i := ?s] ! k))"
      by (cases "k = i") auto
  next
    fix k assume "k < length (?S[i := ?s])" "cs_state (?S[i := ?s] ! k) = CTRL_SLOT_INFLIGHT"
    with ok(5) [of k] s show "cd_transport_inflight (?D ! cs_device_index (?S[i := ?s] ! k)) \<and>
        cd_inflight_slot (?D ! cs_device_index (?S[i := ?s] ! k)) = int k"
      by (cases "k = i") auto
  qed (use ok(3) in blast)
  moreover have "callback_ok None (?S[i := ?s]) ?D"
  proof (rule callback_okI)
    fix k assume "k < length (?S[i := ?s])" "cs_state (?S[i := ?s] ! k) = CTRL_SLOT_COMPLETING"
    with cbo(1) [of k] s show "None = Some k" by (cases "k = i") auto
  qed auto
  ultimately have "ctrl_inv None (complete_clear i g)"
    using assms by (simp add: ctrl_inv_def complete_clear_def)
  moreover have b: "busy None (?S[i := ?s]) = busy (Some i) ?S"
    using s i(1,2) by (auto simp: busy_def nth_list_update)
  have "jobs_owed None (?S[i := ?s]) = jobs_owed (Some i) ?S"
    unfolding jobs_owed_def b by (intro image_mset_cong arg_cong [of _ _ ticket] nth_list_update_neq) (auto simp: busy_def)
  ultimately show ?thesis by (simp add: complete_clear_def)
qed

section \<open>The choice of the next job\<close>

text \<open>
  A job may be dispatched when it is queued and its device is known, not blocked, has no command in
  flight and is not leased to someone else, and when it is not a high-priority job held back for a
  waiting normal one.
\<close>

definition eligible :: "ctrl_state \<Rightarrow> nat \<Rightarrow> bool" where
  "eligible g i \<longleftrightarrow>
     (let s = g_slots g ! i; dev = g_devices g ! cs_device_index s in
      cs_state s = CTRL_SLOT_QUEUED \<and> cd_used dev \<and> \<not> cd_blocked dev \<and> \<not> cd_transport_inflight dev \<and>
      (cd_lease dev = 0 \<or> j_lease_id (cs_job s) = cd_lease dev) \<and>
      \<not> (8 \<le> unat (g_high_burst g) \<and> normal_available g \<and> j_priority (cs_job s) = DEVICE_CTRL_PRIORITY_HIGH))"

text \<open>The jobs that may be dispatched, by device from \<open>rr_device\<close> on and then by slot.\<close>

definition candidates :: "ctrl_state \<Rightarrow> nat list" where
  "candidates g =
     concat (map (\<lambda>offset. filter (\<lambda>i. eligible g i \<and> cs_device_index (g_slots g ! i) = (g_rr_device g + offset) mod 16) [0..<24])
       [0..<16])"

abbreviation prio :: "ctrl_state \<Rightarrow> nat \<Rightarrow> nat" where
  "prio g i \<equiv> j_priority (cs_job (g_slots g ! i))"

text \<open>The reference: the first candidate among those of the most urgent priority.\<close>

definition most_urgent :: "ctrl_state \<Rightarrow> nat option" where
  "most_urgent g = find (\<lambda>i. \<forall>j\<in>set (candidates g). prio g i \<le> prio g j) (candidates g)"

fun pick :: "ctrl_state \<Rightarrow> nat list \<Rightarrow> nat option \<times> nat \<Rightarrow> nat option \<times> nat" where
  "pick g [] acc = acc"
| "pick g (i # is) (best, p) = pick g is (if best = None \<or> prio g i < p then (Some i, prio g i) else (best, p))"

lemma pick_append: "pick g (xs @ ys) acc = pick g ys (pick g xs acc)"
  by (induction g xs acc rule: pick.induct) auto

lemma select_in_slots_pick: "select_in_slots g d is acc = pick g (filter (\<lambda>i. \<not> skip_slot g d i) is) acc"
  by (induction g d "is" acc rule: select_in_slots.induct) auto

lemma skip_eligible:
  "cd_used (g_devices g ! d) \<Longrightarrow> \<not> cd_blocked (g_devices g ! d) \<Longrightarrow> \<not> cd_transport_inflight (g_devices g ! d) \<Longrightarrow>
     (\<not> skip_slot g d i) = (eligible g i \<and> cs_device_index (g_slots g ! i) = d)"
  by (auto simp: skip_slot_def eligible_def Let_def)

lemma select_in_devices_pick:
  "select_in_devices g os acc =
     pick g (concat (map (\<lambda>offset. filter (\<lambda>i. eligible g i \<and> cs_device_index (g_slots g ! i) = (g_rr_device g + offset) mod 16) [0..<24]) os)) acc"
proof (induction g os acc rule: select_in_devices.induct)
  case (1 g acc)
  then show ?case by simp
next
  case (2 g offset os acc)
  let ?d = "(g_rr_device g + offset) mod 16"
  show ?case
  proof (cases "\<not> cd_used (g_devices g ! ?d) \<or> cd_blocked (g_devices g ! ?d) \<or> cd_transport_inflight (g_devices g ! ?d)")
    case True
    then have "filter (\<lambda>i. eligible g i \<and> cs_device_index (g_slots g ! i) = ?d) [0..<24] = []"
      by (auto simp: eligible_def Let_def filter_empty_conv)
    with True 2 show ?thesis by (simp add: Let_def)
  next
    case False
    then have "filter (\<lambda>i. \<not> skip_slot g ?d i) [0..<24] = filter (\<lambda>i. eligible g i \<and> cs_device_index (g_slots g ! i) = ?d) [0..<24]"
      by (simp add: skip_eligible)
    with False 2(2) [OF refl refl] show ?thesis by (simp add: Let_def select_in_slots_pick pick_append)
  qed
qed

definition first_least :: "(nat \<Rightarrow> nat) \<Rightarrow> nat list \<Rightarrow> nat option" where
  "first_least f xs = find (\<lambda>i. \<forall>j\<in>set xs. f i \<le> f j) xs"

lemma first_least_less: "f x < f b \<Longrightarrow> first_least f (b # x # xs) = first_least f (x # xs)"
proof -
  assume "f x < f b"
  then have "(\<lambda>i. \<forall>j\<in>set (b # x # xs). f i \<le> f j) = (\<lambda>i. \<forall>j\<in>set (x # xs). f i \<le> f j)"
    and "\<not> (\<forall>j\<in>set (x # xs). f b \<le> f j)" by fastforce+
  then show ?thesis unfolding first_least_def by (simp only: find.simps if_False)
qed

lemma first_least_keep: "\<not> f x < f b \<Longrightarrow> first_least f (b # x # xs) = first_least f (b # xs)"
proof -
  assume le: "\<not> f x < f b"
  then have eq: "(\<lambda>i. \<forall>j\<in>set (b # x # xs). f i \<le> f j) = (\<lambda>i. \<forall>j\<in>set (b # xs). f i \<le> f j)" by fastforce
  have "(\<forall>j\<in>set (b # xs). f x \<le> f j) \<Longrightarrow> (\<forall>j\<in>set (b # xs). f b \<le> f j)" using le by fastforce
  then show ?thesis unfolding first_least_def eq find.simps by auto
qed

lemma pick_best:
  "pick g xs (Some b, prio g b) = (first_least (prio g) (b # xs), prio g (the (first_least (prio g) (b # xs))))"
proof (induction xs arbitrary: b)
  case Nil
  then show ?case by (simp add: first_least_def)
next
  case (Cons x xs)
  then show ?case
    by (cases "prio g x < prio g b") (simp_all add: first_least_less first_least_keep)
qed

lemma select_is_most_urgent: "select_slot_locked g = most_urgent g"
proof (cases "candidates g")
  case Nil
  then show ?thesis
    by (simp add: select_slot_locked_def select_in_devices_pick most_urgent_def flip: candidates_def)
next
  case (Cons b xs)
  then show ?thesis
    by (simp add: select_slot_locked_def select_in_devices_pick pick_best most_urgent_def first_least_def flip: candidates_def)
qed

lemma least_exists: "xs \<noteq> [] \<Longrightarrow> \<exists>i\<in>set xs. \<forall>j\<in>set xs. (f i :: nat) \<le> f j"
  by (metis arg_min_if_finite(1) arg_min_least List.finite_set set_empty2)

lemma candidates_eligible:
  assumes "ctrl_inv cb g"
  shows "set (candidates g) = {i. i < 24 \<and> eligible g i}"
proof (intro set_eqI iffI)
  fix i assume "i \<in> set (candidates g)"
  then show "i \<in> {i. i < 24 \<and> eligible g i}" by (auto simp: candidates_def)
next
  fix i assume i: "i \<in> {i. i < 24 \<and> eligible g i}"
  let ?d = "cs_device_index (g_slots g ! i)"
  have d: "?d < 16"
    using i transport_okD(4) [OF inv_parts(1) [OF assms], of i] inv_lengths [OF assms] by (auto simp: eligible_def Let_def)
  have rr: "g_rr_device g < 16" using assms by (simp add: ctrl_inv_def)
  have "(g_rr_device g + (?d + 16 - g_rr_device g) mod 16) mod 16 = ?d"
    using d rr by (simp add: mod_simps)
  then have "\<exists>offset<16. (g_rr_device g + offset) mod 16 = ?d"
    by (intro exI [of _ "(?d + 16 - g_rr_device g) mod 16"]) simp
  with i show "i \<in> set (candidates g)" by (force simp: candidates_def)
qed

lemma select_eligible:
  assumes "ctrl_inv cb g" "select_slot_locked g = Some i"
  shows "i < 24" "eligible g i" "\<And>j. \<lbrakk>j < 24; eligible g j\<rbrakk> \<Longrightarrow> prio g i \<le> prio g j"
  using assms(2) candidates_eligible [OF assms(1)]
  by (auto simp: select_is_most_urgent most_urgent_def find_Some_iff in_set_conv_nth dest!: nth_mem)

lemma transport_dispatch:
  assumes "transport_ok S D" "i < length S" "cs_state (S ! i) = CTRL_SLOT_QUEUED"
    and d: "d = cs_device_index (S ! i)" "\<not> cd_transport_inflight (D ! d)"
    and s: "cs_state s = CTRL_SLOT_INFLIGHT" "cs_device_index s = d"
    and v: "cd_transport_inflight v" "cd_inflight_slot v = int i" "cd_used v"
  shows "transport_ok (S[i := s]) (D[d := v])"
proof -
  note ok = transport_okD [OF assms(1)]
  have dl: "d < length D" using ok(4) [of i] assms(2,3) d by auto
  show ?thesis
  proof (rule transport_okI)
    fix e assume e: "e < length (D[d := v])" "cd_transport_inflight (D[d := v] ! e)"
    show "cd_used (D[d := v] ! e) \<and> (\<exists>k<length (S[i := s]). cd_inflight_slot (D[d := v] ! e) = int k \<and>
        cs_device_index (S[i := s] ! k) = e \<and> (cs_state (S[i := s] ! k) = CTRL_SLOT_INFLIGHT \<or>
          cs_state (S[i := s] ! k) = CTRL_SLOT_COMPLETION_PENDING))"
    proof (cases "e = d")
      case True
      with dl v s assms(2) show ?thesis by (intro conjI exI [of _ i]) auto
    next
      case False
      with e ok(2) [of e] obtain k where k: "k < length S" "cd_inflight_slot (D ! e) = int k" "cs_device_index (S ! k) = e"
        "cs_state (S ! k) = CTRL_SLOT_INFLIGHT \<or> cs_state (S ! k) = CTRL_SLOT_COMPLETION_PENDING" by auto
      with False d have "k \<noteq> i" by auto
      with k e False ok(1) [of e] show ?thesis by (intro conjI exI [of _ k]) auto
    qed
  next
    fix e assume "e < length (D[d := v])" "cd_used (D[d := v] ! e)" "\<not> cd_transport_inflight (D[d := v] ! e)"
    with ok(3) [of e] v dl show "cd_inflight_slot (D[d := v] ! e) = - 1" by (cases "e = d") auto
  next
    fix k assume "k < length (S[i := s])" "cs_state (S[i := s] ! k) \<noteq> CTRL_SLOT_FREE"
    with ok(4) [of k] s v dl show "cs_device_index (S[i := s] ! k) < length (D[d := v]) \<and>
        cd_used (D[d := v] ! cs_device_index (S[i := s] ! k))"
      by (cases "k = i"; cases "cs_device_index (S ! k) = d") auto
  next
    fix k assume k: "k < length (S[i := s])" "cs_state (S[i := s] ! k) = CTRL_SLOT_INFLIGHT"
    show "cd_transport_inflight (D[d := v] ! cs_device_index (S[i := s] ! k)) \<and>
        cd_inflight_slot (D[d := v] ! cs_device_index (S[i := s] ! k)) = int k"
    proof (cases "k = i")
      case True
      with s v dl assms(2) show ?thesis by simp
    next
      case False
      with k ok(5) [of k] d show ?thesis by (cases "cs_device_index (S ! k) = d") auto
    qed
  qed
qed

lemma jobs_owed_relabel:
  assumes "i < length S" "cs_state (S ! i) \<noteq> CTRL_SLOT_FREE" "cs_state s \<noteq> CTRL_SLOT_FREE" "ticket s = ticket (S ! i)"
  shows "jobs_owed cb (S[i := s]) = jobs_owed cb S"
proof -
  have b: "busy cb (S[i := s]) = busy cb S" using assms by (auto simp: busy_def nth_list_update)
  have "ticket (S[i := s] ! k) = ticket (S ! k)" for k using assms by (cases "k = i") auto
  then show ?thesis unfolding jobs_owed_def b by simp
qed

lemma dispatch_take_inv:
  assumes take: "dispatch_take g = (h, r)" and inv: "ctrl_inv cb g"
  shows "ctrl_inv cb h \<and> jobs_owed cb (g_slots h) = jobs_owed cb (g_slots g) \<and> g_leases h = g_leases g"
proof (cases "unat (g_inflight g) \<ge> 4 \<or> select_slot_locked g = None")
  case True
  with take inv show ?thesis by (auto simp: dispatch_take_def split: if_splits)
next
  case False
  then obtain i where i: "select_slot_locked g = Some i" by auto
  let ?S = "g_slots g" and ?D = "g_devices g"
  define d where "d = cs_device_index (?S ! i)"
  let ?s = "(?S ! i)\<lparr>cs_state := CTRL_SLOT_INFLIGHT, cs_dcs_context := \<lparr>dx_slot = i, dx_generation = cs_generation (?S ! i)\<rparr>\<rparr>"
  let ?v = "(?D ! d)\<lparr>cd_transport_inflight := True, cd_inflight_slot := int i\<rparr>"
  note e = select_eligible [OF inv i]
  have q: "i < length ?S" "cs_state (?S ! i) = CTRL_SLOT_QUEUED" "cd_used (?D ! d)" "\<not> cd_transport_inflight (?D ! d)"
    using e inv_lengths [OF inv] by (auto simp: eligible_def Let_def d_def)
  have dl: "d < length ?D" using transport_okD(4) [OF inv_parts(1) [OF inv] q(1)] q(2) d_def by simp
  have h: "g_slots h = ?S[i := ?s]" "g_devices h = ?D[d := ?v]" "g_leases h = g_leases g" "g_inflight h = g_inflight g + 1"
      "g_rr_device h = (d + 1) mod 16"
    using take False i by (auto simp: dispatch_take_def Let_def d_def split: if_splits)
  have count: "unat (g_inflight h) = count_if cd_transport_inflight (g_devices h) \<and> unat (g_inflight h) \<le> 4"
  proof -
    have "count_if cd_transport_inflight (?D[d := ?v]) = count_if cd_transport_inflight ?D + 1"
      using count_if_update [OF dl, of cd_transport_inflight ?v] q(4) by simp
    moreover have "unat (g_inflight g + 1) = unat (g_inflight g) + 1"
      using False by (simp add: unat_word_ariths)
    ultimately show ?thesis using inv False h by (simp add: ctrl_inv_def)
  qed
  have tr: "transport_ok (?S[i := ?s]) (?D[d := ?v])"
    using q by (intro transport_dispatch [OF inv_parts(1) [OF inv]]) (simp_all add: d_def)
  have lk: "leases_ok (g_leases g) (?D[d := ?v])"
    using inv_parts(2) [OF inv] dl by (auto simp: leases_ok_def nth_list_update)
  note cbo = callback_okD [OF inv_parts(3) [OF inv]]
  have cbi: "cb \<noteq> Some i" using cbo(2) [of i] q by auto
  have "callback_ok cb (?S[i := ?s]) (?D[d := ?v])"
  proof (rule callback_okI)
    fix k assume "k < length (?S[i := ?s])" "cs_state (?S[i := ?s] ! k) = CTRL_SLOT_COMPLETING"
    with cbo(1) [of k] show "cb = Some k" by (cases "k = i") auto
  next
    fix k assume "cb = Some k"
    with cbo(2) [of k] cbi show "k < length (?S[i := ?s]) \<and> (cs_state (?S[i := ?s] ! k) = CTRL_SLOT_COMPLETING \<or>
        cs_state (?S[i := ?s] ! k) = CTRL_SLOT_COMPLETION_PENDING)" by auto
  next
    fix k f assume "cb = Some k" "f < length (?D[d := ?v])" "cd_transport_inflight (?D[d := ?v] ! f)"
    with cbo(3) [of k f] cbi dl show "cd_inflight_slot (?D[d := ?v] ! f) \<noteq> int k" by (cases "f = d") auto
  qed
  then have "ctrl_inv cb h" using h tr lk count inv by (simp add: ctrl_inv_def)
  with jobs_owed_relabel [OF q(1), of ?s cb] q h show ?thesis by (simp add: ticket_def)
qed

section \<open>Every step keeps the ledger\<close>

lemma block_inv:
  assumes "device_control_scheduler_block_device dev g = (h, err)" "ctrl_inv cb g"
  shows "ctrl_inv cb h \<and> g_slots h = g_slots g \<and> g_leases h = g_leases g"
proof (cases "dev = None \<or> dev = Some []")
  case True
  with assms show ?thesis by (auto simp: device_control_scheduler_block_device_def)
next
  case False
  obtain g1 r where f: "ctrl_find_device_locked (the dev) True g = (g1, r)" by fastforce
  have "ctrl_inv cb (device_map d (\<lambda>v. v\<lparr>cd_blocked := True\<rparr>) g1)" for d
    using find_device_inv [OF f assms(2)] by (intro inv_device_map) (simp_all add: dev_step_def)
  with False f assms find_device_inv [OF f assms(2)] find_device_frame [OF f] show ?thesis
    by (auto simp: device_control_scheduler_block_device_def split: option.splits)
qed

lemma unblock_inv:
  assumes "device_control_scheduler_unblock_device dev g = (h, err)" "ctrl_inv cb g"
  shows "ctrl_inv cb h \<and> g_slots h = g_slots g \<and> g_leases h = g_leases g"
proof (cases dev)
  case None
  with assms show ?thesis by (auto simp: device_control_scheduler_unblock_device_def)
next
  case (Some a)
  obtain g1 r where f: "ctrl_find_device_locked a False g = (g1, r)" by fastforce
  have "ctrl_inv cb (device_map d (\<lambda>v. v\<lparr>cd_blocked := False\<rparr>) g1)" for d
    using find_device_inv [OF f assms(2)] by (intro inv_device_map) (simp_all add: dev_step_def)
  with Some f assms find_device_inv [OF f assms(2)] find_device_frame [OF f] show ?thesis
    by (auto simp: device_control_scheduler_unblock_device_def split: option.splits)
qed

lemma ledger_moves:
  "\<lbrakk>ctrl_ledger c; moves (k_ctrl c) h; cb_of pc = cb_of (k_pc c)\<rbrakk> \<Longrightarrow> ctrl_ledger (c\<lparr>k_ctrl := h, k_pc := pc\<rparr>)"
  using inv_moves [of "k_ctrl c" h] jobs_owed_moves [of "k_ctrl c" h]
  by (auto simp: ctrl_ledger_def moves_def)

lemma ctrl_ledger_pc: "\<lbrakk>ctrl_ledger c; cb_of pc = cb_of (k_pc c)\<rbrakk> \<Longrightarrow> ctrl_ledger (c\<lparr>k_pc := pc\<rparr>)"
  by (simp add: ctrl_ledger_def)

lemma ctrl_ledger_same:
  "\<lbrakk>ctrl_ledger c; ctrl_inv (cb_of (k_pc c)) h; jobs_owed (cb_of (k_pc c)) (g_slots h) = jobs_owed (cb_of (k_pc c)) (g_slots (k_ctrl c));
    lease_owed (g_leases h) = lease_owed (g_leases (k_ctrl c)); cb_of pc = cb_of (k_pc c)\<rbrakk> \<Longrightarrow>
     ctrl_ledger (c\<lparr>k_ctrl := h, k_pc := pc\<rparr>)"
  by (simp add: ctrl_ledger_def)

lemma ledger_moves_call:
  "\<lbrakk>ctrl_ledger c; moves (k_ctrl c) h\<rbrakk> \<Longrightarrow> ctrl_ledger (c\<lparr>k_ctrl := h\<rparr>)"
  using inv_moves [of "k_ctrl c" h] jobs_owed_moves [of "k_ctrl c" h]
  by (auto simp: ctrl_ledger_def moves_def)

lemma ctrl_step_ledger: "ctrl_step c c' \<Longrightarrow> ctrl_ledger c \<Longrightarrow> ctrl_ledger c'"
proof (induction rule: ctrl_step.induct)
  case (top c)
  then show ?case by (simp add: ctrl_ledger_def cb_of_def)
next
  case (age c now)
  then show ?case by (intro ledger_moves moves_age) (simp_all add: cb_of_def)
next
  case (lease c i now g' calls)
  with process_lease_inv [OF lease(3), of None] show ?case by (auto simp: ctrl_ledger_def cb_of_def ac_simps)
next
  case (leases_done c)
  then show ?case by (intro ctrl_ledger_pc) (simp_all add: cb_of_def)
next
  case (take_none c i g')
  with complete_take_inv [OF take_none(3)] show ?case by (simp add: ctrl_ledger_def cb_of_def)
next
  case (take_call c i g' call)
  with complete_take_inv [OF take_call(3)] show ?case by (auto simp: ctrl_ledger_def cb_of_def ac_simps)
next
  case (clear c i)
  with complete_clear_inv [of i "k_ctrl c"] show ?case by (simp add: ctrl_ledger_def cb_of_def)
next
  case (completes_done c)
  then show ?case by (intro ctrl_ledger_pc) (simp_all add: cb_of_def)
next
  case (dispatch_none c n g')
  with dispatch_take_inv [OF dispatch_none(3)] show ?case by (intro ctrl_ledger_same) (auto simp: cb_of_def ctrl_ledger_def)
next
  case (dispatch c n g' i rq)
  with dispatch_take_inv [OF dispatch(3)] show ?case by (intro ctrl_ledger_same) (auto simp: cb_of_def ctrl_ledger_def)
next
  case (submitted c n i err)
  then show ?case by (intro ledger_moves moves_dispatch_result) (simp_all add: cb_of_def)
next
  case (pass_done c)
  then show ?case by (auto simp: ctrl_ledger_def cb_of_def ctrl_inv_def)
next
  case (submit now job fn ctx c g' err out)
  with submit_inv [OF submit(1)] show ?case by (auto simp: ctrl_ledger_def ac_simps)
next
  case (cancel dev src owner all_sources job_id c g' err inflight)
  with cancel_match_inv [OF cancel(1)] show ?case by (auto simp: ctrl_ledger_def)
next
  case (block dev c g' err)
  with block_inv [OF block(1)] show ?case by (auto simp: ctrl_ledger_def)
next
  case (unblock dev c g' err)
  with unblock_inv [OF unblock(1)] show ?case by (auto simp: ctrl_ledger_def)
next
  case (acquire r fn ctx c g' err)
  with acquire_inv [OF acquire(1)] show ?case by (auto simp: ctrl_ledger_def ac_simps)
next
  case (release now lease_id c g' err)
  with release_inv [OF release(1)] show ?case by (auto simp: ctrl_ledger_def)
next
  case (dcs_complete p c result)
  then show ?case by (intro ledger_moves_call moves_dcs_complete)
next
  case (mark c)
  then show ?case by (intro ledger_moves_call moves_mark)
next
  case (stop c)
  then show ?case by (intro ledger_moves_call moves_stop)
qed

lemma ctrl_init_inv:
  assumes "device_control_scheduler_init True g = (h, ESP_OK)"
  shows "ctrl_inv None h \<and> jobs_owed None (g_slots h) = {#} \<and> lease_owed (g_leases h) = {#}"
proof -
  have h: "g_slots h = replicate 24 zero_ctrl_slot" "g_devices h = replicate 16 zero_device" "g_leases h = replicate 16 zero_lease"
      "g_inflight h = 0" "g_rr_device h = 0"
    using assms by (auto simp: device_control_scheduler_init_def Let_def split: if_splits)
  have z: "cs_state zero_ctrl_slot = CTRL_SLOT_FREE" "\<not> cd_used zero_device" "\<not> cd_transport_inflight zero_device"
      "cd_lease zero_device = 0" "cl_state zero_lease = CTRL_LEASE_FREE"
    by (simp_all add: zero_ctrl_slot_def zero_device_def zero_lease_def)
  have b: "busy None (replicate 24 zero_ctrl_slot) = {}" using z by (auto simp: busy_def)
  show ?thesis
    unfolding ctrl_inv_def h jobs_owed_def b
    using z by (simp add: transport_ok_def leases_ok_def callback_ok_def lease_owed_def awaits_def count_if_def)
qed

lemma ctrl_start_ledger: "ctrl_start c \<Longrightarrow> ctrl_ledger c"
  by (auto simp: ctrl_start_def ctrl_ledger_def cb_of_def dest: ctrl_init_inv)

interpretation ctrl: step_system ctrl_start ctrl_step ctrl_ledger
  by unfold_locales (auto intro: ctrl_start_ledger ctrl_step_ledger)

end
