(* ===== verification/Scheduler_Props.thy ===== *)
theory Scheduler_Props
  imports Scheduler_Run
begin

text \<open>
  What the control scheduler promises, over the interleavings of \<open>Scheduler_Run\<close> and over
  uninterrupted passes of the worker, and two ways in which it stops serving work.
\<close>

section \<open>Safety in every interleaving\<close>

text \<open>
  C25. Every accepted job and every accepted lease request is answered exactly once. However the public
  functions, the completions of the command service and the critical sections of the worker
  interleave, the tickets accepted are, as a multiset, those whose completion was called together with
  those still held by a slot; the same holds for lease requests. So no completion is called twice or
  for a job that was refused, and a job that no slot holds any more has been answered.
\<close>

theorem scheduler_answers_once:
  assumes "ctrl_start c0" "ctrl_step\<^sup>*\<^sup>* c0 c"
  shows "k_accepted c = k_called c + jobs_owed (cb_of (k_pc c)) (g_slots (k_ctrl c)) \<and>
    k_lease_accepted c = k_lease_called c + lease_owed (g_leases (k_ctrl c))"
  using ctrl.inv_reachable [OF assms] by (simp add: ctrl_ledger_def)

definition ctrl_demo_off :: ctrl_state where
  "ctrl_demo_off = \<lparr>g_task = False, g_running = False, g_stopped = False, g_slots = [], g_devices = [], g_leases = [],
     g_next_job = 0, g_next_lease = 0, g_inflight = 0, g_rr_device = 0, g_high_burst = 0, g_stats = zero_ctrl_stats\<rparr>"

definition ctrl_demo_on :: ctrl_state where
  "ctrl_demo_on = fst (device_control_scheduler_init True ctrl_demo_off)"

definition ctrl_demo_config :: ctrl_config where
  "ctrl_demo_config = \<lparr>k_ctrl = ctrl_demo_on, k_pc = PC_TOP, k_last = False, k_accepted = {#}, k_called = {#},
     k_lease_accepted = {#}, k_lease_called = {#}\<rparr>"

definition ctrl_demo_job :: device_control_job where
  "ctrl_demo_job = zero_job\<lparr>j_request := zero_request\<lparr>rq_device_id := ''lamp''\<rparr>, j_priority := DEVICE_CTRL_PRIORITY_NORMAL,
     j_max_queue_wait_ms := 20\<rparr>"

definition ctrl_demo_queued :: ctrl_state where
  "ctrl_demo_queued = fst (device_control_scheduler_submit 0 (Some ctrl_demo_job) (Some 7) 5 ctrl_demo_on)"

lemma ctrl_demo_start: "ctrl_start ctrl_demo_config"
  by (auto simp: ctrl_start_def ctrl_demo_config_def ctrl_demo_on_def device_control_scheduler_init_def Let_def
      ctrl_demo_off_def intro!: exI [of _ ctrl_demo_off])

lemma ctrl_demo_submit:
  "device_control_scheduler_submit 0 (Some ctrl_demo_job) (Some 7) 5 ctrl_demo_on = (ctrl_demo_queued, ESP_OK, Some 1)"
proof (rule prod_eqI)
  show "snd (device_control_scheduler_submit 0 (Some ctrl_demo_job) (Some 7) 5 ctrl_demo_on) = snd (ctrl_demo_queued, ESP_OK, Some 1)"
    by code_simp
qed (simp add: ctrl_demo_queued_def)

definition ctrl_demo_accepted :: ctrl_config where
  "ctrl_demo_accepted = ctrl_demo_config\<lparr>k_ctrl := ctrl_demo_queued, k_accepted := {#(Some 7, 5, 1)#}\<rparr>"

lemma ctrl_demo_steps: "ctrl_step\<^sup>*\<^sup>* ctrl_demo_config ctrl_demo_accepted"
proof -
  have "ctrl_step ctrl_demo_config (ctrl_demo_config\<lparr>k_ctrl := ctrl_demo_queued,
      k_accepted := k_accepted ctrl_demo_config + (if ESP_OK = ESP_OK then {#(Some 7, 5, the (Some 1))#} else {#})\<rparr>)"
    by (rule ctrl_step.submit [of 0 ctrl_demo_job]) (simp add: ctrl_demo_config_def ctrl_demo_submit)
  then show ?thesis by (intro r_into_rtranclp) (simp add: ctrl_demo_accepted_def ctrl_demo_config_def)
qed

theorem scheduler_answers_once_witness:
  "{#(Some 7, 5, 1)#} = {#} + jobs_owed None (g_slots ctrl_demo_queued)"
  using scheduler_answers_once [OF ctrl_demo_start ctrl_demo_steps]
  by (simp add: ctrl_demo_accepted_def ctrl_demo_config_def cb_of_def)

text \<open>
  C26. The scheduler keeps its limits in every interleaving: at most four jobs are in flight, two jobs
  in flight are never for the same device, the counter \<open>inflight\<close> is never above four, and a device is
  leased to at most one holder at a time.
\<close>

theorem scheduler_limits_hold:
  assumes "ctrl_start c0" "ctrl_step\<^sup>*\<^sup>* c0 c"
  shows "let g = k_ctrl c; flying = {i. i < DEVICE_CTRL_MAX_JOBS \<and> cs_state (g_slots g ! i) = CTRL_SLOT_INFLIGHT};
             held = {i. i < DEVICE_CTRL_MAX_DEVICES \<and> cl_state (g_leases g ! i) = CTRL_LEASE_ACTIVE} in
     card flying \<le> DEVICE_CTRL_MAX_INFLIGHT \<and> unat (g_inflight g) \<le> DEVICE_CTRL_MAX_INFLIGHT \<and>
     inj_on (\<lambda>i. cs_device_index (g_slots g ! i)) flying \<and> inj_on (\<lambda>i. cl_device_index (g_leases g ! i)) held"
proof -
  let ?g = "k_ctrl c" and ?cb = "cb_of (k_pc c)"
  let ?S = "g_slots ?g" and ?D = "g_devices ?g"
  let ?flying = "{i. i < 24 \<and> cs_state (?S ! i) = CTRL_SLOT_INFLIGHT}"
  let ?dev = "\<lambda>i. cs_device_index (?S ! i)"
  have inv: "ctrl_inv ?cb ?g" using ctrl.inv_reachable [OF assms] by (simp add: ctrl_ledger_def)
  note ok = transport_okD [OF inv_parts(1) [OF inv]] and len = inv_lengths [OF inv]
  have inj: "inj_on ?dev ?flying"
  proof (rule inj_onI)
    fix i j assume ij: "i \<in> ?flying" "j \<in> ?flying" and eq: "?dev i = ?dev j"
    have "cd_inflight_slot (?D ! ?dev k) = int k" if "k \<in> ?flying" for k
    proof -
      have "k < length ?S" "cs_state (?S ! k) = CTRL_SLOT_INFLIGHT" using that len by simp_all
      from ok(5) [OF this] show ?thesis by simp
    qed
    from this [OF ij(1)] this [OF ij(2)] show "i = j" unfolding eq by linarith
  qed
  have "?dev i \<in> {d. d < length ?D \<and> cd_transport_inflight (?D ! d)}" if "i \<in> ?flying" for i
    using ok(4) [of i] ok(5) [of i] len that by simp
  then have "?dev ` ?flying \<subseteq> {d. d < length ?D \<and> cd_transport_inflight (?D ! d)}" by blast
  then have "card (?dev ` ?flying) \<le> card {d. d < length ?D \<and> cd_transport_inflight (?D ! d)}"
    by (intro card_mono) auto
  also have "\<dots> = unat (g_inflight ?g)"
    using inv by (simp add: ctrl_inv_def count_if_def length_filter_conv_card)
  finally have "card ?flying \<le> unat (g_inflight ?g)" using card_image [OF inj] by simp
  moreover have "unat (g_inflight ?g) \<le> 4" using inv by (simp add: ctrl_inv_def)
  moreover have "inj_on (\<lambda>i. cl_device_index (g_leases ?g ! i)) {i. i < 16 \<and> cl_state (g_leases ?g ! i) = CTRL_LEASE_ACTIVE}"
    using leases_okD(3) [OF inv_parts(2) [OF inv]] len by (intro inj_onI) simp
  ultimately show ?thesis using inj by (simp add: Let_def)
qed

theorem scheduler_limits_hold_witness:
  "card {i. i < 24 \<and> cs_state (g_slots ctrl_demo_queued ! i) = CTRL_SLOT_INFLIGHT} \<le> 4 \<and> unat (g_inflight ctrl_demo_queued) \<le> 4"
  using scheduler_limits_hold [OF ctrl_demo_start ctrl_demo_steps]
  by (simp add: ctrl_demo_accepted_def Let_def)


definition ctrl_demo_aged :: ctrl_config where
  "ctrl_demo_aged = ctrl_demo_accepted\<lparr>k_ctrl := age_slots 10 ctrl_demo_queued, k_pc := PC_LEASE 0\<rparr>"

lemma ctrl_demo_age: "ctrl_step\<^sup>*\<^sup>* ctrl_demo_config ctrl_demo_aged"
proof -
  let ?t = "ctrl_demo_accepted\<lparr>k_pc := PC_AGE, k_last := False\<rparr>"
  have "g_running ctrl_demo_queued" by code_simp
  then have "ctrl_step ctrl_demo_accepted ?t"
    using ctrl_step.top [of ctrl_demo_accepted] by (simp add: ctrl_demo_accepted_def ctrl_demo_config_def)
  moreover have "ctrl_step ?t ctrl_demo_aged"
    using ctrl_step.age [of ?t 10] by (simp add: ctrl_demo_accepted_def ctrl_demo_aged_def ctrl_demo_config_def)
  ultimately show ?thesis using ctrl_demo_steps by (meson rtranclp.rtrancl_into_rtrancl)
qed

lemma ctrl_demo_eligible: "eligible (age_slots 10 ctrl_demo_queued) 0"
  by code_simp


section \<open>What one pass does\<close>

lemma process_leases_inv:
  "\<lbrakk>ctrl_process_leases clock is g = (h, calls); ctrl_inv cb g; \<forall>i\<in>set is. i < 16\<rbrakk> \<Longrightarrow> ctrl_inv cb h \<and> g_slots h = g_slots g"
proof (induction clock "is" g arbitrary: h calls rule: ctrl_process_leases.induct)
  case (1 clock g)
  then show ?case by simp
next
  case (2 clock i "is" g)
  obtain g1 c1 where p: "process_lease (clock i) i g = (g1, c1)" by fastforce
  obtain h1 c2 where q: "ctrl_process_leases clock is g1 = (h1, c2)" by fastforce
  have "ctrl_inv cb g1 \<and> g_slots g1 = g_slots g" using process_lease_inv [OF p 2(3)] 2(4) by simp
  with 2(1) [OF p [symmetric] q] 2(2,4) p q show ?case by auto
qed

lemma complete_slot_inv:
  assumes "ctrl_complete_slot i g = (h, calls)" "ctrl_inv None g" "i < 24"
  shows "ctrl_inv None h"
proof -
  obtain g1 r where t: "complete_take i g = (g1, r)" by fastforce
  with complete_take_inv [OF t assms(2,3)] complete_clear_inv [of i g1] assms show ?thesis
    by (auto simp: ctrl_complete_slot_def split: option.splits)
qed

lemma complete_slot_frame:
  "ctrl_complete_slot i g = (h, calls) \<Longrightarrow> j \<noteq> i \<Longrightarrow> g_slots h ! j = g_slots g ! j"
  by (auto simp: ctrl_complete_slot_def complete_take_def complete_clear_def Let_def split: if_splits)

definition pending_call :: "ctrl_slot \<Rightarrow> job_call" where
  "pending_call s = (cs_completion s, cs_context s,
     \<lparr>cr_scheduler_job_id = cs_id s, cr_terminal = cs_terminal s, cr_command_result = cs_pending_result s\<rparr>)"

lemma complete_slot_calls:
  "ctrl_complete_slot i g = (h, calls) \<Longrightarrow> cs_state (g_slots g ! i) = CTRL_SLOT_COMPLETION_PENDING \<Longrightarrow>
     calls = [pending_call (g_slots g ! i)]"
  by (auto simp: ctrl_complete_slot_def complete_take_def pending_call_def Let_def)

lemma complete_slots_serve:
  "\<lbrakk>complete_slots is g = (h, calls); ctrl_inv None g; \<forall>i\<in>set is. i < 24\<rbrakk> \<Longrightarrow>
     ctrl_inv None h \<and>
     (\<forall>i\<in>set is. cs_state (g_slots g ! i) = CTRL_SLOT_COMPLETION_PENDING \<longrightarrow> pending_call (g_slots g ! i) \<in> set calls)"
proof (induction "is" g arbitrary: h calls rule: complete_slots.induct)
  case (1 g)
  then show ?case by simp
next
  case (2 i "is" g)
  obtain g1 c1 where p: "ctrl_complete_slot i g = (g1, c1)" by fastforce
  obtain h1 c2 where q: "complete_slots is g1 = (h1, c2)" by fastforce
  have inv: "ctrl_inv None g1" using complete_slot_inv [OF p 2(3)] 2(4) by simp
  note IH = 2(1) [OF p [symmetric] q inv]
  have r: "h = h1" "calls = c1 @ c2" using 2(2) p q by auto
  have "pending_call (g_slots g ! j) \<in> set calls"
    if "j \<in> set (i # is)" "cs_state (g_slots g ! j) = CTRL_SLOT_COMPLETION_PENDING" for j
  proof (cases "j = i")
    case True
    with complete_slot_calls [OF p] that r show ?thesis by simp
  next
    case False
    with IH that complete_slot_frame [OF p False] r 2(4) show ?thesis by auto
  qed
  with IH r 2(4) show ?case by auto
qed

lemma dispatch_idle:
  "4 \<le> unat (g_inflight g) \<or> select_slot_locked g = None \<Longrightarrow> dispatch_slots n dcs g = (g, [])"
  by (induction n) (auto simp: dispatch_one_def dispatch_take_def)

lemma dispatch_slots_serve:
  "\<lbrakk>dispatch_slots n dcs g = (h, sent); ctrl_inv None g\<rbrakk> \<Longrightarrow>
     ctrl_inv None h \<and>
     (4 \<le> unat (g_inflight h) \<or> select_slot_locked h = None \<or> unat (g_inflight g) + n \<le> unat (g_inflight h))"
proof (induction n arbitrary: g sent)
  case 0
  then show ?case by simp
next
  case (Suc n)
  show ?case
  proof (cases "4 \<le> unat (g_inflight g) \<or> select_slot_locked g = None")
    case True
    from dispatch_idle [OF this, of "Suc n" dcs] Suc.prems(1) have "h = g" by auto
    with True Suc.prems(2) show ?thesis by auto
  next
    case False
    obtain g1 i rq where t: "dispatch_take g = (g1, Some (i, rq))"
      using False by (auto simp: dispatch_take_def Let_def split: option.splits)
    let ?g2 = "dispatch_result i (dcs n rq) g1"
    have m: "moves g1 ?g2" by (rule moves_dispatch_result)
    have inv: "ctrl_inv None ?g2" using inv_moves [OF m] dispatch_take_inv [OF t Suc.prems(2)] by blast
    have "g_inflight g1 = g_inflight g + 1"
      using t False by (auto simp: dispatch_take_def Let_def split: option.splits)
    moreover have "g_inflight ?g2 = g_inflight g1" using m by (simp add: moves_def)
    ultimately have one: "unat (g_inflight ?g2) = unat (g_inflight g) + 1" using False by (simp add: unat_word_ariths)
    obtain sent' where "dispatch_slots n dcs ?g2 = (h, sent')"
      using Suc.prems(1) t by (auto simp: dispatch_one_def split: prod.splits)
    from Suc.IH [OF this inv] one show ?thesis by auto
  qed
qed


definition ctrl_demo_env :: process_env where
  "ctrl_demo_env = \<lparr>pe_now = 30000, pe_lease_clock = (\<lambda>_. 30000), pe_dcs_submit = (\<lambda>_ _. ESP_OK)\<rparr>"

lemma ctrl_demo_waiting:
  "cs_state (g_slots ctrl_demo_queued ! 0) = CTRL_SLOT_ENQUEUE_PENDING" "cs_deadline_us (g_slots ctrl_demo_queued ! 0) = 20000"
  by code_simp+


section \<open>Two ways to stop serving\<close>

text \<open>
  A state in which the high-priority job of slot \<open>b\<close> starves: eight high-priority jobs went out since
  the last normal one, and the normal job of slot \<open>a\<close> waits for a blocked device. The device of \<open>b\<close>
  is idle, and every other job has high priority or a blocked device too.
\<close>

definition starving :: "nat \<Rightarrow> nat \<Rightarrow> ctrl_state \<Rightarrow> bool" where
  "starving a b g \<longleftrightarrow>
     8 \<le> unat (g_high_burst g) \<and> length (g_slots g) = 24 \<and> length (g_leases g) = 16 \<and> a < 24 \<and> b < 24 \<and>
     cs_state (g_slots g ! a) = CTRL_SLOT_QUEUED \<and> prio g a = DEVICE_CTRL_PRIORITY_NORMAL \<and>
     cs_state (g_slots g ! b) = CTRL_SLOT_QUEUED \<and> prio g b = DEVICE_CTRL_PRIORITY_HIGH \<and>
     (let dev = g_devices g ! cs_device_index (g_slots g ! b) in
      cd_used dev \<and> \<not> cd_blocked dev \<and> \<not> cd_transport_inflight dev \<and> cd_lease dev = 0) \<and>
     (\<forall>s\<in>set (g_slots g). cs_state s = CTRL_SLOT_FREE \<or>
        cs_state s = CTRL_SLOT_QUEUED \<and> cs_deadline_us s = 0 \<and>
        (j_priority (cs_job s) = DEVICE_CTRL_PRIORITY_HIGH \<or> cd_blocked (g_devices g ! cs_device_index s))) \<and>
     (\<forall>l\<in>set (g_leases g). cl_state l = CTRL_LEASE_FREE \<or> cl_state l = CTRL_LEASE_ACTIVE)"

lemma starving_leases:
  "\<lbrakk>\<forall>l\<in>set (g_leases g). cl_state l = CTRL_LEASE_FREE \<or> cl_state l = CTRL_LEASE_ACTIVE; \<forall>i\<in>set is. i < length (g_leases g)\<rbrakk> \<Longrightarrow>
     ctrl_process_leases clock is g = (g, [])"
proof (induction "is")
  case (Cons i "is")
  then have "g_leases g ! i \<in> set (g_leases g)" by simp
  with Cons.prems(1) have "cl_state (g_leases g ! i) = CTRL_LEASE_FREE \<or> cl_state (g_leases g ! i) = CTRL_LEASE_ACTIVE" by blast
  then have "process_lease (clock i) i g = (g, [])" by (auto simp: process_lease_def Let_def)
  with Cons show ?case by simp
qed simp

lemma starving_completes:
  "\<forall>i\<in>set is. cs_state (g_slots g ! i) \<noteq> CTRL_SLOT_COMPLETION_PENDING \<Longrightarrow> complete_slots is g = (g, [])"
  by (induction "is") (simp_all add: ctrl_complete_slot_def complete_take_def Let_def)

text \<open>
  The guard against bursts of high-priority work can stop that work for good. When eight
  high-priority jobs have been dispatched since the last normal one and a normal job waits for a
  blocked device, a pass changes nothing and sends nothing, although a high-priority job waits for a
  device that is idle; so it starves for as long as the other device stays blocked.
\<close>

theorem blocked_normal_job_starves_high:
  assumes "starving a b g"
  shows "ctrl_process env g = (g, [], [], [])"
proof -
  note st = assms [unfolded starving_def]
  have slot: "cs_state s = CTRL_SLOT_FREE \<or> cs_state s = CTRL_SLOT_QUEUED \<and> cs_deadline_us s = 0 \<and>
      (j_priority (cs_job s) = DEVICE_CTRL_PRIORITY_HIGH \<or> cd_blocked (g_devices g ! cs_device_index s))"
    if "s \<in> set (g_slots g)" for s using st that by blast
  have "age_slot (pe_now env) s = s" if "s \<in> set (g_slots g)" for s
    using slot [OF that] by (auto simp: age_slot_def)
  then have "map (age_slot (pe_now env)) (g_slots g) = g_slots g" by (rule map_idI)
  then have age: "age_slots (pe_now env) g = g" by (simp add: age_slots_def)
  have lease: "ctrl_process_leases (pe_lease_clock env) [0..<16] g = (g, [])" using st by (intro starving_leases) auto
  have mem: "g_slots g ! i \<in> set (g_slots g)" if "i < 24" for i using st that by simp
  have "cs_state (g_slots g ! i) \<noteq> CTRL_SLOT_COMPLETION_PENDING" if "i < 24" for i
    using slot [OF mem [OF that]] by auto
  then have comp: "complete_slots [0..<24] g = (g, [])" by (intro starving_completes) simp
  have "normal_available g" using st by (auto simp: normal_available_def intro!: bexI [of _ "g_slots g ! a"])
  then have "\<not> eligible g i" if "i < 24" for i
    using slot [OF mem [OF that]] st by (auto simp: eligible_def Let_def)
  then have "candidates g = []" by (simp add: candidates_def)
  then have "select_slot_locked g = None" by (simp add: select_is_most_urgent most_urgent_def)
  then have "dispatch_slots 4 (pe_dcs_submit env) g = (g, [])" by (intro dispatch_idle) simp
  with age lease comp show ?thesis by (simp add: ctrl_process_def)
qed

definition ctrl_demo_starving :: ctrl_state where
  "ctrl_demo_starving = ctrl_demo_on\<lparr>g_high_burst := 8,
     g_slots := zero_ctrl_slot\<lparr>cs_state := CTRL_SLOT_QUEUED, cs_job := zero_job\<lparr>j_priority := DEVICE_CTRL_PRIORITY_NORMAL\<rparr>\<rparr> #
       zero_ctrl_slot\<lparr>cs_state := CTRL_SLOT_QUEUED, cs_device_index := 1\<rparr> # replicate 22 zero_ctrl_slot,
     g_devices := zero_device\<lparr>cd_used := True, cd_blocked := True, cd_inflight_slot := - 1\<rparr> #
       zero_device\<lparr>cd_used := True, cd_inflight_slot := - 1\<rparr> # replicate 14 zero_device\<rparr>"

theorem blocked_normal_job_starves_high_witness:
  "starving 0 1 ctrl_demo_starving \<and> ctrl_process ctrl_demo_env ctrl_demo_starving = (ctrl_demo_starving, [], [], [])"
proof -
  have "starving 0 1 ctrl_demo_starving" by code_simp
  with blocked_normal_job_starves_high [OF this, of ctrl_demo_env] show ?thesis by simp
qed

text \<open>Device entries are never given back: once used, an entry keeps its device.\<close>

definition keeps_dev :: "ctrl_device \<Rightarrow> ctrl_device \<Rightarrow> bool" where
  "keeps_dev d e \<longleftrightarrow> (cd_used d \<longrightarrow> cd_used e \<and> cd_device_id e = cd_device_id d)"

definition keeps :: "ctrl_state \<Rightarrow> ctrl_state \<Rightarrow> bool" where
  "keeps g h \<longleftrightarrow> list_all2 keeps_dev (g_devices g) (g_devices h)"

lemma keeps_refl [simp]: "list_all2 keeps_dev D D"
  by (simp add: list_all2_conv_all_nth keeps_dev_def)

lemma keeps_update [simp]: "keeps_dev (D ! d) v \<Longrightarrow> list_all2 keeps_dev D (D[d := v])"
  by (cases "d < length D") (auto simp: keeps_dev_def list_all2_conv_all_nth nth_list_update list_update_beyond)

lemma keeps_trans: "keeps g h \<Longrightarrow> keeps h k \<Longrightarrow> keeps g k"
  unfolding keeps_def list_all2_conv_all_nth keeps_dev_def by (metis (no_types, lifting))

lemma keeps_moves: "moves g h \<Longrightarrow> keeps g h"
  by (simp add: moves_def keeps_def)

lemma keeps_find_device:
  assumes "ctrl_find_device_locked dev create g = (h, r)"
  shows "keeps g h"
proof (cases "h = g")
  case True
  then show ?thesis by (simp add: keeps_def)
next
  case False
  then obtain i where i: "find_index (\<lambda>d. \<not> cd_used d) (g_devices g) = Some i"
    using assms by (auto simp: ctrl_find_device_locked_def split: option.splits if_splits)
  have "keeps_dev (g_devices g ! i) v" for v using find_index_sat [OF i] by (simp add: keeps_dev_def)
  with assms False i show ?thesis
    by (auto simp: ctrl_find_device_locked_def keeps_def split: option.splits if_splits)
qed

lemma keeps_cancel_leases: "cancel_leases dev src owner all_sources is g found = (h, r) \<Longrightarrow> keeps g h"
proof (induction "is" arbitrary: g found)
  case Nil
  then show ?case by (simp add: keeps_def)
next
  case (Cons i "is")
  have step: "keeps g (lease_map i f (ctrl_count t (device_map d (\<lambda>d. d\<lparr>cd_lease := 0\<rparr>) g)))" for f t d
    by (simp add: keeps_def keeps_dev_def)
  have same: "keeps g (g\<lparr>g_leases := L\<rparr>)" for L by (simp add: keeps_def)
  have "\<exists>g2 f2. cancel_leases dev src owner all_sources is g2 f2 = (h, r) \<and> keeps g g2"
  proof -
    let ?l = "g_leases g ! i"
    consider (skip) "cancel_leases dev src owner all_sources is g found = (h, r)"
      | (active) "cancel_leases dev src owner all_sources is
          (lease_map i (\<lambda>l. l\<lparr>cl_state := CTRL_LEASE_FREE\<rparr>)
            (ctrl_count (\<lambda>t. t\<lparr>ct_lease_revoked := ct_lease_revoked t + 1\<rparr>)
              (device_map (cl_device_index ?l) (\<lambda>d. d\<lparr>cd_lease := 0\<rparr>) g))) True = (h, r)"
      | (waiting) "cancel_leases dev src owner all_sources is
          (lease_map i (\<lambda>l. l\<lparr>cl_completion_status := ESP_ERR_INVALID_STATE,
              cl_state := CTRL_LEASE_COMPLETION_PENDING\<rparr>) g) True = (h, r)"
      using Cons.prems unfolding cancel_leases.simps Let_def by meson
    then show ?thesis using step same by cases (blast intro: keeps_def [THEN iffD2] keeps_refl)+
  qed
  then show ?case using Cons.IH keeps_trans by blast
qed

lemma keeps_cancel:
  assumes "ctrl_cancel_match dev src owner all_sources job_id g = (h, err, inflight)"
  shows "keeps g h"
proof -
  obtain g1 found infl where c: "cancel_jobs (cancels dev src owner all_sources job_id) [0..<24] g False None = (g1, found, infl)"
    by (metis prod_cases3)
  have "keeps g g1" by (rule keeps_moves, rule moves_cancel_jobs [OF _ c]) (simp add: cancels_def)
  with c assms show ?thesis
    by (auto simp: ctrl_cancel_match_def split: if_splits prod.splits intro: keeps_trans keeps_cancel_leases)
qed

lemma keeps_submit:
  assumes "device_control_scheduler_submit now (Some job) (Some fn) ctx g = (h, err, out)"
  shows "keeps g h"
proof -
  obtain g1 dv where f: "ctrl_find_device_locked (rq_device_id (j_request job)) True g = (g1, dv)" by fastforce
  obtain g2 ex where l: "dedupe_loop job [0..<24] g1 = (g2, ex)" by fastforce
  have "g_devices g2 = g_devices g1" using moves_dedupe [OF l] by (simp add: moves_def)
  then have "h = g \<or> g_devices h = g_devices g1"
    using assms f l by (auto simp: device_control_scheduler_submit_def enqueue_job_def Let_def split: if_splits option.splits)
  then show ?thesis using keeps_find_device [OF f] by (auto simp: keeps_def)
qed

lemma keeps_acquire:
  assumes "device_control_scheduler_acquire_lease (Some r) (Some fn) ctx g = (h, err)"
  shows "keeps g h"
proof -
  obtain g1 dv where f: "ctrl_find_device_locked (the (lr_device_id r)) True g = (g1, dv)" by fastforce
  have "h = g \<or> g_devices h = g_devices g1"
    using assms f by (auto simp: device_control_scheduler_acquire_lease_def split: if_splits option.splits)
  then show ?thesis using keeps_find_device [OF f] by (auto simp: keeps_def)
qed

lemma keeps_block:
  assumes "device_control_scheduler_block_device dev g = (h, err)"
  shows "keeps g h"
proof -
  obtain g1 r where f: "ctrl_find_device_locked (the dev) True g = (g1, r)" by fastforce
  have "keeps g1 (device_map d (\<lambda>v. v\<lparr>cd_blocked := True\<rparr>) g1)" for d by (simp add: keeps_def keeps_dev_def)
  moreover have "keeps g g" by (simp add: keeps_def)
  ultimately show ?thesis using keeps_find_device [OF f] assms f
    by (auto simp: device_control_scheduler_block_device_def split: if_splits option.splits intro: keeps_trans)
qed

lemma keeps_unblock: "device_control_scheduler_unblock_device dev g = (h, err) \<Longrightarrow> keeps g h"
  by (auto simp: device_control_scheduler_unblock_device_def ctrl_find_device_locked_def keeps_def keeps_dev_def split: option.splits)

lemma keeps_step: "ctrl_step c c' \<Longrightarrow> keeps (k_ctrl c) (k_ctrl c')"
proof (induction rule: ctrl_step.induct)
  case (age c now)
  then show ?case by (simp add: age_slots_def keeps_def)
next
  case (lease c i now g' calls)
  then show ?case
    by (auto simp: process_lease_def Let_def keeps_def keeps_dev_def split: if_splits)
next
  case (take_none c i g')
  then show ?case by (auto simp: complete_take_def Let_def keeps_def keeps_dev_def split: if_splits)
next
  case (take_call c i g' call)
  then show ?case
    by (auto simp: complete_take_def release_transport_def Let_def keeps_def keeps_dev_def split: if_splits)
next
  case (clear c i)
  then show ?case by (auto simp: complete_clear_def keeps_def)
next
  case (dispatch_none c n g')
  then show ?case by (auto simp: dispatch_take_def Let_def keeps_def keeps_dev_def split: if_splits option.splits)
next
  case (dispatch c n g' i rq)
  then show ?case by (auto simp: dispatch_take_def Let_def keeps_def keeps_dev_def split: if_splits option.splits)
next
  case (release now lease_id c g' err)
  then show ?case
    by (auto simp: device_control_scheduler_release_lease_def Let_def keeps_def keeps_dev_def split: if_splits option.splits)
qed (auto simp: keeps_def [of "k_ctrl _" "k_ctrl _"] intro: keeps_moves moves_dispatch_result moves_dcs_complete moves_mark moves_stop keeps_submit keeps_cancel
    keeps_acquire keeps_block keeps_unblock)

lemma keeps_steps: "ctrl_step\<^sup>*\<^sup>* c c' \<Longrightarrow> keeps (k_ctrl c) (k_ctrl c')"
  by (induction rule: rtranclp_induct) (auto simp: keeps_def intro: keeps_step [unfolded keeps_def] keeps_trans [unfolded keeps_def])

text \<open>
  A device entry is never given back. Once sixteen devices have been seen, by a job, a lease or a
  block, every job for any other device is refused with \<open>ESP_ERR_NO_MEM\<close> for as long as the scheduler
  runs, whatever happens in between: also when devices were removed and all slots are free.
\<close>

theorem seventeenth_device_is_refused:
  assumes "\<forall>d\<in>set (g_devices (k_ctrl c)). cd_used d \<and> cd_device_id d \<noteq> rq_device_id (j_request job)"
    and "ctrl_step\<^sup>*\<^sup>* c c'" "g_running (k_ctrl c')" "rq_device_id (j_request job) \<noteq> []"
    and "j_priority job \<le> DEVICE_CTRL_PRIORITY_BACKGROUND" "j_source job \<le> DEVICE_CTRL_SOURCE_INTERNAL"
    and "j_dedupe job = DEVICE_CTRL_DEDUPE_NONE"
  shows "snd (device_control_scheduler_submit now (Some job) (Some fn) ctx (k_ctrl c')) = (ESP_ERR_NO_MEM, None)"
proof -
  let ?D = "g_devices (k_ctrl c)" and ?E = "g_devices (k_ctrl c')" and ?id = "rq_device_id (j_request job)"
  have k: "length ?E = length ?D" "\<And>d. d < length ?D \<Longrightarrow> cd_used (?D ! d) \<Longrightarrow> cd_used (?E ! d) \<and> cd_device_id (?E ! d) = cd_device_id (?D ! d)"
    using keeps_steps [OF assms(2)] by (auto simp: keeps_def keeps_dev_def list_all2_conv_all_nth)
  have all: "cd_used e \<and> cd_device_id e \<noteq> ?id" if "e \<in> set ?E" for e
  proof -
    from that obtain i where "i < length ?E" "?E ! i = e" by (meson in_set_conv_nth)
    then have i: "i < length ?D" "e = ?E ! i" using k(1) by auto
    then have "cd_used (?D ! i)" "cd_device_id (?D ! i) \<noteq> ?id" using assms(1) by simp_all
    with k(2) [OF i(1)] i(2) show ?thesis by simp
  qed
  have "find_index (\<lambda>d. cd_used d \<and> cd_device_id d = ?id) ?E = None" "find_index (\<lambda>d. \<not> cd_used d) ?E = None"
    using all by (auto simp: find_index_None)
  then have "ctrl_find_device_locked ?id True (k_ctrl c') = (k_ctrl c', None)" by (simp add: ctrl_find_device_locked_def)
  with assms(3-7) show ?thesis by (simp add: device_control_scheduler_submit_def)
qed

definition ctrl_demo_full :: ctrl_config where
  "ctrl_demo_full = ctrl_demo_config\<lparr>k_ctrl := ctrl_demo_on\<lparr>g_devices := replicate 16 (zero_device\<lparr>cd_used := True,
     cd_inflight_slot := - 1, cd_device_id := ''old''\<rparr>)\<rparr>\<rparr>"

theorem seventeenth_device_is_refused_witness:
  "snd (device_control_scheduler_submit 0 (Some ctrl_demo_job) (Some 7) 5 (k_ctrl ctrl_demo_full)) = (ESP_ERR_NO_MEM, None)"
proof (rule seventeenth_device_is_refused [OF _ rtranclp.rtrancl_refl])
  show "g_running (k_ctrl ctrl_demo_full)" by code_simp
qed (simp_all add: ctrl_demo_full_def ctrl_demo_job_def zero_job_def zero_request_def zero_device_def)

end
