(* ===== verification/Cbor_Codec.thy ===== *)
theory Cbor_Codec
  imports Command_Request "HOL-Library.Monad_Syntax"
begin

text \<open>
  The wire codec (\<open>cbor_codec/cbor_codec.c\<close>): a message is a CBOR map from small integers to items.
  The library QCBOR is not part of the sources; the record \<open>qcbor\<close> stands for it.

  \<^item> Encoding is the list of \<open>QCBOREncode_Add...ToMapN\<close> calls in their order, handed to
    \<open>QCBOREncode_Finish\<close> with the capacity of the buffer: \<open>qc_encode\<close>.
  \<^item> Decoding looks labels up in the frame, \<open>QCBORDecode_Get...InMapN\<close>, each followed by
    \<open>QCBORDecode_GetAndResetError\<close>; the result is a success, "label not found" or another error.
  \<^item> A text is the characters of the item, which may hold a NUL; a \<open>char\<close> array is read up to its first
    NUL (\<open>cstr\<close>).
  \<^item> The result \<open>-1\<close> is \<^term>\<open>None\<close>. The decoder fills its output while it reads; after \<open>-1\<close> the callers
    do not look at it.
\<close>

section \<open>The CBOR library\<close>

datatype cbor_item =
    CBOR_UINT u64
  | CBOR_INT int
  | CBOR_TEXT string
  | CBOR_BYTES "u8 list"
  | CBOR_BOOL bool

datatype 'a qcbor_result =
    QCBOR_SUCCESS 'a
  | QCBOR_ERR_LABEL_NOT_FOUND
  | QCBOR_ERR_OTHER

type_synonym frame = "u8 list"

record qcbor =
  qc_encode :: "(nat \<times> cbor_item) list \<Rightarrow> nat \<Rightarrow> frame option"
  qc_enter_map :: "frame \<Rightarrow> bool"
  qc_get_uint :: "frame \<Rightarrow> nat \<Rightarrow> u64 qcbor_result"
  qc_get_int :: "frame \<Rightarrow> nat \<Rightarrow> int qcbor_result"
  qc_get_text :: "frame \<Rightarrow> nat \<Rightarrow> string qcbor_result"
  qc_get_bytes :: "frame \<Rightarrow> nat \<Rightarrow> u8 list qcbor_result"
  qc_get_bool :: "frame \<Rightarrow> nat \<Rightarrow> bool qcbor_result"
  qc_finish :: "frame \<Rightarrow> bool"

abbreviation GW_MSG_MAX_LEN :: nat where "GW_MSG_MAX_LEN \<equiv> 256"
abbreviation INT32_MIN :: int where "INT32_MIN \<equiv> - 2147483648"
abbreviation INT32_MAX :: int where "INT32_MAX \<equiv> 2147483647"
abbreviation UINT8_MAX :: u64 where "UINT8_MAX \<equiv> 255"
abbreviation UINT16_MAX :: u64 where "UINT16_MAX \<equiv> 65535"
abbreviation UINT32_MAX :: u64 where "UINT32_MAX \<equiv> 4294967295"

section \<open>Strings and addresses\<close>

definition valid_string :: "string \<Rightarrow> nat \<Rightarrow> bool \<Rightarrow> bool" where
  "valid_string value capacity allow_empty \<longleftrightarrow>
     (let length = strnlen value capacity in length < capacity \<and> (allow_empty \<or> 0 < length))"

text \<open>The text that \<open>copy_text\<close> leaves in an array of \<open>capacity\<close> characters.\<close>

definition copy_text :: "string \<Rightarrow> nat \<Rightarrow> bool \<Rightarrow> string option" where
  "copy_text value capacity allow_empty =
     (if length value \<ge> capacity \<or> (\<not> allow_empty \<and> value = []) then None else Some (cstr value))"

section \<open>Encoding\<close>

text \<open>
  One group of additions after the other, as in the code. Two pairs of fields share their storage:
  \<open>setting_title\<close> is \<open>capability_label\<close>, \<open>setting_unit\<close> is \<open>capability_unit\<close> and \<open>setting_group\<close> is
  \<open>feature_id\<close>, so their additions repeat those texts under the keys of the settings.
\<close>

definition add_if :: "bool \<Rightarrow> nat \<Rightarrow> cbor_item \<Rightarrow> (nat \<times> cbor_item) list" where
  "add_if b key item = (if b then [(key, item)] else [])"

abbreviation AddUInt64 :: "'a::len word \<Rightarrow> cbor_item" where "AddUInt64 n \<equiv> CBOR_UINT (ucast n)"
abbreviation AddSZString :: "string \<Rightarrow> cbor_item" where "AddSZString s \<equiv> CBOR_TEXT (cstr s)"

definition header_items :: "gw_message \<Rightarrow> (nat \<times> cbor_item) list" where
  "header_items msg =
     add_if True 0 (AddUInt64 (m_protocol_version msg)) @
     add_if True 1 (AddSZString (m_type msg)) @
     add_if (m_has_device_id msg) 2 (AddSZString (m_device_id msg)) @
     add_if True 3 (AddSZString (m_command msg)) @
     add_if (m_has_request_id msg) 10 (AddUInt64 (m_request_id msg)) @
     add_if True 4 (CBOR_INT (m_int_value msg)) @
     add_if True 5 (CBOR_BOOL (m_bool_value msg \<noteq> 0)) @
     add_if (cstr (m_name msg) \<noteq> []) 6 (AddSZString (m_name msg)) @
     add_if (m_has_ble_addr msg) 8 (CBOR_BYTES (m_ble_addr msg)) @
     add_if (m_has_ble_addr msg) 9 (AddUInt64 (m_ble_addr_type msg))"

definition capability_items :: "gw_message \<Rightarrow> (nat \<times> cbor_item) list" where
  "capability_items msg =
     add_if (m_has_snapshot_id msg) 11 (AddUInt64 (m_snapshot_id msg)) @
     add_if (m_has_sequence msg) 12 (AddUInt64 (m_sequence msg)) @
     add_if (m_has_total msg) 13 (AddUInt64 (m_total msg)) @
     add_if (m_has_value_type msg) 14 (AddUInt64 (m_value_type msg)) @
     add_if (m_has_capability_flags msg) 15 (AddUInt64 (m_capability_flags msg)) @
     add_if (m_has_min_value msg) 16 (CBOR_INT (m_min_value msg)) @
     add_if (m_has_max_value msg) 17 (CBOR_INT (m_max_value msg)) @
     add_if (m_has_step msg) 18 (AddUInt64 (m_step msg)) @
     add_if (cstr (m_capability_label msg) \<noteq> []) 19 (AddSZString (m_capability_label msg)) @
     add_if (cstr (m_capability_unit msg) \<noteq> []) 20 (AddSZString (m_capability_unit msg)) @
     add_if (m_has_capability_revision msg) 21 (AddUInt64 (m_capability_revision msg))"

definition feature_items :: "gw_message \<Rightarrow> (nat \<times> cbor_item) list" where
  "feature_items msg =
     add_if (m_has_feature_id msg) 22 (AddSZString (m_feature_id msg)) @
     add_if (m_has_feature_type msg) 23 (AddUInt64 (m_feature_type msg)) @
     add_if (m_has_feature_schema_version msg) 24 (AddUInt64 (m_feature_schema_version msg)) @
     add_if (m_has_feature_flags msg) 25 (AddUInt64 (m_feature_flags msg)) @
     add_if (m_has_property_id msg) 26 (AddUInt64 (m_property_id msg)) @
     add_if (m_has_feature_value_bool msg) 27 (CBOR_BOOL (m_feature_value_bool msg)) @
     add_if (m_has_feature_value_int msg) 28 (CBOR_INT (m_feature_value_int msg)) @
     add_if (m_has_feature_tool msg) 29 (AddSZString (m_feature_tool msg)) @
     add_if (m_has_feature_total msg) 30 (AddUInt64 (m_feature_total msg)) @
     add_if (m_has_feature_decimals msg) 31 (AddUInt64 (m_feature_decimals msg))"

text \<open>The value of a setting by its type; \<^term>\<open>None\<close> is the \<open>return -1\<close> of an unknown type.\<close>

definition setting_value_item :: "gw_message \<Rightarrow> cbor_item option" where
  "setting_value_item msg =
     (if m_setting_type msg = GW_SETTING_TYPE_BOOL then Some (CBOR_BOOL (m_setting_value_bool msg))
      else if m_setting_type msg = GW_SETTING_TYPE_INT then Some (CBOR_INT (m_setting_value_int msg))
      else if m_setting_type msg = GW_SETTING_TYPE_STRING then Some (AddSZString (m_setting_value_string msg))
      else if m_setting_type msg = GW_SETTING_TYPE_ENUM then Some (AddUInt64 (m_setting_value_enum msg))
      else None)"

definition value_items :: "gw_message \<Rightarrow> cbor_item option \<Rightarrow> (nat \<times> cbor_item) list" where
  "value_items msg value = add_if (m_has_setting_value msg \<and> value \<noteq> None) 40 (the value)"

definition settings_items :: "gw_message \<Rightarrow> cbor_item option \<Rightarrow> (nat \<times> cbor_item) list" where
  "settings_items msg value =
     add_if (m_has_settings_supported msg) 32 (CBOR_UINT (if m_settings_supported msg then 1 else 0)) @
     add_if (m_has_settings_schema_revision msg) 33 (AddUInt64 (m_settings_schema_revision msg)) @
     add_if (m_has_setting_id msg) 34 (AddSZString (m_setting_id msg)) @
     add_if (cstr (m_capability_label msg) \<noteq> []) 35 (AddSZString (m_capability_label msg)) @
     add_if (m_has_setting_group msg) 36 (AddSZString (m_feature_id msg)) @
     add_if (cstr (m_capability_unit msg) \<noteq> []) 37 (AddSZString (m_capability_unit msg)) @
     add_if (m_has_setting_type msg) 38 (AddUInt64 (m_setting_type msg)) @
     add_if (m_has_setting_flags msg) 39 (AddUInt64 (m_setting_flags msg)) @
     value_items msg value @
     add_if (m_has_settings_transaction_id msg) 41 (AddUInt64 (m_settings_transaction_id msg)) @
     add_if (m_has_settings_expected_revision msg) 42 (AddUInt64 (m_settings_expected_revision msg)) @
     add_if (m_has_settings_new_revision msg) 43 (AddUInt64 (m_settings_new_revision msg)) @
     add_if (m_has_settings_option_index msg) 44 (AddUInt64 (m_settings_option_index msg)) @
     add_if (m_has_settings_max_length msg) 45 (AddUInt64 (m_settings_max_length msg)) @
     add_if (m_has_settings_option_count msg) 46 (AddUInt64 (m_settings_option_count msg)) @
     add_if (m_has_settings_sequence msg) 47 (AddUInt64 (m_settings_sequence msg))"

definition encodable :: "gw_message \<Rightarrow> bool" where
  "encodable msg \<longleftrightarrow>
     valid_string (m_type msg) GW_MSG_TYPE_LEN False \<and>
     valid_string (m_command msg) GW_MSG_COMMAND_LEN False \<and>
     (m_has_device_id msg \<longrightarrow> valid_string (m_device_id msg) GW_MSG_DEVICE_ID_LEN False) \<and>
     valid_string (m_name msg) GW_MSG_NAME_LEN True \<and>
     valid_string (m_capability_label msg) GW_MSG_CAP_LABEL_LEN True \<and>
     valid_string (m_capability_unit msg) GW_MSG_CAP_UNIT_LEN True \<and>
     valid_string (m_feature_id msg) GW_FEATURE_ID_LEN True \<and>
     valid_string (m_feature_tool msg) GW_MSG_COMMAND_LEN True \<and>
     m_protocol_version msg = GW_PROTOCOL_VERSION"

definition cbor_codec_encode :: "qcbor \<Rightarrow> gw_message option \<Rightarrow> nat \<Rightarrow> frame option" where
  "cbor_codec_encode Q msg_opt out_buf_cap =
     (case msg_opt of
        None \<Rightarrow> None
      | Some msg \<Rightarrow>
          if out_buf_cap = 0 \<or> \<not> encodable msg then None
          else if m_has_setting_value msg \<and> setting_value_item msg = None then None
          else qc_encode Q (header_items msg @ capability_items msg @ feature_items msg @
                            settings_items msg (setting_value_item msg)) out_buf_cap)"

section \<open>Decoding\<close>

text \<open>
  The repeated pattern: an optional item is stored when it is there and fits, left alone when the
  label is not in the map, and refused otherwise. The limits are those of the range checks.
\<close>

definition opt_item :: "'a qcbor_result \<Rightarrow> ('a \<Rightarrow> 'b option) \<Rightarrow> ('b \<Rightarrow> gw_message \<Rightarrow> gw_message) \<Rightarrow> gw_message \<Rightarrow> gw_message option" where
  "opt_item r check store m =
     (case r of
        QCBOR_SUCCESS v \<Rightarrow> (case check v of Some x \<Rightarrow> Some (store x m) | None \<Rightarrow> None)
      | QCBOR_ERR_LABEL_NOT_FOUND \<Rightarrow> Some m
      | QCBOR_ERR_OTHER \<Rightarrow> None)"

definition up_to :: "u64 \<Rightarrow> u64 \<Rightarrow> 'a::len word option" where
  "up_to limit v = (if v > limit then None else Some (ucast v))"

definition nonzero_up_to :: "u64 \<Rightarrow> u64 \<Rightarrow> 'a::len word option" where
  "nonzero_up_to limit v = (if v = 0 \<or> v > limit then None else Some (ucast v))"

definition int32_of :: "int \<Rightarrow> int option" where
  "int32_of v = (if v < INT32_MIN \<or> v > INT32_MAX then None else Some v)"

definition text_of :: "nat \<Rightarrow> bool \<Rightarrow> string \<Rightarrow> string option" where
  "text_of capacity allow_empty v = copy_text v capacity allow_empty"

text \<open>A mandatory item: anything but a success is refused.\<close>

definition need_item :: "'a qcbor_result \<Rightarrow> ('a \<Rightarrow> 'b option) \<Rightarrow> 'b option" where
  "need_item r check = (case r of QCBOR_SUCCESS v \<Rightarrow> check v | _ \<Rightarrow> None)"

definition decode_ble_addr :: "qcbor \<Rightarrow> frame \<Rightarrow> gw_message \<Rightarrow> gw_message option" where
  "decode_ble_addr Q buf m =
     (case qc_get_bytes Q buf 8 of
        QCBOR_SUCCESS address \<Rightarrow>
          if length address \<noteq> 6 then None
          else (case qc_get_uint Q buf 9 of
                  QCBOR_SUCCESS address_type \<Rightarrow>
                    if address_type > UINT8_MAX then None
                    else Some (m\<lparr>m_ble_addr := address, m_ble_addr_type := ucast address_type, m_has_ble_addr := True\<rparr>)
                | _ \<Rightarrow> None)
      | QCBOR_ERR_LABEL_NOT_FOUND \<Rightarrow> Some m
      | QCBOR_ERR_OTHER \<Rightarrow> None)"

text \<open>The header: everything up to the snapshot identifier, with \<open>int_value\<close> and \<open>bool_value\<close>.\<close>

definition decode_header :: "qcbor \<Rightarrow> frame \<Rightarrow> gw_message \<Rightarrow> (gw_message \<times> u64 \<times> int \<times> bool) option" where
  "decode_header Q buf m0 = do {
     protocol_version \<leftarrow> need_item (qc_get_uint Q buf 0) (\<lambda>v. if v \<noteq> ucast GW_PROTOCOL_VERSION then None else Some v);
     ty \<leftarrow> need_item (qc_get_text Q buf 1) (text_of GW_MSG_TYPE_LEN False);
     command \<leftarrow> need_item (qc_get_text Q buf 3) (text_of GW_MSG_COMMAND_LEN False);
     int_value \<leftarrow> need_item (qc_get_int Q buf 4) int32_of;
     bool_value \<leftarrow> need_item (qc_get_bool Q buf 5) Some;
     m \<leftarrow> opt_item (qc_get_uint Q buf 10) (nonzero_up_to UINT32_MAX)
            (\<lambda>v m. m\<lparr>m_request_id := v, m_has_request_id := True\<rparr>) (m0\<lparr>m_type := ty, m_command := command\<rparr>);
     m \<leftarrow> opt_item (qc_get_text Q buf 2) (text_of GW_MSG_DEVICE_ID_LEN False)
            (\<lambda>v m. m\<lparr>m_device_id := v, m_has_device_id := True\<rparr>) m;
     m \<leftarrow> opt_item (qc_get_text Q buf 6) (text_of GW_MSG_NAME_LEN True) (\<lambda>v m. m\<lparr>m_name := v\<rparr>) m;
     m \<leftarrow> decode_ble_addr Q buf m;
     Some (m, protocol_version, int_value, bool_value)
   }"

definition decode_capability :: "qcbor \<Rightarrow> frame \<Rightarrow> gw_message \<Rightarrow> gw_message option" where
  "decode_capability Q buf m = do {
     m \<leftarrow> opt_item (qc_get_uint Q buf 11) (nonzero_up_to UINT32_MAX) (\<lambda>v m. m\<lparr>m_snapshot_id := v, m_has_snapshot_id := True\<rparr>) m;
     m \<leftarrow> opt_item (qc_get_uint Q buf 12) (up_to UINT16_MAX) (\<lambda>v m. m\<lparr>m_sequence := v, m_has_sequence := True\<rparr>) m;
     m \<leftarrow> opt_item (qc_get_uint Q buf 13) (up_to UINT16_MAX) (\<lambda>v m. m\<lparr>m_total := v, m_has_total := True\<rparr>) m;
     m \<leftarrow> opt_item (qc_get_uint Q buf 14) (up_to UINT8_MAX) (\<lambda>v m. m\<lparr>m_value_type := v, m_has_value_type := True\<rparr>) m;
     m \<leftarrow> opt_item (qc_get_uint Q buf 15) (up_to UINT8_MAX)
            (\<lambda>v m. m\<lparr>m_capability_flags := v, m_has_capability_flags := True\<rparr>) m;
     m \<leftarrow> opt_item (qc_get_int Q buf 16) int32_of (\<lambda>v m. m\<lparr>m_min_value := v, m_has_min_value := True\<rparr>) m;
     m \<leftarrow> opt_item (qc_get_int Q buf 17) int32_of (\<lambda>v m. m\<lparr>m_max_value := v, m_has_max_value := True\<rparr>) m;
     m \<leftarrow> opt_item (qc_get_uint Q buf 18) (up_to UINT32_MAX) (\<lambda>v m. m\<lparr>m_step := v, m_has_step := True\<rparr>) m;
     m \<leftarrow> opt_item (qc_get_text Q buf 19) (text_of GW_MSG_CAP_LABEL_LEN True) (\<lambda>v m. m\<lparr>m_capability_label := v\<rparr>) m;
     m \<leftarrow> opt_item (qc_get_text Q buf 20) (text_of GW_MSG_CAP_UNIT_LEN True) (\<lambda>v m. m\<lparr>m_capability_unit := v\<rparr>) m;
     opt_item (qc_get_uint Q buf 21) (up_to UINT32_MAX)
       (\<lambda>v m. m\<lparr>m_capability_revision := v, m_has_capability_revision := True\<rparr>) m
   }"

definition decode_feature :: "qcbor \<Rightarrow> frame \<Rightarrow> gw_message \<Rightarrow> gw_message option" where
  "decode_feature Q buf m = do {
     m \<leftarrow> opt_item (qc_get_text Q buf 22) (text_of GW_FEATURE_ID_LEN False) (\<lambda>v m. m\<lparr>m_feature_id := v, m_has_feature_id := True\<rparr>) m;
     m \<leftarrow> opt_item (qc_get_uint Q buf 23) (up_to UINT8_MAX) (\<lambda>v m. m\<lparr>m_feature_type := v, m_has_feature_type := True\<rparr>) m;
     m \<leftarrow> opt_item (qc_get_uint Q buf 24) (up_to UINT16_MAX)
            (\<lambda>v m. m\<lparr>m_feature_schema_version := v, m_has_feature_schema_version := True\<rparr>) m;
     m \<leftarrow> opt_item (qc_get_uint Q buf 25) (up_to UINT16_MAX) (\<lambda>v m. m\<lparr>m_feature_flags := v, m_has_feature_flags := True\<rparr>) m;
     m \<leftarrow> opt_item (qc_get_uint Q buf 26) (up_to UINT8_MAX) (\<lambda>v m. m\<lparr>m_property_id := v, m_has_property_id := True\<rparr>) m;
     m \<leftarrow> opt_item (qc_get_bool Q buf 27) Some (\<lambda>v m. m\<lparr>m_feature_value_bool := v, m_has_feature_value_bool := True\<rparr>) m;
     m \<leftarrow> opt_item (qc_get_int Q buf 28) int32_of (\<lambda>v m. m\<lparr>m_feature_value_int := v, m_has_feature_value_int := True\<rparr>) m;
     m \<leftarrow> opt_item (qc_get_text Q buf 29) (text_of GW_MSG_COMMAND_LEN True)
            (\<lambda>v m. m\<lparr>m_feature_tool := v, m_has_feature_tool := True\<rparr>) m;
     m \<leftarrow> opt_item (qc_get_uint Q buf 30) (up_to UINT16_MAX) (\<lambda>v m. m\<lparr>m_feature_total := v, m_has_feature_total := True\<rparr>) m;
     opt_item (qc_get_uint Q buf 31) (up_to UINT8_MAX) (\<lambda>v m. m\<lparr>m_feature_decimals := v, m_has_feature_decimals := True\<rparr>) m
   }"

text \<open>The value of a setting is looked up only when its type was there, and by that type.\<close>

definition decode_setting_value :: "qcbor \<Rightarrow> frame \<Rightarrow> gw_message \<Rightarrow> gw_message option" where
  "decode_setting_value Q buf m =
     (if \<not> m_has_setting_type m then Some m
      else if m_setting_type m = GW_SETTING_TYPE_BOOL
      then opt_item (qc_get_bool Q buf 40) Some (\<lambda>v m. m\<lparr>m_setting_value_bool := v, m_has_setting_value := True\<rparr>) m
      else if m_setting_type m = GW_SETTING_TYPE_INT
      then opt_item (qc_get_int Q buf 40) int32_of (\<lambda>v m. m\<lparr>m_setting_value_int := v, m_has_setting_value := True\<rparr>) m
      else if m_setting_type m = GW_SETTING_TYPE_STRING
      then opt_item (qc_get_text Q buf 40) (text_of GW_SETTINGS_VALUE_MAX_LEN True)
             (\<lambda>v m. m\<lparr>m_setting_value_string := v, m_has_setting_value := True\<rparr>) m
      else if m_setting_type m = GW_SETTING_TYPE_ENUM
      then opt_item (qc_get_uint Q buf 40) (up_to UINT8_MAX)
             (\<lambda>v m. m\<lparr>m_setting_value_enum := v, m_has_setting_value := True\<rparr>) m
      else Some m)"

definition decode_settings :: "qcbor \<Rightarrow> frame \<Rightarrow> gw_message \<Rightarrow> gw_message option" where
  "decode_settings Q buf m = do {
     m \<leftarrow> opt_item (qc_get_uint Q buf 32) (\<lambda>v. if v > 1 then None else Some (v \<noteq> 0))
            (\<lambda>v m. m\<lparr>m_settings_supported := v, m_has_settings_supported := True\<rparr>) m;
     m \<leftarrow> opt_item (qc_get_uint Q buf 33) (up_to UINT16_MAX)
            (\<lambda>v m. m\<lparr>m_settings_schema_revision := v, m_has_settings_schema_revision := True\<rparr>) m;
     m \<leftarrow> opt_item (qc_get_text Q buf 34) (text_of GW_SETTINGS_CBOR_MAX_ID_LEN False)
            (\<lambda>v m. m\<lparr>m_setting_id := v, m_has_setting_id := True\<rparr>) m;
     m \<leftarrow> opt_item (qc_get_text Q buf 35) (text_of GW_MSG_CAP_LABEL_LEN True) (\<lambda>v m. m\<lparr>m_capability_label := v\<rparr>) m;
     m \<leftarrow> opt_item (qc_get_text Q buf 36) (text_of GW_FEATURE_ID_LEN True)
            (\<lambda>v m. m\<lparr>m_feature_id := v, m_has_setting_group := True\<rparr>) m;
     m \<leftarrow> opt_item (qc_get_text Q buf 37) (text_of GW_MSG_CAP_UNIT_LEN True) (\<lambda>v m. m\<lparr>m_capability_unit := v\<rparr>) m;
     m \<leftarrow> opt_item (qc_get_uint Q buf 38) (up_to (ucast GW_SETTING_TYPE_ENUM))
            (\<lambda>v m. m\<lparr>m_setting_type := v, m_has_setting_type := True\<rparr>) m;
     m \<leftarrow> opt_item (qc_get_uint Q buf 39) (up_to UINT16_MAX) (\<lambda>v m. m\<lparr>m_setting_flags := v, m_has_setting_flags := True\<rparr>) m;
     decode_setting_value Q buf m
   }"

definition decode_transaction :: "qcbor \<Rightarrow> frame \<Rightarrow> gw_message \<Rightarrow> gw_message option" where
  "decode_transaction Q buf m = do {
     m \<leftarrow> opt_item (qc_get_uint Q buf 41) Some
            (\<lambda>v m. m\<lparr>m_settings_transaction_id := v, m_has_settings_transaction_id := True\<rparr>) m;
     m \<leftarrow> opt_item (qc_get_uint Q buf 42) (up_to UINT32_MAX)
            (\<lambda>v m. m\<lparr>m_settings_expected_revision := v, m_has_settings_expected_revision := True\<rparr>) m;
     m \<leftarrow> opt_item (qc_get_uint Q buf 43) (up_to UINT32_MAX)
            (\<lambda>v m. m\<lparr>m_settings_new_revision := v, m_has_settings_new_revision := True\<rparr>) m;
     m \<leftarrow> opt_item (qc_get_uint Q buf 44) (up_to UINT8_MAX)
            (\<lambda>v m. m\<lparr>m_settings_option_index := v, m_has_settings_option_index := True\<rparr>) m;
     m \<leftarrow> opt_item (qc_get_uint Q buf 45) (up_to UINT16_MAX)
            (\<lambda>v m. m\<lparr>m_settings_max_length := v, m_has_settings_max_length := True\<rparr>) m;
     m \<leftarrow> opt_item (qc_get_uint Q buf 46) (up_to UINT16_MAX)
            (\<lambda>v m. m\<lparr>m_settings_option_count := v, m_has_settings_option_count := True\<rparr>) m;
     opt_item (qc_get_uint Q buf 47) (up_to UINT16_MAX)
       (\<lambda>v m. m\<lparr>m_settings_sequence := v, m_has_settings_sequence := True\<rparr>) m
   }"

definition cbor_codec_decode :: "qcbor \<Rightarrow> frame \<Rightarrow> gw_message option" where
  "cbor_codec_decode Q buf =
     (if length buf = 0 \<or> length buf > GW_MSG_MAX_LEN \<or> \<not> qc_enter_map Q buf then None
      else do {
        (m, protocol_version, int_value, bool_value) \<leftarrow>
           decode_header Q buf (zero_message\<lparr>m_protocol_version := GW_PROTOCOL_VERSION\<rparr>);
        m \<leftarrow> decode_capability Q buf m;
        m \<leftarrow> decode_feature Q buf m;
        m \<leftarrow> decode_settings Q buf m;
        m \<leftarrow> decode_transaction Q buf m;
        if \<not> qc_finish Q buf then None
        else Some (m\<lparr>m_protocol_version := ucast protocol_version, m_int_value := int_value,
                    m_bool_value := (if bool_value then 1 else 0), m_has_int_value := True, m_has_bool_value := True\<rparr>)
      })"

section \<open>What the library promises\<close>

definition as_uint :: "cbor_item option \<Rightarrow> u64 qcbor_result" where
  "as_uint i =
     (case i of
        None \<Rightarrow> QCBOR_ERR_LABEL_NOT_FOUND
      | Some (CBOR_UINT u) \<Rightarrow> QCBOR_SUCCESS u
      | Some (CBOR_INT n) \<Rightarrow> if 0 \<le> n then QCBOR_SUCCESS (word_of_int n) else QCBOR_ERR_OTHER
      | Some _ \<Rightarrow> QCBOR_ERR_OTHER)"

definition as_int :: "cbor_item option \<Rightarrow> int qcbor_result" where
  "as_int i =
     (case i of
        None \<Rightarrow> QCBOR_ERR_LABEL_NOT_FOUND
      | Some (CBOR_UINT u) \<Rightarrow> if uint u < 2 ^ 63 then QCBOR_SUCCESS (uint u) else QCBOR_ERR_OTHER
      | Some (CBOR_INT n) \<Rightarrow> QCBOR_SUCCESS n
      | Some _ \<Rightarrow> QCBOR_ERR_OTHER)"

definition as_text :: "cbor_item option \<Rightarrow> string qcbor_result" where
  "as_text i =
     (case i of None \<Rightarrow> QCBOR_ERR_LABEL_NOT_FOUND | Some (CBOR_TEXT t) \<Rightarrow> QCBOR_SUCCESS t | Some _ \<Rightarrow> QCBOR_ERR_OTHER)"

definition as_bytes :: "cbor_item option \<Rightarrow> u8 list qcbor_result" where
  "as_bytes i =
     (case i of None \<Rightarrow> QCBOR_ERR_LABEL_NOT_FOUND | Some (CBOR_BYTES b) \<Rightarrow> QCBOR_SUCCESS b | Some _ \<Rightarrow> QCBOR_ERR_OTHER)"

definition as_bool :: "cbor_item option \<Rightarrow> bool qcbor_result" where
  "as_bool i =
     (case i of None \<Rightarrow> QCBOR_ERR_LABEL_NOT_FOUND | Some (CBOR_BOOL b) \<Rightarrow> QCBOR_SUCCESS b | Some _ \<Rightarrow> QCBOR_ERR_OTHER)"

definition int64_items :: "(nat \<times> cbor_item) list \<Rightarrow> bool" where
  "int64_items items \<longleftrightarrow> (\<forall>k n. (k, CBOR_INT n) \<in> set items \<longrightarrow> - (2 ^ 63) \<le> n \<and> n < 2 ^ 63)"

text \<open>
  What the code relies on: a finished frame fits the buffer, can be entered and left as a map, and a
  lookup finds the item added under the label, with the number conversions QCBOR documents.
\<close>

locale qcbor_contract =
  fixes Q :: qcbor
  assumes encode_fits: "qc_encode Q items cap = Some buf \<Longrightarrow> buf \<noteq> [] \<and> length buf \<le> cap"
    and encode_map: "\<lbrakk>qc_encode Q items cap = Some buf; distinct (map fst items); int64_items items\<rbrakk> \<Longrightarrow>
      qc_enter_map Q buf \<and> qc_finish Q buf"
    and get_uint: "\<lbrakk>qc_encode Q items cap = Some buf; distinct (map fst items); int64_items items\<rbrakk> \<Longrightarrow>
      qc_get_uint Q buf k = as_uint (map_of items k)"
    and get_int: "\<lbrakk>qc_encode Q items cap = Some buf; distinct (map fst items); int64_items items\<rbrakk> \<Longrightarrow>
      qc_get_int Q buf k = as_int (map_of items k)"
    and get_text: "\<lbrakk>qc_encode Q items cap = Some buf; distinct (map fst items); int64_items items\<rbrakk> \<Longrightarrow>
      qc_get_text Q buf k = as_text (map_of items k)"
    and get_bytes: "\<lbrakk>qc_encode Q items cap = Some buf; distinct (map fst items); int64_items items\<rbrakk> \<Longrightarrow>
      qc_get_bytes Q buf k = as_bytes (map_of items k)"
    and get_bool: "\<lbrakk>qc_encode Q items cap = Some buf; distinct (map fst items); int64_items items\<rbrakk> \<Longrightarrow>
      qc_get_bool Q buf k = as_bool (map_of items k)"

definition all_items :: "gw_message \<Rightarrow> (nat \<times> cbor_item) list" where
  "all_items s = header_items s @ capability_items s @ feature_items s @ settings_items s (setting_value_item s)"

lemma map_of_add_if [simp]:
  "map_of (add_if b k v @ rest) k' = (if b \<and> k' = k then Some v else map_of rest k')"
  "map_of (add_if b k v) k' = (if b \<and> k' = k then Some v else None)"
  by (simp_all add: add_if_def)

lemma map_of_items:
  "map_of (all_items s) 0 = Some (AddUInt64 (m_protocol_version s))"
  "map_of (all_items s) 1 = Some (AddSZString (m_type s))"
  "map_of (all_items s) 2 = (if m_has_device_id s then Some (AddSZString (m_device_id s)) else None)"
  "map_of (all_items s) 3 = Some (AddSZString (m_command s))"
  "map_of (all_items s) 4 = Some (CBOR_INT (m_int_value s))"
  "map_of (all_items s) 5 = Some (CBOR_BOOL (m_bool_value s \<noteq> 0))"
  "map_of (all_items s) 6 = (if cstr (m_name s) \<noteq> [] then Some (AddSZString (m_name s)) else None)"
  "map_of (all_items s) 8 = (if m_has_ble_addr s then Some (CBOR_BYTES (m_ble_addr s)) else None)"
  "map_of (all_items s) 9 = (if m_has_ble_addr s then Some (AddUInt64 (m_ble_addr_type s)) else None)"
  "map_of (all_items s) 10 = (if m_has_request_id s then Some (AddUInt64 (m_request_id s)) else None)"
  "map_of (all_items s) 11 = (if m_has_snapshot_id s then Some (AddUInt64 (m_snapshot_id s)) else None)"
  "map_of (all_items s) 12 = (if m_has_sequence s then Some (AddUInt64 (m_sequence s)) else None)"
  "map_of (all_items s) 13 = (if m_has_total s then Some (AddUInt64 (m_total s)) else None)"
  "map_of (all_items s) 14 = (if m_has_value_type s then Some (AddUInt64 (m_value_type s)) else None)"
  "map_of (all_items s) 15 = (if m_has_capability_flags s then Some (AddUInt64 (m_capability_flags s)) else None)"
  "map_of (all_items s) 16 = (if m_has_min_value s then Some (CBOR_INT (m_min_value s)) else None)"
  "map_of (all_items s) 17 = (if m_has_max_value s then Some (CBOR_INT (m_max_value s)) else None)"
  "map_of (all_items s) 18 = (if m_has_step s then Some (AddUInt64 (m_step s)) else None)"
  "map_of (all_items s) 19 = (if cstr (m_capability_label s) \<noteq> [] then Some (AddSZString (m_capability_label s)) else None)"
  "map_of (all_items s) 20 = (if cstr (m_capability_unit s) \<noteq> [] then Some (AddSZString (m_capability_unit s)) else None)"
  "map_of (all_items s) 21 = (if m_has_capability_revision s then Some (AddUInt64 (m_capability_revision s)) else None)"
  "map_of (all_items s) 22 = (if m_has_feature_id s then Some (AddSZString (m_feature_id s)) else None)"
  "map_of (all_items s) 23 = (if m_has_feature_type s then Some (AddUInt64 (m_feature_type s)) else None)"
  "map_of (all_items s) 24 = (if m_has_feature_schema_version s then Some (AddUInt64 (m_feature_schema_version s)) else None)"
  "map_of (all_items s) 25 = (if m_has_feature_flags s then Some (AddUInt64 (m_feature_flags s)) else None)"
  "map_of (all_items s) 26 = (if m_has_property_id s then Some (AddUInt64 (m_property_id s)) else None)"
  "map_of (all_items s) 27 = (if m_has_feature_value_bool s then Some (CBOR_BOOL (m_feature_value_bool s)) else None)"
  "map_of (all_items s) 28 = (if m_has_feature_value_int s then Some (CBOR_INT (m_feature_value_int s)) else None)"
  "map_of (all_items s) 29 = (if m_has_feature_tool s then Some (AddSZString (m_feature_tool s)) else None)"
  "map_of (all_items s) 30 = (if m_has_feature_total s then Some (AddUInt64 (m_feature_total s)) else None)"
  "map_of (all_items s) 31 = (if m_has_feature_decimals s then Some (AddUInt64 (m_feature_decimals s)) else None)"
  "map_of (all_items s) 32 = (if m_has_settings_supported s then Some (CBOR_UINT (if m_settings_supported s then 1 else 0)) else None)"
  "map_of (all_items s) 33 = (if m_has_settings_schema_revision s then Some (AddUInt64 (m_settings_schema_revision s)) else None)"
  "map_of (all_items s) 34 = (if m_has_setting_id s then Some (AddSZString (m_setting_id s)) else None)"
  "map_of (all_items s) 35 = (if cstr (m_capability_label s) \<noteq> [] then Some (AddSZString (m_capability_label s)) else None)"
  "map_of (all_items s) 36 = (if m_has_setting_group s then Some (AddSZString (m_feature_id s)) else None)"
  "map_of (all_items s) 37 = (if cstr (m_capability_unit s) \<noteq> [] then Some (AddSZString (m_capability_unit s)) else None)"
  "map_of (all_items s) 38 = (if m_has_setting_type s then Some (AddUInt64 (m_setting_type s)) else None)"
  "map_of (all_items s) 39 = (if m_has_setting_flags s then Some (AddUInt64 (m_setting_flags s)) else None)"
  "map_of (all_items s) 41 = (if m_has_settings_transaction_id s then Some (AddUInt64 (m_settings_transaction_id s)) else None)"
  "map_of (all_items s) 42 = (if m_has_settings_expected_revision s then Some (AddUInt64 (m_settings_expected_revision s)) else None)"
  "map_of (all_items s) 43 = (if m_has_settings_new_revision s then Some (AddUInt64 (m_settings_new_revision s)) else None)"
  "map_of (all_items s) 44 = (if m_has_settings_option_index s then Some (AddUInt64 (m_settings_option_index s)) else None)"
  "map_of (all_items s) 45 = (if m_has_settings_max_length s then Some (AddUInt64 (m_settings_max_length s)) else None)"
  "map_of (all_items s) 46 = (if m_has_settings_option_count s then Some (AddUInt64 (m_settings_option_count s)) else None)"
  "map_of (all_items s) 47 = (if m_has_settings_sequence s then Some (AddUInt64 (m_settings_sequence s)) else None)"
  "map_of (all_items s) 40 = (if m_has_setting_value s \<and> setting_value_item s \<noteq> None then setting_value_item s else None)"
  by (simp_all add: all_items_def header_items_def capability_items_def feature_items_def settings_items_def value_items_def
      del: map_of_append)

text \<open>Reading a field of a message filled in by optional stores.\<close>

lemma fill_if_hit:
  "m_request_id (fill_if b (\<lambda>m. m\<lparr>m_request_id := xm_request_id, m_has_request_id := True\<rparr>) m) = (if b then xm_request_id else m_request_id m)"
  "m_has_request_id (fill_if b (\<lambda>m. m\<lparr>m_request_id := xm_request_id, m_has_request_id := True\<rparr>) m) \<longleftrightarrow> b \<or> m_has_request_id m"
  "m_device_id (fill_if b (\<lambda>m. m\<lparr>m_device_id := xm_device_id, m_has_device_id := True\<rparr>) m) = (if b then xm_device_id else m_device_id m)"
  "m_has_device_id (fill_if b (\<lambda>m. m\<lparr>m_device_id := xm_device_id, m_has_device_id := True\<rparr>) m) \<longleftrightarrow> b \<or> m_has_device_id m"
  "m_snapshot_id (fill_if b (\<lambda>m. m\<lparr>m_snapshot_id := xm_snapshot_id, m_has_snapshot_id := True\<rparr>) m) = (if b then xm_snapshot_id else m_snapshot_id m)"
  "m_has_snapshot_id (fill_if b (\<lambda>m. m\<lparr>m_snapshot_id := xm_snapshot_id, m_has_snapshot_id := True\<rparr>) m) \<longleftrightarrow> b \<or> m_has_snapshot_id m"
  "m_sequence (fill_if b (\<lambda>m. m\<lparr>m_sequence := xm_sequence, m_has_sequence := True\<rparr>) m) = (if b then xm_sequence else m_sequence m)"
  "m_has_sequence (fill_if b (\<lambda>m. m\<lparr>m_sequence := xm_sequence, m_has_sequence := True\<rparr>) m) \<longleftrightarrow> b \<or> m_has_sequence m"
  "m_total (fill_if b (\<lambda>m. m\<lparr>m_total := xm_total, m_has_total := True\<rparr>) m) = (if b then xm_total else m_total m)"
  "m_has_total (fill_if b (\<lambda>m. m\<lparr>m_total := xm_total, m_has_total := True\<rparr>) m) \<longleftrightarrow> b \<or> m_has_total m"
  "m_value_type (fill_if b (\<lambda>m. m\<lparr>m_value_type := xm_value_type, m_has_value_type := True\<rparr>) m) = (if b then xm_value_type else m_value_type m)"
  "m_has_value_type (fill_if b (\<lambda>m. m\<lparr>m_value_type := xm_value_type, m_has_value_type := True\<rparr>) m) \<longleftrightarrow> b \<or> m_has_value_type m"
  "m_capability_flags (fill_if b (\<lambda>m. m\<lparr>m_capability_flags := xm_capability_flags, m_has_capability_flags := True\<rparr>) m) = (if b then xm_capability_flags else m_capability_flags m)"
  "m_has_capability_flags (fill_if b (\<lambda>m. m\<lparr>m_capability_flags := xm_capability_flags, m_has_capability_flags := True\<rparr>) m) \<longleftrightarrow> b \<or> m_has_capability_flags m"
  "m_min_value (fill_if b (\<lambda>m. m\<lparr>m_min_value := xm_min_value, m_has_min_value := True\<rparr>) m) = (if b then xm_min_value else m_min_value m)"
  "m_has_min_value (fill_if b (\<lambda>m. m\<lparr>m_min_value := xm_min_value, m_has_min_value := True\<rparr>) m) \<longleftrightarrow> b \<or> m_has_min_value m"
  "m_max_value (fill_if b (\<lambda>m. m\<lparr>m_max_value := xm_max_value, m_has_max_value := True\<rparr>) m) = (if b then xm_max_value else m_max_value m)"
  "m_has_max_value (fill_if b (\<lambda>m. m\<lparr>m_max_value := xm_max_value, m_has_max_value := True\<rparr>) m) \<longleftrightarrow> b \<or> m_has_max_value m"
  "m_step (fill_if b (\<lambda>m. m\<lparr>m_step := xm_step, m_has_step := True\<rparr>) m) = (if b then xm_step else m_step m)"
  "m_has_step (fill_if b (\<lambda>m. m\<lparr>m_step := xm_step, m_has_step := True\<rparr>) m) \<longleftrightarrow> b \<or> m_has_step m"
  "m_capability_revision (fill_if b (\<lambda>m. m\<lparr>m_capability_revision := xm_capability_revision, m_has_capability_revision := True\<rparr>) m) = (if b then xm_capability_revision else m_capability_revision m)"
  "m_has_capability_revision (fill_if b (\<lambda>m. m\<lparr>m_capability_revision := xm_capability_revision, m_has_capability_revision := True\<rparr>) m) \<longleftrightarrow> b \<or> m_has_capability_revision m"
  "m_feature_id (fill_if b (\<lambda>m. m\<lparr>m_feature_id := xm_feature_id, m_has_feature_id := True\<rparr>) m) = (if b then xm_feature_id else m_feature_id m)"
  "m_has_feature_id (fill_if b (\<lambda>m. m\<lparr>m_feature_id := xm_feature_id, m_has_feature_id := True\<rparr>) m) \<longleftrightarrow> b \<or> m_has_feature_id m"
  "m_feature_type (fill_if b (\<lambda>m. m\<lparr>m_feature_type := xm_feature_type, m_has_feature_type := True\<rparr>) m) = (if b then xm_feature_type else m_feature_type m)"
  "m_has_feature_type (fill_if b (\<lambda>m. m\<lparr>m_feature_type := xm_feature_type, m_has_feature_type := True\<rparr>) m) \<longleftrightarrow> b \<or> m_has_feature_type m"
  "m_feature_schema_version (fill_if b (\<lambda>m. m\<lparr>m_feature_schema_version := xm_feature_schema_version, m_has_feature_schema_version := True\<rparr>) m) = (if b then xm_feature_schema_version else m_feature_schema_version m)"
  "m_has_feature_schema_version (fill_if b (\<lambda>m. m\<lparr>m_feature_schema_version := xm_feature_schema_version, m_has_feature_schema_version := True\<rparr>) m) \<longleftrightarrow> b \<or> m_has_feature_schema_version m"
  "m_feature_flags (fill_if b (\<lambda>m. m\<lparr>m_feature_flags := xm_feature_flags, m_has_feature_flags := True\<rparr>) m) = (if b then xm_feature_flags else m_feature_flags m)"
  "m_has_feature_flags (fill_if b (\<lambda>m. m\<lparr>m_feature_flags := xm_feature_flags, m_has_feature_flags := True\<rparr>) m) \<longleftrightarrow> b \<or> m_has_feature_flags m"
  "m_property_id (fill_if b (\<lambda>m. m\<lparr>m_property_id := xm_property_id, m_has_property_id := True\<rparr>) m) = (if b then xm_property_id else m_property_id m)"
  "m_has_property_id (fill_if b (\<lambda>m. m\<lparr>m_property_id := xm_property_id, m_has_property_id := True\<rparr>) m) \<longleftrightarrow> b \<or> m_has_property_id m"
  "m_feature_value_bool (fill_if b (\<lambda>m. m\<lparr>m_feature_value_bool := xm_feature_value_bool, m_has_feature_value_bool := True\<rparr>) m) = (if b then xm_feature_value_bool else m_feature_value_bool m)"
  "m_has_feature_value_bool (fill_if b (\<lambda>m. m\<lparr>m_feature_value_bool := xm_feature_value_bool, m_has_feature_value_bool := True\<rparr>) m) \<longleftrightarrow> b \<or> m_has_feature_value_bool m"
  "m_feature_value_int (fill_if b (\<lambda>m. m\<lparr>m_feature_value_int := xm_feature_value_int, m_has_feature_value_int := True\<rparr>) m) = (if b then xm_feature_value_int else m_feature_value_int m)"
  "m_has_feature_value_int (fill_if b (\<lambda>m. m\<lparr>m_feature_value_int := xm_feature_value_int, m_has_feature_value_int := True\<rparr>) m) \<longleftrightarrow> b \<or> m_has_feature_value_int m"
  "m_feature_tool (fill_if b (\<lambda>m. m\<lparr>m_feature_tool := xm_feature_tool, m_has_feature_tool := True\<rparr>) m) = (if b then xm_feature_tool else m_feature_tool m)"
  "m_has_feature_tool (fill_if b (\<lambda>m. m\<lparr>m_feature_tool := xm_feature_tool, m_has_feature_tool := True\<rparr>) m) \<longleftrightarrow> b \<or> m_has_feature_tool m"
  "m_feature_total (fill_if b (\<lambda>m. m\<lparr>m_feature_total := xm_feature_total, m_has_feature_total := True\<rparr>) m) = (if b then xm_feature_total else m_feature_total m)"
  "m_has_feature_total (fill_if b (\<lambda>m. m\<lparr>m_feature_total := xm_feature_total, m_has_feature_total := True\<rparr>) m) \<longleftrightarrow> b \<or> m_has_feature_total m"
  "m_feature_decimals (fill_if b (\<lambda>m. m\<lparr>m_feature_decimals := xm_feature_decimals, m_has_feature_decimals := True\<rparr>) m) = (if b then xm_feature_decimals else m_feature_decimals m)"
  "m_has_feature_decimals (fill_if b (\<lambda>m. m\<lparr>m_feature_decimals := xm_feature_decimals, m_has_feature_decimals := True\<rparr>) m) \<longleftrightarrow> b \<or> m_has_feature_decimals m"
  "m_settings_supported (fill_if b (\<lambda>m. m\<lparr>m_settings_supported := xm_settings_supported, m_has_settings_supported := True\<rparr>) m) = (if b then xm_settings_supported else m_settings_supported m)"
  "m_has_settings_supported (fill_if b (\<lambda>m. m\<lparr>m_settings_supported := xm_settings_supported, m_has_settings_supported := True\<rparr>) m) \<longleftrightarrow> b \<or> m_has_settings_supported m"
  "m_settings_schema_revision (fill_if b (\<lambda>m. m\<lparr>m_settings_schema_revision := xm_settings_schema_revision, m_has_settings_schema_revision := True\<rparr>) m) = (if b then xm_settings_schema_revision else m_settings_schema_revision m)"
  "m_has_settings_schema_revision (fill_if b (\<lambda>m. m\<lparr>m_settings_schema_revision := xm_settings_schema_revision, m_has_settings_schema_revision := True\<rparr>) m) \<longleftrightarrow> b \<or> m_has_settings_schema_revision m"
  "m_setting_id (fill_if b (\<lambda>m. m\<lparr>m_setting_id := xm_setting_id, m_has_setting_id := True\<rparr>) m) = (if b then xm_setting_id else m_setting_id m)"
  "m_has_setting_id (fill_if b (\<lambda>m. m\<lparr>m_setting_id := xm_setting_id, m_has_setting_id := True\<rparr>) m) \<longleftrightarrow> b \<or> m_has_setting_id m"
  "m_setting_type (fill_if b (\<lambda>m. m\<lparr>m_setting_type := xm_setting_type, m_has_setting_type := True\<rparr>) m) = (if b then xm_setting_type else m_setting_type m)"
  "m_has_setting_type (fill_if b (\<lambda>m. m\<lparr>m_setting_type := xm_setting_type, m_has_setting_type := True\<rparr>) m) \<longleftrightarrow> b \<or> m_has_setting_type m"
  "m_setting_flags (fill_if b (\<lambda>m. m\<lparr>m_setting_flags := xm_setting_flags, m_has_setting_flags := True\<rparr>) m) = (if b then xm_setting_flags else m_setting_flags m)"
  "m_has_setting_flags (fill_if b (\<lambda>m. m\<lparr>m_setting_flags := xm_setting_flags, m_has_setting_flags := True\<rparr>) m) \<longleftrightarrow> b \<or> m_has_setting_flags m"
  "m_feature_id (fill_if b (\<lambda>m. m\<lparr>m_feature_id := xm_feature_id, m_has_setting_group := True\<rparr>) m) = (if b then xm_feature_id else m_feature_id m)"
  "m_has_setting_group (fill_if b (\<lambda>m. m\<lparr>m_feature_id := xm_feature_id, m_has_setting_group := True\<rparr>) m) \<longleftrightarrow> b \<or> m_has_setting_group m"
  "m_setting_value_bool (fill_if b (\<lambda>m. m\<lparr>m_setting_value_bool := xm_setting_value_bool, m_has_setting_value := True\<rparr>) m) = (if b then xm_setting_value_bool else m_setting_value_bool m)"
  "m_has_setting_value (fill_if b (\<lambda>m. m\<lparr>m_setting_value_bool := xm_setting_value_bool, m_has_setting_value := True\<rparr>) m) \<longleftrightarrow> b \<or> m_has_setting_value m"
  "m_setting_value_int (fill_if b (\<lambda>m. m\<lparr>m_setting_value_int := xm_setting_value_int, m_has_setting_value := True\<rparr>) m) = (if b then xm_setting_value_int else m_setting_value_int m)"
  "m_has_setting_value (fill_if b (\<lambda>m. m\<lparr>m_setting_value_int := xm_setting_value_int, m_has_setting_value := True\<rparr>) m) \<longleftrightarrow> b \<or> m_has_setting_value m"
  "m_setting_value_string (fill_if b (\<lambda>m. m\<lparr>m_setting_value_string := xm_setting_value_string, m_has_setting_value := True\<rparr>) m) = (if b then xm_setting_value_string else m_setting_value_string m)"
  "m_has_setting_value (fill_if b (\<lambda>m. m\<lparr>m_setting_value_string := xm_setting_value_string, m_has_setting_value := True\<rparr>) m) \<longleftrightarrow> b \<or> m_has_setting_value m"
  "m_setting_value_enum (fill_if b (\<lambda>m. m\<lparr>m_setting_value_enum := xm_setting_value_enum, m_has_setting_value := True\<rparr>) m) = (if b then xm_setting_value_enum else m_setting_value_enum m)"
  "m_has_setting_value (fill_if b (\<lambda>m. m\<lparr>m_setting_value_enum := xm_setting_value_enum, m_has_setting_value := True\<rparr>) m) \<longleftrightarrow> b \<or> m_has_setting_value m"
  "m_settings_transaction_id (fill_if b (\<lambda>m. m\<lparr>m_settings_transaction_id := xm_settings_transaction_id, m_has_settings_transaction_id := True\<rparr>) m) = (if b then xm_settings_transaction_id else m_settings_transaction_id m)"
  "m_has_settings_transaction_id (fill_if b (\<lambda>m. m\<lparr>m_settings_transaction_id := xm_settings_transaction_id, m_has_settings_transaction_id := True\<rparr>) m) \<longleftrightarrow> b \<or> m_has_settings_transaction_id m"
  "m_settings_expected_revision (fill_if b (\<lambda>m. m\<lparr>m_settings_expected_revision := xm_settings_expected_revision, m_has_settings_expected_revision := True\<rparr>) m) = (if b then xm_settings_expected_revision else m_settings_expected_revision m)"
  "m_has_settings_expected_revision (fill_if b (\<lambda>m. m\<lparr>m_settings_expected_revision := xm_settings_expected_revision, m_has_settings_expected_revision := True\<rparr>) m) \<longleftrightarrow> b \<or> m_has_settings_expected_revision m"
  "m_settings_new_revision (fill_if b (\<lambda>m. m\<lparr>m_settings_new_revision := xm_settings_new_revision, m_has_settings_new_revision := True\<rparr>) m) = (if b then xm_settings_new_revision else m_settings_new_revision m)"
  "m_has_settings_new_revision (fill_if b (\<lambda>m. m\<lparr>m_settings_new_revision := xm_settings_new_revision, m_has_settings_new_revision := True\<rparr>) m) \<longleftrightarrow> b \<or> m_has_settings_new_revision m"
  "m_settings_option_index (fill_if b (\<lambda>m. m\<lparr>m_settings_option_index := xm_settings_option_index, m_has_settings_option_index := True\<rparr>) m) = (if b then xm_settings_option_index else m_settings_option_index m)"
  "m_has_settings_option_index (fill_if b (\<lambda>m. m\<lparr>m_settings_option_index := xm_settings_option_index, m_has_settings_option_index := True\<rparr>) m) \<longleftrightarrow> b \<or> m_has_settings_option_index m"
  "m_settings_max_length (fill_if b (\<lambda>m. m\<lparr>m_settings_max_length := xm_settings_max_length, m_has_settings_max_length := True\<rparr>) m) = (if b then xm_settings_max_length else m_settings_max_length m)"
  "m_has_settings_max_length (fill_if b (\<lambda>m. m\<lparr>m_settings_max_length := xm_settings_max_length, m_has_settings_max_length := True\<rparr>) m) \<longleftrightarrow> b \<or> m_has_settings_max_length m"
  "m_settings_option_count (fill_if b (\<lambda>m. m\<lparr>m_settings_option_count := xm_settings_option_count, m_has_settings_option_count := True\<rparr>) m) = (if b then xm_settings_option_count else m_settings_option_count m)"
  "m_has_settings_option_count (fill_if b (\<lambda>m. m\<lparr>m_settings_option_count := xm_settings_option_count, m_has_settings_option_count := True\<rparr>) m) \<longleftrightarrow> b \<or> m_has_settings_option_count m"
  "m_settings_sequence (fill_if b (\<lambda>m. m\<lparr>m_settings_sequence := xm_settings_sequence, m_has_settings_sequence := True\<rparr>) m) = (if b then xm_settings_sequence else m_settings_sequence m)"
  "m_has_settings_sequence (fill_if b (\<lambda>m. m\<lparr>m_settings_sequence := xm_settings_sequence, m_has_settings_sequence := True\<rparr>) m) \<longleftrightarrow> b \<or> m_has_settings_sequence m"
  "m_name (fill_if b (\<lambda>m. m\<lparr>m_name := xm_name\<rparr>) m) = (if b then xm_name else m_name m)"
  "m_capability_label (fill_if b (\<lambda>m. m\<lparr>m_capability_label := xm_capability_label\<rparr>) m) = (if b then xm_capability_label else m_capability_label m)"
  "m_capability_unit (fill_if b (\<lambda>m. m\<lparr>m_capability_unit := xm_capability_unit\<rparr>) m) = (if b then xm_capability_unit else m_capability_unit m)"
  "m_ble_addr (fill_if b (\<lambda>m. m\<lparr>m_ble_addr := a, m_ble_addr_type := t, m_has_ble_addr := True\<rparr>) m) = (if b then a else m_ble_addr m)"
  "m_ble_addr_type (fill_if b (\<lambda>m. m\<lparr>m_ble_addr := a, m_ble_addr_type := t, m_has_ble_addr := True\<rparr>) m) = (if b then t else m_ble_addr_type m)"
  "m_has_ble_addr (fill_if b (\<lambda>m. m\<lparr>m_ble_addr := a, m_ble_addr_type := t, m_has_ble_addr := True\<rparr>) m) \<longleftrightarrow> b \<or> m_has_ble_addr m"
  by (simp_all add: fill_if_def)

lemma fill_if_other: "(\<And>m. g (f m) = g m) \<Longrightarrow> g (fill_if b f m) = g m"
  by (simp add: fill_if_def)

lemmas fill_if_frame =
  fill_if_other [where g = m_protocol_version] fill_if_other [where g = m_type] fill_if_other [where g = m_device_id]
  fill_if_other [where g = m_command] fill_if_other [where g = m_request_id]
  fill_if_other [where g = m_has_request_id] fill_if_other [where g = m_int_value]
  fill_if_other [where g = m_bool_value] fill_if_other [where g = m_has_int_value]
  fill_if_other [where g = m_has_bool_value] fill_if_other [where g = m_has_device_id]
  fill_if_other [where g = m_name] fill_if_other [where g = m_ble_addr] fill_if_other [where g = m_ble_addr_type]
  fill_if_other [where g = m_has_ble_addr] fill_if_other [where g = m_snapshot_id]
  fill_if_other [where g = m_has_snapshot_id] fill_if_other [where g = m_sequence]
  fill_if_other [where g = m_has_sequence] fill_if_other [where g = m_total] fill_if_other [where g = m_has_total]
  fill_if_other [where g = m_value_type] fill_if_other [where g = m_has_value_type]
  fill_if_other [where g = m_capability_flags] fill_if_other [where g = m_has_capability_flags]
  fill_if_other [where g = m_min_value] fill_if_other [where g = m_has_min_value]
  fill_if_other [where g = m_max_value] fill_if_other [where g = m_has_max_value] fill_if_other [where g = m_step]
  fill_if_other [where g = m_has_step] fill_if_other [where g = m_capability_label]
  fill_if_other [where g = m_capability_unit] fill_if_other [where g = m_capability_revision]
  fill_if_other [where g = m_has_capability_revision] fill_if_other [where g = m_feature_id]
  fill_if_other [where g = m_has_feature_id] fill_if_other [where g = m_feature_type]
  fill_if_other [where g = m_has_feature_type] fill_if_other [where g = m_feature_schema_version]
  fill_if_other [where g = m_has_feature_schema_version] fill_if_other [where g = m_feature_flags]
  fill_if_other [where g = m_has_feature_flags] fill_if_other [where g = m_property_id]
  fill_if_other [where g = m_has_property_id] fill_if_other [where g = m_feature_value_bool]
  fill_if_other [where g = m_has_feature_value_bool] fill_if_other [where g = m_feature_value_int]
  fill_if_other [where g = m_has_feature_value_int] fill_if_other [where g = m_feature_tool]
  fill_if_other [where g = m_has_feature_tool] fill_if_other [where g = m_feature_total]
  fill_if_other [where g = m_has_feature_total] fill_if_other [where g = m_feature_decimals]
  fill_if_other [where g = m_has_feature_decimals] fill_if_other [where g = m_settings_supported]
  fill_if_other [where g = m_has_settings_supported] fill_if_other [where g = m_settings_schema_revision]
  fill_if_other [where g = m_has_settings_schema_revision] fill_if_other [where g = m_setting_id]
  fill_if_other [where g = m_has_setting_id] fill_if_other [where g = m_has_setting_group]
  fill_if_other [where g = m_setting_type] fill_if_other [where g = m_has_setting_type]
  fill_if_other [where g = m_setting_flags] fill_if_other [where g = m_has_setting_flags]
  fill_if_other [where g = m_setting_value_bool] fill_if_other [where g = m_setting_value_int]
  fill_if_other [where g = m_setting_value_enum] fill_if_other [where g = m_setting_value_string]
  fill_if_other [where g = m_has_setting_value] fill_if_other [where g = m_settings_transaction_id]
  fill_if_other [where g = m_has_settings_transaction_id] fill_if_other [where g = m_settings_expected_revision]
  fill_if_other [where g = m_has_settings_expected_revision] fill_if_other [where g = m_settings_new_revision]
  fill_if_other [where g = m_has_settings_new_revision] fill_if_other [where g = m_settings_option_index]
  fill_if_other [where g = m_has_settings_option_index] fill_if_other [where g = m_settings_max_length]
  fill_if_other [where g = m_has_settings_max_length] fill_if_other [where g = m_settings_option_count]
  fill_if_other [where g = m_has_settings_option_count] fill_if_other [where g = m_settings_sequence]
  fill_if_other [where g = m_has_settings_sequence]

lemma distinct_add_if:
  "distinct (map fst (add_if b k v @ rest)) \<longleftrightarrow> (b \<longrightarrow> map_of rest k = None) \<and> distinct (map fst rest)"
  "distinct (map fst (add_if b k v))"
  by (auto simp: add_if_def map_of_eq_None_iff)

lemma distinct_items: "distinct (map fst (all_items s))"
  by (simp add: all_items_def header_items_def capability_items_def feature_items_def settings_items_def value_items_def
      distinct_add_if del: map_of_append map_append)

section \<open>Decoding what was encoded\<close>

text \<open>The frame answers each lookup from the items.\<close>

definition answers :: "qcbor \<Rightarrow> frame \<Rightarrow> (nat \<times> cbor_item) list \<Rightarrow> bool" where
  "answers Q buf items \<longleftrightarrow>
     (\<forall>k. qc_get_uint Q buf k = as_uint (map_of items k) \<and> qc_get_int Q buf k = as_int (map_of items k) \<and>
          qc_get_text Q buf k = as_text (map_of items k) \<and> qc_get_bytes Q buf k = as_bytes (map_of items k) \<and>
          qc_get_bool Q buf k = as_bool (map_of items k))"

context qcbor_contract begin

lemma encoded_answers:
  "\<lbrakk>qc_encode Q items cap = Some buf; distinct (map fst items); int64_items items\<rbrakk> \<Longrightarrow> answers Q buf items"
  by (simp add: answers_def get_uint get_int get_text get_bytes get_bool)

end

lemma ucast_ucast_id [simp]: "LENGTH('a::len) \<le> 64 \<Longrightarrow> ucast (ucast (v :: 'a word) :: u64) = v"
  by (simp add: unsigned_ucast_eq take_bit_word_eq_self)

lemma LENGTH_le_64: "LENGTH(8) \<le> 64" "LENGTH(16) \<le> 64" "LENGTH(32) \<le> 64"
  by simp_all

lemma ucast_limits:
  "\<not> (255 :: u64) < ucast (a :: u8)" "\<not> (65535 :: u64) < ucast (b :: u16)" "\<not> (4294967295 :: u64) < ucast (c :: u32)"
proof -
  have "unat a < 256" "unat b < 65536" "unat c < 4294967296"
    using unsigned_less [of a, where ?'a = nat] unsigned_less [of b, where ?'a = nat] unsigned_less [of c, where ?'a = nat]
    by simp_all
  then show "\<not> (255 :: u64) < ucast a" "\<not> (65535 :: u64) < ucast b" "\<not> (4294967295 :: u64) < ucast c"
    unfolding word_less_nat_alt by (simp_all add: not_less)
qed

lemma ucast_zero: "ucast (c :: u32) = (0 :: u64) \<longleftrightarrow> c = 0"
  by (metis LENGTH_le_64 ucast_ucast_id unsigned_0)

lemma up_to_ucast [simp]:
  "up_to UINT8_MAX (ucast (a :: u8)) = Some a" "up_to UINT16_MAX (ucast (b :: u16)) = Some b"
  "up_to UINT32_MAX (ucast (c :: u32)) = Some c"
  "nonzero_up_to UINT32_MAX (ucast c) = (if c = 0 then None else Some c)"
  by (simp_all only: up_to_def nonzero_up_to_def ucast_limits ucast_zero if_False simp_thms ucast_ucast_id LENGTH_le_64)

lemma answer_simps:
  assumes "answers Q buf items"
  shows "opt_item (qc_get_uint Q buf k) c f m = (case map_of items k of None \<Rightarrow> Some m | Some i \<Rightarrow> opt_item (as_uint (Some i)) c f m)"
    and "opt_item (qc_get_int Q buf k) ci fi m = (case map_of items k of None \<Rightarrow> Some m | Some i \<Rightarrow> opt_item (as_int (Some i)) ci fi m)"
    and "opt_item (qc_get_text Q buf k) ct ft m = (case map_of items k of None \<Rightarrow> Some m | Some i \<Rightarrow> opt_item (as_text (Some i)) ct ft m)"
    and "opt_item (qc_get_bool Q buf k) cb fb m = (case map_of items k of None \<Rightarrow> Some m | Some i \<Rightarrow> opt_item (as_bool (Some i)) cb fb m)"
  using assms by (auto simp: answers_def opt_item_def as_uint_def as_int_def as_text_def as_bool_def split: option.splits)

lemma opt_item_kinds:
  "opt_item (as_uint (Some (CBOR_UINT u))) c f m = (case c u of Some x \<Rightarrow> Some (f x m) | None \<Rightarrow> None)"
  "opt_item (as_int (Some (CBOR_INT n))) ci fi m = (case ci n of Some x \<Rightarrow> Some (fi x m) | None \<Rightarrow> None)"
  "opt_item (as_text (Some (CBOR_TEXT t))) ct ft m = (case ct t of Some x \<Rightarrow> Some (ft x m) | None \<Rightarrow> None)"
  "opt_item (as_bool (Some (CBOR_BOOL b))) cb fb m = (case cb b of Some x \<Rightarrow> Some (fb x m) | None \<Rightarrow> None)"
  by (simp_all add: opt_item_def as_uint_def as_int_def as_text_def as_bool_def)

lemma answer_if:
  "(case (if b then Some i else None) of None \<Rightarrow> Some m | Some i \<Rightarrow> opt_item r c f m) = (if b then opt_item r c f m else Some m)"
  by simp

lemma fill_some: "(b \<Longrightarrow> x = Some (f m)) \<Longrightarrow> (if b then x else Some m) = Some (fill_if b f m)"
  by (simp add: fill_if_def)

text \<open>
  The messages the device can get back as they were: those the encoder accepts whose announced values
  the decoder accepts too.
\<close>

definition transmittable :: "gw_message \<Rightarrow> bool" where
  "transmittable s \<longleftrightarrow>
     encodable s \<and> INT32_MIN \<le> m_int_value s \<and> m_int_value s \<le> INT32_MAX \<and>
     INT32_MIN \<le> m_min_value s \<and> m_min_value s \<le> INT32_MAX \<and> INT32_MIN \<le> m_max_value s \<and> m_max_value s \<le> INT32_MAX \<and>
     INT32_MIN \<le> m_feature_value_int s \<and> m_feature_value_int s \<le> INT32_MAX \<and>
     INT32_MIN \<le> m_setting_value_int s \<and> m_setting_value_int s \<le> INT32_MAX \<and>
     (m_has_request_id s \<longrightarrow> m_request_id s \<noteq> 0) \<and> (m_has_snapshot_id s \<longrightarrow> m_snapshot_id s \<noteq> 0) \<and>
     (m_has_feature_id s \<longrightarrow> cstr (m_feature_id s) \<noteq> []) \<and>
     (m_has_setting_id s \<longrightarrow> valid_string (m_setting_id s) GW_SETTINGS_CBOR_MAX_ID_LEN False) \<and>
     (m_has_ble_addr s \<longrightarrow> length (m_ble_addr s) = 6) \<and>
     (m_has_setting_type s \<longrightarrow> m_setting_type s \<le> GW_SETTING_TYPE_ENUM) \<and>
     (m_has_setting_value s \<longrightarrow> m_has_setting_type s \<and> setting_value_item s \<noteq> None \<and>
        valid_string (m_setting_value_string s) GW_SETTINGS_VALUE_MAX_LEN True)"

lemma cstr_cstr [simp]: "cstr (cstr s) = cstr s"
  by (simp add: cstr_def takeWhile_idem)

lemma text_of_valid: "valid_string t n e \<Longrightarrow> text_of n e (cstr t) = Some (cstr t)"
  by (auto simp: text_of_def copy_text_def valid_string_def strnlen_def Let_def)

lemma text_of_valid_ne: "valid_string t n True \<Longrightarrow> cstr t \<noteq> [] \<Longrightarrow> text_of n False (cstr t) = Some (cstr t)"
  by (auto simp: text_of_def copy_text_def valid_string_def strnlen_def Let_def)

lemma up_to_type: "(t :: u8) \<le> GW_SETTING_TYPE_ENUM \<Longrightarrow> up_to 5 (ucast t) = Some t"
  by (simp add: up_to_def word_less_nat_alt word_le_nat_alt not_less)

lemma int32_of_range: "INT32_MIN \<le> n \<Longrightarrow> n \<le> INT32_MAX \<Longrightarrow> int32_of n = Some n"
  by (simp add: int32_of_def)

lemma opt_fields:
  assumes "answers Q buf (all_items s)" "transmittable s"
  shows
  "\<And>f m. opt_item (qc_get_uint Q buf 10) (nonzero_up_to UINT32_MAX) f m = Some (fill_if (m_has_request_id s) (f (m_request_id s)) m)"
  "\<And>f m. opt_item (qc_get_text Q buf 2) (text_of GW_MSG_DEVICE_ID_LEN False) f m = Some (fill_if (m_has_device_id s) (f (cstr (m_device_id s))) m)"
  "\<And>f m. opt_item (qc_get_text Q buf 6) (text_of GW_MSG_NAME_LEN True) f m = Some (fill_if (cstr (m_name s) \<noteq> []) (f (cstr (m_name s))) m)"
  "\<And>f m. opt_item (qc_get_uint Q buf 11) (nonzero_up_to UINT32_MAX) f m = Some (fill_if (m_has_snapshot_id s) (f (m_snapshot_id s)) m)"
  "\<And>f m. opt_item (qc_get_uint Q buf 12) (up_to UINT16_MAX) f m = Some (fill_if (m_has_sequence s) (f (m_sequence s)) m)"
  "\<And>f m. opt_item (qc_get_uint Q buf 13) (up_to UINT16_MAX) f m = Some (fill_if (m_has_total s) (f (m_total s)) m)"
  "\<And>f m. opt_item (qc_get_uint Q buf 14) (up_to UINT8_MAX) f m = Some (fill_if (m_has_value_type s) (f (m_value_type s)) m)"
  "\<And>f m. opt_item (qc_get_uint Q buf 15) (up_to UINT8_MAX) f m = Some (fill_if (m_has_capability_flags s) (f (m_capability_flags s)) m)"
  "\<And>f m. opt_item (qc_get_int Q buf 16) int32_of f m = Some (fill_if (m_has_min_value s) (f (m_min_value s)) m)"
  "\<And>f m. opt_item (qc_get_int Q buf 17) int32_of f m = Some (fill_if (m_has_max_value s) (f (m_max_value s)) m)"
  "\<And>f m. opt_item (qc_get_uint Q buf 18) (up_to UINT32_MAX) f m = Some (fill_if (m_has_step s) (f (m_step s)) m)"
  "\<And>f m. opt_item (qc_get_text Q buf 19) (text_of GW_MSG_CAP_LABEL_LEN True) f m = Some (fill_if (cstr (m_capability_label s) \<noteq> []) (f (cstr (m_capability_label s))) m)"
  "\<And>f m. opt_item (qc_get_text Q buf 20) (text_of GW_MSG_CAP_UNIT_LEN True) f m = Some (fill_if (cstr (m_capability_unit s) \<noteq> []) (f (cstr (m_capability_unit s))) m)"
  "\<And>f m. opt_item (qc_get_uint Q buf 21) (up_to UINT32_MAX) f m = Some (fill_if (m_has_capability_revision s) (f (m_capability_revision s)) m)"
  "\<And>f m. opt_item (qc_get_text Q buf 22) (text_of GW_FEATURE_ID_LEN False) f m = Some (fill_if (m_has_feature_id s) (f (cstr (m_feature_id s))) m)"
  "\<And>f m. opt_item (qc_get_uint Q buf 23) (up_to UINT8_MAX) f m = Some (fill_if (m_has_feature_type s) (f (m_feature_type s)) m)"
  "\<And>f m. opt_item (qc_get_uint Q buf 24) (up_to UINT16_MAX) f m = Some (fill_if (m_has_feature_schema_version s) (f (m_feature_schema_version s)) m)"
  "\<And>f m. opt_item (qc_get_uint Q buf 25) (up_to UINT16_MAX) f m = Some (fill_if (m_has_feature_flags s) (f (m_feature_flags s)) m)"
  "\<And>f m. opt_item (qc_get_uint Q buf 26) (up_to UINT8_MAX) f m = Some (fill_if (m_has_property_id s) (f (m_property_id s)) m)"
  "\<And>f m. opt_item (qc_get_bool Q buf 27) Some f m = Some (fill_if (m_has_feature_value_bool s) (f (m_feature_value_bool s)) m)"
  "\<And>f m. opt_item (qc_get_int Q buf 28) int32_of f m = Some (fill_if (m_has_feature_value_int s) (f (m_feature_value_int s)) m)"
  "\<And>f m. opt_item (qc_get_text Q buf 29) (text_of GW_MSG_COMMAND_LEN True) f m = Some (fill_if (m_has_feature_tool s) (f (cstr (m_feature_tool s))) m)"
  "\<And>f m. opt_item (qc_get_uint Q buf 30) (up_to UINT16_MAX) f m = Some (fill_if (m_has_feature_total s) (f (m_feature_total s)) m)"
  "\<And>f m. opt_item (qc_get_uint Q buf 31) (up_to UINT8_MAX) f m = Some (fill_if (m_has_feature_decimals s) (f (m_feature_decimals s)) m)"
  "\<And>f m. opt_item (qc_get_uint Q buf 33) (up_to UINT16_MAX) f m = Some (fill_if (m_has_settings_schema_revision s) (f (m_settings_schema_revision s)) m)"
  "\<And>f m. opt_item (qc_get_text Q buf 34) (text_of GW_SETTINGS_CBOR_MAX_ID_LEN False) f m = Some (fill_if (m_has_setting_id s) (f (cstr (m_setting_id s))) m)"
  "\<And>f m. opt_item (qc_get_text Q buf 35) (text_of GW_MSG_CAP_LABEL_LEN True) f m = Some (fill_if (cstr (m_capability_label s) \<noteq> []) (f (cstr (m_capability_label s))) m)"
  "\<And>f m. opt_item (qc_get_text Q buf 36) (text_of GW_FEATURE_ID_LEN True) f m = Some (fill_if (m_has_setting_group s) (f (cstr (m_feature_id s))) m)"
  "\<And>f m. opt_item (qc_get_text Q buf 37) (text_of GW_MSG_CAP_UNIT_LEN True) f m = Some (fill_if (cstr (m_capability_unit s) \<noteq> []) (f (cstr (m_capability_unit s))) m)"
  "\<And>f m. opt_item (qc_get_uint Q buf 38) (up_to 5) f m = Some (fill_if (m_has_setting_type s) (f (m_setting_type s)) m)"
  "\<And>f m. opt_item (qc_get_uint Q buf 39) (up_to UINT16_MAX) f m = Some (fill_if (m_has_setting_flags s) (f (m_setting_flags s)) m)"
  "\<And>f m. opt_item (qc_get_uint Q buf 41) Some f m = Some (fill_if (m_has_settings_transaction_id s) (f (m_settings_transaction_id s)) m)"
  "\<And>f m. opt_item (qc_get_uint Q buf 42) (up_to UINT32_MAX) f m = Some (fill_if (m_has_settings_expected_revision s) (f (m_settings_expected_revision s)) m)"
  "\<And>f m. opt_item (qc_get_uint Q buf 43) (up_to UINT32_MAX) f m = Some (fill_if (m_has_settings_new_revision s) (f (m_settings_new_revision s)) m)"
  "\<And>f m. opt_item (qc_get_uint Q buf 44) (up_to UINT8_MAX) f m = Some (fill_if (m_has_settings_option_index s) (f (m_settings_option_index s)) m)"
  "\<And>f m. opt_item (qc_get_uint Q buf 45) (up_to UINT16_MAX) f m = Some (fill_if (m_has_settings_max_length s) (f (m_settings_max_length s)) m)"
  "\<And>f m. opt_item (qc_get_uint Q buf 46) (up_to UINT16_MAX) f m = Some (fill_if (m_has_settings_option_count s) (f (m_settings_option_count s)) m)"
  "\<And>f m. opt_item (qc_get_uint Q buf 47) (up_to UINT16_MAX) f m = Some (fill_if (m_has_settings_sequence s) (f (m_settings_sequence s)) m)"
proof -
  note t = assms(2) [unfolded transmittable_def encodable_def]
  note a = answer_simps [OF assms(1)] map_of_items opt_item_kinds fill_if_def
  from t show
  "\<And>f m. opt_item (qc_get_uint Q buf 10) (nonzero_up_to UINT32_MAX) f m = Some (fill_if (m_has_request_id s) (f (m_request_id s)) m)"
  "\<And>f m. opt_item (qc_get_text Q buf 2) (text_of GW_MSG_DEVICE_ID_LEN False) f m = Some (fill_if (m_has_device_id s) (f (cstr (m_device_id s))) m)"
  "\<And>f m. opt_item (qc_get_text Q buf 6) (text_of GW_MSG_NAME_LEN True) f m = Some (fill_if (cstr (m_name s) \<noteq> []) (f (cstr (m_name s))) m)"
  "\<And>f m. opt_item (qc_get_uint Q buf 11) (nonzero_up_to UINT32_MAX) f m = Some (fill_if (m_has_snapshot_id s) (f (m_snapshot_id s)) m)"
  "\<And>f m. opt_item (qc_get_uint Q buf 12) (up_to UINT16_MAX) f m = Some (fill_if (m_has_sequence s) (f (m_sequence s)) m)"
  "\<And>f m. opt_item (qc_get_uint Q buf 13) (up_to UINT16_MAX) f m = Some (fill_if (m_has_total s) (f (m_total s)) m)"
  "\<And>f m. opt_item (qc_get_uint Q buf 14) (up_to UINT8_MAX) f m = Some (fill_if (m_has_value_type s) (f (m_value_type s)) m)"
  "\<And>f m. opt_item (qc_get_uint Q buf 15) (up_to UINT8_MAX) f m = Some (fill_if (m_has_capability_flags s) (f (m_capability_flags s)) m)"
  "\<And>f m. opt_item (qc_get_int Q buf 16) int32_of f m = Some (fill_if (m_has_min_value s) (f (m_min_value s)) m)"
  "\<And>f m. opt_item (qc_get_int Q buf 17) int32_of f m = Some (fill_if (m_has_max_value s) (f (m_max_value s)) m)"
  "\<And>f m. opt_item (qc_get_uint Q buf 18) (up_to UINT32_MAX) f m = Some (fill_if (m_has_step s) (f (m_step s)) m)"
  "\<And>f m. opt_item (qc_get_text Q buf 19) (text_of GW_MSG_CAP_LABEL_LEN True) f m = Some (fill_if (cstr (m_capability_label s) \<noteq> []) (f (cstr (m_capability_label s))) m)"
  "\<And>f m. opt_item (qc_get_text Q buf 20) (text_of GW_MSG_CAP_UNIT_LEN True) f m = Some (fill_if (cstr (m_capability_unit s) \<noteq> []) (f (cstr (m_capability_unit s))) m)"
  "\<And>f m. opt_item (qc_get_uint Q buf 21) (up_to UINT32_MAX) f m = Some (fill_if (m_has_capability_revision s) (f (m_capability_revision s)) m)"
  "\<And>f m. opt_item (qc_get_text Q buf 22) (text_of GW_FEATURE_ID_LEN False) f m = Some (fill_if (m_has_feature_id s) (f (cstr (m_feature_id s))) m)"
  "\<And>f m. opt_item (qc_get_uint Q buf 23) (up_to UINT8_MAX) f m = Some (fill_if (m_has_feature_type s) (f (m_feature_type s)) m)"
  "\<And>f m. opt_item (qc_get_uint Q buf 24) (up_to UINT16_MAX) f m = Some (fill_if (m_has_feature_schema_version s) (f (m_feature_schema_version s)) m)"
  "\<And>f m. opt_item (qc_get_uint Q buf 25) (up_to UINT16_MAX) f m = Some (fill_if (m_has_feature_flags s) (f (m_feature_flags s)) m)"
  "\<And>f m. opt_item (qc_get_uint Q buf 26) (up_to UINT8_MAX) f m = Some (fill_if (m_has_property_id s) (f (m_property_id s)) m)"
  "\<And>f m. opt_item (qc_get_bool Q buf 27) Some f m = Some (fill_if (m_has_feature_value_bool s) (f (m_feature_value_bool s)) m)"
  "\<And>f m. opt_item (qc_get_int Q buf 28) int32_of f m = Some (fill_if (m_has_feature_value_int s) (f (m_feature_value_int s)) m)"
  "\<And>f m. opt_item (qc_get_text Q buf 29) (text_of GW_MSG_COMMAND_LEN True) f m = Some (fill_if (m_has_feature_tool s) (f (cstr (m_feature_tool s))) m)"
  "\<And>f m. opt_item (qc_get_uint Q buf 30) (up_to UINT16_MAX) f m = Some (fill_if (m_has_feature_total s) (f (m_feature_total s)) m)"
  "\<And>f m. opt_item (qc_get_uint Q buf 31) (up_to UINT8_MAX) f m = Some (fill_if (m_has_feature_decimals s) (f (m_feature_decimals s)) m)"
  "\<And>f m. opt_item (qc_get_uint Q buf 33) (up_to UINT16_MAX) f m = Some (fill_if (m_has_settings_schema_revision s) (f (m_settings_schema_revision s)) m)"
  "\<And>f m. opt_item (qc_get_text Q buf 34) (text_of GW_SETTINGS_CBOR_MAX_ID_LEN False) f m = Some (fill_if (m_has_setting_id s) (f (cstr (m_setting_id s))) m)"
  "\<And>f m. opt_item (qc_get_text Q buf 35) (text_of GW_MSG_CAP_LABEL_LEN True) f m = Some (fill_if (cstr (m_capability_label s) \<noteq> []) (f (cstr (m_capability_label s))) m)"
  "\<And>f m. opt_item (qc_get_text Q buf 36) (text_of GW_FEATURE_ID_LEN True) f m = Some (fill_if (m_has_setting_group s) (f (cstr (m_feature_id s))) m)"
  "\<And>f m. opt_item (qc_get_text Q buf 37) (text_of GW_MSG_CAP_UNIT_LEN True) f m = Some (fill_if (cstr (m_capability_unit s) \<noteq> []) (f (cstr (m_capability_unit s))) m)"
  "\<And>f m. opt_item (qc_get_uint Q buf 38) (up_to 5) f m = Some (fill_if (m_has_setting_type s) (f (m_setting_type s)) m)"
  "\<And>f m. opt_item (qc_get_uint Q buf 39) (up_to UINT16_MAX) f m = Some (fill_if (m_has_setting_flags s) (f (m_setting_flags s)) m)"
  "\<And>f m. opt_item (qc_get_uint Q buf 41) Some f m = Some (fill_if (m_has_settings_transaction_id s) (f (m_settings_transaction_id s)) m)"
  "\<And>f m. opt_item (qc_get_uint Q buf 42) (up_to UINT32_MAX) f m = Some (fill_if (m_has_settings_expected_revision s) (f (m_settings_expected_revision s)) m)"
  "\<And>f m. opt_item (qc_get_uint Q buf 43) (up_to UINT32_MAX) f m = Some (fill_if (m_has_settings_new_revision s) (f (m_settings_new_revision s)) m)"
  "\<And>f m. opt_item (qc_get_uint Q buf 44) (up_to UINT8_MAX) f m = Some (fill_if (m_has_settings_option_index s) (f (m_settings_option_index s)) m)"
  "\<And>f m. opt_item (qc_get_uint Q buf 45) (up_to UINT16_MAX) f m = Some (fill_if (m_has_settings_max_length s) (f (m_settings_max_length s)) m)"
  "\<And>f m. opt_item (qc_get_uint Q buf 46) (up_to UINT16_MAX) f m = Some (fill_if (m_has_settings_option_count s) (f (m_settings_option_count s)) m)"
  "\<And>f m. opt_item (qc_get_uint Q buf 47) (up_to UINT16_MAX) f m = Some (fill_if (m_has_settings_sequence s) (f (m_settings_sequence s)) m)"
    by (simp_all add: a text_of_valid text_of_valid_ne up_to_type int32_of_range)
qed

lemma opt_flag:
  assumes "answers Q buf (all_items s)"
  shows "opt_item (qc_get_uint Q buf 32) (\<lambda>v. if v > 1 then None else Some (v \<noteq> 0)) f m =
    Some (fill_if (m_has_settings_supported s) (f (m_settings_supported s)) m)"
  by (simp add: answer_simps [OF assms] map_of_items opt_item_kinds fill_if_def)

lemma need_fields:
  assumes "answers Q buf (all_items s)" "transmittable s"
  shows "need_item (qc_get_uint Q buf 0) (\<lambda>v. if v \<noteq> 4 then None else Some v) = Some 4"
    and "need_item (qc_get_text Q buf 1) (text_of GW_MSG_TYPE_LEN False) = Some (cstr (m_type s))"
    and "need_item (qc_get_text Q buf 3) (text_of GW_MSG_COMMAND_LEN False) = Some (cstr (m_command s))"
    and "need_item (qc_get_int Q buf 4) int32_of = Some (m_int_value s)"
    and "need_item (qc_get_bool Q buf 5) Some = Some (m_bool_value s \<noteq> 0)"
    and "decode_ble_addr Q buf m = Some (fill_if (m_has_ble_addr s)
           (\<lambda>m. m\<lparr>m_ble_addr := m_ble_addr s, m_ble_addr_type := m_ble_addr_type s, m_has_ble_addr := True\<rparr>) m)"
proof -
  note t = assms(2) [unfolded transmittable_def encodable_def]
  have a: "qc_get_uint Q buf k = as_uint (map_of (all_items s) k)" "qc_get_int Q buf k = as_int (map_of (all_items s) k)"
    "qc_get_text Q buf k = as_text (map_of (all_items s) k)" "qc_get_bool Q buf k = as_bool (map_of (all_items s) k)"
    "qc_get_bytes Q buf k = as_bytes (map_of (all_items s) k)" for k
    using assms(1) by (simp_all add: answers_def)
  note d = a map_of_items need_item_def as_uint_def as_text_def as_int_def as_bool_def as_bytes_def
  from t show "need_item (qc_get_uint Q buf 0) (\<lambda>v. if v \<noteq> 4 then None else Some v) = Some 4"
    "need_item (qc_get_text Q buf 1) (text_of GW_MSG_TYPE_LEN False) = Some (cstr (m_type s))"
    "need_item (qc_get_text Q buf 3) (text_of GW_MSG_COMMAND_LEN False) = Some (cstr (m_command s))"
    "need_item (qc_get_int Q buf 4) int32_of = Some (m_int_value s)"
    "need_item (qc_get_bool Q buf 5) Some = Some (m_bool_value s \<noteq> 0)"
    by (simp_all add: d text_of_valid int32_of_range del: One_nat_def)
  from t show "decode_ble_addr Q buf m = Some (fill_if (m_has_ble_addr s)
           (\<lambda>m. m\<lparr>m_ble_addr := m_ble_addr s, m_ble_addr_type := m_ble_addr_type s, m_has_ble_addr := True\<rparr>) m)"
    by (simp add: d decode_ble_addr_def fill_if_def ucast_limits)
qed

text \<open>The store of the value of a setting, by its type.\<close>

definition store_setting :: "gw_message \<Rightarrow> gw_message \<Rightarrow> gw_message" where
  "store_setting s m =
     m\<lparr>m_setting_value_bool := (if m_setting_type s = GW_SETTING_TYPE_BOOL then m_setting_value_bool s else m_setting_value_bool m),
       m_setting_value_int := (if m_setting_type s = GW_SETTING_TYPE_INT then m_setting_value_int s else m_setting_value_int m),
       m_setting_value_string := (if m_setting_type s = GW_SETTING_TYPE_STRING
         then cstr (m_setting_value_string s) else m_setting_value_string m),
       m_setting_value_enum := (if m_setting_type s = GW_SETTING_TYPE_ENUM then m_setting_value_enum s else m_setting_value_enum m),
       m_has_setting_value := True\<rparr>"

lemma store_setting_hit:
  "m_has_setting_value (fill_if b (store_setting s) m) \<longleftrightarrow> b \<or> m_has_setting_value m"
  "m_setting_value_bool (fill_if b (store_setting s) m) =
     (if b \<and> m_setting_type s = GW_SETTING_TYPE_BOOL then m_setting_value_bool s else m_setting_value_bool m)"
  "m_setting_value_int (fill_if b (store_setting s) m) =
     (if b \<and> m_setting_type s = GW_SETTING_TYPE_INT then m_setting_value_int s else m_setting_value_int m)"
  "m_setting_value_string (fill_if b (store_setting s) m) =
     (if b \<and> m_setting_type s = GW_SETTING_TYPE_STRING then cstr (m_setting_value_string s) else m_setting_value_string m)"
  "m_setting_value_enum (fill_if b (store_setting s) m) =
     (if b \<and> m_setting_type s = GW_SETTING_TYPE_ENUM then m_setting_value_enum s else m_setting_value_enum m)"
  by (simp_all add: fill_if_def store_setting_def)

lemma decode_setting_value_eq:
  assumes "answers Q buf (all_items s)" "transmittable s"
    and "m_has_setting_type m = m_has_setting_type s" "m_has_setting_type s \<Longrightarrow> m_setting_type m = m_setting_type s"
  shows "decode_setting_value Q buf m = Some (fill_if (m_has_setting_value s) (store_setting s) m)"
proof -
  note t = assms(2) [unfolded transmittable_def]
  show ?thesis
  proof (cases "m_has_setting_value s")
    case False
    then show ?thesis
      by (simp add: decode_setting_value_def answer_simps [OF assms(1)] map_of_items fill_if_def)
  next
    case True
    then have ty: "m_has_setting_type m" "m_setting_type m = m_setting_type s" "setting_value_item s \<noteq> None"
      using t assms(3,4) by auto
    then consider "m_setting_type s = GW_SETTING_TYPE_BOOL" | "m_setting_type s = GW_SETTING_TYPE_INT"
      | "m_setting_type s = GW_SETTING_TYPE_STRING" | "m_setting_type s = GW_SETTING_TYPE_ENUM"
      by (auto simp: setting_value_item_def split: if_splits)
    then show ?thesis
      using True ty t
      by cases (simp_all add: decode_setting_value_def answer_simps [OF assms(1)] map_of_items opt_item_kinds
          setting_value_item_def store_setting_def fill_if_def int32_of_range text_of_valid)
  qed
qed

section \<open>The round trip\<close>

text \<open>
  \<open>carries s r\<close>: what \<open>r\<close> announces is what \<open>s\<close> announces, with the same values, and the texts are the
  same C strings. Fields that are not announced are not compared.
\<close>

definition carries_header :: "gw_message \<Rightarrow> gw_message \<Rightarrow> bool" where
  "carries_header s r \<longleftrightarrow>
     m_protocol_version r = m_protocol_version s \<and> m_type r = cstr (m_type s) \<and> m_command r = cstr (m_command s) \<and>
     m_name r = cstr (m_name s) \<and> m_has_int_value r \<and> m_int_value r = m_int_value s \<and>
     m_has_bool_value r \<and> m_bool_value r = (if m_bool_value s \<noteq> 0 then 1 else 0) \<and>
     (m_has_device_id r = m_has_device_id s) \<and> (m_has_device_id s \<longrightarrow> m_device_id r = cstr (m_device_id s)) \<and>
     (m_has_request_id r = m_has_request_id s) \<and> (m_has_request_id s \<longrightarrow> m_request_id r = m_request_id s) \<and>
     (m_has_ble_addr r = m_has_ble_addr s) \<and>
     (m_has_ble_addr s \<longrightarrow> m_ble_addr r = m_ble_addr s \<and> m_ble_addr_type r = m_ble_addr_type s)"

definition carries_capability :: "gw_message \<Rightarrow> gw_message \<Rightarrow> bool" where
  "carries_capability s r \<longleftrightarrow>
     m_capability_label r = cstr (m_capability_label s) \<and> m_capability_unit r = cstr (m_capability_unit s) \<and>
     (m_has_snapshot_id r = m_has_snapshot_id s) \<and> (m_has_snapshot_id s \<longrightarrow> m_snapshot_id r = m_snapshot_id s) \<and>
     (m_has_sequence r = m_has_sequence s) \<and> (m_has_sequence s \<longrightarrow> m_sequence r = m_sequence s) \<and>
     (m_has_total r = m_has_total s) \<and> (m_has_total s \<longrightarrow> m_total r = m_total s) \<and>
     (m_has_value_type r = m_has_value_type s) \<and> (m_has_value_type s \<longrightarrow> m_value_type r = m_value_type s) \<and>
     (m_has_capability_flags r = m_has_capability_flags s) \<and> (m_has_capability_flags s \<longrightarrow> m_capability_flags r = m_capability_flags s) \<and>
     (m_has_min_value r = m_has_min_value s) \<and> (m_has_min_value s \<longrightarrow> m_min_value r = m_min_value s) \<and>
     (m_has_max_value r = m_has_max_value s) \<and> (m_has_max_value s \<longrightarrow> m_max_value r = m_max_value s) \<and>
     (m_has_step r = m_has_step s) \<and> (m_has_step s \<longrightarrow> m_step r = m_step s) \<and>
     (m_has_capability_revision r = m_has_capability_revision s) \<and> (m_has_capability_revision s \<longrightarrow> m_capability_revision r = m_capability_revision s)"

definition carries_feature :: "gw_message \<Rightarrow> gw_message \<Rightarrow> bool" where
  "carries_feature s r \<longleftrightarrow>
     (m_has_feature_id r = m_has_feature_id s) \<and> (m_has_setting_group r = m_has_setting_group s) \<and>
     (m_has_feature_id s \<or> m_has_setting_group s \<longrightarrow> m_feature_id r = cstr (m_feature_id s)) \<and>
     (m_has_feature_type r = m_has_feature_type s) \<and> (m_has_feature_type s \<longrightarrow> m_feature_type r = m_feature_type s) \<and>
     (m_has_feature_schema_version r = m_has_feature_schema_version s) \<and> (m_has_feature_schema_version s \<longrightarrow> m_feature_schema_version r = m_feature_schema_version s) \<and>
     (m_has_feature_flags r = m_has_feature_flags s) \<and> (m_has_feature_flags s \<longrightarrow> m_feature_flags r = m_feature_flags s) \<and>
     (m_has_property_id r = m_has_property_id s) \<and> (m_has_property_id s \<longrightarrow> m_property_id r = m_property_id s) \<and>
     (m_has_feature_value_bool r = m_has_feature_value_bool s) \<and> (m_has_feature_value_bool s \<longrightarrow> m_feature_value_bool r = m_feature_value_bool s) \<and>
     (m_has_feature_value_int r = m_has_feature_value_int s) \<and> (m_has_feature_value_int s \<longrightarrow> m_feature_value_int r = m_feature_value_int s) \<and>
     (m_has_feature_total r = m_has_feature_total s) \<and> (m_has_feature_total s \<longrightarrow> m_feature_total r = m_feature_total s) \<and>
     (m_has_feature_decimals r = m_has_feature_decimals s) \<and> (m_has_feature_decimals s \<longrightarrow> m_feature_decimals r = m_feature_decimals s) \<and>
     (m_has_feature_tool r = m_has_feature_tool s) \<and> (m_has_feature_tool s \<longrightarrow> m_feature_tool r = cstr (m_feature_tool s))"

definition carries_settings :: "gw_message \<Rightarrow> gw_message \<Rightarrow> bool" where
  "carries_settings s r \<longleftrightarrow>
     (m_has_settings_supported r = m_has_settings_supported s) \<and> (m_has_settings_supported s \<longrightarrow> m_settings_supported r = m_settings_supported s) \<and>
     (m_has_settings_schema_revision r = m_has_settings_schema_revision s) \<and> (m_has_settings_schema_revision s \<longrightarrow> m_settings_schema_revision r = m_settings_schema_revision s) \<and>
     (m_has_setting_type r = m_has_setting_type s) \<and> (m_has_setting_type s \<longrightarrow> m_setting_type r = m_setting_type s) \<and>
     (m_has_setting_flags r = m_has_setting_flags s) \<and> (m_has_setting_flags s \<longrightarrow> m_setting_flags r = m_setting_flags s) \<and>
     (m_has_settings_transaction_id r = m_has_settings_transaction_id s) \<and> (m_has_settings_transaction_id s \<longrightarrow> m_settings_transaction_id r = m_settings_transaction_id s) \<and>
     (m_has_settings_expected_revision r = m_has_settings_expected_revision s) \<and> (m_has_settings_expected_revision s \<longrightarrow> m_settings_expected_revision r = m_settings_expected_revision s) \<and>
     (m_has_settings_new_revision r = m_has_settings_new_revision s) \<and> (m_has_settings_new_revision s \<longrightarrow> m_settings_new_revision r = m_settings_new_revision s) \<and>
     (m_has_settings_option_index r = m_has_settings_option_index s) \<and> (m_has_settings_option_index s \<longrightarrow> m_settings_option_index r = m_settings_option_index s) \<and>
     (m_has_settings_max_length r = m_has_settings_max_length s) \<and> (m_has_settings_max_length s \<longrightarrow> m_settings_max_length r = m_settings_max_length s) \<and>
     (m_has_settings_option_count r = m_has_settings_option_count s) \<and> (m_has_settings_option_count s \<longrightarrow> m_settings_option_count r = m_settings_option_count s) \<and>
     (m_has_settings_sequence r = m_has_settings_sequence s) \<and> (m_has_settings_sequence s \<longrightarrow> m_settings_sequence r = m_settings_sequence s) \<and>
     (m_has_setting_id r = m_has_setting_id s) \<and> (m_has_setting_id s \<longrightarrow> m_setting_id r = cstr (m_setting_id s)) \<and>
     (m_has_setting_value r = m_has_setting_value s) \<and>
     (m_has_setting_value s \<longrightarrow> setting_value_item r = setting_value_item s)"

definition carries :: "gw_message \<Rightarrow> gw_message \<Rightarrow> bool" where
  "carries s r \<longleftrightarrow> carries_header s r \<and> carries_capability s r \<and> carries_feature s r \<and> carries_settings s r"

text \<open>What each part of the decoder does with an answered frame.\<close>

definition fill_header :: "gw_message \<Rightarrow> gw_message \<Rightarrow> gw_message" where
  "fill_header s m =
     fill_if (m_has_ble_addr s) (\<lambda>m. m\<lparr>m_ble_addr := m_ble_addr s, m_ble_addr_type := m_ble_addr_type s, m_has_ble_addr := True\<rparr>) (
     fill_if (cstr (m_name s) \<noteq> []) (\<lambda>m. m\<lparr>m_name := cstr (m_name s)\<rparr>) (
     fill_if (m_has_device_id s) (\<lambda>m. m\<lparr>m_device_id := cstr (m_device_id s), m_has_device_id := True\<rparr>) (
     fill_if (m_has_request_id s) (\<lambda>m. m\<lparr>m_request_id := m_request_id s, m_has_request_id := True\<rparr>) m)))"

definition fill_capability :: "gw_message \<Rightarrow> gw_message \<Rightarrow> gw_message" where
  "fill_capability s m =
     fill_if (m_has_capability_revision s) (\<lambda>m. m\<lparr>m_capability_revision := m_capability_revision s, m_has_capability_revision := True\<rparr>) (
     fill_if (cstr (m_capability_unit s) \<noteq> []) (\<lambda>m. m\<lparr>m_capability_unit := cstr (m_capability_unit s)\<rparr>) (
     fill_if (cstr (m_capability_label s) \<noteq> []) (\<lambda>m. m\<lparr>m_capability_label := cstr (m_capability_label s)\<rparr>) (
     fill_if (m_has_step s) (\<lambda>m. m\<lparr>m_step := m_step s, m_has_step := True\<rparr>) (
     fill_if (m_has_max_value s) (\<lambda>m. m\<lparr>m_max_value := m_max_value s, m_has_max_value := True\<rparr>) (
     fill_if (m_has_min_value s) (\<lambda>m. m\<lparr>m_min_value := m_min_value s, m_has_min_value := True\<rparr>) (
     fill_if (m_has_capability_flags s) (\<lambda>m. m\<lparr>m_capability_flags := m_capability_flags s, m_has_capability_flags := True\<rparr>) (
     fill_if (m_has_value_type s) (\<lambda>m. m\<lparr>m_value_type := m_value_type s, m_has_value_type := True\<rparr>) (
     fill_if (m_has_total s) (\<lambda>m. m\<lparr>m_total := m_total s, m_has_total := True\<rparr>) (
     fill_if (m_has_sequence s) (\<lambda>m. m\<lparr>m_sequence := m_sequence s, m_has_sequence := True\<rparr>) (
     fill_if (m_has_snapshot_id s) (\<lambda>m. m\<lparr>m_snapshot_id := m_snapshot_id s, m_has_snapshot_id := True\<rparr>) m))))))))))"

definition fill_feature :: "gw_message \<Rightarrow> gw_message \<Rightarrow> gw_message" where
  "fill_feature s m =
     fill_if (m_has_feature_decimals s) (\<lambda>m. m\<lparr>m_feature_decimals := m_feature_decimals s, m_has_feature_decimals := True\<rparr>) (
     fill_if (m_has_feature_total s) (\<lambda>m. m\<lparr>m_feature_total := m_feature_total s, m_has_feature_total := True\<rparr>) (
     fill_if (m_has_feature_tool s) (\<lambda>m. m\<lparr>m_feature_tool := cstr (m_feature_tool s), m_has_feature_tool := True\<rparr>) (
     fill_if (m_has_feature_value_int s) (\<lambda>m. m\<lparr>m_feature_value_int := m_feature_value_int s, m_has_feature_value_int := True\<rparr>) (
     fill_if (m_has_feature_value_bool s) (\<lambda>m. m\<lparr>m_feature_value_bool := m_feature_value_bool s, m_has_feature_value_bool := True\<rparr>) (
     fill_if (m_has_property_id s) (\<lambda>m. m\<lparr>m_property_id := m_property_id s, m_has_property_id := True\<rparr>) (
     fill_if (m_has_feature_flags s) (\<lambda>m. m\<lparr>m_feature_flags := m_feature_flags s, m_has_feature_flags := True\<rparr>) (
     fill_if (m_has_feature_schema_version s) (\<lambda>m. m\<lparr>m_feature_schema_version := m_feature_schema_version s, m_has_feature_schema_version := True\<rparr>) (
     fill_if (m_has_feature_type s) (\<lambda>m. m\<lparr>m_feature_type := m_feature_type s, m_has_feature_type := True\<rparr>) (
     fill_if (m_has_feature_id s) (\<lambda>m. m\<lparr>m_feature_id := cstr (m_feature_id s), m_has_feature_id := True\<rparr>) m)))))))))"

definition fill_settings :: "gw_message \<Rightarrow> gw_message \<Rightarrow> gw_message" where
  "fill_settings s m =
     fill_if (m_has_setting_value s) (store_setting s) (
     fill_if (m_has_setting_flags s) (\<lambda>m. m\<lparr>m_setting_flags := m_setting_flags s, m_has_setting_flags := True\<rparr>) (
     fill_if (m_has_setting_type s) (\<lambda>m. m\<lparr>m_setting_type := m_setting_type s, m_has_setting_type := True\<rparr>) (
     fill_if (cstr (m_capability_unit s) \<noteq> []) (\<lambda>m. m\<lparr>m_capability_unit := cstr (m_capability_unit s)\<rparr>) (
     fill_if (m_has_setting_group s) (\<lambda>m. m\<lparr>m_feature_id := cstr (m_feature_id s), m_has_setting_group := True\<rparr>) (
     fill_if (cstr (m_capability_label s) \<noteq> []) (\<lambda>m. m\<lparr>m_capability_label := cstr (m_capability_label s)\<rparr>) (
     fill_if (m_has_setting_id s) (\<lambda>m. m\<lparr>m_setting_id := cstr (m_setting_id s), m_has_setting_id := True\<rparr>) (
     fill_if (m_has_settings_schema_revision s) (\<lambda>m. m\<lparr>m_settings_schema_revision := m_settings_schema_revision s, m_has_settings_schema_revision := True\<rparr>) (
     fill_if (m_has_settings_supported s) (\<lambda>m. m\<lparr>m_settings_supported := m_settings_supported s, m_has_settings_supported := True\<rparr>) m))))))))"

definition fill_transaction :: "gw_message \<Rightarrow> gw_message \<Rightarrow> gw_message" where
  "fill_transaction s m =
     fill_if (m_has_settings_sequence s) (\<lambda>m. m\<lparr>m_settings_sequence := m_settings_sequence s, m_has_settings_sequence := True\<rparr>) (
     fill_if (m_has_settings_option_count s) (\<lambda>m. m\<lparr>m_settings_option_count := m_settings_option_count s, m_has_settings_option_count := True\<rparr>) (
     fill_if (m_has_settings_max_length s) (\<lambda>m. m\<lparr>m_settings_max_length := m_settings_max_length s, m_has_settings_max_length := True\<rparr>) (
     fill_if (m_has_settings_option_index s) (\<lambda>m. m\<lparr>m_settings_option_index := m_settings_option_index s, m_has_settings_option_index := True\<rparr>) (
     fill_if (m_has_settings_new_revision s) (\<lambda>m. m\<lparr>m_settings_new_revision := m_settings_new_revision s, m_has_settings_new_revision := True\<rparr>) (
     fill_if (m_has_settings_expected_revision s) (\<lambda>m. m\<lparr>m_settings_expected_revision := m_settings_expected_revision s, m_has_settings_expected_revision := True\<rparr>) (
     fill_if (m_has_settings_transaction_id s) (\<lambda>m. m\<lparr>m_settings_transaction_id := m_settings_transaction_id s, m_has_settings_transaction_id := True\<rparr>) m))))))"

lemmas fill_stages = fill_header_def fill_capability_def fill_feature_def fill_settings_def fill_transaction_def

lemma decode_stages:
  assumes "answers Q buf (all_items s)" "transmittable s"
  shows "decode_header Q buf m = Some (fill_header s (m\<lparr>m_type := cstr (m_type s), m_command := cstr (m_command s)\<rparr>),
           4, m_int_value s, m_bool_value s \<noteq> 0)"
    and "decode_capability Q buf m = Some (fill_capability s m)"
    and "decode_feature Q buf m = Some (fill_feature s m)"
    and "\<not> m_has_setting_type m \<Longrightarrow> decode_settings Q buf m = Some (fill_settings s m)"
    and "decode_transaction Q buf m = Some (fill_transaction s m)"
  by (simp_all add: decode_header_def decode_capability_def decode_feature_def decode_settings_def decode_transaction_def
      fill_stages opt_fields [OF assms] need_fields [OF assms] opt_flag [OF assms(1)]
      decode_setting_value_eq [OF assms] fill_if_hit fill_if_frame del: One_nat_def)

definition filled :: "gw_message \<Rightarrow> gw_message" where
  "filled s =
     (fill_transaction s (fill_settings s (fill_feature s (fill_capability s (fill_header s
        (zero_message\<lparr>m_protocol_version := 4, m_type := cstr (m_type s), m_command := cstr (m_command s)\<rparr>))))))
       \<lparr>m_protocol_version := 4, m_int_value := m_int_value s, m_bool_value := (if m_bool_value s \<noteq> 0 then 1 else 0),
        m_has_int_value := True, m_has_bool_value := True\<rparr>"

lemma carries_filled:
  assumes "transmittable s"
  shows "carries_header s (filled s)" "carries_capability s (filled s)" "carries_feature s (filled s)"
    "carries_settings s (filled s)"
proof -
  have v: "m_protocol_version s = 4" using assms by (simp add: transmittable_def encodable_def)
  have vt: "m_has_setting_value s \<Longrightarrow> m_has_setting_type s \<and> setting_value_item s \<noteq> None" using assms by (simp add: transmittable_def)
  note d = filled_def fill_stages fill_if_hit fill_if_frame zero_message_def store_setting_hit store_setting_def
  show "carries_header s (filled s)" by (simp add: carries_header_def d v)
  show "carries_capability s (filled s)" by (simp add: carries_capability_def d)
  show "carries_feature s (filled s)" by (auto simp add: carries_feature_def d)
  show "carries_settings s (filled s)"
    using vt by (simp add: carries_settings_def d setting_value_item_def)
qed

lemma decode_answers:
  assumes "answers Q buf (all_items s)" "transmittable s" "buf \<noteq> []" "length buf \<le> GW_MSG_MAX_LEN"
    and "qc_enter_map Q buf" "qc_finish Q buf"
  shows "cbor_codec_decode Q buf = Some (filled s)"
proof -
  have "\<not> m_has_setting_type (fill_feature s (fill_capability s (fill_header s
        (zero_message\<lparr>m_protocol_version := 4, m_type := cstr (m_type s), m_command := cstr (m_command s)\<rparr>))))"
    by (simp add: fill_stages fill_if_hit fill_if_frame zero_message_def)
  then show ?thesis
    using assms(3-6) by (simp add: cbor_codec_decode_def decode_stages [OF assms(1,2)] filled_def)
qed

text \<open>The texts and numbers of a transmittable message are within what the library can carry.\<close>

lemma int64_all_items: "transmittable s \<Longrightarrow> int64_items (all_items s)"
  by (auto simp: int64_items_def all_items_def header_items_def capability_items_def feature_items_def settings_items_def
      value_items_def add_if_def setting_value_item_def transmittable_def split: if_splits)

lemma encode_all_items:
  "cbor_codec_encode Q (Some s) cap = Some buf \<Longrightarrow> qc_encode Q (all_items s) cap = Some buf"
  by (simp add: cbor_codec_encode_def all_items_def split: if_splits)

end
