(* ===== verification/Cbor_Props.thy ===== *)
theory Cbor_Props
  imports Cbor_Codec
begin

text \<open>
  The properties of the wire codec, and an implementation of the library's contract to evaluate them
  on: a CBOR map whose heads all carry their argument in eight bytes (RFC 8949, additional information
  27), written and read back.
\<close>

section \<open>An implementation of the contract\<close>

fun be_bytes :: "nat \<Rightarrow> nat \<Rightarrow> u8 list" where
  "be_bytes 0 n = []"
| "be_bytes (Suc k) n = be_bytes k (n div 256) @ [word_of_nat (n mod 256)]"

definition be_value :: "u8 list \<Rightarrow> nat" where
  "be_value bs = foldl (\<lambda>a b. a * 256 + unat b) 0 bs"

definition head :: "nat \<Rightarrow> nat \<Rightarrow> u8 list" where
  "head major n = word_of_nat (major * 32 + 27) # be_bytes 8 n"

fun parse_head :: "u8 list \<Rightarrow> (nat \<times> nat \<times> u8 list) option" where
  "parse_head [] = None"
| "parse_head (b # r) =
     (if length r < 8 \<or> unat b mod 32 \<noteq> 27 then None else Some (unat b div 32, be_value (take 8 r), drop 8 r))"

fun put_item :: "cbor_item \<Rightarrow> u8 list" where
  "put_item (CBOR_UINT u) = head 0 (unat u)"
| "put_item (CBOR_INT n) = (if 0 \<le> n then head 0 (nat n) else head 1 (nat (- 1 - n)))"
| "put_item (CBOR_BYTES b) = head 2 (length b) @ b"
| "put_item (CBOR_TEXT t) = head 3 (length t) @ map (\<lambda>c. word_of_nat (of_char c)) t"
| "put_item (CBOR_BOOL b) = [if b then 245 else 244]"

definition get_item :: "u8 list \<Rightarrow> (cbor_item \<times> u8 list) option" where
  "get_item bs =
     (if bs \<noteq> [] \<and> hd bs = 245 then Some (CBOR_BOOL True, tl bs)
      else if bs \<noteq> [] \<and> hd bs = 244 then Some (CBOR_BOOL False, tl bs)
      else (case parse_head bs of
              None \<Rightarrow> None
            | Some (major, n, r) \<Rightarrow>
                if major = 0 then Some (CBOR_UINT (word_of_nat n), r)
                else if major = 1 then Some (CBOR_INT (- 1 - int n), r)
                else if length r < n then None
                else if major = 2 then Some (CBOR_BYTES (take n r), drop n r)
                else if major = 3 then Some (CBOR_TEXT (map (\<lambda>b. char_of (unat b)) (take n r)), drop n r)
                else None))"

fun put_entries :: "(nat \<times> cbor_item) list \<Rightarrow> u8 list" where
  "put_entries [] = []"
| "put_entries ((k, i) # r) = head 0 k @ put_item i @ put_entries r"

fun get_entries :: "nat \<Rightarrow> u8 list \<Rightarrow> (nat \<times> cbor_item) list option" where
  "get_entries 0 bs = (if bs = [] then Some [] else None)"
| "get_entries (Suc n) bs =
     (case parse_head bs of
        Some (0, k, r) \<Rightarrow>
          (case get_item r of
             None \<Rightarrow> None
           | Some (i, r) \<Rightarrow> (case get_entries n r of None \<Rightarrow> None | Some es \<Rightarrow> Some ((k, i) # es)))
      | _ \<Rightarrow> None)"

definition get_map :: "u8 list \<Rightarrow> (nat \<times> cbor_item) list option" where
  "get_map bs = (case parse_head bs of Some (major, n, r) \<Rightarrow> if major = 5 then get_entries n r else None | None \<Rightarrow> None)"

fun representable :: "cbor_item \<Rightarrow> bool" where
  "representable (CBOR_BYTES b) \<longleftrightarrow> length b < 2 ^ 64"
| "representable (CBOR_TEXT t) \<longleftrightarrow> length t < 2 ^ 64"
| "representable _ \<longleftrightarrow> True"

definition put_map :: "(nat \<times> cbor_item) list \<Rightarrow> u8 list" where
  "put_map items = head 5 (length items) @ put_entries items"

definition looked_up :: "(cbor_item option \<Rightarrow> 'a qcbor_result) \<Rightarrow> frame \<Rightarrow> nat \<Rightarrow> 'a qcbor_result" where
  "looked_up as_kind buf k = (case get_map buf of None \<Rightarrow> QCBOR_ERR_OTHER | Some items \<Rightarrow> as_kind (map_of items k))"

definition plain_cbor :: qcbor where
  "plain_cbor =
     \<lparr>qc_encode = (\<lambda>items cap.
        if length items < 2 ^ 64 \<and> (\<forall>(k, i) \<in> set items. k < 2 ^ 64 \<and> representable i) \<and> length (put_map items) \<le> cap
        then Some (put_map items) else None),
      qc_enter_map = (\<lambda>buf. get_map buf \<noteq> None),
      qc_get_uint = looked_up as_uint, qc_get_int = looked_up as_int, qc_get_text = looked_up as_text,
      qc_get_bytes = looked_up as_bytes, qc_get_bool = looked_up as_bool,
      qc_finish = (\<lambda>buf. get_map buf \<noteq> None)\<rparr>"

lemma length_be_bytes [simp]: "length (be_bytes k n) = k"
  by (induction k arbitrary: n) simp_all

lemma be_value_bytes: "be_value (be_bytes k n) = n mod 256 ^ k"
proof (induction k arbitrary: n)
  case (Suc k)
  have "unat (word_of_nat (n mod 256) :: u8) = n mod 256"
    by (simp add: unat_of_nat take_bit_eq_mod)
  then show ?case
    using Suc [of "n div 256"] by (simp add: be_value_def mod_mult2_eq)
qed (simp add: be_value_def)

lemma head_byte: "major < 8 \<Longrightarrow> unat (word_of_nat (major * 32 + 27) :: u8) = major * 32 + 27"
  by (simp only: unat_of_nat take_bit_eq_mod) simp

lemma parse_head_head:
  "major < 8 \<Longrightarrow> n < 2 ^ 64 \<Longrightarrow> parse_head (head major n @ r) = Some (major, n, r)"
  by (simp add: head_def head_byte be_value_bytes del: be_bytes.simps of_nat_add of_nat_mult)

lemma hd_head:
  assumes "major < 6"
  shows "hd (head major n) \<noteq> 245" "hd (head major n) \<noteq> 244"
    "head major n \<noteq> []"
proof -
  have b: "unat (word_of_nat (major * 32 + 27) :: u8) < 244"
    using assms head_byte [of major] by simp
  then have "(word_of_nat (major * 32 + 27) :: u8) \<noteq> 245" "(word_of_nat (major * 32 + 27) :: u8) \<noteq> 244"
    by (auto simp del: of_nat_add of_nat_mult)
  then show "hd (head major n) \<noteq> 245" "hd (head major n) \<noteq> 244" "head major n \<noteq> []"
    by (simp_all only: head_def list.sel list.distinct not_False_eq_True)
qed

fun plain_kind :: "cbor_item \<Rightarrow> cbor_item" where
  "plain_kind (CBOR_INT n) = (if 0 \<le> n then CBOR_UINT (word_of_nat (nat n)) else CBOR_INT n)"
| "plain_kind i = i"

definition int64_item :: "cbor_item \<Rightarrow> bool" where
  "int64_item i \<longleftrightarrow> (\<forall>n. i = CBOR_INT n \<longrightarrow> - (2 ^ 63) \<le> n \<and> n < 2 ^ 63)"

lemma get_item_head:
  "major < 6 \<Longrightarrow> n < 2 ^ 64 \<Longrightarrow> get_item (head major n @ r) =
     (if major = 0 then Some (CBOR_UINT (word_of_nat n), r)
      else if major = 1 then Some (CBOR_INT (- 1 - int n), r)
      else if length r < n then None
      else if major = 2 then Some (CBOR_BYTES (take n r), drop n r)
      else if major = 3 then Some (CBOR_TEXT (map (\<lambda>b. char_of (unat b)) (take n r)), drop n r)
      else None)"
  by (simp add: get_item_def hd_head parse_head_head)

lemma char_of_byte: "char_of (unat (word_of_nat (of_char c) :: u8)) = c"
  by (simp add: unat_of_nat)

lemma get_put_item: "representable i \<Longrightarrow> int64_item i \<Longrightarrow> get_item (put_item i @ r) = Some (plain_kind i, r)"
proof (cases i)
  case (CBOR_UINT u)
  have "unat u < 2 ^ 64" using unsigned_less [of u, where ?'a = nat] by simp
  then show ?thesis by (simp add: CBOR_UINT get_item_head)
next
  case (CBOR_INT n)
  assume "int64_item i"
  then have "- (2 ^ 63) \<le> n" "n < 2 ^ 63" by (simp_all add: CBOR_INT int64_item_def)
  then have "nat n < 2 ^ 64" "nat (- 1 - n) < 2 ^ 64" by auto
  then show ?thesis by (simp add: CBOR_INT get_item_head)
next
  case (CBOR_TEXT t)
  assume "representable i"
  then show ?thesis by (simp add: CBOR_TEXT get_item_head comp_def char_of_byte)
next
  case (CBOR_BYTES b)
  assume "representable i"
  then show ?thesis by (simp add: CBOR_BYTES get_item_head)
qed (simp add: get_item_def)

lemma get_put_entries:
  "\<forall>(k, i) \<in> set items. k < 2 ^ 64 \<and> representable i \<and> int64_item i \<Longrightarrow>
   get_entries (length items) (put_entries items) = Some (map (\<lambda>(k, i). (k, plain_kind i)) items)"
  by (induction items) (auto simp: parse_head_head get_put_item split: prod.splits)

lemma get_put_map:
  assumes "length items < 2 ^ 64" "\<forall>(k, i) \<in> set items. k < 2 ^ 64 \<and> representable i" "int64_items items"
  shows "get_map (put_map items) = Some (map (\<lambda>(k, i). (k, plain_kind i)) items)"
proof -
  have "\<forall>(k, i) \<in> set items. k < 2 ^ 64 \<and> representable i \<and> int64_item i"
    using assms(2,3) by (auto simp: int64_items_def int64_item_def)
  then show ?thesis
    using assms(1) by (simp add: get_map_def put_map_def parse_head_head get_put_entries)
qed

lemma plain_kind_lookups:
  assumes "int64_items items"
  shows "as_uint (map_of (map (\<lambda>(k, i). (k, plain_kind i)) items) k) = as_uint (map_of items k)"
    and "as_int (map_of (map (\<lambda>(k, i). (k, plain_kind i)) items) k) = as_int (map_of items k)"
    and "as_text (map_of (map (\<lambda>(k, i). (k, plain_kind i)) items) k) = as_text (map_of items k)"
    and "as_bytes (map_of (map (\<lambda>(k, i). (k, plain_kind i)) items) k) = as_bytes (map_of items k)"
    and "as_bool (map_of (map (\<lambda>(k, i). (k, plain_kind i)) items) k) = as_bool (map_of items k)"
proof -
  have m: "map_of (map (\<lambda>(k, i). (k, plain_kind i)) items) k = map_option plain_kind (map_of items k)"
    using map_of_map [of plain_kind items] by simp
  have r: "- (2 ^ 63) \<le> n \<and> n < 2 ^ 63" if "map_of items k = Some (CBOR_INT n)" for n
    using assms map_of_SomeD [OF that] unfolding int64_items_def by blast
  have u: "uint (word_of_nat (nat n) :: u64) = n" if "0 \<le> n" "n < 2 ^ 63" for n
    using that by (simp add: uint_word_of_int take_bit_eq_mod)
  note k = m as_uint_def as_int_def as_text_def as_bytes_def as_bool_def
  show "as_uint (map_of (map (\<lambda>(k, i). (k, plain_kind i)) items) k) = as_uint (map_of items k)"
    "as_int (map_of (map (\<lambda>(k, i). (k, plain_kind i)) items) k) = as_int (map_of items k)"
    "as_text (map_of (map (\<lambda>(k, i). (k, plain_kind i)) items) k) = as_text (map_of items k)"
    "as_bytes (map_of (map (\<lambda>(k, i). (k, plain_kind i)) items) k) = as_bytes (map_of items k)"
    "as_bool (map_of (map (\<lambda>(k, i). (k, plain_kind i)) items) k) = as_bool (map_of items k)"
    using r u by (auto simp: k split: option.splits cbor_item.splits)
qed

lemma put_map_nonempty: "put_map items \<noteq> []"
  using hd_head by (simp add: put_map_def)

interpretation plain: qcbor_contract plain_cbor
proof unfold_locales
  fix items cap buf
  assume e: "qc_encode plain_cbor items cap = Some buf"
  then show "buf \<noteq> [] \<and> length buf \<le> cap"
    by (auto simp: plain_cbor_def put_map_nonempty split: if_splits)
  fix k
  assume "int64_items items"
  with e show "qc_enter_map plain_cbor buf \<and> qc_finish plain_cbor buf"
    "qc_get_uint plain_cbor buf k = as_uint (map_of items k)" "qc_get_int plain_cbor buf k = as_int (map_of items k)"
    "qc_get_text plain_cbor buf k = as_text (map_of items k)" "qc_get_bytes plain_cbor buf k = as_bytes (map_of items k)"
    "qc_get_bool plain_cbor buf k = as_bool (map_of items k)"
    by (auto simp: plain_cbor_def looked_up_def get_put_map plain_kind_lookups split: if_splits)
qed

section \<open>What a decoded message is\<close>

text \<open>
  The type of a decoded message, whatever the library answers: texts are C strings that fit their
  arrays, the 32-bit fields hold 32-bit values, identifiers that are announced are not zero, and a
  setting value comes with the type it was read by.
\<close>

definition fits :: "string \<Rightarrow> nat \<Rightarrow> bool" where
  "fits t capacity \<longleftrightarrow> length t < capacity \<and> CHR 0x00 \<notin> set t"

definition is_int32 :: "int \<Rightarrow> bool" where
  "is_int32 n \<longleftrightarrow> INT32_MIN \<le> n \<and> n \<le> INT32_MAX"

definition fields_typed :: "gw_message \<Rightarrow> bool" where
  "fields_typed m \<longleftrightarrow>
     fits (m_type m) GW_MSG_TYPE_LEN \<and> fits (m_command m) GW_MSG_COMMAND_LEN \<and> fits (m_device_id m) GW_MSG_DEVICE_ID_LEN \<and>
     fits (m_name m) GW_MSG_NAME_LEN \<and> fits (m_capability_label m) GW_MSG_CAP_LABEL_LEN \<and>
     fits (m_capability_unit m) GW_MSG_CAP_UNIT_LEN \<and> fits (m_feature_id m) GW_FEATURE_ID_LEN \<and>
     fits (m_feature_tool m) GW_MSG_COMMAND_LEN \<and> fits (m_setting_id m) GW_SETTINGS_CBOR_MAX_ID_LEN \<and>
     fits (m_setting_value_string m) GW_SETTINGS_VALUE_MAX_LEN \<and>
     is_int32 (m_min_value m) \<and> is_int32 (m_max_value m) \<and> is_int32 (m_feature_value_int m) \<and> is_int32 (m_setting_value_int m) \<and>
     length (m_ble_addr m) = 6 \<and> (m_has_request_id m \<longrightarrow> m_request_id m \<noteq> 0) \<and>
     (m_has_snapshot_id m \<longrightarrow> m_snapshot_id m \<noteq> 0) \<and> (m_has_setting_type m \<longrightarrow> m_setting_type m \<le> GW_SETTING_TYPE_ENUM)"

definition value_typed :: "gw_message \<Rightarrow> bool" where
  "value_typed m \<longleftrightarrow>
     (m_has_setting_value m \<longrightarrow> m_has_setting_type m \<and>
        m_setting_type m \<in> {GW_SETTING_TYPE_BOOL, GW_SETTING_TYPE_INT, GW_SETTING_TYPE_STRING, GW_SETTING_TYPE_ENUM})"

definition message_typed :: "gw_message \<Rightarrow> bool" where
  "message_typed m \<longleftrightarrow>
     fields_typed m \<and> value_typed m \<and> m_protocol_version m = GW_PROTOCOL_VERSION \<and> is_int32 (m_int_value m) \<and>
     m_has_int_value m \<and> m_bool_value m \<in> {0, 1} \<and> m_has_bool_value m"

lemma fits_cstr [simp]: "length t < n \<Longrightarrow> fits (cstr t) n"
  using length_takeWhile_le [of "\<lambda>c. c \<noteq> CHR 0x00" t]
  by (auto simp: fits_def cstr_def dest: set_takeWhileD)

lemma text_of_fits: "text_of n e v = Some x \<Longrightarrow> fits x n"
  by (auto simp: text_of_def copy_text_def split: if_splits)

lemma int32_of_typed: "int32_of v = Some x \<Longrightarrow> is_int32 x"
  by (auto simp: int32_of_def is_int32_def split: if_splits)

lemma nonzero_up_to_nonzero:
  assumes "nonzero_up_to UINT32_MAX v = Some (x :: u32)" shows "x \<noteq> 0"
proof
  assume "x = 0"
  with assms have "v \<noteq> 0" "v \<le> UINT32_MAX" "(ucast v :: u32) = 0"
    by (auto simp: nonzero_up_to_def split: if_splits)
  then have "unat v \<noteq> 0" "unat v < 2 ^ 32" "unat v mod 2 ^ 32 = 0"
    by (auto simp: unat_eq_0 word_le_nat_alt unsigned_ucast_eq take_bit_eq_mod dest!: arg_cong [where f = unat])
  then show False by simp
qed

lemma up_to_type_bound:
  assumes "up_to 5 v = Some (x :: u8)" shows "x \<le> GW_SETTING_TYPE_ENUM"
proof -
  have "x = ucast v" "unat v \<le> 5" using assms by (auto simp: up_to_def word_le_nat_alt not_less split: if_splits)
  then show ?thesis by (simp add: word_le_nat_alt unsigned_ucast_eq take_bit_eq_mod)
qed

lemmas checked = text_of_fits int32_of_typed nonzero_up_to_nonzero up_to_type_bound

text \<open>The two rules by which a predicate passes through the sequence of optional items.\<close>

lemma pred_bind: "\<lbrakk>pred_option I x; \<And>m. I m \<Longrightarrow> pred_option J (k m)\<rbrakk> \<Longrightarrow> pred_option J (x \<bind> k)"
  by (cases x) simp_all

lemma pred_opt_item: "\<lbrakk>I m; \<And>v x. c v = Some x \<Longrightarrow> I (f x m)\<rbrakk> \<Longrightarrow> pred_option I (opt_item r c f m)"
  by (cases r) (auto simp: opt_item_def split: option.splits)

definition no_value :: "gw_message \<Rightarrow> bool" where
  "no_value m \<longleftrightarrow> fields_typed m \<and> \<not> m_has_setting_value m"

definition typed :: "gw_message \<Rightarrow> bool" where
  "typed m \<longleftrightarrow> fields_typed m \<and> value_typed m"

lemma decode_capability_typed: "no_value m \<Longrightarrow> pred_option no_value (decode_capability Q buf m)"
  unfolding decode_capability_def
  by (intro pred_bind [where I = no_value] pred_opt_item) (simp_all add: no_value_def fields_typed_def checked)

lemma decode_feature_typed: "no_value m \<Longrightarrow> pred_option no_value (decode_feature Q buf m)"
  unfolding decode_feature_def
  by (intro pred_bind [where I = no_value] pred_opt_item) (simp_all add: no_value_def fields_typed_def checked)

lemma decode_setting_value_typed: "no_value m \<Longrightarrow> pred_option typed (decode_setting_value Q buf m)"
  unfolding decode_setting_value_def
  by (auto intro!: pred_opt_item simp: no_value_def typed_def value_typed_def fields_typed_def dest: checked)

lemma decode_settings_typed: "no_value m \<Longrightarrow> pred_option typed (decode_settings Q buf m)"
  unfolding decode_settings_def
  by (intro pred_bind [where I = no_value] pred_opt_item decode_setting_value_typed)
    (simp_all add: no_value_def fields_typed_def checked)

lemma decode_transaction_typed: "typed m \<Longrightarrow> pred_option typed (decode_transaction Q buf m)"
  unfolding decode_transaction_def
  by (intro pred_bind [where I = typed] pred_opt_item) (simp_all add: typed_def value_typed_def fields_typed_def)

lemma pred_need: "(\<And>v x. c v = Some x \<Longrightarrow> pred_option J (k x)) \<Longrightarrow> pred_option J (need_item r c \<bind> k)"
  by (cases r) (auto simp: need_item_def bind_eq_None_conv split: bind_splits)

lemma decode_ble_addr_typed: "no_value m \<Longrightarrow> pred_option no_value (decode_ble_addr Q buf m)"
  by (simp add: decode_ble_addr_def no_value_def fields_typed_def split: qcbor_result.split)

definition header_typed :: "gw_message \<times> u64 \<times> int \<times> bool \<Rightarrow> bool" where
  "header_typed h \<longleftrightarrow> no_value (fst h) \<and> fst (snd h) = 4 \<and> is_int32 (fst (snd (snd h)))"

lemma decode_header_typed: "no_value m \<Longrightarrow> pred_option header_typed (decode_header Q buf m)"
  unfolding decode_header_def
  by (intro pred_need pred_bind [where I = no_value] pred_opt_item decode_ble_addr_typed)
    (simp_all add: no_value_def fields_typed_def header_typed_def checked split: if_splits)

lemma decode_typed: "pred_option message_typed (cbor_codec_decode Q buf)"
proof -
  have z: "no_value (zero_message\<lparr>m_protocol_version := GW_PROTOCOL_VERSION\<rparr>)"
    by (simp add: no_value_def fields_typed_def fits_def is_int32_def zero_message_def)
  note t = decode_header_typed [OF z] decode_capability_typed decode_feature_typed decode_settings_typed decode_transaction_typed
  have "pred_option message_typed (do {
        (m, protocol_version, int_value, bool_value) \<leftarrow>
           decode_header Q buf (zero_message\<lparr>m_protocol_version := GW_PROTOCOL_VERSION\<rparr>);
        m \<leftarrow> decode_capability Q buf m;
        m \<leftarrow> decode_feature Q buf m;
        m \<leftarrow> decode_settings Q buf m;
        m \<leftarrow> decode_transaction Q buf m;
        if \<not> qc_finish Q buf then None
        else Some (m\<lparr>m_protocol_version := ucast protocol_version, m_int_value := int_value,
                    m_bool_value := (if bool_value then 1 else 0), m_has_int_value := True, m_has_bool_value := True\<rparr>)
      })"
    apply (rule pred_bind [OF t(1)])
    apply (clarsimp simp: header_typed_def split del: if_split)
    apply (rule pred_bind [OF t(2)], assumption)
    apply (rule pred_bind [OF t(3)], assumption)
    apply (rule pred_bind [OF t(4)], assumption)
    apply (rule pred_bind [OF t(5)], assumption)
    apply (simp add: typed_def message_typed_def fields_typed_def value_typed_def)
    done
  then show ?thesis by (simp add: cbor_codec_decode_def)
qed

section \<open>The properties\<close>

definition sample_command :: gw_message where
  "sample_command = zero_message\<lparr>m_protocol_version := GW_PROTOCOL_VERSION, m_type := ''command'', m_command := ''set'',
     m_device_id := ''lamp'', m_has_device_id := True, m_request_id := 7, m_has_request_id := True, m_int_value := -5\<rparr>"

lemma decode_encoded:
  assumes "qcbor_contract Q" and "transmittable m" and "out_buf_cap \<le> GW_MSG_MAX_LEN"
    and "cbor_codec_encode Q (Some m) out_buf_cap = Some buf"
  shows "cbor_codec_decode Q buf = Some (filled m)"
proof -
  note e = encode_all_items [OF assms(4)]
  note c = e distinct_items int64_all_items [OF assms(2)]
  have "buf \<noteq> []" "length buf \<le> GW_MSG_MAX_LEN"
    using qcbor_contract.encode_fits [OF assms(1) e] assms(3) by auto
  then show ?thesis
    using decode_answers [OF qcbor_contract.encoded_answers [OF assms(1) c] assms(2)]
      qcbor_contract.encode_map [OF assms(1) c] by blast
qed

lemma length_head [simp]: "length (head major n) = 9"
  by (simp add: head_def del: be_bytes.simps)

lemma cstr_literal: "CHR 0x00 \<notin> set t \<Longrightarrow> cstr t = t"
  by (induction t) (auto simp: cstr_def)

lemma sample_items:
  "all_items sample_command =
     [(0, CBOR_UINT 4), (1, CBOR_TEXT ''command''), (2, CBOR_TEXT ''lamp''), (3, CBOR_TEXT ''set''), (10, CBOR_UINT 7),
      (4, CBOR_INT (- 5)), (5, CBOR_BOOL False)]"
  by (simp add: all_items_def header_items_def capability_items_def feature_items_def settings_items_def value_items_def
      add_if_def sample_command_def zero_message_def cstr_literal)

lemma sample_encodable: "encodable sample_command"
  by (simp add: encodable_def valid_string_def strnlen_def sample_command_def zero_message_def cstr_literal)

lemma sample_encodes: "\<exists>buf. cbor_codec_encode plain_cbor (Some sample_command) 256 = Some buf"
proof -
  have "cbor_codec_encode plain_cbor (Some sample_command) 256 = qc_encode plain_cbor (all_items sample_command) 256"
    using sample_encodable by (simp add: cbor_codec_encode_def all_items_def sample_command_def zero_message_def)
  then show ?thesis by (simp add: sample_items plain_cbor_def put_map_def)
qed

lemma sample_transmittable: "transmittable sample_command"
  using sample_encodable by (simp add: transmittable_def) (simp add: sample_command_def zero_message_def)

text \<open>
  C33. Type soundness of the decoder, for every answer of the library and every buffer: a message that
  \<open>cbor_codec_decode\<close> returns is well typed. Each text is a C string that fits its array, each number is
  in the range of its field, announced request and snapshot identifiers are not zero, the address has
  six bytes, the version is the protocol's, and a setting value is there only together with one of the
  four types it can have.
\<close>

theorem decoded_message_is_typed:
  assumes "cbor_codec_decode Q buf = Some m"
  shows "message_typed m"
  using decode_typed [of Q buf] assms by simp

theorem decoded_message_is_typed_witness:
  "\<exists>buf m. cbor_codec_encode plain_cbor (Some sample_command) 256 = Some buf \<and>
     cbor_codec_decode plain_cbor buf = Some m \<and> message_typed m"
  using decode_encoded [OF plain.qcbor_contract_axioms sample_transmittable, of 256] sample_encodes
    decoded_message_is_typed [of plain_cbor _ "filled sample_command"] by auto

text \<open>
  C32. The round trip of the wire codec, over every CBOR library that keeps its contract: when the encoder
  turns a transmittable message into a frame of at most \<open>GW_MSG_MAX_LEN\<close> bytes, the decoder accepts the
  frame, and the message it returns carries the same header, capability, feature and settings fields,
  with the same ones announced.
\<close>

theorem encode_decode_roundtrip:
  assumes "qcbor_contract Q" and "transmittable m" and "out_buf_cap \<le> GW_MSG_MAX_LEN"
    and "cbor_codec_encode Q (Some m) out_buf_cap = Some buf"
  shows "\<exists>r. cbor_codec_decode Q buf = Some r \<and> carries m r"
  using decode_encoded [OF assms] carries_filled [OF assms(2)] by (simp add: carries_def)

theorem encode_decode_roundtrip_witness:
  "\<exists>buf. cbor_codec_encode plain_cbor (Some sample_command) 256 = Some buf \<and>
     (\<exists>r. cbor_codec_decode plain_cbor buf = Some r \<and> carries sample_command r)"
  using encode_decode_roundtrip [OF plain.qcbor_contract_axioms sample_transmittable, of 256] sample_encodes by auto

end
