(* ===== verification/Schema_Discovery.thy ===== *)
theory Schema_Discovery
  imports Device_Schema
begin

text \<open>
  Discovery of the schemas: one operation at a time asks a device for its schema
  (\<open>device_schema_discovery.c\<close>), driven by a worker task with an event queue
  (\<open>device_schema_worker.c\<close>) and by the posting functions of \<open>device_schema.c\<close>.

  The worker takes the mutex of the runtime table several times while it handles one event, and other
  tasks run in between. Each critical section is a function on the table; \<open>disc_pc\<close> says which one the
  worker runs next, and \<open>worker_move\<close> is one such section, with the outcome of the mutex, of the
  allocation and of the submitter as its choice. The mutual recursion of \<open>start_discovery\<close> and
  \<open>start_next_pending\<close> is the cycle \<open>PC_START\<close>, \<open>PC_SUBMIT\<close>, \<open>PC_FAIL\<close>, \<open>PC_NEXT\<close>, \<open>PC_START\<close>.
\<close>

section \<open>Data\<close>

datatype device_schema_submit_result =
    DEVICE_SCHEMA_SUBMIT_OK
  | DEVICE_SCHEMA_SUBMIT_REJECTED
  | DEVICE_SCHEMA_SUBMIT_TIMEOUT
  | DEVICE_SCHEMA_SUBMIT_ERROR
  | DEVICE_SCHEMA_SUBMIT_BUSY
  | DEVICE_SCHEMA_SUBMIT_NOT_CONNECTED
  | DEVICE_SCHEMA_SUBMIT_TRANSPORT_ERROR
  | DEVICE_SCHEMA_SUBMIT_INTERNAL_ERROR

datatype schema_event_type =
    SCHEMA_EVENT_READY
  | SCHEMA_EVENT_REFRESH
  | SCHEMA_EVENT_DISCONNECT
  | SCHEMA_EVENT_NOTIFY
  | SCHEMA_EVENT_COMPLETION

record schema_event =
  sev_type :: schema_event_type
  sev_device_id :: string
  sev_operation_id :: u32
  sev_refresh_generation :: u32
  sev_message :: "gw_message option"
  sev_completion :: device_schema_submit_result

definition event_of :: "schema_event_type \<Rightarrow> string \<Rightarrow> schema_event" where
  "event_of ty device_id =
     \<lparr>sev_type = ty, sev_device_id = strlcpy GW_MSG_DEVICE_ID_LEN device_id, sev_operation_id = 0,
      sev_refresh_generation = 0, sev_message = None, sev_completion = DEVICE_SCHEMA_SUBMIT_OK\<rparr>"

record completion_context =
  cc_device_id :: string
  cc_operation_id :: u32
  cc_refresh_generation :: u32

section \<open>The worker queue\<close>

abbreviation SCHEMA_EVENT_QUEUE_DEPTH :: nat where "SCHEMA_EVENT_QUEUE_DEPTH \<equiv> 32"

record schema_worker =
  sw_queue :: "schema_event list option"
  sw_has_task :: bool
  sw_enqueued :: u32
  sw_dropped :: u32
  sw_high_watermark :: u32
  sw_message_alloc_fail :: u32

definition schema_worker_init :: "bool \<Rightarrow> bool \<Rightarrow> schema_worker \<Rightarrow> schema_worker \<times> esp_err" where
  "schema_worker_init queue_created task_created w =
     (if sw_queue w = None \<and> \<not> queue_created then (w, ESP_ERR_NO_MEM)
      else let w1 = (if sw_queue w = None then w\<lparr>sw_queue := Some []\<rparr> else w)
           in if sw_has_task w1 then (w1, ESP_OK)
              else if \<not> task_created then (w1\<lparr>sw_queue := None\<rparr>, ESP_ERR_NO_MEM)
              else (w1\<lparr>sw_has_task := True\<rparr>, ESP_OK))"

text \<open>\<open>xQueueSend\<close> without waiting, with the counters of both posting functions.\<close>

definition send_event :: "schema_event \<Rightarrow> schema_event list \<Rightarrow> schema_worker \<Rightarrow> schema_worker \<times> bool" where
  "send_event event q w =
     (if length q \<ge> SCHEMA_EVENT_QUEUE_DEPTH then (w\<lparr>sw_dropped := sw_dropped w + 1\<rparr>, False)
      else let depth = of_nat (length q + 1)
           in (w\<lparr>sw_queue := Some (q @ [event]), sw_enqueued := sw_enqueued w + 1,
                 sw_high_watermark := (if depth > sw_high_watermark w then depth else sw_high_watermark w)\<rparr>, True))"

definition schema_worker_post_event :: "schema_event \<Rightarrow> schema_worker \<Rightarrow> schema_worker \<times> esp_err" where
  "schema_worker_post_event event w =
     (case sw_queue w of
        None \<Rightarrow> (w, ESP_ERR_INVALID_STATE)
      | Some q \<Rightarrow> (case send_event event q w of (w', sent) \<Rightarrow> (w', if sent then ESP_OK else ESP_ERR_NO_MEM)))"

definition is_schema_message :: "string \<Rightarrow> bool" where
  "is_schema_message ty \<longleftrightarrow>
     ty = ''capabilities_begin'' \<or> ty = ''capability_item'' \<or> ty = ''feature_item'' \<or> ty = ''capabilities_end''"

text \<open>The queue exists whenever the runtime is initialised; \<open>None\<close> is the null pointer.\<close>

definition schema_worker_post_notify ::
    "bool \<Rightarrow> bool \<Rightarrow> schema_runtime \<Rightarrow> string option \<Rightarrow> gw_message option \<Rightarrow> schema_worker \<Rightarrow> schema_worker \<times> bool" where
  "schema_worker_post_notify lock alloc rt device_id message w =
     (case message of
        None \<Rightarrow> (w, False)
      | Some msg \<Rightarrow>
          if \<not> is_schema_message (m_type msg) then (w, False)
          else if \<not> rt_initialized rt \<or> device_id = None then (w, True)
          else
            let dev = the device_id;
                op_id = (if lock then (case schema_runtime_find_locked rt dev of
                                         Some i \<Rightarrow> sr_operation_id (rt_records rt ! i) | None \<Rightarrow> 0)
                         else 0);
                event = (event_of SCHEMA_EVENT_NOTIFY dev)\<lparr>sev_operation_id := op_id, sev_message := Some msg\<rparr>
            in if \<not> alloc then (w\<lparr>sw_message_alloc_fail := sw_message_alloc_fail w + 1\<rparr>, True)
               else case sw_queue w of
                      None \<Rightarrow> (w, True)
                    | Some q \<Rightarrow> (fst (send_event event q w), True))"

record device_schema_queue_stats =
  qs_enqueued :: u32
  qs_dropped :: u32
  qs_high_watermark :: u32
  qs_message_alloc_fail :: u32

definition schema_worker_get_stats :: "schema_worker \<Rightarrow> device_schema_queue_stats" where
  "schema_worker_get_stats w =
     \<lparr>qs_enqueued = sw_enqueued w, qs_dropped = sw_dropped w, qs_high_watermark = sw_high_watermark w,
      qs_message_alloc_fail = sw_message_alloc_fail w\<rparr>"

section \<open>Posting\<close>

definition device_schema_init ::
    "bool \<Rightarrow> schema_record list \<Rightarrow> bool \<Rightarrow> bool \<Rightarrow> schema_runtime \<Rightarrow> schema_worker \<Rightarrow>
     schema_runtime \<times> schema_worker \<times> esp_err" where
  "device_schema_init alloc loaded queue_created task_created rt w =
     (if rt_initialized rt then (rt, w, ESP_ERR_INVALID_STATE)
      else case schema_runtime_init alloc loaded rt of
             (rt1, err) \<Rightarrow>
               if err \<noteq> ESP_OK then (rt1, w, err)
               else case schema_worker_init queue_created task_created w of
                      (w1, err) \<Rightarrow>
                        if err \<noteq> ESP_OK then (rt1, w1, err) else (rt1\<lparr>rt_initialized := True\<rparr>, w1, ESP_OK))"

definition device_schema_on_ready :: "schema_runtime \<Rightarrow> string option \<Rightarrow> schema_worker \<Rightarrow> schema_worker \<times> esp_err" where
  "device_schema_on_ready rt device_id w =
     (if \<not> rt_initialized rt then (w, ESP_ERR_INVALID_STATE)
      else case device_id of
             None \<Rightarrow> (w, ESP_ERR_INVALID_ARG)
           | Some dev \<Rightarrow>
               if dev = [] \<or> strnlen dev GW_MSG_DEVICE_ID_LEN \<ge> GW_MSG_DEVICE_ID_LEN then (w, ESP_ERR_INVALID_ARG)
               else schema_worker_post_event (event_of SCHEMA_EVENT_READY dev) w)"

definition device_schema_on_disconnect :: "schema_runtime \<Rightarrow> string option \<Rightarrow> schema_worker \<Rightarrow> schema_worker" where
  "device_schema_on_disconnect rt device_id w =
     (if \<not> rt_initialized rt then w
      else case device_id of
             None \<Rightarrow> w
           | Some dev \<Rightarrow> if dev = [] then w else fst (schema_worker_post_event (event_of SCHEMA_EVENT_DISCONNECT dev) w))"

definition device_schema_get_refresh_status ::
    "bool \<Rightarrow> schema_runtime \<Rightarrow> string option \<Rightarrow>
     esp_err \<times> (device_schema_refresh_active \<times> device_schema_refresh_completed) option" where
  "device_schema_get_refresh_status lock rt device_id =
     (case device_id of
        None \<Rightarrow> (ESP_ERR_INVALID_ARG, None)
      | Some dev \<Rightarrow>
          if \<not> lock then (ESP_ERR_TIMEOUT, None)
          else case schema_runtime_find_locked rt dev of
                 None \<Rightarrow> (ESP_ERR_NOT_FOUND, None)
               | Some i \<Rightarrow> (ESP_OK, Some (sr_refresh_active (rt_records rt ! i), sr_refresh_last_completed (rt_records rt ! i))))"

text \<open>The registration of the submitter and of the three listeners, and the names of the states.\<close>

definition device_schema_set_submitter :: "bool \<Rightarrow> schema_runtime \<Rightarrow> schema_runtime" where
  "device_schema_set_submitter submitter rt = rt\<lparr>rt_has_submitter := submitter\<rparr>"

definition device_schema_register_commit_listener ::
    "bool \<Rightarrow> (nat \<times> nat) option \<Rightarrow> schema_runtime \<Rightarrow> schema_runtime \<times> esp_err" where
  "device_schema_register_commit_listener lock listener rt =
     (if \<not> lock then (rt, ESP_ERR_TIMEOUT) else (rt\<lparr>rt_listener1 := listener\<rparr>, ESP_OK))"

definition device_schema_register_commit_listener2 ::
    "bool \<Rightarrow> (nat \<times> nat) option \<Rightarrow> schema_runtime \<Rightarrow> schema_runtime \<times> esp_err" where
  "device_schema_register_commit_listener2 lock listener rt =
     (if \<not> lock then (rt, ESP_ERR_TIMEOUT) else (rt\<lparr>rt_listener2 := listener\<rparr>, ESP_OK))"

definition device_schema_register_commit_listener3 ::
    "bool \<Rightarrow> (nat \<times> nat) option \<Rightarrow> schema_runtime \<Rightarrow> schema_runtime \<times> esp_err" where
  "device_schema_register_commit_listener3 lock listener rt =
     (if \<not> lock then (rt, ESP_ERR_TIMEOUT) else (rt\<lparr>rt_listener3 := listener\<rparr>, ESP_OK))"

fun device_schema_state_name :: "device_schema_state \<Rightarrow> string" where
  "device_schema_state_name DEVICE_SCHEMA_STATE_UNKNOWN = ''unknown''"
| "device_schema_state_name DEVICE_SCHEMA_STATE_DISCOVERING = ''discovering''"
| "device_schema_state_name DEVICE_SCHEMA_STATE_READY = ''ready''"
| "device_schema_state_name DEVICE_SCHEMA_STATE_UNSUPPORTED = ''unsupported''"
| "device_schema_state_name DEVICE_SCHEMA_STATE_ERROR = ''error''"

fun device_schema_settings_state_name :: "device_settings_state \<Rightarrow> string" where
  "device_schema_settings_state_name DEVICE_SETTINGS_STATE_UNKNOWN = ''unknown''"
| "device_schema_settings_state_name DEVICE_SETTINGS_STATE_UNSUPPORTED = ''unsupported''"
| "device_schema_settings_state_name DEVICE_SETTINGS_STATE_READY = ''ready''"

fun device_schema_refresh_result_name :: "device_schema_refresh_result \<Rightarrow> string" where
  "device_schema_refresh_result_name DEVICE_SCHEMA_REFRESH_RESULT_NONE = ''none''"
| "device_schema_refresh_result_name DEVICE_SCHEMA_REFRESH_RESULT_SUCCESS = ''success''"
| "device_schema_refresh_result_name DEVICE_SCHEMA_REFRESH_RESULT_UNCHANGED = ''unchanged''"
| "device_schema_refresh_result_name DEVICE_SCHEMA_REFRESH_RESULT_NOT_PERSISTED = ''not_persisted''"
| "device_schema_refresh_result_name DEVICE_SCHEMA_REFRESH_RESULT_UNSUPPORTED = ''unsupported''"
| "device_schema_refresh_result_name DEVICE_SCHEMA_REFRESH_RESULT_BUSY = ''busy''"
| "device_schema_refresh_result_name DEVICE_SCHEMA_REFRESH_RESULT_TIMEOUT = ''timeout''"
| "device_schema_refresh_result_name DEVICE_SCHEMA_REFRESH_RESULT_DISCONNECTED = ''disconnected''"
| "device_schema_refresh_result_name DEVICE_SCHEMA_REFRESH_RESULT_TRANSPORT_ERROR = ''transport_error''"
| "device_schema_refresh_result_name DEVICE_SCHEMA_REFRESH_RESULT_PROTOCOL_ERROR = ''protocol_error''"
| "device_schema_refresh_result_name DEVICE_SCHEMA_REFRESH_RESULT_INTERNAL_ERROR = ''internal_error''"

text \<open>The two critical sections that follow a refused post and a successful erase.\<close>

definition refresh_undo :: "string \<Rightarrow> schema_runtime \<Rightarrow> schema_runtime" where
  "refresh_undo device_id rt =
     (case schema_runtime_find_locked rt device_id of
        Some j \<Rightarrow> update_record rt j (\<lambda>r. r\<lparr>sr_operation_state := SCHEMA_OP_IDLE,
                    sr_refresh_active := \<lparr>ra_generation = 0, ra_state = DEVICE_SCHEMA_REFRESH_IDLE\<rparr>\<rparr>)
      | None \<Rightarrow> rt)"

definition forget_clear :: "string \<Rightarrow> schema_runtime \<Rightarrow> schema_runtime" where
  "forget_clear device_id rt =
     (case schema_runtime_find_locked rt device_id of
        Some j \<Rightarrow> update_record rt j (\<lambda>_. zero_record)
      | None \<Rightarrow> rt)"

section \<open>Starting an operation\<close>

definition set_owner_active :: "bool \<Rightarrow> schema_runtime \<Rightarrow> schema_runtime" where
  "set_owner_active b rt = rt\<lparr>rt_owner := (rt_owner rt)\<lparr>ow_active := b\<rparr>\<rparr>"

text \<open>The loop of \<open>start_next_pending\<close>: the first queued record, unless an operation runs.\<close>

definition next_pending :: "schema_runtime \<Rightarrow> (string \<times> schema_operation_kind \<times> u32) option" where
  "next_pending rt =
     (if ow_active (rt_owner rt) then None
      else case find_index (\<lambda>r. sr_used r \<and> sr_operation_state r = SCHEMA_OP_QUEUED) (rt_records rt) of
             None \<Rightarrow> None
           | Some i \<Rightarrow>
               let r = rt_records rt ! i
               in if sn_device_id (sr_committed r) = [] then None
                  else Some (sn_device_id (sr_committed r), sr_operation_kind r, ra_generation (sr_refresh_active r)))"

definition mark_running :: "u32 \<Rightarrow> schema_operation_kind \<Rightarrow> u32 \<Rightarrow> schema_record \<Rightarrow> schema_record" where
  "mark_running op_id kind generation r =
     (let r1 = r\<lparr>sr_operation_id := op_id, sr_operation_kind := kind, sr_operation_state := SCHEMA_OP_RUNNING,
                 sr_staging_active := False, sr_staging_operation_id := op_id,
                 sr_committed := (sr_committed r)\<lparr>sn_state := DEVICE_SCHEMA_STATE_DISCOVERING\<rparr>\<rparr>
      in if kind = SCHEMA_OP_MANUAL
         then r1\<lparr>sr_refresh_active := \<lparr>ra_generation = generation, ra_state = DEVICE_SCHEMA_REFRESH_RUNNING\<rparr>\<rparr>
         else r1)"

text \<open>
  The first critical section of \<open>start_discovery\<close>. The result holds the operation identifier when the
  operation was started, and \<open>None\<close> when it was queued or the table is full.
\<close>

definition begin_discovery ::
    "string \<Rightarrow> schema_operation_kind \<Rightarrow> u32 \<Rightarrow> schema_runtime \<Rightarrow> schema_runtime \<times> u32 option" where
  "begin_discovery device_id kind generation rt =
     (case schema_runtime_find_or_create_locked rt device_id of
        (rt0, None) \<Rightarrow> (rt0, None)
      | (rt0, Some i) \<Rightarrow>
          if ow_active (rt_owner rt0)
          then (update_record rt0 i (\<lambda>r. r\<lparr>sr_operation_state := SCHEMA_OP_QUEUED,
                  sr_committed := (sr_committed r)\<lparr>sn_state := DEVICE_SCHEMA_STATE_DISCOVERING\<rparr>\<rparr>), None)
          else
            let (rt1, op_id) = schema_runtime_next_operation_id rt0;
                rt2 = rt1\<lparr>rt_owner := \<lparr>ow_active = True, ow_device_id = strlcpy GW_MSG_DEVICE_ID_LEN device_id,
                                       ow_operation_id = op_id, ow_kind = kind, ow_refresh_generation = generation\<rparr>\<rparr>
            in (update_record rt2 i (mark_running op_id kind generation), Some op_id))"

text \<open>The critical section of the three failure branches.\<close>

definition fail_discovery :: "string \<Rightarrow> schema_runtime \<Rightarrow> schema_runtime" where
  "fail_discovery device_id rt =
     set_owner_active False
       (case schema_runtime_find_locked rt device_id of
          Some i \<Rightarrow> update_record rt i reset_record_error
        | None \<Rightarrow> rt)"

definition discovery_query :: "string \<Rightarrow> gw_message" where
  "discovery_query device_id =
     zero_message\<lparr>m_protocol_version := GW_PROTOCOL_VERSION, m_has_device_id := True,
       m_type := strlcpy GW_MSG_TYPE_LEN ''device_command'', m_device_id := strlcpy GW_MSG_DEVICE_ID_LEN device_id,
       m_command := strlcpy GW_MSG_COMMAND_LEN DEVICE_SCHEMA_RESERVED_COMMAND\<rparr>"

definition discovery_done :: "device_schema_submit_result \<Rightarrow> completion_context option \<Rightarrow> schema_event" where
  "discovery_done result context =
     (case context of
        None \<Rightarrow> (event_of SCHEMA_EVENT_COMPLETION [])\<lparr>sev_completion := result\<rparr>
      | Some c \<Rightarrow> (event_of SCHEMA_EVENT_COMPLETION (cc_device_id c))
          \<lparr>sev_completion := result, sev_operation_id := cc_operation_id c,
           sev_refresh_generation := cc_refresh_generation c\<rparr>)"

section \<open>The handlers\<close>

definition close_refresh :: "u32 \<Rightarrow> device_schema_refresh_result \<Rightarrow> int \<Rightarrow> schema_record \<Rightarrow> schema_record" where
  "close_refresh generation result now_ms r =
     r\<lparr>sr_refresh_active := \<lparr>ra_generation = 0, ra_state = DEVICE_SCHEMA_REFRESH_IDLE\<rparr>,
       sr_refresh_last_completed := \<lparr>rc_generation = generation, rc_result = result, rc_finished_at_ms = now_ms\<rparr>\<rparr>"

definition error_unless_committed :: "schema_record \<Rightarrow> schema_record" where
  "error_unless_committed r =
     (if \<not> sr_has_committed r
      then r\<lparr>sr_committed := (sr_committed r)\<lparr>sn_state := DEVICE_SCHEMA_STATE_ERROR\<rparr>\<rparr> else r)"

definition disconnect_running :: "int \<Rightarrow> schema_record \<Rightarrow> schema_record" where
  "disconnect_running now_ms r =
     (let r1 = r\<lparr>sr_staging_active := False, sr_staging := zero_snapshot\<rparr>;
          r2 = (if sr_operation_kind r1 = SCHEMA_OP_MANUAL
                then close_refresh 0 DEVICE_SCHEMA_REFRESH_RESULT_DISCONNECTED now_ms r1
                else error_unless_committed r1)
      in r2\<lparr>sr_operation_state := SCHEMA_OP_IDLE\<rparr>)"

definition disconnect_queued :: "int \<Rightarrow> schema_record \<Rightarrow> schema_record" where
  "disconnect_queued now_ms r =
     (let r1 = (if sr_operation_kind r = SCHEMA_OP_MANUAL
                then close_refresh (rc_generation (sr_refresh_last_completed r))
                       DEVICE_SCHEMA_REFRESH_RESULT_DISCONNECTED now_ms r
                else error_unless_committed r)
      in r1\<lparr>sr_operation_state := SCHEMA_OP_IDLE\<rparr>)"

text \<open>The critical section of \<open>handle_disconnect\<close>; the result says whether the next operation is looked for.\<close>

definition handle_disconnect :: "bool \<Rightarrow> int \<Rightarrow> string \<Rightarrow> schema_runtime \<Rightarrow> schema_runtime \<times> bool" where
  "handle_disconnect lock now_ms device_id rt =
     (if \<not> lock then (rt, False)
      else case schema_runtime_find_locked rt device_id of
             None \<Rightarrow> (rt, False)
           | Some i \<Rightarrow>
               let r = rt_records rt ! i; own = rt_owner rt
               in if sr_operation_state r = SCHEMA_OP_RUNNING \<and> ow_active own \<and> ow_device_id own = device_id \<and>
                     ow_operation_id own = sr_operation_id r
                  then (set_owner_active False (update_record rt i (disconnect_running now_ms)), True)
                  else if sr_operation_state r = SCHEMA_OP_QUEUED
                  then (update_record rt i (disconnect_queued now_ms), True)
                  else (rt, True))"

definition refresh_result_of :: "device_schema_submit_result \<Rightarrow> bool \<Rightarrow> device_schema_refresh_result" where
  "refresh_result_of completion has_committed =
     (case completion of
        DEVICE_SCHEMA_SUBMIT_OK \<Rightarrow>
          if has_committed then DEVICE_SCHEMA_REFRESH_RESULT_SUCCESS else DEVICE_SCHEMA_REFRESH_RESULT_INTERNAL_ERROR
      | DEVICE_SCHEMA_SUBMIT_BUSY \<Rightarrow> DEVICE_SCHEMA_REFRESH_RESULT_BUSY
      | DEVICE_SCHEMA_SUBMIT_TIMEOUT \<Rightarrow> DEVICE_SCHEMA_REFRESH_RESULT_TIMEOUT
      | DEVICE_SCHEMA_SUBMIT_NOT_CONNECTED \<Rightarrow> DEVICE_SCHEMA_REFRESH_RESULT_DISCONNECTED
      | DEVICE_SCHEMA_SUBMIT_TRANSPORT_ERROR \<Rightarrow> DEVICE_SCHEMA_REFRESH_RESULT_TRANSPORT_ERROR
      | DEVICE_SCHEMA_SUBMIT_REJECTED \<Rightarrow> DEVICE_SCHEMA_REFRESH_RESULT_UNSUPPORTED
      | _ \<Rightarrow> DEVICE_SCHEMA_REFRESH_RESULT_INTERNAL_ERROR)"

definition complete_record ::
    "int \<Rightarrow> u32 \<Rightarrow> device_schema_submit_result \<Rightarrow> schema_record \<Rightarrow> schema_record" where
  "complete_record now_ms event_generation completion r =
     (let r1 = (if completion \<noteq> DEVICE_SCHEMA_SUBMIT_OK then error_unless_committed r else r);
          r2 = (if sr_operation_kind r1 = SCHEMA_OP_MANUAL
                then close_refresh event_generation (refresh_result_of completion (sr_has_committed r1)) now_ms r1
                else r1)
      in r2\<lparr>sr_operation_state := SCHEMA_OP_IDLE\<rparr>)"

definition handle_completion ::
    "bool \<Rightarrow> int \<Rightarrow> string \<Rightarrow> u32 \<Rightarrow> u32 \<Rightarrow> device_schema_submit_result \<Rightarrow> schema_runtime \<Rightarrow> schema_runtime \<times> bool" where
  "handle_completion lock now_ms device_id event_op_id event_generation completion rt =
     (if \<not> lock then (rt, False)
      else case schema_runtime_find_locked rt device_id of
             None \<Rightarrow> (set_owner_active False rt, True)
           | Some i \<Rightarrow>
               let own = rt_owner rt
               in if \<not> ow_active own \<or> ow_device_id own \<noteq> device_id \<or> ow_operation_id own \<noteq> event_op_id
                  then (rt, False)
                  else (set_owner_active False
                          (update_record rt i (complete_record now_ms event_generation completion)), True))"

text \<open>\<open>schema_discovery_handle_ready\<close>: whether a discovery is started, and the listeners it calls.\<close>

definition schema_discovery_handle_ready ::
    "bool \<Rightarrow> string \<Rightarrow> schema_runtime \<Rightarrow> bool \<times> (nat \<times> nat \<times> string \<times> u32) list" where
  "schema_discovery_handle_ready lock device_id rt =
     (if \<not> lock then (False, [])
      else case schema_runtime_find_locked rt device_id of
             None \<Rightarrow> (True, [])
           | Some i \<Rightarrow>
               let r = rt_records rt ! i; c = sr_committed r
               in if sr_has_committed r \<and> sn_state c = DEVICE_SCHEMA_STATE_READY
                  then (False, schema_runtime_notify_commit rt device_id (sn_revision c))
                  else if sr_operation_state r \<noteq> SCHEMA_OP_IDLE then (False, [])
                  else if sr_has_committed r \<and>
                          (sn_state c = DEVICE_SCHEMA_STATE_ERROR \<or> sn_state c = DEVICE_SCHEMA_STATE_UNSUPPORTED)
                  then (False, [])
                  else (True, []))"

section \<open>The worker\<close>

datatype disc_pc =
    PC_IDLE
  | PC_START string schema_operation_kind u32
  | PC_SUBMIT string u32 u32
  | PC_FAIL string
  | PC_NEXT

record disc_choice =
  ch_lock :: bool
  ch_alloc :: bool
  ch_submit :: "gw_message \<Rightarrow> esp_err"
  ch_now_ms :: int
  ch_end :: end_env

definition started :: "string \<Rightarrow> u32 \<Rightarrow> u32 option \<Rightarrow> disc_pc" where
  "started device_id generation op = (case op of None \<Rightarrow> PC_IDLE | Some op_id \<Rightarrow> PC_SUBMIT device_id op_id generation)"

text \<open>
  One critical section of the worker while it handles an event. \<open>PC_SUBMIT\<close> is the call of the
  submitter; an accepted submission leaves its completion context with the submitter.
\<close>

fun worker_move :: "disc_choice \<Rightarrow> disc_pc \<Rightarrow> schema_runtime \<Rightarrow> disc_pc \<times> schema_runtime \<times> completion_context list" where
  "worker_move ch PC_IDLE rt = (PC_IDLE, rt, [])"
| "worker_move ch (PC_START device_id kind generation) rt =
     (if \<not> ch_lock ch then (PC_IDLE, rt, [])
      else case begin_discovery device_id kind generation rt of (rt1, op) \<Rightarrow> (started device_id generation op, rt1, []))"
| "worker_move ch (PC_SUBMIT device_id op_id generation) rt =
     (if \<not> rt_has_submitter rt \<or> \<not> ch_alloc ch \<or> ch_submit ch (discovery_query device_id) \<noteq> ESP_OK
      then (PC_FAIL device_id, rt, [])
      else (PC_IDLE, rt, [\<lparr>cc_device_id = strlcpy GW_MSG_DEVICE_ID_LEN device_id, cc_operation_id = op_id,
                          cc_refresh_generation = generation\<rparr>]))"
| "worker_move ch (PC_FAIL device_id) rt = (PC_NEXT, if ch_lock ch then fail_discovery device_id rt else rt, [])"
| "worker_move ch PC_NEXT rt =
     (if \<not> ch_lock ch then (PC_IDLE, rt, [])
      else case next_pending rt of
             None \<Rightarrow> (PC_IDLE, rt, [])
           | Some (device_id, kind, generation) \<Rightarrow> (PC_START device_id kind generation, rt, []))"

text \<open>The first critical section of the handler of an event (\<open>schema_worker_task\<close>).\<close>

definition worker_take :: "disc_choice \<Rightarrow> schema_event \<Rightarrow> schema_runtime \<Rightarrow> disc_pc \<times> schema_runtime" where
  "worker_take ch e rt =
     (case sev_type e of
        SCHEMA_EVENT_READY \<Rightarrow>
          (if fst (schema_discovery_handle_ready (ch_lock ch) (sev_device_id e) rt)
           then PC_START (sev_device_id e) SCHEMA_OP_INITIAL 0 else PC_IDLE, rt)
      | SCHEMA_EVENT_REFRESH \<Rightarrow> (PC_START (sev_device_id e) SCHEMA_OP_MANUAL (sev_refresh_generation e), rt)
      | SCHEMA_EVENT_DISCONNECT \<Rightarrow>
          (case handle_disconnect (ch_lock ch) (ch_now_ms ch) (sev_device_id e) rt of
             (rt1, next) \<Rightarrow> (if next then PC_NEXT else PC_IDLE, rt1))
      | SCHEMA_EVENT_NOTIFY \<Rightarrow>
          (PC_IDLE, case sev_message e of
                      None \<Rightarrow> rt
                    | Some msg \<Rightarrow> fst (schema_protocol_handle_message (ch_end ch) (sev_device_id e) msg rt))
      | SCHEMA_EVENT_COMPLETION \<Rightarrow>
          (case handle_completion (ch_lock ch) (ch_now_ms ch) (sev_device_id e) (sev_operation_id e)
                  (sev_refresh_generation e) (sev_completion e) rt of
             (rt1, next) \<Rightarrow> (if next then PC_NEXT else PC_IDLE, rt1)))"

end
