(* ===== verification/Discovery_Run.thy ===== *)
theory Discovery_Run
  imports Schema_Discovery
begin

text \<open>
  Discovery as a step system: the worker with its queue, the tasks that post events, start refreshes
  and forget devices, and the submitter, which answers the accepted submissions in any order.

  The invariant says that a running operation is the one the global owner names, so at most one runs.
  It needs that a completion finds the record of its device. \<open>forget_clear\<close> can break that, therefore
  \<open>disc_step\<close> has a flag: a careful run clears a record only when no completion for its device is on
  its way.
\<close>

section \<open>Steps\<close>

record disc_config =
  dq_rt :: schema_runtime
  dq_pc :: disc_pc
  dq_worker :: schema_worker
  dq_pending :: "completion_context list"
  dq_undo :: "string list"
  dq_forget :: "string list"

definition queued_events :: "disc_config \<Rightarrow> schema_event list" where
  "queued_events c = (case sw_queue (dq_worker c) of None \<Rightarrow> [] | Some q \<Rightarrow> q)"

definition quiet :: "string \<Rightarrow> disc_config \<Rightarrow> bool" where
  "quiet dev c \<longleftrightarrow>
     (\<forall>cx\<in>set (dq_pending c). cc_device_id cx \<noteq> dev) \<and>
     (\<forall>e\<in>set (queued_events c). sev_type e = SCHEMA_EVENT_COMPLETION \<longrightarrow> sev_device_id e \<noteq> dev) \<and>
     (case dq_pc c of PC_SUBMIT d _ _ \<Rightarrow> d \<noteq> dev | _ \<Rightarrow> True)"

inductive disc_step :: "bool \<Rightarrow> disc_config \<Rightarrow> disc_config \<Rightarrow> bool" for careful :: bool where
  take: "\<lbrakk>dq_pc c = PC_IDLE; sw_queue (dq_worker c) = Some (e # q); worker_take ch e (dq_rt c) = (pc, rt)\<rbrakk> \<Longrightarrow>
    disc_step careful c (c\<lparr>dq_rt := rt, dq_pc := pc, dq_worker := (dq_worker c)\<lparr>sw_queue := Some q\<rparr>\<rparr>)"
| move: "\<lbrakk>dq_pc c \<noteq> PC_IDLE; worker_move ch (dq_pc c) (dq_rt c) = (pc, rt, subs)\<rbrakk> \<Longrightarrow>
    disc_step careful c (c\<lparr>dq_rt := rt, dq_pc := pc, dq_pending := dq_pending c @ subs\<rparr>)"
| answer: "cx \<in> set (dq_pending c) \<Longrightarrow>
    disc_step careful c (c\<lparr>dq_pending := remove1 cx (dq_pending c),
      dq_worker := fst (schema_worker_post_event (discovery_done result (Some cx)) (dq_worker c))\<rparr>)"
| ready: "disc_step careful c (c\<lparr>dq_worker := fst (device_schema_on_ready (dq_rt c) dev (dq_worker c))\<rparr>)"
| gone: "disc_step careful c (c\<lparr>dq_worker := device_schema_on_disconnect (dq_rt c) dev (dq_worker c)\<rparr>)"
| notify: "disc_step careful c
    (c\<lparr>dq_worker := fst (schema_worker_post_notify lock alloc (dq_rt c) dev msg (dq_worker c))\<rparr>)"
| refresh: "\<lbrakk>length dev < GW_MSG_DEVICE_ID_LEN;
      device_schema_refresh store_lock lock relock ESP_OK store (Some dev) (dq_rt c) = (rt, ESP_OK, Some gen);
      schema_worker_post_event ((event_of SCHEMA_EVENT_REFRESH dev)\<lparr>sev_refresh_generation := gen\<rparr>) (dq_worker c) = (w, err)\<rbrakk> \<Longrightarrow>
    disc_step careful c (c\<lparr>dq_rt := rt, dq_worker := w, dq_undo := (if err = ESP_OK then dq_undo c else dev # dq_undo c)\<rparr>)"
| undo: "dev \<in> set (dq_undo c) \<Longrightarrow>
    disc_step careful c (c\<lparr>dq_rt := refresh_undo dev (dq_rt c), dq_undo := remove1 dev (dq_undo c)\<rparr>)"
| forget: "\<lbrakk>device_schema_forget True relock ESP_FAIL (Some dev) (dq_rt c) = (rt, ESP_FAIL)\<rbrakk> \<Longrightarrow>
    disc_step careful c (c\<lparr>dq_rt := rt, dq_forget := dev # dq_forget c\<rparr>)"
| clear: "\<lbrakk>dev \<in> set (dq_forget c); careful \<longrightarrow> quiet dev c\<rbrakk> \<Longrightarrow>
    disc_step careful c (c\<lparr>dq_rt := forget_clear dev (dq_rt c), dq_forget := remove1 dev (dq_forget c)\<rparr>)"

text \<open>
  The sections of the steps are those of the two functions: a refused post undoes the reservation, and
  a successful erase clears the record.
\<close>

lemma refresh_sections:
  assumes "device_schema_refresh sl l rl ESP_OK store (Some dev) rt = (rt', ESP_OK, Some gen)" "err \<noteq> ESP_OK"
  shows "device_schema_refresh sl l True err store (Some dev) rt = (refresh_undo dev rt', err, Some gen)"
  using assms by (auto simp: device_schema_refresh_def refresh_undo_def Let_def split: if_splits option.splits prod.splits)

lemma forget_sections:
  assumes "device_schema_forget True rl ESP_FAIL (Some dev) rt = (rt', ESP_FAIL)"
  shows "device_schema_forget True True ESP_OK (Some dev) rt = (forget_clear dev rt', ESP_OK)"
  using assms by (auto simp: device_schema_forget_def forget_clear_def Let_def split: if_splits option.splits)

section \<open>The invariant\<close>

definition running :: "schema_record \<Rightarrow> bool" where
  "running r \<longleftrightarrow> sr_used r \<and> sr_operation_state r = SCHEMA_OP_RUNNING"

definition rec_id :: "schema_record \<Rightarrow> string" where
  "rec_id r = sn_device_id (sr_committed r)"

definition ids_unique :: "schema_runtime \<Rightarrow> bool" where
  "ids_unique rt \<longleftrightarrow>
     (\<forall>i < length (rt_records rt). \<forall>j < length (rt_records rt).
        sr_used (rt_records rt ! i) \<longrightarrow> sr_used (rt_records rt ! j) \<longrightarrow>
        rec_id (rt_records rt ! i) = rec_id (rt_records rt ! j) \<longrightarrow> i = j)"

definition owner_ok :: "schema_runtime \<Rightarrow> bool" where
  "owner_ok rt \<longleftrightarrow>
     (\<forall>i < length (rt_records rt). running (rt_records rt ! i) \<longrightarrow>
        ow_active (rt_owner rt) \<and> ow_device_id (rt_owner rt) = rec_id (rt_records rt ! i) \<and>
        ow_operation_id (rt_owner rt) = sr_operation_id (rt_records rt ! i))"

definition core_inv :: "schema_runtime \<Rightarrow> bool" where
  "core_inv rt \<longleftrightarrow> runtime_ok rt \<and> ids_unique rt \<and> owner_ok rt"

definition known :: "schema_runtime \<Rightarrow> string \<Rightarrow> bool" where
  "known rt dev \<longleftrightarrow> (\<exists>i < length (rt_records rt). sr_used (rt_records rt ! i) \<and> rec_id (rt_records rt ! i) = dev)"

text \<open>A step that starts nothing: the records keep their devices, and only running ones run.\<close>

definition tame :: "schema_runtime \<Rightarrow> schema_runtime \<Rightarrow> bool" where
  "tame rt rt' \<longleftrightarrow>
     length (rt_records rt') = length (rt_records rt) \<and> rt_owner rt' = rt_owner rt \<and>
     (\<forall>i < length (rt_records rt).
        sr_used (rt_records rt' ! i) = sr_used (rt_records rt ! i) \<and> rec_id (rt_records rt' ! i) = rec_id (rt_records rt ! i) \<and>
        (running (rt_records rt' ! i) \<longrightarrow>
           running (rt_records rt ! i) \<and> sr_operation_id (rt_records rt' ! i) = sr_operation_id (rt_records rt ! i)))"

lemma tame_refl [simp]: "tame rt rt"
  by (simp add: tame_def)

lemma tame_trans: "tame a b \<Longrightarrow> tame b c \<Longrightarrow> tame a c"
  by (simp add: tame_def)

lemma tame_core: "\<lbrakk>core_inv rt; tame rt rt'; runtime_ok rt'\<rbrakk> \<Longrightarrow> core_inv rt'"
  unfolding core_inv_def tame_def ids_unique_def owner_ok_def by metis

lemma tame_known: "tame rt rt' \<Longrightarrow> known rt' dev = known rt dev"
  by (auto simp: tame_def known_def)

definition harmless :: "schema_record \<Rightarrow> schema_record \<Rightarrow> bool" where
  "harmless r r' \<longleftrightarrow> sr_used r' = sr_used r \<and> rec_id r' = rec_id r \<and>
     (running r' \<longrightarrow> running r \<and> sr_operation_id r' = sr_operation_id r)"

lemma tame_update: "harmless (rt_records rt ! i) (f (rt_records rt ! i)) \<Longrightarrow> tame rt (update_record rt i f)"
  by (cases "i < length (rt_records rt)")
    (auto simp: tame_def update_record_def harmless_def nth_list_update list_update_beyond)

lemma find_known: "schema_runtime_find_locked rt dev = None \<longleftrightarrow> \<not> known rt dev"
  unfolding schema_runtime_find_locked_def find_index_None known_def rec_id_def by (metis in_set_conv_nth)

lemma find_locked_D:
  "schema_runtime_find_locked rt dev = Some i \<Longrightarrow>
     i < length (rt_records rt) \<and> sr_used (rt_records rt ! i) \<and> rec_id (rt_records rt ! i) = dev"
  unfolding schema_runtime_find_locked_def rec_id_def by (drule find_index_SomeD) simp

text \<open>The sections that start nothing.\<close>

lemma record_ok_simps:
  "record_ok (r\<lparr>sr_operation_state := a\<rparr>) = record_ok r" "record_ok (r\<lparr>sr_refresh_active := b\<rparr>) = record_ok r"
  "record_ok (r\<lparr>sr_refresh_last_completed := c\<rparr>) = record_ok r" "record_ok (r\<lparr>sr_operation_kind := d\<rparr>) = record_ok r"
  "record_ok (r\<lparr>sr_operation_id := e\<rparr>) = record_ok r"
  by (simp_all add: record_ok_def)

lemma record_ok_state: "record_ok r \<Longrightarrow> record_ok (r\<lparr>sr_committed := (sr_committed r)\<lparr>sn_state := s\<rparr>\<rparr>)"
  by (simp add: record_ok_def)

lemma record_ok_unstaged: "record_ok r \<Longrightarrow> record_ok (r\<lparr>sr_staging_active := False, sr_staging := zero_snapshot\<rparr>)"
  by (simp add: record_ok_def)

lemmas shape = harmless_def running_def rec_id_def

lemma close_refresh_tame: "record_ok r \<Longrightarrow> record_ok (close_refresh g x n r)" "harmless r (close_refresh g x n r)"
  "running (close_refresh g x n r) = running r"
  by (simp_all add: close_refresh_def record_ok_simps shape)

lemma error_unless_committed_tame: "record_ok r \<Longrightarrow> record_ok (error_unless_committed r)"
  "harmless r (error_unless_committed r)"
  by (simp_all add: error_unless_committed_def record_ok_state shape)

text \<open>Records that an operation leaves: well formed, of the same device, and not running.\<close>

definition settled :: "schema_record \<Rightarrow> schema_record \<Rightarrow> bool" where
  "settled r r' \<longleftrightarrow> sr_used r' = sr_used r \<and> rec_id r' = rec_id r \<and> \<not> running r'"

lemma settled_harmless: "settled r r' \<Longrightarrow> harmless r r'"
  by (simp add: settled_def harmless_def)

lemma settled_records:
  "settled r (reset_record_error r)" "settled r (disconnect_running n r)" "settled r (disconnect_queued n r)"
  "settled r (complete_record n g x r)"
  by (auto simp: settled_def running_def rec_id_def reset_record_error_def disconnect_running_def disconnect_queued_def
      complete_record_def close_refresh_def error_unless_committed_def Let_def)

lemma settled_records_ok:
  assumes "record_ok r"
  shows "record_ok (reset_record_error r)" "record_ok (disconnect_running n r)" "record_ok (disconnect_queued n r)"
    "record_ok (complete_record n g x r)"
  using assms record_ok_unstaged [OF assms]
  by (auto simp: reset_record_error_ok disconnect_running_def disconnect_queued_def complete_record_def Let_def record_ok_simps
      close_refresh_tame error_unless_committed_tame)

lemma handle_message_tame:
  assumes "runtime_ok rt" shows "tame rt (fst (schema_protocol_handle_message env dev msg rt))"
proof -
  have st: "harmless r (stage_tool msg t r)" "harmless r (stage_feature msg f r)" "harmless r (begin_staging dev msg r)"
    for r t f
    by (auto simp: stage_tool_def stage_feature_def begin_staging_def Let_def shape reset_record_error_def split: option.splits)
  have dirty: "harmless r (r\<lparr>sr_persist_dirty := b\<rparr>)" for r b by (simp add: shape)
  have end1: "tame rt (persist_commit env dev ch c rt)" for rt ch c
    by (auto simp: persist_commit_def Let_def dirty intro!: tame_update split: option.splits)
  have "tame rt (persist_commit env dev ch c (update_record rt i (commit_staging n)))"
    if "schema_runtime_find_locked rt dev = Some i" "staging_complete msg (rt_records rt ! i)" for i n ch c
  proof (rule tame_trans [OF tame_update end1])
    show "harmless (rt_records rt ! i) (commit_staging n (rt_records rt ! i))"
      using find_locked_Some [OF assms that(1)] that(2)
      by (auto simp: commit_staging_def Let_def shape staging_complete_def record_ok_def)
  qed
  then have "tame rt (fst (handle_end env dev msg rt))"
    by (auto simp: handle_end_def Let_def settled_records settled_harmless intro!: tame_update split: option.splits)
  moreover have "tame rt (handle_begin l dev msg rt)" for l
    unfolding handle_begin_def by (simp add: tame_update st split: option.split)
  moreover have "tame rt (handle_tool_item l dev msg rt)" for l
    unfolding handle_tool_item_def Let_def by (simp add: tame_update st split: option.split)
  moreover have "tame rt (handle_feature_item l dev msg rt)" for l
    unfolding handle_feature_item_def by (simp add: tame_update st split: option.split)
  ultimately show ?thesis by (simp add: schema_protocol_handle_message_def)
qed

text \<open>The end of an operation gives the ownership back.\<close>

lemma set_owner_simps [simp]:
  "rt_records (set_owner_active b rt) = rt_records rt" "ow_active (rt_owner (set_owner_active b rt)) = b"
  "rt_records (update_record rt i f) = (rt_records rt)[i := f (rt_records rt ! i)]"
  "rt_owner (update_record rt i f) = rt_owner rt" "known (set_owner_active b rt) dev = known rt dev"
  by (simp_all add: set_owner_active_def update_record_def known_def)

lemma core_idle: "core_inv rt \<Longrightarrow> \<not> ow_active (rt_owner rt) \<Longrightarrow> i < length (rt_records rt) \<Longrightarrow> \<not> running (rt_records rt ! i)"
  by (auto simp: core_inv_def owner_ok_def)

lemma release_core:
  assumes "core_inv rt" "\<And>i. i < length (rt_records rt) \<Longrightarrow> \<not> running (rt_records rt ! i)"
  shows "core_inv (set_owner_active False rt)"
  using assms by (simp add: core_inv_def runtime_ok_def ids_unique_def owner_ok_def)

lemma settle_core:
  assumes c: "core_inv rt" and f: "schema_runtime_find_locked rt dev = Some i"
    and own: "ow_active (rt_owner rt) \<longrightarrow> ow_device_id (rt_owner rt) = dev"
    and g: "settled (rt_records rt ! i) (g (rt_records rt ! i))" "record_ok (g (rt_records rt ! i))"
  shows "core_inv (set_owner_active False (update_record rt i g))"
proof (rule release_core)
  let ?rt = "update_record rt i g"
  show "core_inv ?rt"
    using tame_core [OF c tame_update [of rt i g]] update_record_ok [of rt g i] settled_harmless [OF g(1)] c g(2)
    by (simp add: core_inv_def)
  fix j assume j: "j < length (rt_records ?rt)"
  show "\<not> running (rt_records ?rt ! j)"
  proof
    assume r: "running (rt_records ?rt ! j)"
    note fd = find_locked_D [OF f]
    have ne: "j \<noteq> i" using r g(1) fd by (auto simp: settled_def)
    then have rj: "running (rt_records rt ! j)" "j < length (rt_records rt)" using r j by simp_all
    then have "rec_id (rt_records rt ! j) = dev" using c own by (auto simp: core_inv_def owner_ok_def)
    moreover have "sr_used (rt_records rt ! j)" using rj by (simp add: running_def)
    ultimately have "j = i" using c fd rj(2) unfolding core_inv_def ids_unique_def by metis
    with ne show False ..
  qed
qed


text \<open>Creating a record and starting an operation.\<close>

lemma fresh_record_ok: "record_ok (fresh_record dev)" "sr_used (fresh_record dev)" "\<not> running (fresh_record dev)"
  "length dev < GW_MSG_DEVICE_ID_LEN \<Longrightarrow> rec_id (fresh_record dev) = dev"
  by (simp_all add: fresh_record_def record_ok_def zero_record_def running_def rec_id_def zero_snapshot_def snapshot_ok_def)

lemma find_or_create_core:
  assumes "core_inv rt" "length dev < GW_MSG_DEVICE_ID_LEN" "schema_runtime_find_or_create_locked rt dev = (rt', oi)"
  shows "core_inv rt' \<and> rt_owner rt' = rt_owner rt \<and> (\<forall>d. known rt d \<longrightarrow> known rt' d) \<and>
    (\<forall>i. oi = Some i \<longrightarrow> i < length (rt_records rt') \<and> sr_used (rt_records rt' ! i) \<and> rec_id (rt_records rt' ! i) = dev)"
proof (cases "schema_runtime_find_locked rt dev")
  case (Some i)
  then show ?thesis
    using assms find_locked_D [OF Some] by (auto simp: schema_runtime_find_or_create_locked_def)
next
  case None
  show ?thesis
  proof (cases "find_index (\<lambda>r. \<not> sr_used r) (rt_records rt)")
    case None2: None
    with None show ?thesis using assms by (auto simp: schema_runtime_find_or_create_locked_def)
  next
    case (Some k)
    then have k: "k < length (rt_records rt)" "\<not> sr_used (rt_records rt ! k)" by (auto dest: find_index_SomeD)
    have rt': "rt' = update_record rt k (\<lambda>_. fresh_record dev)" "oi = Some k"
      using assms(3) None Some by (auto simp: schema_runtime_find_or_create_locked_def update_record_def)
    have nk: "\<not> known rt dev" using None by (simp add: find_known)
    have "ids_unique rt'"
      using assms(1,2) k nk unfolding core_inv_def ids_unique_def known_def rt'(1)
      by (auto simp: nth_list_update fresh_record_ok)
    moreover have "owner_ok rt'"
      using assms(1) k by (auto simp: core_inv_def owner_ok_def rt'(1) nth_list_update fresh_record_ok)
    moreover have "runtime_ok rt'"
      using assms(1) by (auto simp: core_inv_def rt'(1) fresh_record_ok intro: update_record_ok)
    moreover have "known rt' d" if "known rt d" for d
      using that k unfolding known_def rt'(1) by (metis length_list_update nth_list_update_neq set_owner_simps(3))
    ultimately show ?thesis
      using k assms(2) by (auto simp: core_inv_def rt' fresh_record_ok)
  qed
qed

lemma mark_running_shape: "record_ok r \<Longrightarrow> record_ok (mark_running op k g r)" "sr_used (mark_running op k g r) = sr_used r"
  "rec_id (mark_running op k g r) = rec_id r" "sr_operation_id (mark_running op k g r) = op"
  by (auto simp: mark_running_def Let_def record_ok_def rec_id_def)

lemma begin_discovery_core:
  assumes "core_inv rt" "length dev < GW_MSG_DEVICE_ID_LEN" "begin_discovery dev kind g rt = (rt', op)"
  shows "core_inv rt' \<and> (\<forall>d. known rt d \<longrightarrow> known rt' d) \<and>
    (op \<noteq> None \<longrightarrow> known rt' dev \<and> ow_device_id (rt_owner rt') = dev)"
proof -
  obtain rt0 oi where f: "schema_runtime_find_or_create_locked rt dev = (rt0, oi)" by fastforce
  note c = find_or_create_core [OF assms(1,2) f]
  show ?thesis
  proof (cases oi)
    case None
    then show ?thesis using assms(3) f c by (auto simp: begin_discovery_def)
  next
    case (Some i)
    have ok: "record_ok (rt_records rt0 ! i)" using c Some by (auto simp: core_inv_def runtime_ok_def)
    show ?thesis
    proof (cases "ow_active (rt_owner rt0)")
      case True
      let ?f = "\<lambda>r. r\<lparr>sr_operation_state := SCHEMA_OP_QUEUED, sr_committed := (sr_committed r)\<lparr>sn_state := DEVICE_SCHEMA_STATE_DISCOVERING\<rparr>\<rparr>"
      have t: "tame rt0 (update_record rt0 i ?f)" by (rule tame_update) (simp add: shape)
      have "core_inv (update_record rt0 i ?f)"
        using tame_core [OF _ t] update_record_ok [of rt0 ?f i] c ok by (simp add: core_inv_def record_ok_def)
      then show ?thesis using assms(3) f c Some True tame_known [OF t] by (auto simp: begin_discovery_def)
    next
      case False
      define op' where "op' = snd (schema_runtime_next_operation_id rt0)"
      define rt1 where "rt1 = (fst (schema_runtime_next_operation_id rt0))\<lparr>rt_owner := \<lparr>ow_active = True,
         ow_device_id = dev, ow_operation_id = op', ow_kind = kind, ow_refresh_generation = g\<rparr>\<rparr>"
      have rt': "rt' = update_record rt1 i (mark_running op' kind g)" "op = Some op'"
        using assms(2,3) f Some False
        by (auto simp: begin_discovery_def rt1_def op'_def Let_def schema_runtime_next_operation_id_def)
      have r1: "rt_records rt1 = rt_records rt0"
        by (simp add: rt1_def schema_runtime_next_operation_id_def Let_def)
      have own: "ow_active (rt_owner rt1)" "ow_device_id (rt_owner rt1) = dev" "ow_operation_id (rt_owner rt1) = op'"
        by (simp_all add: rt1_def)
      have idle: "\<not> running (rt_records rt0 ! j)" if "j < length (rt_records rt0)" for j
        using core_idle [of rt0] c False that by blast
      have i: "i < length (rt_records rt0)" "sr_used (rt_records rt0 ! i)" "rec_id (rt_records rt0 ! i) = dev" using c Some by auto
      have "ids_unique rt'"
        using c i unfolding core_inv_def ids_unique_def rt'(1) by (auto simp: r1 nth_list_update mark_running_shape)
      moreover have "owner_ok rt'"
        using idle i by (auto simp: owner_ok_def rt'(1) r1 own nth_list_update mark_running_shape)
      moreover have "runtime_ok rt'"
        unfolding rt'(1) using c ok by (intro update_record_ok) (auto simp: core_inv_def runtime_ok_def r1 mark_running_shape)
      moreover have kn: "known rt' d = known rt0 d" for d
        using i by (auto simp: known_def rt'(1) r1 nth_list_update mark_running_shape)
      moreover have "known rt0 dev" using i by (auto simp: known_def)
      ultimately show ?thesis using c own by (auto simp: core_inv_def rt')
    qed
  qed
qed


lemma release_core_unknown:
  assumes "core_inv rt" "\<not> known rt dev" "ow_active (rt_owner rt) \<longrightarrow> ow_device_id (rt_owner rt) = dev"
  shows "core_inv (set_owner_active False rt)"
proof (rule release_core [OF assms(1)])
  fix i assume i: "i < length (rt_records rt)"
  show "\<not> running (rt_records rt ! i)"
    using assms i by (auto simp: core_inv_def owner_ok_def known_def running_def)
qed

lemma settle_known: "settled (rt_records rt ! i) (g (rt_records rt ! i)) \<Longrightarrow> known (update_record rt i g) d = known rt d"
  using tame_known [OF tame_update [of rt i g]] settled_harmless by blast

lemma fail_discovery_core:
  assumes "core_inv rt" "ow_active (rt_owner rt) \<longrightarrow> ow_device_id (rt_owner rt) = dev"
  shows "core_inv (fail_discovery dev rt) \<and> known (fail_discovery dev rt) = known rt \<and> \<not> ow_active (rt_owner (fail_discovery dev rt))"
proof (cases "schema_runtime_find_locked rt dev")
  case None
  then have "\<not> known rt dev" by (simp add: find_known)
  then show ?thesis
    using release_core_unknown [OF assms(1) _ assms(2)] by (simp add: fail_discovery_def None fun_eq_iff)
next
  case (Some i)
  have "record_ok (rt_records rt ! i)" using assms(1) find_locked_Some [OF _ Some] by (simp add: core_inv_def)
  then show ?thesis
    using settle_core [OF assms(1) Some assms(2), of reset_record_error] settled_records settled_records_ok
      settle_known [of rt i reset_record_error]
    by (simp add: fail_discovery_def Some fun_eq_iff)
qed

lemma handle_disconnect_core:
  assumes "core_inv rt" "handle_disconnect l n dev rt = (rt', next)"
  shows "core_inv rt' \<and> known rt' = known rt"
proof (cases "schema_runtime_find_locked rt dev")
  case None
  then show ?thesis using assms by (auto simp: handle_disconnect_def split: if_splits)
next
  case (Some i)
  have ok: "record_ok (rt_records rt ! i)" using assms(1) find_locked_Some [OF _ Some] by (simp add: core_inv_def)
  let ?q = "update_record rt i (disconnect_queued n)"
  have q: "core_inv ?q"
    using tame_core [OF assms(1) tame_update [of rt i "disconnect_queued n"]] settled_harmless [OF settled_records(3)]
      update_record_ok [of rt "disconnect_queued n" i] settled_records_ok [OF ok] assms(1) by (simp add: core_inv_def)
  show ?thesis
    using assms q settle_core [OF assms(1) Some, of "disconnect_running n"] settled_records_ok [OF ok] settled_records
      settle_known [of rt i "disconnect_running n"] settle_known [of rt i "disconnect_queued n"]
    by (auto simp: handle_disconnect_def Some Let_def fun_eq_iff split: if_splits)
qed

lemma find_unique:
  assumes "ids_unique rt" "i < length (rt_records rt)" "sr_used (rt_records rt ! i)" "rec_id (rt_records rt ! i) = dev"
  shows "schema_runtime_find_locked rt dev = Some i"
proof -
  have "schema_runtime_find_locked rt dev \<noteq> None" using assms by (auto simp: find_known known_def)
  then obtain j where j: "schema_runtime_find_locked rt dev = Some j" by blast
  with find_locked_D [OF j] assms have "i = j" unfolding ids_unique_def by metis
  with j show ?thesis by simp
qed

lemma disconnect_running_effect:
  assumes "core_inv rt" "schema_runtime_find_locked rt dev = Some i" "running (rt_records rt ! i)"
  shows "handle_disconnect True now dev rt = (set_owner_active False (update_record rt i (disconnect_running now)), True)"
proof -
  note d = find_locked_D [OF assms(2)]
  have "ow_active (rt_owner rt) \<and> ow_device_id (rt_owner rt) = dev \<and> ow_operation_id (rt_owner rt) = sr_operation_id (rt_records rt ! i)"
    using assms(1,3) d unfolding core_inv_def owner_ok_def by blast
  then show ?thesis using assms(2,3) by (simp add: handle_disconnect_def running_def)
qed

lemma handle_completion_core:
  assumes "core_inv rt" "known rt dev" "handle_completion l n dev op g x rt = (rt', next)"
  shows "core_inv rt' \<and> known rt' = known rt"
proof -
  obtain i where i: "schema_runtime_find_locked rt dev = Some i" using assms(2) find_known by blast
  have ok: "record_ok (rt_records rt ! i)" using assms(1) find_locked_Some [OF _ i] by (simp add: core_inv_def)
  show ?thesis
    using assms settle_core [OF assms(1) i, of "complete_record n g x"] settled_records_ok [OF ok] settled_records
      settle_known [of rt i "complete_record n g x"]
    by (auto simp: handle_completion_def i Let_def fun_eq_iff split: if_splits)
qed

lemma refresh_core:
  assumes "core_inv rt" "length dev < GW_MSG_DEVICE_ID_LEN"
    and "device_schema_refresh sl l rl ESP_OK store (Some dev) rt = (rt', ESP_OK, Some gen)"
  shows "core_inv rt' \<and> (\<forall>d. known rt d \<longrightarrow> known rt' d) \<and> rt_owner rt' = rt_owner rt"
proof -
  obtain rt0 oi where f: "schema_runtime_find_or_create_locked rt dev = (rt0, oi)" by fastforce
  note c = find_or_create_core [OF assms(1,2) f]
  obtain i where i: "oi = Some i"
    using assms(3) f by (cases oi) (auto simp: device_schema_refresh_def split: if_splits)
  define rt1 where "rt1 = fst (schema_runtime_next_operation_id (fst (schema_runtime_next_generation rt0)))"
  obtain op where rt': "rt' = update_record rt1 i (\<lambda>r. r\<lparr>sr_operation_kind := SCHEMA_OP_MANUAL,
      sr_operation_state := SCHEMA_OP_QUEUED, sr_operation_id := op,
      sr_refresh_active := \<lparr>ra_generation = gen, ra_state = DEVICE_SCHEMA_REFRESH_QUEUED\<rparr>\<rparr>)"
    using assms(3) f i
    by (auto simp: device_schema_refresh_def rt1_def schema_runtime_next_operation_id_def schema_runtime_next_generation_def
        Let_def split: if_splits)
  have r1: "rt_records rt1 = rt_records rt0" "rt_owner rt1 = rt_owner rt0"
    by (simp_all add: rt1_def schema_runtime_next_operation_id_def schema_runtime_next_generation_def Let_def)
  have c1: "core_inv rt1" "known rt1 = known rt0"
    using c by (auto simp: core_inv_def runtime_ok_def ids_unique_def owner_ok_def known_def r1)
  have ok: "record_ok (rt_records rt1 ! i)" using c i by (auto simp: core_inv_def runtime_ok_def r1)
  have t: "tame rt1 rt'" unfolding rt' by (rule tame_update) (simp add: shape)
  have "runtime_ok rt'" unfolding rt' using c1 ok by (intro update_record_ok) (simp_all add: core_inv_def record_ok_simps)
  with c1 t tame_core have "core_inv rt'" by blast
  moreover have "known rt' d" if "known rt d" for d
    using that c tame_known [OF t] c1(2) by simp
  moreover have "rt_owner rt' = rt_owner rt" using c r1 by (simp add: rt')
  ultimately show ?thesis by blast
qed

lemma undo_core:
  assumes "core_inv rt" shows "core_inv (refresh_undo dev rt) \<and> known (refresh_undo dev rt) = known rt \<and>
    rt_owner (refresh_undo dev rt) = rt_owner rt"
proof (cases "schema_runtime_find_locked rt dev")
  case (Some i)
  let ?f = "\<lambda>r. r\<lparr>sr_operation_state := SCHEMA_OP_IDLE, sr_refresh_active := \<lparr>ra_generation = 0, ra_state = DEVICE_SCHEMA_REFRESH_IDLE\<rparr>\<rparr>"
  have ok: "record_ok (rt_records rt ! i)" using assms find_locked_Some [OF _ Some] by (simp add: core_inv_def)
  have t: "tame rt (update_record rt i ?f)" by (rule tame_update) (simp add: shape)
  have "runtime_ok (update_record rt i ?f)" using assms ok by (intro update_record_ok) (simp_all add: core_inv_def record_ok_simps)
  with t show ?thesis using tame_core [OF assms t] tame_known [OF t] by (simp add: refresh_undo_def Some fun_eq_iff)
qed (simp add: refresh_undo_def assms)

lemma forget_core:
  assumes "core_inv rt" "device_schema_forget True rl ESP_FAIL (Some dev) rt = (rt', ESP_FAIL)"
  shows "core_inv rt' \<and> known rt' = known rt \<and> (ow_active (rt_owner rt') \<longrightarrow> rt_owner rt' = rt_owner rt)"
proof -
  obtain i where i: "schema_runtime_find_locked rt dev = Some i"
    using assms(2) by (auto simp: device_schema_forget_def split: if_splits option.splits)
  let ?r = "rt_records rt ! i"
  define busy where "busy = (sr_operation_state ?r \<noteq> SCHEMA_OP_IDLE)"
  define g :: "schema_record \<Rightarrow> schema_record" where "g = (\<lambda>r. (if busy then r\<lparr>sr_operation_state := SCHEMA_OP_IDLE\<rparr> else r)\<lparr>sr_staging_active := False, sr_staging := zero_snapshot\<rparr>)"
  note fd = find_locked_D [OF i]
  have ok: "record_ok ?r" using assms(1) find_locked_Some [OF _ i] by (simp add: core_inv_def)
  have s: "settled ?r (g ?r)" by (auto simp: g_def busy_def settled_def running_def rec_id_def)
  have gok: "record_ok (g ?r)" using record_ok_unstaged [OF ok] by (simp add: g_def record_ok_def)
  have t: "core_inv (update_record rt i g)" "known (update_record rt i g) = known rt"
    using tame_core [OF assms(1) tame_update [of rt i g]] settled_harmless [OF s] update_record_ok [of rt g i] gok assms(1)
      settle_known [of rt i g] s by (auto simp: core_inv_def fun_eq_iff)
  have "rt' = (if busy \<and> ow_active (rt_owner rt) \<and> ow_device_id (rt_owner rt) = dev \<and> ow_operation_id (rt_owner rt) = sr_operation_id ?r
               then set_owner_active False (update_record rt i g) else update_record rt i g)"
    using assms(2) i unfolding device_schema_forget_def g_def busy_def
    by (auto simp: Let_def set_owner_active_def update_record_def split: if_splits)
  then show ?thesis
    using t settle_core [OF assms(1) i, of g] s gok by (auto simp: fun_eq_iff)
qed

lemma zero_record_shape: "record_ok zero_record" "\<not> sr_used zero_record"
  by (simp_all add: zero_record_def record_ok_def zero_snapshot_def snapshot_ok_def)

lemma clear_core:
  assumes "core_inv rt"
  shows "core_inv (forget_clear dev rt) \<and> rt_owner (forget_clear dev rt) = rt_owner rt \<and>
    (\<forall>d. d \<noteq> dev \<longrightarrow> known rt d \<longrightarrow> known (forget_clear dev rt) d)"
proof (cases "schema_runtime_find_locked rt dev")
  case (Some i)
  note fd = find_locked_D [OF Some]
  let ?rt = "update_record rt i (\<lambda>_. zero_record)"
  have "ids_unique ?rt"
    using assms fd unfolding core_inv_def ids_unique_def by (auto simp: nth_list_update zero_record_shape)
  moreover have "owner_ok ?rt"
    using assms fd by (auto simp: core_inv_def owner_ok_def nth_list_update zero_record_shape running_def)
  moreover have "runtime_ok ?rt" using assms by (auto simp: core_inv_def zero_record_shape intro: update_record_ok)
  moreover have "known ?rt d" if "d \<noteq> dev" "known rt d" for d
    using that fd unfolding known_def by (metis length_list_update nth_list_update_neq set_owner_simps(3))
  ultimately show ?thesis by (simp add: forget_clear_def Some core_inv_def)
qed (simp add: forget_clear_def assms)

section \<open>Reachable configurations\<close>

definition pc_ok :: "schema_runtime \<Rightarrow> disc_pc \<Rightarrow> bool" where
  "pc_ok rt pc =
     (case pc of
        PC_START d _ _ \<Rightarrow> length d < GW_MSG_DEVICE_ID_LEN
      | PC_SUBMIT d _ _ \<Rightarrow> length d < GW_MSG_DEVICE_ID_LEN \<and> known rt d \<and>
          (ow_active (rt_owner rt) \<longrightarrow> ow_device_id (rt_owner rt) = d)
      | PC_FAIL d \<Rightarrow> ow_active (rt_owner rt) \<longrightarrow> ow_device_id (rt_owner rt) = d
      | _ \<Rightarrow> True)"

definition event_targets :: "schema_runtime \<Rightarrow> schema_event \<Rightarrow> bool" where
  "event_targets rt e \<longleftrightarrow> length (sev_device_id e) < GW_MSG_DEVICE_ID_LEN \<and>
     (sev_type e = SCHEMA_EVENT_COMPLETION \<longrightarrow> known rt (sev_device_id e))"

definition context_targets :: "schema_runtime \<Rightarrow> completion_context \<Rightarrow> bool" where
  "context_targets rt cx \<longleftrightarrow> length (cc_device_id cx) < GW_MSG_DEVICE_ID_LEN \<and> known rt (cc_device_id cx)"

definition disc_inv :: "disc_config \<Rightarrow> bool" where
  "disc_inv c \<longleftrightarrow>
     core_inv (dq_rt c) \<and> pc_ok (dq_rt c) (dq_pc c) \<and> (\<forall>cx\<in>set (dq_pending c). context_targets (dq_rt c) cx) \<and>
     (\<forall>e\<in>set (queued_events c). event_targets (dq_rt c) e)"

definition disc_start :: "disc_config \<Rightarrow> bool" where
  "disc_start c \<longleftrightarrow>
     runtime_ok (dq_rt c) \<and> ids_unique (dq_rt c) \<and> (\<forall>r\<in>set (rt_records (dq_rt c)). sr_operation_state r = SCHEMA_OP_IDLE) \<and>
     rt_initialized (dq_rt c) \<and> \<not> ow_active (rt_owner (dq_rt c)) \<and> dq_pc c = PC_IDLE \<and> sw_queue (dq_worker c) = Some [] \<and>
     dq_pending c = [] \<and> dq_undo c = [] \<and> dq_forget c = []"

lemma disc_start_inv: "disc_start c \<Longrightarrow> disc_inv c"
  by (auto simp: disc_start_def disc_inv_def core_inv_def owner_ok_def running_def pc_ok_def queued_events_def)

text \<open>Steps of the other tasks on the table, and steps that only post an event.\<close>

lemma inv_table:
  assumes "disc_inv c" "core_inv rt" "\<And>d. known (dq_rt c) d \<Longrightarrow> known rt d"
    "ow_active (rt_owner rt) \<longrightarrow> rt_owner rt = rt_owner (dq_rt c)"
  shows "disc_inv (c\<lparr>dq_rt := rt\<rparr>)"
  using assms unfolding disc_inv_def pc_ok_def context_targets_def event_targets_def queued_events_def
  by (auto split: disc_pc.splits)

lemma inv_fields [simp]:
  "disc_inv (c\<lparr>dq_undo := u\<rparr>) = disc_inv c" "disc_inv (c\<lparr>dq_forget := f\<rparr>) = disc_inv c"
  by (simp_all add: disc_inv_def queued_events_def)

definition adds :: "schema_event \<Rightarrow> schema_worker \<Rightarrow> schema_worker \<Rightarrow> bool" where
  "adds e w w' \<longleftrightarrow> (case sw_queue w' of None \<Rightarrow> True
     | Some q' \<Rightarrow> set q' \<subseteq> insert e (case sw_queue w of None \<Rightarrow> {} | Some q \<Rightarrow> set q))"

lemma adds_refl [simp]: "adds e w w"
  by (auto simp: adds_def split: option.splits)

lemma send_adds: "sw_queue w = Some q \<Longrightarrow> adds e w (fst (send_event e q w))"
  by (auto simp: send_event_def adds_def Let_def)

lemma post_adds: "adds e w (fst (schema_worker_post_event e w))"
  using send_adds [of w] by (simp add: schema_worker_post_event_def case_prod_beta split: option.split)

lemma notify_adds:
  "\<exists>e. adds e w (fst (schema_worker_post_notify l a rt dev msg w)) \<and> sev_type e = SCHEMA_EVENT_NOTIFY \<and>
     length (sev_device_id e) < GW_MSG_DEVICE_ID_LEN"
proof -
  let ?ev = "\<lambda>op m. (event_of SCHEMA_EVENT_NOTIFY (the dev))\<lparr>sev_operation_id := op, sev_message := Some m\<rparr>"
  have ev: "sev_type (?ev op m) = SCHEMA_EVENT_NOTIFY" "length (sev_device_id (?ev op m)) < GW_MSG_DEVICE_ID_LEN" for op m
    by (simp_all add: event_of_def)
  obtain op m where "adds (?ev op m) w (fst (schema_worker_post_notify l a rt dev msg w))"
    using send_adds [of w] adds_refl
    by (fastforce simp: schema_worker_post_notify_def Let_def adds_def split: option.splits if_splits)
  with ev show ?thesis by blast
qed

lemma inv_post:
  assumes "disc_inv c" "adds e (dq_worker c) w" "event_targets (dq_rt c) e"
  shows "disc_inv (c\<lparr>dq_worker := w\<rparr>)"
  using assms unfolding disc_inv_def adds_def queued_events_def by (auto split: option.splits)


lemma worker_take_inv:
  assumes "disc_inv c" "dq_pc c = PC_IDLE" "sw_queue (dq_worker c) = Some (e # q)" "worker_take ch e (dq_rt c) = (pc, rt)"
  shows "disc_inv (c\<lparr>dq_rt := rt, dq_pc := pc, dq_worker := (dq_worker c)\<lparr>sw_queue := Some q\<rparr>\<rparr>)"
proof -
  have i: "core_inv (dq_rt c)" "event_targets (dq_rt c) e" "\<forall>e\<in>set q. event_targets (dq_rt c) e"
    "\<forall>cx\<in>set (dq_pending c). context_targets (dq_rt c) cx"
    using assms(1,3) by (auto simp: disc_inv_def queued_events_def)
  have n: "core_inv (fst (schema_protocol_handle_message env d msg (dq_rt c)))"
    "known (fst (schema_protocol_handle_message env d msg (dq_rt c))) = known (dq_rt c)" for env d msg
    using tame_core [OF i(1) handle_message_tame] handle_message_ok tame_known [OF handle_message_tame] i(1)
    by (auto simp: core_inv_def fun_eq_iff)
  have "core_inv rt \<and> known rt = known (dq_rt c) \<and> pc_ok rt pc"
  proof (cases "sev_type e")
    case SCHEMA_EVENT_DISCONNECT
    then show ?thesis
      using assms(4) handle_disconnect_core [OF i(1)] by (auto simp: worker_take_def pc_ok_def split: prod.splits if_splits)
  next
    case SCHEMA_EVENT_COMPLETION
    then show ?thesis
      using assms(4) handle_completion_core [OF i(1)] i(2)
      by (auto simp: worker_take_def pc_ok_def event_targets_def split: prod.splits if_splits)
  qed (use assms(4) i n in \<open>auto simp: worker_take_def pc_ok_def event_targets_def split: if_splits option.splits\<close>)
  with i(3,4) show ?thesis
    by (auto simp: disc_inv_def queued_events_def event_targets_def context_targets_def)
qed

lemma worker_move_inv:
  assumes "disc_inv c" "worker_move ch (dq_pc c) (dq_rt c) = (pc, rt, subs)"
  shows "disc_inv (c\<lparr>dq_rt := rt, dq_pc := pc, dq_pending := dq_pending c @ subs\<rparr>)"
proof -
  have i: "core_inv (dq_rt c)" "pc_ok (dq_rt c) (dq_pc c)" using assms(1) by (auto simp: disc_inv_def)
  have np: "length d < GW_MSG_DEVICE_ID_LEN" if "next_pending (dq_rt c) = Some (d, k, g)" for d k g
    using that i(1) by (auto simp: next_pending_def core_inv_def runtime_ok_def record_ok_def Let_def
        split: if_splits option.splits dest!: find_index_SomeD)
  have "core_inv rt \<and> (\<forall>d. known (dq_rt c) d \<longrightarrow> known rt d) \<and> pc_ok rt pc \<and> (\<forall>cx\<in>set subs. context_targets rt cx)"
  proof (cases "dq_pc c")
    case (PC_START d k g)
    then show ?thesis
      using assms(2) i begin_discovery_core [OF i(1), of d k g]
      by (auto simp: pc_ok_def started_def split: if_splits prod.splits option.splits)
  next
    case (PC_SUBMIT d op g)
    then show ?thesis using assms(2) i by (auto simp: pc_ok_def context_targets_def split: if_splits)
  next
    case (PC_FAIL d)
    then show ?thesis using assms(2) i fail_discovery_core [OF i(1), of d] by (auto simp: pc_ok_def split: if_splits)
  next
    case PC_NEXT
    then show ?thesis using assms(2) i np by (auto simp: pc_ok_def split: if_splits option.splits)
  qed (use assms(2) i in \<open>auto simp: pc_ok_def\<close>)
  with assms(1) show ?thesis
    by (auto simp: disc_inv_def queued_events_def event_targets_def context_targets_def)
qed

lemma clear_inv:
  assumes "disc_inv c" "quiet dev c" shows "disc_inv (c\<lparr>dq_rt := forget_clear dev (dq_rt c)\<rparr>)"
  using assms clear_core [of "dq_rt c" dev]
  unfolding disc_inv_def pc_ok_def context_targets_def event_targets_def queued_events_def quiet_def
  by (auto split: disc_pc.splits)

lemma disc_step_inv:
  assumes "disc_step True c c'" "disc_inv c" shows "disc_inv c'"
  using assms
proof cases
  case (take e q ch pc rt)
  then show ?thesis using worker_take_inv assms(2) by blast
next
  case (move ch pc rt subs)
  then show ?thesis using worker_move_inv assms(2) by blast
next
  case (answer cx result)
  have t: "event_targets (dq_rt c) (discovery_done result (Some cx))"
    using answer assms(2) by (auto simp: event_targets_def discovery_done_def event_of_def disc_inv_def context_targets_def)
  have "disc_inv (c\<lparr>dq_pending := remove1 cx (dq_pending c)\<rparr>)"
    using assms(2) notin_set_remove1 by (fastforce simp: disc_inv_def queued_events_def)
  from inv_post [OF this, of "discovery_done result (Some cx)"] t post_adds show ?thesis
    unfolding answer(1) by simp
next
  case (ready dev)
  let ?e = "event_of SCHEMA_EVENT_READY (case dev of None \<Rightarrow> [] | Some d \<Rightarrow> d)"
  have "adds ?e (dq_worker c) (fst (device_schema_on_ready (dq_rt c) dev (dq_worker c)))"
    by (simp add: device_schema_on_ready_def post_adds split: option.split)
  moreover have "event_targets (dq_rt c) ?e" by (simp add: event_targets_def event_of_def)
  ultimately show ?thesis unfolding ready using inv_post [OF assms(2)] by blast
next
  case (gone dev)
  let ?e = "event_of SCHEMA_EVENT_DISCONNECT (case dev of None \<Rightarrow> [] | Some d \<Rightarrow> d)"
  have "adds ?e (dq_worker c) (device_schema_on_disconnect (dq_rt c) dev (dq_worker c))"
    by (simp add: device_schema_on_disconnect_def post_adds split: option.split)
  moreover have "event_targets (dq_rt c) ?e" by (simp add: event_targets_def event_of_def)
  ultimately show ?thesis unfolding gone using inv_post [OF assms(2)] by blast
next
  case (notify l a dev msg)
  then show ?thesis
    using notify_adds [of "dq_worker c" l a "dq_rt c" dev msg] inv_post [OF assms(2)] by (auto simp: event_targets_def)
next
  case (refresh dev sl l rl store rt gen w err)
  have "disc_inv (c\<lparr>dq_rt := rt\<rparr>)"
    using inv_table [OF assms(2)] refresh_core [OF _ refresh(2,3)] assms(2) by (auto simp: disc_inv_def)
  moreover have "adds ((event_of SCHEMA_EVENT_REFRESH dev)\<lparr>sev_refresh_generation := gen\<rparr>) (dq_worker c) w"
    using post_adds refresh(4) by (metis fst_conv)
  ultimately have "disc_inv (c\<lparr>dq_rt := rt, dq_worker := w\<rparr>)"
    using inv_post [of "c\<lparr>dq_rt := rt\<rparr>"] by (auto simp: event_targets_def event_of_def)
  then show ?thesis unfolding refresh(1) by (auto simp: disc_inv_def queued_events_def)
next
  case (undo dev)
  have "disc_inv (c\<lparr>dq_rt := refresh_undo dev (dq_rt c)\<rparr>)"
    using inv_table [OF assms(2)] undo_core assms(2) by (auto simp: disc_inv_def)
  then show ?thesis unfolding undo(1) by (auto simp: disc_inv_def queued_events_def)
next
  case (forget rl dev rt)
  have "disc_inv (c\<lparr>dq_rt := rt\<rparr>)"
    using inv_table [OF assms(2)] forget_core [OF _ forget(2)] assms(2) by (auto simp: disc_inv_def)
  then show ?thesis unfolding forget(1) by (auto simp: disc_inv_def queued_events_def)
next
  case (clear dev)
  have "disc_inv (c\<lparr>dq_rt := forget_clear dev (dq_rt c)\<rparr>)" using clear_inv assms(2) clear by blast
  then show ?thesis unfolding clear(1) by (auto simp: disc_inv_def queued_events_def)
qed

interpretation disc: step_system disc_start "disc_step True" disc_inv
  by unfold_locales (auto intro: disc_start_inv disc_step_inv)

end
