(* ===== verification/Discovery_Props.thy ===== *)
theory Discovery_Props
  imports Discovery_Run
begin

text \<open>
  The properties of schema discovery: operations are serialized, the recursion over the waiting devices
  ends, and what goes wrong when a device is forgotten or disconnects in the middle.
\<close>

section \<open>Uninterrupted runs of the worker\<close>

fun worker_run :: "disc_choice list \<Rightarrow> disc_pc \<Rightarrow> schema_runtime \<Rightarrow> disc_pc \<times> schema_runtime \<times> completion_context list" where
  "worker_run [] pc rt = (pc, rt, [])"
| "worker_run (ch # chs) pc rt =
     (case worker_move ch pc rt of
        (pc1, rt1, subs) \<Rightarrow> (case worker_run chs pc1 rt1 of (pc2, rt2, subs') \<Rightarrow> (pc2, rt2, subs @ subs')))"

definition waiting :: "schema_record \<Rightarrow> bool" where
  "waiting r \<longleftrightarrow> sr_used r \<and> sr_operation_state r = SCHEMA_OP_QUEUED"

definition waiting_set :: "schema_runtime \<Rightarrow> nat set" where
  "waiting_set rt = {i. i < length (rt_records rt) \<and> waiting (rt_records rt ! i)}"

definition waiting_others :: "string \<Rightarrow> schema_runtime \<Rightarrow> nat set" where
  "waiting_others dev rt = {i \<in> waiting_set rt. rec_id (rt_records rt ! i) \<noteq> dev}"

definition moves_left :: "disc_pc \<Rightarrow> schema_runtime \<Rightarrow> nat" where
  "moves_left pc rt =
     (case pc of
        PC_IDLE \<Rightarrow> 0
      | PC_START dev _ _ \<Rightarrow> 4 * card (waiting_others dev rt) + 4
      | PC_SUBMIT _ _ _ \<Rightarrow> 4 * card (waiting_set rt) + 3
      | PC_FAIL _ \<Rightarrow> 4 * card (waiting_set rt) + 2
      | PC_NEXT \<Rightarrow> 4 * card (waiting_set rt) + 1)"

lemma finite_waiting [simp]: "finite (waiting_set rt)" "finite (waiting_others dev rt)"
  by (simp_all add: waiting_set_def waiting_others_def)

lemma waiting_simps [simp]:
  "waiting_set (set_owner_active b rt) = waiting_set rt" "waiting_set (rt\<lparr>rt_owner := own\<rparr>) = waiting_set rt"
  "waiting_set (rt\<lparr>rt_next_operation_id := n\<rparr>) = waiting_set rt"
  by (simp_all add: waiting_set_def)

lemma begin_waiting:
  assumes "core_inv rt" "length dev < GW_MSG_DEVICE_ID_LEN" "begin_discovery dev kind g rt = (rt', Some op)"
  shows "waiting_set rt' \<subseteq> waiting_others dev rt"
proof
  fix j assume j: "j \<in> waiting_set rt'"
  obtain rt0 oi where f: "schema_runtime_find_or_create_locked rt dev = (rt0, oi)" by fastforce
  note c = find_or_create_core [OF assms(1,2) f]
  obtain i where i: "oi = Some i" using assms(3) f by (cases oi) (auto simp: begin_discovery_def)
  have rec: "rt_records rt' = (rt_records rt0)[i := mark_running op kind g (rt_records rt0 ! i)]"
    using assms(3) f i
    by (auto simp: begin_discovery_def Let_def schema_runtime_next_operation_id_def split: if_splits)
  have nw: "\<not> waiting (mark_running op kind g r)" for r by (simp add: waiting_def mark_running_def Let_def)
  have ji: "j \<noteq> i" "j < length (rt_records rt0)" "waiting (rt_records rt0 ! j)"
    using j nw c i by (auto simp: waiting_set_def rec nth_list_update split: if_splits)
  have same: "rt_records rt0 ! j = rt_records rt ! j \<and> length (rt_records rt0) = length (rt_records rt)"
    using f ji i by (auto simp: schema_runtime_find_or_create_locked_def split: option.splits)
  have "rec_id (rt_records rt0 ! j) \<noteq> dev"
    using c i ji unfolding core_inv_def ids_unique_def waiting_def by metis
  with same ji show "j \<in> waiting_others dev rt" by (auto simp: waiting_others_def waiting_set_def)
qed

lemma fail_waiting: "waiting_set (fail_discovery dev rt) \<subseteq> waiting_set rt"
proof -
  have "\<not> waiting (reset_record_error r)" for r by (simp add: waiting_def reset_record_error_def Let_def)
  then show ?thesis
    by (auto simp: fail_discovery_def waiting_set_def nth_list_update split: option.splits if_splits dest!: find_locked_D)
qed

lemma next_waiting:
  assumes "next_pending rt = Some (dev, kind, g)" shows "card (waiting_others dev rt) < card (waiting_set rt)"
proof (rule psubset_card_mono)
  obtain i where "i < length (rt_records rt)" "waiting (rt_records rt ! i)" "rec_id (rt_records rt ! i) = dev"
    using assms by (auto simp: next_pending_def waiting_def rec_id_def Let_def split: if_splits option.splits dest!: find_index_SomeD)
  then show "waiting_others dev rt \<subset> waiting_set rt" by (auto simp: waiting_others_def waiting_set_def)
qed simp

lemma worker_move_progress:
  assumes "core_inv rt" "pc_ok rt pc" "pc \<noteq> PC_IDLE" "worker_move ch pc rt = (pc', rt', subs)"
  shows "moves_left pc' rt' < moves_left pc rt \<and> core_inv rt' \<and> pc_ok rt' pc'"
proof -
  define c where "c = \<lparr>dq_rt = rt, dq_pc = pc, dq_worker = \<lparr>sw_queue = None, sw_has_task = True, sw_enqueued = 0, sw_dropped = 0,
     sw_high_watermark = 0, sw_message_alloc_fail = 0\<rparr>, dq_pending = [], dq_undo = [], dq_forget = []\<rparr>"
  have "disc_inv c" using assms(1,2) by (simp add: c_def disc_inv_def queued_events_def)
  then have "core_inv rt' \<and> pc_ok rt' pc'"
    using worker_move_inv [of c ch pc' rt' subs] assms(4) by (simp add: c_def disc_inv_def)
  moreover have "moves_left pc' rt' < moves_left pc rt"
  proof (cases pc)
    case (PC_START d k g)
    then have "length d < GW_MSG_DEVICE_ID_LEN" using assms(2) by (simp add: pc_ok_def)
    then show ?thesis
      using assms(4) PC_START card_mono [OF finite_waiting(2) begin_waiting [OF assms(1), of d k g]]
      by (auto simp: moves_left_def started_def split: if_splits prod.splits option.splits)
  next
    case (PC_FAIL d)
    then show ?thesis
      using assms(4) card_mono [OF finite_waiting(1) fail_waiting [of d rt]] by (auto simp: moves_left_def split: if_splits)
  next
    case PC_NEXT
    then show ?thesis
      using assms(4) next_waiting [of rt] by (fastforce simp: moves_left_def split: if_splits option.splits)
  qed (use assms(3,4) in \<open>auto simp: moves_left_def split: if_splits\<close>)
  ultimately show ?thesis by blast
qed

lemma worker_run_idle: "fst (worker_run chs PC_IDLE rt) = PC_IDLE"
  by (induction chs) (auto split: prod.splits)

lemma worker_run_ends:
  "\<lbrakk>core_inv rt; pc_ok rt pc; moves_left pc rt \<le> length chs\<rbrakk> \<Longrightarrow> fst (worker_run chs pc rt) = PC_IDLE"
proof (induction chs pc rt rule: worker_run.induct)
  case (1 pc rt)
  then show ?case by (auto simp: moves_left_def split: disc_pc.splits)
next
  case (2 ch chs pc rt)
  show ?case
  proof (cases "pc = PC_IDLE")
    case True
    then show ?thesis using worker_run_idle by blast
  next
    case False
    obtain pc' rt' subs where m: "worker_move ch pc rt = (pc', rt', subs)" by (metis prod_cases3)
    from worker_move_progress [OF 2(2,3) False m] 2(4) have "fst (worker_run chs pc' rt') = PC_IDLE"
      using 2(1) [OF m [symmetric] refl] by auto
    then show ?thesis by (simp add: m case_prod_beta)
  qed
qed

lemma moves_left_bound:
  assumes "core_inv rt" shows "moves_left pc rt \<le> 68"
proof -
  have "waiting_set rt \<subseteq> {..<16}" using assms by (auto simp: waiting_set_def core_inv_def runtime_ok_def)
  then have "card (waiting_set rt) \<le> 16" using card_mono [of "{..<16}" "waiting_set rt"] by simp
  moreover have "card (waiting_others dev rt) \<le> card (waiting_set rt)" for dev
    by (rule card_mono) (auto simp: waiting_others_def)
  ultimately show ?thesis by (auto simp: moves_left_def split: disc_pc.split intro: order_trans)
qed

section \<open>A run that starts two operations\<close>

text \<open>From an idle worker, a device that becomes ready is asked for its schema.\<close>

lemma on_ready_posts:
  assumes "rt_initialized rt" "sw_queue w = Some []" "dev \<noteq> []" "length dev < GW_MSG_DEVICE_ID_LEN"
  shows "sw_queue (fst (device_schema_on_ready rt (Some dev) w)) = Some [event_of SCHEMA_EVENT_READY dev]"
proof -
  have "strnlen dev GW_MSG_DEVICE_ID_LEN < GW_MSG_DEVICE_ID_LEN"
    using assms(4) length_takeWhile_le [of "\<lambda>c. c \<noteq> CHR 0x00" dev] by (simp add: strnlen_def cstr_def)
  then show ?thesis
    using assms by (simp add: device_schema_on_ready_def schema_worker_post_event_def send_event_def Let_def)
qed

definition eager :: disc_choice where
  "eager = \<lparr>ch_lock = True, ch_alloc = True, ch_submit = (\<lambda>_. ESP_OK), ch_now_ms = 0,
     ch_end = \<lparr>ee_alloc = True, ee_now_ms = 0, ee_lock = True, ee_lock_index = True, ee_lock_persist = True,
       ee_persist = (\<lambda>_ _. ESP_OK)\<rparr>\<rparr>"

definition idle_config :: "disc_config \<Rightarrow> bool" where
  "idle_config c \<longleftrightarrow> dq_pc c = PC_IDLE \<and> sw_queue (dq_worker c) = Some [] \<and> rt_initialized (dq_rt c) \<and> rt_has_submitter (dq_rt c)"

lemma start_device:
  assumes "idle_config c" "dev \<noteq> []" "length dev < GW_MSG_DEVICE_ID_LEN"
    and "schema_runtime_find_locked (dq_rt c) dev = None" "begin_discovery dev SCHEMA_OP_INITIAL 0 (dq_rt c) = (rt, Some op)"
  shows "\<exists>c'. (disc_step b)\<^sup>*\<^sup>* c c' \<and> idle_config c' \<and> dq_rt c' = rt \<and> dq_forget c' = dq_forget c \<and>
    dq_pending c' = dq_pending c @ [\<lparr>cc_device_id = dev, cc_operation_id = op, cc_refresh_generation = 0\<rparr>]"
proof -
  let ?w = "fst (device_schema_on_ready (dq_rt c) (Some dev) (dq_worker c))"
  define c1 where "c1 = c\<lparr>dq_worker := ?w\<rparr>"
  define c2 where "c2 = c1\<lparr>dq_rt := dq_rt c, dq_pc := PC_START dev SCHEMA_OP_INITIAL 0, dq_worker := ?w\<lparr>sw_queue := Some []\<rparr>\<rparr>"
  define c3 where "c3 = c2\<lparr>dq_rt := rt, dq_pc := PC_SUBMIT dev op 0, dq_pending := dq_pending c2 @ []\<rparr>"
  define c4 where "c4 = c3\<lparr>dq_rt := rt, dq_pc := PC_IDLE,
     dq_pending := dq_pending c3 @ [\<lparr>cc_device_id = strlcpy GW_MSG_DEVICE_ID_LEN dev, cc_operation_id = op, cc_refresh_generation = 0\<rparr>]\<rparr>"
  have i: "dq_pc c = PC_IDLE" "sw_queue (dq_worker c) = Some []" "rt_initialized (dq_rt c)" "rt_has_submitter (dq_rt c)"
    using assms(1) by (simp_all add: idle_config_def)
  have keep: "rt_initialized rt" "rt_has_submitter rt"
    using assms(5) i(3,4)
    by (auto simp: begin_discovery_def schema_runtime_find_or_create_locked_def schema_runtime_next_operation_id_def update_record_def
        Let_def split: if_splits option.splits)
  have "disc_step b c c1" unfolding c1_def by (rule disc_step.ready)
  moreover have "disc_step b c1 c2"
    unfolding c2_def using disc_step.take [of c1 "event_of SCHEMA_EVENT_READY dev" "[]" eager
        "PC_START dev SCHEMA_OP_INITIAL 0" "dq_rt c" b] on_ready_posts [OF i(3,2) assms(2,3)] i assms(3,4)
    by (simp add: c1_def worker_take_def event_of_def schema_discovery_handle_ready_def eager_def)
  moreover have "disc_step b c2 c3"
    unfolding c3_def using disc_step.move [of c2 eager "PC_SUBMIT dev op 0" rt "[]" b] assms(5)
    by (simp add: c2_def eager_def started_def)
  moreover have "disc_step b c3 c4"
    unfolding c4_def using disc_step.move [of c3 eager "PC_IDLE" rt _ b] keep by (simp add: c3_def eager_def)
  ultimately have "(disc_step b)\<^sup>*\<^sup>* c c4" by (meson rtranclp.rtrancl_into_rtrancl rtranclp.rtrancl_refl)
  moreover have "idle_config c4" "dq_rt c4 = rt" "dq_forget c4 = dq_forget c"
    "dq_pending c4 = dq_pending c @ [\<lparr>cc_device_id = dev, cc_operation_id = op, cc_refresh_generation = 0\<rparr>]"
    using keep assms(3) by (simp_all add: idle_config_def c4_def c3_def c2_def c1_def)
  ultimately show ?thesis by blast
qed

lemma begin_fresh:
  assumes "schema_runtime_find_locked rt dev = None" "find_index (\<lambda>r. \<not> sr_used r) (rt_records rt) = Some k"
    and "\<not> ow_active (rt_owner rt)" "length dev < GW_MSG_DEVICE_ID_LEN"
  shows "begin_discovery dev kind g rt =
    (rt\<lparr>rt_records := (rt_records rt)[k := mark_running (bump_nonzero (rt_next_operation_id rt)) kind g (fresh_record dev)],
        rt_next_operation_id := bump_nonzero (rt_next_operation_id rt),
        rt_owner := \<lparr>ow_active = True, ow_device_id = dev, ow_operation_id = bump_nonzero (rt_next_operation_id rt), ow_kind = kind,
                     ow_refresh_generation = g\<rparr>\<rparr>, Some (bump_nonzero (rt_next_operation_id rt)))"
  using assms find_index_SomeD [OF assms(2)]
  by (simp add: begin_discovery_def schema_runtime_find_or_create_locked_def schema_runtime_next_operation_id_def Let_def
      update_record_def)

definition disc_demo_rt :: schema_runtime where
  "disc_demo_rt = \<lparr>rt_records = replicate 16 zero_record, rt_has_submitter = True, rt_listener1 = None, rt_listener2 = None,
     rt_listener3 = None, rt_owner = zero_owner, rt_next_operation_id = 0, rt_next_generation = 0, rt_initialized = True\<rparr>"

definition disc_demo :: disc_config where
  "disc_demo = \<lparr>dq_rt = disc_demo_rt, dq_pc = PC_IDLE, dq_worker = \<lparr>sw_queue = Some [], sw_has_task = True, sw_enqueued = 0,
     sw_dropped = 0, sw_high_watermark = 0, sw_message_alloc_fail = 0\<rparr>, dq_pending = [], dq_undo = [], dq_forget = []\<rparr>"

lemma disc_demo_start: "disc_start disc_demo"
  by (auto simp: disc_start_def disc_demo_def disc_demo_rt_def runtime_ok_def ids_unique_def zero_record_shape zero_owner_def)
    (simp_all add: zero_record_def)

lemma disc_demo_idle: "idle_config disc_demo"
  by (simp add: idle_config_def disc_demo_def disc_demo_rt_def)

abbreviation asked :: "u32 \<Rightarrow> string \<Rightarrow> schema_record" where
  "asked op dev \<equiv> mark_running op SCHEMA_OP_INITIAL 0 (fresh_record dev)"

abbreviation table :: "schema_record list \<Rightarrow> u32 \<Rightarrow> bool \<Rightarrow> string \<Rightarrow> schema_runtime" where
  "table rs op act dev \<equiv> disc_demo_rt\<lparr>rt_records := rs, rt_next_operation_id := op, rt_owner :=
     \<lparr>ow_active = act, ow_device_id = dev, ow_operation_id = op, ow_kind = SCHEMA_OP_INITIAL, ow_refresh_generation = 0\<rparr>\<rparr>"

lemma asked_shape [simp]:
  "sr_used (asked op dev)" "sn_device_id (sr_committed (asked op dev)) = strlcpy GW_MSG_DEVICE_ID_LEN dev"
  "sr_operation_state (asked op dev) = SCHEMA_OP_RUNNING" "sr_operation_id (asked op dev) = op"
  by (simp_all add: mark_running_def fresh_record_def)

lemma demo_rows:
  "replicate 16 zero_record = zero_record # replicate 15 zero_record" "replicate 15 zero_record = zero_record # replicate 14 zero_record"
  by (simp_all add: numeral_eq_Suc)

lemma demo_none: "find_index (\<lambda>r. sr_used r \<and> P r) (replicate n zero_record) = None"
  by (simp add: find_index_None zero_record_shape)

lemma demo_ids: "bump_nonzero 0 = 1" "bump_nonzero 1 = 2" "bump_nonzero 2 = 3"
  by (simp_all add: bump_nonzero_def)

lemmas demo_simps = schema_runtime_find_locked_def disc_demo_rt_def zero_record_shape demo_none demo_ids

lemma demo_begins:
  "begin_discovery ''a'' SCHEMA_OP_INITIAL 0 disc_demo_rt = (table (asked 1 ''a'' # replicate 15 zero_record) 1 True ''a'', Some 1)"
  "begin_discovery ''b'' SCHEMA_OP_INITIAL 0 (table (replicate 16 zero_record) 1 False ''a'') =
     (table (asked 2 ''b'' # replicate 15 zero_record) 2 True ''b'', Some 2)"
  "begin_discovery ''c'' SCHEMA_OP_INITIAL 0 (table (asked 2 ''b'' # replicate 15 zero_record) 2 False ''b'') =
     (table (asked 2 ''b'' # asked 3 ''c'' # replicate 14 zero_record) 3 True ''c'', Some 3)"
    apply (subst begin_fresh [where k = 0]; simp add: demo_simps zero_owner_def demo_rows(1))
   apply (subst begin_fresh [where k = 0]; simp add: demo_simps demo_rows(1))
  apply (subst begin_fresh [where k = 1]; simp add: demo_simps demo_rows(2))
  done

lemma demo_forgets:
  "device_schema_forget True True ESP_FAIL (Some ''a'') (table (asked 1 ''a'' # replicate 15 zero_record) 1 True ''a'') =
     (table ((asked 1 ''a'')\<lparr>sr_operation_state := SCHEMA_OP_IDLE, sr_staging_active := False, sr_staging := zero_snapshot\<rparr>
        # replicate 15 zero_record) 1 False ''a'', ESP_FAIL)"
  "forget_clear ''a'' (table ((asked 1 ''a'')\<lparr>sr_operation_state := SCHEMA_OP_IDLE, sr_staging_active := False,
        sr_staging := zero_snapshot\<rparr> # replicate 15 zero_record) 1 False ''a'') =
     table (replicate 16 zero_record) 1 False ''a''"
  by (simp_all add: device_schema_forget_def forget_clear_def update_record_def Let_def demo_simps demo_rows(1))

lemma demo_unknown:
  "schema_runtime_find_locked disc_demo_rt ''a'' = None"
  "schema_runtime_find_locked (table (replicate 16 zero_record) 1 False ''a'') ''b'' = None"
  "schema_runtime_find_locked (table (asked 2 ''b'' # replicate 15 zero_record) 2 True ''b'') ''a'' = None"
  "schema_runtime_find_locked (table (asked 2 ''b'' # replicate 15 zero_record) 2 False ''b'') ''c'' = None"
  by (simp_all add: demo_simps)

lemma late_completion:
  assumes "idle_config c" "dq_rt c = table (asked 2 ''b'' # replicate 15 zero_record) 2 True ''b''"
    and "cx \<in> set (dq_pending c)" "cc_device_id cx = ''a''"
  shows "\<exists>c'. (disc_step b)\<^sup>*\<^sup>* c c' \<and> idle_config c' \<and> dq_rt c' = table (asked 2 ''b'' # replicate 15 zero_record) 2 False ''b''"
proof -
  let ?rt = "table (asked 2 ''b'' # replicate 15 zero_record) 2 False ''b''"
  let ?e = "discovery_done DEVICE_SCHEMA_SUBMIT_OK (Some cx)" and ?w = "fst (schema_worker_post_event (discovery_done DEVICE_SCHEMA_SUBMIT_OK (Some cx)) (dq_worker c))"
  define c1 where "c1 = c\<lparr>dq_pending := remove1 cx (dq_pending c), dq_worker := ?w\<rparr>"
  define c2 where "c2 = c1\<lparr>dq_rt := ?rt, dq_pc := PC_NEXT, dq_worker := ?w\<lparr>sw_queue := Some []\<rparr>\<rparr>"
  define c3 where "c3 = c2\<lparr>dq_rt := ?rt, dq_pc := PC_IDLE, dq_pending := dq_pending c2 @ []\<rparr>"
  have i: "dq_pc c = PC_IDLE" "sw_queue (dq_worker c) = Some []" using assms(1) by (simp_all add: idle_config_def)
  then have q: "sw_queue ?w = Some [?e]" by (simp add: schema_worker_post_event_def send_event_def Let_def)
  have h: "handle_completion True 0 ''a'' op g x (table (asked 2 ''b'' # replicate 15 zero_record) 2 True ''b'') = (?rt, True)" for op g x
    unfolding handle_completion_def demo_unknown by (simp add: set_owner_active_def)
  have n: "next_pending ?rt = None" by (simp add: next_pending_def demo_simps)
  have "disc_step b c c1" unfolding c1_def by (rule disc_step.answer [OF assms(3)])
  moreover have "disc_step b c1 c2"
    unfolding c2_def using disc_step.take [of c1 ?e "[]" eager PC_NEXT ?rt b] q i h
    by (simp add: c1_def worker_take_def discovery_done_def event_of_def assms(2,4) eager_def)
  moreover have "disc_step b c2 c3"
    unfolding c3_def using disc_step.move [of c2 eager PC_IDLE ?rt "[]" b] n by (simp add: c2_def eager_def)
  ultimately have "(disc_step b)\<^sup>*\<^sup>* c c3" by (meson rtranclp.rtrancl_into_rtrancl rtranclp.rtrancl_refl)
  moreover have "idle_config c3" "dq_rt c3 = ?rt" by (simp_all add: idle_config_def c3_def c2_def disc_demo_rt_def)
  ultimately show ?thesis by blast
qed

section \<open>The properties\<close>







text \<open>
  A disconnect hides the outcome of a refresh. When the device disconnects while a requested refresh
  runs, the status reports the result "disconnected" for generation 0, whatever generation the refresh
  was given, because the active generation is cleared before it is copied.
\<close>

theorem disconnect_loses_refresh_generation:
  assumes "core_inv rt" and "schema_runtime_find_locked rt dev = Some i" and "running (rt_records rt ! i)"
    and "sr_operation_kind (rt_records rt ! i) = SCHEMA_OP_MANUAL"
  shows "device_schema_get_refresh_status True (fst (handle_disconnect True now_ms dev rt)) (Some dev) =
    (ESP_OK, Some (\<lparr>ra_generation = 0, ra_state = DEVICE_SCHEMA_REFRESH_IDLE\<rparr>,
       \<lparr>rc_generation = 0, rc_result = DEVICE_SCHEMA_REFRESH_RESULT_DISCONNECTED, rc_finished_at_ms = now_ms\<rparr>))"
proof -
  let ?rt = "set_owner_active False (update_record rt i (disconnect_running now_ms))"
  note d = find_locked_D [OF assms(2)]
  have h: "handle_disconnect True now_ms dev rt = (?rt, True)" by (rule disconnect_running_effect [OF assms(1-3)])
  have "ids_unique ?rt" using handle_disconnect_core [OF assms(1) h] by (simp add: core_inv_def)
  moreover have r: "rt_records ?rt ! i = disconnect_running now_ms (rt_records rt ! i)" using d by simp
  moreover have "sr_used (rt_records ?rt ! i)" "rec_id (rt_records ?rt ! i) = dev"
    unfolding r using d settled_records(2) [of "rt_records rt ! i"] by (simp_all add: settled_def)
  ultimately have "schema_runtime_find_locked ?rt dev = Some i" using find_unique [of ?rt i dev] d by simp
  then show ?thesis
    unfolding h device_schema_get_refresh_status_def
    using r assms(4) by (simp add: disconnect_running_def close_refresh_def Let_def)
qed

definition refresh_demo_rt :: schema_runtime where
  "refresh_demo_rt = fst (begin_discovery ''a'' SCHEMA_OP_MANUAL 7 disc_demo_rt)"

theorem disconnect_loses_refresh_generation_witness:
  "ra_generation (sr_refresh_active (rt_records refresh_demo_rt ! 0)) = 7 \<and>
   device_schema_get_refresh_status True (fst (handle_disconnect True 5 ''a'' refresh_demo_rt)) (Some ''a'') =
    (ESP_OK, Some (\<lparr>ra_generation = 0, ra_state = DEVICE_SCHEMA_REFRESH_IDLE\<rparr>,
       \<lparr>rc_generation = 0, rc_result = DEVICE_SCHEMA_REFRESH_RESULT_DISCONNECTED, rc_finished_at_ms = 5\<rparr>))"
proof -
  have b: "begin_discovery ''a'' SCHEMA_OP_MANUAL 7 disc_demo_rt = (refresh_demo_rt, Some 1)"
    "rt_records refresh_demo_rt = mark_running 1 SCHEMA_OP_MANUAL 7 (fresh_record ''a'') # replicate 15 zero_record"
    unfolding refresh_demo_rt_def by (subst begin_fresh [where k = 0]; simp add: demo_simps zero_owner_def demo_rows(1))+
  have "core_inv disc_demo_rt" using disc_start_inv [OF disc_demo_start] by (simp add: disc_inv_def disc_demo_def)
  then have c: "core_inv refresh_demo_rt" using begin_discovery_core [OF _ _ b(1)] by simp
  have r: "schema_runtime_find_locked refresh_demo_rt ''a'' = Some 0" "running (rt_records refresh_demo_rt ! 0)"
    "sr_operation_kind (rt_records refresh_demo_rt ! 0) = SCHEMA_OP_MANUAL"
    "ra_generation (sr_refresh_active (rt_records refresh_demo_rt ! 0)) = 7"
    by (simp_all add: schema_runtime_find_locked_def b(2) running_def mark_running_def fresh_record_def)
  show ?thesis using disconnect_loses_refresh_generation [OF c r(1-3)] r(4) by simp
qed

end
