(* ===== verification/Schema_Adapter.thy ===== *)
theory Schema_Adapter
  imports Discovery_Props Control_Scheduler
begin

text \<open>
  The bridge from schema discovery to the control scheduler
  (\<open>device_schema_control_adapter.c\<close>): one static record of the callback of the request in flight. A
  callback is a number, with its context; \<open>schema_scheduler_done\<close> is the number 0.
\<close>

record schema_ctrl_bridge =
  br_done :: "nat option"
  br_context :: nat
  br_active :: bool

definition zero_bridge :: schema_ctrl_bridge where
  "zero_bridge = \<lparr>br_done = None, br_context = 0, br_active = False\<rparr>"

abbreviation SCHEMA_CTRL_QUEUE_WAIT_MS :: u32 where "SCHEMA_CTRL_QUEUE_WAIT_MS \<equiv> 5000"
abbreviation SCHEMA_SCHEDULER_DONE :: nat where "SCHEMA_SCHEDULER_DONE \<equiv> 0"

definition map_command_result :: "device_command_result option \<Rightarrow> device_schema_submit_result" where
  "map_command_result result =
     (case result of
        None \<Rightarrow> DEVICE_SCHEMA_SUBMIT_INTERNAL_ERROR
      | Some r \<Rightarrow>
          (case rs_status r of
             DEVICE_CMD_STATUS_OK \<Rightarrow> DEVICE_SCHEMA_SUBMIT_OK
           | DEVICE_CMD_STATUS_REJECTED \<Rightarrow> DEVICE_SCHEMA_SUBMIT_REJECTED
           | DEVICE_CMD_STATUS_UNSUPPORTED_COMMAND \<Rightarrow> DEVICE_SCHEMA_SUBMIT_REJECTED
           | DEVICE_CMD_STATUS_BUSY \<Rightarrow> DEVICE_SCHEMA_SUBMIT_BUSY
           | DEVICE_CMD_STATUS_QUEUE_FULL \<Rightarrow> DEVICE_SCHEMA_SUBMIT_BUSY
           | DEVICE_CMD_STATUS_TIMEOUT \<Rightarrow> DEVICE_SCHEMA_SUBMIT_TIMEOUT
           | DEVICE_CMD_STATUS_NOT_CONNECTED \<Rightarrow> DEVICE_SCHEMA_SUBMIT_NOT_CONNECTED
           | DEVICE_CMD_STATUS_TRANSPORT_ERROR \<Rightarrow> DEVICE_SCHEMA_SUBMIT_TRANSPORT_ERROR
           | _ \<Rightarrow> DEVICE_SCHEMA_SUBMIT_INTERNAL_ERROR))"

definition bridge_outcome :: "device_control_result option \<Rightarrow> device_schema_submit_result" where
  "bridge_outcome result =
     (case result of
        None \<Rightarrow> DEVICE_SCHEMA_SUBMIT_INTERNAL_ERROR
      | Some r \<Rightarrow>
          if cr_terminal r = DEVICE_CTRL_TERMINAL_DEADLINE_EXCEEDED then DEVICE_SCHEMA_SUBMIT_TIMEOUT
          else if cr_terminal r = DEVICE_CTRL_TERMINAL_CANCELLED \<or> cr_terminal r = DEVICE_CTRL_TERMINAL_SUPERSEDED
          then DEVICE_SCHEMA_SUBMIT_BUSY
          else map_command_result (Some (cr_command_result r)))"

text \<open>The bridge is cleared before the callback is called with the outcome.\<close>

definition schema_scheduler_done ::
    "device_control_result option \<Rightarrow> schema_ctrl_bridge \<Rightarrow>
     schema_ctrl_bridge \<times> (nat \<times> device_schema_submit_result \<times> nat) option" where
  "schema_scheduler_done result b =
     (zero_bridge, case br_done b of None \<Rightarrow> None | Some fn \<Rightarrow> Some (fn, bridge_outcome result, br_context b))"

definition schema_job :: "gw_message \<Rightarrow> device_control_job" where
  "schema_job message =
     zero_job\<lparr>j_priority := DEVICE_CTRL_PRIORITY_NORMAL, j_source := DEVICE_CTRL_SOURCE_SCHEMA,
       j_max_queue_wait_ms := SCHEMA_CTRL_QUEUE_WAIT_MS,
       j_request := zero_request\<lparr>rq_origin := DEVICE_CMD_ORIGIN_SCHEMA_DISCOVERY,
         rq_device_id := strlcpy GW_MSG_DEVICE_ID_LEN (m_device_id message),
         rq_command := strlcpy GW_MSG_COMMAND_LEN (m_command message)\<rparr>\<rparr>"

definition schema_scheduler_submit ::
    "int \<Rightarrow> gw_message option \<Rightarrow> nat option \<Rightarrow> nat \<Rightarrow> schema_ctrl_bridge \<Rightarrow> ctrl_state \<Rightarrow>
     schema_ctrl_bridge \<times> ctrl_state \<times> esp_err" where
  "schema_scheduler_submit now message fn ctx b g =
     (case (message, fn) of
        (Some msg, Some f) \<Rightarrow>
          if \<not> m_has_device_id msg \<or> m_device_id msg = [] \<or> m_command msg = [] then (b, g, ESP_ERR_INVALID_ARG)
          else if br_active b then (b, g, ESP_ERR_INVALID_STATE)
          else (case device_control_scheduler_submit now (Some (schema_job msg)) (Some SCHEMA_SCHEDULER_DONE) 0 g of
                  (g', err, _) \<Rightarrow>
                    (if err \<noteq> ESP_OK then zero_bridge else \<lparr>br_done = Some f, br_context = ctx, br_active = True\<rparr>, g', err))
      | _ \<Rightarrow> (b, g, ESP_ERR_INVALID_ARG))"

definition device_schema_control_adapter_init :: "schema_ctrl_bridge \<Rightarrow> schema_runtime \<Rightarrow> schema_runtime \<times> esp_err" where
  "device_schema_control_adapter_init b rt =
     (if br_active b then (rt, ESP_ERR_INVALID_STATE) else (rt\<lparr>rt_has_submitter := True\<rparr>, ESP_OK))"

section \<open>A disconnect in the middle of a discovery\<close>

definition bridge_choice :: "int \<Rightarrow> nat \<Rightarrow> nat \<Rightarrow> schema_ctrl_bridge \<Rightarrow> ctrl_state \<Rightarrow> disc_choice \<Rightarrow> bool" where
  "bridge_choice now fn ctx b g ch \<longleftrightarrow>
     ch_lock ch \<and> ch_submit ch = (\<lambda>q. snd (snd (schema_scheduler_submit now (Some q) (Some fn) ctx b g)))"

lemma active_bridge_refuses:
  "br_active b \<Longrightarrow> dev \<noteq> [] \<Longrightarrow> snd (snd (schema_scheduler_submit now (Some (discovery_query dev)) (Some fn) ctx b g)) = ESP_ERR_INVALID_STATE"
  by (simp add: schema_scheduler_submit_def discovery_query_def DEVICE_SCHEMA_RESERVED_COMMAND_def strlcpy_def)

lemma begin_known:
  assumes "schema_runtime_find_locked rt dev = Some j" "\<not> ow_active (rt_owner rt)"
  shows "\<exists>rt' op. begin_discovery dev kind g rt = (rt', Some op) \<and>
    rt_records rt' = (rt_records rt)[j := mark_running op kind g (rt_records rt ! j)] \<and> rt_has_submitter rt' = rt_has_submitter rt"
  using assms by (simp add: begin_discovery_def schema_runtime_find_or_create_locked_def schema_runtime_next_operation_id_def
      Let_def update_record_def)

lemma refused_start:
  assumes c: "core_inv rt" and o: "\<not> ow_active (rt_owner rt)" and j: "next_pending rt = Some (dev, kind, gen)"
    "find_index waiting (rt_records rt) = Some j" and nc: "\<not> sr_has_committed (rt_records rt ! j)"
    and br: "br_active b" "bridge_choice now fn ctx b g ch"
  shows "\<exists>rt'. worker_run [ch, ch, ch, ch] PC_NEXT rt = (PC_NEXT, rt', []) \<and>
    sn_state (sr_committed (rt_records rt' ! j)) = DEVICE_SCHEMA_STATE_ERROR \<and> sr_operation_state (rt_records rt' ! j) = SCHEMA_OP_IDLE"
proof -
  note d = find_index_SomeD [OF j(2)]
  have w: "(\<lambda>r. sr_used r \<and> sr_operation_state r = SCHEMA_OP_QUEUED) = waiting" by (simp add: waiting_def fun_eq_iff)
  have dev: "dev \<noteq> []" "rec_id (rt_records rt ! j) = dev" "sr_used (rt_records rt ! j)"
    using j d by (auto simp: next_pending_def w rec_id_def Let_def waiting_def split: if_splits)
  have fj: "schema_runtime_find_locked rt dev = Some j"
    using find_unique [of rt j dev] c d dev by (simp add: core_inv_def)
  have ld: "length dev < GW_MSG_DEVICE_ID_LEN"
    using c d dev(2) by (auto simp: core_inv_def runtime_ok_def record_ok_def rec_id_def)
  obtain rt1 op where b1: "begin_discovery dev kind gen rt = (rt1, Some op)"
      "rt_records rt1 = (rt_records rt)[j := mark_running op kind gen (rt_records rt ! j)]"
    using begin_known [OF fj o] by blast
  have c1: "core_inv rt1" using begin_discovery_core [OF c ld b1(1)] by simp
  have r1: "rt_records rt1 ! j = mark_running op kind gen (rt_records rt ! j)" "j < length (rt_records rt1)"
    using d by (simp_all add: b1(2))
  have f1: "schema_runtime_find_locked rt1 dev = Some j"
    using find_unique [of rt1 j dev] c1 r1 dev by (simp add: core_inv_def mark_running_shape)
  have ref: "ch_submit ch (discovery_query dev) = ESP_ERR_INVALID_STATE" "ch_lock ch"
    using br active_bridge_refuses [OF br(1) dev(1)] by (simp_all add: bridge_choice_def)
  have run: "worker_run [ch, ch, ch, ch] PC_NEXT rt = (PC_NEXT, fail_discovery dev rt1, [])"
    using j(1) b1(1) ref by (simp add: started_def)
  have "rt_records (fail_discovery dev rt1) ! j = reset_record_error (mark_running op kind gen (rt_records rt ! j))"
    using r1 by (simp add: fail_discovery_def f1)
  moreover have "\<not> sr_has_committed (mark_running op kind gen (rt_records rt ! j))"
    using nc by (simp add: mark_running_def Let_def)
  ultimately show ?thesis using run by (simp add: reset_record_error_def Let_def)
qed

text \<open>
  A disconnect makes the discovery of the next device fail. When the device that is being asked for
  its schema disconnects, the ownership is given back at once, but the bridge to the scheduler stays
  taken until the scheduler answers. The worker goes on to the first waiting device, the bridge
  refuses its request, nothing is sent to it, and a device without a schema is left in the error state
  and no longer waits.
\<close>

theorem disconnect_fails_next_discovery:
  assumes "core_inv rt" and "schema_runtime_find_locked rt dev = Some i" and "running (rt_records rt ! i)"
    and "find_index waiting (rt_records rt) = Some j" and "rec_id (rt_records rt ! j) \<noteq> []"
    and "\<not> sr_has_committed (rt_records rt ! j)" and "br_active b" and "bridge_choice now fn ctx b g ch"
  shows "\<exists>rt'. snd (handle_disconnect True now_ms dev rt) \<and>
    worker_run [ch, ch, ch, ch] PC_NEXT (fst (handle_disconnect True now_ms dev rt)) = (PC_NEXT, rt', []) \<and>
    sn_state (sr_committed (rt_records rt' ! j)) = DEVICE_SCHEMA_STATE_ERROR \<and> sr_operation_state (rt_records rt' ! j) = SCHEMA_OP_IDLE"
proof -
  let ?rt = "set_owner_active False (update_record rt i (disconnect_running now_ms))"
  have h: "handle_disconnect True now_ms dev rt = (?rt, True)" by (rule disconnect_running_effect [OF assms(1-3)])
  have c: "core_inv ?rt" using handle_disconnect_core [OF assms(1) h] by simp
  note jd = find_index_SomeD [OF assms(4)] and id = find_locked_D [OF assms(2)]
  have ji: "j \<noteq> i" using jd assms(3) by (auto simp: waiting_def running_def)
  have nw: "\<not> waiting (disconnect_running now_ms r)" for r by (simp add: waiting_def disconnect_running_def Let_def)
  have "\<not> waiting (rt_records rt ! i)" using assms(3) by (simp add: waiting_def running_def)
  then have fw: "find_index waiting (rt_records ?rt) = Some j"
    using jd nw id by (auto simp: nth_list_update intro!: find_index_SomeI split: if_splits)
  have w: "(\<lambda>r. sr_used r \<and> sr_operation_state r = SCHEMA_OP_QUEUED) = waiting" by (simp add: waiting_def fun_eq_iff)
  have "next_pending ?rt = Some (rec_id (rt_records rt ! j), sr_operation_kind (rt_records rt ! j),
      ra_generation (sr_refresh_active (rt_records rt ! j)))"
    using fw ji assms(5) by (simp add: next_pending_def w rec_id_def Let_def)
  from refused_start [OF c _ this fw _ assms(7,8)] show ?thesis
    using h ji assms(6) by simp
qed

definition adapter_demo_rt :: schema_runtime where
  "adapter_demo_rt = fst (begin_discovery ''b'' SCHEMA_OP_INITIAL 0 (table (asked 1 ''a'' # replicate 15 zero_record) 1 True ''a''))"

lemma adapter_demo_records:
  "rt_records adapter_demo_rt = asked 1 ''a'' # (fresh_record ''b'')\<lparr>sr_operation_state := SCHEMA_OP_QUEUED,
     sr_committed := (sr_committed (fresh_record ''b''))\<lparr>sn_state := DEVICE_SCHEMA_STATE_DISCOVERING\<rparr>\<rparr> # replicate 14 zero_record"
  by (simp add: adapter_demo_rt_def begin_discovery_def schema_runtime_find_or_create_locked_def demo_simps update_record_def demo_rows(2))

lemma adapter_demo_core: "core_inv adapter_demo_rt"
proof -
  have "core_inv disc_demo_rt" using disc_start_inv [OF disc_demo_start] by (simp add: disc_inv_def disc_demo_def)
  then have "core_inv (table (asked 1 ''a'' # replicate 15 zero_record) 1 True ''a'')"
    using begin_discovery_core [OF _ _ demo_begins(1)] by simp
  moreover obtain rt op where "begin_discovery ''b'' SCHEMA_OP_INITIAL 0 (table (asked 1 ''a'' # replicate 15 zero_record) 1 True ''a'') = (rt, op)"
    by fastforce
  ultimately show ?thesis
    using begin_discovery_core [of _ "''b''"] by (simp add: adapter_demo_rt_def)
qed

theorem disconnect_fails_next_discovery_witness:
  "\<exists>ch rt'. worker_run [ch, ch, ch, ch] PC_NEXT (fst (handle_disconnect True 0 ''a'' adapter_demo_rt)) = (PC_NEXT, rt', []) \<and>
     sn_state (sr_committed (rt_records rt' ! 1)) = DEVICE_SCHEMA_STATE_ERROR"
proof -
  define b where "b = \<lparr>br_done = Some 1, br_context = 0, br_active = True\<rparr>"
  define ch where "ch = eager\<lparr>ch_submit := (\<lambda>q. snd (snd (schema_scheduler_submit 0 (Some q) (Some 1) 0 b undefined)))\<rparr>"
  have f: "schema_runtime_find_locked adapter_demo_rt ''a'' = Some 0"
    by (simp add: schema_runtime_find_locked_def adapter_demo_records)
  have r: "running (rt_records adapter_demo_rt ! 0)" "find_index waiting (rt_records adapter_demo_rt) = Some 1"
    "rec_id (rt_records adapter_demo_rt ! 1) \<noteq> []" "\<not> sr_has_committed (rt_records adapter_demo_rt ! 1)"
    by (simp_all add: adapter_demo_records running_def waiting_def rec_id_def fresh_record_def zero_record_def mark_running_def Let_def)
  have "br_active b" "bridge_choice 0 1 0 b undefined ch" by (simp_all add: b_def ch_def bridge_choice_def eager_def)
  from disconnect_fails_next_discovery [OF adapter_demo_core f r this, of 0] show ?thesis by blast
qed

end
