(* ===== verification/Settings_Memory.thy ===== *)
theory Settings_Memory
  imports Gw_Message
begin

text \<open>
  The data of the settings component (\<open>device_settings/include/device_settings.h\<close>) and its memory
  (\<open>device_settings_memory.c\<close>): the string pool, whose users hold offsets; the snapshots, which live
  in external memory behind a reference count; the builders of the two kinds of snapshot.

  \<^item> An array with a count (\<open>descriptors\<close>, \<open>enum_options\<close>, \<open>entries\<close>) is the list of its first
    \<open>count\<close> elements.
  \<^item> A heap of snapshots maps an address to a reference count and the snapshot. An address that the map
    does not know is memory that was freed.
  \<^item> An allocation gets its outcome as an argument: for a string pool the old content of the block, or
    \<^const>\<open>None\<close> when the memory is full.
  \<^item> The value of an entry is a union of four bytes; it is the \<^typ>\<open>u32\<close> of these bytes, the first one
    lowest, and each member is a view of it.
\<close>

section \<open>Data\<close>

abbreviation DEVICE_SETTINGS_MAX_SETTINGS :: nat where "DEVICE_SETTINGS_MAX_SETTINGS \<equiv> 16"
abbreviation DEVICE_SETTINGS_MAX_ENUM_OPTS :: nat where "DEVICE_SETTINGS_MAX_ENUM_OPTS \<equiv> 16"
abbreviation DEVICE_SETTINGS_MAX_STRING_POOL :: nat where "DEVICE_SETTINGS_MAX_STRING_POOL \<equiv> 512"
abbreviation DEVICE_SETTINGS_MAX_DEVICES :: nat where "DEVICE_SETTINGS_MAX_DEVICES \<equiv> 16"
abbreviation DS_TX_MAX_CHANGES :: nat where "DS_TX_MAX_CHANGES \<equiv> 16"

abbreviation DS_TYPE_BOOL :: u8 where "DS_TYPE_BOOL \<equiv> GW_SETTING_TYPE_BOOL"
abbreviation DS_TYPE_INT :: u8 where "DS_TYPE_INT \<equiv> GW_SETTING_TYPE_INT"
abbreviation DS_TYPE_FLOAT :: u8 where "DS_TYPE_FLOAT \<equiv> 3"
abbreviation DS_TYPE_STRING :: u8 where "DS_TYPE_STRING \<equiv> GW_SETTING_TYPE_STRING"
abbreviation DS_TYPE_ENUM :: u8 where "DS_TYPE_ENUM \<equiv> GW_SETTING_TYPE_ENUM"

abbreviation GW_SETTING_FLAG_READONLY :: u16 where "GW_SETTING_FLAG_READONLY \<equiv> 1"
abbreviation GW_SETTING_FLAG_SECRET :: u16 where "GW_SETTING_FLAG_SECRET \<equiv> 2"
abbreviation GW_SETTING_FLAG_ADVANCED :: u16 where "GW_SETTING_FLAG_ADVANCED \<equiv> 4"
abbreviation DS_FLAG_WRITABLE :: u16 where "DS_FLAG_WRITABLE \<equiv> 1"
abbreviation DS_FLAG_SECRET :: u16 where "DS_FLAG_SECRET \<equiv> 2"
abbreviation DS_FLAG_ADVANCED :: u16 where "DS_FLAG_ADVANCED \<equiv> 4"

record ds_string_pool =
  pl_total_size :: u16
  pl_capacity :: u16
  pl_pool :: "string option"

definition zero_pool :: ds_string_pool where
  "zero_pool = \<lparr>pl_total_size = 0, pl_capacity = 0, pl_pool = None\<rparr>"

record ds_setting_desc =
  sd_id_off :: u16
  sd_title_off :: u16
  sd_group_off :: u16
  sd_unit_off :: u16
  sd_min_value :: int
  sd_max_value :: int
  sd_step :: u32
  sd_flags :: u16
  sd_max_length :: u16
  sd_option_index :: nat
  sd_type :: u8
  sd_option_count :: nat

record ds_enum_option =
  eo_value :: u8
  eo_label_off :: u16

record ds_schema =
  sc_schema_revision :: u32
  sc_descriptors :: "ds_setting_desc list"
  sc_enum_options :: "ds_enum_option list"
  sc_strings :: ds_string_pool

record ds_value_entry =
  ve_id_off :: u16
  ve_type :: u8
  ve_has_value :: bool
  ve_union :: u32

record ds_values =
  vs_config_revision :: u32
  vs_values :: "ds_value_entry list"
  vs_string_pool :: ds_string_pool

record ds_schema_builder =
  sb_strings :: ds_string_pool
  sb_enum_options :: "ds_enum_option list"
  sb_descriptors :: "ds_setting_desc list"
  sb_schema_revision :: u32

definition zero_schema_builder :: ds_schema_builder where
  "zero_schema_builder = \<lparr>sb_strings = zero_pool, sb_enum_options = [], sb_descriptors = [], sb_schema_revision = 0\<rparr>"

record ds_values_builder =
  vb_string_pool :: ds_string_pool
  vb_entries :: "ds_value_entry list"
  vb_config_revision :: u32

definition zero_values_builder :: ds_values_builder where
  "zero_values_builder = \<lparr>vb_string_pool = zero_pool, vb_entries = [], vb_config_revision = 0\<rparr>"

text \<open>The members of the union of an entry: a write stores its own bytes and leaves the others.\<close>

definition union_bytes :: "nat \<Rightarrow> u32 \<Rightarrow> u32 \<Rightarrow> u32" where
  "union_bytes n v w = word_of_nat (unat w div 256 ^ n * 256 ^ n + unat v mod 256 ^ n)"

definition set_bool_val :: "bool \<Rightarrow> ds_value_entry \<Rightarrow> ds_value_entry" where
  "set_bool_val b e = e\<lparr>ve_union := union_bytes 1 (of_bool b) (ve_union e)\<rparr>"

definition set_int_val :: "int \<Rightarrow> ds_value_entry \<Rightarrow> ds_value_entry" where
  "set_int_val v e = e\<lparr>ve_union := word_of_int v\<rparr>"

definition set_string_off :: "u16 \<Rightarrow> ds_value_entry \<Rightarrow> ds_value_entry" where
  "set_string_off v e = e\<lparr>ve_union := union_bytes 2 (ucast v) (ve_union e)\<rparr>"

definition get_bool_val :: "ds_value_entry \<Rightarrow> bool" where
  "get_bool_val e \<longleftrightarrow> unat (ve_union e) mod 256 \<noteq> 0"

definition get_int_val :: "ds_value_entry \<Rightarrow> int" where
  "get_int_val e = sint (ve_union e)"

definition get_string_off :: "ds_value_entry \<Rightarrow> u16" where
  "get_string_off e = ucast (ve_union e)"

record ds_diag =
  dg_discovery_schema_success :: u32
  dg_discovery_schema_fail :: u32
  dg_discovery_values_success :: u32
  dg_discovery_values_fail :: u32
  dg_psram_alloc_success :: u32
  dg_psram_alloc_fail :: u32
  dg_tx_success :: u32
  dg_tx_fail :: u32
  dg_tx_conflict :: u32
  dg_tx_prevalidate_fail :: u32
  dg_outcome_unknown :: u32
  dg_reconcile_success :: u32
  dg_reconcile_fail :: u32
  dg_reconcile_conflict :: u32

definition zero_diag :: ds_diag where
  "zero_diag =
     \<lparr>dg_discovery_schema_success = 0, dg_discovery_schema_fail = 0, dg_discovery_values_success = 0,
      dg_discovery_values_fail = 0, dg_psram_alloc_success = 0, dg_psram_alloc_fail = 0, dg_tx_success = 0,
      dg_tx_fail = 0, dg_tx_conflict = 0, dg_tx_prevalidate_fail = 0, dg_outcome_unknown = 0,
      dg_reconcile_success = 0, dg_reconcile_fail = 0, dg_reconcile_conflict = 0\<rparr>"

section \<open>The string pool\<close>

definition ds_settings_alloc :: "nat \<Rightarrow> 'm option \<Rightarrow> ds_diag \<Rightarrow> ds_diag \<times> 'm option" where
  "ds_settings_alloc n mem d =
     (if n = 0 then (d, None)
      else case mem of
             None \<Rightarrow> (d\<lparr>dg_psram_alloc_fail := dg_psram_alloc_fail d + 1\<rparr>, None)
           | Some a \<Rightarrow> (d\<lparr>dg_psram_alloc_success := dg_psram_alloc_success d + 1\<rparr>, Some a))"

definition ds_string_pool_get :: "ds_string_pool \<Rightarrow> u16 \<Rightarrow> string" where
  "ds_string_pool_get pool off =
     (case pl_pool pool of
        None \<Rightarrow> []
      | Some bs \<Rightarrow> if pl_total_size pool \<le> off then [] else cstr (drop (unat off) bs))"

text \<open>\<open>memcpy(buf + off, src, n)\<close>.\<close>

definition memcpy_at :: "nat \<Rightarrow> string \<Rightarrow> string \<Rightarrow> string" where
  "memcpy_at off src buf = take off buf @ src @ drop (off + length src) buf"

definition align4 :: "nat \<Rightarrow> nat" where
  "align4 n = (n + 3) div 4 * 4"

definition ds_string_pool_add :: "string \<Rightarrow> ds_string_pool \<Rightarrow> ds_string_pool \<times> (esp_err + u16)" where
  "ds_string_pool_add str pool =
     (let len = length str;
          aligned = align4 (len + 1)
      in if unat (pl_total_size pool) + aligned > unat (pl_capacity pool) then (pool, Inl ESP_ERR_NO_MEM)
         else (pool\<lparr>pl_pool := map_option (memcpy_at (unat (pl_total_size pool)) (str @ [CHR 0x00])) (pl_pool pool),
                    pl_total_size := pl_total_size pool + word_of_nat aligned\<rparr>,
               Inr (pl_total_size pool)))"

text \<open>
  A pool is well formed when its block has the size it says and the used part fits. \<open>pool_holds\<close>: a string
  with its terminator lies at an offset of the used part.
\<close>

definition pool_ok :: "ds_string_pool \<Rightarrow> bool" where
  "pool_ok pool \<longleftrightarrow>
     (case pl_pool pool of
        None \<Rightarrow> pl_total_size pool = 0 \<and> pl_capacity pool = 0
      | Some bs \<Rightarrow> length bs = unat (pl_capacity pool) \<and> pl_total_size pool \<le> pl_capacity pool)"

definition pool_holds :: "ds_string_pool \<Rightarrow> u16 \<Rightarrow> string \<Rightarrow> bool" where
  "pool_holds pool off s \<longleftrightarrow>
     (\<exists>bs. pl_pool pool = Some bs \<and> unat off + length s + 1 \<le> unat (pl_total_size pool) \<and>
           take (length s + 1) (drop (unat off) bs) = s @ [CHR 0x00] \<and> CHR 0x00 \<notin> set s)"

lemma align4_ge: "n \<le> align4 n"
  unfolding align4_def by presburger

lemma cstr_append: "CHR 0x00 \<notin> set s \<Longrightarrow> cstr (s @ CHR 0x00 # r) = s"
  unfolding cstr_def by (subst takeWhile_append2) auto

lemma cstr_prefix: "\<lbrakk>CHR 0x00 \<notin> set s; take (Suc (length s)) bs = s @ [CHR 0x00]\<rbrakk> \<Longrightarrow> cstr bs = s"
  using append_take_drop_id [of "Suc (length s)" bs] cstr_append [of s "drop (Suc (length s)) bs"] by simp

lemma pool_holds_get: "pool_holds pool off s \<Longrightarrow> ds_string_pool_get pool off = s"
  by (auto simp: pool_holds_def ds_string_pool_get_def word_le_nat_alt intro: cstr_prefix)

lemma length_memcpy_at [simp]: "off + length src \<le> length buf \<Longrightarrow> length (memcpy_at off src buf) = length buf"
  by (simp add: memcpy_at_def)

lemma memcpy_at_new: "off + length src \<le> length buf \<Longrightarrow> take (length src) (drop off (memcpy_at off src buf)) = src"
  by (simp add: memcpy_at_def)

lemma memcpy_at_before:
  "\<lbrakk>k + n \<le> off; off + length src \<le> length buf\<rbrakk> \<Longrightarrow> take n (drop k (memcpy_at off src buf)) = take n (drop k buf)"
  by (simp add: memcpy_at_def take_drop min_def)

lemma pool_add_sizes:
  assumes "ds_string_pool_add str pool = (pool', Inr off)"
  shows "off = pl_total_size pool" "pl_capacity pool' = pl_capacity pool"
    "unat (pl_total_size pool') = unat (pl_total_size pool) + align4 (length str + 1)"
    "unat (pl_total_size pool') \<le> unat (pl_capacity pool)"
    "pl_pool pool' = map_option (memcpy_at (unat (pl_total_size pool)) (str @ [CHR 0x00])) (pl_pool pool)"
    "unat (pl_total_size pool) + length str + 1 \<le> unat (pl_total_size pool')"
proof -
  let ?n = "align4 (length str + 1)"
  have fit: "unat (pl_total_size pool) + ?n \<le> unat (pl_capacity pool)"
    and eq: "off = pl_total_size pool" "pl_total_size pool' = pl_total_size pool + word_of_nat ?n"
      "pl_capacity pool' = pl_capacity pool"
      "pl_pool pool' = map_option (memcpy_at (unat (pl_total_size pool)) (str @ [CHR 0x00])) (pl_pool pool)"
    using assms by (auto simp: ds_string_pool_add_def Let_def split: if_splits)
  have "unat (pl_capacity pool) < 2 ^ 16" using unsigned_less [of "pl_capacity pool"] by simp
  then have lt: "unat (pl_total_size pool) + ?n < 2 ^ 16" using fit by simp
  then have "unat (word_of_nat ?n :: u16) = ?n" by (simp add: unsigned_of_nat take_bit_nat_eq_self)
  then have tot: "unat (pl_total_size pool') = unat (pl_total_size pool) + ?n"
    using lt eq by (simp add: unat_plus_if')
  show "off = pl_total_size pool" "pl_capacity pool' = pl_capacity pool"
    "unat (pl_total_size pool') = unat (pl_total_size pool) + ?n"
    "unat (pl_total_size pool') \<le> unat (pl_capacity pool)"
    "pl_pool pool' = map_option (memcpy_at (unat (pl_total_size pool)) (str @ [CHR 0x00])) (pl_pool pool)"
    "unat (pl_total_size pool) + length str + 1 \<le> unat (pl_total_size pool')"
    using eq tot fit align4_ge [of "length str + 1"] by simp_all
qed

lemma pool_add_ok: "\<lbrakk>pool_ok pool; ds_string_pool_add str pool = (pool', r)\<rbrakk> \<Longrightarrow> pool_ok pool'"
proof (cases r)
  case (Inl e)
  assume "pool_ok pool" "ds_string_pool_add str pool = (pool', r)"
  with Inl show ?thesis by (auto simp: ds_string_pool_add_def Let_def split: if_splits)
next
  case (Inr off)
  assume ok: "pool_ok pool" and "ds_string_pool_add str pool = (pool', r)"
  with Inr have add: "ds_string_pool_add str pool = (pool', Inr off)" by simp
  note sz = pool_add_sizes [OF add]
  show ?thesis
  proof (cases "pl_pool pool")
    case None
    then show ?thesis using ok sz by (simp add: pool_ok_def)
  next
    case (Some bs)
    then show ?thesis using ok sz by (simp add: pool_ok_def word_le_nat_alt)
  qed
qed

lemma pool_add_holds:
  assumes "pool_ok pool" "ds_string_pool_add str pool = (pool', Inr off)" "CHR 0x00 \<notin> set str"
  shows "pool_holds pool' off str"
proof -
  note sz = pool_add_sizes [OF assms(2)]
  obtain bs where bs: "pl_pool pool = Some bs" "length bs = unat (pl_capacity pool)"
    using assms(1) sz(4,6) by (cases "pl_pool pool") (auto simp: pool_ok_def)
  have "unat off + length (str @ [CHR 0x00]) \<le> length bs" using sz bs by simp
  from memcpy_at_new [OF this] have "take (length str + 1) (drop (unat off) (memcpy_at (unat off) (str @ [CHR 0x00]) bs))
      = str @ [CHR 0x00]" by simp
  then show ?thesis using assms(3) sz bs by (simp add: pool_holds_def)
qed

lemma pool_add_keeps:
  assumes "pool_ok pool" "ds_string_pool_add str pool = (pool', r)" "pool_holds pool o' s"
  shows "pool_holds pool' o' s"
proof (cases r)
  case (Inl e)
  with assms show ?thesis by (auto simp: ds_string_pool_add_def Let_def split: if_splits)
next
  case (Inr off)
  with assms(2) have add: "ds_string_pool_add str pool = (pool', Inr off)" by simp
  note sz = pool_add_sizes [OF add]
  obtain bs where bs: "pl_pool pool = Some bs" and u: "unat o' + length s + 1 \<le> unat (pl_total_size pool)"
      "take (length s + 1) (drop (unat o') bs) = s @ [CHR 0x00]" "CHR 0x00 \<notin> set s"
    using assms(3) by (auto simp: pool_holds_def)
  have len: "unat (pl_total_size pool) + length (str @ [CHR 0x00]) \<le> length bs"
    using assms(1) sz bs by (simp add: pool_ok_def)
  have "take (length s + 1) (drop (unat o') (memcpy_at (unat (pl_total_size pool)) (str @ [CHR 0x00]) bs)) =
        take (length s + 1) (drop (unat o') bs)"
    using memcpy_at_before [OF _ len, of "unat o'" "length s + 1"] u(1) by simp
  then show ?thesis using u bs sz(5,6) by (simp add: pool_holds_def)
qed

lemma pool_add_get:
  "\<lbrakk>pool_ok pool; ds_string_pool_add str pool = (pool', Inr off); CHR 0x00 \<notin> set str\<rbrakk> \<Longrightarrow>
     ds_string_pool_get pool' off = str"
  by (rule pool_holds_get) (rule pool_add_holds)

section \<open>Reference counts\<close>

record 'a counted =
  rf_refcount :: int
  rf_object :: 'a

type_synonym 'a snapshots = "nat \<Rightarrow> 'a counted option"

definition object_at :: "'a snapshots \<Rightarrow> nat \<Rightarrow> 'a option" where
  "object_at h a = map_option rf_object (h a)"

definition alloc_with_refcount :: "'a \<Rightarrow> nat option \<Rightarrow> ds_diag \<Rightarrow> 'a snapshots \<Rightarrow> 'a snapshots \<times> ds_diag \<times> nat option" where
  "alloc_with_refcount object mem d h =
     (case ds_settings_alloc 1 mem d of
        (d', None) \<Rightarrow> (h, d', None)
      | (d', Some a) \<Rightarrow> (h(a \<mapsto> \<lparr>rf_refcount = 1, rf_object = object\<rparr>), d', Some a))"

definition ref_acquire :: "nat option \<Rightarrow> 'a snapshots \<Rightarrow> 'a snapshots \<times> bool" where
  "ref_acquire p h =
     (case p of
        None \<Rightarrow> (h, False)
      | Some a \<Rightarrow>
          (case h a of
             None \<Rightarrow> (h, False)
           | Some hdr \<Rightarrow>
               if rf_refcount hdr \<le> 0 then (h, False)
               else (h(a \<mapsto> hdr\<lparr>rf_refcount := rf_refcount hdr + 1\<rparr>), True)))"

text \<open>The last release frees the pool of the snapshot and the snapshot.\<close>

definition ref_release :: "nat option \<Rightarrow> 'a snapshots \<Rightarrow> 'a snapshots" where
  "ref_release p h =
     (case p of
        None \<Rightarrow> h
      | Some a \<Rightarrow>
          (case h a of
             None \<Rightarrow> h
           | Some hdr \<Rightarrow>
               if rf_refcount hdr \<le> 1 then h(a := None)
               else h(a \<mapsto> hdr\<lparr>rf_refcount := rf_refcount hdr - 1\<rparr>)))"

definition ds_settings_ref_acquire :: "nat option \<Rightarrow> ds_schema snapshots \<Rightarrow> ds_schema snapshots \<times> bool" where
  "ds_settings_ref_acquire = ref_acquire"

definition ds_settings_ref_release :: "nat option \<Rightarrow> ds_schema snapshots \<Rightarrow> ds_schema snapshots" where
  "ds_settings_ref_release = ref_release"

definition ds_values_ref_acquire :: "nat option \<Rightarrow> ds_values snapshots \<Rightarrow> ds_values snapshots \<times> bool" where
  "ds_values_ref_acquire = ref_acquire"

definition ds_values_ref_release :: "nat option \<Rightarrow> ds_values snapshots \<Rightarrow> ds_values snapshots" where
  "ds_values_ref_release = ref_release"

text \<open>The count of an address, 0 when it is free.\<close>

definition refs :: "'a snapshots \<Rightarrow> nat \<Rightarrow> int" where
  "refs h a = (case h a of None \<Rightarrow> 0 | Some hdr \<Rightarrow> rf_refcount hdr)"

definition heap_ok :: "'a snapshots \<Rightarrow> bool" where
  "heap_ok h \<longleftrightarrow> (\<forall>a hdr. h a = Some hdr \<longrightarrow> 0 < rf_refcount hdr)"

lemma heap_ok_refs: "heap_ok h \<Longrightarrow> (0 < refs h a) = (h a \<noteq> None)" "heap_ok h \<Longrightarrow> 0 \<le> refs h a"
  by (auto simp: heap_ok_def refs_def less_imp_le split: option.splits)

lemma heap_okD: "heap_ok h \<Longrightarrow> h a = Some hdr \<Longrightarrow> 0 < rf_refcount hdr"
  by (simp add: heap_ok_def)

lemma ref_release_refs:
  assumes "heap_ok h"
  shows "refs (ref_release (Some a) h) b = (if b = a \<and> h a \<noteq> None then refs h a - 1 else refs h b)"
proof (cases "h a")
  case None
  then show ?thesis by (simp add: ref_release_def)
next
  case (Some hdr)
  with heap_okD [OF assms Some] show ?thesis by (auto simp: ref_release_def refs_def split: option.splits)
qed

lemma ref_acquire_refs:
  assumes "heap_ok h" "ref_acquire (Some a) h = (h', ok)"
  shows "ok = (h a \<noteq> None)" "refs h' b = (if b = a \<and> ok then refs h a + 1 else refs h b)"
proof -
  have "ok = (h a \<noteq> None) \<and> refs h' b = (if b = a \<and> ok then refs h a + 1 else refs h b)"
  proof (cases "h a")
    case None
    then show ?thesis using assms(2) by (simp add: ref_acquire_def)
  next
    case (Some hdr)
    with heap_okD [OF assms(1) Some] assms(2) show ?thesis by (auto simp: ref_acquire_def refs_def)
  qed
  then show "ok = (h a \<noteq> None)" "refs h' b = (if b = a \<and> ok then refs h a + 1 else refs h b)" by simp_all
qed

lemma ref_ops_heap_ok:
  assumes "heap_ok h"
  shows "heap_ok (ref_release p h)" "heap_ok (fst (ref_acquire p h))"
  using assms by (auto simp: heap_ok_def ref_release_def ref_acquire_def split: option.splits if_splits)

lemma ref_ops_object:
  "object_at (fst (ref_acquire p h)) a = object_at h a"
  "object_at (ref_release p h) a = Some x \<Longrightarrow> object_at h a = Some x"
  "p \<noteq> Some a \<Longrightarrow> object_at (ref_release p h) a = object_at h a"
  by (auto simp: object_at_def ref_release_def ref_acquire_def split: option.splits if_splits)

section \<open>Builders\<close>

text \<open>The pool of a builder starts with the empty string at offset 0.\<close>

definition new_pool :: "(nat \<Rightarrow> char) \<Rightarrow> ds_string_pool" where
  "new_pool mem =
     \<lparr>pl_total_size = 4, pl_capacity = word_of_nat DEVICE_SETTINGS_MAX_STRING_POOL,
      pl_pool = Some ((map mem [0..<DEVICE_SETTINGS_MAX_STRING_POOL])[0 := CHR 0x00])\<rparr>"

definition ds_schema_builder_init :: "(nat \<Rightarrow> char) option \<Rightarrow> ds_diag \<Rightarrow> ds_schema_builder \<times> ds_diag \<times> esp_err" where
  "ds_schema_builder_init mem d =
     (case ds_settings_alloc DEVICE_SETTINGS_MAX_STRING_POOL mem d of
        (d', None) \<Rightarrow> (zero_schema_builder, d', ESP_ERR_NO_MEM)
      | (d', Some m) \<Rightarrow> (zero_schema_builder\<lparr>sb_strings := new_pool m\<rparr>, d', ESP_OK))"

definition ds_schema_builder_add_string :: "string \<Rightarrow> ds_schema_builder \<Rightarrow> ds_schema_builder \<times> (esp_err + u16)" where
  "ds_schema_builder_add_string str b =
     (let (pool, r) = ds_string_pool_add str (sb_strings b) in (b\<lparr>sb_strings := pool\<rparr>, r))"

definition ds_schema_builder_add_setting :: "ds_setting_desc \<Rightarrow> ds_schema_builder \<Rightarrow> ds_schema_builder \<times> esp_err" where
  "ds_schema_builder_add_setting desc b =
     (if length (sb_descriptors b) \<ge> DEVICE_SETTINGS_MAX_SETTINGS then (b, ESP_ERR_NO_MEM)
      else (b\<lparr>sb_descriptors := sb_descriptors b @ [desc]\<rparr>, ESP_OK))"

definition ds_schema_builder_add_enum_option ::
    "u8 \<Rightarrow> string \<Rightarrow> ds_schema_builder \<Rightarrow> ds_schema_builder \<times> (esp_err + nat)" where
  "ds_schema_builder_add_enum_option value label b =
     (if length (sb_enum_options b) \<ge> DEVICE_SETTINGS_MAX_SETTINGS * DEVICE_SETTINGS_MAX_ENUM_OPTS then (b, Inl ESP_ERR_NO_MEM)
      else case ds_string_pool_add label (sb_strings b) of
             (pool, Inl err) \<Rightarrow> (b\<lparr>sb_strings := pool\<rparr>, Inl err)
           | (pool, Inr label_off) \<Rightarrow>
               (b\<lparr>sb_strings := pool,
                  sb_enum_options := sb_enum_options b @ [\<lparr>eo_value = value, eo_label_off = label_off\<rparr>]\<rparr>,
                Inr (length (sb_enum_options b))))"

definition ds_schema_builder_commit ::
    "nat option \<Rightarrow> ds_schema_builder \<Rightarrow> ds_diag \<Rightarrow> ds_schema snapshots \<Rightarrow>
       ds_schema_builder \<times> ds_diag \<times> ds_schema snapshots \<times> nat option" where
  "ds_schema_builder_commit mem b d h =
     (let schema = \<lparr>sc_schema_revision = sb_schema_revision b, sc_descriptors = sb_descriptors b,
                    sc_enum_options = sb_enum_options b, sc_strings = sb_strings b\<rparr>
      in case alloc_with_refcount schema mem d h of
           (h', d', None) \<Rightarrow> (b, d', h', None)
         | (h', d', Some a) \<Rightarrow> (b\<lparr>sb_strings := zero_pool\<rparr>, d', h', Some a))"

definition ds_values_builder_init :: "(nat \<Rightarrow> char) option \<Rightarrow> ds_diag \<Rightarrow> ds_values_builder \<times> ds_diag \<times> esp_err" where
  "ds_values_builder_init mem d =
     (case ds_settings_alloc DEVICE_SETTINGS_MAX_STRING_POOL mem d of
        (d', None) \<Rightarrow> (zero_values_builder, d', ESP_ERR_NO_MEM)
      | (d', Some m) \<Rightarrow> (zero_values_builder\<lparr>vb_string_pool := new_pool m\<rparr>, d', ESP_OK))"

text \<open>The two resets free the pool and zero the builder.\<close>

definition ds_schema_builder_reset :: "ds_schema_builder \<Rightarrow> ds_schema_builder" where
  "ds_schema_builder_reset b = zero_schema_builder"

definition ds_values_builder_reset :: "ds_values_builder \<Rightarrow> ds_values_builder" where
  "ds_values_builder_reset b = zero_values_builder"

definition ds_values_builder_add :: "ds_value_entry \<Rightarrow> ds_values_builder \<Rightarrow> ds_values_builder \<times> esp_err" where
  "ds_values_builder_add entry b =
     (if length (vb_entries b) \<ge> DEVICE_SETTINGS_MAX_SETTINGS then (b, ESP_ERR_NO_MEM)
      else (b\<lparr>vb_entries := vb_entries b @ [entry]\<rparr>, ESP_OK))"

definition ds_values_builder_commit ::
    "nat option \<Rightarrow> ds_values_builder \<Rightarrow> ds_diag \<Rightarrow> ds_values snapshots \<Rightarrow>
       ds_values_builder \<times> ds_diag \<times> ds_values snapshots \<times> nat option" where
  "ds_values_builder_commit mem b d h =
     (let values = \<lparr>vs_config_revision = vb_config_revision b, vs_values = vb_entries b,
                    vs_string_pool = vb_string_pool b\<rparr>
      in case alloc_with_refcount values mem d h of
           (h', d', None) \<Rightarrow> (b, d', h', None)
         | (h', d', Some a) \<Rightarrow> (b\<lparr>vb_string_pool := zero_pool\<rparr>, d', h', Some a))"

lemma new_pool_ok: "pool_ok (new_pool mem)" "pool_holds (new_pool mem) 0 []"
proof -
  have "hd ((map mem [0..<DEVICE_SETTINGS_MAX_STRING_POOL])[0 := CHR 0x00]) = CHR 0x00"
    by (subst hd_conv_nth) (simp_all only: length_0_conv [symmetric] length_list_update length_map length_upt, simp_all)
  then have "take 1 ((map mem [0..<DEVICE_SETTINGS_MAX_STRING_POOL])[0 := CHR 0x00]) = [CHR 0x00]"
    by (cases "(map mem [0..<DEVICE_SETTINGS_MAX_STRING_POOL])[0 := CHR 0x00]") (auto dest: arg_cong [of _ _ length])
  then show "pool_holds (new_pool mem) 0 []" by (simp add: new_pool_def pool_holds_def del: upt_rec_numeral)
  show "pool_ok (new_pool mem)" by (simp add: pool_ok_def new_pool_def word_le_nat_alt del: upt_rec_numeral)
qed

lemma zero_pool_ok [simp]: "pool_ok zero_pool"
  by (simp add: pool_ok_def zero_pool_def)

text \<open>A union member is read back as it was written.\<close>

lemma unat_word_of_nat: "n < 2 ^ 32 \<Longrightarrow> unat (word_of_nat n :: u32) = n"
  by (simp add: unsigned_of_nat take_bit_nat_eq_self)

lemma union_get_set:
  "get_bool_val (set_bool_val b e) = b"
  "- (2 ^ 31) \<le> v \<Longrightarrow> v < 2 ^ 31 \<Longrightarrow> get_int_val (set_int_val v e) = v"
proof -
  let ?w = "unat (ve_union e)"
  have "?w < 2 ^ 32" using unsigned_less [of "ve_union e"] by simp
  then have "?w div 256 < 2 ^ 24" by (simp add: div_less_iff_less_mult)
  then have lt: "?w div 256 * 256 + of_bool b < 2 ^ 32" by (cases b) simp_all
  then have "unat (ve_union (set_bool_val b e)) = ?w div 256 * 256 + of_bool b"
    using unat_word_of_nat [OF lt] by (cases b) (simp_all add: set_bool_val_def union_bytes_def)
  then show "get_bool_val (set_bool_val b e) = b" by (simp add: get_bool_val_def)
  show "- (2 ^ 31) \<le> v \<Longrightarrow> v < 2 ^ 31 \<Longrightarrow> get_int_val (set_int_val v e) = v"
    by (simp add: get_int_val_def set_int_val_def signed_of_int signed_take_bit_int_eq_self)
qed

end
