(* ===== verification/Settings_Records.thy ===== *)
theory Settings_Records
  imports Settings_Memory Control_Scheduler Gateway_Events
begin

text \<open>
  The state of the settings component and \<open>device_settings.c\<close>: one record for each device, with the
  committed snapshots of its schema and values, and the operations that look up, acquire, release and
  replace them.

  \<^item> \<open>ds_state\<close> holds the static variables of all files of the component; a pointer into one of its tables
    is an index, a pointer to a snapshot an address of the heap.
  \<^item> What the component tells others is logged in \<open>s_out\<close>, in order: events on the bus, calls of the
    control scheduler with the answer they got, and completion callbacks.
  \<^item> The functions test a device id for NULL and for the empty string together; one empty string stands
    for both. Where NULL alone is tested, the argument is an option.
  \<^item> \<open>lock\<close> is an argument: whether the mutex is taken within its 100 ms.
\<close>

section \<open>Data\<close>

datatype ds_schema_state =
    DS_SCHEMA_UNKNOWN
  | DS_SCHEMA_DISCOVERING
  | DS_SCHEMA_READY
  | DS_SCHEMA_UNSUPPORTED
  | DS_SCHEMA_ERROR

datatype ds_op_state =
    DS_OP_IDLE
  | DS_OP_QUEUED
  | DS_OP_RUNNING
  | DS_OP_WAITING_REBOOT
  | DS_OP_VERIFYING

datatype ds_op_kind = DS_OP_NONE | DS_OP_DESCRIBE | DS_OP_GET | DS_OP_SET | DS_OP_COMMIT

datatype ds_op_result =
    DS_OP_RESULT_OK
  | DS_OP_RESULT_BUSY
  | DS_OP_RESULT_TIMEOUT
  | DS_OP_RESULT_NOT_SUPPORTED
  | DS_OP_RESULT_PROTOCOL_ERROR
  | DS_OP_RESULT_MEMORY_ERROR
  | DS_OP_RESULT_INTERNAL
  | DS_OP_RESULT_CONFLICT
  | DS_OP_RESULT_REJECTED
  | DS_OP_RESULT_FAILED

datatype ds_tx_state =
    DS_TX_IDLE
  | DS_TX_PREVALIDATING
  | DS_TX_BEGIN_SENT
  | DS_TX_SET_SENT
  | DS_TX_COMMIT_SENT
  | DS_TX_CONFIRM_SENT
  | DS_TX_WAITING_REBOOT
  | DS_TX_VERIFYING
  | DS_TX_SUCCEEDED
  | DS_TX_FAILED
  | DS_TX_CONFLICT
  | DS_TX_CANCELLED
  | DS_TX_OUTCOME_UNKNOWN

datatype ds_tx_result =
    DS_TX_RESULT_OK
  | DS_TX_RESULT_BUSY
  | DS_TX_RESULT_VALIDATION_FAILED
  | DS_TX_RESULT_MEMORY_ERROR
  | DS_TX_RESULT_DEVICE_CONFLICT
  | DS_TX_RESULT_DEVICE_REJECTED
  | DS_TX_RESULT_TIMEOUT
  | DS_TX_RESULT_DISCONNECTED
  | DS_TX_RESULT_CANCELLED
  | DS_TX_RESULT_FAILED
  | DS_TX_RESULT_OUTCOME_UNKNOWN
  | DS_TX_RESULT_INTERNAL

record ds_change_request =
  ch_setting_id :: string
  ch_type :: u8
  ch_bool_val :: bool
  ch_int_val :: int
  ch_enum_val :: int
  ch_str :: string

record ds_transaction =
  tx_active :: bool
  tx_device_id :: string
  tx_state :: ds_tx_state
  tx_changes :: "ds_change_request list"
  tx_next_change_index :: nat
  tx_transaction_id :: u64
  tx_owner_token :: u32
  tx_lease_id :: u32
  tx_expected_config_rev :: u32
  tx_new_config_rev :: u32
  tx_completion :: "nat option"
  tx_context :: nat
  tx_recon_timer :: bool

definition zero_tx :: ds_transaction where
  "zero_tx =
     \<lparr>tx_active = False, tx_device_id = [], tx_state = DS_TX_IDLE, tx_changes = [], tx_next_change_index = 0,
      tx_transaction_id = 0, tx_owner_token = 0, tx_lease_id = 0, tx_expected_config_rev = 0, tx_new_config_rev = 0,
      tx_completion = None, tx_context = 0, tx_recon_timer = False\<rparr>"

record ds_tx_result_record =
  rr_used :: bool
  rr_device_id :: string
  rr_result :: ds_tx_result
  rr_config_revision :: u32

definition zero_result_record :: ds_tx_result_record where
  "zero_result_record = \<lparr>rr_used = False, rr_device_id = [], rr_result = DS_TX_RESULT_OK, rr_config_revision = 0\<rparr>"

record ds_device_record =
  dr_used :: bool
  dr_device_id :: string
  dr_schema_state :: ds_schema_state
  dr_schema :: "nat option"
  dr_values :: "nat option"
  dr_schema_rev :: u32
  dr_config_rev :: u32
  dr_staging_expected_count :: u16
  dr_staging_received_count :: u16
  dr_staging_snapshot_id :: u32
  dr_advertised_schema_rev :: u16
  dr_schema_stream_active :: bool
  dr_values_stream_active :: bool
  dr_pending_reconciliation :: bool
  dr_reconciliation_expected_rev :: u32
  dr_reconciliation_old_rev :: u32

definition zero_device_record :: ds_device_record where
  "zero_device_record =
     \<lparr>dr_used = False, dr_device_id = [], dr_schema_state = DS_SCHEMA_UNKNOWN, dr_schema = None, dr_values = None,
      dr_schema_rev = 0, dr_config_rev = 0, dr_staging_expected_count = 0, dr_staging_received_count = 0,
      dr_staging_snapshot_id = 0, dr_advertised_schema_rev = 0, dr_schema_stream_active = False,
      dr_values_stream_active = False, dr_pending_reconciliation = False, dr_reconciliation_expected_rev = 0,
      dr_reconciliation_old_rev = 0\<rparr>"

record ds_op_record =
  op_active :: bool
  op_device_id :: string
  op_kind :: ds_op_kind
  op_state :: ds_op_state
  op_op_id :: u32
  op_generation :: u32
  op_completion :: "nat option"
  op_context :: nat

definition zero_op :: ds_op_record where
  "zero_op =
     \<lparr>op_active = False, op_device_id = [], op_kind = DS_OP_NONE, op_state = DS_OP_IDLE, op_op_id = 0,
      op_generation = 0, op_completion = None, op_context = 0\<rparr>"

datatype ds_actor_phase =
    DS_ACTOR_IDLE
  | DS_ACTOR_WAIT_LEASE
  | DS_ACTOR_WAIT_COMMAND
  | DS_ACTOR_WAIT_READ_STREAM
  | DS_ACTOR_WAIT_RETRY

record ds_cookie =
  ck_slot :: int
  ck_generation :: u32
  ck_owner :: u32

definition zero_cookie :: ds_cookie where
  "zero_cookie = \<lparr>ck_slot = 0, ck_generation = 0, ck_owner = 0\<rparr>"

record ds_active_op =
  ao_active :: bool
  ao_phase :: ds_actor_phase
  ao_slot :: nat
  ao_generation :: u32
  ao_owner :: u32
  ao_lease :: u32
  ao_retry_count :: nat
  ao_read_ack :: bool
  ao_values_end :: bool
  ao_values_ok :: bool
  ao_cookie :: ds_cookie

definition zero_active_op :: ds_active_op where
  "zero_active_op =
     \<lparr>ao_active = False, ao_phase = DS_ACTOR_IDLE, ao_slot = 0, ao_generation = 0, ao_owner = 0, ao_lease = 0,
      ao_retry_count = 0, ao_read_ack = False, ao_values_end = False, ao_values_ok = False, ao_cookie = zero_cookie\<rparr>"

datatype ds_event_type =
    DS_EVENT_START_OPERATION
  | DS_EVENT_LEASE_RESULT
  | DS_EVENT_COMMAND_COMPLETE
  | DS_EVENT_VALUES_STREAM_COMPLETE
  | DS_EVENT_DISCONNECTED
  | DS_EVENT_RETRY_TIMER
  | DS_EVENT_CANCEL_DEVICE
  | DS_EVENT_TRANSACTION_START
  | DS_EVENT_TRANSACTION_ABORT
  | DS_EVENT_TRANSACTION_TIMEOUT
  | DS_EVENT_FORGET_DEVICE
  | DS_EVENT_SHUTDOWN

record ds_event =
  dv_type :: ds_event_type
  dv_slot :: int
  dv_generation :: u32
  dv_owner_token :: u32
  dv_device_id :: string
  dv_lease_status :: esp_err
  dv_lease_id :: u32
  dv_command :: device_command_result
  dv_values_success :: bool

text \<open>\<open>ds_event_t ev = { .type = t }\<close>.\<close>

definition event_of_type :: "ds_event_type \<Rightarrow> ds_event" where
  "event_of_type t =
     \<lparr>dv_type = t, dv_slot = 0, dv_generation = 0, dv_owner_token = 0, dv_device_id = [], dv_lease_status = ESP_OK,
      dv_lease_id = 0, dv_command = zero_result, dv_values_success = False\<rparr>"

definition device_event :: "ds_event_type \<Rightarrow> string \<Rightarrow> ds_event" where
  "device_event t dev = (event_of_type t)\<lparr>dv_device_id := strlcpy GW_MSG_DEVICE_ID_LEN dev\<rparr>"

record ds_actor_metrics =
  am_event_queue_full :: u32
  am_event_fallback :: u32
  am_stale_events :: u32
  am_lease_release_fail :: u32

text \<open>
  The callbacks given to the scheduler with their context: the cookie of the active operation, the cookie
  of the transaction that asked for a lease last, or the slot of a transaction.
\<close>

datatype ds_callback = CB_OPERATION | CB_TX_LEASE | CB_TRANSACTION nat

datatype ds_output =
    OUT_PUBLISH gateway_event
  | OUT_SUBMIT device_control_job ds_callback esp_err
  | OUT_ACQUIRE device_control_lease_request ds_callback esp_err
  | OUT_RELEASE u32
  | OUT_CANCEL_SOURCE string u32
  | OUT_TX_DONE nat nat ds_tx_result
  | OUT_OP_DONE nat nat ds_op_result

record ds_state =
  s_initialized :: bool
  s_records :: "ds_device_record list"
  s_schemas :: "ds_schema snapshots"
  s_values :: "ds_values snapshots"
  s_diag :: ds_diag
  s_schema_builder :: "ds_schema_builder option"
  s_schema_owner :: string
  s_schema_request_id :: u32
  s_declared_option_count :: "u8 list"
  s_values_builder :: ds_values_builder
  s_values_owner :: string
  s_values_request_id :: u32
  s_values_config_revision :: u32
  s_txns :: "ds_transaction list"
  s_next_transaction_id :: u64
  s_tx_results :: "ds_tx_result_record list"
  s_ops :: "ds_op_record list"
  s_next_op_id :: u32
  s_ops_active :: "bool list"
  s_ops_generation :: "u32 list"
  s_active_op :: ds_active_op
  s_running :: bool
  s_retry_timer :: bool
  s_tx_cookie :: ds_cookie
  s_tx_device :: string
  s_queue :: "ds_event list option"
  s_metrics :: ds_actor_metrics
  s_out :: "ds_output list"

text \<open>The static variables after boot.\<close>

definition settings_boot :: ds_state where
  "settings_boot =
     \<lparr>s_initialized = False, s_records = replicate DEVICE_SETTINGS_MAX_DEVICES zero_device_record,
      s_schemas = (\<lambda>_. None), s_values = (\<lambda>_. None), s_diag = zero_diag, s_schema_builder = None, s_schema_owner = [],
      s_schema_request_id = 0, s_declared_option_count = replicate DEVICE_SETTINGS_MAX_SETTINGS 0,
      s_values_builder = zero_values_builder, s_values_owner = [], s_values_request_id = 0, s_values_config_revision = 0,
      s_txns = replicate DEVICE_SETTINGS_MAX_DEVICES zero_tx, s_next_transaction_id = 0,
      s_tx_results = replicate DEVICE_SETTINGS_MAX_DEVICES zero_result_record,
      s_ops = replicate DEVICE_SETTINGS_MAX_DEVICES zero_op, s_next_op_id = 1,
      s_ops_active = replicate DEVICE_SETTINGS_MAX_DEVICES False, s_ops_generation = replicate DEVICE_SETTINGS_MAX_DEVICES 0,
      s_active_op = zero_active_op, s_running = False, s_retry_timer = False, s_tx_cookie = zero_cookie, s_tx_device = [],
      s_queue = None,
      s_metrics = \<lparr>am_event_queue_full = 0, am_event_fallback = 0, am_stale_events = 0, am_lease_release_fail = 0\<rparr>,
      s_out = []\<rparr>"

section \<open>Shared steps\<close>

definition emit :: "ds_output \<Rightarrow> ds_state \<Rightarrow> ds_state" where
  "emit o' s = s\<lparr>s_out := s_out s @ [o']\<rparr>"

definition count_diag :: "(ds_diag \<Rightarrow> ds_diag) \<Rightarrow> ds_state \<Rightarrow> ds_state" where
  "count_diag f s = s\<lparr>s_diag := f (s_diag s)\<rparr>"

definition upd_rec :: "nat \<Rightarrow> (ds_device_record \<Rightarrow> ds_device_record) \<Rightarrow> ds_state \<Rightarrow> ds_state" where
  "upd_rec i f s = s\<lparr>s_records := (s_records s)[i := f (s_records s ! i)]\<rparr>"

text \<open>\<open>ds_events_post\<close>: the queue of the actor has 24 places.\<close>

abbreviation DS_EVENT_QUEUE_LEN :: nat where "DS_EVENT_QUEUE_LEN \<equiv> 24"

definition ds_events_init :: "bool \<Rightarrow> ds_state \<Rightarrow> ds_state \<times> esp_err" where
  "ds_events_init create s =
     (if s_queue s \<noteq> None then (s, ESP_OK)
      else if create then (s\<lparr>s_queue := Some []\<rparr>, ESP_OK) else (s, ESP_ERR_NO_MEM))"

definition ds_events_deinit :: "ds_state \<Rightarrow> ds_state" where
  "ds_events_deinit s = s\<lparr>s_queue := None\<rparr>"

definition ds_events_post :: "ds_event \<Rightarrow> ds_state \<Rightarrow> ds_state \<times> bool" where
  "ds_events_post ev s =
     (let full = s\<lparr>s_metrics := (s_metrics s)\<lparr>am_event_queue_full := am_event_queue_full (s_metrics s) + 1\<rparr>\<rparr>
      in case s_queue s of
           None \<Rightarrow> (full, False)
         | Some q \<Rightarrow> if length q < DS_EVENT_QUEUE_LEN then (s\<lparr>s_queue := Some (q @ [ev])\<rparr>, True) else (full, False))"

abbreviation GW_SETTINGS_EVENT_STATE_UNKNOWN :: u8 where "GW_SETTINGS_EVENT_STATE_UNKNOWN \<equiv> 0"
abbreviation GW_SETTINGS_EVENT_STATE_DISCOVERING :: u8 where "GW_SETTINGS_EVENT_STATE_DISCOVERING \<equiv> 1"
abbreviation GW_SETTINGS_EVENT_STATE_READING :: u8 where "GW_SETTINGS_EVENT_STATE_READING \<equiv> 2"
abbreviation GW_SETTINGS_EVENT_STATE_READY :: u8 where "GW_SETTINGS_EVENT_STATE_READY \<equiv> 3"
abbreviation GW_SETTINGS_EVENT_STATE_UNSUPPORTED :: u8 where "GW_SETTINGS_EVENT_STATE_UNSUPPORTED \<equiv> 4"
abbreviation GW_SETTINGS_EVENT_STATE_ERROR :: u8 where "GW_SETTINGS_EVENT_STATE_ERROR \<equiv> 5"

definition publish_settings_state :: "string \<Rightarrow> u8 \<Rightarrow> u32 \<Rightarrow> u32 \<Rightarrow> ds_state \<Rightarrow> ds_state" where
  "publish_settings_state device_id state schema_revision config_revision =
     emit (OUT_PUBLISH (zero_event\<lparr>ev_type := GW_EVENT_SETTINGS_STATE, ev_device_id := strlcpy GW_MSG_DEVICE_ID_LEN device_id,
       ev_schema_revision := schema_revision, ev_config_revision := config_revision, ev_settings_state := state\<rparr>))"

definition publish_settings_changed :: "string \<Rightarrow> u32 \<Rightarrow> ds_state \<Rightarrow> ds_state" where
  "publish_settings_changed device_id config_revision =
     emit (OUT_PUBLISH (zero_event\<lparr>ev_type := GW_EVENT_SETTINGS_CHANGED,
       ev_device_id := strlcpy GW_MSG_DEVICE_ID_LEN device_id, ev_config_revision := config_revision\<rparr>))"

section \<open>Records\<close>

definition device_settings_find_record :: "string \<Rightarrow> ds_state \<Rightarrow> nat option" where
  "device_settings_find_record device_id s =
     (if device_id = [] then None
      else find_index (\<lambda>r. dr_used r \<and> dr_device_id r = device_id) (s_records s))"

definition device_settings_find_or_create_record :: "string \<Rightarrow> ds_state \<Rightarrow> ds_state \<times> nat option" where
  "device_settings_find_or_create_record device_id s =
     (if device_id = [] then (s, None)
      else case find_index (\<lambda>r. dr_used r \<and> dr_device_id r = device_id) (s_records s) of
             Some i \<Rightarrow> (s, Some i)
           | None \<Rightarrow>
               (case find_index (\<lambda>r. \<not> dr_used r) (s_records s) of
                  None \<Rightarrow> (s, None)
                | Some i \<Rightarrow>
                    (upd_rec i (\<lambda>_. zero_device_record\<lparr>dr_used := True, dr_schema_state := DS_SCHEMA_UNKNOWN,
                       dr_device_id := strlcpy GW_MSG_DEVICE_ID_LEN device_id\<rparr>) s, Some i)))"

section \<open>Snapshots\<close>

definition device_settings_schema_acquire :: "bool \<Rightarrow> string \<Rightarrow> ds_state \<Rightarrow> ds_state \<times> nat option" where
  "device_settings_schema_acquire lock device_id s =
     (if device_id = [] \<or> \<not> lock then (s, None)
      else case device_settings_find_record device_id s of
             None \<Rightarrow> (s, None)
           | Some i \<Rightarrow>
               (let p = dr_schema (s_records s ! i); (h, ok) = ds_settings_ref_acquire p (s_schemas s)
                in if ok then (s\<lparr>s_schemas := h\<rparr>, p) else (s, None)))"

definition device_settings_schema_release :: "nat option \<Rightarrow> ds_state \<Rightarrow> ds_state" where
  "device_settings_schema_release p s = s\<lparr>s_schemas := ds_settings_ref_release p (s_schemas s)\<rparr>"

definition device_settings_values_acquire :: "bool \<Rightarrow> string \<Rightarrow> ds_state \<Rightarrow> ds_state \<times> nat option" where
  "device_settings_values_acquire lock device_id s =
     (if device_id = [] \<or> \<not> lock then (s, None)
      else case device_settings_find_record device_id s of
             None \<Rightarrow> (s, None)
           | Some i \<Rightarrow>
               (let p = dr_values (s_records s ! i); (h, ok) = ds_values_ref_acquire p (s_values s)
                in if ok then (s\<lparr>s_values := h\<rparr>, p) else (s, None)))"

definition device_settings_values_release :: "nat option \<Rightarrow> ds_state \<Rightarrow> ds_state" where
  "device_settings_values_release p s = s\<lparr>s_values := ds_values_ref_release p (s_values s)\<rparr>"

definition device_settings_commit_schema :: "bool \<Rightarrow> string \<Rightarrow> nat \<Rightarrow> ds_state \<Rightarrow> ds_state \<times> esp_err" where
  "device_settings_commit_schema lock device_id schema s =
     (if device_id = [] then (s, ESP_ERR_INVALID_ARG)
      else if \<not> lock then (s, ESP_ERR_TIMEOUT)
      else case device_settings_find_record device_id s of
             None \<Rightarrow> (s, ESP_ERR_NOT_FOUND)
           | Some i \<Rightarrow>
               (let old = dr_schema (s_records s ! i);
                    rev = (case object_at (s_schemas s) schema of None \<Rightarrow> 0 | Some x \<Rightarrow> sc_schema_revision x);
                    s1 = upd_rec i (\<lambda>r. r\<lparr>dr_schema := Some schema, dr_schema_rev := rev, dr_schema_state := DS_SCHEMA_READY\<rparr>) s
                in (s1\<lparr>s_schemas := ds_settings_ref_release old (s_schemas s1)\<rparr>, ESP_OK)))"

definition device_settings_commit_values :: "bool \<Rightarrow> string \<Rightarrow> nat \<Rightarrow> ds_state \<Rightarrow> ds_state \<times> esp_err" where
  "device_settings_commit_values lock device_id vals s =
     (if device_id = [] then (s, ESP_ERR_INVALID_ARG)
      else if \<not> lock then (s, ESP_ERR_TIMEOUT)
      else case device_settings_find_record device_id s of
             None \<Rightarrow> (s, ESP_ERR_NOT_FOUND)
           | Some i \<Rightarrow>
               (let old = dr_values (s_records s ! i);
                    rev = (case object_at (s_values s) vals of None \<Rightarrow> 0 | Some x \<Rightarrow> vs_config_revision x);
                    s1 = upd_rec i (\<lambda>r. r\<lparr>dr_values := Some vals, dr_config_rev := rev\<rparr>) s
                in (s1\<lparr>s_values := ds_values_ref_release old (s_values s1)\<rparr>, ESP_OK)))"

section \<open>Queries\<close>

definition device_settings_get_state :: "bool \<Rightarrow> string option \<Rightarrow> ds_state \<Rightarrow> esp_err \<times> ds_schema_state option" where
  "device_settings_get_state lock device_id s =
     (case device_id of
        None \<Rightarrow> (ESP_ERR_INVALID_ARG, None)
      | Some dev \<Rightarrow>
          if \<not> lock then (ESP_ERR_TIMEOUT, Some DS_SCHEMA_UNKNOWN)
          else case device_settings_find_record dev s of
                 None \<Rightarrow> (ESP_OK, Some DS_SCHEMA_UNKNOWN)
               | Some i \<Rightarrow> (ESP_OK, Some (dr_schema_state (s_records s ! i))))"

definition device_settings_get_record :: "bool \<Rightarrow> string option \<Rightarrow> ds_state \<Rightarrow> esp_err \<times> ds_device_record option" where
  "device_settings_get_record lock device_id s =
     (case device_id of
        None \<Rightarrow> (ESP_ERR_INVALID_ARG, None)
      | Some dev \<Rightarrow>
          if \<not> lock then (ESP_ERR_TIMEOUT, None)
          else case device_settings_find_record dev s of
                 None \<Rightarrow> (ESP_OK, Some zero_device_record)
               | Some i \<Rightarrow> (ESP_OK, Some (s_records s ! i)))"

definition device_settings_diag_snapshot :: "ds_state \<Rightarrow> ds_diag" where
  "device_settings_diag_snapshot s = s_diag s"

definition device_settings_diag_reset :: "ds_state \<Rightarrow> ds_state" where
  "device_settings_diag_reset s = s\<lparr>s_diag := zero_diag\<rparr>"

definition device_settings_init :: "bool \<Rightarrow> ds_state \<Rightarrow> ds_state \<times> esp_err" where
  "device_settings_init mutex s =
     (if s_initialized s then (s, ESP_ERR_INVALID_STATE)
      else let s1 = s\<lparr>s_records := replicate DEVICE_SETTINGS_MAX_DEVICES zero_device_record\<rparr>
           in if \<not> mutex then (s1, ESP_ERR_NO_MEM) else (s1\<lparr>s_initialized := True\<rparr>, ESP_OK))"

fun device_settings_schema_state_name :: "ds_schema_state \<Rightarrow> string" where
  "device_settings_schema_state_name DS_SCHEMA_UNKNOWN = ''unknown''"
| "device_settings_schema_state_name DS_SCHEMA_DISCOVERING = ''discovering''"
| "device_settings_schema_state_name DS_SCHEMA_READY = ''ready''"
| "device_settings_schema_state_name DS_SCHEMA_UNSUPPORTED = ''unsupported''"
| "device_settings_schema_state_name DS_SCHEMA_ERROR = ''error''"

fun device_settings_tx_state_name :: "ds_tx_state \<Rightarrow> string" where
  "device_settings_tx_state_name DS_TX_IDLE = ''idle''"
| "device_settings_tx_state_name DS_TX_PREVALIDATING = ''running''"
| "device_settings_tx_state_name DS_TX_BEGIN_SENT = ''running''"
| "device_settings_tx_state_name DS_TX_SET_SENT = ''running''"
| "device_settings_tx_state_name DS_TX_COMMIT_SENT = ''running''"
| "device_settings_tx_state_name DS_TX_CONFIRM_SENT = ''running''"
| "device_settings_tx_state_name DS_TX_WAITING_REBOOT = ''waiting_reboot''"
| "device_settings_tx_state_name DS_TX_VERIFYING = ''verifying''"
| "device_settings_tx_state_name DS_TX_SUCCEEDED = ''succeeded''"
| "device_settings_tx_state_name DS_TX_FAILED = ''failed''"
| "device_settings_tx_state_name DS_TX_CONFLICT = ''conflict''"
| "device_settings_tx_state_name DS_TX_CANCELLED = ''cancelled''"
| "device_settings_tx_state_name DS_TX_OUTCOME_UNKNOWN = ''outcome_unknown''"

fun device_settings_tx_result_name :: "ds_tx_result \<Rightarrow> string option" where
  "device_settings_tx_result_name DS_TX_RESULT_OK = None"
| "device_settings_tx_result_name DS_TX_RESULT_BUSY = Some ''busy''"
| "device_settings_tx_result_name DS_TX_RESULT_VALIDATION_FAILED = Some ''validation_failed''"
| "device_settings_tx_result_name DS_TX_RESULT_MEMORY_ERROR = Some ''memory_error''"
| "device_settings_tx_result_name DS_TX_RESULT_DEVICE_CONFLICT = Some ''conflict''"
| "device_settings_tx_result_name DS_TX_RESULT_DEVICE_REJECTED = Some ''rejected''"
| "device_settings_tx_result_name DS_TX_RESULT_TIMEOUT = Some ''timeout''"
| "device_settings_tx_result_name DS_TX_RESULT_DISCONNECTED = Some ''disconnected''"
| "device_settings_tx_result_name DS_TX_RESULT_CANCELLED = Some ''cancelled''"
| "device_settings_tx_result_name DS_TX_RESULT_FAILED = Some ''failed''"
| "device_settings_tx_result_name DS_TX_RESULT_OUTCOME_UNKNOWN = Some ''outcome_unknown''"
| "device_settings_tx_result_name DS_TX_RESULT_INTERNAL = Some ''internal_error''"

section \<open>Frames of the shared steps\<close>

lemma find_index_update:
  "(k < length xs \<Longrightarrow> P y = P (xs ! k)) \<Longrightarrow> find_index P (xs[k := y]) = find_index P xs"
  by (induction xs arbitrary: k) (auto split: nat.splits)

lemma upd_rec_fields [simp]:
  "s_initialized (upd_rec k f s) = s_initialized s" "s_schemas (upd_rec k f s) = s_schemas s" "s_values (upd_rec k f s) = s_values s"
  "s_diag (upd_rec k f s) = s_diag s" "s_schema_builder (upd_rec k f s) = s_schema_builder s"
  "s_schema_owner (upd_rec k f s) = s_schema_owner s" "s_schema_request_id (upd_rec k f s) = s_schema_request_id s"
  "s_declared_option_count (upd_rec k f s) = s_declared_option_count s" "s_values_builder (upd_rec k f s) = s_values_builder s"
  "s_values_owner (upd_rec k f s) = s_values_owner s" "s_txns (upd_rec k f s) = s_txns s" "s_out (upd_rec k f s) = s_out s"
  "s_queue (upd_rec k f s) = s_queue s" "s_next_transaction_id (upd_rec k f s) = s_next_transaction_id s"
  "s_records (upd_rec k f s) = (s_records s)[k := f (s_records s ! k)]" "s_values_request_id (upd_rec k f s) = s_values_request_id s"
  "s_values_config_revision (upd_rec k f s) = s_values_config_revision s"
  by (simp_all add: upd_rec_def)

lemma emit_fields [simp]:
  "s_initialized (emit e s) = s_initialized s" "s_schemas (emit e s) = s_schemas s" "s_values (emit e s) = s_values s"
  "s_diag (emit e s) = s_diag s" "s_schema_builder (emit e s) = s_schema_builder s"
  "s_schema_owner (emit e s) = s_schema_owner s" "s_schema_request_id (emit e s) = s_schema_request_id s"
  "s_declared_option_count (emit e s) = s_declared_option_count s" "s_values_builder (emit e s) = s_values_builder s"
  "s_values_owner (emit e s) = s_values_owner s" "s_txns (emit e s) = s_txns s" "s_out (emit e s) = s_out s @ [e]"
  "s_queue (emit e s) = s_queue s" "s_next_transaction_id (emit e s) = s_next_transaction_id s"
  "s_records (emit e s) = s_records s" "s_values_request_id (emit e s) = s_values_request_id s"
  "s_values_config_revision (emit e s) = s_values_config_revision s"
  by (simp_all add: emit_def)

lemma count_diag_fields [simp]:
  "s_initialized (count_diag g s) = s_initialized s" "s_schemas (count_diag g s) = s_schemas s" "s_values (count_diag g s) = s_values s"
  "s_diag (count_diag g s) = g (s_diag s)" "s_schema_builder (count_diag g s) = s_schema_builder s"
  "s_schema_owner (count_diag g s) = s_schema_owner s" "s_schema_request_id (count_diag g s) = s_schema_request_id s"
  "s_declared_option_count (count_diag g s) = s_declared_option_count s" "s_values_builder (count_diag g s) = s_values_builder s"
  "s_values_owner (count_diag g s) = s_values_owner s" "s_txns (count_diag g s) = s_txns s" "s_out (count_diag g s) = s_out s"
  "s_queue (count_diag g s) = s_queue s" "s_next_transaction_id (count_diag g s) = s_next_transaction_id s"
  "s_records (count_diag g s) = s_records s" "s_values_request_id (count_diag g s) = s_values_request_id s"
  "s_values_config_revision (count_diag g s) = s_values_config_revision s"
  by (simp_all add: count_diag_def)

lemma find_record_cong: "s_records s = s_records t \<Longrightarrow> device_settings_find_record dev s = device_settings_find_record dev t"
  by (simp add: device_settings_find_record_def)

lemma find_record_upd:
  assumes "\<And>r. dr_used (f r) = dr_used r \<and> dr_device_id (f r) = dr_device_id r"
  shows "device_settings_find_record dev (upd_rec k f s) = device_settings_find_record dev s"
  using assms by (simp add: device_settings_find_record_def find_index_update)

lemma find_recordD:
  assumes "device_settings_find_record dev s = Some k"
  shows "k < length (s_records s)" "dr_used (s_records s ! k)" "dr_device_id (s_records s ! k) = dev" "dev \<noteq> []"
  using assms find_index_SomeD [of _ "s_records s" k] by (auto simp: device_settings_find_record_def split: if_splits)

lemma find_or_create_record:
  assumes "device_settings_find_or_create_record dev s = (t, Some k)" "length dev < GW_MSG_DEVICE_ID_LEN"
  shows "device_settings_find_record dev t = Some k"
proof -
  have dev: "dev \<noteq> []" using assms(1) by (auto simp: device_settings_find_or_create_record_def)
  show ?thesis
  proof (cases "find_index (\<lambda>r. dr_used r \<and> dr_device_id r = dev) (s_records s)")
    case (Some i)
    then show ?thesis using assms dev by (auto simp: device_settings_find_or_create_record_def device_settings_find_record_def)
  next
    case None
    let ?new = "zero_device_record\<lparr>dr_used := True, dr_schema_state := DS_SCHEMA_UNKNOWN, dr_device_id := dev\<rparr>"
    from None have k: "find_index (\<lambda>r. \<not> dr_used r) (s_records s) = Some k" and t: "t = upd_rec k (\<lambda>_. ?new) s"
      using assms dev by (auto simp: device_settings_find_or_create_record_def split: option.splits)
    have lt: "k < length (s_records s)" using find_index_SomeD [OF k] by simp
    have "find_index (\<lambda>r. dr_used r \<and> dr_device_id r = dev) ((s_records s)[k := ?new]) = Some k"
    proof (rule find_index_SomeI)
      show "\<forall>j<k. \<not> (dr_used ((s_records s)[k := ?new] ! j) \<and> dr_device_id ((s_records s)[k := ?new] ! j) = dev)"
        using None [unfolded find_index_None] lt by (auto dest: bspec [OF _ nth_mem])
    qed (use lt in simp_all)
    then show ?thesis using dev by (simp add: t device_settings_find_record_def)
  qed
qed

end
