(* ===== verification/Settings_Transaction.thy ===== *)
theory Settings_Transaction
  imports Settings_Records Command_Request
begin

text \<open>
  Transactions of the settings component (\<open>device_settings_transaction.c\<close>, and the reconciliation of
  \<open>device_settings.c\<close>): a save copies its changes into a slot, the actor sends BEGIN, one SET for each
  change, COMMIT and CONFIRM through the control scheduler, and the values a device reports after its
  reboot decide the outcome.

  A transaction pointer is the index of its slot, also in the callbacks of the scheduler and the timer,
  which read the slot when they run. \<open>ds_env\<close> holds the answers the outside gives to one call: of the
  scheduler, the allocator, the timer service and the mutex.
\<close>

section \<open>The registry\<close>

record ds_env =
  en_submit :: esp_err
  en_acquire :: esp_err
  en_timer_created :: bool
  en_timer_started :: bool
  en_lock :: bool
  en_relock :: bool
  en_changes_mem :: bool
  en_builder_mem :: bool
  en_pool_mem :: "(nat \<Rightarrow> char) option"
  en_snapshot_mem :: "nat option"

fun ws_tx_state :: "ds_tx_state \<Rightarrow> u8" where
  "ws_tx_state DS_TX_IDLE = 0"
| "ws_tx_state DS_TX_PREVALIDATING = 1"
| "ws_tx_state DS_TX_BEGIN_SENT = 2"
| "ws_tx_state DS_TX_SET_SENT = 3"
| "ws_tx_state DS_TX_COMMIT_SENT = 4"
| "ws_tx_state DS_TX_CONFIRM_SENT = 5"
| "ws_tx_state DS_TX_WAITING_REBOOT = 6"
| "ws_tx_state DS_TX_VERIFYING = 8"
| "ws_tx_state DS_TX_SUCCEEDED = 9"
| "ws_tx_state DS_TX_CONFLICT = 11"
| "ws_tx_state DS_TX_CANCELLED = 12"
| "ws_tx_state DS_TX_OUTCOME_UNKNOWN = 13"
| "ws_tx_state DS_TX_FAILED = 10"

abbreviation GW_SETTINGS_TX_RECONNECTING :: u8 where "GW_SETTINGS_TX_RECONNECTING \<equiv> 7"
abbreviation GW_SETTINGS_TX_VERIFYING :: u8 where "GW_SETTINGS_TX_VERIFYING \<equiv> 8"
abbreviation GW_SETTINGS_TX_SUCCEEDED :: u8 where "GW_SETTINGS_TX_SUCCEEDED \<equiv> 9"
abbreviation GW_SETTINGS_TX_FAILED :: u8 where "GW_SETTINGS_TX_FAILED \<equiv> 10"
abbreviation GW_SETTINGS_TX_CONFLICT :: u8 where "GW_SETTINGS_TX_CONFLICT \<equiv> 11"

definition upd_tx :: "nat \<Rightarrow> (ds_transaction \<Rightarrow> ds_transaction) \<Rightarrow> ds_state \<Rightarrow> ds_state" where
  "upd_tx i f s = s\<lparr>s_txns := (s_txns s)[i := f (s_txns s ! i)]\<rparr>"

definition tx_event :: "ds_transaction \<Rightarrow> u8 \<Rightarrow> gateway_event" where
  "tx_event tx state =
     zero_event\<lparr>ev_type := GW_EVENT_SETTINGS_TRANSACTION, ev_device_id := strlcpy GW_MSG_DEVICE_ID_LEN (tx_device_id tx),
       ev_transaction_id := tx_transaction_id tx, ev_expected_revision := tx_expected_config_rev tx,
       ev_new_revision := tx_new_config_rev tx, ev_progress_current := word_of_nat (tx_next_change_index tx),
       ev_progress_total := word_of_nat (length (tx_changes tx)), ev_settings_tx_state := state\<rparr>"

definition publish_tx :: "nat \<Rightarrow> ds_state \<Rightarrow> ds_state" where
  "publish_tx i s =
     (let tx = s_txns s ! i
      in if \<not> tx_active tx then s else emit (OUT_PUBLISH (tx_event tx (ws_tx_state (tx_state tx)))) s)"

definition transition_tx :: "nat \<Rightarrow> ds_tx_state \<Rightarrow> ds_state \<Rightarrow> ds_state" where
  "transition_tx i state s =
     (if tx_state (s_txns s ! i) = state then s
      else publish_tx i (upd_tx i (\<lambda>tx. tx\<lparr>tx_state := state\<rparr>) s))"

definition device_settings_tx_store_result :: "string \<Rightarrow> ds_tx_result \<Rightarrow> u32 \<Rightarrow> ds_state \<Rightarrow> ds_state" where
  "device_settings_tx_store_result device_id result config_revision s =
     (if device_id = [] then s
      else case find_index (\<lambda>r. rr_used r \<and> rr_device_id r = device_id) (s_tx_results s) of
             Some i \<Rightarrow>
               s\<lparr>s_tx_results := (s_tx_results s)[i := (s_tx_results s ! i)\<lparr>rr_result := result, rr_config_revision := config_revision\<rparr>]\<rparr>
           | None \<Rightarrow>
               (case find_index (\<lambda>r. \<not> rr_used r) (s_tx_results s) of
                  None \<Rightarrow> s
                | Some i \<Rightarrow>
                    s\<lparr>s_tx_results := (s_tx_results s)[i := \<lparr>rr_used = True, rr_device_id = strlcpy 32 device_id,
                        rr_result = result, rr_config_revision = config_revision\<rparr>]\<rparr>))"

definition ds_tx_find :: "string \<Rightarrow> ds_state \<Rightarrow> nat option" where
  "ds_tx_find device_id s =
     (if device_id = [] then None
      else find_index (\<lambda>t. tx_active t \<and> tx_device_id t = device_id) (s_txns s))"

definition ds_tx_alloc :: "ds_state \<Rightarrow> ds_state \<times> nat option" where
  "ds_tx_alloc s =
     (case find_index (\<lambda>t. \<not> tx_active t) (s_txns s) of
        None \<Rightarrow> (s, None)
      | Some i \<Rightarrow> (upd_tx i (\<lambda>_. zero_tx\<lparr>tx_active := True\<rparr>) s, Some i))"

definition cancel_reconciliation_timer :: "nat \<Rightarrow> ds_state \<Rightarrow> ds_state" where
  "cancel_reconciliation_timer i = upd_tx i (\<lambda>tx. tx\<lparr>tx_recon_timer := False\<rparr>)"

definition ds_tx_free :: "nat \<Rightarrow> ds_state \<Rightarrow> ds_state" where
  "ds_tx_free i s = upd_tx i (\<lambda>tx. tx\<lparr>tx_changes := [], tx_active := False\<rparr>) (cancel_reconciliation_timer i s)"

definition release_tx_lease :: "nat \<Rightarrow> ds_state \<Rightarrow> ds_state" where
  "release_tx_lease i s =
     (let lease = tx_lease_id (s_txns s ! i)
      in if lease = 0 then s else upd_tx i (\<lambda>tx. tx\<lparr>tx_lease_id := 0\<rparr>) (emit (OUT_RELEASE lease) s))"

definition call_tx_completion :: "nat option \<Rightarrow> nat \<Rightarrow> ds_tx_result \<Rightarrow> ds_state \<Rightarrow> ds_state" where
  "call_tx_completion cb context result s = (case cb of None \<Rightarrow> s | Some f \<Rightarrow> emit (OUT_TX_DONE f context result) s)"

fun terminal_state :: "ds_tx_result \<Rightarrow> ds_tx_state" where
  "terminal_state DS_TX_RESULT_OK = DS_TX_SUCCEEDED"
| "terminal_state DS_TX_RESULT_DEVICE_CONFLICT = DS_TX_CONFLICT"
| "terminal_state DS_TX_RESULT_CANCELLED = DS_TX_CANCELLED"
| "terminal_state DS_TX_RESULT_OUTCOME_UNKNOWN = DS_TX_OUTCOME_UNKNOWN"
| "terminal_state _ = DS_TX_FAILED"

definition ds_tx_complete :: "nat \<Rightarrow> ds_tx_result \<Rightarrow> u32 \<Rightarrow> ds_state \<Rightarrow> ds_state" where
  "ds_tx_complete i result config_revision s =
     (let s1 = release_tx_lease i (transition_tx i (terminal_state result) s);
          tx = s_txns s1 ! i;
          s2 = device_settings_tx_store_result (tx_device_id tx) result config_revision s1
      in call_tx_completion (tx_completion tx) (tx_context tx) result (ds_tx_free i s2))"

definition next_transaction_id :: "ds_state \<Rightarrow> ds_state \<times> u64" where
  "next_transaction_id s =
     (let n = s_next_transaction_id s + 1; n' = (if n = 0 then n + 1 else n)
      in (s\<lparr>s_next_transaction_id := n'\<rparr>, n'))"

section \<open>Commands and the timer\<close>

definition on_scheduler_complete :: "device_control_result option \<Rightarrow> nat \<Rightarrow> ds_state \<Rightarrow> ds_state" where
  "on_scheduler_complete result i s =
     (let tx = s_txns s ! i;
          command = (case result of
                       None \<Rightarrow> zero_result\<lparr>rs_status := DEVICE_CMD_STATUS_INTERNAL\<rparr>
                     | Some r \<Rightarrow> if cr_terminal r = DEVICE_CTRL_TERMINAL_COMMAND then cr_command_result r
                                 else zero_result\<lparr>rs_status := DEVICE_CMD_STATUS_CANCELLED\<rparr>)
      in fst (ds_events_post ((device_event DS_EVENT_COMMAND_COMPLETE (tx_device_id tx))\<lparr>dv_slot := -1,
                dv_generation := ucast (tx_transaction_id tx), dv_owner_token := tx_owner_token tx, dv_command := command\<rparr>) s))"

definition submit_tx_command :: "ds_env \<Rightarrow> nat \<Rightarrow> device_command_request \<Rightarrow> ds_state \<Rightarrow> ds_state \<times> esp_err" where
  "submit_tx_command env i request s =
     (let tx = s_txns s ! i;
          job = zero_job\<lparr>j_request := request, j_priority := DEVICE_CTRL_PRIORITY_HIGH, j_source := DEVICE_CTRL_SOURCE_SETTINGS,
                  j_owner_token := tx_owner_token tx, j_lease_id := tx_lease_id tx\<rparr>
      in (emit (OUT_SUBMIT job (CB_TRANSACTION i) (en_submit env)) s, en_submit env))"

definition reconciliation_timeout_cb :: "nat \<Rightarrow> ds_state \<Rightarrow> ds_state" where
  "reconciliation_timeout_cb i s =
     (let tx = s_txns s ! i
      in if \<not> tx_active tx then s
         else fst (ds_events_post (device_event DS_EVENT_TRANSACTION_TIMEOUT (tx_device_id tx)) s))"

definition start_reconciliation_timer :: "ds_env \<Rightarrow> nat \<Rightarrow> ds_state \<Rightarrow> ds_state" where
  "start_reconciliation_timer env i s =
     (if tx_recon_timer (s_txns s ! i) then s
      else if en_timer_created env \<and> en_timer_started env then upd_tx i (\<lambda>tx. tx\<lparr>tx_recon_timer := True\<rparr>) s
      else s)"

definition mark_reconciliation_pending :: "ds_env \<Rightarrow> nat \<Rightarrow> ds_state \<Rightarrow> ds_state" where
  "mark_reconciliation_pending env i s =
     (let tx = s_txns s ! i;
          expected = (if tx_new_config_rev tx \<noteq> 0 then tx_new_config_rev tx else tx_expected_config_rev tx + 1);
          s1 = (case device_settings_find_record (tx_device_id tx) s of
                  None \<Rightarrow> s
                | Some k \<Rightarrow> upd_rec k (\<lambda>r. r\<lparr>dr_pending_reconciliation := True, dr_reconciliation_expected_rev := expected,
                              dr_reconciliation_old_rev := tx_expected_config_rev tx\<rparr>) s)
      in if \<not> tx_active tx then s
         else start_reconciliation_timer env i (transition_tx i DS_TX_WAITING_REBOOT s1))"

section \<open>Prevalidation\<close>

definition find_descriptor :: "ds_schema \<Rightarrow> string \<Rightarrow> ds_setting_desc option" where
  "find_descriptor schema setting_id =
     List.find (\<lambda>d. ds_string_pool_get (sc_strings schema) (sd_id_off d) = setting_id) (sc_descriptors schema)"

definition int_in_range :: "ds_setting_desc \<Rightarrow> int \<Rightarrow> bool" where
  "int_in_range desc v \<longleftrightarrow>
     \<not> (v < sd_min_value desc \<or> v > sd_max_value desc \<or>
        (sd_step desc \<noteq> 0 \<and> word_of_int (v - sd_min_value desc) mod sd_step desc \<noteq> 0))"

definition enum_has :: "ds_schema \<Rightarrow> ds_setting_desc \<Rightarrow> int \<Rightarrow> bool" where
  "enum_has schema desc v \<longleftrightarrow>
     list_ex (\<lambda>opt. uint (eo_value (sc_enum_options schema ! (sd_option_index desc + opt))) = v) [0..<sd_option_count desc]"

definition string_fits :: "ds_setting_desc \<Rightarrow> string \<Rightarrow> bool" where
  "string_fits desc str \<longleftrightarrow>
     \<not> (strnlen str 128 \<ge> 128 \<or> strnlen str 128 \<ge> GW_SETTINGS_VALUE_MAX_LEN \<or>
        (sd_max_length desc \<noteq> 0 \<and> length (cstr str) > unat (sd_max_length desc)))"

definition prevalidate_change :: "ds_schema option \<Rightarrow> ds_change_request \<Rightarrow> bool" where
  "prevalidate_change schema change =
     (case schema of
        None \<Rightarrow> False
      | Some sc \<Rightarrow>
          if ch_setting_id change = [] then False
          else case find_descriptor sc (ch_setting_id change) of
                 None \<Rightarrow> False
               | Some desc \<Rightarrow>
                   if sd_flags desc AND DS_FLAG_WRITABLE = 0 then False
                   else if sd_type desc \<noteq> ch_type change then False
                   else if sd_type desc = DS_TYPE_FLOAT then False
                   else if sd_type desc = DS_TYPE_INT \<and> \<not> int_in_range desc (ch_int_val change) then False
                   else if sd_type desc = DS_TYPE_ENUM \<and> \<not> enum_has sc desc (ch_enum_val change) then False
                   else if sd_type desc = DS_TYPE_STRING \<and> \<not> string_fits desc (ch_str change) then False
                   else True)"

section \<open>The script of a transaction\<close>

definition tx_request :: "ds_transaction \<Rightarrow> string \<Rightarrow> device_command_request" where
  "tx_request tx command =
     zero_request\<lparr>rq_origin := DEVICE_CMD_ORIGIN_SETTINGS, rq_device_id := strlcpy GW_MSG_DEVICE_ID_LEN (tx_device_id tx),
       rq_command := strlcpy GW_MSG_COMMAND_LEN command,
       rq_settings := zero_settings_payload\<lparr>sp_has_transaction_id := True, sp_transaction_id := tx_transaction_id tx\<rparr>\<rparr>"

definition begin_request :: "ds_transaction \<Rightarrow> device_command_request" where
  "begin_request tx =
     (let r = tx_request tx GW_SETTINGS_CMD_TX_BEGIN
      in r\<lparr>rq_settings := (rq_settings r)\<lparr>sp_has_expected_revision := True, sp_expected_revision := tx_expected_config_rev tx\<rparr>\<rparr>)"

definition change_payload :: "ds_change_request \<Rightarrow> device_command_settings_payload \<Rightarrow> device_command_settings_payload" where
  "change_payload ch p0 =
     (let p = p0\<lparr>sp_has_setting_id := True, sp_setting_id := strlcpy GW_FEATURE_ID_LEN (ch_setting_id ch),
                 sp_has_setting_value := True, sp_setting_type := ch_type ch\<rparr>
      in if ch_type ch = DS_TYPE_BOOL then p\<lparr>sp_bool_value := ch_bool_val ch\<rparr>
         else if ch_type ch = DS_TYPE_INT then p\<lparr>sp_int_value := ch_int_val ch\<rparr>
         else if ch_type ch = DS_TYPE_ENUM then p\<lparr>sp_enum_value := word_of_int (ch_enum_val ch)\<rparr>
         else if ch_type ch = DS_TYPE_STRING then p\<lparr>sp_string_value := strlcpy GW_SETTINGS_VALUE_MAX_LEN (cstr (ch_str ch))\<rparr>
         else p)"

definition set_request :: "ds_transaction \<Rightarrow> ds_change_request \<Rightarrow> device_command_request" where
  "set_request tx ch =
     (let r = tx_request tx GW_SETTINGS_CMD_TX_SET in r\<lparr>rq_settings := change_payload ch (rq_settings r)\<rparr>)"

definition commit_request :: "ds_transaction \<Rightarrow> device_command_request" where
  "commit_request tx = tx_request tx GW_SETTINGS_CMD_TX_COMMIT"

definition confirm_request :: "ds_transaction \<Rightarrow> device_command_request" where
  "confirm_request tx =
     (let r = tx_request tx GW_SETTINGS_CMD_COMMIT_CONFIRM
      in r\<lparr>rq_settings := (rq_settings r)\<lparr>sp_has_new_revision := True, sp_new_revision := tx_new_config_rev tx\<rparr>\<rparr>)"

definition fail_internal :: "nat \<Rightarrow> ds_state \<Rightarrow> ds_state" where
  "fail_internal i s = ds_tx_complete i DS_TX_RESULT_INTERNAL 0 (transition_tx i DS_TX_FAILED s)"

definition send_or_fail :: "ds_env \<Rightarrow> nat \<Rightarrow> device_command_request \<Rightarrow> ds_state \<Rightarrow> ds_state" where
  "send_or_fail env i request s =
     (let (s1, err) = submit_tx_command env i request s in if err \<noteq> ESP_OK then fail_internal i s1 else s1)"

definition submit_next_command :: "ds_env \<Rightarrow> nat \<Rightarrow> ds_state \<Rightarrow> ds_state" where
  "submit_next_command env i s =
     (let tx = s_txns s ! i
      in if \<not> tx_active tx then s
         else case map_option (\<lambda>k. dr_schema (s_records s ! k)) (device_settings_find_record (tx_device_id tx) s) of
                Some (Some _) \<Rightarrow>
                  if tx_next_change_index tx < length (tx_changes tx)
                  then send_or_fail env i (set_request tx (tx_changes tx ! tx_next_change_index tx)) (transition_tx i DS_TX_SET_SENT s)
                  else send_or_fail env i (commit_request tx) (transition_tx i DS_TX_COMMIT_SENT s)
              | _ \<Rightarrow> fail_internal i s)"

text \<open>A successful completion, by the state of the transaction.\<close>

definition tx_command_ok :: "ds_env \<Rightarrow> nat \<Rightarrow> device_command_result \<Rightarrow> ds_state \<Rightarrow> ds_state" where
  "tx_command_ok env i result s =
     (let st = tx_state (s_txns s ! i)
      in if st = DS_TX_BEGIN_SENT then submit_next_command env i s
         else if st = DS_TX_SET_SENT
         then submit_next_command env i (publish_tx i (upd_tx i (\<lambda>tx. tx\<lparr>tx_next_change_index := tx_next_change_index tx + 1\<rparr>) s))
         else if st = DS_TX_COMMIT_SENT
         then (let s1 = (if rs_has_int_value result
                         then upd_tx i (\<lambda>tx. tx\<lparr>tx_new_config_rev := word_of_int (rs_int_value result)\<rparr>) s else s)
               in send_or_fail env i (confirm_request (s_txns s1 ! i)) (transition_tx i DS_TX_CONFIRM_SENT s1))
         else if st = DS_TX_CONFIRM_SENT
         then count_diag (\<lambda>d. d\<lparr>dg_tx_success := dg_tx_success d + 1\<rparr>) (mark_reconciliation_pending env i s)
         else s)"

definition count_tx_fail :: "ds_state \<Rightarrow> ds_state" where
  "count_tx_fail = count_diag (\<lambda>d. d\<lparr>dg_tx_fail := dg_tx_fail d + 1\<rparr>)"

definition count_outcome_unknown :: "ds_state \<Rightarrow> ds_state" where
  "count_outcome_unknown = count_diag (\<lambda>d. d\<lparr>dg_outcome_unknown := dg_outcome_unknown d + 1\<rparr>)"

definition tx_fail :: "nat \<Rightarrow> ds_tx_result \<Rightarrow> ds_state \<Rightarrow> ds_state" where
  "tx_fail i result s = ds_tx_complete i result 0 (count_tx_fail (transition_tx i DS_TX_FAILED s))"

text \<open>A timeout or a lost link: after COMMIT the outcome is open, before it the transaction failed.\<close>

definition tx_ambiguous :: "ds_env \<Rightarrow> nat \<Rightarrow> ds_tx_result \<Rightarrow> ds_state \<Rightarrow> ds_state" where
  "tx_ambiguous env i result s =
     (if tx_state (s_txns s ! i) = DS_TX_COMMIT_SENT \<or> tx_state (s_txns s ! i) = DS_TX_CONFIRM_SENT
      then release_tx_lease i (mark_reconciliation_pending env i (count_outcome_unknown s))
      else tx_fail i result s)"

definition device_settings_tx_actor_command_complete ::
    "ds_env \<Rightarrow> string \<Rightarrow> device_command_result option \<Rightarrow> ds_state \<Rightarrow> ds_state" where
  "device_settings_tx_actor_command_complete env device_id result s =
     (case ds_tx_find device_id s of
        None \<Rightarrow> s
      | Some i \<Rightarrow>
          (case result of
             None \<Rightarrow> fail_internal i s
           | Some r \<Rightarrow>
               if tx_state (s_txns s ! i) = DS_TX_WAITING_REBOOT
               then (if rs_status r = DEVICE_CMD_STATUS_OK \<and> rs_has_int_value r
                     then let rev = word_of_int (rs_int_value r);
                              s1 = upd_tx i (\<lambda>tx. tx\<lparr>tx_new_config_rev := rev\<rparr>) s
                          in case device_settings_find_record (tx_device_id (s_txns s ! i)) s1 of
                               None \<Rightarrow> s1
                             | Some k \<Rightarrow> upd_rec k (\<lambda>rec. rec\<lparr>dr_reconciliation_expected_rev := rev\<rparr>) s1
                     else s)
               else (case rs_status r of
                       DEVICE_CMD_STATUS_OK \<Rightarrow> tx_command_ok env i r s
                     | DEVICE_CMD_STATUS_REJECTED \<Rightarrow>
                         if tx_state (s_txns s ! i) = DS_TX_BEGIN_SENT
                         then ds_tx_complete i DS_TX_RESULT_DEVICE_CONFLICT 0
                                (count_diag (\<lambda>d. d\<lparr>dg_tx_conflict := dg_tx_conflict d + 1\<rparr>) (transition_tx i DS_TX_CONFLICT s))
                         else tx_fail i DS_TX_RESULT_DEVICE_REJECTED s
                     | DEVICE_CMD_STATUS_BUSY \<Rightarrow> tx_fail i DS_TX_RESULT_DEVICE_REJECTED s
                     | DEVICE_CMD_STATUS_TIMEOUT \<Rightarrow> tx_ambiguous env i DS_TX_RESULT_TIMEOUT s
                     | DEVICE_CMD_STATUS_NOT_CONNECTED \<Rightarrow> tx_ambiguous env i DS_TX_RESULT_DISCONNECTED s
                     | DEVICE_CMD_STATUS_CANCELLED \<Rightarrow>
                         ds_tx_complete i DS_TX_RESULT_CANCELLED 0 (count_tx_fail (transition_tx i DS_TX_CANCELLED s))
                     | _ \<Rightarrow> fail_internal i s)))"

section \<open>Starting and ending\<close>

definition prepare_save :: "nat \<Rightarrow> string \<Rightarrow> u32 \<Rightarrow> u64 \<Rightarrow> ds_state \<Rightarrow> ds_state" where
  "prepare_save i device_id expected_config_rev tx_id =
     upd_tx i (\<lambda>tx. tx\<lparr>tx_device_id := strlcpy 32 device_id, tx_transaction_id := tx_id, tx_expected_config_rev := expected_config_rev\<rparr>)"

definition schema_of :: "ds_state \<Rightarrow> nat \<Rightarrow> ds_schema option" where
  "schema_of s k = Option.bind (dr_schema (s_records s ! k)) (object_at (s_schemas s))"

definition device_settings_save ::
    "ds_env \<Rightarrow> string \<Rightarrow> ds_change_request list \<Rightarrow> u32 \<Rightarrow> nat option \<Rightarrow> nat \<Rightarrow> ds_state \<Rightarrow> ds_state \<times> esp_err \<times> u64 option" where
  "device_settings_save env device_id changes expected_config_rev completion context s =
     (if device_id = [] then (s, ESP_ERR_INVALID_ARG, None)
      else if changes = [] \<or> length changes > DS_TX_MAX_CHANGES then (s, ESP_ERR_INVALID_ARG, None)
      else if ds_tx_find device_id s \<noteq> None
      then (count_diag (\<lambda>d. d\<lparr>dg_tx_conflict := dg_tx_conflict d + 1\<rparr>) s, ESP_ERR_INVALID_STATE, None)
      else case device_settings_find_record device_id s of
             None \<Rightarrow> (s, ESP_ERR_INVALID_STATE, None)
           | Some k \<Rightarrow>
               if dr_schema_state (s_records s ! k) \<noteq> DS_SCHEMA_READY \<or> dr_schema (s_records s ! k) = None
               then (s, ESP_ERR_INVALID_STATE, None)
               else (case ds_tx_alloc s of
                       (s1, None) \<Rightarrow> (s1, ESP_ERR_NO_MEM, None)
                     | (s1, Some i) \<Rightarrow>
                         (let (s2, tx_id) = next_transaction_id s1;
                              s3 = prepare_save i device_id expected_config_rev tx_id s2;
                              (d, mem) = ds_settings_alloc (length changes) (if en_changes_mem env then Some () else None) (s_diag s3);
                              s4 = s3\<lparr>s_diag := d\<rparr>
                          in if mem = None then (ds_tx_free i s4, ESP_ERR_NO_MEM, Some tx_id)
                             else let s5 = upd_tx i (\<lambda>tx. tx\<lparr>tx_changes := changes, tx_next_change_index := 0,
                                             tx_completion := completion, tx_context := context\<rparr>) s4;
                                      s6 = transition_tx i DS_TX_PREVALIDATING (publish_tx i s5)
                                  in if \<not> list_all (prevalidate_change (schema_of s6 k)) changes
                                     then (ds_tx_free i (count_diag (\<lambda>d. d\<lparr>dg_tx_prevalidate_fail := dg_tx_prevalidate_fail d + 1\<rparr>) s6),
                                           ESP_ERR_INVALID_ARG, Some tx_id)
                                     else let (s7, ok) = ds_events_post ((device_event DS_EVENT_TRANSACTION_START device_id)\<lparr>
                                                dv_generation := ucast tx_id, dv_owner_token := ucast tx_id\<rparr>) s6
                                          in if \<not> ok then (ds_tx_free i s7, ESP_ERR_NO_MEM, Some tx_id)
                                             else (s7, ESP_OK, Some tx_id))))"

definition device_settings_tx_cancel :: "string \<Rightarrow> ds_state \<Rightarrow> ds_state \<times> esp_err" where
  "device_settings_tx_cancel device_id s =
     (if device_id = [] then (s, ESP_ERR_INVALID_ARG)
      else if ds_tx_find device_id s = None then (s, ESP_ERR_NOT_FOUND)
      else (fst (ds_events_post (device_event DS_EVENT_TRANSACTION_ABORT device_id) s), ESP_OK))"

definition device_settings_tx_actor_begin :: "ds_env \<Rightarrow> string \<Rightarrow> u32 \<Rightarrow> u32 \<Rightarrow> ds_state \<Rightarrow> ds_state" where
  "device_settings_tx_actor_begin env device_id owner lease s =
     (case ds_tx_find device_id s of
        None \<Rightarrow> if lease \<noteq> 0 then emit (OUT_RELEASE lease) s else s
      | Some i \<Rightarrow>
          (let s1 = upd_tx i (\<lambda>tx. tx\<lparr>tx_owner_token := owner, tx_lease_id := lease\<rparr>) s;
               s2 = transition_tx i DS_TX_BEGIN_SENT s1;
               (s3, err) = submit_tx_command env i (begin_request (s_txns s2 ! i)) s2
           in if err \<noteq> ESP_OK then ds_tx_complete i DS_TX_RESULT_INTERNAL 0 s3 else s3))"

definition device_settings_tx_actor_abort :: "string \<Rightarrow> ds_state \<Rightarrow> ds_state" where
  "device_settings_tx_actor_abort device_id s =
     (case ds_tx_find device_id s of
        None \<Rightarrow> s
      | Some i \<Rightarrow> ds_tx_complete i DS_TX_RESULT_CANCELLED 0 (emit (OUT_CANCEL_SOURCE device_id (tx_owner_token (s_txns s ! i))) s))"

definition device_settings_tx_actor_on_disconnect :: "ds_env \<Rightarrow> string \<Rightarrow> ds_state \<Rightarrow> ds_state \<times> bool" where
  "device_settings_tx_actor_on_disconnect env device_id s =
     (case ds_tx_find device_id s of
        None \<Rightarrow> (s, False)
      | Some i \<Rightarrow>
          (let st = tx_state (s_txns s ! i)
           in if st \<noteq> DS_TX_COMMIT_SENT \<and> st \<noteq> DS_TX_CONFIRM_SENT \<and> st \<noteq> DS_TX_WAITING_REBOOT then (s, False)
              else let s1 = (if st \<noteq> DS_TX_WAITING_REBOOT then mark_reconciliation_pending env i (count_outcome_unknown s) else s)
                   in (release_tx_lease i s1, True)))"

definition device_settings_tx_actor_timeout :: "string \<Rightarrow> ds_state \<Rightarrow> ds_state" where
  "device_settings_tx_actor_timeout device_id s =
     (case ds_tx_find device_id s of
        None \<Rightarrow> s
      | Some i \<Rightarrow>
          if tx_state (s_txns s ! i) \<noteq> DS_TX_WAITING_REBOOT then device_settings_tx_actor_abort device_id s
          else ds_tx_complete i DS_TX_RESULT_OUTCOME_UNKNOWN 0 (count_outcome_unknown s))"

text \<open>Whether the device is known, whether it has a transaction, its state, and the last result.\<close>

definition device_settings_tx_get_status :: "string \<Rightarrow> ds_state \<Rightarrow> bool \<times> bool \<times> ds_tx_state \<times> ds_tx_result" where
  "device_settings_tx_get_status device_id s =
     (if device_id = [] then (False, False, DS_TX_IDLE, DS_TX_RESULT_OK)
      else case ds_tx_find device_id s of
             Some i \<Rightarrow> (True, True, tx_state (s_txns s ! i), DS_TX_RESULT_OK)
           | None \<Rightarrow>
               (case find_index (\<lambda>r. rr_used r \<and> rr_device_id r = device_id) (s_tx_results s) of
                  Some k \<Rightarrow> (True, False, DS_TX_IDLE, rr_result (s_tx_results s ! k))
                | None \<Rightarrow> (False, False, DS_TX_IDLE, DS_TX_RESULT_OK)))"

section \<open>Reconciliation\<close>

definition publish_transaction_reconnecting :: "string \<Rightarrow> ds_state \<Rightarrow> ds_state" where
  "publish_transaction_reconnecting device_id s =
     (case ds_tx_find device_id s of
        None \<Rightarrow> s
      | Some i \<Rightarrow>
          if tx_state (s_txns s ! i) \<noteq> DS_TX_WAITING_REBOOT then s
          else emit (OUT_PUBLISH ((tx_event (s_txns s ! i) GW_SETTINGS_TX_RECONNECTING)
                 \<lparr>ev_device_id := strlcpy GW_MSG_DEVICE_ID_LEN device_id\<rparr>)) s)"

definition value_matches :: "ds_values \<Rightarrow> ds_change_request \<Rightarrow> bool" where
  "value_matches vals change =
     (case List.find (\<lambda>e. ds_string_pool_get (vs_string_pool vals) (ve_id_off e) = ch_setting_id change) (vs_values vals) of
        None \<Rightarrow> False
      | Some e \<Rightarrow>
          if \<not> ve_has_value e \<or> ve_type e \<noteq> ch_type change then False
          else if ch_type change = DS_TYPE_BOOL then get_bool_val e = ch_bool_val change
          else if ch_type change = DS_TYPE_INT then get_int_val e = ch_int_val change
          else if ch_type change = DS_TYPE_ENUM then get_int_val e = ch_enum_val change
          else if ch_type change = DS_TYPE_STRING
          then ds_string_pool_get (vs_string_pool vals) (get_string_off e) = cstr (ch_str change)
          else False)"

definition reconciliation_values_match :: "ds_state \<Rightarrow> ds_device_record \<Rightarrow> ds_transaction \<Rightarrow> bool" where
  "reconciliation_values_match s rec tx =
     (case (Option.bind (dr_schema rec) (object_at (s_schemas s)), Option.bind (dr_values rec) (object_at (s_values s))) of
        (Some _, Some vals) \<Rightarrow> list_all (value_matches vals) (tx_changes tx)
      | _ \<Rightarrow> False)"

definition reconcile_outcome :: "ds_state \<Rightarrow> ds_device_record \<Rightarrow> ds_transaction \<Rightarrow> ds_tx_result" where
  "reconcile_outcome s rec tx =
     (if dr_config_rev rec = dr_reconciliation_expected_rev rec
      then (if reconciliation_values_match s rec tx then DS_TX_RESULT_OK else DS_TX_RESULT_FAILED)
      else if dr_config_rev rec = dr_reconciliation_old_rev rec then DS_TX_RESULT_FAILED
      else DS_TX_RESULT_DEVICE_CONFLICT)"

definition count_reconcile :: "ds_tx_result \<Rightarrow> ds_state \<Rightarrow> ds_state" where
  "count_reconcile outcome =
     count_diag (\<lambda>d. if outcome = DS_TX_RESULT_OK then d\<lparr>dg_reconcile_success := dg_reconcile_success d + 1\<rparr>
                     else if outcome = DS_TX_RESULT_FAILED then d\<lparr>dg_reconcile_fail := dg_reconcile_fail d + 1\<rparr>
                     else d\<lparr>dg_reconcile_conflict := dg_reconcile_conflict d + 1\<rparr>)"

definition reconcile_event_state :: "ds_tx_result \<Rightarrow> u8" where
  "reconcile_event_state outcome =
     (if outcome = DS_TX_RESULT_OK then GW_SETTINGS_TX_SUCCEEDED
      else if outcome = DS_TX_RESULT_DEVICE_CONFLICT then GW_SETTINGS_TX_CONFLICT else GW_SETTINGS_TX_FAILED)"

definition reconcile_resolve :: "string \<Rightarrow> nat \<Rightarrow> nat \<Rightarrow> ds_state \<Rightarrow> ds_state" where
  "reconcile_resolve device_id k i s =
     (let rec = s_records s ! k;
          verifying = (dr_config_rev rec = dr_reconciliation_expected_rev rec);
          outcome = reconcile_outcome s rec (s_txns s ! i);
          s1 = (if verifying then upd_tx i (\<lambda>tx. tx\<lparr>tx_state := DS_TX_VERIFYING\<rparr>) s else s);
          s2 = upd_rec k (\<lambda>r. r\<lparr>dr_pending_reconciliation := False\<rparr>) (count_reconcile outcome s1);
          tx = s_txns s2 ! i;
          s3 = (if verifying then emit (OUT_PUBLISH (tx_event tx GW_SETTINGS_TX_VERIFYING)) s2 else s2);
          s4 = emit (OUT_PUBLISH (tx_event tx (reconcile_event_state outcome))) s3;
          s5 = device_settings_tx_store_result (tx_device_id tx) outcome (dr_config_rev rec) s4
      in publish_settings_changed device_id (dr_config_rev rec)
           (call_tx_completion (tx_completion tx) (tx_context tx) outcome (ds_tx_free i s5)))"

definition device_settings_reconcile :: "bool \<Rightarrow> string \<Rightarrow> ds_state \<Rightarrow> ds_state" where
  "device_settings_reconcile lock device_id s =
     (if device_id = [] \<or> \<not> lock then s
      else case device_settings_find_record device_id s of
             None \<Rightarrow> s
           | Some k \<Rightarrow>
               if \<not> dr_pending_reconciliation (s_records s ! k) then s
               else (case ds_tx_find device_id s of
                       Some i \<Rightarrow>
                         if tx_state (s_txns s ! i) \<noteq> DS_TX_WAITING_REBOOT
                         then upd_rec k (\<lambda>r. r\<lparr>dr_pending_reconciliation := False\<rparr>) s
                         else reconcile_resolve device_id k i s
                     | None \<Rightarrow> upd_rec k (\<lambda>r. r\<lparr>dr_pending_reconciliation := False\<rparr>) s))"

end
