(* ===== verification/Settings_Actor.thy ===== *)
theory Settings_Actor
  imports Settings_Transaction
begin

text \<open>
  Operations (\<open>device_settings_operation.c\<close>: describing and reading the settings of a device) and the
  actor that runs them and the transactions (\<open>device_settings_worker.c\<close>), one event of its queue at a
  time; and the entry points of \<open>device_settings.c\<close> that other tasks call on a capability report, a
  disconnect, a deletion and the end of the component.

  The arrays \<open>s_ops_active\<close> and \<open>s_ops_generation\<close> shadow the table of operations. Every callback context
  is the address of a static variable, so a callback reads the cookie as it is when it runs.
\<close>

section \<open>Operations\<close>

definition find_op :: "string \<Rightarrow> ds_state \<Rightarrow> nat option" where
  "find_op device_id s =
     find_index (\<lambda>p. op_active p \<and> take GW_MSG_DEVICE_ID_LEN (op_device_id p) = take GW_MSG_DEVICE_ID_LEN device_id) (s_ops s)"

definition alloc_op :: "ds_state \<Rightarrow> ds_state \<times> nat option" where
  "alloc_op s =
     (case find_index (\<lambda>p. \<not> op_active p) (s_ops s) of
        None \<Rightarrow> (s, None)
      | Some i \<Rightarrow>
          (s\<lparr>s_ops := (s_ops s)[i := zero_op\<lparr>op_active := True, op_op_id := s_next_op_id s, op_generation := 1\<rparr>],
             s_next_op_id := s_next_op_id s + 1, s_ops_active := (s_ops_active s)[i := True],
             s_ops_generation := (s_ops_generation s)[i := 1]\<rparr>, Some i))"

definition upd_op :: "nat \<Rightarrow> (ds_op_record \<Rightarrow> ds_op_record) \<Rightarrow> ds_state \<Rightarrow> ds_state" where
  "upd_op i f s = s\<lparr>s_ops := (s_ops s)[i := f (s_ops s ! i)]\<rparr>"

definition s_ops_invoke_completion :: "nat \<Rightarrow> ds_op_result \<Rightarrow> ds_state \<Rightarrow> ds_state" where
  "s_ops_invoke_completion slot result s =
     (if slot \<ge> DEVICE_SETTINGS_MAX_DEVICES \<or> \<not> op_active (s_ops s ! slot) then s
      else let p = s_ops s ! slot;
               s1 = (upd_op slot (\<lambda>p. p\<lparr>op_active := False, op_state := DS_OP_IDLE\<rparr>) s)
                      \<lparr>s_ops_active := (s_ops_active s)[slot := False]\<rparr>
           in case op_completion p of None \<Rightarrow> s1 | Some f \<Rightarrow> emit (OUT_OP_DONE f (op_context p) result) s1)"

definition s_ops_get_device_id :: "nat \<Rightarrow> ds_state \<Rightarrow> string" where
  "s_ops_get_device_id slot s = (if slot \<ge> DEVICE_SETTINGS_MAX_DEVICES then [] else op_device_id (s_ops s ! slot))"

definition s_ops_get_kind :: "nat \<Rightarrow> ds_state \<Rightarrow> ds_op_kind" where
  "s_ops_get_kind slot s = (if slot \<ge> DEVICE_SETTINGS_MAX_DEVICES then DS_OP_NONE else op_kind (s_ops s ! slot))"

definition s_ops_get_state :: "nat \<Rightarrow> ds_state \<Rightarrow> ds_op_state" where
  "s_ops_get_state slot s = (if slot \<ge> DEVICE_SETTINGS_MAX_DEVICES then DS_OP_IDLE else op_state (s_ops s ! slot))"

definition s_ops_set_state :: "nat \<Rightarrow> ds_op_state \<Rightarrow> ds_state \<Rightarrow> ds_state" where
  "s_ops_set_state slot st s = (if slot \<ge> DEVICE_SETTINGS_MAX_DEVICES then s else upd_op slot (\<lambda>p. p\<lparr>op_state := st\<rparr>) s)"

definition s_ops_set_kind :: "nat \<Rightarrow> ds_op_kind \<Rightarrow> ds_state \<Rightarrow> ds_state" where
  "s_ops_set_kind slot k s = (if slot \<ge> DEVICE_SETTINGS_MAX_DEVICES then s else upd_op slot (\<lambda>p. p\<lparr>op_kind := k\<rparr>) s)"

definition device_settings_worker_submit :: "ds_state \<Rightarrow> ds_state" where
  "device_settings_worker_submit s = fst (ds_events_post (event_of_type DS_EVENT_START_OPERATION) s)"

definition queue_op :: "string \<Rightarrow> ds_op_kind \<Rightarrow> nat option \<Rightarrow> nat \<Rightarrow> ds_state \<Rightarrow> ds_state \<times> esp_err" where
  "queue_op device_id k completion context s =
     (case alloc_op s of
        (s1, None) \<Rightarrow> (s1, ESP_ERR_NO_MEM)
      | (s1, Some i) \<Rightarrow>
          (device_settings_worker_submit (upd_op i (\<lambda>p. p\<lparr>op_device_id := strlcpy GW_MSG_DEVICE_ID_LEN device_id, op_kind := k,
             op_state := DS_OP_QUEUED, op_completion := completion, op_context := context\<rparr>) s1), ESP_OK))"

definition device_settings_describe :: "bool \<Rightarrow> string \<Rightarrow> nat option \<Rightarrow> nat \<Rightarrow> ds_state \<Rightarrow> ds_state \<times> esp_err" where
  "device_settings_describe lock device_id completion context s =
     (if device_id = [] then (s, ESP_ERR_INVALID_ARG)
      else if find_op device_id s \<noteq> None then (s, ESP_ERR_INVALID_STATE)
      else if snd (device_settings_get_state lock (Some device_id) s) = Some DS_SCHEMA_UNSUPPORTED then (s, ESP_ERR_NOT_SUPPORTED)
      else queue_op device_id DS_OP_DESCRIBE completion context s)"

definition device_settings_get :: "bool \<Rightarrow> string \<Rightarrow> nat option \<Rightarrow> nat \<Rightarrow> ds_state \<Rightarrow> ds_state \<times> esp_err" where
  "device_settings_get lock device_id completion context s =
     (if device_id = [] then (s, ESP_ERR_INVALID_ARG)
      else if find_op device_id s \<noteq> None then (s, ESP_ERR_INVALID_STATE)
      else if snd (device_settings_get_state lock (Some device_id) s) \<noteq> Some DS_SCHEMA_READY then (s, ESP_ERR_INVALID_STATE)
      else queue_op device_id DS_OP_GET completion context s)"

definition device_settings_cancel :: "string \<Rightarrow> ds_state \<Rightarrow> ds_state \<times> esp_err" where
  "device_settings_cancel device_id s =
     (if device_id = [] then (s, ESP_ERR_INVALID_ARG)
      else case find_op device_id s of
             None \<Rightarrow> (s, ESP_ERR_NOT_FOUND)
           | Some slot \<Rightarrow>
               if \<not> s_running s then (s_ops_invoke_completion slot DS_OP_RESULT_INTERNAL s, ESP_OK)
               else (case ds_events_post (device_event DS_EVENT_CANCEL_DEVICE device_id) s of
                       (s1, ok) \<Rightarrow> (s1, if ok then ESP_OK else ESP_ERR_NO_MEM)))"

section \<open>The actor\<close>

definition upd_ao :: "(ds_active_op \<Rightarrow> ds_active_op) \<Rightarrow> ds_state \<Rightarrow> ds_state" where
  "upd_ao f s = s\<lparr>s_active_op := f (s_active_op s)\<rparr>"

definition release_lease :: "ds_state \<Rightarrow> ds_state" where
  "release_lease s =
     (let lease = ao_lease (s_active_op s)
      in if lease = 0 then s else upd_ao (\<lambda>a. a\<lparr>ao_lease := 0\<rparr>) (emit (OUT_RELEASE lease) s))"

definition finish_active :: "ds_op_result \<Rightarrow> ds_state \<Rightarrow> ds_state" where
  "finish_active result s =
     (let a = s_active_op s
      in if \<not> ao_active a then s
         else let s1 = emit (OUT_CANCEL_SOURCE (s_ops_get_device_id (ao_slot a) s) (ao_owner a)) s;
                  s2 = upd_ao (\<lambda>_. zero_active_op) (release_lease s1)
              in s_ops_invoke_completion (ao_slot a) result s2)"

definition matching :: "ds_event \<Rightarrow> ds_state \<Rightarrow> bool" where
  "matching ev s \<longleftrightarrow>
     ao_active (s_active_op s) \<and> dv_slot ev = int (ao_slot (s_active_op s)) \<and>
     dv_generation ev = ao_generation (s_active_op s) \<and> dv_owner_token ev = ao_owner (s_active_op s)"

text \<open>The callbacks of the scheduler and of the retry timer copy an event into the queue.\<close>

definition cookie_event :: "ds_event_type \<Rightarrow> ds_cookie \<Rightarrow> ds_event" where
  "cookie_event t ck = (event_of_type t)\<lparr>dv_slot := ck_slot ck, dv_generation := ck_generation ck, dv_owner_token := ck_owner ck\<rparr>"

definition post_command_done :: "device_control_result option \<Rightarrow> ds_state \<Rightarrow> ds_state" where
  "post_command_done result s =
     (let command = (case result of
                       None \<Rightarrow> zero_result\<lparr>rs_status := DEVICE_CMD_STATUS_INTERNAL\<rparr>
                     | Some r \<Rightarrow> if cr_terminal r = DEVICE_CTRL_TERMINAL_COMMAND then cr_command_result r
                                 else zero_result\<lparr>rs_status := DEVICE_CMD_STATUS_CANCELLED\<rparr>)
      in fst (ds_events_post ((cookie_event DS_EVENT_COMMAND_COMPLETE (ao_cookie (s_active_op s)))\<lparr>dv_command := command\<rparr>) s))"

definition post_lease_done :: "esp_err \<Rightarrow> u32 \<Rightarrow> ds_state \<Rightarrow> ds_state" where
  "post_lease_done status lease s =
     fst (ds_events_post ((cookie_event DS_EVENT_LEASE_RESULT (ao_cookie (s_active_op s)))
       \<lparr>dv_lease_status := status, dv_lease_id := lease\<rparr>) s)"

definition post_tx_lease_done :: "esp_err \<Rightarrow> u32 \<Rightarrow> ds_state \<Rightarrow> ds_state" where
  "post_tx_lease_done status lease s =
     fst (ds_events_post ((cookie_event DS_EVENT_LEASE_RESULT (s_tx_cookie s))
       \<lparr>dv_slot := -1, dv_lease_status := status, dv_lease_id := lease\<rparr>) s)"

definition retry_timer_cb :: "ds_state \<Rightarrow> ds_state" where
  "retry_timer_cb s = fst (ds_events_post (cookie_event DS_EVENT_RETRY_TIMER (ao_cookie (s_active_op s))) s)"

definition submit_command :: "ds_env \<Rightarrow> ds_state \<Rightarrow> ds_state \<times> esp_err" where
  "submit_command env s =
     (let a = s_active_op s; k = s_ops_get_kind (ao_slot a) s
      in if k \<noteq> DS_OP_DESCRIBE \<and> k \<noteq> DS_OP_GET then (s, ESP_ERR_INVALID_ARG)
         else let command = (if k = DS_OP_DESCRIBE then GW_SETTINGS_CMD_DESCRIBE_SETTINGS else GW_SETTINGS_CMD_READ_SETTINGS);
                  req = zero_request\<lparr>rq_origin := DEVICE_CMD_ORIGIN_SETTINGS,
                          rq_device_id := strlcpy GW_MSG_DEVICE_ID_LEN (s_ops_get_device_id (ao_slot a) s),
                          rq_command := strlcpy GW_MSG_COMMAND_LEN command\<rparr>;
                  job = zero_job\<lparr>j_request := req, j_priority := DEVICE_CTRL_PRIORITY_NORMAL, j_source := DEVICE_CTRL_SOURCE_SETTINGS,
                          j_owner_token := ao_owner a, j_lease_id := ao_lease a, j_max_queue_wait_ms := 10000\<rparr>
              in (emit (OUT_SUBMIT job CB_OPERATION (en_submit env)) s, en_submit env))"

abbreviation DS_WORK_RETRY_MAX :: nat where "DS_WORK_RETRY_MAX \<equiv> 3"

definition schedule_retry :: "ds_state \<Rightarrow> ds_state" where
  "schedule_retry s =
     (if ao_retry_count (s_active_op s) \<ge> DS_WORK_RETRY_MAX \<or> \<not> s_retry_timer s then finish_active DS_OP_RESULT_FAILED s
      else upd_ao (\<lambda>a. a\<lparr>ao_retry_count := ao_retry_count a + 1, ao_phase := DS_ACTOR_WAIT_RETRY\<rparr>) s)"

definition handle_start :: "ds_env \<Rightarrow> ds_state \<Rightarrow> ds_state" where
  "handle_start env s =
     (if ao_active (s_active_op s) then s
      else case find_index (\<lambda>slot. s_ops_active s ! slot \<and> s_ops_get_state slot s = DS_OP_QUEUED) [0..<DEVICE_SETTINGS_MAX_DEVICES] of
             None \<Rightarrow> s
           | Some slot \<Rightarrow>
               (let gen = s_ops_generation s ! slot;
                    owner = (if gen \<noteq> 0 then gen else 1);
                    s1 = upd_ao (\<lambda>_. zero_active_op\<lparr>ao_active := True, ao_slot := slot, ao_generation := gen, ao_owner := owner,
                           ao_cookie := \<lparr>ck_slot = int slot, ck_generation = gen, ck_owner = owner\<rparr>,
                           ao_phase := DS_ACTOR_WAIT_LEASE\<rparr>) s;
                    request = \<lparr>lr_device_id = Some (s_ops_get_device_id slot s), lr_priority = DEVICE_CTRL_PRIORITY_NORMAL,
                               lr_source = DEVICE_CTRL_SOURCE_SETTINGS, lr_owner_token = owner\<rparr>;
                    s2 = emit (OUT_ACQUIRE request CB_OPERATION (en_acquire env)) s1
                in if en_acquire env \<noteq> ESP_OK then finish_active DS_OP_RESULT_INTERNAL s2 else s2))"

definition submit_or_retry :: "ds_env \<Rightarrow> (ds_state \<Rightarrow> ds_state) \<Rightarrow> ds_state \<Rightarrow> ds_state" where
  "submit_or_retry env ok s =
     (case submit_command env s of
        (s1, err) \<Rightarrow> if err \<noteq> ESP_OK then schedule_retry s1
                     else ok (upd_ao (\<lambda>a. a\<lparr>ao_phase := DS_ACTOR_WAIT_COMMAND\<rparr>) s1))"

definition handle_lease :: "ds_env \<Rightarrow> ds_event \<Rightarrow> ds_state \<Rightarrow> ds_state" where
  "handle_lease env ev s =
     (if dv_slot ev = -1 \<and> dv_generation ev = ck_generation (s_tx_cookie s) \<and> dv_owner_token ev = ck_owner (s_tx_cookie s)
      then (if dv_lease_status ev = ESP_OK \<and> dv_lease_id ev \<noteq> 0
            then device_settings_tx_actor_begin env (s_tx_device s) (ck_owner (s_tx_cookie s)) (dv_lease_id ev) s
            else device_settings_tx_actor_abort (s_tx_device s) s)
      else if \<not> matching ev s then (if dv_lease_id ev \<noteq> 0 then emit (OUT_RELEASE (dv_lease_id ev)) s else s)
      else if dv_lease_status ev \<noteq> ESP_OK \<or> dv_lease_id ev = 0 then finish_active DS_OP_RESULT_INTERNAL s
      else submit_or_retry env (s_ops_set_state (ao_slot (s_active_op s)) DS_OP_RUNNING)
             (upd_ao (\<lambda>a. a\<lparr>ao_lease := dv_lease_id ev\<rparr>) s))"

definition complete_read_if_ready :: "ds_state \<Rightarrow> ds_state" where
  "complete_read_if_ready s =
     (let a = s_active_op s
      in if ao_active a \<and> ao_read_ack a \<and> ao_values_end a
         then finish_active (if ao_values_ok a then DS_OP_RESULT_OK else DS_OP_RESULT_PROTOCOL_ERROR) s else s)"

definition handle_command :: "ds_env \<Rightarrow> ds_event \<Rightarrow> ds_state \<Rightarrow> ds_state" where
  "handle_command env ev s =
     (if \<not> matching ev s then s
      else case rs_status (dv_command ev) of
             DEVICE_CMD_STATUS_OK \<Rightarrow>
               if s_ops_get_kind (ao_slot (s_active_op s)) s = DS_OP_DESCRIBE
               then submit_or_retry env (\<lambda>s. s) (s_ops_set_kind (ao_slot (s_active_op s)) DS_OP_GET s)
               else complete_read_if_ready (upd_ao (\<lambda>a. a\<lparr>ao_read_ack := True, ao_phase := DS_ACTOR_WAIT_READ_STREAM\<rparr>) s)
           | DEVICE_CMD_STATUS_BUSY \<Rightarrow> schedule_retry s
           | DEVICE_CMD_STATUS_TIMEOUT \<Rightarrow> finish_active DS_OP_RESULT_TIMEOUT s
           | DEVICE_CMD_STATUS_REJECTED \<Rightarrow> finish_active DS_OP_RESULT_REJECTED s
           | _ \<Rightarrow> finish_active DS_OP_RESULT_INTERNAL s)"

definition handle_values :: "ds_event \<Rightarrow> ds_state \<Rightarrow> ds_state" where
  "handle_values ev s =
     (let a = s_active_op s
      in if \<not> ao_active a \<or> s_ops_get_kind (ao_slot a) s \<noteq> DS_OP_GET \<or>
            take GW_MSG_DEVICE_ID_LEN (s_ops_get_device_id (ao_slot a) s) \<noteq> take GW_MSG_DEVICE_ID_LEN (dv_device_id ev) then s
         else complete_read_if_ready (upd_ao (\<lambda>a. a\<lparr>ao_values_end := True, ao_values_ok := dv_values_success ev\<rparr>) s))"

definition cancel_device :: "ds_env \<Rightarrow> string \<Rightarrow> ds_state \<Rightarrow> ds_state" where
  "cancel_device env dev s =
     (let a = s_active_op s;
          s1 = (if ao_active a \<and>
                   take GW_MSG_DEVICE_ID_LEN (s_ops_get_device_id (ao_slot a) s) = take GW_MSG_DEVICE_ID_LEN dev
                then finish_active DS_OP_RESULT_INTERNAL
                       (s\<lparr>s_ops_generation := (s_ops_generation s)[ao_slot a := s_ops_generation s ! ao_slot a + 1]\<rparr>)
                else s)
      in handle_start env s1)"

definition handle_retry :: "ds_env \<Rightarrow> ds_event \<Rightarrow> ds_state \<Rightarrow> ds_state" where
  "handle_retry env ev s = (if matching ev s then submit_or_retry env (\<lambda>s. s) s else s)"

definition start_transaction :: "ds_env \<Rightarrow> ds_event \<Rightarrow> ds_state \<Rightarrow> ds_state" where
  "start_transaction env ev s =
     (let s1 = s\<lparr>s_tx_cookie := \<lparr>ck_slot = -1, ck_generation = dv_generation ev, ck_owner = dv_owner_token ev\<rparr>,
                 s_tx_device := strlcpy GW_MSG_DEVICE_ID_LEN (dv_device_id ev)\<rparr>;
          request = \<lparr>lr_device_id = Some (s_tx_device s1), lr_priority = DEVICE_CTRL_PRIORITY_HIGH,
                     lr_source = DEVICE_CTRL_SOURCE_SETTINGS, lr_owner_token = ck_owner (s_tx_cookie s1)\<rparr>;
          s2 = emit (OUT_ACQUIRE request CB_TX_LEASE (en_acquire env)) s1
      in if en_acquire env \<noteq> ESP_OK then device_settings_tx_actor_abort (s_tx_device s2) s2 else s2)"

definition actor_handle :: "ds_env \<Rightarrow> ds_event \<Rightarrow> ds_state \<Rightarrow> ds_state" where
  "actor_handle env ev s =
     (case dv_type ev of
        DS_EVENT_START_OPERATION \<Rightarrow> handle_start env s
      | DS_EVENT_LEASE_RESULT \<Rightarrow> handle_lease env ev s
      | DS_EVENT_COMMAND_COMPLETE \<Rightarrow>
          if dv_slot ev = -1
          then device_settings_tx_actor_command_complete env (dv_device_id ev) (Some (dv_command ev)) s
          else handle_command env ev s
      | DS_EVENT_VALUES_STREAM_COMPLETE \<Rightarrow> handle_values ev s
      | DS_EVENT_RETRY_TIMER \<Rightarrow> handle_retry env ev s
      | DS_EVENT_TRANSACTION_START \<Rightarrow> start_transaction env ev s
      | DS_EVENT_TRANSACTION_ABORT \<Rightarrow> device_settings_tx_actor_abort (dv_device_id ev) s
      | DS_EVENT_TRANSACTION_TIMEOUT \<Rightarrow> device_settings_tx_actor_timeout (dv_device_id ev) s
      | DS_EVENT_DISCONNECTED \<Rightarrow>
          (let (s1, kept) = device_settings_tx_actor_on_disconnect env (dv_device_id ev) (cancel_device env (dv_device_id ev) s)
           in if kept then s1 else device_settings_tx_actor_abort (dv_device_id ev) s1)
      | DS_EVENT_CANCEL_DEVICE \<Rightarrow> device_settings_tx_actor_abort (dv_device_id ev) (cancel_device env (dv_device_id ev) s)
      | DS_EVENT_FORGET_DEVICE \<Rightarrow> device_settings_tx_actor_abort (dv_device_id ev) (cancel_device env (dv_device_id ev) s)
      | DS_EVENT_SHUTDOWN \<Rightarrow> s\<lparr>s_running := False\<rparr>)"

text \<open>
  One turn of the loop of the actor task. \<open>s_running\<close> also says that the task exists; that the component
  started the scheduler, and stops it, is not part of the state.
\<close>

definition actor_turn :: "ds_env \<Rightarrow> ds_state \<Rightarrow> ds_state" where
  "actor_turn env s =
     (if \<not> s_running s then s
      else case s_queue s of
             Some (ev # q) \<Rightarrow> actor_handle env ev (s\<lparr>s_queue := Some q\<rparr>)
           | _ \<Rightarrow> s)"

definition device_settings_worker_init :: "esp_err \<Rightarrow> bool \<Rightarrow> bool \<Rightarrow> bool \<Rightarrow> ds_state \<Rightarrow> ds_state \<times> esp_err" where
  "device_settings_worker_init scheduler_err queue timer task s =
     (if s_running s then (s, ESP_ERR_INVALID_STATE)
      else let s1 = upd_ao (\<lambda>_. zero_active_op) s
           in if scheduler_err \<noteq> ESP_OK \<and> scheduler_err \<noteq> ESP_ERR_INVALID_STATE then (s1, scheduler_err)
              else case ds_events_init queue s1 of
                     (s2, err) \<Rightarrow>
                       if err \<noteq> ESP_OK then (s2, ESP_ERR_NO_MEM)
                       else if \<not> timer then (ds_events_deinit (s2\<lparr>s_retry_timer := False\<rparr>), ESP_ERR_NO_MEM)
                       else if \<not> task then (ds_events_deinit (s2\<lparr>s_retry_timer := False, s_running := False\<rparr>), ESP_ERR_NO_MEM)
                       else (s2\<lparr>s_retry_timer := True, s_running := True\<rparr>, ESP_OK))"

text \<open>The end of the actor: the request to stop, and what is left to do once the task has gone.\<close>

definition worker_stop_request :: "ds_state \<Rightarrow> ds_state" where
  "worker_stop_request s = (if \<not> s_running s then s else fst (ds_events_post (event_of_type DS_EVENT_SHUTDOWN) s))"

definition worker_stop_finish :: "ds_state \<Rightarrow> ds_state" where
  "worker_stop_finish s = upd_ao (\<lambda>_. zero_active_op) (ds_events_deinit (s\<lparr>s_retry_timer := False\<rparr>))"

section \<open>Entry points of other tasks\<close>

definition device_settings_worker_on_disconnect :: "string option \<Rightarrow> ds_state \<Rightarrow> ds_state" where
  "device_settings_worker_on_disconnect dev s =
     (case dev of None \<Rightarrow> s | Some d \<Rightarrow> fst (ds_events_post (device_event DS_EVENT_DISCONNECTED d) s))"

definition device_settings_worker_on_values_complete :: "string option \<Rightarrow> bool \<Rightarrow> ds_state \<Rightarrow> ds_state" where
  "device_settings_worker_on_values_complete dev success s =
     (case dev of
        None \<Rightarrow> s
      | Some d \<Rightarrow> fst (ds_events_post ((device_event DS_EVENT_VALUES_STREAM_COMPLETE d)\<lparr>dv_values_success := success\<rparr>) s))"

definition device_settings_on_capability :: "ds_env \<Rightarrow> string \<Rightarrow> bool \<Rightarrow> u16 \<Rightarrow> ds_state \<Rightarrow> ds_state" where
  "device_settings_on_capability env device_id supported schema_revision s =
     (if device_id = [] \<or> \<not> s_initialized s \<or> \<not> en_lock env then s
      else case device_settings_find_or_create_record device_id s of
             (s1, None) \<Rightarrow> s1
           | (s1, Some k) \<Rightarrow>
               if \<not> supported
               then (let s2 = upd_rec k (\<lambda>r. r\<lparr>dr_schema_state := DS_SCHEMA_UNSUPPORTED\<rparr>) s1; r = s_records s2 ! k
                     in publish_settings_state device_id GW_SETTINGS_EVENT_STATE_UNSUPPORTED (dr_schema_rev r) (dr_config_rev r) s2)
               else let r = s_records s1 ! k;
                        describe = (dr_schema r = None \<or> dr_schema_rev r \<noteq> ucast schema_revision);
                        s2 = upd_rec k (\<lambda>r. r\<lparr>dr_advertised_schema_rev := schema_revision,
                               dr_schema_state := (if describe then DS_SCHEMA_DISCOVERING else DS_SCHEMA_READY)\<rparr>) s1;
                        s3 = publish_settings_state device_id
                               (if describe then GW_SETTINGS_EVENT_STATE_DISCOVERING else GW_SETTINGS_EVENT_STATE_READING)
                               (ucast schema_revision) (dr_config_rev r) s2;
                        s4 = publish_transaction_reconnecting device_id s3;
                        (s5, err) = (if describe then device_settings_describe (en_relock env) device_id None 0 s4
                                     else device_settings_get (en_relock env) device_id None 0 s4)
                    in if err \<noteq> ESP_OK
                       then publish_settings_state device_id GW_SETTINGS_EVENT_STATE_ERROR (ucast schema_revision) (dr_config_rev r) s5
                       else s5)"

end
