(* ===== verification/Settings_Protocol.thy ===== *)
theory Settings_Protocol
  imports Settings_Actor
begin

text \<open>
  The frames a device sends about its settings (\<open>device_settings_protocol.c\<close>): a stream of descriptors
  and enum options that becomes a schema, and a stream of values that becomes a snapshot of them. There
  is one builder of each kind, owned by the device whose stream is open. The entry points of
  \<open>device_settings.c\<close> that close streams are at the end.

  Where a string array is read as a C string it ends at its first NUL (\<^const>\<open>cstr\<close>). The builder
  pointer of an open stream is not NULL; a model function leaves the state alone where it is.
\<close>

section \<open>The schema stream\<close>

definition schema_builder_discard :: "ds_state \<Rightarrow> ds_state" where
  "schema_builder_discard s =
     s\<lparr>s_schema_builder := None, s_schema_owner := [], s_schema_request_id := 0,
       s_declared_option_count := replicate DEVICE_SETTINGS_MAX_SETTINGS 255\<rparr>"

definition stale_state :: "ds_device_record \<Rightarrow> ds_schema_state" where
  "stale_state rec = (if dr_schema rec \<noteq> None then DS_SCHEMA_READY else DS_SCHEMA_ERROR)"

definition publish_error :: "string \<Rightarrow> nat \<Rightarrow> ds_state \<Rightarrow> ds_state" where
  "publish_error device_id k s =
     publish_settings_state device_id GW_SETTINGS_EVENT_STATE_ERROR (dr_schema_rev (s_records s ! k)) (dr_config_rev (s_records s ! k)) s"

definition schema_reject :: "string \<Rightarrow> nat \<Rightarrow> ds_state \<Rightarrow> ds_state" where
  "schema_reject device_id k s =
     (if dr_schema_stream_active (s_records s ! k) \<and> s_schema_owner s = device_id
      then publish_error device_id k
             (count_diag (\<lambda>d. d\<lparr>dg_discovery_schema_fail := dg_discovery_schema_fail d + 1\<rparr>)
               (schema_builder_discard
                 (upd_rec k (\<lambda>r. r\<lparr>dr_schema_stream_active := False, dr_schema_state := stale_state r,
                    dr_staging_expected_count := 0, dr_staging_received_count := 0\<rparr>) s)))
      else s)"

text \<open>The record of the stream a frame belongs to, and the state after a refused frame.\<close>

definition schema_frame_matches :: "string \<Rightarrow> gw_message \<Rightarrow> ds_state \<Rightarrow> ds_state \<times> nat option" where
  "schema_frame_matches device_id msg s =
     (case device_settings_find_record device_id s of
        None \<Rightarrow> (s, None)
      | Some k \<Rightarrow>
          if \<not> dr_schema_stream_active (s_records s ! k) \<or> s_schema_owner s = [] then (s, None)
          else if s_schema_owner s \<noteq> device_id then (s, None)
          else if \<not> m_has_request_id msg \<or> m_request_id msg \<noteq> s_schema_request_id s then (schema_reject device_id k s, None)
          else (s, Some k))"

definition translate_wire_flags :: "u16 \<Rightarrow> u16" where
  "translate_wire_flags wire_flags =
     (if wire_flags AND GW_SETTING_FLAG_READONLY = 0 then DS_FLAG_WRITABLE else 0) OR
     (if wire_flags AND GW_SETTING_FLAG_SECRET \<noteq> 0 then DS_FLAG_SECRET else 0) OR
     (if wire_flags AND GW_SETTING_FLAG_ADVANCED \<noteq> 0 then DS_FLAG_ADVANCED else 0)"

definition new_builder :: "ds_env \<Rightarrow> ds_diag \<Rightarrow> ds_diag \<times> ds_schema_builder option" where
  "new_builder env d =
     (case ds_settings_alloc 1 (if en_builder_mem env then Some () else None) d of
        (d1, None) \<Rightarrow> (d1, None)
      | (d1, Some _) \<Rightarrow>
          (case ds_schema_builder_init (en_pool_mem env) d1 of
             (b, d2, err) \<Rightarrow> (d2, if err \<noteq> ESP_OK then None else Some b)))"

definition handle_settings_begin :: "ds_env \<Rightarrow> string \<Rightarrow> gw_message \<Rightarrow> ds_state \<Rightarrow> ds_state" where
  "handle_settings_begin env device_id msg s =
     (if m_protocol_version msg \<noteq> GW_PROTOCOL_VERSION \<or> m_command msg \<noteq> GW_SETTINGS_CMD_DESCRIBE_SETTINGS \<or>
         \<not> m_has_request_id msg \<or> \<not> m_has_total msg then s
      else if unat (m_total msg) > DEVICE_SETTINGS_MAX_SETTINGS then s
      else if s_schema_owner s \<noteq> [] then s
      else case device_settings_find_or_create_record device_id s of
             (s1, None) \<Rightarrow> s1
           | (s1, Some k) \<Rightarrow>
               (case new_builder env (s_diag s1) of
                  (d, None) \<Rightarrow>
                    publish_error device_id k
                      (count_diag (\<lambda>d. d\<lparr>dg_discovery_schema_fail := dg_discovery_schema_fail d + 1\<rparr>)
                        (upd_rec k (\<lambda>r. r\<lparr>dr_schema_state := stale_state r\<rparr>) (schema_builder_discard (s1\<lparr>s_diag := d\<rparr>))))
                | (d, Some b) \<Rightarrow>
                    (let rev = (if m_has_settings_schema_revision msg then ucast (m_settings_schema_revision msg)
                                else ucast (dr_advertised_schema_rev (s_records s1 ! k)));
                         s2 = s1\<lparr>s_diag := d, s_schema_builder := Some (b\<lparr>sb_schema_revision := rev\<rparr>),
                                 s_schema_owner := strlcpy GW_MSG_DEVICE_ID_LEN device_id, s_schema_request_id := m_request_id msg,
                                 s_declared_option_count := replicate DEVICE_SETTINGS_MAX_SETTINGS 255\<rparr>;
                         s3 = upd_rec k (\<lambda>r. r\<lparr>dr_schema_state := DS_SCHEMA_DISCOVERING, dr_schema_stream_active := True,
                                dr_staging_expected_count := m_total msg, dr_staging_received_count := 0\<rparr>) s2
                     in publish_settings_state device_id GW_SETTINGS_EVENT_STATE_DISCOVERING rev
                          (dr_config_rev (s_records s3 ! k)) s3)))"

definition add_text :: "string \<Rightarrow> ds_schema_builder \<Rightarrow> (ds_schema_builder \<times> u16) option" where
  "add_text str b =
     (case ds_schema_builder_add_string str b of (b', Inr off) \<Rightarrow> Some (b', off) | (_, Inl _) \<Rightarrow> None)"

definition add_text_if :: "bool \<Rightarrow> string \<Rightarrow> u16 \<Rightarrow> ds_schema_builder \<Rightarrow> (ds_schema_builder \<times> u16) option" where
  "add_text_if present str off b = (if present then add_text str b else Some (b, off))"

text \<open>The texts of an item; \<^const>\<open>None\<close> when the pool is exhausted, and the stream is rejected.\<close>

definition item_texts :: "gw_message \<Rightarrow> ds_schema_builder \<Rightarrow> (ds_schema_builder \<times> u16 \<times> u16 \<times> u16 \<times> u16) option" where
  "item_texts msg b0 =
     (case add_text (cstr (m_setting_id msg)) b0 of
        None \<Rightarrow> None
      | Some (b1, id_off) \<Rightarrow>
          (case add_text_if (cstr (m_capability_label msg) \<noteq> []) (cstr (m_capability_label msg)) id_off b1 of
             None \<Rightarrow> None
           | Some (b2, title_off) \<Rightarrow>
               (case add_text_if (m_has_setting_group msg \<and> cstr (m_feature_id msg) \<noteq> []) (cstr (m_feature_id msg)) 0 b2 of
                  None \<Rightarrow> None
                | Some (b3, group_off) \<Rightarrow>
                    (case add_text_if (cstr (m_capability_unit msg) \<noteq> []) (cstr (m_capability_unit msg)) 0 b3 of
                       None \<Rightarrow> None
                     | Some (b4, unit_off) \<Rightarrow> Some (b4, id_off, title_off, group_off, unit_off)))))"

definition item_desc :: "gw_message \<Rightarrow> u16 \<Rightarrow> u16 \<Rightarrow> u16 \<Rightarrow> u16 \<Rightarrow> nat \<Rightarrow> ds_setting_desc" where
  "item_desc msg id_off title_off group_off unit_off option_index =
     \<lparr>sd_id_off = id_off, sd_title_off = title_off, sd_group_off = group_off, sd_unit_off = unit_off,
      sd_min_value = (if m_has_min_value msg then m_min_value msg else 0),
      sd_max_value = (if m_has_max_value msg then m_max_value msg else 0),
      sd_step = (if m_has_step msg then m_step msg else 0),
      sd_flags = translate_wire_flags (if m_has_setting_flags msg then m_setting_flags msg else 0),
      sd_max_length = (if m_has_settings_max_length msg then m_settings_max_length msg else 0),
      sd_option_index = option_index, sd_type = m_setting_type msg, sd_option_count = 0\<rparr>"

text \<open>What an item adds to the builder; \<^const>\<open>None\<close> is a rejection.\<close>

definition build_item :: "gw_message \<Rightarrow> ds_schema_builder \<Rightarrow> ds_schema_builder option" where
  "build_item msg b =
     (if list_ex (\<lambda>d. ds_string_pool_get (sb_strings b) (sd_id_off d) = cstr (m_setting_id msg)) (sb_descriptors b) then None
      else case item_texts msg b of
             None \<Rightarrow> None
           | Some (b1, id_off, title_off, group_off, unit_off) \<Rightarrow>
               if m_has_settings_option_count msg \<and>
                  (unat (m_settings_option_count msg) > DEVICE_SETTINGS_MAX_ENUM_OPTS \<or> m_setting_type msg \<noteq> DS_TYPE_ENUM) then None
               else (case ds_schema_builder_add_setting
                            (item_desc msg id_off title_off group_off unit_off (length (sb_enum_options b1))) b1 of
                       (b2, err) \<Rightarrow> if err \<noteq> ESP_OK then None else Some b2))"

definition handle_item :: "string \<Rightarrow> gw_message \<Rightarrow> ds_state \<Rightarrow> ds_state" where
  "handle_item device_id msg s =
     (case schema_frame_matches device_id msg s of
        (s1, None) \<Rightarrow> s1
      | (s1, Some k) \<Rightarrow>
          (let rec = s_records s1 ! k
           in if \<not> m_has_total msg \<or> \<not> m_has_settings_sequence msg \<or> \<not> m_has_setting_id msg \<or> cstr (m_setting_id msg) = [] \<or>
                 \<not> m_has_setting_type msg \<or> m_setting_type msg < DS_TYPE_BOOL \<or> m_setting_type msg > DS_TYPE_ENUM
              then schema_reject device_id k s1
              else if m_total msg \<noteq> dr_staging_expected_count rec then schema_reject device_id k s1
              else if dr_staging_received_count rec \<ge> dr_staging_expected_count rec then schema_reject device_id k s1
              else if m_settings_sequence msg \<noteq> dr_staging_received_count rec then schema_reject device_id k s1
              else case s_schema_builder s1 of
                     None \<Rightarrow> s1
                   | Some b \<Rightarrow>
                       (case build_item msg b of
                          None \<Rightarrow> schema_reject device_id k s1
                        | Some b' \<Rightarrow>
                            upd_rec k (\<lambda>r. r\<lparr>dr_staging_received_count := dr_staging_received_count r + 1\<rparr>)
                              (s1\<lparr>s_schema_builder := Some b',
                                  s_declared_option_count :=
                                    (if m_has_settings_option_count msg
                                     then (s_declared_option_count s1)[unat (m_settings_sequence msg) := ucast (m_settings_option_count msg)]
                                     else s_declared_option_count s1)\<rparr>))))"

text \<open>
  An option joins the options of its parent: the new entry, appended at \<open>option_slot\<close>, moves to the end of
  the parent's span, and the later spans move up by one.
\<close>

definition shift_option :: "nat \<Rightarrow> nat \<Rightarrow> ds_enum_option list \<Rightarrow> ds_enum_option list" where
  "shift_option insert_at option_slot opts =
     take insert_at opts @ [opts ! option_slot] @ take (option_slot - insert_at) (drop insert_at opts) @ drop (option_slot + 1) opts"

definition shift_spans :: "nat \<Rightarrow> nat \<Rightarrow> ds_setting_desc list \<Rightarrow> ds_setting_desc list" where
  "shift_spans parent insert_at ds =
     map (\<lambda>(i, d). if i \<noteq> parent \<and> sd_option_count d > 0 \<and> sd_option_index d \<ge> insert_at
                   then d\<lparr>sd_option_index := sd_option_index d + 1\<rparr> else d) (enumerate 0 ds)"

definition insert_option :: "nat \<Rightarrow> nat \<Rightarrow> ds_schema_builder \<Rightarrow> ds_schema_builder" where
  "insert_option parent option_slot b =
     (let p = sb_descriptors b ! parent;
          insert_at = (if sd_option_count p = 0 then option_slot else sd_option_index p + sd_option_count p);
          b1 = (if insert_at < option_slot
                then b\<lparr>sb_enum_options := shift_option insert_at option_slot (sb_enum_options b),
                       sb_descriptors := shift_spans parent insert_at (sb_descriptors b)\<rparr>
                else b)
      in b1\<lparr>sb_descriptors := (sb_descriptors b1)[parent := (sb_descriptors b1 ! parent)
              \<lparr>sd_option_index := (if sd_option_count p = 0 then insert_at else sd_option_index p),
               sd_option_count := sd_option_count p + 1\<rparr>]\<rparr>)"

definition build_option :: "nat \<Rightarrow> u8 \<Rightarrow> string \<Rightarrow> ds_schema_builder \<Rightarrow> ds_schema_builder option" where
  "build_option parent value label b =
     (let p = sb_descriptors b ! parent
      in if sd_type p \<noteq> DS_TYPE_ENUM then None
         else if sd_option_count p \<ge> DEVICE_SETTINGS_MAX_ENUM_OPTS then None
         else if list_ex (\<lambda>i. eo_value (sb_enum_options b ! (sd_option_index p + i)) = value) [0..<sd_option_count p] then None
         else case ds_schema_builder_add_enum_option value label b of
                (_, Inl _) \<Rightarrow> None
              | (b1, Inr option_slot) \<Rightarrow> Some (insert_option parent option_slot b1))"

definition handle_option_item :: "string \<Rightarrow> gw_message \<Rightarrow> ds_state \<Rightarrow> ds_state" where
  "handle_option_item device_id msg s =
     (case schema_frame_matches device_id msg s of
        (s1, None) \<Rightarrow> s1
      | (s1, Some k) \<Rightarrow>
          if \<not> m_has_settings_sequence msg \<or> \<not> m_has_settings_option_index msg \<or> cstr (m_capability_label msg) = []
          then schema_reject device_id k s1
          else if m_settings_sequence msg \<ge> dr_staging_received_count (s_records s1 ! k) then schema_reject device_id k s1
          else case s_schema_builder s1 of
                 None \<Rightarrow> s1
               | Some b \<Rightarrow>
                   (case build_option (unat (m_settings_sequence msg)) (m_settings_option_index msg) (cstr (m_capability_label msg)) b of
                      None \<Rightarrow> schema_reject device_id k s1
                    | Some b' \<Rightarrow> s1\<lparr>s_schema_builder := Some b'\<rparr>))"

text \<open>A declared option count, where there was one, is the number of options that came.\<close>

definition option_counts_ok :: "u8 list \<Rightarrow> ds_setting_desc list \<Rightarrow> bool" where
  "option_counts_ok declared ds =
     list_all (\<lambda>i. declared ! i = 255 \<or> unat (declared ! i) = sd_option_count (ds ! i)) [0..<length ds]"

definition handle_settings_end :: "ds_env \<Rightarrow> string \<Rightarrow> gw_message \<Rightarrow> ds_state \<Rightarrow> ds_state" where
  "handle_settings_end env device_id msg s =
     (case schema_frame_matches device_id msg s of
        (s1, None) \<Rightarrow> s1
      | (s1, Some k) \<Rightarrow>
          (let rec = s_records s1 ! k
           in if \<not> m_has_total msg \<or> m_total msg \<noteq> dr_staging_expected_count rec \<or>
                 dr_staging_received_count rec \<noteq> dr_staging_expected_count rec then schema_reject device_id k s1
              else case s_schema_builder s1 of
                     None \<Rightarrow> s1
                   | Some b \<Rightarrow>
                       if \<not> option_counts_ok (s_declared_option_count s1) (sb_descriptors b) then schema_reject device_id k s1
                       else (case ds_schema_builder_commit (en_snapshot_mem env) b (s_diag s1) (s_schemas s1) of
                               (b', d, h, None) \<Rightarrow> schema_reject device_id k (s1\<lparr>s_diag := d\<rparr>)
                             | (b', d, h, Some a) \<Rightarrow>
                                 (let s2 = s1\<lparr>s_schema_builder := Some b', s_diag := d, s_schemas := h\<rparr>;
                                      (s3, err) = device_settings_commit_schema (en_lock env) device_id a s2
                                  in if err \<noteq> ESP_OK
                                     then schema_reject device_id k (s3\<lparr>s_schemas := ds_settings_ref_release (Some a) (s_schemas s3)\<rparr>)
                                     else publish_settings_state device_id GW_SETTINGS_EVENT_STATE_READING
                                            (sb_schema_revision b) (dr_config_rev (s_records s3 ! k))
                                            (schema_builder_discard
                                              (count_diag (\<lambda>d. d\<lparr>dg_discovery_schema_success := dg_discovery_schema_success d + 1\<rparr>)
                                                (upd_rec k (\<lambda>r. r\<lparr>dr_schema_stream_active := False\<rparr>) s3)))))))"

section \<open>The values stream\<close>

definition values_builder_discard :: "ds_state \<Rightarrow> ds_state" where
  "values_builder_discard s =
     s\<lparr>s_values_builder := ds_values_builder_reset (s_values_builder s), s_values_owner := [], s_values_request_id := 0,
       s_values_config_revision := 0\<rparr>"

definition values_reject :: "string \<Rightarrow> nat \<Rightarrow> ds_state \<Rightarrow> ds_state" where
  "values_reject device_id k s =
     (if dr_values_stream_active (s_records s ! k) \<and> s_values_owner s = device_id
      then device_settings_worker_on_values_complete (Some device_id) False
             (publish_error device_id k
               (count_diag (\<lambda>d. d\<lparr>dg_discovery_values_fail := dg_discovery_values_fail d + 1\<rparr>)
                 (values_builder_discard
                   (upd_rec k (\<lambda>r. r\<lparr>dr_values_stream_active := False, dr_staging_expected_count := 0,
                      dr_staging_received_count := 0\<rparr>) s))))
      else s)"

definition values_frame_matches :: "string \<Rightarrow> gw_message \<Rightarrow> ds_state \<Rightarrow> ds_state \<times> nat option" where
  "values_frame_matches device_id msg s =
     (case device_settings_find_record device_id s of
        None \<Rightarrow> (s, None)
      | Some k \<Rightarrow>
          if \<not> dr_values_stream_active (s_records s ! k) \<or> s_values_owner s = [] then (s, None)
          else if s_values_owner s \<noteq> device_id then (s, None)
          else if \<not> m_has_request_id msg \<or> m_request_id msg \<noteq> s_values_request_id s then (values_reject device_id k s, None)
          else (s, Some k))"

definition enum_value_allowed :: "ds_schema \<Rightarrow> ds_setting_desc \<Rightarrow> u8 \<Rightarrow> bool" where
  "enum_value_allowed schema desc value =
     list_ex (\<lambda>i. eo_value (sc_enum_options schema ! (sd_option_index desc + i)) = value) [0..<sd_option_count desc]"

definition handle_values_begin :: "ds_env \<Rightarrow> string \<Rightarrow> gw_message \<Rightarrow> ds_state \<Rightarrow> ds_state" where
  "handle_values_begin env device_id msg s =
     (if m_protocol_version msg \<noteq> GW_PROTOCOL_VERSION \<or> \<not> m_has_request_id msg \<or> \<not> m_has_total msg \<or>
         \<not> m_has_capability_revision msg then s
      else if s_values_owner s \<noteq> [] then s
      else case device_settings_find_record device_id s of
             None \<Rightarrow> s
           | Some k \<Rightarrow>
               (case schema_of s k of
                  None \<Rightarrow> s
                | Some schema \<Rightarrow>
                    if dr_schema_state (s_records s ! k) \<noteq> DS_SCHEMA_READY then s
                    else if unat (m_total msg) > length (sc_descriptors schema) then s
                    else (case ds_values_builder_init (en_pool_mem env) (s_diag s) of
                            (b, d, err) \<Rightarrow>
                              if err \<noteq> ESP_OK
                              then count_diag (\<lambda>d. d\<lparr>dg_discovery_values_fail := dg_discovery_values_fail d + 1\<rparr>)
                                     (s\<lparr>s_values_builder := b, s_diag := d\<rparr>)
                              else let s1 = s\<lparr>s_values_builder := b\<lparr>vb_config_revision := m_capability_revision msg\<rparr>, s_diag := d,
                                             s_values_owner := strlcpy GW_MSG_DEVICE_ID_LEN device_id,
                                             s_values_request_id := m_request_id msg,
                                             s_values_config_revision := m_capability_revision msg\<rparr>;
                                       s2 = upd_rec k (\<lambda>r. r\<lparr>dr_values_stream_active := True, dr_staging_expected_count := m_total msg,
                                              dr_staging_received_count := 0, dr_staging_snapshot_id := 0\<rparr>) s1
                                   in publish_settings_state device_id GW_SETTINGS_EVENT_STATE_READING
                                        (dr_schema_rev (s_records s2 ! k)) (dr_config_rev (s_records s2 ! k)) s2)))"

text \<open>
  The entry of a value and the pool with its texts; \<^const>\<open>None\<close> is a rejection. The value of a secret is
  written to the union and then cleared through the smallest member.
\<close>

definition zero_value_entry :: ds_value_entry where
  "zero_value_entry = \<lparr>ve_id_off = 0, ve_type = 0, ve_has_value = False, ve_union = 0\<rparr>"

definition entry_value :: "ds_schema \<Rightarrow> ds_setting_desc \<Rightarrow> gw_message \<Rightarrow> ds_value_entry \<Rightarrow> ds_string_pool \<Rightarrow>
    (ds_value_entry \<times> ds_string_pool) option" where
  "entry_value schema desc msg e pool =
     (if m_setting_type msg = DS_TYPE_BOOL then Some (set_bool_val (m_setting_value_bool msg) e, pool)
      else if m_setting_type msg = DS_TYPE_INT then Some (set_int_val (m_setting_value_int msg) e, pool)
      else if m_setting_type msg = DS_TYPE_STRING
      then (let str = cstr (m_setting_value_string msg)
            in if length str > GW_SETTINGS_VALUE_MAX_LEN - 1 \<or>
                  (sd_max_length desc \<noteq> 0 \<and> length str > unat (sd_max_length desc)) then None
               else if \<not> ve_has_value e then Some (e, pool)
               else case ds_string_pool_add str pool of
                      (_, Inl _) \<Rightarrow> None
                    | (pool', Inr off) \<Rightarrow> Some (set_string_off off e, pool'))
      else if m_setting_type msg = DS_TYPE_ENUM
      then (if enum_value_allowed schema desc (m_setting_value_enum msg)
            then Some (set_int_val (uint (m_setting_value_enum msg)) e, pool) else None)
      else None)"

definition build_value :: "ds_schema \<Rightarrow> gw_message \<Rightarrow> ds_values_builder \<Rightarrow> ds_values_builder option" where
  "build_value schema msg b =
     (case find_descriptor schema (cstr (m_setting_id msg)) of
        None \<Rightarrow> None
      | Some desc \<Rightarrow>
          if sd_type desc \<noteq> m_setting_type msg then None
          else let secret = (sd_flags desc AND DS_FLAG_SECRET \<noteq> 0)
               in case ds_string_pool_add (cstr (m_setting_id msg)) (vb_string_pool b) of
                    (_, Inl _) \<Rightarrow> None
                  | (pool, Inr id_off) \<Rightarrow>
                      (case entry_value schema desc msg
                              (zero_value_entry\<lparr>ve_type := m_setting_type msg, ve_has_value := \<not> secret, ve_id_off := id_off\<rparr>) pool of
                         None \<Rightarrow> None
                       | Some (e, pool') \<Rightarrow>
                           (let e' = (if secret then set_bool_val False (e\<lparr>ve_has_value := False\<rparr>) else e)
                            in case ds_values_builder_add e' (b\<lparr>vb_string_pool := pool'\<rparr>) of
                                 (b', err) \<Rightarrow> if err \<noteq> ESP_OK then None else Some b')))"

definition handle_values_value :: "string \<Rightarrow> gw_message \<Rightarrow> ds_state \<Rightarrow> ds_state" where
  "handle_values_value device_id msg s =
     (case values_frame_matches device_id msg s of
        (s1, None) \<Rightarrow> s1
      | (s1, Some k) \<Rightarrow>
          (let rec = s_records s1 ! k
           in if \<not> m_has_settings_sequence msg \<or> \<not> m_has_setting_id msg \<or> cstr (m_setting_id msg) = [] \<or>
                 \<not> m_has_setting_type msg \<or> \<not> m_has_setting_value msg then values_reject device_id k s1
              else if dr_staging_received_count rec \<ge> dr_staging_expected_count rec then values_reject device_id k s1
              else if m_settings_sequence msg \<noteq> dr_staging_received_count rec then values_reject device_id k s1
              else case schema_of s1 k of
                     None \<Rightarrow> values_reject device_id k s1
                   | Some schema \<Rightarrow>
                       (case build_value schema msg (s_values_builder s1) of
                          None \<Rightarrow> values_reject device_id k s1
                        | Some b \<Rightarrow> upd_rec k (\<lambda>r. r\<lparr>dr_staging_received_count := dr_staging_received_count r + 1\<rparr>)
                                      (s1\<lparr>s_values_builder := b\<rparr>))))"

definition values_committed :: "ds_env \<Rightarrow> string \<Rightarrow> nat \<Rightarrow> u32 \<Rightarrow> ds_state \<Rightarrow> ds_state" where
  "values_committed env device_id k revision s =
     (let s1 = count_diag (\<lambda>d. d\<lparr>dg_discovery_values_success := dg_discovery_values_success d + 1\<rparr>)
                 (upd_rec k (\<lambda>r. r\<lparr>dr_values_stream_active := False\<rparr>) s);
          s2 = device_settings_worker_on_values_complete (Some device_id) True (values_builder_discard s1);
          s3 = (if dr_pending_reconciliation (s_records s2 ! k) then device_settings_reconcile (en_relock env) device_id s2 else s2)
      in publish_settings_changed device_id revision
           (publish_settings_state device_id GW_SETTINGS_EVENT_STATE_READY (dr_schema_rev (s_records s3 ! k)) revision s3))"

definition handle_values_end :: "ds_env \<Rightarrow> string \<Rightarrow> gw_message \<Rightarrow> ds_state \<Rightarrow> ds_state" where
  "handle_values_end env device_id msg s =
     (case values_frame_matches device_id msg s of
        (s1, None) \<Rightarrow> s1
      | (s1, Some k) \<Rightarrow>
          (let rec = s_records s1 ! k
           in if \<not> m_has_total msg \<or> \<not> m_has_capability_revision msg then values_reject device_id k s1
              else if m_total msg \<noteq> dr_staging_expected_count rec \<or>
                      dr_staging_received_count rec \<noteq> dr_staging_expected_count rec then values_reject device_id k s1
              else if m_capability_revision msg \<noteq> s_values_config_revision s1 then values_reject device_id k s1
              else case ds_values_builder_commit (en_snapshot_mem env) (s_values_builder s1) (s_diag s1) (s_values s1) of
                     (b', d, h, None) \<Rightarrow> values_reject device_id k (s1\<lparr>s_diag := d\<rparr>)
                   | (b', d, h, Some a) \<Rightarrow>
                       (let s2 = s1\<lparr>s_values_builder := b', s_diag := d, s_values := h\<rparr>;
                            (s3, err) = device_settings_commit_values (en_lock env) device_id a s2
                        in if err \<noteq> ESP_OK
                           then values_reject device_id k (s3\<lparr>s_values := ds_values_ref_release (Some a) (s_values s3)\<rparr>)
                           else values_committed env device_id k (vb_config_revision (s_values_builder s1)) s3)))"

section \<open>Entry points\<close>

definition GW_SETTINGS_MSG_SETTINGS_BEGIN :: string where "GW_SETTINGS_MSG_SETTINGS_BEGIN = ''settings_begin''"
definition GW_SETTINGS_MSG_SETTINGS_ITEM :: string where "GW_SETTINGS_MSG_SETTINGS_ITEM = ''settings_item''"
definition GW_SETTINGS_MSG_SETTINGS_OPTION_ITEM :: string where "GW_SETTINGS_MSG_SETTINGS_OPTION_ITEM = ''settings_option_item''"
definition GW_SETTINGS_MSG_SETTINGS_END :: string where "GW_SETTINGS_MSG_SETTINGS_END = ''settings_end''"
definition GW_SETTINGS_MSG_SETTINGS_VALUES_BEGIN :: string where "GW_SETTINGS_MSG_SETTINGS_VALUES_BEGIN = ''settings_values_begin''"
definition GW_SETTINGS_MSG_SETTINGS_VALUES_VALUE :: string where "GW_SETTINGS_MSG_SETTINGS_VALUES_VALUE = ''settings_values_value''"
definition GW_SETTINGS_MSG_SETTINGS_VALUES_END :: string where "GW_SETTINGS_MSG_SETTINGS_VALUES_END = ''settings_values_end''"

definition device_settings_on_notify :: "ds_env \<Rightarrow> string option \<Rightarrow> gw_message option \<Rightarrow> ds_state \<Rightarrow> ds_state \<times> bool" where
  "device_settings_on_notify env device_id message s =
     (case (device_id, message) of
        (Some dev, Some msg) \<Rightarrow>
          if m_type msg = GW_SETTINGS_MSG_SETTINGS_BEGIN then (handle_settings_begin env dev msg s, True)
          else if m_type msg = GW_SETTINGS_MSG_SETTINGS_ITEM then (handle_item dev msg s, True)
          else if m_type msg = GW_SETTINGS_MSG_SETTINGS_OPTION_ITEM then (handle_option_item dev msg s, True)
          else if m_type msg = GW_SETTINGS_MSG_SETTINGS_END then (handle_settings_end env dev msg s, True)
          else if m_type msg = GW_SETTINGS_MSG_SETTINGS_VALUES_BEGIN then (handle_values_begin env dev msg s, True)
          else if m_type msg = GW_SETTINGS_MSG_SETTINGS_VALUES_VALUE then (handle_values_value dev msg s, True)
          else if m_type msg = GW_SETTINGS_MSG_SETTINGS_VALUES_END then (handle_values_end env dev msg s, True)
          else (s, False)
      | _ \<Rightarrow> (s, False))"

definition device_settings_protocol_on_disconnect :: "string option \<Rightarrow> ds_state \<Rightarrow> ds_state" where
  "device_settings_protocol_on_disconnect device_id s =
     (let s1 = (if s_schema_owner s \<noteq> [] \<and> (device_id = None \<or> device_id = Some (s_schema_owner s))
                then schema_builder_discard s else s)
      in if s_values_owner s1 \<noteq> [] \<and> (device_id = None \<or> device_id = Some (s_values_owner s1))
         then values_builder_discard s1 else s1)"

definition device_settings_on_disconnect :: "bool \<Rightarrow> string \<Rightarrow> ds_state \<Rightarrow> ds_state" where
  "device_settings_on_disconnect lock device_id s =
     (if device_id = [] then s
      else let s1 = device_settings_protocol_on_disconnect (Some device_id) s
           in if \<not> lock then s1
              else let s2 = (case device_settings_find_record device_id s1 of
                               None \<Rightarrow> s1
                             | Some k \<Rightarrow> upd_rec k (\<lambda>r. r\<lparr>dr_schema_stream_active := False, dr_values_stream_active := False,
                                           dr_staging_expected_count := 0, dr_staging_received_count := 0,
                                           dr_staging_snapshot_id := 0\<rparr>) s1)
                   in device_settings_worker_on_disconnect (Some device_id) s2)"

definition release_snapshots :: "ds_device_record \<Rightarrow> ds_state \<Rightarrow> ds_state" where
  "release_snapshots r s =
     s\<lparr>s_schemas := ds_settings_ref_release (dr_schema r) (s_schemas s),
       s_values := ds_values_ref_release (dr_values r) (s_values s)\<rparr>"

definition device_settings_forget :: "bool \<Rightarrow> bool \<Rightarrow> string \<Rightarrow> ds_state \<Rightarrow> ds_state \<times> esp_err" where
  "device_settings_forget lock relock device_id s =
     (if device_id = [] then (s, ESP_ERR_INVALID_ARG)
      else let s1 = device_settings_on_disconnect lock device_id s;
               s2 = fst (device_settings_cancel device_id s1);
               s3 = fst (device_settings_tx_cancel device_id s2)
           in if \<not> relock then (s3, ESP_ERR_TIMEOUT)
              else case device_settings_find_record device_id s3 of
                     None \<Rightarrow> (s3, ESP_OK)
                   | Some k \<Rightarrow>
                       (release_snapshots (s_records s3 ! k) (upd_rec k (\<lambda>_. zero_device_record) s3), ESP_OK))"

fun release_all :: "nat list \<Rightarrow> ds_state \<Rightarrow> ds_state" where
  "release_all [] s = s"
| "release_all (k # ks) s =
     release_all ks (upd_rec k (\<lambda>r. r\<lparr>dr_schema := None, dr_values := None\<rparr>) (release_snapshots (s_records s ! k) s))"

definition device_settings_deinit :: "ds_state \<Rightarrow> ds_state" where
  "device_settings_deinit s =
     (if \<not> s_initialized s then s
      else (release_all [0..<DEVICE_SETTINGS_MAX_DEVICES] (device_settings_protocol_on_disconnect None s))
             \<lparr>s_initialized := False\<rparr>)"

end
