(* ===== verification/Settings_Run.thy ===== *)
theory Settings_Run
  imports Settings_Protocol "HOL-Library.Sublist" "HOL-Library.Multiset"
begin

text \<open>
  Runs of the settings component: any sequence of calls of its functions, of callbacks of the scheduler and
  the timers, and of turns of the actor, with any answers of the scheduler, the allocator and the locks.

  \<open>sound\<close> is what every run keeps of the transactions: each is one of the accepted saves, the commands
  submitted for it are those of its script in order, and each completion callback is either still owed or
  was called once.
\<close>

section \<open>Steps\<close>

datatype settings_action =
    SA_init bool
  | SA_deinit
  | SA_worker_init esp_err bool bool bool
  | SA_worker_stop_request
  | SA_worker_stop_finish
  | SA_save ds_env string "ds_change_request list" u32 "nat option" nat
  | SA_tx_cancel string
  | SA_describe bool string "nat option" nat
  | SA_get bool string "nat option" nat
  | SA_cancel string
  | SA_capability ds_env string bool u16
  | SA_notify ds_env "string option" "gw_message option"
  | SA_disconnect bool string
  | SA_forget bool bool string
  | SA_reconcile bool string
  | SA_acquire bool string
  | SA_release "nat option" "nat option"
  | SA_turn ds_env
  | SA_command_done "device_control_result option"
  | SA_lease_done esp_err u32
  | SA_tx_command_done "device_control_result option" nat
  | SA_tx_lease_done esp_err u32
  | SA_retry_timer
  | SA_reconciliation_timer nat

fun settings_step :: "settings_action \<Rightarrow> ds_state \<Rightarrow> ds_state" where
  "settings_step (SA_init mutex) s = fst (device_settings_init mutex s)"
| "settings_step SA_deinit s = device_settings_deinit s"
| "settings_step (SA_worker_init e q t k) s = fst (device_settings_worker_init e q t k s)"
| "settings_step SA_worker_stop_request s = worker_stop_request s"
| "settings_step SA_worker_stop_finish s = worker_stop_finish s"
| "settings_step (SA_save env dev changes erev cb ctx) s = fst (device_settings_save env dev changes erev cb ctx s)"
| "settings_step (SA_tx_cancel dev) s = fst (device_settings_tx_cancel dev s)"
| "settings_step (SA_describe lock dev cb ctx) s = fst (device_settings_describe lock dev cb ctx s)"
| "settings_step (SA_get lock dev cb ctx) s = fst (device_settings_get lock dev cb ctx s)"
| "settings_step (SA_cancel dev) s = fst (device_settings_cancel dev s)"
| "settings_step (SA_capability env dev supported srev) s = device_settings_on_capability env dev supported srev s"
| "settings_step (SA_notify env dev msg) s = fst (device_settings_on_notify env dev msg s)"
| "settings_step (SA_disconnect lock dev) s = device_settings_on_disconnect lock dev s"
| "settings_step (SA_forget lock relock dev) s = fst (device_settings_forget lock relock dev s)"
| "settings_step (SA_reconcile lock dev) s = device_settings_reconcile lock dev s"
| "settings_step (SA_acquire lock dev) s = fst (device_settings_values_acquire lock dev (fst (device_settings_schema_acquire lock dev s)))"
| "settings_step (SA_release p q) s = device_settings_values_release q (device_settings_schema_release p s)"
| "settings_step (SA_turn env) s = actor_turn env s"
| "settings_step (SA_command_done r) s = post_command_done r s"
| "settings_step (SA_lease_done st lease) s = post_lease_done st lease s"
| "settings_step (SA_tx_command_done r i) s = on_scheduler_complete r i s"
| "settings_step (SA_tx_lease_done st lease) s = post_tx_lease_done st lease s"
| "settings_step SA_retry_timer s = retry_timer_cb s"
| "settings_step (SA_reconciliation_timer i) s = reconciliation_timeout_cb i s"

text \<open>The save a step accepts, as the transaction it asks for.\<close>

definition asked_tx :: "string \<Rightarrow> u64 \<Rightarrow> u32 \<Rightarrow> ds_change_request list \<Rightarrow> nat option \<Rightarrow> nat \<Rightarrow> ds_transaction" where
  "asked_tx dev tx_id erev changes cb ctx =
     zero_tx\<lparr>tx_device_id := strlcpy 32 dev, tx_transaction_id := tx_id, tx_expected_config_rev := erev, tx_changes := changes,
       tx_completion := cb, tx_context := ctx\<rparr>"

definition accepted_save :: "settings_action \<Rightarrow> ds_state \<Rightarrow> ds_transaction list" where
  "accepted_save a s =
     (case a of
        SA_save env dev changes erev cb ctx \<Rightarrow>
          (case device_settings_save env dev changes erev cb ctx s of
             (_, err, Some tx_id) \<Rightarrow> if err = ESP_OK then [asked_tx dev tx_id erev changes cb ctx] else []
           | _ \<Rightarrow> [])
      | _ \<Rightarrow> [])"

fun settings_run :: "settings_action list \<Rightarrow> ds_state \<times> ds_transaction list \<Rightarrow> ds_state \<times> ds_transaction list" where
  "settings_run [] r = r"
| "settings_run (a # as) (s, acc) = settings_run as (settings_step a s, acc @ accepted_save a s)"

section \<open>What the outside sees of the transactions\<close>

definition request_of :: "ds_output \<Rightarrow> device_command_request list" where
  "request_of e = (case e of OUT_SUBMIT job (CB_TRANSACTION i) err \<Rightarrow> [j_request job] | _ \<Rightarrow> [])"

definition answer_of :: "ds_output \<Rightarrow> (nat \<times> nat) list" where
  "answer_of e = (case e of OUT_TX_DONE f ctx result \<Rightarrow> [(f, ctx)] | _ \<Rightarrow> [])"

definition tx_requests :: "ds_state \<Rightarrow> device_command_request list" where
  "tx_requests s = concat (map request_of (s_out s))"

definition tx_answers :: "ds_state \<Rightarrow> (nat \<times> nat) list" where
  "tx_answers s = concat (map answer_of (s_out s))"

definition tx_view :: "ds_state \<Rightarrow> ds_transaction list \<times> device_command_request list \<times> (nat \<times> nat) list" where
  "tx_view s = (s_txns s, tx_requests s, tx_answers s)"

lemma output_simps [simp]:
  "request_of (OUT_PUBLISH g) = []" "request_of (OUT_SUBMIT job CB_OPERATION err) = []"
  "request_of (OUT_SUBMIT job CB_TX_LEASE err) = []" "request_of (OUT_SUBMIT job (CB_TRANSACTION i) err) = [j_request job]"
  "request_of (OUT_ACQUIRE q cb err) = []" "request_of (OUT_RELEASE l) = []" "request_of (OUT_CANCEL_SOURCE d w) = []"
  "request_of (OUT_TX_DONE f c r) = []" "request_of (OUT_OP_DONE f c r') = []"
  "answer_of (OUT_PUBLISH g) = []" "answer_of (OUT_SUBMIT job cb err) = []"
  "answer_of (OUT_ACQUIRE q cb err) = []" "answer_of (OUT_RELEASE l) = []" "answer_of (OUT_CANCEL_SOURCE d w) = []"
  "answer_of (OUT_TX_DONE f c r) = [(f, c)]" "answer_of (OUT_OP_DONE f c r') = []"
  by (simp_all add: request_of_def answer_of_def)

lemma tx_requests_emit [simp]: "tx_requests (emit e s) = tx_requests s @ request_of e"
  by (simp add: tx_requests_def)

lemma tx_answers_emit [simp]: "tx_answers (emit e s) = tx_answers s @ answer_of e"
  by (simp add: tx_answers_def)

lemma same_out: "s_out s' = s_out s \<Longrightarrow> tx_requests s' = tx_requests s \<and> tx_answers s' = tx_answers s"
  by (simp add: tx_requests_def tx_answers_def)

lemma same_view: "s_out s' = s_out s \<Longrightarrow> s_txns s' = s_txns s \<Longrightarrow> tx_view s' = tx_view s"
  by (simp add: tx_view_def tx_requests_def tx_answers_def)

section \<open>Scripts\<close>

definition tx_script :: "ds_transaction \<Rightarrow> device_command_request list" where
  "tx_script tx = begin_request tx # map (set_request tx) (tx_changes tx) @ [commit_request tx]"

text \<open>How many commands of its script a transaction has surely submitted.\<close>

definition tx_progress :: "ds_transaction \<Rightarrow> nat" where
  "tx_progress tx =
     (case tx_state tx of
        DS_TX_BEGIN_SENT \<Rightarrow> 1 + tx_next_change_index tx
      | DS_TX_SET_SENT \<Rightarrow> 2 + tx_next_change_index tx
      | DS_TX_COMMIT_SENT \<Rightarrow> 2 + length (tx_changes tx)
      | DS_TX_CONFIRM_SENT \<Rightarrow> 2 + length (tx_changes tx)
      | DS_TX_WAITING_REBOOT \<Rightarrow> 2 + length (tx_changes tx)
      | DS_TX_VERIFYING \<Rightarrow> 2 + length (tx_changes tx)
      | _ \<Rightarrow> 0)"

text \<open>What stays of a transaction while it runs: the save it came from.\<close>

definition save_of :: "ds_transaction \<Rightarrow> ds_transaction" where
  "save_of tx =
     zero_tx\<lparr>tx_device_id := tx_device_id tx, tx_transaction_id := tx_transaction_id tx,
       tx_expected_config_rev := tx_expected_config_rev tx, tx_changes := tx_changes tx, tx_completion := tx_completion tx,
       tx_context := tx_context tx\<rparr>"

definition running_states :: "ds_tx_state set" where
  "running_states =
     {DS_TX_PREVALIDATING, DS_TX_BEGIN_SENT, DS_TX_SET_SENT, DS_TX_COMMIT_SENT, DS_TX_CONFIRM_SENT, DS_TX_WAITING_REBOOT}"

definition tx_sound :: "ds_transaction list \<Rightarrow> device_command_request list \<Rightarrow> ds_transaction \<Rightarrow> bool" where
  "tx_sound acc reqs tx \<longleftrightarrow>
     (tx_active tx \<longrightarrow>
        save_of tx \<in> set acc \<and> tx_next_change_index tx \<le> length (tx_changes tx) \<and>
        (tx_state tx = DS_TX_SET_SENT \<longrightarrow> tx_next_change_index tx < length (tx_changes tx)) \<and>
        (tx_state tx = DS_TX_PREVALIDATING \<longrightarrow> tx_next_change_index tx = 0) \<and> tx_state tx \<in> running_states \<and>
        subseq (take (tx_progress tx) (tx_script tx)) reqs)"

text \<open>A command is the next of the script of an accepted save, or the CONFIRM after the whole script.\<close>

definition justified :: "ds_transaction list \<Rightarrow> device_command_request list \<Rightarrow> device_command_request \<Rightarrow> bool" where
  "justified acc before r \<longleftrightarrow>
     (\<exists>a\<in>set acc.
        (\<exists>k<length (tx_script a). r = tx_script a ! k \<and> subseq (take k (tx_script a)) before) \<or>
        (\<exists>rev. r = confirm_request (a\<lparr>tx_new_config_rev := rev\<rparr>) \<and> subseq (tx_script a) before))"

definition commands_ok :: "ds_transaction list \<Rightarrow> device_command_request list \<Rightarrow> bool" where
  "commands_ok acc reqs \<longleftrightarrow> (\<forall>n<length reqs. justified acc (take n reqs) (reqs ! n))"

definition tx_owed :: "ds_transaction \<Rightarrow> (nat \<times> nat) list" where
  "tx_owed tx = (case tx_completion tx of None \<Rightarrow> [] | Some f \<Rightarrow> [(f, tx_context tx)])"

lemma owed_state [simp]: "tx_owed (tx\<lparr>tx_state := st\<rparr>) = tx_owed tx" by (simp add: tx_owed_def split: option.split)

definition pending :: "ds_transaction list \<Rightarrow> (nat \<times> nat) list" where
  "pending txns = concat (map tx_owed (filter tx_active txns))"

definition sound :: "ds_transaction list \<Rightarrow> ds_state \<Rightarrow> bool" where
  "sound acc s \<longleftrightarrow>
     (\<forall>tx\<in>set (s_txns s). tx_sound acc (tx_requests s) tx) \<and> commands_ok acc (tx_requests s) \<and>
     mset (concat (map tx_owed acc)) = mset (tx_answers s) + mset (pending (s_txns s))"

lemma sound_view: "tx_view s' = tx_view s \<Longrightarrow> sound acc s \<Longrightarrow> sound acc s'"
  by (simp add: sound_def tx_view_def)

lemma script_asked [simp]: "tx_script (save_of tx) = tx_script tx" "tx_owed (save_of tx) = tx_owed tx"
  by (simp_all add: tx_script_def save_of_def begin_request_def set_request_def commit_request_def tx_request_def tx_owed_def
      fun_eq_iff split: option.split)

lemma script_cong: "save_of tx' = save_of tx \<Longrightarrow> tx_script tx' = tx_script tx"
  by (metis script_asked(1))

lemma tx_sound_mono:
  assumes "tx_sound acc reqs tx" "set acc \<subseteq> set acc'" "subseq reqs reqs'"
  shows "tx_sound acc' reqs' tx"
  using assms by (auto simp: tx_sound_def dest: subseq_order.trans)

lemma justified_mono: "justified acc reqs r \<Longrightarrow> set acc \<subseteq> set acc' \<Longrightarrow> justified acc' reqs r"
  by (auto simp: justified_def)

lemma commands_ok_append:
  "commands_ok acc reqs \<Longrightarrow> justified acc reqs r \<Longrightarrow> commands_ok acc (reqs @ [r])"
  by (auto simp: commands_ok_def nth_append less_Suc_eq)

lemma pending_update:
  "i < length txns \<Longrightarrow>
   mset (pending (txns[i := tx'])) + mset (pending [txns ! i]) = mset (pending txns) + mset (pending [tx'])"
proof (induction txns arbitrary: i)
  case (Cons t txns)
  show ?case
  proof (cases i)
    case (Suc j)
    then show ?thesis using Cons.IH [of j] Cons.prems by (simp add: pending_def split: if_splits)
  qed (auto simp: pending_def)
qed simp

section \<open>Steps of one transaction\<close>

lemma take_subseq: "m \<le> n \<Longrightarrow> subseq (take n xs) ys \<Longrightarrow> subseq (take m xs) ys"
  by (metis min.absorb1 subseq_order.trans take_is_prefix take_take prefix_imp_subseq)

lemma sound_update:
  assumes "sound acc s" "i < length (s_txns s)" "tx_active (s_txns s ! i)" "tx_active tx'" "save_of tx' = save_of (s_txns s ! i)"
    and "tx_sound acc (tx_requests s @ rs) tx'" "\<forall>r\<in>set rs. justified acc (tx_requests s) r" "length rs \<le> 1"
    and "s_txns s' = (s_txns s)[i := tx']" "tx_requests s' = tx_requests s @ rs" "tx_answers s' = tx_answers s"
  shows "sound acc s'"
proof -
  have old: "tx_sound acc (tx_requests s @ rs) tx" if "tx \<in> set (s_txns s)" for tx
    using assms(1) that by (auto simp: sound_def intro: tx_sound_mono)
  have "\<forall>tx\<in>set (s_txns s'). tx_sound acc (tx_requests s') tx"
    using old assms(6,9,10) set_update_subset_insert [of "s_txns s" i tx'] by auto
  moreover have "commands_ok acc (tx_requests s')"
  proof (cases rs)
    case (Cons r rs')
    then show ?thesis using assms(1,7,8,10) by (auto simp: sound_def intro: commands_ok_append)
  qed (use assms(1,10) in \<open>simp add: sound_def\<close>)
  moreover have "tx_owed tx' = tx_owed (s_txns s ! i)" by (metis assms(5) script_asked(2))
  then have "mset (pending (s_txns s')) = mset (pending (s_txns s))"
    using pending_update [OF assms(2), of tx'] assms(3,4,9) by (simp add: pending_def)
  ultimately show ?thesis using assms(1,11) by (simp add: sound_def)
qed

lemma sound_done:
  assumes "sound acc s" "i < length (s_txns s)" "tx_active (s_txns s ! i)" "\<not> tx_active tx'"
    and "s_txns s' = (s_txns s)[i := tx']" "tx_requests s' = tx_requests s" "tx_answers s' = tx_answers s @ tx_owed (s_txns s ! i)"
  shows "sound acc s'"
proof -
  have "\<forall>tx\<in>set (s_txns s'). tx_sound acc (tx_requests s') tx"
    using assms(1,4,5,6) set_update_subset_insert [of "s_txns s" i tx'] by (auto simp: sound_def tx_sound_def)
  moreover have "mset (pending (s_txns s')) + mset (tx_owed (s_txns s ! i)) = mset (pending (s_txns s))"
    using pending_update [OF assms(2), of tx'] assms(3,4,5) by (simp add: pending_def)
  ultimately show ?thesis using assms(1,6,7) by (auto simp: sound_def ac_simps)
qed

lemma transition_view [simp]:
  "s_txns (transition_tx i st s) = (s_txns s)[i := (s_txns s ! i)\<lparr>tx_state := st\<rparr>]"
  "tx_requests (transition_tx i st s) = tx_requests s" "tx_answers (transition_tx i st s) = tx_answers s"
  by (auto simp: transition_tx_def publish_tx_def upd_tx_def Let_def tx_requests_def tx_answers_def)

lemma publish_tx_view [simp]:
  "s_txns (publish_tx i s) = s_txns s" "tx_requests (publish_tx i s) = tx_requests s" "tx_answers (publish_tx i s) = tx_answers s"
  by (auto simp: publish_tx_def Let_def)

lemma upd_tx_view [simp]:
  "s_txns (upd_tx i f s) = (s_txns s)[i := f (s_txns s ! i)]" "tx_requests (upd_tx i f s) = tx_requests s"
  "tx_answers (upd_tx i f s) = tx_answers s"
  by (simp_all add: upd_tx_def tx_requests_def tx_answers_def)

lemma count_diag_view [simp]: "tx_requests (count_diag f s) = tx_requests s" "tx_answers (count_diag f s) = tx_answers s"
  by (simp_all add: tx_requests_def tx_answers_def)

lemma upd_rec_view [simp]: "tx_requests (upd_rec k f s) = tx_requests s" "tx_answers (upd_rec k f s) = tx_answers s"
  by (simp_all add: tx_requests_def tx_answers_def)

lemma store_result_view [simp]:
  "s_txns (device_settings_tx_store_result dev r v s) = s_txns s"
  "tx_requests (device_settings_tx_store_result dev r v s) = tx_requests s"
  "tx_answers (device_settings_tx_store_result dev r v s) = tx_answers s"
  by (auto simp: device_settings_tx_store_result_def tx_requests_def tx_answers_def split: option.split)

text \<open>
  In the middle of a step the state of a transaction may be ahead of what it submitted: with an earlier
  state in its place the whole is sound.
\<close>

definition nearly :: "ds_transaction list \<Rightarrow> nat \<Rightarrow> ds_state \<Rightarrow> bool" where
  "nearly acc i s \<longleftrightarrow>
     i < length (s_txns s) \<and> tx_active (s_txns s ! i) \<and> (\<exists>st. sound acc (upd_tx i (\<lambda>t. t\<lparr>tx_state := st\<rparr>) s))"

lemma nearly_sound: "sound acc s \<Longrightarrow> i < length (s_txns s) \<Longrightarrow> tx_active (s_txns s ! i) \<Longrightarrow> nearly acc i s"
  unfolding nearly_def
  by (intro conjI exI [of _ "tx_state (s_txns s ! i)"], assumption, assumption)
     (rule sound_view, auto simp: tx_view_def)

lemma nearly_view:
  assumes "tx_view s' = tx_view s" "nearly acc i s" shows "nearly acc i s'"
proof -
  have v: "tx_view (upd_tx i (\<lambda>t. t\<lparr>tx_state := st\<rparr>) s') = tx_view (upd_tx i (\<lambda>t. t\<lparr>tx_state := st\<rparr>) s)" for st
    using assms(1) by (simp add: tx_view_def)
  from assms(2) obtain st where "sound acc (upd_tx i (\<lambda>t. t\<lparr>tx_state := st\<rparr>) s)" by (auto simp: nearly_def)
  from sound_view [OF v this] assms show ?thesis by (auto simp: nearly_def tx_view_def)
qed

lemma nearly_transition:
  assumes "nearly acc i s" shows "nearly acc i (transition_tx i st s)"
proof -
  from assms have len: "i < length (s_txns s)" by (simp add: nearly_def)
  have v: "tx_view (upd_tx i (\<lambda>t. t\<lparr>tx_state := st0\<rparr>) (transition_tx i st s)) = tx_view (upd_tx i (\<lambda>t. t\<lparr>tx_state := st0\<rparr>) s)" for st0
    using len by (simp add: tx_view_def)
  from assms obtain st0 where "sound acc (upd_tx i (\<lambda>t. t\<lparr>tx_state := st0\<rparr>) s)" by (auto simp: nearly_def)
  from sound_view [OF v this] assms show ?thesis by (auto simp: nearly_def)
qed

lemma release_tx_lease_view [simp]:
  "s_txns (release_tx_lease i s) = (s_txns s)[i := (s_txns s ! i)\<lparr>tx_lease_id := 0\<rparr>]"
  "tx_requests (release_tx_lease i s) = tx_requests s" "tx_answers (release_tx_lease i s) = tx_answers s"
proof -
  have "(s_txns s)[i := (s_txns s ! i)\<lparr>tx_lease_id := 0\<rparr>] = s_txns s" if "tx_lease_id (s_txns s ! i) = 0"
    using that by (metis (no_types) ds_transaction.surjective ds_transaction.update_convs(8) list_update_id)
  then show "s_txns (release_tx_lease i s) = (s_txns s)[i := (s_txns s ! i)\<lparr>tx_lease_id := 0\<rparr>]"
    by (simp add: release_tx_lease_def Let_def)
qed (simp_all add: release_tx_lease_def Let_def)

lemma ds_tx_free_view [simp]:
  "i < length (s_txns s) \<Longrightarrow>
   s_txns (ds_tx_free i s) = (s_txns s)[i := (s_txns s ! i)\<lparr>tx_recon_timer := False, tx_changes := [], tx_active := False\<rparr>]"
  "tx_requests (ds_tx_free i s) = tx_requests s" "tx_answers (ds_tx_free i s) = tx_answers s"
  by (simp_all add: ds_tx_free_def cancel_reconciliation_timer_def)

lemma call_tx_completion_view [simp]:
  "s_txns (call_tx_completion cb ctx r s) = s_txns s" "tx_requests (call_tx_completion cb ctx r s) = tx_requests s"
  "tx_answers (call_tx_completion cb ctx r s) = tx_answers s @ (case cb of None \<Rightarrow> [] | Some f \<Rightarrow> [(f, ctx)])"
  by (simp_all add: call_tx_completion_def split: option.split)

lemma complete_view:
  "i < length (s_txns s) \<Longrightarrow>
   \<exists>tx'. \<not> tx_active tx' \<and> s_txns (ds_tx_complete i r v s) = (s_txns s)[i := tx'] \<and>
     tx_requests (ds_tx_complete i r v s) = tx_requests s \<and>
     tx_answers (ds_tx_complete i r v s) = tx_answers s @ tx_owed (s_txns s ! i)"
  by (rule exI [of _ "(s_txns s ! i)\<lparr>tx_state := terminal_state r, tx_lease_id := 0, tx_recon_timer := False, tx_changes := [],
        tx_active := False\<rparr>"]) (simp add: ds_tx_complete_def Let_def tx_owed_def)

lemma sound_complete:
  assumes "nearly acc i s" shows "sound acc (ds_tx_complete i r v s)"
proof -
  from assms obtain st where n: "i < length (s_txns s)" "tx_active (s_txns s ! i)"
    and g: "sound acc (upd_tx i (\<lambda>t. t\<lparr>tx_state := st\<rparr>) s)" by (auto simp: nearly_def)
  from complete_view [OF n(1), of r v] obtain tx' where c: "\<not> tx_active tx'"
    "s_txns (ds_tx_complete i r v s) = (s_txns s)[i := tx']" "tx_requests (ds_tx_complete i r v s) = tx_requests s"
    "tx_answers (ds_tx_complete i r v s) = tx_answers s @ tx_owed (s_txns s ! i)" by auto
  show ?thesis by (rule sound_done [OF g, of i tx']) (use n c in simp_all)
qed

lemma fail_internal_sound: "nearly acc i s \<Longrightarrow> sound acc (fail_internal i s)"
  unfolding fail_internal_def by (intro sound_complete nearly_transition)

lemma tx_fail_sound: "nearly acc i s \<Longrightarrow> sound acc (tx_fail i r s)"
  unfolding tx_fail_def count_tx_fail_def
  by (rule sound_complete, rule nearly_view [OF _ nearly_transition]) (simp_all add: tx_view_def)

lemma send_or_fail_sound:
  assumes "nearly acc i s" "justified acc (tx_requests s) r"
    and "tx_sound acc (tx_requests s @ [r]) ((s_txns s ! i)\<lparr>tx_state := st\<rparr>)"
  shows "sound acc (send_or_fail env i r (transition_tx i st s))"
proof -
  from assms(1) obtain st0 where n: "i < length (s_txns s)" "tx_active (s_txns s ! i)"
    and g: "sound acc (upd_tx i (\<lambda>t. t\<lparr>tx_state := st0\<rparr>) s)" by (auto simp: nearly_def)
  let ?s1 = "fst (submit_tx_command env i r (transition_tx i st s))"
  have v: "s_txns ?s1 = (s_txns s)[i := (s_txns s ! i)\<lparr>tx_state := st\<rparr>]" "tx_requests ?s1 = tx_requests s @ [r]"
    "tx_answers ?s1 = tx_answers s" by (simp_all add: submit_tx_command_def Let_def)
  have "sound acc ?s1"
    by (rule sound_update [OF g, of i "(s_txns s ! i)\<lparr>tx_state := st\<rparr>" "[r]"]) (use n assms(2,3) v in \<open>auto simp: save_of_def\<close>)
  moreover from this have "nearly acc i ?s1" using n v by (intro nearly_sound) simp_all
  ultimately show ?thesis by (auto simp: send_or_fail_def split_beta intro: fail_internal_sound)
qed

lemma justified_script:
  "save_of tx \<in> set acc \<Longrightarrow> k < length (tx_script tx) \<Longrightarrow> subseq (take k (tx_script tx)) before \<Longrightarrow> r = tx_script tx ! k \<Longrightarrow>
   justified acc before r"
  unfolding justified_def by (rule bexI [of _ "save_of tx"]) auto

lemma script_length [simp]: "length (tx_script tx) = 2 + length (tx_changes tx)"
  by (simp add: tx_script_def)

lemma script_next:
  "k < length (tx_script tx) \<Longrightarrow> subseq (take k (tx_script tx)) reqs \<Longrightarrow> subseq (take (Suc k) (tx_script tx)) (reqs @ [tx_script tx ! k])"
  by (simp add: take_Suc_conv_app_nth)

text \<open>Ready for the next command: the transaction has submitted BEGIN and the SETs before its index.\<close>

definition ready_tx :: "ds_transaction list \<Rightarrow> device_command_request list \<Rightarrow> ds_transaction \<Rightarrow> bool" where
  "ready_tx acc reqs tx \<longleftrightarrow>
     tx_active tx \<and> save_of tx \<in> set acc \<and> tx_next_change_index tx \<le> length (tx_changes tx) \<and>
     subseq (take (1 + tx_next_change_index tx) (tx_script tx)) reqs"

lemma submit_next_sound:
  assumes n: "nearly acc i s" and r: "ready_tx acc (tx_requests s) (s_txns s ! i)"
  shows "sound acc (submit_next_command env i s)"
proof -
  let ?tx = "s_txns s ! i" let ?k = "1 + tx_next_change_index ?tx"
  have a: "tx_active ?tx" "save_of ?tx \<in> set acc" "tx_next_change_index ?tx \<le> length (tx_changes ?tx)"
    "subseq (take ?k (tx_script ?tx)) (tx_requests s)" using r by (auto simp: ready_tx_def)
  have k: "?k < length (tx_script ?tx)" using a(3) by simp
  have j: "justified acc (tx_requests s) (tx_script ?tx ! ?k)" by (rule justified_script [OF a(2) k a(4) refl])
  have nx: "subseq (take (Suc ?k) (tx_script ?tx)) (tx_requests s @ [tx_script ?tx ! ?k])" by (rule script_next [OF k a(4)])
  have same: "save_of (?tx\<lparr>tx_state := st\<rparr>) = save_of ?tx" for st by (simp add: save_of_def)
  have sc: "tx_script (?tx\<lparr>tx_state := st\<rparr>) = tx_script ?tx" for st by (rule script_cong [OF same])
  show ?thesis
  proof (cases "device_settings_find_record (tx_device_id ?tx) s")
    case None
    then show ?thesis using a(1) by (simp add: submit_next_command_def Let_def fail_internal_sound [OF n])
  next
    case (Some x)
    show ?thesis
    proof (cases "dr_schema (s_records s ! x)")
      case None
      then show ?thesis using a(1) Some by (simp add: submit_next_command_def Let_def fail_internal_sound [OF n])
    next
      case schema: (Some y)
      show ?thesis
      proof (cases "tx_next_change_index ?tx < length (tx_changes ?tx)")
        case True
        have req: "tx_script ?tx ! ?k = set_request ?tx (tx_changes ?tx ! tx_next_change_index ?tx)"
          using True by (simp add: tx_script_def nth_append)
        have "tx_sound acc (tx_requests s @ [tx_script ?tx ! ?k]) (?tx\<lparr>tx_state := DS_TX_SET_SENT\<rparr>)"
          using a True nx by (simp add: tx_sound_def same sc tx_progress_def running_states_def)
        from send_or_fail_sound [OF n j this, of env] show ?thesis using a(1) Some schema True req
          by (simp add: submit_next_command_def Let_def)
      next
        case False
        with a(3) have idx: "tx_next_change_index ?tx = length (tx_changes ?tx)" by simp
        have req: "tx_script ?tx ! ?k = commit_request ?tx" using idx by (simp add: tx_script_def nth_append)
        have "tx_sound acc (tx_requests s @ [tx_script ?tx ! ?k]) (?tx\<lparr>tx_state := DS_TX_COMMIT_SENT\<rparr>)"
          using a idx nx by (simp add: tx_sound_def same sc tx_progress_def running_states_def)
        from send_or_fail_sound [OF n j this, of env] show ?thesis using a(1) Some schema False req
          by (simp add: submit_next_command_def Let_def)
      qed
    qed
  qed
qed

section \<open>Steps that leave the transactions alone\<close>

lemma view_fields [simp]:
  "tx_view (s\<lparr>s_initialized := x_initialized\<rparr>) = tx_view s" "tx_view (s\<lparr>s_records := x_records\<rparr>) = tx_view s" "tx_view (s\<lparr>s_schemas := x_schemas\<rparr>) = tx_view s"
  "tx_view (s\<lparr>s_values := x_values\<rparr>) = tx_view s" "tx_view (s\<lparr>s_diag := x_diag\<rparr>) = tx_view s" "tx_view (s\<lparr>s_schema_builder := x_schema_builder\<rparr>) = tx_view s"
  "tx_view (s\<lparr>s_schema_owner := x_schema_owner\<rparr>) = tx_view s" "tx_view (s\<lparr>s_schema_request_id := x_schema_request_id\<rparr>) = tx_view s" "tx_view (s\<lparr>s_declared_option_count := x_declared_option_count\<rparr>) = tx_view s"
  "tx_view (s\<lparr>s_values_builder := x_values_builder\<rparr>) = tx_view s" "tx_view (s\<lparr>s_values_owner := x_values_owner\<rparr>) = tx_view s" "tx_view (s\<lparr>s_values_request_id := x_values_request_id\<rparr>) = tx_view s"
  "tx_view (s\<lparr>s_values_config_revision := x_values_config_revision\<rparr>) = tx_view s" "tx_view (s\<lparr>s_next_transaction_id := x_next_transaction_id\<rparr>) = tx_view s" "tx_view (s\<lparr>s_tx_results := x_tx_results\<rparr>) = tx_view s"
  "tx_view (s\<lparr>s_ops := x_ops\<rparr>) = tx_view s" "tx_view (s\<lparr>s_next_op_id := x_next_op_id\<rparr>) = tx_view s" "tx_view (s\<lparr>s_ops_active := x_ops_active\<rparr>) = tx_view s"
  "tx_view (s\<lparr>s_ops_generation := x_ops_generation\<rparr>) = tx_view s" "tx_view (s\<lparr>s_active_op := x_active_op\<rparr>) = tx_view s" "tx_view (s\<lparr>s_running := x_running\<rparr>) = tx_view s"
  "tx_view (s\<lparr>s_retry_timer := x_retry_timer\<rparr>) = tx_view s" "tx_view (s\<lparr>s_tx_cookie := x_tx_cookie\<rparr>) = tx_view s" "tx_view (s\<lparr>s_tx_device := x_tx_device\<rparr>) = tx_view s"
  "tx_view (s\<lparr>s_queue := x_queue\<rparr>) = tx_view s" "tx_view (s\<lparr>s_metrics := x_metrics\<rparr>) = tx_view s"
  by (rule same_view; simp)+

lemma view_emit [simp]: "request_of e = [] \<Longrightarrow> answer_of e = [] \<Longrightarrow> tx_view (emit e s) = tx_view s"
  by (simp add: tx_view_def)

lemma view_if: "tx_view (if b then s else t) = (if b then tx_view s else tx_view t)"
  by simp

lemmas view_split = view_if option.case_distrib [of tx_view] split_beta Let_def

lemma view_records [simp]:
  "tx_view (upd_rec k f s) = tx_view s" "tx_view (count_diag g s) = tx_view s"
  "tx_view (fst (ds_events_init b s)) = tx_view s" "tx_view (ds_events_deinit s) = tx_view s"
  "tx_view (fst (ds_events_post ev s)) = tx_view s"
  "tx_view (publish_settings_state dev st r1 r2 s) = tx_view s" "tx_view (publish_settings_changed dev r2 s) = tx_view s"
  by (simp_all add: upd_rec_def count_diag_def ds_events_init_def ds_events_deinit_def ds_events_post_def
      publish_settings_state_def publish_settings_changed_def view_split split: option.split)

lemma view_snapshots [simp]:
  "tx_view (fst (device_settings_find_or_create_record dev s)) = tx_view s"
  "tx_view (fst (device_settings_schema_acquire lock dev s)) = tx_view s"
  "tx_view (fst (device_settings_values_acquire lock dev s)) = tx_view s"
  "tx_view (device_settings_schema_release p s) = tx_view s" "tx_view (device_settings_values_release p s) = tx_view s"
  "tx_view (fst (device_settings_commit_schema lock dev a s)) = tx_view s"
  "tx_view (fst (device_settings_commit_values lock dev a s)) = tx_view s"
  "tx_view (fst (device_settings_init mutex s)) = tx_view s"
  by (simp_all add: device_settings_find_or_create_record_def device_settings_schema_acquire_def
      device_settings_values_acquire_def device_settings_schema_release_def device_settings_values_release_def
      device_settings_commit_schema_def device_settings_commit_values_def device_settings_init_def view_split split: option.split)

lemma view_transaction_calls [simp]:
  "tx_view (reconciliation_timeout_cb i s) = tx_view s" "tx_view (on_scheduler_complete r i s) = tx_view s"
  "tx_view (fst (device_settings_tx_cancel dev s)) = tx_view s" "tx_view (publish_transaction_reconnecting dev s) = tx_view s"
  by (simp_all add: reconciliation_timeout_cb_def on_scheduler_complete_def device_settings_tx_cancel_def
      publish_transaction_reconnecting_def view_split split: option.split)

lemma view_operations [simp]:
  "tx_view (fst (alloc_op s)) = tx_view s" "tx_view (upd_op i f s) = tx_view s" "tx_view (upd_ao g s) = tx_view s"
  "tx_view (s_ops_invoke_completion slot r s) = tx_view s" "tx_view (s_ops_set_state slot st s) = tx_view s"
  "tx_view (s_ops_set_kind slot k s) = tx_view s" "tx_view (device_settings_worker_submit s) = tx_view s"
  by (simp_all add: alloc_op_def upd_op_def upd_ao_def s_ops_invoke_completion_def s_ops_set_state_def s_ops_set_kind_def
      device_settings_worker_submit_def view_split split: option.split)

lemma view_queue_op [simp]: "tx_view (fst (queue_op dev k cb ctx s)) = tx_view s"
proof -
  have "tx_view s1 = tx_view s" if "alloc_op s = (s1, x)" for s1 x using view_operations(1) [of s] that by simp
  then show ?thesis by (cases "alloc_op s") (auto simp: queue_op_def split: option.split)
qed

lemma view_requests [simp]:
  "tx_view (fst (device_settings_describe lock dev cb ctx s)) = tx_view s"
  "tx_view (fst (device_settings_get lock dev cb ctx s)) = tx_view s"
  "tx_view (fst (device_settings_cancel dev s)) = tx_view s"
  by (simp_all add: device_settings_describe_def device_settings_get_def device_settings_cancel_def view_split split: option.split)

lemma view_active [simp]:
  "tx_view (release_lease s) = tx_view s" "tx_view (finish_active r s) = tx_view s"
  "tx_view (post_command_done cr s) = tx_view s" "tx_view (post_lease_done st l s) = tx_view s"
  "tx_view (post_tx_lease_done st l s) = tx_view s" "tx_view (retry_timer_cb s) = tx_view s"
  "tx_view (fst (submit_command env s)) = tx_view s"
  by (simp_all add: release_lease_def finish_active_def post_command_done_def post_lease_done_def post_tx_lease_done_def
      retry_timer_cb_def submit_command_def view_split)

lemma view_schedule_retry [simp]: "tx_view (schedule_retry s) = tx_view s"
  by (simp add: schedule_retry_def view_split)

lemma view_submit_or_retry: "(\<And>t. tx_view (ok t) = tx_view t) \<Longrightarrow> tx_view (submit_or_retry env ok s) = tx_view s"
  by (simp add: submit_or_retry_def view_split)

lemma view_handlers [simp]:
  "tx_view (handle_start env s) = tx_view s" "tx_view (complete_read_if_ready s) = tx_view s"
  "tx_view (handle_values ev s) = tx_view s" "tx_view (handle_retry env ev s) = tx_view s"
  by (simp_all add: handle_start_def complete_read_if_ready_def handle_values_def handle_retry_def view_submit_or_retry
      view_split split: option.split)

lemma view_handle_command [simp]: "tx_view (handle_command env ev s) = tx_view s"
  by (simp add: handle_command_def view_submit_or_retry view_if split: device_command_status.split)

lemma view_cancel_device [simp]: "tx_view (cancel_device env dev s) = tx_view s"
  by (simp add: cancel_device_def view_split)

lemma view_entry_points [simp]:
  "tx_view (fst (device_settings_worker_init e q t k s)) = tx_view s" "tx_view (worker_stop_request s) = tx_view s"
  "tx_view (worker_stop_finish s) = tx_view s" "tx_view (device_settings_worker_on_disconnect d s) = tx_view s"
  "tx_view (device_settings_worker_on_values_complete d b s) = tx_view s"
  by (simp_all add: device_settings_worker_init_def worker_stop_request_def worker_stop_finish_def
      device_settings_worker_on_disconnect_def device_settings_worker_on_values_complete_def view_split split: option.split)

lemma view_capability [simp]: "tx_view (device_settings_on_capability env dev supported srev s) = tx_view s"
  by (simp add: device_settings_on_capability_def view_split split: option.split)

lemma view_streams [simp]:
  "tx_view (schema_builder_discard s) = tx_view s" "tx_view (publish_error dev k s) = tx_view s"
  "tx_view (values_builder_discard s) = tx_view s"
  by (simp_all add: schema_builder_discard_def publish_error_def values_builder_discard_def)

lemma view_rejects [simp]: "tx_view (schema_reject dev k s) = tx_view s" "tx_view (values_reject dev k s) = tx_view s"
  by (simp_all add: schema_reject_def values_reject_def view_split)

lemma view_frames [simp]:
  "tx_view (fst (schema_frame_matches dev msg s)) = tx_view s" "tx_view (fst (values_frame_matches dev msg s)) = tx_view s"
  by (simp_all add: schema_frame_matches_def values_frame_matches_def view_split split: option.split)

lemma view_settings_begin [simp]: "tx_view (handle_settings_begin env dev msg s) = tx_view s"
  by (simp add: handle_settings_begin_def view_split split: option.split)

lemma view_item [simp]: "tx_view (handle_item dev msg s) = tx_view s"
  by (simp add: handle_item_def view_split split: option.split)

lemma view_option_item [simp]: "tx_view (handle_option_item dev msg s) = tx_view s"
  by (simp add: handle_option_item_def view_split split: option.split)

lemma view_settings_end [simp]: "tx_view (handle_settings_end env dev msg s) = tx_view s"
  by (simp add: handle_settings_end_def view_split split: option.split)

lemma view_values_begin [simp]: "tx_view (handle_values_begin env dev msg s) = tx_view s"
  by (simp add: handle_values_begin_def view_split split: option.split)

lemma view_values_value [simp]: "tx_view (handle_values_value dev msg s) = tx_view s"
  by (simp add: handle_values_value_def view_split split: option.split)

lemma view_disconnect [simp]:
  "tx_view (device_settings_protocol_on_disconnect d s) = tx_view s" "tx_view (device_settings_on_disconnect lock dev s) = tx_view s"
  "tx_view (release_snapshots r s) = tx_view s"
  by (simp_all add: device_settings_protocol_on_disconnect_def device_settings_on_disconnect_def release_snapshots_def view_split
      split: option.split)

lemma view_forget [simp]: "tx_view (fst (device_settings_forget lock relock dev s)) = tx_view s"
  by (simp add: device_settings_forget_def view_split split: option.split)

lemma view_release_all [simp]: "tx_view (release_all ks s) = tx_view s"
  by (induction ks s rule: release_all.induct) simp_all

lemma view_deinit [simp]: "tx_view (device_settings_deinit s) = tx_view s"
  by (simp add: device_settings_deinit_def view_split)

section \<open>Steps that move a transaction\<close>

lemma tx_findD:
  assumes "ds_tx_find dev s = Some i"
  shows "i < length (s_txns s)" "tx_active (s_txns s ! i)" "tx_device_id (s_txns s ! i) = dev"
  using assms by (auto simp: ds_tx_find_def split: if_splits dest: find_index_SomeD)

lemma sound_tx:
  assumes "sound acc s" "i < length (s_txns s)" shows "tx_sound acc (tx_requests s) (s_txns s ! i)"
  using assms by (simp add: sound_def)

text \<open>A change of bookkeeping fields, or to a state that claims no more commands.\<close>

lemma sound_upd_tx:
  assumes "sound acc s" "i < length (s_txns s)" "tx_active (s_txns s ! i)" "tx_active (f (s_txns s ! i))"
    "save_of (f (s_txns s ! i)) = save_of (s_txns s ! i)" "tx_sound acc (tx_requests s) (f (s_txns s ! i))"
  shows "sound acc (upd_tx i f s)"
  by (rule sound_update [OF assms(1-5), of "[]"]) (use assms(6) in simp_all)

lemma found_nearly: "sound acc s \<Longrightarrow> ds_tx_find dev s = Some i \<Longrightarrow> nearly acc i s"
  by (rule nearly_sound) (auto dest: tx_findD)

lemma view_quiet_emit: "request_of e = [] \<Longrightarrow> answer_of e = [] \<Longrightarrow> nearly acc i s \<Longrightarrow> nearly acc i (emit e s)"
  by (rule nearly_view) simp_all

lemma abort_sound: "sound acc s \<Longrightarrow> sound acc (device_settings_tx_actor_abort dev s)"
  by (cases "ds_tx_find dev s")
     (simp_all add: device_settings_tx_actor_abort_def sound_complete view_quiet_emit found_nearly)

lemma asked_update [simp]:
  "save_of (tx\<lparr>tx_state := st\<rparr>) = save_of tx" "save_of (tx\<lparr>tx_lease_id := l\<rparr>) = save_of tx"
  "save_of (tx\<lparr>tx_owner_token := w\<rparr>) = save_of tx" "save_of (tx\<lparr>tx_next_change_index := k\<rparr>) = save_of tx"
  "save_of (tx\<lparr>tx_new_config_rev := v\<rparr>) = save_of tx" "save_of (tx\<lparr>tx_recon_timer := b\<rparr>) = save_of tx"
  by (simp_all add: save_of_def)

lemma script_update [simp]:
  "tx_script (tx\<lparr>tx_state := st\<rparr>) = tx_script tx" "tx_script (tx\<lparr>tx_lease_id := l\<rparr>) = tx_script tx"
  "tx_script (tx\<lparr>tx_owner_token := w\<rparr>) = tx_script tx" "tx_script (tx\<lparr>tx_next_change_index := k\<rparr>) = tx_script tx"
  "tx_script (tx\<lparr>tx_new_config_rev := v\<rparr>) = tx_script tx" "tx_script (tx\<lparr>tx_recon_timer := b\<rparr>) = tx_script tx"
  by (rule script_cong, simp)+

lemma tx_progress_update [simp]:
  "tx_progress (tx\<lparr>tx_lease_id := l\<rparr>) = tx_progress tx" "tx_progress (tx\<lparr>tx_owner_token := w\<rparr>) = tx_progress tx"
  "tx_progress (tx\<lparr>tx_new_config_rev := v\<rparr>) = tx_progress tx" "tx_progress (tx\<lparr>tx_recon_timer := b\<rparr>) = tx_progress tx"
  by (simp_all add: tx_progress_def split: ds_tx_state.split)

lemma tx_sound_update [simp]:
  "tx_sound acc reqs (tx\<lparr>tx_lease_id := l\<rparr>) = tx_sound acc reqs tx"
  "tx_sound acc reqs (tx\<lparr>tx_owner_token := w\<rparr>) = tx_sound acc reqs tx"
  "tx_sound acc reqs (tx\<lparr>tx_new_config_rev := v\<rparr>) = tx_sound acc reqs tx"
  "tx_sound acc reqs (tx\<lparr>tx_recon_timer := b\<rparr>) = tx_sound acc reqs tx"
  by (simp_all add: tx_sound_def)

text \<open>From every running state at least the BEGIN and the SETs before the index have gone out.\<close>

lemma running_ready:
  assumes "tx_sound acc reqs tx" "tx_active tx" "tx_state tx \<noteq> DS_TX_PREVALIDATING"
  shows "ready_tx acc reqs tx"
proof -
  have "1 + tx_next_change_index tx \<le> tx_progress tx"
    using assms by (auto simp: tx_sound_def running_states_def tx_progress_def)
  then show ?thesis using assms by (auto simp: tx_sound_def ready_tx_def intro: take_subseq)
qed

lemma begin_sound:
  assumes "sound acc s" shows "sound acc (device_settings_tx_actor_begin env dev w lease s)"
proof (cases "ds_tx_find dev s")
  case None
  then show ?thesis using assms by (auto simp: device_settings_tx_actor_begin_def intro: sound_view [rotated])
next
  case (Some i)
  note f = tx_findD [OF Some]
  define g where "g = (\<lambda>tx :: ds_transaction. tx\<lparr>tx_owner_token := w, tx_lease_id := lease\<rparr>)"
  let ?tx = "s_txns s ! i" let ?s1 = "upd_tx i g s" let ?s2 = "transition_tx i DS_TX_BEGIN_SENT ?s1"
  let ?r = "begin_request ?tx" let ?tx' = "(g ?tx)\<lparr>tx_state := DS_TX_BEGIN_SENT\<rparr>"
  have t: "tx_sound acc (tx_requests s) ?tx" by (rule sound_tx [OF assms f(1)])
  have r: "begin_request (s_txns ?s2 ! i) = ?r" using f(1)
    by (simp add: g_def begin_request_def tx_request_def)
  have j: "justified acc (tx_requests s) ?r"
    by (rule justified_script [of ?tx _ 0]) (use t f(2) in \<open>simp_all add: tx_sound_def tx_script_def\<close>)
  have "subseq (take (1 + tx_next_change_index ?tx) (tx_script ?tx)) (tx_requests s @ [?r])"
  proof (cases "tx_state ?tx = DS_TX_PREVALIDATING")
    case True
    then show ?thesis using t f(2) by (simp add: tx_sound_def tx_script_def subseq_singleton_left)
  next
    case False
    from running_ready [OF t f(2) this] show ?thesis by (auto simp: ready_tx_def)
  qed
  then have t': "tx_sound acc (tx_requests s @ [?r]) ?tx'"
    using t f(2) by (simp add: tx_sound_def g_def tx_progress_def running_states_def)
  let ?s3 = "fst (submit_tx_command env i ?r ?s2)"
  have v: "s_txns ?s3 = (s_txns s)[i := ?tx']" "tx_requests ?s3 = tx_requests s @ [?r]" "tx_answers ?s3 = tx_answers s"
    using f(1) by (simp_all add: submit_tx_command_def Let_def)
  have "sound acc ?s3"
    by (rule sound_update [OF assms f(1,2), of ?tx' "[?r]"]) (use f(2) t' j v in \<open>simp_all add: g_def\<close>)
  moreover from this have "nearly acc i ?s3" using f v by (intro nearly_sound) (simp_all add: g_def)
  ultimately show ?thesis using Some r
    by (auto simp: device_settings_tx_actor_begin_def Let_def split_beta g_def intro: sound_complete)
qed

lemma transition_sound:
  assumes "sound acc s" "i < length (s_txns s)" "tx_active (s_txns s ! i)"
    "tx_sound acc (tx_requests s) ((s_txns s ! i)\<lparr>tx_state := st\<rparr>)"
  shows "sound acc (transition_tx i st s)"
  by (rule sound_update [OF assms(1-3), of "(s_txns s ! i)\<lparr>tx_state := st\<rparr>" "[]"]) (use assms(3,4) in simp_all)

lemma release_tx_lease_sound:
  assumes "sound acc s" "i < length (s_txns s)" "tx_active (s_txns s ! i)" shows "sound acc (release_tx_lease i s)"
  by (rule sound_update [OF assms, of "(s_txns s ! i)\<lparr>tx_lease_id := 0\<rparr>" "[]"])
     (use assms sound_tx [OF assms(1,2)] in simp_all)

text \<open>Once COMMIT has gone out, waiting for the reboot claims nothing new.\<close>

lemma committed_sound:
  assumes "tx_sound acc reqs tx" "tx_active tx" "tx_state tx = DS_TX_COMMIT_SENT \<or> tx_state tx = DS_TX_CONFIRM_SENT"
    and "st \<in> {DS_TX_CONFIRM_SENT, DS_TX_WAITING_REBOOT}"
  shows "tx_sound acc reqs (tx\<lparr>tx_state := st\<rparr>)"
  using assms by (auto simp: tx_sound_def tx_progress_def running_states_def)

lemma mark_sound:
  assumes "sound acc s" "i < length (s_txns s)" "tx_active (s_txns s ! i)"
    and "tx_state (s_txns s ! i) = DS_TX_COMMIT_SENT \<or> tx_state (s_txns s ! i) = DS_TX_CONFIRM_SENT"
  shows "sound acc (mark_reconciliation_pending env i s)" (is ?sound)
    and "length (s_txns (mark_reconciliation_pending env i s)) = length (s_txns s)"
    and "tx_active (s_txns (mark_reconciliation_pending env i s) ! i)"
proof -
  let ?s1 = "case device_settings_find_record (tx_device_id (s_txns s ! i)) s of None \<Rightarrow> s
    | Some k \<Rightarrow> upd_rec k (\<lambda>r. r\<lparr>dr_pending_reconciliation := True, dr_reconciliation_expected_rev :=
        (if tx_new_config_rev (s_txns s ! i) \<noteq> 0 then tx_new_config_rev (s_txns s ! i) else tx_expected_config_rev (s_txns s ! i) + 1),
        dr_reconciliation_old_rev := tx_expected_config_rev (s_txns s ! i)\<rparr>) s"
  let ?s2 = "transition_tx i DS_TX_WAITING_REBOOT ?s1"
  have v: "tx_view ?s1 = tx_view s" by (simp split: option.split)
  have s1: "sound acc ?s1" by (rule sound_view [OF v assms(1)])
  have t1: "s_txns ?s1 = s_txns s" "tx_requests ?s1 = tx_requests s" using v by (simp_all add: tx_view_def)
  have "tx_sound acc (tx_requests s) ((s_txns s ! i)\<lparr>tx_state := DS_TX_WAITING_REBOOT\<rparr>)"
    by (rule committed_sound [OF sound_tx [OF assms(1,2)] assms(3,4)]) simp
  then have s2: "sound acc ?s2" by (intro transition_sound [OF s1]) (use assms t1 in simp_all)
  have t2: "length (s_txns ?s2) = length (s_txns s)" "tx_active (s_txns ?s2 ! i)" using t1 assms(2,3) by simp_all
  have e: "mark_reconciliation_pending env i s = start_reconciliation_timer env i ?s2"
    using assms(3) by (simp add: mark_reconciliation_pending_def Let_def)
  have s3: "sound acc (upd_tx i (\<lambda>tx. tx\<lparr>tx_recon_timer := True\<rparr>) ?s2)"
    by (rule sound_upd_tx [OF s2]) (use t2 assms(2) sound_tx [OF s2, of i] in simp_all)
  show ?sound unfolding e start_reconciliation_timer_def using s2 s3 by simp
  show "length (s_txns (mark_reconciliation_pending env i s)) = length (s_txns s)"
    unfolding e start_reconciliation_timer_def using t2 by simp
  show "tx_active (s_txns (mark_reconciliation_pending env i s) ! i)"
    unfolding e start_reconciliation_timer_def using t2 assms(2) by simp
qed

lemma set_ok_sound:
  assumes "sound acc s" "i < length (s_txns s)" "tx_active (s_txns s ! i)" "tx_state (s_txns s ! i) = DS_TX_SET_SENT"
  defines "g \<equiv> \<lambda>tx :: ds_transaction. tx\<lparr>tx_next_change_index := tx_next_change_index tx + 1\<rparr>"
  shows "sound acc (submit_next_command env i (publish_tx i (upd_tx i g s)))"
proof -
  let ?tx = "s_txns s ! i" let ?s1 = "upd_tx i g s"
  have t: "tx_sound acc (tx_requests s) ?tx" by (rule sound_tx [OF assms(1,2)])
  have begun: "tx_sound acc (tx_requests s) ((g ?tx)\<lparr>tx_state := DS_TX_BEGIN_SENT\<rparr>)"
    using t assms(3,4) by (simp add: tx_sound_def g_def tx_progress_def running_states_def)
  have "sound acc (upd_tx i (\<lambda>t. t\<lparr>tx_state := DS_TX_BEGIN_SENT\<rparr>) ?s1)"
    by (rule sound_update [OF assms(1-3), of "(g ?tx)\<lparr>tx_state := DS_TX_BEGIN_SENT\<rparr>" "[]"])
       (use begun assms(2,3) in \<open>simp_all add: g_def\<close>)
  then have "nearly acc i ?s1" unfolding nearly_def using assms(2,3) by (auto simp: g_def)
  then have n: "nearly acc i (publish_tx i ?s1)" by (rule nearly_view [rotated]) (simp add: tx_view_def)
  have "ready_tx acc (tx_requests s) (g ?tx)"
    using begun assms(3) by (simp add: tx_sound_def ready_tx_def g_def tx_progress_def)
  then show ?thesis by (intro submit_next_sound [OF n]) (use assms(2) in simp)
qed

lemma commit_ok_sound:
  assumes "sound acc s" "i < length (s_txns s)" "tx_active (s_txns s ! i)" "tx_state (s_txns s ! i) = DS_TX_COMMIT_SENT"
  shows "sound acc (send_or_fail env i (confirm_request (s_txns s ! i)) (transition_tx i DS_TX_CONFIRM_SENT s))"
proof -
  let ?tx = "s_txns s ! i"
  have t: "tx_sound acc (tx_requests s) ?tx" by (rule sound_tx [OF assms(1,2)])
  have "confirm_request ?tx = confirm_request ((save_of ?tx)\<lparr>tx_new_config_rev := tx_new_config_rev ?tx\<rparr>)"
    by (simp add: confirm_request_def tx_request_def save_of_def Let_def)
  moreover have "subseq (tx_script (save_of ?tx)) (tx_requests s)"
    using t assms(3,4) by (simp add: tx_sound_def tx_progress_def)
  ultimately have j: "justified acc (tx_requests s) (confirm_request ?tx)"
    using t assms(3) unfolding justified_def by (auto simp: tx_sound_def)
  have "tx_sound acc (tx_requests s) (?tx\<lparr>tx_state := DS_TX_CONFIRM_SENT\<rparr>)"
    by (rule committed_sound [OF t assms(3)]) (simp_all add: assms(4))
  then have "tx_sound acc (tx_requests s @ [confirm_request ?tx]) (?tx\<lparr>tx_state := DS_TX_CONFIRM_SENT\<rparr>)"
    by (rule tx_sound_mono) auto
  from send_or_fail_sound [OF nearly_sound [OF assms(1-3)] j this] show ?thesis .
qed

lemma count_diag_sound: "sound acc s \<Longrightarrow> sound acc (count_diag f s)"
  by (rule sound_view [rotated]) simp_all

lemma command_ok_sound:
  assumes "sound acc s" "i < length (s_txns s)" "tx_active (s_txns s ! i)"
  shows "sound acc (tx_command_ok env i r s)"
proof -
  let ?tx = "s_txns s ! i"
  have t: "tx_sound acc (tx_requests s) ?tx" by (rule sound_tx [OF assms(1,2)])
  let ?g = "\<lambda>tx. tx\<lparr>tx_new_config_rev := word_of_int (rs_int_value r)\<rparr>"
  let ?s1 = "if rs_has_int_value r then upd_tx i ?g s else s"
  have s1: "sound acc ?s1" using sound_upd_tx [OF assms, of ?g] assms(1,3) t by simp
  have commit: "sound acc (send_or_fail env i (confirm_request (s_txns ?s1 ! i)) (transition_tx i DS_TX_CONFIRM_SENT ?s1))"
    if "tx_state ?tx = DS_TX_COMMIT_SENT"
    by (rule commit_ok_sound [OF s1]) (use that assms(2,3) in simp_all)
  have begin': "sound acc (submit_next_command env i s)" if "tx_state ?tx = DS_TX_BEGIN_SENT"
    by (rule submit_next_sound [OF nearly_sound [OF assms] running_ready [OF t assms(3)]]) (simp add: that)
  show ?thesis
    using begin' set_ok_sound [OF assms, of env] commit mark_sound(1) [OF assms, of env] assms(1)
    by (simp add: tx_command_ok_def Let_def count_diag_sound)
qed

lemma ambiguous_sound:
  assumes "sound acc s" "i < length (s_txns s)" "tx_active (s_txns s ! i)"
  shows "sound acc (tx_ambiguous env i r s)"
proof -
  let ?s1 = "count_outcome_unknown s"
  have s1: "sound acc ?s1" "i < length (s_txns ?s1)" "tx_active (s_txns ?s1 ! i)"
    using assms by (simp_all add: count_outcome_unknown_def count_diag_sound)
  have "sound acc (release_tx_lease i (mark_reconciliation_pending env i ?s1))"
    if "tx_state (s_txns s ! i) = DS_TX_COMMIT_SENT \<or> tx_state (s_txns s ! i) = DS_TX_CONFIRM_SENT"
  proof -
    have "tx_state (s_txns ?s1 ! i) = DS_TX_COMMIT_SENT \<or> tx_state (s_txns ?s1 ! i) = DS_TX_CONFIRM_SENT"
      using that by (simp add: count_outcome_unknown_def)
    from mark_sound [OF s1 this, of env] show ?thesis using s1(2) by (intro release_tx_lease_sound) simp_all
  qed
  then show ?thesis using tx_fail_sound [OF nearly_sound [OF assms]] by (simp add: tx_ambiguous_def)
qed

lemma new_revision_sound:
  assumes "sound acc s" "i < length (s_txns s)" "tx_active (s_txns s ! i)"
  shows "sound acc (upd_tx i (\<lambda>tx. tx\<lparr>tx_new_config_rev := v\<rparr>) s)"
  by (rule sound_upd_tx [OF assms]) (use assms sound_tx [OF assms(1,2)] in simp_all)

lemma upd_rec_sound: "sound acc s \<Longrightarrow> sound acc (upd_rec k f s)"
  by (rule sound_view [rotated]) simp_all

lemma terminal_sound: "nearly acc i s \<Longrightarrow> sound acc (ds_tx_complete i r v (count_diag f (transition_tx i st s)))"
  by (intro sound_complete, rule nearly_view [OF _ nearly_transition]) simp_all

lemma command_complete_sound:
  assumes "sound acc s" shows "sound acc (device_settings_tx_actor_command_complete env dev r s)"
proof (cases "ds_tx_find dev s")
  case None
  then show ?thesis using assms by (simp add: device_settings_tx_actor_command_complete_def)
next
  case (Some i)
  note f = tx_findD(1,2) [OF Some] note n = nearly_sound [OF assms f]
  show ?thesis
  proof (cases r)
    case None
    then show ?thesis using Some fail_internal_sound [OF n] by (simp add: device_settings_tx_actor_command_complete_def)
  next
    case r: (Some c)
    show ?thesis
    proof (cases "tx_state (s_txns s ! i) = DS_TX_WAITING_REBOOT")
      case True
      then show ?thesis using Some r assms new_revision_sound [OF assms f]
        by (simp add: device_settings_tx_actor_command_complete_def Let_def upd_rec_sound split: option.split)
    next
      case False
      then show ?thesis using Some r
        by (cases "rs_status c")
           (simp_all add: device_settings_tx_actor_command_complete_def command_ok_sound [OF assms f]
             terminal_sound [OF n] tx_fail_sound [OF n] ambiguous_sound [OF assms f] fail_internal_sound [OF n]
             count_tx_fail_def)
    qed
  qed
qed

lemma on_disconnect_sound:
  assumes "sound acc s" shows "sound acc (fst (device_settings_tx_actor_on_disconnect env dev s))"
proof (cases "ds_tx_find dev s")
  case (Some i)
  note f = tx_findD(1,2) [OF Some]
  let ?s1 = "count_outcome_unknown s"
  have s1: "sound acc ?s1" "i < length (s_txns ?s1)" "tx_active (s_txns ?s1 ! i)" "s_txns ?s1 = s_txns s"
    using assms f by (simp_all add: count_outcome_unknown_def count_diag_sound)
  have "sound acc (release_tx_lease i (mark_reconciliation_pending env i ?s1))"
    if "tx_state (s_txns s ! i) = DS_TX_COMMIT_SENT \<or> tx_state (s_txns s ! i) = DS_TX_CONFIRM_SENT"
    using mark_sound [OF s1(1-3), of env] that s1(2,4) by (intro release_tx_lease_sound) simp_all
  then show ?thesis using Some assms f
    by (auto simp: device_settings_tx_actor_on_disconnect_def Let_def intro: release_tx_lease_sound)
qed (simp add: device_settings_tx_actor_on_disconnect_def assms)

lemma timeout_sound:
  assumes "sound acc s" shows "sound acc (device_settings_tx_actor_timeout dev s)"
proof (cases "ds_tx_find dev s")
  case (Some i)
  have "nearly acc i (count_outcome_unknown s)"
    by (rule nearly_view [OF _ found_nearly [OF assms Some]]) (simp add: count_outcome_unknown_def)
  then show ?thesis using Some abort_sound [OF assms]
    by (simp add: device_settings_tx_actor_timeout_def sound_complete)
qed (simp add: device_settings_tx_actor_timeout_def assms)

lemma resolve_sound:
  assumes "sound acc s" "i < length (s_txns s)" "tx_active (s_txns s ! i)"
  shows "sound acc (reconcile_resolve dev k i s)"
proof -
  have tx_owed: "(case tx_completion tx of None \<Rightarrow> [] | Some f \<Rightarrow> [(f, tx_context tx)]) = tx_owed tx" for tx by (simp add: tx_owed_def)
  have view: "tx_requests (publish_settings_changed dev v t) = tx_requests t"
    "tx_answers (publish_settings_changed dev v t) = tx_answers t" "s_txns (publish_settings_changed dev v t) = s_txns t" for v t
    by (simp_all add: publish_settings_changed_def)
  have diag: "s_txns (count_reconcile r t) = s_txns t" "tx_requests (count_reconcile r t) = tx_requests t"
    "tx_answers (count_reconcile r t) = tx_answers t" for r t by (simp_all add: count_reconcile_def)
  define tx' where "tx' = (if dr_config_rev (s_records s ! k) = dr_reconciliation_expected_rev (s_records s ! k)
      then (s_txns s ! i)\<lparr>tx_state := DS_TX_VERIFYING\<rparr> else s_txns s ! i)
    \<lparr>tx_recon_timer := False, tx_changes := [], tx_active := False\<rparr>"
  show ?thesis
    by (rule sound_done [OF assms, of tx'])
       (use assms(2) in \<open>simp_all add: reconcile_resolve_def Let_def view diag tx_owed tx'_def\<close>)
qed

lemma reconcile_sound:
  assumes "sound acc s" shows "sound acc (device_settings_reconcile lock dev s)"
  using assms by (auto simp: device_settings_reconcile_def upd_rec_sound split: option.split
      intro: resolve_sound tx_findD(1,2))

lemma values_committed_sound:
  assumes "sound acc s" shows "sound acc (values_committed env dev k v s)"
proof -
  let ?s2 = "device_settings_worker_on_values_complete (Some dev) True (values_builder_discard
    (count_diag (\<lambda>d. d\<lparr>dg_discovery_values_success := dg_discovery_values_success d + 1\<rparr>)
      (upd_rec k (\<lambda>r. r\<lparr>dr_values_stream_active := False\<rparr>) s)))"
  have "tx_view ?s2 = tx_view s" by simp
  from sound_view [OF this assms] have s2: "sound acc ?s2" .
  have pub: "sound acc t \<Longrightarrow> sound acc (publish_settings_changed dev v (publish_settings_state dev st v1 v2 t))" for t st v1 v2
    by (rule sound_view [rotated]) simp_all
  show ?thesis using s2 reconcile_sound [OF s2] by (simp add: values_committed_def Let_def pub)
qed

lemma values_end_sound:
  assumes "sound acc s" shows "sound acc (handle_values_end env dev msg s)"
proof -
  have quiet: "sound acc t" if "tx_view t = tx_view s" for t by (rule sound_view [OF that assms])
  show ?thesis
    by (simp add: handle_values_end_def split_beta Let_def split: option.split)
       (intro conjI allI impI; (rule values_committed_sound)?; rule quiet; simp)
qed

lemma notify_sound:
  assumes "sound acc s" shows "sound acc (fst (device_settings_on_notify env dev msg s))"
proof -
  have quiet: "sound acc t" if "tx_view t = tx_view s" for t by (rule sound_view [OF that assms])
  show ?thesis using values_end_sound [OF assms] assms
    by (auto simp: device_settings_on_notify_def split: option.split intro: quiet)
qed

lemma start_transaction_sound:
  assumes "sound acc s" shows "sound acc (start_transaction env ev s)"
proof -
  have quiet: "sound acc t" if "tx_view t = tx_view s" for t by (rule sound_view [OF that assms])
  show ?thesis by (simp add: start_transaction_def Let_def abort_sound quiet)
qed

lemma handle_lease_sound:
  assumes "sound acc s" shows "sound acc (handle_lease env ev s)"
proof -
  have quiet: "sound acc t" if "tx_view t = tx_view s" for t by (rule sound_view [OF that assms])
  show ?thesis using begin_sound [OF assms] abort_sound [OF assms] assms
    by (simp add: handle_lease_def quiet view_submit_or_retry)
qed

lemma actor_handle_sound:
  assumes "sound acc s" shows "sound acc (actor_handle env ev s)"
proof -
  have quiet: "sound acc t" if "tx_view t = tx_view s" for t by (rule sound_view [OF that assms])
  have c: "sound acc (cancel_device env dev s)" for dev by (rule quiet) simp
  show ?thesis
  proof (cases "dv_type ev")
    case DS_EVENT_DISCONNECTED
    then show ?thesis using on_disconnect_sound [OF c, of env "dv_device_id ev" "dv_device_id ev"]
      by (auto simp: actor_handle_def split_beta Let_def intro: abort_sound)
  qed (simp_all add: actor_handle_def quiet handle_lease_sound [OF assms] command_complete_sound [OF assms]
      start_transaction_sound [OF assms] abort_sound [OF assms] abort_sound [OF c] timeout_sound [OF assms])
qed

lemma actor_turn_sound:
  assumes "sound acc s" shows "sound acc (actor_turn env s)"
proof -
  have "sound acc (s\<lparr>s_queue := q\<rparr>)" for q by (rule sound_view [OF _ assms]) simp
  then show ?thesis using assms by (auto simp: actor_turn_def actor_handle_sound split: option.split list.split)
qed

section \<open>Saving\<close>

lemma sound_free_slot:
  assumes "sound acc s" "i < length (s_txns s)" "\<not> tx_active (s_txns s ! i)" "\<not> tx_active tx'"
    and "s_txns s' = (s_txns s)[i := tx']" "tx_requests s' = tx_requests s" "tx_answers s' = tx_answers s"
  shows "sound acc s'"
proof -
  have "\<forall>tx\<in>set (s_txns s'). tx_sound acc (tx_requests s') tx"
    using assms(1,4,5,6) set_update_subset_insert [of "s_txns s" i tx'] by (auto simp: sound_def tx_sound_def)
  moreover have "mset (pending (s_txns s')) = mset (pending (s_txns s))"
    using pending_update [OF assms(2), of tx'] assms(3,4,5) by (simp add: pending_def)
  ultimately show ?thesis using assms(1,6,7) by (simp add: sound_def)
qed

lemma commands_ok_mono: "commands_ok acc reqs \<Longrightarrow> set acc \<subseteq> set acc' \<Longrightarrow> commands_ok acc' reqs"
  by (auto simp: commands_ok_def intro: justified_mono)

lemma sound_accept:
  assumes "sound acc s" "i < length (s_txns s)" "\<not> tx_active (s_txns s ! i)" "tx_active tx'"
    and "tx_state tx' = DS_TX_PREVALIDATING" "tx_next_change_index tx' = 0"
    and "s_txns s' = (s_txns s)[i := tx']" "tx_requests s' = tx_requests s" "tx_answers s' = tx_answers s"
  shows "sound (acc @ [save_of tx']) s'"
proof -
  have new: "tx_sound (acc @ [save_of tx']) (tx_requests s) tx'"
    using assms(5,6) by (simp add: tx_sound_def tx_progress_def running_states_def)
  have old: "tx_sound (acc @ [save_of tx']) (tx_requests s) tx" if "tx \<in> set (s_txns s)" for tx
    by (rule tx_sound_mono [of acc "tx_requests s"]) (use assms(1) that in \<open>auto simp: sound_def\<close>)
  have "\<forall>tx\<in>set (s_txns s'). tx_sound (acc @ [save_of tx']) (tx_requests s') tx"
    using new old assms(6,7,8) set_update_subset_insert [of "s_txns s" i tx'] by auto
  moreover have "mset (pending (s_txns s')) = mset (pending (s_txns s)) + mset (tx_owed tx')"
    using pending_update [OF assms(2), of tx'] assms(3,4,7) by (simp add: pending_def)
  ultimately show ?thesis using assms(1,8,9) by (auto simp: sound_def intro: commands_ok_mono)
qed

lemma next_transaction_id_view [simp]: "s_txns (fst (next_transaction_id s)) = s_txns s"
    "tx_requests (fst (next_transaction_id s)) = tx_requests s" "tx_answers (fst (next_transaction_id s)) = tx_answers s"
  by (simp_all add: next_transaction_id_def Let_def tx_requests_def tx_answers_def)

lemma free_new_sound:
  assumes "sound acc s" "i < length (s_txns s)" "\<not> tx_active (s_txns s ! i)"
    and "s_txns t = (s_txns s)[i := tx]" "tx_requests t = tx_requests s" "tx_answers t = tx_answers s"
  shows "sound acc (ds_tx_free i t)"
  by (rule sound_free_slot [OF assms(1-3), of "tx\<lparr>tx_recon_timer := False, tx_changes := [], tx_active := False\<rparr>"])
     (use assms(2,4-6) in simp_all)

lemma diag_view: "tx_requests (s\<lparr>s_diag := d\<rparr>) = tx_requests s" "tx_answers (s\<lparr>s_diag := d\<rparr>) = tx_answers s"
  by (simp_all add: tx_requests_def tx_answers_def)

text \<open>The transaction a save has set up when it asks the actor to begin.\<close>

definition new_tx :: "string \<Rightarrow> u64 \<Rightarrow> u32 \<Rightarrow> ds_change_request list \<Rightarrow> nat option \<Rightarrow> nat \<Rightarrow> ds_transaction" where
  "new_tx dev tx_id erev changes cb ctx =
     (asked_tx dev tx_id erev changes cb ctx)\<lparr>tx_active := True, tx_state := DS_TX_PREVALIDATING\<rparr>"

lemma new_tx_asked: "save_of (new_tx dev tx_id erev changes cb ctx) = asked_tx dev tx_id erev changes cb ctx"
  by (simp add: new_tx_def save_of_def asked_tx_def)

lemma save_sound:
  assumes "sound acc s"
  shows "sound (acc @ accepted_save (SA_save env dev changes erev cb ctx) s) (fst (device_settings_save env dev changes erev cb ctx s))"
proof (cases "dev = [] \<or> changes = [] \<or> length changes > DS_TX_MAX_CHANGES \<or> ds_tx_find dev s \<noteq> None \<or>
    device_settings_find_record dev s = None")
  case True
  then show ?thesis using assms
    by (auto simp: accepted_save_def device_settings_save_def count_diag_sound split: option.split)
next
  case False
  then obtain k where k: "device_settings_find_record dev s = Some k" by auto
  show ?thesis
  proof (cases "dr_schema_state (s_records s ! k) \<noteq> DS_SCHEMA_READY \<or> dr_schema (s_records s ! k) = None")
    case True
    then show ?thesis using False k assms by (simp add: accepted_save_def device_settings_save_def)
  next
    case ready: False
    show ?thesis
    proof (cases "find_index (\<lambda>t. \<not> tx_active t) (s_txns s)")
      case None
      then show ?thesis using False k ready assms by (simp add: accepted_save_def device_settings_save_def ds_tx_alloc_def)
    next
      case (Some i)
      note f = find_index_SomeD [OF Some]
      define s1 where "s1 = upd_tx i (\<lambda>_. zero_tx\<lparr>tx_active := True\<rparr>) s"
      define s2 where "s2 = fst (next_transaction_id s1)"
      define tx_id where "tx_id = snd (next_transaction_id s1)"
      define s3 where "s3 = prepare_save i dev erev tx_id s2"
      define mem where "mem = ds_settings_alloc (length changes) (if en_changes_mem env then Some () else None) (s_diag s3)"
      define s4 where "s4 = s3\<lparr>s_diag := fst mem\<rparr>"
      define s5 where "s5 = upd_tx i (\<lambda>tx. tx\<lparr>tx_changes := changes, tx_next_change_index := 0, tx_completion := cb, tx_context := ctx\<rparr>) s4"
      define s6 where "s6 = transition_tx i DS_TX_PREVALIDATING (publish_tx i s5)"
      define invalid where "invalid = count_diag (\<lambda>d. d\<lparr>dg_tx_prevalidate_fail := dg_tx_prevalidate_fail d + 1\<rparr>) s6"
      define post where "post = ds_events_post ((device_event DS_EVENT_TRANSACTION_START dev)\<lparr>
          dv_generation := ucast tx_id, dv_owner_token := ucast tx_id\<rparr>) s6"
      have v4: "s_txns s4 = (s_txns s)[i := zero_tx\<lparr>tx_active := True, tx_device_id := strlcpy 32 dev, tx_transaction_id := tx_id,
          tx_expected_config_rev := erev\<rparr>] \<and> tx_requests s4 = tx_requests s \<and> tx_answers s4 = tx_answers s"
        using f by (simp add: s4_def s3_def s2_def s1_def prepare_save_def diag_view)
      have v6: "s_txns s6 = (s_txns s)[i := new_tx dev tx_id erev changes cb ctx] \<and> tx_requests s6 = tx_requests s \<and>
          tx_answers s6 = tx_answers s"
        using f v4 by (simp add: s6_def s5_def new_tx_def asked_tx_def zero_tx_def)
      have "tx_view (fst post) = tx_view s6" by (simp add: post_def)
      then have v7: "s_txns (fst post) = (s_txns s)[i := new_tx dev tx_id erev changes cb ctx] \<and>
          tx_requests (fst post) = tx_requests s \<and> tx_answers (fst post) = tx_answers s"
        using v6 by (simp add: tx_view_def)
      note inactive = assms f [THEN conjunct1] f [THEN conjunct2, THEN conjunct1]
      have free4: "sound acc (ds_tx_free i s4)" using v4 by (intro free_new_sound [OF inactive]) auto
      have free6: "sound acc (ds_tx_free i invalid)"
        using v6 unfolding invalid_def by (intro free_new_sound [OF inactive]) auto
      have free7: "sound acc (ds_tx_free i (fst post))" using v7 by (intro free_new_sound [OF inactive]) auto
      have "sound (acc @ [save_of (new_tx dev tx_id erev changes cb ctx)]) (fst post)"
        by (rule sound_accept [OF inactive]) (use v7 in \<open>simp_all add: new_tx_def asked_tx_def zero_tx_def\<close>)
      then have ok: "sound (acc @ [asked_tx dev tx_id erev changes cb ctx]) (fst post)" by (simp add: new_tx_asked)
      have save: "device_settings_save env dev changes erev cb ctx s =
          (if snd mem = None then (ds_tx_free i s4, ESP_ERR_NO_MEM, Some tx_id)
           else if \<not> list_all (prevalidate_change (schema_of s6 k)) changes then (ds_tx_free i invalid, ESP_ERR_INVALID_ARG, Some tx_id)
           else if \<not> snd post then (ds_tx_free i (fst post), ESP_ERR_NO_MEM, Some tx_id) else (fst post, ESP_OK, Some tx_id))"
        using False k ready Some
        by (simp add: device_settings_save_def ds_tx_alloc_def split_beta Let_def s1_def s2_def s3_def s4_def s5_def s6_def
            tx_id_def mem_def post_def invalid_def)
      show ?thesis using free4 free6 free7 ok by (simp add: accepted_save_def save)
    qed
  qed
qed

section \<open>Every run\<close>

lemma step_sound: "sound acc s \<Longrightarrow> sound (acc @ accepted_save a s) (settings_step a s)"
proof -
  assume g: "sound acc s"
  have quiet: "sound acc t" if "tx_view t = tx_view s" for t by (rule sound_view [OF that g])
  show ?thesis
  proof (cases a)
    case (SA_save env dev changes erev cb ctx)
    then show ?thesis using save_sound [OF g] by simp
  qed (simp_all add: accepted_save_def quiet notify_sound [OF g] reconcile_sound [OF g] actor_turn_sound [OF g])
qed

lemma run_sound: "sound (snd r) (fst r) \<Longrightarrow> sound (snd (settings_run as r)) (fst (settings_run as r))"
  by (induction as r rule: settings_run.induct) (simp_all add: step_sound)

lemma boot_sound: "sound [] settings_boot"
  by (auto simp: sound_def settings_boot_def tx_sound_def zero_tx_def commands_ok_def pending_def tx_requests_def tx_answers_def)

end
