(* ===== verification/Settings_Stream.thy ===== *)
theory Settings_Stream
  imports Settings_Protocol
begin

text \<open>
  What the two streams build. A description is the list of settings with their texts and options as a
  reader of the schema sees them; the builder refines it, although it stores offsets into one pool and
  spans of one array of options that move when a later option arrives.
\<close>

section \<open>Descriptions\<close>

record setting_view =
  sw_id :: string
  sw_title :: string
  sw_group :: string
  sw_unit :: string
  sw_type :: u8
  sw_flags :: u16
  sw_min :: int
  sw_max :: int
  sw_step :: u32
  sw_max_length :: u16
  sw_options :: "(u8 \<times> string) list"

definition option_view :: "ds_string_pool \<Rightarrow> ds_enum_option \<Rightarrow> u8 \<times> string" where
  "option_view pool opt = (eo_value opt, ds_string_pool_get pool (eo_label_off opt))"

definition span :: "ds_setting_desc \<Rightarrow> 'a list \<Rightarrow> 'a list" where
  "span d xs = take (sd_option_count d) (drop (sd_option_index d) xs)"

definition desc_view :: "ds_string_pool \<Rightarrow> ds_enum_option list \<Rightarrow> ds_setting_desc \<Rightarrow> setting_view" where
  "desc_view pool opts d =
     \<lparr>sw_id = ds_string_pool_get pool (sd_id_off d), sw_title = ds_string_pool_get pool (sd_title_off d),
      sw_group = ds_string_pool_get pool (sd_group_off d), sw_unit = ds_string_pool_get pool (sd_unit_off d),
      sw_type = sd_type d, sw_flags = sd_flags d, sw_min = sd_min_value d, sw_max = sd_max_value d, sw_step = sd_step d,
      sw_max_length = sd_max_length d, sw_options = map (option_view pool) (span d opts)\<rparr>"

definition schema_view :: "ds_schema \<Rightarrow> setting_view list" where
  "schema_view sc = map (desc_view (sc_strings sc) (sc_enum_options sc)) (sc_descriptors sc)"

definition builder_view :: "ds_schema_builder \<Rightarrow> setting_view list" where
  "builder_view b = map (desc_view (sb_strings b) (sb_enum_options b)) (sb_descriptors b)"

text \<open>The abstract builder: the settings so far and the bytes of text they use.\<close>

type_synonym description = "setting_view list \<times> nat"

definition text_cost :: "string \<Rightarrow> nat" where
  "text_cost str = align4 (length str + 1)"

definition builder_abs :: "ds_schema_builder \<Rightarrow> description" where
  "builder_abs b = (builder_view b, unat (pl_total_size (sb_strings b)))"

definition item_view :: "gw_message \<Rightarrow> setting_view" where
  "item_view msg =
     \<lparr>sw_id = cstr (m_setting_id msg),
      sw_title = (if cstr (m_capability_label msg) = [] then cstr (m_setting_id msg) else cstr (m_capability_label msg)),
      sw_group = (if m_has_setting_group msg then cstr (m_feature_id msg) else []),
      sw_unit = cstr (m_capability_unit msg), sw_type = m_setting_type msg,
      sw_flags = translate_wire_flags (if m_has_setting_flags msg then m_setting_flags msg else 0),
      sw_min = (if m_has_min_value msg then m_min_value msg else 0), sw_max = (if m_has_max_value msg then m_max_value msg else 0),
      sw_step = (if m_has_step msg then m_step msg else 0),
      sw_max_length = (if m_has_settings_max_length msg then m_settings_max_length msg else 0), sw_options = []\<rparr>"

definition item_cost :: "gw_message \<Rightarrow> nat" where
  "item_cost msg =
     (let v = item_view msg
      in text_cost (sw_id v) + (if cstr (m_capability_label msg) = [] then 0 else text_cost (sw_title v)) +
         (if sw_group v = [] then 0 else text_cost (sw_group v)) + (if sw_unit v = [] then 0 else text_cost (sw_unit v)))"

definition describe_item :: "gw_message \<Rightarrow> description \<Rightarrow> description option" where
  "describe_item msg dn =
     (let (views, used) = dn
      in if sw_id (item_view msg) \<in> sw_id ` set views \<or> used + item_cost msg > DEVICE_SETTINGS_MAX_STRING_POOL \<or>
            (m_has_settings_option_count msg \<and>
             (unat (m_settings_option_count msg) > DEVICE_SETTINGS_MAX_ENUM_OPTS \<or> m_setting_type msg \<noteq> DS_TYPE_ENUM)) \<or>
            length views \<ge> DEVICE_SETTINGS_MAX_SETTINGS then None
         else Some (views @ [item_view msg], used + item_cost msg))"

definition describe_option :: "nat \<Rightarrow> u8 \<Rightarrow> string \<Rightarrow> description \<Rightarrow> description option" where
  "describe_option n value label dn =
     (let (views, used) = dn; v = views ! n
      in if sw_type v \<noteq> DS_TYPE_ENUM \<or> length (sw_options v) \<ge> DEVICE_SETTINGS_MAX_ENUM_OPTS \<or>
            value \<in> fst ` set (sw_options v) \<or>
            used + text_cost label > DEVICE_SETTINGS_MAX_STRING_POOL then None
         else Some (views[n := v\<lparr>sw_options := sw_options v @ [(value, label)]\<rparr>], used + text_cost label))"

section \<open>The invariant of a builder\<close>

definition holds_some :: "ds_string_pool \<Rightarrow> u16 \<Rightarrow> bool" where
  "holds_some pool off \<longleftrightarrow> (\<exists>s. pool_holds pool off s)"

definition desc_texts_ok :: "ds_string_pool \<Rightarrow> ds_setting_desc \<Rightarrow> bool" where
  "desc_texts_ok pool d \<longleftrightarrow>
     holds_some pool (sd_id_off d) \<and> holds_some pool (sd_title_off d) \<and> holds_some pool (sd_group_off d) \<and>
     holds_some pool (sd_unit_off d)"

definition span_ok :: "nat \<Rightarrow> ds_setting_desc \<Rightarrow> bool" where
  "span_ok n d \<longleftrightarrow> sd_option_count d \<le> DEVICE_SETTINGS_MAX_ENUM_OPTS \<and>
     (sd_option_count d > 0 \<longrightarrow> sd_option_index d + sd_option_count d \<le> n)"

definition spans_apart :: "ds_setting_desc \<Rightarrow> ds_setting_desc \<Rightarrow> bool" where
  "spans_apart d e \<longleftrightarrow>
     sd_option_count d = 0 \<or> sd_option_count e = 0 \<or>
     sd_option_index d + sd_option_count d \<le> sd_option_index e \<or> sd_option_index e + sd_option_count e \<le> sd_option_index d"

definition total_options :: "ds_setting_desc list \<Rightarrow> nat" where
  "total_options ds = sum_list (map sd_option_count ds)"

definition spans_disjoint :: "ds_setting_desc list \<Rightarrow> bool" where
  "spans_disjoint ds \<longleftrightarrow> (\<forall>i < length ds. \<forall>j < length ds. i \<noteq> j \<longrightarrow> spans_apart (ds ! i) (ds ! j))"

definition builder_ok :: "ds_schema_builder \<Rightarrow> bool" where
  "builder_ok b \<longleftrightarrow>
     pool_ok (sb_strings b) \<and> pl_capacity (sb_strings b) = 512 \<and> pool_holds (sb_strings b) 0 [] \<and>
     (\<forall>d\<in>set (sb_descriptors b). desc_texts_ok (sb_strings b) d \<and> span_ok (length (sb_enum_options b)) d) \<and>
     (\<forall>opt\<in>set (sb_enum_options b). holds_some (sb_strings b) (eo_label_off opt)) \<and>
     spans_disjoint (sb_descriptors b) \<and> length (sb_enum_options b) = total_options (sb_descriptors b) \<and>
     length (sb_descriptors b) \<le> DEVICE_SETTINGS_MAX_SETTINGS"

section \<open>Texts\<close>

definition pool_le :: "ds_string_pool \<Rightarrow> ds_string_pool \<Rightarrow> bool" where
  "pool_le p p' \<longleftrightarrow> pool_ok p' \<and> pl_capacity p' = pl_capacity p \<and> (\<forall>off s. pool_holds p off s \<longrightarrow> pool_holds p' off s)"

lemma pool_leD: "pool_le p p' \<Longrightarrow> pool_holds p off s \<Longrightarrow> pool_holds p' off s"
  by (simp add: pool_le_def)

lemma pool_le_refl: "pool_ok p \<Longrightarrow> pool_le p p"
  by (simp add: pool_le_def)

lemma pool_le_trans: "pool_le p q \<Longrightarrow> pool_le q r \<Longrightarrow> pool_le p r"
  by (simp add: pool_le_def)

lemma pool_le_get: "\<lbrakk>pool_le p p'; holds_some p off\<rbrakk> \<Longrightarrow> ds_string_pool_get p' off = ds_string_pool_get p off"
  by (auto simp: holds_some_def dest: pool_holds_get pool_leD)

lemma pool_le_some: "\<lbrakk>pool_le p p'; holds_some p off\<rbrakk> \<Longrightarrow> holds_some p' off"
  by (auto simp: holds_some_def dest: pool_leD)

lemma no_nul [simp]: "CHR 0x00 \<notin> set (cstr s)"
  by (auto simp: cstr_def dest: set_takeWhileD)

definition text_added :: "ds_schema_builder \<Rightarrow> string \<Rightarrow> nat \<Rightarrow> (ds_schema_builder \<times> u16) option \<Rightarrow> bool" where
  "text_added b str cost r \<longleftrightarrow>
     (if unat (pl_total_size (sb_strings b)) + cost > 512 then r = None
      else \<exists>p' off. r = Some (b\<lparr>sb_strings := p'\<rparr>, off) \<and> pool_le (sb_strings b) p' \<and> pool_holds p' off str \<and>
             unat (pl_total_size p') = unat (pl_total_size (sb_strings b)) + cost)"

lemma pool_total_le: "\<lbrakk>pool_ok p; pl_capacity p = 512\<rbrakk> \<Longrightarrow> unat (pl_total_size p) \<le> 512"
  by (auto simp: pool_ok_def word_le_nat_alt split: option.splits)

lemma pool_add_added:
  assumes "pool_ok p" "pl_capacity p = 512" "CHR 0x00 \<notin> set str"
  shows "if unat (pl_total_size p) + text_cost str > 512 then ds_string_pool_add str p = (p, Inl ESP_ERR_NO_MEM)
         else \<exists>p' off. ds_string_pool_add str p = (p', Inr off) \<and> pool_le p p' \<and> pool_holds p' off str \<and>
                unat (pl_total_size p') = unat (pl_total_size p) + text_cost str"
proof (cases "unat (pl_total_size p) + text_cost str > 512")
  case True
  then show ?thesis using assms(2) by (simp add: ds_string_pool_add_def text_cost_def Let_def)
next
  case False
  then obtain p' off where a: "ds_string_pool_add str p = (p', Inr off)"
    using assms(2) by (auto simp: ds_string_pool_add_def text_cost_def Let_def)
  have "pool_le p p'"
    using pool_add_ok [OF assms(1) a] pool_add_keeps [OF assms(1) a] pool_add_sizes(2) [OF a] by (simp add: pool_le_def)
  moreover have "pool_holds p' off str" using pool_add_holds [OF assms(1) a assms(3)] .
  moreover have "unat (pl_total_size p') = unat (pl_total_size p) + text_cost str"
    using pool_add_sizes(3) [OF a] by (simp add: text_cost_def)
  ultimately show ?thesis using False a by auto
qed

lemma add_text_added:
  assumes "pool_ok (sb_strings b)" "pl_capacity (sb_strings b) = 512" "CHR 0x00 \<notin> set str"
  shows "text_added b str (text_cost str) (add_text str b)"
  using pool_add_added [OF assms] unfolding text_added_def add_text_def ds_schema_builder_add_string_def
  by (auto split: if_splits)

lemma add_text_if_added:
  assumes "pool_ok (sb_strings b)" "pl_capacity (sb_strings b) = 512" "CHR 0x00 \<notin> set str" "pool_holds (sb_strings b) off s0"
  shows "text_added b (if present then str else s0) (if present then text_cost str else 0) (add_text_if present str off b)"
proof (cases present)
  case True
  then show ?thesis using add_text_added [OF assms(1-3)] by (simp add: add_text_if_def)
next
  case False
  then show ?thesis
    using assms(4) pool_total_le [OF assms(1,2)] pool_le_refl [OF assms(1)]
    by (auto simp: add_text_if_def text_added_def intro!: exI [of _ "sb_strings b"])
qed

lemma text_addedE:
  assumes "text_added b str cost r"
  obtains "unat (pl_total_size (sb_strings b)) + cost > 512" "r = None"
  | p' off where "unat (pl_total_size (sb_strings b)) + cost \<le> 512" "r = Some (b\<lparr>sb_strings := p'\<rparr>, off)"
      "pool_le (sb_strings b) p'" "pool_holds p' off str" "unat (pl_total_size p') = unat (pl_total_size (sb_strings b)) + cost"
  using assms unfolding text_added_def by (auto split: if_splits)

lemma item_texts_added:
  assumes ok: "pool_ok (sb_strings b)" and cap: "pl_capacity (sb_strings b) = 512" and z: "pool_holds (sb_strings b) 0 []"
  shows "if unat (pl_total_size (sb_strings b)) + item_cost msg > 512 then item_texts msg b = None
         else \<exists>p' i t g u. item_texts msg b = Some (b\<lparr>sb_strings := p'\<rparr>, i, t, g, u) \<and> pool_le (sb_strings b) p' \<and>
                pool_holds p' i (sw_id (item_view msg)) \<and> pool_holds p' t (sw_title (item_view msg)) \<and>
                pool_holds p' g (sw_group (item_view msg)) \<and> pool_holds p' u (sw_unit (item_view msg)) \<and>
                unat (pl_total_size p') = unat (pl_total_size (sb_strings b)) + item_cost msg"
proof -
  let ?v = "item_view msg" let ?p = "sb_strings b"
  let ?gb = "m_has_setting_group msg \<and> cstr (m_feature_id msg) \<noteq> []"
  define tc where "tc = (if cstr (m_capability_label msg) \<noteq> [] then text_cost (cstr (m_capability_label msg)) else 0)"
  define gc where "gc = (if ?gb then text_cost (cstr (m_feature_id msg)) else 0)"
  define uc where "uc = (if cstr (m_capability_unit msg) \<noteq> [] then text_cost (cstr (m_capability_unit msg)) else 0)"
  have cost: "item_cost msg = text_cost (cstr (m_setting_id msg)) + tc + gc + uc"
    by (simp add: item_cost_def item_view_def Let_def tc_def gc_def uc_def)
  have sv: "sw_id ?v = cstr (m_setting_id msg)"
    "sw_title ?v = (if cstr (m_capability_label msg) \<noteq> [] then cstr (m_capability_label msg) else cstr (m_setting_id msg))"
    "sw_group ?v = (if ?gb then cstr (m_feature_id msg) else [])"
    "sw_unit ?v = (if cstr (m_capability_unit msg) \<noteq> [] then cstr (m_capability_unit msg) else [])"
    by (simp_all add: item_view_def)
  note le = pool_le_def pool_leD pool_le_trans
  from add_text_added [OF ok cap no_nul, of "m_setting_id msg"] show ?thesis
  proof (cases rule: text_addedE)
    case 1
    then show ?thesis using cost by (simp add: item_texts_def)
  next
    case (2 p1 i)
    note s1 = this
    have ok1: "pool_ok p1" "pl_capacity p1 = 512" "pool_holds p1 0 []" using s1(3) cap z by (simp_all add: pool_le_def)
    from add_text_if_added [where b = "b\<lparr>sb_strings := p1\<rparr>" and str = "cstr (m_capability_label msg)" and off = i
        and present = "cstr (m_capability_label msg) \<noteq> []" and ?s0.0 = "cstr (m_setting_id msg)"] ok1 s1
    have "text_added (b\<lparr>sb_strings := p1\<rparr>) (sw_title ?v) tc
        (add_text_if (cstr (m_capability_label msg) \<noteq> []) (cstr (m_capability_label msg)) i (b\<lparr>sb_strings := p1\<rparr>))"
      unfolding sv tc_def by simp
    then show ?thesis
    proof (cases rule: text_addedE)
      case 1
      then show ?thesis using cost s1 by (simp add: item_texts_def)
    next
      case (2 p2 t)
      note s2 = this
      have ok2: "pool_ok p2" "pl_capacity p2 = 512" "pool_holds p2 0 []" using s2(3) ok1 by (simp_all add: pool_le_def)
      from add_text_if_added [where b = "b\<lparr>sb_strings := p2\<rparr>" and str = "cstr (m_feature_id msg)" and off = 0
          and present = ?gb and ?s0.0 = "[]"] ok2
      have "text_added (b\<lparr>sb_strings := p2\<rparr>) (sw_group ?v) gc (add_text_if ?gb (cstr (m_feature_id msg)) 0 (b\<lparr>sb_strings := p2\<rparr>))"
        unfolding sv gc_def by simp
      then show ?thesis
      proof (cases rule: text_addedE)
        case 1
        then show ?thesis using cost s1 s2 by (simp add: item_texts_def)
      next
        case (2 p3 g)
        note s3 = this
        have ok3: "pool_ok p3" "pl_capacity p3 = 512" "pool_holds p3 0 []" using s3(3) ok2 by (simp_all add: pool_le_def)
        from add_text_if_added [where b = "b\<lparr>sb_strings := p3\<rparr>" and str = "cstr (m_capability_unit msg)" and off = 0
            and present = "cstr (m_capability_unit msg) \<noteq> []" and ?s0.0 = "[]"] ok3
        have "text_added (b\<lparr>sb_strings := p3\<rparr>) (sw_unit ?v) uc
            (add_text_if (cstr (m_capability_unit msg) \<noteq> []) (cstr (m_capability_unit msg)) 0 (b\<lparr>sb_strings := p3\<rparr>))"
          unfolding sv uc_def by simp
        then show ?thesis
        proof (cases rule: text_addedE)
          case 1
          then show ?thesis using cost s1 s2 s3 by (simp add: item_texts_def)
        next
          case (2 p4 u)
          have l14: "pool_le p1 p4" and l24: "pool_le p2 p4" and l34: "pool_le p3 p4" and l04: "pool_le ?p p4"
            using s1(3) s2(3) s3(3) 2(3) by (auto intro: pool_le_trans)
          have r: "item_texts msg b = Some (b\<lparr>sb_strings := p4\<rparr>, i, t, g, u)"
            using s1(2) s2(2) s3(2) 2(2) by (simp add: item_texts_def)
          have n: "unat (pl_total_size p4) = unat (pl_total_size ?p) + item_cost msg"
            using cost s1(5) s2(5) s3(5) 2(5) by simp
          have f: "\<not> unat (pl_total_size ?p) + item_cost msg > 512"
            using n pool_total_le [of p4] 2(3) ok3 by (simp add: pool_le_def)
          show ?thesis
            unfolding if_not_P [OF f] using r n l04 pool_leD [OF l14 s1(4)] pool_leD [OF l24 s2(4)] pool_leD [OF l34 s3(4)] 2(4)
            unfolding sv(1) by blast
        qed
      qed
    qed
  qed
qed

section \<open>Items\<close>

definition labels_ok :: "ds_string_pool \<Rightarrow> ds_enum_option list \<Rightarrow> bool" where
  "labels_ok pool opts \<longleftrightarrow> (\<forall>opt\<in>set opts. holds_some pool (eo_label_off opt))"

lemma set_span: "set (span d xs) \<subseteq> set xs"
  by (auto simp: span_def dest: in_set_takeD in_set_dropD)

lemma option_view_le: "\<lbrakk>pool_le p p'; labels_ok p opts; opt \<in> set opts\<rbrakk> \<Longrightarrow> option_view p' opt = option_view p opt"
  by (simp add: option_view_def labels_ok_def pool_le_get)

lemma desc_view_le:
  assumes "pool_le p p'" "desc_texts_ok p d" "labels_ok p opts"
  shows "desc_view p' opts d = desc_view p opts d"
proof -
  have "map (option_view p') (span d opts) = map (option_view p) (span d opts)"
    using set_span [of d opts] by (auto intro!: option_view_le [OF assms(1,3)])
  then show ?thesis using assms(1,2) by (simp add: desc_view_def desc_texts_ok_def pool_le_get)
qed

lemma texts_ok_le: "\<lbrakk>pool_le p p'; desc_texts_ok p d\<rbrakk> \<Longrightarrow> desc_texts_ok p' d"
  by (simp add: desc_texts_ok_def pool_le_some)

lemma labels_ok_le: "\<lbrakk>pool_le p p'; labels_ok p opts\<rbrakk> \<Longrightarrow> labels_ok p' opts"
  by (simp add: labels_ok_def pool_le_some)

lemma builder_okD:
  assumes "builder_ok b"
  shows "pool_ok (sb_strings b)" "pl_capacity (sb_strings b) = 512" "pool_holds (sb_strings b) 0 []"
    "\<And>d. d \<in> set (sb_descriptors b) \<Longrightarrow> desc_texts_ok (sb_strings b) d"
    "\<And>d. d \<in> set (sb_descriptors b) \<Longrightarrow> span_ok (length (sb_enum_options b)) d"
    "labels_ok (sb_strings b) (sb_enum_options b)" "spans_disjoint (sb_descriptors b)"
    "length (sb_enum_options b) = total_options (sb_descriptors b)" "length (sb_descriptors b) \<le> 16"
  using assms by (auto simp: builder_ok_def labels_ok_def)

lemma builder_okI:
  assumes "pool_le p (sb_strings b)" "pl_capacity p = 512" "pool_holds p 0 []"
    "\<And>d. d \<in> set (sb_descriptors b) \<Longrightarrow> desc_texts_ok (sb_strings b) d"
    "\<And>d. d \<in> set (sb_descriptors b) \<Longrightarrow> span_ok (length (sb_enum_options b)) d"
    "labels_ok (sb_strings b) (sb_enum_options b)" "spans_disjoint (sb_descriptors b)"
    "length (sb_enum_options b) = total_options (sb_descriptors b)" "length (sb_descriptors b) \<le> 16"
  shows "builder_ok b"
  using assms by (auto simp: builder_ok_def labels_ok_def pool_le_def)

lemma total_options_append [simp]: "total_options (ds @ [d]) = total_options ds + sd_option_count d"
  by (simp add: total_options_def)

lemma spans_disjoint_snoc: "\<lbrakk>spans_disjoint ds; sd_option_count d = 0\<rbrakk> \<Longrightarrow> spans_disjoint (ds @ [d])"
  by (auto simp: spans_disjoint_def nth_append spans_apart_def)

lemma item_desc_view:
  assumes "pool_holds p i (sw_id (item_view msg))" "pool_holds p t (sw_title (item_view msg))"
    "pool_holds p g (sw_group (item_view msg))" "pool_holds p u (sw_unit (item_view msg))"
  shows "desc_view p opts (item_desc msg i t g u n) = item_view msg"
  using assms [THEN pool_holds_get] by (simp add: desc_view_def item_desc_def item_view_def span_def)

lemma build_item_step:
  assumes b: "builder_ok b"
  shows "map_option builder_abs (build_item msg b) = describe_item msg (builder_abs b) \<and> pred_option builder_ok (build_item msg b)"
proof -
  note D = builder_okD [OF b]
  let ?n = "unat (pl_total_size (sb_strings b))"
  have dup: "list_ex (\<lambda>d. ds_string_pool_get (sb_strings b) (sd_id_off d) = cstr (m_setting_id msg)) (sb_descriptors b) \<longleftrightarrow>
      sw_id (item_view msg) \<in> sw_id ` set (builder_view b)"
    by (simp add: builder_view_def desc_view_def item_view_def list_ex_iff image_iff) metis
  have len: "length (builder_view b) = length (sb_descriptors b)" by (simp add: builder_view_def)
  show ?thesis
  proof (cases "?n + item_cost msg > 512")
    case True
    then have "item_texts msg b = None" using item_texts_added [OF D(1-3), of msg] by simp
    then have "build_item msg b = None" by (simp add: build_item_def)
    with True show ?thesis by (simp add: describe_item_def builder_abs_def)
  next
    case False
    then obtain p' i t g u where tx: "item_texts msg b = Some (b\<lparr>sb_strings := p'\<rparr>, i, t, g, u)"
        and le: "pool_le (sb_strings b) p'"
        and h: "pool_holds p' i (sw_id (item_view msg))" "pool_holds p' t (sw_title (item_view msg))"
          "pool_holds p' g (sw_group (item_view msg))" "pool_holds p' u (sw_unit (item_view msg))"
        and n: "unat (pl_total_size p') = ?n + item_cost msg"
      using item_texts_added [OF D(1-3), of msg] by auto
    let ?d = "item_desc msg i t g u (length (sb_enum_options b))"
    let ?b = "b\<lparr>sb_strings := p', sb_descriptors := sb_descriptors b @ [?d]\<rparr>"
    have texts: "desc_texts_ok p' ?d" using h by (auto simp: desc_texts_ok_def holds_some_def item_desc_def)
    have "map (desc_view p' (sb_enum_options b)) (sb_descriptors b) = builder_view b"
      unfolding builder_view_def using desc_view_le [OF le D(4) D(6)] by simp
    then have view: "builder_view ?b = builder_view b @ [item_view msg]"
      using item_desc_view [OF h, of "sb_enum_options b" "length (sb_enum_options b)"] by (simp add: builder_view_def)
    have ok: "builder_ok ?b" if "length (sb_descriptors b) < 16"
    proof (rule builder_okI [of "sb_strings b"])
      show "pool_le (sb_strings b) (sb_strings ?b)" using le by simp
      show "desc_texts_ok (sb_strings ?b) d" if "d \<in> set (sb_descriptors ?b)" for d
        using that texts texts_ok_le [OF le D(4)] by auto
      show "span_ok (length (sb_enum_options ?b)) d" if "d \<in> set (sb_descriptors ?b)" for d
        using that D(5) by (auto simp: span_ok_def item_desc_def)
      show "labels_ok (sb_strings ?b) (sb_enum_options ?b)" using labels_ok_le [OF le D(6)] by simp
      show "spans_disjoint (sb_descriptors ?b)" using spans_disjoint_snoc [OF D(7)] by (simp add: item_desc_def)
    qed (use D that in \<open>simp_all add: item_desc_def\<close>)
    let ?bad = "m_has_settings_option_count msg \<and> (unat (m_settings_option_count msg) > 16 \<or> m_setting_type msg \<noteq> DS_TYPE_ENUM)"
    have build: "build_item msg b =
        (if sw_id (item_view msg) \<in> sw_id ` set (builder_view b) \<or> ?bad \<or> length (sb_descriptors b) \<ge> 16 then None else Some ?b)"
      unfolding build_item_def dup tx by (auto simp: ds_schema_builder_add_setting_def)
    have spec: "describe_item msg (builder_abs b) =
        (if sw_id (item_view msg) \<in> sw_id ` set (builder_view b) \<or> ?bad \<or> length (sb_descriptors b) \<ge> 16 then None
         else Some (builder_view b @ [item_view msg], ?n + item_cost msg))"
      using False len by (simp add: describe_item_def builder_abs_def)
    show ?thesis unfolding build spec using ok view n by (auto simp: builder_abs_def not_le)
  qed
qed

section \<open>Options\<close>

text \<open>An element put into the array at \<open>a\<close>: the spans before it stay, those from \<open>a\<close> on move with their elements.\<close>

lemma take_drop_insert:
  assumes "a \<le> length xs"
  shows "i + c \<le> a \<Longrightarrow> take c (drop i (take a xs @ x # drop a xs)) = take c (drop i xs)"
    "a \<le> i \<Longrightarrow> take c (drop (Suc i) (take a xs @ x # drop a xs)) = take c (drop i xs)"
    "i + c = a \<Longrightarrow> take (Suc c) (drop i (take a xs @ x # drop a xs)) = take c (drop i xs) @ [x]"
proof -
  assume "i + c \<le> a"
  then show "take c (drop i (take a xs @ x # drop a xs)) = take c (drop i xs)"
    using assms by (simp add: take_drop min_def)
next
  assume "a \<le> i"
  then show "take c (drop (Suc i) (take a xs @ x # drop a xs)) = take c (drop i xs)"
    using assms by (simp add: Suc_diff_le drop_Cons' min_def)
next
  assume a: "i + c = a"
  then have d: "drop i (take a xs) = take c (drop i xs)" by (auto simp: drop_take)
  moreover have "length (drop i (take a xs)) = c" "i \<le> length (take a xs)" using a assms by auto
  ultimately show "take (Suc c) (drop i (take a xs @ x # drop a xs)) = take c (drop i xs) @ [x]"
    by (simp only: drop_append diff_is_0_eq' drop_0 take_append) simp
qed

definition insert_point :: "ds_setting_desc \<Rightarrow> nat \<Rightarrow> nat" where
  "insert_point p slot = (if sd_option_count p = 0 then slot else sd_option_index p + sd_option_count p)"

definition grown :: "nat \<Rightarrow> ds_setting_desc \<Rightarrow> ds_setting_desc" where
  "grown a p = p\<lparr>sd_option_index := (if sd_option_count p = 0 then a else sd_option_index p), sd_option_count := sd_option_count p + 1\<rparr>"

lemma length_shift_spans [simp]: "length (shift_spans n a ds) = length ds"
  by (simp add: shift_spans_def)

lemma nth_shift_spans:
  "j < length ds \<Longrightarrow> shift_spans n a ds ! j =
     (if j \<noteq> n \<and> sd_option_count (ds ! j) > 0 \<and> sd_option_index (ds ! j) \<ge> a
      then (ds ! j)\<lparr>sd_option_index := sd_option_index (ds ! j) + 1\<rparr> else ds ! j)"
  by (simp add: shift_spans_def nth_enumerate_eq)

lemma shift_spans_none: "(\<And>d. d \<in> set ds \<Longrightarrow> span_ok a d) \<Longrightarrow> shift_spans n a ds = ds"
proof (rule nth_equalityI)
  assume ok: "\<And>d. d \<in> set ds \<Longrightarrow> span_ok a d"
  show "shift_spans n a ds ! j = ds ! j" if "j < length (shift_spans n a ds)" for j
    using that ok [OF nth_mem, of j] by (auto simp: nth_shift_spans span_ok_def)
qed simp

lemma insert_option_eq:
  fixes b opt n
  defines "opts \<equiv> sb_enum_options b" and "ds \<equiv> sb_descriptors b"
  assumes n: "n < length ds" and ok: "\<And>d. d \<in> set ds \<Longrightarrow> span_ok (length opts) d"
  defines "a \<equiv> insert_point (ds ! n) (length opts)"
  shows "insert_option n (length opts) (b\<lparr>sb_enum_options := opts @ [opt]\<rparr>) =
         b\<lparr>sb_enum_options := take a opts @ opt # drop a opts, sb_descriptors := (shift_spans n a ds)[n := grown a (ds ! n)]\<rparr>"
proof -
  have le: "a \<le> length opts" using ok [OF nth_mem [OF n]] by (auto simp: a_def insert_point_def span_ok_def)
  show ?thesis
  proof (cases "a < length opts")
    case True
    then have "sd_option_count (ds ! n) > 0" by (auto simp: a_def insert_point_def split: if_splits)
    with True le n show ?thesis
      unfolding insert_option_def Let_def opts_def ds_def a_def insert_point_def grown_def
      by (simp add: shift_option_def nth_shift_spans)
  next
    case False
    then have a: "a = length opts" using le by simp
    have "shift_spans n a ds = ds" unfolding a using shift_spans_none ok by blast
    then show ?thesis
      using a n unfolding insert_option_def Let_def grown_def a_def insert_point_def opts_def ds_def
      by (auto split: if_splits)
  qed
qed

lemma insert_spans:
  assumes n: "n < length ds" and j: "j < length ds" and ok: "\<And>d. d \<in> set ds \<Longrightarrow> span_ok (length opts) d"
    and dis: "spans_disjoint ds"
  defines "a \<equiv> insert_point (ds ! n) (length opts)"
  shows "span ((shift_spans n a ds)[n := grown a (ds ! n)] ! j) (take a opts @ opt # drop a opts) =
         (if j = n then span (ds ! n) opts @ [opt] else span (ds ! j) opts)"
proof -
  have okn: "span_ok (length opts) (ds ! n)" "span_ok (length opts) (ds ! j)" using ok n j by simp_all
  have le: "a \<le> length opts" using okn by (auto simp: a_def insert_point_def span_ok_def)
  note ins = take_drop_insert [OF le]
  show ?thesis
  proof (cases "j = n")
    case True
    have "sd_option_index (grown a (ds ! n)) + sd_option_count (ds ! n) = a"
      by (simp add: grown_def a_def insert_point_def)
    from ins(3) [OF this] True n show ?thesis by (auto simp: span_def grown_def)
  next
    case False
    show ?thesis
    proof (cases "sd_option_count (ds ! j) > 0 \<and> sd_option_index (ds ! j) \<ge> a")
      case True
      then have e: "(shift_spans n a ds)[n := grown a (ds ! n)] ! j = (ds ! j)\<lparr>sd_option_index := Suc (sd_option_index (ds ! j))\<rparr>"
        using False j by (simp add: nth_shift_spans)
      have "take (sd_option_count (ds ! j)) (drop (Suc (sd_option_index (ds ! j))) (take a opts @ opt # drop a opts)) = span (ds ! j) opts"
        unfolding span_def using True by (intro ins(2)) simp
      with False show ?thesis unfolding e by (simp add: span_def del: take_append drop_append)
    next
      case nm: False
      have "sd_option_index (ds ! j) + sd_option_count (ds ! j) \<le> a" if "sd_option_count (ds ! j) > 0"
      proof -
        have "spans_apart (ds ! n) (ds ! j)" using dis n j False by (simp add: spans_disjoint_def)
        then show ?thesis
          using that nm okn unfolding spans_apart_def a_def insert_point_def span_ok_def by (auto split: if_splits)
      qed
      from ins(1) [OF this] have "sd_option_count (ds ! j) > 0 \<Longrightarrow> span (ds ! j) (take a opts @ opt # drop a opts) = span (ds ! j) opts"
        by (simp add: span_def del: take_append drop_append)
      with False j nm show ?thesis
        by (cases "sd_option_count (ds ! j) > 0") (auto simp: span_def nth_shift_spans simp del: take_append drop_append)
    qed
  qed
qed

lemma insert_invariants:
  assumes n: "n < length ds" and ok: "\<And>d. d \<in> set ds \<Longrightarrow> span_ok (length opts) d" and dis: "spans_disjoint ds"
    and c: "sd_option_count (ds ! n) < 16"
  defines "a \<equiv> insert_point (ds ! n) (length opts)"
  defines "ds' \<equiv> (shift_spans n a ds)[n := grown a (ds ! n)]"
  shows "\<And>d. d \<in> set ds' \<Longrightarrow> span_ok (Suc (length opts)) d" "spans_disjoint ds'" "total_options ds' = Suc (total_options ds)"
proof -
  have at: "ds' ! j = (if j = n then grown a (ds ! n)
      else if sd_option_count (ds ! j) > 0 \<and> sd_option_index (ds ! j) \<ge> a
      then (ds ! j)\<lparr>sd_option_index := sd_option_index (ds ! j) + 1\<rparr> else ds ! j)" if "j < length ds" for j
    using that by (simp add: ds'_def nth_list_update nth_shift_spans)
  have len: "length ds' = length ds" by (simp add: ds'_def)
  have le: "a \<le> length opts" using ok [OF nth_mem [OF n]] by (auto simp: a_def insert_point_def span_ok_def)
  have end_n: "sd_option_index (grown a (ds ! n)) + sd_option_count (grown a (ds ! n)) = Suc a"
    "sd_option_count (ds ! n) = 0 \<Longrightarrow> a = length opts" "sd_option_count (ds ! n) > 0 \<Longrightarrow> sd_option_index (ds ! n) + sd_option_count (ds ! n) = a"
    by (simp_all add: grown_def a_def insert_point_def)
  show "span_ok (Suc (length opts)) d" if d: "d \<in> set ds'" for d
  proof -
    from d obtain j where j: "j < length ds" "d = ds' ! j" by (metis in_set_conv_nth len)
    show ?thesis
    proof (cases "j = n")
      case True
      then show ?thesis using j at [OF j(1)] c end_n(1) le by (auto simp: span_ok_def grown_def)
    next
      case False
      with ok [OF nth_mem [OF j(1)]] j at [OF j(1)] show ?thesis by (auto simp: span_ok_def)
    qed
  qed
  have apart: "spans_apart (grown a (ds ! n)) (ds' ! j)" if "j < length ds" "j \<noteq> n" for j
  proof -
    have "spans_apart (ds ! n) (ds ! j)" using dis n that by (simp add: spans_disjoint_def)
    moreover have "span_ok (length opts) (ds ! j)" using ok that by simp
    ultimately show ?thesis
      using at [OF that(1)] that(2) end_n by (auto simp: spans_apart_def grown_def span_ok_def)
  qed
  have sym: "spans_apart d e = spans_apart e d" for d e by (auto simp: spans_apart_def)
  have pair: "spans_apart (ds' ! i) (ds' ! j)" if "i < length ds" "j < length ds" "i \<noteq> j" for i j
  proof (cases "i = n \<or> j = n")
    case True
    then show ?thesis using apart [of j] apart [of i] that at [OF n] sym by auto
  next
    case False
    have "spans_apart (ds ! i) (ds ! j)" "spans_apart (ds ! n) (ds ! i)" "spans_apart (ds ! n) (ds ! j)"
      using dis n that False by (auto simp: spans_disjoint_def)
    moreover have "span_ok (length opts) (ds ! i)" "span_ok (length opts) (ds ! j)" using ok that by simp_all
    ultimately show ?thesis
      using False at [OF that(1)] at [OF that(2)] end_n(2,3)
      by (cases "sd_option_count (ds ! n) = 0") (auto simp: spans_apart_def span_ok_def)
  qed
  then show "spans_disjoint ds'" by (simp add: spans_disjoint_def len)
  have "map sd_option_count ds' = (map sd_option_count ds)[n := Suc (map sd_option_count ds ! n)]"
    using n by (intro nth_equalityI) (auto simp: len at nth_list_update grown_def)
  then show "total_options ds' = Suc (total_options ds)"
    unfolding total_options_def using n sum_list_update [of n "map sd_option_count ds" "Suc (map sd_option_count ds ! n)"]
    by simp
qed

lemma total_options_bound:
  assumes "\<And>d. d \<in> set ds \<Longrightarrow> sd_option_count d \<le> 16" "length ds \<le> 16" "d \<in> set ds" "sd_option_count d < 16"
  shows "total_options ds < 256"
proof -
  obtain xs ys where ds: "ds = xs @ d # ys" using assms(3) by (metis split_list)
  have le: "sum_list (map sd_option_count zs) \<le> 16 * length zs" if "set zs \<subseteq> set ds" for zs
    using that assms(1) by (induction zs) (auto intro: add_mono)
  have "total_options ds \<le> 16 * length xs + sd_option_count d + 16 * length ys"
    using add_mono [OF le [of xs] le [of ys]] by (auto simp: ds total_options_def)
  also have "\<dots> < 16 * (length xs + 1 + length ys)" using assms(4) by simp
  also have "\<dots> \<le> 256" using assms(2) ds by simp
  finally show ?thesis .
qed

lemma build_option_step:
  assumes b: "builder_ok b" and n: "n < length (sb_descriptors b)" and label: "CHR 0x00 \<notin> set label"
  shows "map_option builder_abs (build_option n value label b) = describe_option n value label (builder_abs b) \<and>
         pred_option builder_ok (build_option n value label b)"
proof -
  note D = builder_okD [OF b]
  let ?p = "sb_strings b" and ?ds = "sb_descriptors b" and ?opts = "sb_enum_options b"
  let ?n = "unat (pl_total_size ?p)"
  define d where "d = ?ds ! n"
  have dn: "d \<in> set ?ds" "span_ok (length ?opts) d" using n D(5) by (simp_all add: d_def)
  have v: "builder_view b ! n = desc_view ?p ?opts d" using n by (simp add: builder_view_def d_def)
  have cnt: "length (sw_options (desc_view ?p ?opts d)) = sd_option_count d"
    using dn(2) by (auto simp: desc_view_def span_def span_ok_def)
  have dup: "list_ex (\<lambda>i. eo_value (?opts ! (sd_option_index d + i)) = value) [0..<sd_option_count d] \<longleftrightarrow>
      value \<in> fst ` set (sw_options (desc_view ?p ?opts d))"
  proof -
    have "length (span d ?opts) = sd_option_count d" using dn(2) by (auto simp: span_def span_ok_def)
    moreover have "span d ?opts ! i = ?opts ! (sd_option_index d + i)" if "i < sd_option_count d" for i
      using that dn(2) by (simp add: span_def span_ok_def)
    ultimately have "value \<in> eo_value ` set (span d ?opts) \<longleftrightarrow> (\<exists>i < sd_option_count d. eo_value (?opts ! (sd_option_index d + i)) = value)"
      by (metis (no_types, lifting) image_iff in_set_conv_nth)
    then show ?thesis by (auto simp: list_ex_iff desc_view_def option_view_def image_image)
  qed
  let ?bad = "sd_type d \<noteq> DS_TYPE_ENUM \<or> sd_option_count d \<ge> 16 \<or> value \<in> fst ` set (sw_options (desc_view ?p ?opts d))"
  have spec: "describe_option n value label (builder_abs b) =
      (if ?bad \<or> ?n + text_cost label > 512 then None
       else Some ((builder_view b)[n := (desc_view ?p ?opts d)\<lparr>sw_options := sw_options (desc_view ?p ?opts d) @ [(value, label)]\<rparr>],
                  ?n + text_cost label))"
    unfolding describe_option_def builder_abs_def Let_def case_prod_conv v cnt by (simp add: desc_view_def)
  show ?thesis
  proof (cases ?bad)
    case True
    then have "build_option n value label b = None"
      unfolding build_option_def Let_def d_def [symmetric] using dup by auto
    with True show ?thesis unfolding spec by simp
  next
    case nb: False
    have cl: "sd_option_count d < 16" using nb by simp
    have lt: "length ?opts < 256"
      using total_options_bound [OF _ D(9) dn(1) cl] D(5,8) by (auto simp: span_ok_def)
    show ?thesis
    proof (cases "?n + text_cost label > 512")
      case True
      then have "ds_string_pool_add label ?p = (?p, Inl ESP_ERR_NO_MEM)" using pool_add_added [OF D(1,2) label] by simp
      then have "build_option n value label b = None"
        using nb lt dup by (simp add: build_option_def Let_def ds_schema_builder_add_enum_option_def d_def [symmetric])
      with True show ?thesis unfolding spec by simp
    next
      case False
      then obtain p' off where add: "ds_string_pool_add label ?p = (p', Inr off)" and le: "pool_le ?p p'"
          and h: "pool_holds p' off label" and t: "unat (pl_total_size p') = ?n + text_cost label"
        using pool_add_added [OF D(1,2) label] by auto
      define opt where "opt = \<lparr>eo_value = value, eo_label_off = off\<rparr>"
      define a where "a = insert_point d (length ?opts)"
      define opts' where "opts' = take a ?opts @ opt # drop a ?opts"
      define ds' where "ds' = (shift_spans n a ?ds)[n := grown a d]"
      define b' where "b' = b\<lparr>sb_strings := p', sb_enum_options := opts', sb_descriptors := ds'\<rparr>"
      have build: "build_option n value label b = Some b'"
        using nb lt dup add insert_option_eq [of n "b\<lparr>sb_strings := p'\<rparr>" opt] n D(5)
        by (simp add: build_option_def Let_def ds_schema_builder_add_enum_option_def d_def [symmetric] b'_def opts'_def
            ds'_def a_def opt_def)
      have len: "length ds' = length ?ds" by (simp add: ds'_def)
      have sp: "span (ds' ! j) opts' = (if j = n then span d ?opts @ [opt] else span (?ds ! j) ?opts)" if "j < length ?ds" for j
        using insert_spans [OF n that D(5) D(7)] unfolding ds'_def opts'_def a_def d_def by simp
      have fields: "sd_id_off (ds' ! j) = sd_id_off (?ds ! j)" "sd_title_off (ds' ! j) = sd_title_off (?ds ! j)"
        "sd_group_off (ds' ! j) = sd_group_off (?ds ! j)" "sd_unit_off (ds' ! j) = sd_unit_off (?ds ! j)"
        "sd_type (ds' ! j) = sd_type (?ds ! j)" "sd_flags (ds' ! j) = sd_flags (?ds ! j)"
        "sd_min_value (ds' ! j) = sd_min_value (?ds ! j)" "sd_max_value (ds' ! j) = sd_max_value (?ds ! j)"
        "sd_step (ds' ! j) = sd_step (?ds ! j)" "sd_max_length (ds' ! j) = sd_max_length (?ds ! j)" if "j < length ?ds" for j
        using that n by (auto simp: ds'_def nth_list_update nth_shift_spans grown_def d_def)
      have old: "desc_view p' ?opts (?ds ! j) = desc_view ?p ?opts (?ds ! j)" if "j < length ?ds" for j
        using desc_view_le [OF le D(4) D(6)] that by simp
      have new: "option_view p' opt = (value, label)" by (simp add: option_view_def opt_def pool_holds_get [OF h])
      have view: "builder_view b' = (builder_view b)[n := (desc_view ?p ?opts d)\<lparr>sw_options := sw_options (desc_view ?p ?opts d) @ [(value, label)]\<rparr>]"
      proof (rule nth_equalityI)
        show "length (builder_view b') = length ((builder_view b)[n := (desc_view ?p ?opts d)\<lparr>sw_options := sw_options (desc_view ?p ?opts d) @ [(value, label)]\<rparr>])"
          by (simp add: builder_view_def b'_def len)
        fix j assume "j < length (builder_view b')"
        then have j: "j < length ?ds" by (simp add: builder_view_def b'_def len)
        have "builder_view b' ! j = desc_view p' opts' (ds' ! j)" using j by (simp add: builder_view_def b'_def len)
        also have "\<dots> = (if j = n then (desc_view p' ?opts d)\<lparr>sw_options := sw_options (desc_view p' ?opts d) @ [(value, label)]\<rparr>
            else desc_view p' ?opts (?ds ! j))"
          using fields [OF j] sp [OF j] new by (simp add: desc_view_def d_def)
        also have "\<dots> = (builder_view b)[n := (desc_view ?p ?opts d)\<lparr>sw_options := sw_options (desc_view ?p ?opts d) @ [(value, label)]\<rparr>] ! j"
          using j old [OF j] old [OF n] by (auto simp: builder_view_def d_def)
        finally show "builder_view b' ! j = \<dots>" .
      qed
      note iv = insert_invariants [OF n D(5) D(7) cl [unfolded d_def], folded d_def, folded a_def, folded ds'_def]
      have al: "a \<le> length ?opts" using dn(2) by (auto simp: a_def insert_point_def span_ok_def)
      have so: "set opts' = insert opt (set ?opts)"
        unfolding opts'_def by (metis append_take_drop_id list.simps(15) set_append Un_insert_right)
      have "builder_ok b'"
      proof (rule builder_okI [of ?p])
        show "pool_le ?p (sb_strings b')" using le by (simp add: b'_def)
        show "desc_texts_ok (sb_strings b') x" if "x \<in> set (sb_descriptors b')" for x
        proof -
          from that obtain j where j: "j < length ?ds" "x = ds' ! j" by (auto simp: b'_def in_set_conv_nth len)
          then show ?thesis
            using texts_ok_le [OF le D(4) [OF nth_mem [OF j(1)]]] fields [OF j(1)] by (simp add: desc_texts_ok_def b'_def)
        qed
        show "span_ok (length (sb_enum_options b')) x" if "x \<in> set (sb_descriptors b')" for x
          using iv(1) [of x] that al by (simp add: b'_def opts'_def)
        show "labels_ok (sb_strings b') (sb_enum_options b')"
          using labels_ok_le [OF le D(6)] h by (auto simp: b'_def so labels_ok_def holds_some_def opt_def)
        show "length (sb_enum_options b') = total_options (sb_descriptors b')"
          using iv(3) D(8) al by (simp add: b'_def opts'_def)
      qed (use D iv len in \<open>simp_all add: b'_def\<close>)
      with build view t False nb show ?thesis unfolding spec by (simp add: builder_abs_def b'_def)
    qed
  qed
qed

section \<open>The stream\<close>

text \<open>What a frame of an open stream with request id \<open>rid\<close> and \<open>tot\<close> settings does to the description; \<^const>\<open>None\<close> closes the stream.\<close>

definition describe_frame :: "u32 \<Rightarrow> u16 \<Rightarrow> gw_message \<Rightarrow> description \<Rightarrow> description option" where
  "describe_frame rid tot msg dn =
     (let count = length (fst dn)
      in if \<not> m_has_request_id msg \<or> m_request_id msg \<noteq> rid \<or> \<not> m_has_settings_sequence msg then None
         else if m_type msg = GW_SETTINGS_MSG_SETTINGS_ITEM
         then (if m_has_total msg \<and> m_has_setting_id msg \<and> cstr (m_setting_id msg) \<noteq> [] \<and> m_has_setting_type msg \<and>
                  DS_TYPE_BOOL \<le> m_setting_type msg \<and> m_setting_type msg \<le> DS_TYPE_ENUM \<and> m_total msg = tot \<and>
                  count < unat tot \<and> unat (m_settings_sequence msg) = count
               then describe_item msg dn else None)
         else (if m_has_settings_option_index msg \<and> cstr (m_capability_label msg) \<noteq> [] \<and> unat (m_settings_sequence msg) < count
               then describe_option (unat (m_settings_sequence msg)) (m_settings_option_index msg) (cstr (m_capability_label msg)) dn
               else None))"

fun describe_frames :: "u32 \<Rightarrow> u16 \<Rightarrow> gw_message list \<Rightarrow> description \<Rightarrow> description option" where
  "describe_frames rid tot [] dn = Some dn"
| "describe_frames rid tot (m # ms) dn = Option.bind (describe_frame rid tot m dn) (describe_frames rid tot ms)"

fun notify_all :: "ds_env \<Rightarrow> string \<Rightarrow> gw_message list \<Rightarrow> ds_state \<Rightarrow> ds_state" where
  "notify_all env dev [] s = s"
| "notify_all env dev (m # ms) s = notify_all env dev ms (fst (device_settings_on_notify env (Some dev) (Some m) s))"

definition body_frame :: "gw_message \<Rightarrow> bool" where
  "body_frame m \<longleftrightarrow> m_type m = GW_SETTINGS_MSG_SETTINGS_ITEM \<or> m_type m = GW_SETTINGS_MSG_SETTINGS_OPTION_ITEM"

definition open_builder :: "string \<Rightarrow> ds_state \<Rightarrow> ds_schema_builder option" where
  "open_builder dev s = (if s_schema_owner s = dev then s_schema_builder s else None)"

definition stream_open :: "string \<Rightarrow> nat \<Rightarrow> u32 \<Rightarrow> u16 \<Rightarrow> ds_schema_builder \<Rightarrow> ds_state \<Rightarrow> bool" where
  "stream_open dev k rid tot b s \<longleftrightarrow>
     device_settings_find_record dev s = Some k \<and> s_schema_owner s = dev \<and> s_schema_request_id s = rid \<and>
     s_schema_builder s = Some b \<and> builder_ok b \<and> dr_schema_stream_active (s_records s ! k) \<and>
     dr_staging_expected_count (s_records s ! k) = tot \<and>
     unat (dr_staging_received_count (s_records s ! k)) = length (sb_descriptors b)"

lemma publish_fields [simp]:
  "s_records (publish_settings_state d x a b s) = s_records s" "s_schemas (publish_settings_state d x a b s) = s_schemas s"
  "s_schema_owner (publish_settings_state d x a b s) = s_schema_owner s" "s_diag (publish_settings_state d x a b s) = s_diag s"
  "s_schema_builder (publish_settings_state d x a b s) = s_schema_builder s"
  "s_schema_request_id (publish_settings_state d x a b s) = s_schema_request_id s"
  by (simp_all add: publish_settings_state_def)

lemma schema_reject_closes:
  assumes "stream_open dev k rid tot b s"
  shows "s_schema_owner (schema_reject dev k s) = []" "s_schemas (schema_reject dev k s) = s_schemas s"
    "dg_discovery_schema_success (s_diag (schema_reject dev k s)) = dg_discovery_schema_success (s_diag s)"
  using assms by (simp_all add: stream_open_def schema_reject_def publish_error_def schema_builder_discard_def)

lemma frame_matches_open:
  assumes "stream_open dev k rid tot b s"
  shows "schema_frame_matches dev msg s =
    (if m_has_request_id msg \<and> m_request_id msg = rid then (s, Some k) else (schema_reject dev k s, None))"
  using assms find_recordD(4) by (auto simp: stream_open_def schema_frame_matches_def)

lemma builder_abs_count: "length (fst (builder_abs b)) = length (sb_descriptors b)"
  by (simp add: builder_abs_def builder_view_def)

lemma build_item_count: "build_item msg b = Some b' \<Longrightarrow> length (sb_descriptors b') = Suc (length (sb_descriptors b))"
  unfolding build_item_def item_texts_def add_text_def add_text_if_def ds_schema_builder_add_string_def ds_schema_builder_add_setting_def
  by (auto split: if_splits option.splits prod.splits sum.splits)

lemma build_option_count: "build_option n v l b = Some b' \<Longrightarrow> length (sb_descriptors b') = length (sb_descriptors b)"
  unfolding build_option_def insert_option_def ds_schema_builder_add_enum_option_def Let_def
  by (auto split: if_splits option.splits prod.splits sum.splits)

lemma frame_step:
  fixes env
  assumes open': "stream_open dev k rid tot b s" and body: "body_frame msg"
  defines "t \<equiv> fst (device_settings_on_notify env (Some dev) (Some msg) s)"
  shows "case describe_frame rid tot msg (builder_abs b) of
           None \<Rightarrow> s_schema_owner t = []
         | Some dn \<Rightarrow> \<exists>b'. stream_open dev k rid tot b' t \<and> builder_abs b' = dn"
proof -
  note O = open' [unfolded stream_open_def]
  have b: "builder_ok b" using O by simp
  have seq: "m_settings_sequence msg = dr_staging_received_count (s_records s ! k) \<longleftrightarrow>
      unat (m_settings_sequence msg) = length (sb_descriptors b)"
    "m_settings_sequence msg \<ge> dr_staging_received_count (s_records s ! k) \<longleftrightarrow>
      unat (m_settings_sequence msg) \<ge> length (sb_descriptors b)"
    "dr_staging_received_count (s_records s ! k) \<ge> tot \<longleftrightarrow> length (sb_descriptors b) \<ge> unat tot"
    using O by (auto simp: word_le_nat_alt word_unat_eq_iff)
  have rej: "s_schema_owner (schema_reject dev k s) = []" using schema_reject_closes [OF open'] by simp
  have bump: "stream_open dev k rid tot b' (upd_rec k (\<lambda>r. r\<lparr>dr_staging_received_count := dr_staging_received_count r + 1\<rparr>)
      (s\<lparr>s_schema_builder := Some b', s_declared_option_count := dc\<rparr>))"
    if "builder_ok b'" "length (sb_descriptors b') = Suc (length (sb_descriptors b))" for b' dc
  proof -
    have k: "k < length (s_records s)" using find_recordD(1) O by blast
    have "unat (dr_staging_received_count (s_records s ! k) + 1) = Suc (length (sb_descriptors b))"
      using O that builder_okD(9) [OF that(1)] by (simp add: unat_plus_if')
    moreover have "device_settings_find_record dev (upd_rec k (\<lambda>r. r\<lparr>dr_staging_received_count := dr_staging_received_count r + 1\<rparr>)
        (s\<lparr>s_schema_builder := Some b', s_declared_option_count := dc\<rparr>)) = Some k"
      using O find_record_cong [of "s\<lparr>s_schema_builder := Some b', s_declared_option_count := dc\<rparr>" s] by (subst find_record_upd) simp_all
    ultimately show ?thesis using O that k by (simp add: stream_open_def)
  qed
  show ?thesis
  proof (cases "m_type msg = GW_SETTINGS_MSG_SETTINGS_ITEM")
    case True
    then have t: "t = handle_item dev msg s"
      by (simp add: t_def device_settings_on_notify_def GW_SETTINGS_MSG_SETTINGS_ITEM_def GW_SETTINGS_MSG_SETTINGS_BEGIN_def)
    show ?thesis
    proof (cases "describe_frame rid tot msg (builder_abs b)")
      case None
      with build_item_step [OF b, of msg] have "t = schema_reject dev k s"
        unfolding t handle_item_def frame_matches_open [OF open'] describe_frame_def builder_abs_count Let_def
        using True O seq by (auto simp: not_le not_less split: if_splits option.splits)
      with None rej show ?thesis by simp
    next
      case (Some dn)
      then have g: "m_has_request_id msg" "m_request_id msg = rid" "m_has_settings_sequence msg" "m_has_total msg" "m_has_setting_id msg"
          "cstr (m_setting_id msg) \<noteq> []" "m_has_setting_type msg" "DS_TYPE_BOOL \<le> m_setting_type msg" "m_setting_type msg \<le> DS_TYPE_ENUM"
          "m_total msg = tot" "length (sb_descriptors b) < unat tot" "unat (m_settings_sequence msg) = length (sb_descriptors b)"
          "describe_item msg (builder_abs b) = Some dn"
        using True unfolding describe_frame_def builder_abs_count Let_def by (auto split: if_splits)
      from build_item_step [OF b, of msg] g(13) obtain b' where b': "build_item msg b = Some b'" "builder_abs b' = dn" "builder_ok b'"
        by (cases "build_item msg b") auto
      define dc where "dc = (if m_has_settings_option_count msg
          then (s_declared_option_count s)[unat (m_settings_sequence msg) := ucast (m_settings_option_count msg)]
          else s_declared_option_count s)"
      have "t = upd_rec k (\<lambda>r. r\<lparr>dr_staging_received_count := dr_staging_received_count r + 1\<rparr>)
              (s\<lparr>s_schema_builder := Some b', s_declared_option_count := dc\<rparr>)"
        unfolding t handle_item_def frame_matches_open [OF open'] Let_def
        using g b' O seq by (auto simp: not_less not_le dc_def)
      with Some b' bump [OF b'(3) build_item_count [OF b'(1)]] show ?thesis by auto
    qed
  next
    case False
    then have o: "m_type msg = GW_SETTINGS_MSG_SETTINGS_OPTION_ITEM" using body by (simp add: body_frame_def)
    then have t: "t = handle_option_item dev msg s"
      by (simp add: t_def device_settings_on_notify_def GW_SETTINGS_MSG_SETTINGS_ITEM_def GW_SETTINGS_MSG_SETTINGS_BEGIN_def
          GW_SETTINGS_MSG_SETTINGS_OPTION_ITEM_def)
    let ?n = "unat (m_settings_sequence msg)"
    show ?thesis
    proof (cases "describe_frame rid tot msg (builder_abs b)")
      case None
      have "t = schema_reject dev k s"
      proof (cases "?n < length (sb_descriptors b)")
        case True
        with None build_option_step [OF b True no_nul, of "m_settings_option_index msg" "m_capability_label msg"] False show ?thesis
          unfolding t handle_option_item_def frame_matches_open [OF open'] describe_frame_def builder_abs_count Let_def
          using O seq by (auto simp: not_le not_less split: if_splits option.splits)
      next
        case n: False
        with None False show ?thesis
          unfolding t handle_option_item_def frame_matches_open [OF open'] describe_frame_def builder_abs_count Let_def
          using O seq by (auto simp: not_le not_less split: if_splits option.splits)
      qed
      with None rej show ?thesis by simp
    next
      case (Some dn)
      then have g: "m_has_request_id msg" "m_request_id msg = rid" "m_has_settings_sequence msg" "m_has_settings_option_index msg"
          "cstr (m_capability_label msg) \<noteq> []" "?n < length (sb_descriptors b)"
          "describe_option ?n (m_settings_option_index msg) (cstr (m_capability_label msg)) (builder_abs b) = Some dn"
        using False unfolding describe_frame_def builder_abs_count Let_def by (auto split: if_splits)
      from build_option_step [OF b g(6) no_nul, of "m_settings_option_index msg" "m_capability_label msg"] g(7)
      obtain b' where b': "build_option ?n (m_settings_option_index msg) (cstr (m_capability_label msg)) b = Some b'"
          "builder_abs b' = dn" "builder_ok b'"
        by (cases "build_option ?n (m_settings_option_index msg) (cstr (m_capability_label msg)) b") auto
      have "t = s\<lparr>s_schema_builder := Some b'\<rparr>"
        unfolding t handle_option_item_def frame_matches_open [OF open'] Let_def
        using g b' O seq by (auto simp: not_le)
      with Some b' O build_option_count [OF b'(1)] show ?thesis
        by (auto simp: stream_open_def device_settings_find_record_def)
    qed
  qed
qed

lemma begin_opens:
  assumes idle: "s_schema_owner s = []" and len: "length dev < GW_MSG_DEVICE_ID_LEN" and ty: "m_type m = GW_SETTINGS_MSG_SETTINGS_BEGIN"
    and t: "t = fst (device_settings_on_notify env (Some dev) (Some m) s)" and op: "s_schema_owner t \<noteq> []"
  obtains k b where "stream_open dev k (m_request_id m) (m_total m) b t" "builder_abs b = ([], 4)"
proof -
  have tb: "t = handle_settings_begin env dev m s" using t ty by (simp add: device_settings_on_notify_def)
  have g: "m_protocol_version m = GW_PROTOCOL_VERSION" "m_command m = GW_SETTINGS_CMD_DESCRIBE_SETTINGS" "m_has_request_id m"
      "m_has_total m" "unat (m_total m) \<le> DEVICE_SETTINGS_MAX_SETTINGS"
    using op idle unfolding tb handle_settings_begin_def by (auto split: if_splits)
  obtain s1 k where c: "device_settings_find_or_create_record dev s = (s1, Some k)"
    using op idle unfolding tb handle_settings_begin_def device_settings_find_or_create_record_def upd_rec_def
    by (fastforce split: if_splits option.splits)
  have rec: "device_settings_find_record dev s1 = Some k" by (rule find_or_create_record [OF c len])
  note R = find_recordD [OF rec]
  have own: "s_schema_owner s1 = []"
    using c idle by (auto simp: device_settings_find_or_create_record_def upd_rec_def split: option.splits if_splits)
  have fail: "s_schema_owner (publish_error dev k (count_diag g (upd_rec k f (schema_builder_discard x)))) = []" for g f x
    by (simp add: publish_error_def schema_builder_discard_def)
  obtain d b where nb: "new_builder env (s_diag s1) = (d, Some b)"
    using op c fail own idle unfolding tb handle_settings_begin_def
    by (cases "new_builder env (s_diag s1)"; cases "snd (new_builder env (s_diag s1))") (auto split: if_splits)
  then obtain mem where b: "b = zero_schema_builder\<lparr>sb_strings := new_pool mem\<rparr>"
    unfolding new_builder_def ds_schema_builder_init_def ds_settings_alloc_def by (auto split: option.splits if_splits prod.splits)
  define rev where "rev = (if m_has_settings_schema_revision m then ucast (m_settings_schema_revision m)
                else ucast (dr_advertised_schema_rev (s_records s1 ! k)) :: u32)"
  define b' where "b' = b\<lparr>sb_schema_revision := rev\<rparr>"
  have ok: "builder_ok b'"
    using new_pool_ok [of mem]
    by (simp add: builder_ok_def b'_def b zero_schema_builder_def spans_disjoint_def total_options_def) (simp add: new_pool_def)
  have abs: "builder_abs b' = ([], 4)"
    by (simp add: builder_abs_def builder_view_def b'_def b zero_schema_builder_def new_pool_def)
  let ?s2 = "s1\<lparr>s_diag := d, s_schema_builder := Some b', s_schema_owner := dev, s_schema_request_id := m_request_id m,
       s_declared_option_count := replicate DEVICE_SETTINGS_MAX_SETTINGS 255\<rparr>"
  let ?f = "\<lambda>r. r\<lparr>dr_schema_state := DS_SCHEMA_DISCOVERING, dr_schema_stream_active := True,
       dr_staging_expected_count := m_total m, dr_staging_received_count := 0\<rparr>"
  have tt: "t = publish_settings_state dev GW_SETTINGS_EVENT_STATE_DISCOVERING rev (dr_config_rev (s_records (upd_rec k ?f ?s2) ! k)) (upd_rec k ?f ?s2)"
    using g c nb len idle by (simp add: tb handle_settings_begin_def b'_def rev_def Let_def)
  have "device_settings_find_record dev (upd_rec k ?f ?s2) = Some k"
    using rec find_record_cong [of ?s2 s1] by (subst find_record_upd) simp_all
  then have "device_settings_find_record dev t = Some k"
    unfolding tt using find_record_cong [OF publish_fields(1)] by metis
  then have "stream_open dev k (m_request_id m) (m_total m) b' t"
    using ok R(1) unfolding stream_open_def by (simp add: tt b'_def b zero_schema_builder_def)
  with abs show ?thesis using that by blast
qed

lemma closed_stays: "\<lbrakk>s_schema_owner s = []; body_frame m\<rbrakk> \<Longrightarrow> fst (device_settings_on_notify env (Some dev) (Some m) s) = s"
  unfolding body_frame_def device_settings_on_notify_def
  by (auto simp: handle_item_def handle_option_item_def schema_frame_matches_def GW_SETTINGS_MSG_SETTINGS_ITEM_def
      GW_SETTINGS_MSG_SETTINGS_OPTION_ITEM_def GW_SETTINGS_MSG_SETTINGS_BEGIN_def split: option.splits)

lemma closed_stays_all: "\<lbrakk>s_schema_owner s = []; list_all body_frame ms\<rbrakk> \<Longrightarrow> notify_all env dev ms s = s"
  by (induction ms) (simp_all add: closed_stays)

lemma frames_step:
  "\<lbrakk>stream_open dev k rid tot b s; list_all body_frame ms\<rbrakk> \<Longrightarrow>
    case describe_frames rid tot ms (builder_abs b) of
      None \<Rightarrow> s_schema_owner (notify_all env dev ms s) = []
    | Some dn \<Rightarrow> \<exists>b'. stream_open dev k rid tot b' (notify_all env dev ms s) \<and> builder_abs b' = dn"
proof (induction ms arbitrary: b s)
  case Nil
  then show ?case by auto
next
  case (Cons m ms)
  let ?t = "fst (device_settings_on_notify env (Some dev) (Some m) s)"
  have body: "body_frame m" "list_all body_frame ms" using Cons.prems by simp_all
  note step = frame_step [OF Cons.prems(1) body(1), of env]
  show ?case
  proof (cases "describe_frame rid tot m (builder_abs b)")
    case None
    with step closed_stays_all [OF _ body(2), of ?t env dev] show ?thesis by simp
  next
    case (Some dn)
    with step obtain b' where "stream_open dev k rid tot b' ?t" "builder_abs b' = dn" by auto
    from Cons.IH [OF this(1) body(2)] this(2) Some show ?thesis by (auto split: option.splits)
  qed
qed

lemma frames_from_begin:
  assumes "s_schema_owner s = []" "length dev < GW_MSG_DEVICE_ID_LEN" "m_type m = GW_SETTINGS_MSG_SETTINGS_BEGIN"
    "t = fst (device_settings_on_notify env (Some dev) (Some m) s)" "s_schema_owner t \<noteq> []" "list_all body_frame ms"
  shows "case describe_frames (m_request_id m) (m_total m) ms ([], 4) of
           None \<Rightarrow> s_schema_owner (notify_all env dev ms t) = []
         | Some dn \<Rightarrow> \<exists>k b. stream_open dev k (m_request_id m) (m_total m) b (notify_all env dev ms t) \<and> builder_abs b = dn"
proof -
  obtain k b where o: "stream_open dev k (m_request_id m) (m_total m) b t" "builder_abs b = ([], 4)"
    using begin_opens [OF assms(1-5)] .
  from frames_step [OF o(1) assms(6), of env] o(2) show ?thesis by (auto split: option.splits)
qed

definition committed :: "string \<Rightarrow> ds_state \<Rightarrow> ds_schema option" where
  "committed dev s = Option.bind (device_settings_find_record dev s) (schema_of s)"

definition fresh_snapshot :: "ds_env \<Rightarrow> ds_state \<Rightarrow> bool" where
  "fresh_snapshot env s \<longleftrightarrow>
     (case en_snapshot_mem env of
        None \<Rightarrow> True
      | Some a \<Rightarrow> s_schemas s a = None \<and> (\<forall>r\<in>set (s_records s). dr_schema r \<noteq> Some a))"

lemma end_commits:
  fixes env
  assumes o: "stream_open dev k rid tot b s" and ty: "m_type m = GW_SETTINGS_MSG_SETTINGS_END" and fresh: "fresh_snapshot env s"
  defines "t \<equiv> fst (device_settings_on_notify env (Some dev) (Some m) s)"
  assumes ok: "dg_discovery_schema_success (s_diag t) \<noteq> dg_discovery_schema_success (s_diag s)"
  shows "map_option schema_view (committed dev t) = Some (builder_view b)"
proof -
  note O = o [unfolded stream_open_def]
  have k: "k < length (s_records s)" "dev \<noteq> []" using O find_recordD by blast+
  have te: "t = handle_settings_end env dev m s"
    using ty by (simp add: t_def device_settings_on_notify_def GW_SETTINGS_MSG_SETTINGS_ITEM_def GW_SETTINGS_MSG_SETTINGS_BEGIN_def
        GW_SETTINGS_MSG_SETTINGS_OPTION_ITEM_def GW_SETTINGS_MSG_SETTINGS_END_def)
  have rej: "dg_discovery_schema_success (s_diag (schema_reject dev k x)) = dg_discovery_schema_success (s_diag x)" for x
    by (simp add: schema_reject_def publish_error_def schema_builder_discard_def)
  have al: "dg_discovery_schema_success d' = dg_discovery_schema_success (s_diag s)"
    if "ds_schema_builder_commit mem b (s_diag s) (s_schemas s) = (b', d', h, r)" for mem b' d' h r
    using that by (auto simp: ds_schema_builder_commit_def alloc_with_refcount_def ds_settings_alloc_def Let_def split: option.splits prod.splits)
  have same: "s_diag (fst (device_settings_commit_schema l dev a x)) = s_diag x" for l a x
    by (auto simp: device_settings_commit_schema_def Let_def split: option.splits)
  have guards: "m_has_request_id m \<and> m_request_id m = rid" "m_has_total m" "m_total m = tot"
      "dr_staging_received_count (s_records s ! k) = tot" "option_counts_ok (s_declared_option_count s) (sb_descriptors b)"
    using ok O rej schema_reject_closes(3) [OF o]
    unfolding te handle_settings_end_def frame_matches_open [OF o] Let_def by (auto split: if_splits)
  obtain b' d h r where c: "ds_schema_builder_commit (en_snapshot_mem env) b (s_diag s) (s_schemas s) = (b', d, h, r)"
    by (metis prod_cases4)
  define s2 where "s2 = s\<lparr>s_schema_builder := Some b', s_diag := d, s_schemas := h\<rparr>"
  have t1: "t = (case r of None \<Rightarrow> schema_reject dev k (s\<lparr>s_diag := d\<rparr>) | Some a \<Rightarrow>
      (let (s3, err) = device_settings_commit_schema (en_lock env) dev a s2
       in if err \<noteq> ESP_OK then schema_reject dev k (s3\<lparr>s_schemas := ds_settings_ref_release (Some a) (s_schemas s3)\<rparr>)
          else publish_settings_state dev GW_SETTINGS_EVENT_STATE_READING (sb_schema_revision b) (dr_config_rev (s_records s3 ! k))
            (schema_builder_discard (count_diag (\<lambda>d. d\<lparr>dg_discovery_schema_success := dg_discovery_schema_success d + 1\<rparr>)
               (upd_rec k (\<lambda>r. r\<lparr>dr_schema_stream_active := False\<rparr>) s3)))))"
    using guards O unfolding te handle_settings_end_def frame_matches_open [OF o] s2_def
    by (simp add: c split: option.splits)
  obtain a where r: "r = Some a" using ok al [OF c] t1 rej by (cases r) simp_all
  obtain s3 err where s3: "device_settings_commit_schema (en_lock env) dev a s2 = (s3, err)" by fastforce
  have d3: "s_diag s3 = d" using same [of "en_lock env" a s2] s3 by (simp add: s2_def)
  have err: "err = ESP_OK" using ok al [OF c] t1 rej r s3 d3 by (cases "err = ESP_OK") simp_all
  have rec2: "device_settings_find_record dev s2 = Some k"
    using O find_record_cong [of s2 s] by (simp add: s2_def)
  let ?f = "\<lambda>r. r\<lparr>dr_schema := Some a, dr_schema_rev := (case object_at h a of None \<Rightarrow> 0 | Some x \<Rightarrow> sc_schema_revision x),
      dr_schema_state := DS_SCHEMA_READY\<rparr>"
  have s3': "s3 = (upd_rec k ?f s2)\<lparr>s_schemas := ds_settings_ref_release (dr_schema (s_records s ! k)) h\<rparr>"
    using s3 err rec2 k(2) unfolding device_settings_commit_schema_def by (auto simp: s2_def Let_def split: if_splits)
  have a: "en_snapshot_mem env = Some a"
    and h: "h = (s_schemas s)(a \<mapsto> \<lparr>rf_refcount = 1, rf_object = \<lparr>sc_schema_revision = sb_schema_revision b,
        sc_descriptors = sb_descriptors b, sc_enum_options = sb_enum_options b, sc_strings = sb_strings b\<rparr>\<rparr>)"
    using c r by (auto simp: ds_schema_builder_commit_def alloc_with_refcount_def ds_settings_alloc_def Let_def split: option.splits prod.splits)
  have old: "dr_schema (s_records s ! k) \<noteq> Some a" using fresh a k(1) by (simp add: fresh_snapshot_def)
  define t2 where "t2 = count_diag (\<lambda>d. d\<lparr>dg_discovery_schema_success := dg_discovery_schema_success d + 1\<rparr>)
               (upd_rec k (\<lambda>r. r\<lparr>dr_schema_stream_active := False\<rparr>) s3)"
  have tr: "s_records t = s_records t2" "s_schemas t = s_schemas t2"
    using t1 r s3 err by (simp_all add: t2_def schema_builder_discard_def)
  have "device_settings_find_record dev (upd_rec k ?f s2) = Some k" using rec2 by (subst find_record_upd) simp_all
  then have "device_settings_find_record dev s3 = Some k" using find_record_cong [of s3 "upd_rec k ?f s2"] by (simp add: s3')
  then have "device_settings_find_record dev (upd_rec k (\<lambda>r. r\<lparr>dr_schema_stream_active := False\<rparr>) s3) = Some k"
    by (subst find_record_upd) simp_all
  then have rt: "device_settings_find_record dev t = Some k"
    using find_record_cong [of t "upd_rec k (\<lambda>r. r\<lparr>dr_schema_stream_active := False\<rparr>) s3"] tr(1) by (simp add: t2_def)
  have "dr_schema (s_records t ! k) = Some a" unfolding tr using k(1) by (simp add: t2_def s3' s2_def)
  moreover have "object_at (s_schemas t) a = object_at h a"
    unfolding tr using old by (simp add: t2_def s3' ds_settings_ref_release_def ref_ops_object(3))
  ultimately show ?thesis
    using rt by (auto simp: committed_def schema_of_def h object_at_def schema_view_def builder_view_def)
qed

section \<open>The properties of the schema stream\<close>

text \<open>
  C6. A stream of settings frames builds what it describes. After a \<open>settings_begin\<close> that opened the stream,
  any sequence of item and option frames of the device leaves a builder whose settings, texts and options
  are those of the abstract description, with as many bytes of text used, and the stream is closed exactly
  when the description rejects a frame: options may come in any order among the settings, although they
  share one array in which they move, and texts share one pool.
\<close>

theorem schema_stream_refines_description:
  assumes "s_schema_owner s = []" "length dev < GW_MSG_DEVICE_ID_LEN" "m_type m = GW_SETTINGS_MSG_SETTINGS_BEGIN"
    "s_schema_owner (notify_all env dev [m] s) \<noteq> []" "list_all body_frame ms"
  shows "map_option builder_abs (open_builder dev (notify_all env dev (m # ms) s)) =
         describe_frames (m_request_id m) (m_total m) ms ([], 4)"
proof -
  define t where "t = fst (device_settings_on_notify env (Some dev) (Some m) s)"
  have op: "s_schema_owner t \<noteq> []" using assms(4) by (simp add: t_def)
  obtain k b where o: "stream_open dev k (m_request_id m) (m_total m) b t"
    using begin_opens [OF assms(1-3) t_def op] by blast
  then have "dev \<noteq> []" using op by (simp add: stream_open_def)
  then show ?thesis
    using frames_from_begin [OF assms(1-3) t_def op assms(5)]
    by (auto simp: open_builder_def stream_open_def simp flip: t_def split: option.splits)
qed


text \<open>A device with two settings, the second an enum with options that come around it.\<close>

definition settings_demo_env :: ds_env where
  "settings_demo_env = \<lparr>en_submit = ESP_OK, en_acquire = ESP_OK, en_timer_created = True, en_timer_started = True, en_lock = True,
     en_relock = True, en_changes_mem = True, en_builder_mem = True, en_pool_mem = Some (\<lambda>_. CHR 0x00), en_snapshot_mem = Some 7\<rparr>"

lemma end_succeeds:
  assumes o: "stream_open dev k rid tot b s" and ty: "m_type m = GW_SETTINGS_MSG_SETTINGS_END"
    and m: "m_has_request_id m" "m_request_id m = rid" "m_has_total m" "m_total m = tot" "length (sb_descriptors b) = unat tot"
    and dc: "option_counts_ok (s_declared_option_count s) (sb_descriptors b)" and env: "en_lock env" "en_snapshot_mem env = Some a"
  shows "dg_discovery_schema_success (s_diag (fst (device_settings_on_notify env (Some dev) (Some m) s))) =
         dg_discovery_schema_success (s_diag s) + 1"
proof -
  note O = o [unfolded stream_open_def]
  have eq: "dr_staging_received_count (s_records s ! k) = tot" using O m(5) by (simp add: word_unat_eq_iff)
  let ?b = "b\<lparr>sb_strings := zero_pool\<rparr>"
  obtain d h where c: "ds_schema_builder_commit (en_snapshot_mem env) b (s_diag s) (s_schemas s) = (?b, d, h, Some a)"
      and d: "dg_discovery_schema_success d = dg_discovery_schema_success (s_diag s)"
    using env(2) by (auto simp: ds_schema_builder_commit_def alloc_with_refcount_def ds_settings_alloc_def Let_def)
  let ?s2 = "s\<lparr>s_schema_builder := Some ?b, s_diag := d, s_schemas := h\<rparr>"
  have rec2: "device_settings_find_record dev ?s2 = Some k" using O find_record_cong [of ?s2 s] by simp
  have dev: "dev \<noteq> []" using O find_recordD(4) by blast
  obtain s3 where s3: "device_settings_commit_schema True dev a ?s2 = (s3, ESP_OK)" "s_diag s3 = d"
    using rec2 dev by (simp add: device_settings_commit_schema_def Let_def)
  have "fst (device_settings_on_notify env (Some dev) (Some m) s) = handle_settings_end env dev m s"
    using ty by (simp add: device_settings_on_notify_def GW_SETTINGS_MSG_SETTINGS_ITEM_def GW_SETTINGS_MSG_SETTINGS_BEGIN_def
        GW_SETTINGS_MSG_SETTINGS_OPTION_ITEM_def GW_SETTINGS_MSG_SETTINGS_END_def)
  then show ?thesis
    using m O dc eq env s3 d unfolding handle_settings_end_def frame_matches_open [OF o]
    by (simp add: c [unfolded env(2)] schema_builder_discard_def)
qed

text \<open>Frames that declare no option count leave the table of declared counts empty.\<close>

definition undeclared :: "ds_state \<Rightarrow> bool" where
  "undeclared s \<longleftrightarrow> s_declared_option_count s = replicate DEVICE_SETTINGS_MAX_SETTINGS 255"

lemma undeclared_reject: "undeclared s \<Longrightarrow> undeclared (schema_reject dev k s)"
  by (simp add: schema_reject_def publish_error_def publish_settings_state_def undeclared_def schema_builder_discard_def)

lemma undeclared_matches: "undeclared s \<Longrightarrow> schema_frame_matches dev m s = (t, r) \<Longrightarrow> undeclared t"
  by (auto simp: schema_frame_matches_def undeclared_reject split: option.splits if_splits)

lemma undeclared_frame:
  assumes "undeclared s" "body_frame m" "\<not> m_has_settings_option_count m"
  shows "undeclared (fst (device_settings_on_notify env (Some dev) (Some m) s))"
proof -
  obtain t r where f: "schema_frame_matches dev m s = (t, r)" by fastforce
  have t: "undeclared t" by (rule undeclared_matches [OF assms(1) f])
  have "undeclared (handle_item dev m s)"
    using t assms(3) undeclared_reject [OF t] unfolding handle_item_def f Let_def
    by (simp add: undeclared_def split: option.split)
  moreover have "undeclared (handle_option_item dev m s)"
    using t undeclared_reject [OF t] unfolding handle_option_item_def f Let_def
    by (simp add: undeclared_def split: option.split)
  ultimately show ?thesis
    using assms(2) by (auto simp: body_frame_def device_settings_on_notify_def GW_SETTINGS_MSG_SETTINGS_ITEM_def
        GW_SETTINGS_MSG_SETTINGS_OPTION_ITEM_def GW_SETTINGS_MSG_SETTINGS_BEGIN_def)
qed

lemma undeclared_frames:
  "\<lbrakk>undeclared s; list_all body_frame ms; \<forall>m\<in>set ms. \<not> m_has_settings_option_count m\<rbrakk> \<Longrightarrow> undeclared (notify_all env dev ms s)"
  by (induction ms arbitrary: s) (simp_all add: undeclared_frame)

lemma undeclared_counts_ok: "undeclared s \<Longrightarrow> length ds \<le> 16 \<Longrightarrow> option_counts_ok (s_declared_option_count s) ds"
  by (simp add: undeclared_def option_counts_ok_def list_all_iff)

definition demo_begin :: gw_message where
  "demo_begin = zero_message\<lparr>m_type := GW_SETTINGS_MSG_SETTINGS_BEGIN, m_protocol_version := GW_PROTOCOL_VERSION,
     m_command := GW_SETTINGS_CMD_DESCRIBE_SETTINGS, m_request_id := 9, m_has_request_id := True, m_total := 2, m_has_total := True\<rparr>"

definition demo_item :: "u16 \<Rightarrow> string \<Rightarrow> u8 \<Rightarrow> gw_message" where
  "demo_item n sid ty = zero_message\<lparr>m_type := GW_SETTINGS_MSG_SETTINGS_ITEM, m_request_id := 9, m_has_request_id := True,
     m_total := 2, m_has_total := True, m_settings_sequence := n, m_has_settings_sequence := True,
     m_setting_id := sid, m_has_setting_id := True, m_setting_type := ty, m_has_setting_type := True\<rparr>"

definition demo_option :: "u16 \<Rightarrow> u8 \<Rightarrow> string \<Rightarrow> gw_message" where
  "demo_option n v label = zero_message\<lparr>m_type := GW_SETTINGS_MSG_SETTINGS_OPTION_ITEM, m_request_id := 9, m_has_request_id := True,
     m_settings_sequence := n, m_has_settings_sequence := True, m_settings_option_index := v, m_has_settings_option_index := True,
     m_capability_label := label\<rparr>"

definition demo_body :: "gw_message list" where
  "demo_body = [demo_item 0 ''mode'' DS_TYPE_ENUM, demo_option 0 1 ''on'', demo_item 1 ''unit'' DS_TYPE_ENUM,
     demo_option 1 5 ''C'', demo_option 0 2 ''off'']"

definition stream_demo_end :: gw_message where
  "stream_demo_end = zero_message\<lparr>m_type := GW_SETTINGS_MSG_SETTINGS_END, m_request_id := 9, m_has_request_id := True,
     m_total := 2, m_has_total := True\<rparr>"

lemma demo_describes:
  "describe_frames 9 2 demo_body ([], 4) =
     Some ([(item_view (demo_item 0 ''mode'' DS_TYPE_ENUM))\<lparr>sw_options := [(1, ''on''), (2, ''off'')]\<rparr>,
            (item_view (demo_item 1 ''unit'' DS_TYPE_ENUM))\<lparr>sw_options := [(5, ''C'')]\<rparr>], 32)"
  by (simp add: demo_body_def demo_item_def demo_option_def describe_frame_def describe_item_def describe_option_def item_view_def
      item_cost_def text_cost_def align4_def cstr_def zero_message_def GW_SETTINGS_MSG_SETTINGS_ITEM_def
      GW_SETTINGS_MSG_SETTINGS_OPTION_ITEM_def Let_def)

lemma demo_frames: "m_type demo_begin = GW_SETTINGS_MSG_SETTINGS_BEGIN" "list_all body_frame demo_body"
    "m_request_id demo_begin = 9" "m_total demo_begin = 2" "\<forall>m\<in>set demo_body. \<not> m_has_settings_option_count m"
    "m_type stream_demo_end = GW_SETTINGS_MSG_SETTINGS_END" "m_has_request_id stream_demo_end" "m_request_id stream_demo_end = 9" "m_has_total stream_demo_end"
    "m_total stream_demo_end = 2"
  by (simp_all add: demo_begin_def demo_body_def body_frame_def demo_item_def demo_option_def stream_demo_end_def zero_message_def)

lemma find_index_replicate: "find_index P (replicate n x) = (if P x \<and> 0 < n then Some 0 else None)"
  by (induction n) auto

lemma boot_record: "dev \<noteq> [] \<Longrightarrow> device_settings_find_or_create_record dev settings_boot =
    (upd_rec 0 (\<lambda>_. zero_device_record\<lparr>dr_used := True, dr_schema_state := DS_SCHEMA_UNKNOWN,
       dr_device_id := strlcpy GW_MSG_DEVICE_ID_LEN dev\<rparr>) settings_boot, Some 0)"
  by (simp add: device_settings_find_or_create_record_def settings_boot_def find_index_replicate zero_device_record_def)

lemma demo_opens: "s_schema_owner (notify_all settings_demo_env ''lamp'' [demo_begin] settings_boot) = ''lamp''"
    "undeclared (notify_all settings_demo_env ''lamp'' [demo_begin] settings_boot)"
    "s_schemas (notify_all settings_demo_env ''lamp'' [demo_begin] settings_boot) = (\<lambda>_. None)"
    "\<forall>r\<in>set (s_records (notify_all settings_demo_env ''lamp'' [demo_begin] settings_boot)). dr_schema r = None"
  by (simp_all add: device_settings_on_notify_def demo_frames(1)) (simp_all add: handle_settings_begin_def demo_begin_def zero_message_def
      boot_record new_builder_def settings_demo_env_def ds_settings_alloc_def ds_schema_builder_init_def undeclared_def Let_def,
      auto simp: settings_boot_def zero_device_record_def publish_settings_state_def dest!: subsetD [OF set_update_subset_insert])

theorem schema_stream_refines_description_witness:
  "map_option builder_abs (open_builder ''lamp'' (notify_all settings_demo_env ''lamp'' (demo_begin # demo_body) settings_boot)) =
   describe_frames 9 2 demo_body ([], 4)"
  using schema_stream_refines_description [of settings_boot "''lamp''" demo_begin settings_demo_env demo_body] demo_frames demo_opens
  by (simp add: settings_boot_def)

text \<open>The stream of the demonstration after its last option, and its end.\<close>

lemma body_keeps_snapshots:
  assumes "body_frame m"
  shows "s_schemas (fst (device_settings_on_notify env (Some dev) (Some m) s)) = s_schemas s \<and>
    map dr_schema (s_records (fst (device_settings_on_notify env (Some dev) (Some m) s))) = map dr_schema (s_records s)"
proof -
  let ?same = "\<lambda>t. s_schemas t = s_schemas s \<and> map dr_schema (s_records t) = map dr_schema (s_records s)"
  have upd: "map dr_schema (xs[k := y]) = map dr_schema xs" if "dr_schema y = dr_schema (xs ! k)" for xs :: "ds_device_record list" and k y
    using that by (cases "k < length xs") (auto simp: map_update list_update_beyond list_update_same_conv)
  have rej: "?same (schema_reject d k t)" if "?same t" for t k d
    using that upd by (simp add: schema_reject_def publish_error_def schema_builder_discard_def)
  obtain t r where f: "schema_frame_matches dev m s = (t, r)" by fastforce
  then have t: "?same t"
    using rej [of s] by (auto simp: schema_frame_matches_def split: option.splits if_splits)
  have "?same (handle_item dev m s)"
    using t rej [OF t] upd unfolding handle_item_def f Let_def by (simp split: option.split)
  moreover have "?same (handle_option_item dev m s)"
    using t rej [OF t] unfolding handle_option_item_def f Let_def by (simp split: option.split)
  ultimately show ?thesis
    using assms by (auto simp: body_frame_def device_settings_on_notify_def GW_SETTINGS_MSG_SETTINGS_ITEM_def
        GW_SETTINGS_MSG_SETTINGS_OPTION_ITEM_def GW_SETTINGS_MSG_SETTINGS_BEGIN_def)
qed

lemma body_keeps_snapshots_all:
  "list_all body_frame ms \<Longrightarrow> s_schemas (notify_all env dev ms s) = s_schemas s \<and>
    map dr_schema (s_records (notify_all env dev ms s)) = map dr_schema (s_records s)"
  by (induction ms arbitrary: s) (auto simp: body_keeps_snapshots)

lemma notify_append: "notify_all env dev (xs @ ys) s = notify_all env dev ys (notify_all env dev xs s)"
  by (induction xs arbitrary: s) simp_all


end
