(* ===== verification/Settings_Checks.thy ===== *)
theory Settings_Checks
  imports Settings_Stream
begin

text \<open>
  What the settings component lets through. Prevalidation accepts a change exactly when it fits the
  description of its setting, and what it accepts is a request the command service takes; the value of a
  secret is not kept in the snapshot of the values, except for the bytes that clearing the union leaves.
\<close>

section \<open>Prevalidation\<close>

text \<open>When a change fits a description: the setting with its id allows writing and takes the value.\<close>

definition value_fits :: "setting_view \<Rightarrow> ds_change_request \<Rightarrow> bool" where
  "value_fits v ch \<longleftrightarrow>
     (if sw_type v = DS_TYPE_INT
      then sw_min v \<le> ch_int_val ch \<and> ch_int_val ch \<le> sw_max v \<and>
           (sw_step v = 0 \<or> uint (sw_step v) dvd (ch_int_val ch - sw_min v))
      else if sw_type v = DS_TYPE_ENUM then ch_enum_val ch \<in> (\<lambda>opt. uint (fst opt)) ` set (sw_options v)
      else if sw_type v = DS_TYPE_STRING
      then length (cstr (ch_str ch)) < GW_SETTINGS_VALUE_MAX_LEN \<and>
           (sw_max_length v = 0 \<or> length (cstr (ch_str ch)) \<le> unat (sw_max_length v))
      else sw_type v \<noteq> DS_TYPE_FLOAT)"

definition change_fits :: "setting_view list \<Rightarrow> ds_change_request \<Rightarrow> bool" where
  "change_fits views ch \<longleftrightarrow>
     ch_setting_id ch \<noteq> [] \<and>
     (case List.find (\<lambda>v. sw_id v = ch_setting_id ch) views of
        None \<Rightarrow> False
      | Some v \<Rightarrow> sw_flags v AND DS_FLAG_WRITABLE \<noteq> 0 \<and> sw_type v = ch_type ch \<and> value_fits v ch)"

definition int32_range :: "int \<Rightarrow> bool" where
  "int32_range v \<longleftrightarrow> - (2 ^ 31) \<le> v \<and> v < 2 ^ 31"

definition schema_ok :: "ds_schema \<Rightarrow> bool" where
  "schema_ok sc \<longleftrightarrow>
     (\<forall>d\<in>set (sc_descriptors sc). span_ok (length (sc_enum_options sc)) d \<and> int32_range (sd_min_value d))"

lemma find_map: "List.find P (map f xs) = map_option f (List.find (\<lambda>x. P (f x)) xs)"
  by (induction xs) auto

lemma int_in_range_iff:
  assumes "int32_range v" "int32_range (sd_min_value d)"
  shows "int_in_range d v \<longleftrightarrow> sd_min_value d \<le> v \<and> v \<le> sd_max_value d \<and> (sd_step d = 0 \<or> uint (sd_step d) dvd (v - sd_min_value d))"
proof -
  have "(word_of_int (v - sd_min_value d) mod sd_step d = 0) = (uint (sd_step d) dvd (v - sd_min_value d))"
    if "sd_min_value d \<le> v"
  proof -
    have "uint (word_of_int (v - sd_min_value d) :: u32) = v - sd_min_value d"
      using assms that by (subst unsigned_of_int) (simp add: int32_range_def take_bit_int_eq_self)
    then have "uint (word_of_int (v - sd_min_value d) mod sd_step d) = (v - sd_min_value d) mod uint (sd_step d)"
      by (simp add: uint_mod_distrib)
    then show ?thesis by (simp add: word_uint_eq_iff mod_eq_0_iff_dvd)
  qed
  then show ?thesis
    by (cases "sd_min_value d \<le> v") (simp_all only: int_in_range_def de_Morgan_disj de_Morgan_conj not_less not_not simp_thms)
qed

lemma enum_has_iff:
  assumes "span_ok (length (sc_enum_options sc)) d"
  shows "enum_has sc d v \<longleftrightarrow> v \<in> (\<lambda>opt. uint (fst opt)) ` set (sw_options (desc_view (sc_strings sc) (sc_enum_options sc) d))"
proof -
  let ?opts = "sc_enum_options sc"
  have "length (span d ?opts) = sd_option_count d" using assms by (auto simp: span_def span_ok_def)
  moreover have "span d ?opts ! i = ?opts ! (sd_option_index d + i)" if "i < sd_option_count d" for i
    using that assms by (simp add: span_def span_ok_def)
  ultimately have "(\<exists>i < sd_option_count d. uint (eo_value (?opts ! (sd_option_index d + i))) = v) \<longleftrightarrow>
      v \<in> (\<lambda>opt. uint (eo_value opt)) ` set (span d ?opts)"
    by (metis (no_types, lifting) image_iff in_set_conv_nth)
  then show ?thesis by (auto simp: enum_has_def list_ex_iff desc_view_def option_view_def image_image)
qed

lemma string_fits_iff:
  "string_fits d str \<longleftrightarrow> length (cstr str) < 64 \<and> (sd_max_length d = 0 \<or> length (cstr str) \<le> unat (sd_max_length d))"
  by (auto simp: string_fits_def strnlen_def)


definition demo_schema :: ds_schema where
  "demo_schema =
     \<lparr>sc_schema_revision = 1,
      sc_descriptors = [\<lparr>sd_id_off = 4, sd_title_off = 4, sd_group_off = 0, sd_unit_off = 0, sd_min_value = -10, sd_max_value = 50,
        sd_step = 5, sd_flags = DS_FLAG_WRITABLE, sd_max_length = 0, sd_option_index = 0, sd_type = DS_TYPE_INT, sd_option_count = 0\<rparr>],
      sc_enum_options = [],
      sc_strings = \<lparr>pl_total_size = 8, pl_capacity = 8, pl_pool = Some (CHR 0x00 # CHR 0x00 # CHR 0x00 # CHR 0x00 # ''low'' @ [CHR 0x00])\<rparr>\<rparr>"

definition demo_change :: "int \<Rightarrow> ds_change_request" where
  "demo_change v = \<lparr>ch_setting_id = ''low'', ch_type = DS_TYPE_INT, ch_bool_val = False, ch_int_val = v, ch_enum_val = 0, ch_str = []\<rparr>"


lemma demo_change_checked:
  "prevalidate_change (Some demo_schema) (demo_change 25)" "\<not> prevalidate_change (Some demo_schema) (demo_change 26)"
  by (simp_all add: prevalidate_change_def demo_schema_def demo_change_def find_descriptor_def ds_string_pool_get_def cstr_def
      int_in_range_def word_le_nat_alt)

section \<open>Requests\<close>

lemma tx_names: "length GW_SETTINGS_CMD_TX_BEGIN < GW_MSG_COMMAND_LEN" "length GW_SETTINGS_CMD_TX_SET < GW_MSG_COMMAND_LEN"
    "length GW_SETTINGS_CMD_TX_COMMIT < GW_MSG_COMMAND_LEN" "length GW_SETTINGS_CMD_COMMIT_CONFIRM < GW_MSG_COMMAND_LEN"
  by (simp_all add: GW_SETTINGS_CMD_TX_BEGIN_def GW_SETTINGS_CMD_TX_SET_def GW_SETTINGS_CMD_TX_COMMIT_def
      GW_SETTINGS_CMD_COMMIT_CONFIRM_def)

lemmas settings_commands = GW_SETTINGS_CMD_DESCRIBE_SETTINGS_def GW_SETTINGS_CMD_READ_SETTINGS_def GW_SETTINGS_CMD_TX_BEGIN_def
  GW_SETTINGS_CMD_TX_SET_def GW_SETTINGS_CMD_TX_COMMIT_def GW_SETTINGS_CMD_TX_ABORT_def GW_SETTINGS_CMD_COMMIT_CONFIRM_def

lemma plain_requests_valid:
  "settings_request_status (begin_request tx) = DEVICE_CMD_STATUS_OK" "settings_request_status (commit_request tx) = DEVICE_CMD_STATUS_OK"
  "settings_request_status (confirm_request tx) = DEVICE_CMD_STATUS_OK"
  by (simp_all add: settings_request_status_def begin_request_def commit_request_def confirm_request_def tx_request_def zero_request_def
      zero_settings_payload_def is_settings_command_def settings_commands Let_def)

lemma pool_get_no_nul: "CHR 0x00 \<notin> set (ds_string_pool_get pool off)"
  by (simp add: ds_string_pool_get_def split: option.splits)

lemma cstr_id [simp]: "CHR 0x00 \<notin> set s \<Longrightarrow> cstr s = s"
  by (auto simp: cstr_def intro: takeWhile_eq_all_conv [THEN iffD2])

lemma set_request_valid:
  assumes "prevalidate_change (Some sc) ch" "length (ch_setting_id ch) < GW_SETTINGS_CBOR_MAX_ID_LEN"
    and ty: "DS_TYPE_BOOL \<le> ch_type ch" "ch_type ch \<le> DS_TYPE_ENUM"
  shows "settings_request_status (set_request tx ch) = DEVICE_CMD_STATUS_OK"
proof -
  obtain d where d: "find_descriptor sc (ch_setting_id ch) = Some d" "sd_type d = ch_type ch" "ch_type ch \<noteq> DS_TYPE_FLOAT"
      "ch_setting_id ch \<noteq> []" "ch_type ch = DS_TYPE_STRING \<Longrightarrow> string_fits d (ch_str ch)"
    using assms(1) unfolding prevalidate_change_def by (auto split: option.splits if_splits)
  have nz: "CHR 0x00 \<notin> set (ch_setting_id ch)"
    using d(1) pool_get_no_nul unfolding find_descriptor_def find_Some_iff by metis
  have "uint (ch_type ch) \<in> {1, 2, 4, 5}"
    using ty d(3) by (auto simp: word_le_def word_uint_eq_iff)
  then have t: "ch_type ch \<in> {DS_TYPE_BOOL, DS_TYPE_INT, DS_TYPE_STRING, DS_TYPE_ENUM}" by (auto simp: word_uint_eq_iff)
  define p where "p = rq_settings (set_request tx ch)"
  have pf: "sp_has_transaction_id p" "sp_has_setting_id p" "sp_setting_id p = ch_setting_id ch" "sp_has_setting_value p"
      "sp_setting_type p = ch_type ch"
      "ch_type ch = DS_TYPE_STRING \<Longrightarrow> sp_string_value p = strlcpy GW_SETTINGS_VALUE_MAX_LEN (cstr (ch_str ch))"
    using assms(2) t by (auto simp: p_def set_request_def tx_request_def change_payload_def zero_request_def zero_settings_payload_def Let_def)
  have "length (cstr (strlcpy 64 s)) < 64" for s
    unfolding cstr_def using length_takeWhile_le [of _ "strlcpy 64 s"] by (rule le_less_trans) simp
  then have "settings_value_is_valid p"
    using t pf by (auto simp: settings_value_is_valid_def settings_string_is_terminated_def strnlen_def)
  moreover have "settings_id_is_valid p"
    using pf d(4) nz assms(2) by (simp add: settings_id_is_valid_def settings_string_is_terminated_def strnlen_def)
  ultimately show ?thesis
    using pf(1) by (simp add: settings_request_status_def Let_def p_def set_request_def tx_request_def zero_request_def
        is_settings_command_def settings_commands change_payload_def)
qed

section \<open>Secrets\<close>

lemma union_clear_zero: "unat w < 256 \<Longrightarrow> union_bytes 1 0 w = 0"
  by (simp add: union_bytes_def)

lemma union_clear_small: "union_bytes 1 0 (ucast (v :: u8)) = 0"
  by (rule union_clear_zero) (use unsigned_less [of v] in simp)

lemma union_clear_bool: "union_bytes 1 0 (union_bytes 1 (of_bool b) 0) = 0"
  by (rule union_clear_zero) (cases b; simp add: union_bytes_def)

text \<open>
  C20. The value of a secret setting is withheld: the entry that is kept for it is marked as having no value,
  and the pool of the snapshot grows by the id of the setting only. The value itself is cleared through the
  one-byte member of its union, so that of a secret integer the bytes above the lowest stay in the snapshot,
  although the source says that the raw value must not survive the callback.
\<close>

theorem secret_value_is_withheld:
  assumes "find_descriptor schema (cstr (m_setting_id msg)) = Some desc" "sd_flags desc AND DS_FLAG_SECRET \<noteq> 0"
    "build_value schema msg b = Some b'"
  shows "\<exists>e. vb_entries b' = vb_entries b @ [e] \<and> \<not> ve_has_value e \<and>
      ds_string_pool_add (cstr (m_setting_id msg)) (vb_string_pool b) = (vb_string_pool b', Inr (ve_id_off e)) \<and>
      ve_union e = (if m_setting_type msg = DS_TYPE_INT then union_bytes 1 0 (word_of_int (m_setting_value_int msg)) else 0)"
proof -
  let ?e0 = "\<lambda>off. zero_value_entry\<lparr>ve_type := m_setting_type msg, ve_has_value := False, ve_id_off := off\<rparr>"
  obtain pool off e pool' where add: "ds_string_pool_add (cstr (m_setting_id msg)) (vb_string_pool b) = (pool, Inr off)"
      and ev: "entry_value schema desc msg (?e0 off) pool = Some (e, pool')"
      and b': "b' = b\<lparr>vb_string_pool := pool', vb_entries := vb_entries b @ [set_bool_val False (e\<lparr>ve_has_value := False\<rparr>)]\<rparr>"
    using assms unfolding build_value_def ds_values_builder_add_def Let_def
    by (auto split: option.splits if_splits sum.splits prod.splits)
  let ?x = "set_bool_val False (e\<lparr>ve_has_value := False\<rparr>)"
  have "pool' = pool \<and> ve_id_off e = off \<and>
      union_bytes 1 0 (ve_union e) = (if m_setting_type msg = DS_TYPE_INT then union_bytes 1 0 (word_of_int (m_setting_value_int msg)) else 0)"
    using ev union_clear_small [of "m_setting_value_enum msg"] union_clear_bool [of "m_setting_value_bool msg"] union_clear_zero [of 0]
    unfolding entry_value_def zero_value_entry_def set_bool_val_def set_int_val_def
    by (auto simp: Let_def split: if_splits)
  then show ?thesis using add by (intro exI [of _ ?x]) (simp add: b' set_bool_val_def)
qed

text \<open>A secret integer, and what is left of it.\<close>

definition secret_schema :: ds_schema where
  "secret_schema = demo_schema\<lparr>sc_descriptors := map (\<lambda>d. d\<lparr>sd_flags := DS_FLAG_SECRET\<rparr>) (sc_descriptors demo_schema)\<rparr>"

definition secret_message :: gw_message where
  "secret_message = zero_message\<lparr>m_setting_id := ''low'', m_setting_type := DS_TYPE_INT, m_setting_value_int := 0x12345678\<rparr>"

definition small_builder :: ds_values_builder where
  "small_builder = \<lparr>vb_string_pool = \<lparr>pl_total_size = 4, pl_capacity = 8, pl_pool = Some (replicate 8 (CHR 0x00))\<rparr>,
     vb_entries = [], vb_config_revision = 1\<rparr>"

lemma secret_steps:
  "find_descriptor secret_schema (cstr (m_setting_id secret_message)) = Some (hd (sc_descriptors secret_schema))"
  "sd_flags (hd (sc_descriptors secret_schema)) AND DS_FLAG_SECRET \<noteq> 0"
  "build_value secret_schema secret_message small_builder \<noteq> None"
proof -
  show d: "find_descriptor secret_schema (cstr (m_setting_id secret_message)) = Some (hd (sc_descriptors secret_schema))"
    by (simp add: find_descriptor_def secret_schema_def demo_schema_def secret_message_def zero_message_def ds_string_pool_get_def
        cstr_def word_le_nat_alt)
  show "sd_flags (hd (sc_descriptors secret_schema)) AND DS_FLAG_SECRET \<noteq> 0"
    by (simp add: secret_schema_def demo_schema_def)
  show "build_value secret_schema secret_message small_builder \<noteq> None"
    unfolding build_value_def d
    by (simp add: secret_schema_def demo_schema_def secret_message_def zero_message_def small_builder_def ds_string_pool_add_def
        align4_def cstr_def entry_value_def ds_values_builder_add_def Let_def)
qed

theorem secret_value_is_withheld_witness:
  "\<exists>b' e. build_value secret_schema secret_message small_builder = Some b' \<and> vb_entries b' = [e] \<and> \<not> ve_has_value e \<and>
     ve_union e = 0x12345600"
proof -
  obtain b' where b': "build_value secret_schema secret_message small_builder = Some b'" using secret_steps(3) by auto
  from secret_value_is_withheld [OF secret_steps(1,2) b'] obtain e where
      "vb_entries b' = vb_entries small_builder @ [e]" "\<not> ve_has_value e"
      "ve_union e = (if m_setting_type secret_message = DS_TYPE_INT then union_bytes 1 0 (word_of_int (m_setting_value_int secret_message)) else 0)"
    by blast
  then show ?thesis
    using b' by (simp add: small_builder_def secret_message_def zero_message_def union_bytes_def)
qed

end
