(* ===== verification/Settings_Props.thy ===== *)
theory Settings_Props
  imports Settings_Run Settings_Checks
begin

text \<open>
  What runs of the settings component show: the commands of a transaction follow its script, each accepted
  save is answered once, and where the interplay of the actor with the scheduler goes wrong.
\<close>

section \<open>A component with two devices\<close>

definition demo_record :: "string \<Rightarrow> ds_device_record" where
  "demo_record dev = zero_device_record\<lparr>dr_used := True, dr_device_id := dev, dr_schema_state := DS_SCHEMA_READY,
     dr_schema := Some 0, dr_schema_rev := 1, dr_config_rev := 4\<rparr>"

text \<open>Running, with the schema of two devices committed and nothing asked so far.\<close>

definition demo_ready :: ds_state where
  "demo_ready = settings_boot\<lparr>s_initialized := True,
     s_records := demo_record ''A'' # demo_record ''B'' # replicate 14 zero_device_record,
     s_schemas := [0 \<mapsto> \<lparr>rf_refcount = 2, rf_object = demo_schema\<rparr>],
     s_running := True, s_retry_timer := True, s_queue := Some []\<rparr>"

definition command_answer :: "device_command_status \<Rightarrow> device_control_result option" where
  "command_answer st = Some \<lparr>cr_scheduler_job_id = 1, cr_terminal = DEVICE_CTRL_TERMINAL_COMMAND, cr_command_result = zero_result\<lparr>rs_status := st\<rparr>\<rparr>"

definition demo_save :: "string \<Rightarrow> settings_action" where
  "demo_save dev = SA_save settings_demo_env dev [demo_change 25] 4 (Some 7) 70"

abbreviation demo_turn :: settings_action where "demo_turn \<equiv> SA_turn settings_demo_env"

definition demo_steps :: "settings_action list" where
  "demo_steps = [demo_save ''A'', demo_turn, SA_tx_lease_done ESP_OK 5, demo_turn,
     SA_tx_command_done (command_answer DEVICE_CMD_STATUS_OK) 0, demo_turn,
     SA_tx_command_done (command_answer DEVICE_CMD_STATUS_OK) 0, demo_turn]"

section \<open>Commands and answers of the transactions\<close>

lemma fresh_sound:
  "list_all (\<lambda>t. \<not> tx_active t) (s_txns s) \<Longrightarrow> s_out s = [] \<Longrightarrow> sound [] s"
  by (auto simp: sound_def tx_sound_def commands_ok_def pending_def tx_requests_def tx_answers_def list_all_iff)

lemma run_from_fresh:
  assumes "settings_run steps (s0, []) = (s, accepted)" "list_all (\<lambda>t. \<not> tx_active t) (s_txns s0)" "s_out s0 = []"
  shows "sound accepted s"
  using run_sound [of "(s0, [])" steps] fresh_sound [OF assms(2,3)] assms(1) by simp

lemma demo_fresh: "list_all (\<lambda>t. \<not> tx_active t) (s_txns demo_ready)" "s_out demo_ready = []"
  by (simp_all add: demo_ready_def settings_boot_def zero_tx_def list_all_iff)


lemma demo_run:
  "map rq_command (tx_requests (fst (settings_run demo_steps (demo_ready, [])))) =
     [GW_SETTINGS_CMD_TX_BEGIN, GW_SETTINGS_CMD_TX_SET, GW_SETTINGS_CMD_TX_COMMIT]"
  "map tx_changes (snd (settings_run demo_steps (demo_ready, []))) = [[demo_change 25]]"
  by code_simp+


text \<open>
  C7. In every run of the component the completion callbacks of the accepted saves are, counted with their
  contexts, exactly those already called and those of the transactions still active: each save is answered at
  most once, and none is forgotten.
\<close>

theorem accepted_saves_answered_once:
  assumes "settings_run steps (s0, []) = (s, accepted)" "list_all (\<lambda>t. \<not> tx_active t) (s_txns s0)" "s_out s0 = []"
  shows "mset (concat (map tx_owed accepted)) = mset (tx_answers s) + mset (pending (s_txns s))"
  using run_from_fresh [OF assms] by (simp add: sound_def)

definition demo_abort :: "settings_action list" where
  "demo_abort = [demo_save ''A'', demo_save ''B'', SA_tx_cancel ''A'', demo_turn, demo_turn, demo_turn]"

lemma demo_abort_run:
  "concat (map tx_owed (snd (settings_run demo_abort (demo_ready, [])))) = [(7, 70), (7, 70)]"
  "tx_answers (fst (settings_run demo_abort (demo_ready, []))) = [(7, 70)]"
  by code_simp+

theorem accepted_saves_answered_once_witness:
  "mset (pending (s_txns (fst (settings_run demo_abort (demo_ready, []))))) = {#(7, 70)#}"
  using accepted_saves_answered_once [of demo_abort demo_ready, OF prod.collapse [symmetric] demo_fresh]
  by (simp add: demo_abort_run)

section \<open>Where the actor loses work\<close>

text \<open>The first device's read ends while the second device's waits.\<close>

definition lost_steps :: "settings_action list" where
  "lost_steps = [SA_get True ''A'' (Some 1) 10, SA_get True ''B'' (Some 2) 20, demo_turn, demo_turn, SA_lease_done ESP_OK 3, demo_turn,
     SA_command_done (command_answer DEVICE_CMD_STATUS_REJECTED), demo_turn]"

definition lost_state :: ds_state where "lost_state = fst (settings_run lost_steps (demo_ready, []))"

lemma lost_facts:
  "s_queue lost_state = Some []" "\<not> ao_active (s_active_op lost_state)" "op_state (s_ops lost_state ! 1) = DS_OP_QUEUED"
  "op_device_id (s_ops lost_state ! 1) = ''B''" "snd (device_settings_get True ''B'' None 0 lost_state) = ESP_ERR_INVALID_STATE"
  by code_simp+

text \<open>
  A read requested while the actor works for another device is left behind: its start event is dropped,
  and the end of the running operation starts nothing. With both requests made, the first one answered and no
  event left, the actor is idle, the second operation stays queued, every further turn changes nothing, and a
  new request for that device is refused because of the waiting one.
\<close>

theorem queued_read_is_left_behind:
  "lost_state = fst (settings_run lost_steps (demo_ready, [])) \<and> actor_turn env lost_state = lost_state \<and>
   \<not> ao_active (s_active_op lost_state) \<and> op_state (s_ops lost_state ! 1) = DS_OP_QUEUED \<and>
   op_device_id (s_ops lost_state ! 1) = ''B'' \<and>
   snd (device_settings_get True ''B'' None 0 lost_state) = ESP_ERR_INVALID_STATE"
  using lost_facts by (simp add: actor_turn_def lost_state_def)

text \<open>The second save is started before the scheduler answers the lease request of the first.\<close>

definition crossed_steps :: "settings_action list" where
  "crossed_steps = [demo_save ''A'', demo_save ''B'', demo_turn, demo_turn, SA_tx_lease_done ESP_OK 5, demo_turn,
     SA_tx_lease_done ESP_OK 6, demo_turn]"

definition crossed_state :: ds_state where "crossed_state = fst (settings_run crossed_steps (demo_ready, []))"

definition submitted_with :: "ds_output \<Rightarrow> (string \<times> u32) list" where
  "submitted_with e = (case e of OUT_SUBMIT job cb err \<Rightarrow> [(rq_device_id (j_request job), j_lease_id job)] | _ \<Rightarrow> [])"

lemma crossed_facts:
  "s_queue crossed_state = Some []" "concat (map submitted_with (s_out crossed_state)) = [(''B'', 5), (''B'', 6)]"
  "tx_device_id (s_txns crossed_state ! 0) = ''A''" "tx_state (s_txns crossed_state ! 0) = DS_TX_PREVALIDATING"
  "tx_active (s_txns crossed_state ! 0)"
  "fst (snd (device_settings_save settings_demo_env ''A'' [demo_change 25] 4 None 0 crossed_state)) = ESP_ERR_INVALID_STATE"
  by code_simp+

text \<open>
  The cookie and the device of a lease request of a transaction are single variables that the next start
  overwrites: with two saves started before the first lease result, the lease granted for the first device
  is used to begin the transaction of the second, which begins a second time with its own lease, while the
  first transaction never begins, is not answered when no event is left, and blocks further saves of its
  device.
\<close>

theorem second_save_takes_first_lease:
  "crossed_state = fst (settings_run crossed_steps (demo_ready, [])) \<and> actor_turn env crossed_state = crossed_state \<and>
   concat (map submitted_with (s_out crossed_state)) = [(''B'', 5), (''B'', 6)] \<and>
   tx_device_id (s_txns crossed_state ! 0) = ''A'' \<and> tx_active (s_txns crossed_state ! 0) \<and>
   tx_state (s_txns crossed_state ! 0) = DS_TX_PREVALIDATING \<and>
   fst (snd (device_settings_save settings_demo_env ''A'' [demo_change 25] 4 None 0 crossed_state)) = ESP_ERR_INVALID_STATE"
  using crossed_facts by (simp add: actor_turn_def crossed_state_def)

section \<open>A commit with an open outcome\<close>

lemma finish_active_records [simp]: "s_records (finish_active r s) = s_records s"
  by (simp add: finish_active_def release_lease_def upd_ao_def s_ops_invoke_completion_def upd_op_def Let_def split: option.split)

lemma cancel_device_records [simp]: "s_records (cancel_device env dev s) = s_records s"
  by (simp add: cancel_device_def handle_start_def upd_ao_def Let_def split: option.split)

lemma cancel_device_txns [simp]:
  "s_txns (cancel_device env dev s) = s_txns s" "tx_answers (cancel_device env dev s) = tx_answers s"
  using view_cancel_device [of env dev s] by (simp_all add: tx_view_def)

lemma tx_find_update:
  assumes "ds_tx_find dev s = Some i" "tx_active tx'" "tx_device_id tx' = dev" "s_txns t = (s_txns s)[i := tx']"
  shows "ds_tx_find dev t = Some i"
  using assms tx_findD [OF assms(1)] find_index_update [of i "s_txns s" _ tx']
  by (auto simp: ds_tx_find_def split: if_splits)

definition committing :: "string \<Rightarrow> nat \<Rightarrow> nat \<Rightarrow> ds_state \<Rightarrow> bool" where
  "committing dev i k s \<longleftrightarrow>
     ds_tx_find dev s = Some i \<and> device_settings_find_record dev s = Some k \<and> tx_state (s_txns s ! i) \<in> {DS_TX_COMMIT_SENT, DS_TX_CONFIRM_SENT}"

text \<open>The transaction waits for the device, holds no lease, and its record asks for a reconciliation.\<close>

definition awaiting :: "string \<Rightarrow> nat \<Rightarrow> nat \<Rightarrow> ds_state \<Rightarrow> bool" where
  "awaiting dev i k s \<longleftrightarrow>
     ds_tx_find dev s = Some i \<and> device_settings_find_record dev s = Some k \<and> tx_state (s_txns s ! i) = DS_TX_WAITING_REBOOT \<and>
     tx_lease_id (s_txns s ! i) = 0 \<and> dr_pending_reconciliation (s_records s ! k)"

text \<open>The link is lost, or the command in flight timed out or found no connection.\<close>

definition link_lost :: "string \<Rightarrow> ds_event \<Rightarrow> bool" where
  "link_lost dev ev \<longleftrightarrow>
     dv_device_id ev = dev \<and>
     (dv_type ev = DS_EVENT_DISCONNECTED \<or>
      dv_type ev = DS_EVENT_COMMAND_COMPLETE \<and> dv_slot ev = -1 \<and>
      (rs_status (dv_command ev) = DEVICE_CMD_STATUS_TIMEOUT \<or> rs_status (dv_command ev) = DEVICE_CMD_STATUS_NOT_CONNECTED))"

lemma release_records [simp]: "s_records (release_tx_lease i s) = s_records s"
  by (simp add: release_tx_lease_def upd_tx_def Let_def)

lemma marked_awaiting:
  assumes "committing dev i k s"
    and t_def: "t = release_tx_lease i (mark_reconciliation_pending env i (count_outcome_unknown s))"
  shows "awaiting dev i k t" "tx_answers t = tx_answers s" "tx_changes (s_txns t ! i) = tx_changes (s_txns s ! i)"
proof -
  let ?tx = "s_txns s ! i" let ?m = "mark_reconciliation_pending env i (count_outcome_unknown s)"
  from assms(1) have f: "ds_tx_find dev s = Some i" and r: "device_settings_find_record dev s = Some k"
    by (simp_all add: committing_def)
  note i = tx_findD [OF f]
  have c [simp]: "s_records (count_outcome_unknown s) = s_records s" "s_txns (count_outcome_unknown s) = s_txns s"
    "tx_answers (count_outcome_unknown s) = tx_answers s" by (simp_all add: count_outcome_unknown_def)
  have r': "device_settings_find_record dev (count_outcome_unknown s) = Some k"
    using r find_record_cong [of "count_outcome_unknown s" s] by simp
  have k: "k < length (s_records s)" using find_recordD [OF r] by simp
  define g where "g = (\<lambda>r :: ds_device_record. r\<lparr>dr_pending_reconciliation := True,
      dr_reconciliation_expected_rev := (if tx_new_config_rev ?tx \<noteq> 0 then tx_new_config_rev ?tx else tx_expected_config_rev ?tx + 1),
      dr_reconciliation_old_rev := tx_expected_config_rev ?tx\<rparr>)"
  have m: "?m = start_reconciliation_timer env i (transition_tx i DS_TX_WAITING_REBOOT (upd_rec k g (count_outcome_unknown s)))"
    using i r' by (simp add: mark_reconciliation_pending_def Let_def g_def)
  have recs: "s_records ?m = (s_records s)[k := g (s_records s ! k)]"
    by (simp add: m start_reconciliation_timer_def transition_tx_def publish_tx_def upd_tx_def Let_def)
  let ?w = "?tx\<lparr>tx_state := DS_TX_WAITING_REBOOT\<rparr>"
  have "s_txns ?m = (s_txns s)[i := ?w] \<or> s_txns ?m = (s_txns s)[i := ?w\<lparr>tx_recon_timer := True\<rparr>]"
    using i by (simp add: m start_reconciliation_timer_def)
  then obtain w where w: "s_txns ?m = (s_txns s)[i := w]" "w = ?w \<or> w = ?w\<lparr>tx_recon_timer := True\<rparr>" by blast
  then have txs: "s_txns t = (s_txns s)[i := w\<lparr>tx_lease_id := 0\<rparr>]" using i by (simp add: t_def)
  have find: "ds_tx_find dev t = Some i" by (rule tx_find_update [OF f _ _ txs]) (use i w(2) in auto)
  have "device_settings_find_record dev t = device_settings_find_record dev (upd_rec k g s)"
    by (rule find_record_cong) (simp add: t_def recs)
  then have rt: "device_settings_find_record dev t = Some k" using r k by (simp add: find_record_upd g_def)
  have "s_records t ! k = g (s_records s ! k)" using k by (simp add: t_def recs)
  then show "awaiting dev i k t" using find rt txs i w(2) by (auto simp: awaiting_def g_def)
  show "tx_changes (s_txns t ! i) = tx_changes ?tx" using txs i w(2) by auto
  show "tx_answers t = tx_answers s"
    by (simp add: t_def m start_reconciliation_timer_def)
qed

lemma committing_cong:
  "s_txns t = s_txns s \<Longrightarrow> s_records t = s_records s \<Longrightarrow> committing dev i k t = committing dev i k s"
  "s_txns t = s_txns s \<Longrightarrow> s_records t = s_records s \<Longrightarrow> awaiting dev i k t = awaiting dev i k s"
  by (simp_all add: committing_def awaiting_def ds_tx_find_def device_settings_find_record_def)

lemma actor_handle_disconnect:
  "dv_type ev = DS_EVENT_DISCONNECTED \<Longrightarrow>
   device_settings_tx_actor_on_disconnect env (dv_device_id ev) (cancel_device env (dv_device_id ev) s) = (t, True) \<Longrightarrow>
   actor_handle env ev s = t"
  by (simp add: actor_handle_def)

lemma actor_handle_tx_command:
  "dv_type ev = DS_EVENT_COMMAND_COMPLETE \<Longrightarrow> dv_slot ev = -1 \<Longrightarrow>
   actor_handle env ev s = device_settings_tx_actor_command_complete env (dv_device_id ev) (Some (dv_command ev)) s"
  by (simp add: actor_handle_def)

lemma link_lost_cases:
  assumes "link_lost dev ev"
  obtains "dv_type ev = DS_EVENT_DISCONNECTED" "dv_device_id ev = dev"
  | "dv_type ev = DS_EVENT_COMMAND_COMPLETE" "dv_slot ev = -1" "dv_device_id ev = dev"
      "rs_status (dv_command ev) = DEVICE_CMD_STATUS_TIMEOUT \<or> rs_status (dv_command ev) = DEVICE_CMD_STATUS_NOT_CONNECTED"
  using assms by (auto simp: link_lost_def)

lemma link_lost_first:
  assumes "committing dev i k s" "link_lost dev ev"
  shows "awaiting dev i k (actor_handle env ev s)" "tx_answers (actor_handle env ev s) = tx_answers s"
    "tx_changes (s_txns (actor_handle env ev s) ! i) = tx_changes (s_txns s ! i)"
proof -
  let ?t = "\<lambda>s. release_tx_lease i (mark_reconciliation_pending env i (count_outcome_unknown s))"
  have c: "committing dev i k (cancel_device env dev s)"
    using assms(1) committing_cong(1) [of "cancel_device env dev s" s] by simp
  have "actor_handle env ev s = ?t (cancel_device env dev s) \<or> actor_handle env ev s = ?t s"
    using assms(2)
  proof (cases rule: link_lost_cases)
    case 1
    have "device_settings_tx_actor_on_disconnect env dev u = (?t u, True)" if "committing dev i k u" for u
      using that by (auto simp: committing_def device_settings_tx_actor_on_disconnect_def)
    then have "actor_handle env ev s = ?t (cancel_device env dev s)"
      using c by (intro actor_handle_disconnect [OF 1(1)]) (simp only: 1(2))
    then show ?thesis ..
  next
    case 2
    have "ds_tx_find dev s = Some i" "tx_state (s_txns s ! i) = DS_TX_COMMIT_SENT \<or> tx_state (s_txns s ! i) = DS_TX_CONFIRM_SENT"
      using assms(1) by (auto simp: committing_def)
    then have "device_settings_tx_actor_command_complete env dev (Some (dv_command ev)) s = ?t s"
      using 2(4) unfolding device_settings_tx_actor_command_complete_def tx_ambiguous_def by (elim disjE) simp_all
    then show ?thesis by (intro disjI2) (simp only: actor_handle_tx_command [OF 2(1,2)] 2(3))
  qed
  then show "awaiting dev i k (actor_handle env ev s)" "tx_answers (actor_handle env ev s) = tx_answers s"
    "tx_changes (s_txns (actor_handle env ev s) ! i) = tx_changes (s_txns s ! i)"
    using marked_awaiting [OF assms(1) refl, of env] marked_awaiting [OF c refl, of env] by auto
qed

lemma link_lost_again:
  assumes "awaiting dev i k s" "link_lost dev ev"
  shows "awaiting dev i k (actor_handle env ev s)" "tx_answers (actor_handle env ev s) = tx_answers s"
    "tx_changes (s_txns (actor_handle env ev s) ! i) = tx_changes (s_txns s ! i)"
proof -
  have c: "awaiting dev i k (cancel_device env dev s)"
    using assms(1) committing_cong(2) [of "cancel_device env dev s" s] by simp
  have "actor_handle env ev s = cancel_device env dev s \<or> actor_handle env ev s = s"
    using assms(2)
  proof (cases rule: link_lost_cases)
    case 1
    have "device_settings_tx_actor_on_disconnect env dev u = (u, True)" if "awaiting dev i k u" for u
      using that by (simp add: awaiting_def device_settings_tx_actor_on_disconnect_def release_tx_lease_def)
    then have "actor_handle env ev s = cancel_device env dev s"
      using c by (intro actor_handle_disconnect [OF 1(1)]) (simp only: 1(2))
    then show ?thesis ..
  next
    case 2
    have "device_settings_tx_actor_command_complete env dev (Some (dv_command ev)) s = s"
      using assms(1) 2(4) by (auto simp: awaiting_def device_settings_tx_actor_command_complete_def)
    then show ?thesis by (intro disjI2) (simp only: actor_handle_tx_command [OF 2(1,2)] 2(3))
  qed
  then show "awaiting dev i k (actor_handle env ev s)" "tx_answers (actor_handle env ev s) = tx_answers s"
    "tx_changes (s_txns (actor_handle env ev s) ! i) = tx_changes (s_txns s ! i)"
    using assms(1) c by auto
qed

lemma link_lost_later:
  assumes "awaiting dev i k s" "list_all (link_lost dev) evs"
  shows "awaiting dev i k (fold (actor_handle env) evs s) \<and> tx_answers (fold (actor_handle env) evs s) = tx_answers s \<and>
     tx_changes (s_txns (fold (actor_handle env) evs s) ! i) = tx_changes (s_txns s ! i)"
  using assms by (induction evs arbitrary: s) (simp_all add: link_lost_again)

text \<open>
  C17. When the link is lost after COMMIT has gone out, the save is not reported as failed: whatever mixture of
  disconnect events and completions with a timeout or no connection the actor handles next, in any order, the
  transaction with its changes stays, waiting for the device, its lease is given back, no callback is called
  and the record of the device asks for the reconciliation that will decide the outcome.
\<close>

theorem lost_commit_stays_open:
  assumes "committing dev i k s" "evs \<noteq> []" "list_all (link_lost dev) evs"
  shows "awaiting dev i k (fold (actor_handle env) evs s) \<and> tx_answers (fold (actor_handle env) evs s) = tx_answers s \<and>
     tx_changes (s_txns (fold (actor_handle env) evs s) ! i) = tx_changes (s_txns s ! i)"
proof (cases evs)
  case (Cons ev evs')
  then have e: "link_lost dev ev" "list_all (link_lost dev) evs'" using assms(3) by simp_all
  from link_lost_later [OF link_lost_first(1) [OF assms(1) e(1), of env] e(2), of env] show ?thesis
    using link_lost_first(2,3) [OF assms(1) e(1), of env] Cons by simp
qed (use assms(2) in simp)

definition demo_committing :: ds_state where "demo_committing = fst (settings_run demo_steps (demo_ready, []))"

lemma demo_committing_facts:
  "ds_tx_find ''A'' demo_committing = Some 0" "device_settings_find_record ''A'' demo_committing = Some 0"
  "tx_state (s_txns demo_committing ! 0) = DS_TX_COMMIT_SENT"
  by code_simp+

definition demo_events :: "ds_event list" where
  "demo_events = [(device_event DS_EVENT_COMMAND_COMPLETE ''A'')\<lparr>dv_slot := -1, dv_command := zero_result\<lparr>rs_status := DEVICE_CMD_STATUS_NOT_CONNECTED\<rparr>\<rparr>,
     device_event DS_EVENT_DISCONNECTED ''A'']"

theorem lost_commit_stays_open_witness:
  "awaiting ''A'' 0 0 (fold (actor_handle settings_demo_env) demo_events demo_committing)"
  by (rule lost_commit_stays_open [THEN conjunct1])
     (simp_all add: committing_def demo_committing_facts demo_events_def link_lost_def device_event_def event_of_type_def)

section \<open>Secrets and reconciliation\<close>

lemma withheld_mismatch:
  assumes "\<forall>e\<in>set (vs_values vals). ds_string_pool_get (vs_string_pool vals) (ve_id_off e) = ch_setting_id ch \<longrightarrow> \<not> ve_has_value e"
  shows "\<not> value_matches vals ch"
proof (cases "List.find (\<lambda>e. ds_string_pool_get (vs_string_pool vals) (ve_id_off e) = ch_setting_id ch) (vs_values vals)")
  case (Some e)
  then have "\<not> ve_has_value e" using assms by (auto simp: find_Some_iff)
  with Some show ?thesis by (simp add: value_matches_def)
qed (simp add: value_matches_def)


text \<open>The snapshot of a device whose only setting is secret.\<close>

definition secret_values :: ds_values where
  "secret_values = \<lparr>vs_config_revision = 5, vs_values = [zero_value_entry\<lparr>ve_type := DS_TYPE_INT, ve_id_off := 4\<rparr>],
     vs_string_pool = sc_strings demo_schema\<rparr>"


end
