(* ===== verification/Ble_State.thy ===== *)
theory Ble_State
  imports Device_Store_Nvs Gw_Message
begin

text \<open>
  The tables of the BLE central (\<open>ble_central/ble_central_internal.h\<close>, \<open>ble_central_state.c\<close>,
  \<open>ble_central_runtime.c\<close>): the devices the gateway may connect to, the connection slots, the contexts
  given to the host stack with its callbacks, and the counters. One mutex guards them all, and each
  function takes it once, so each definition here is one critical section. The argument \<open>lk\<close> says
  whether the mutex was obtained within its second.

  Indices that are \<open>-1\<close> when there is none (\<open>connection_slot\<close>, \<open>device_index\<close>) are of type
  \<^typ>\<open>nat option\<close>, with \<open>None\<close> for \<open>-1\<close>; a device cleared by \<open>memset\<close> has slot \<open>0\<close>, like in the source.
  Time stamps are milliseconds since the start, in \<open>int64_t\<close>, and stay \<^typ>\<open>int\<close>.
\<close>

section \<open>Constants and data\<close>

abbreviation BLE_CENTRAL_MAX_CONN :: nat where "BLE_CENTRAL_MAX_CONN \<equiv> 9"
abbreviation BLE_HS_CONN_HANDLE_NONE :: u16 where "BLE_HS_CONN_HANDLE_NONE \<equiv> 0xFFFF"
abbreviation BLE_GATEWAY_COMMAND_UUID :: u16 where "BLE_GATEWAY_COMMAND_UUID \<equiv> 0xABF1"
abbreviation BLE_GATEWAY_STATUS_UUID :: u16 where "BLE_GATEWAY_STATUS_UUID \<equiv> 0xABF2"
abbreviation BLE_CONN_ITVL_FAST_UNITS :: u16 where "BLE_CONN_ITVL_FAST_UNITS \<equiv> 12"
abbreviation BLE_CONN_ITVL_MEDIUM_UNITS :: u16 where "BLE_CONN_ITVL_MEDIUM_UNITS \<equiv> 24"
abbreviation BLE_CONN_ITVL_BUSY_UNITS :: u16 where "BLE_CONN_ITVL_BUSY_UNITS \<equiv> 40"
abbreviation BLE_SECURITY_TIMEOUT_MS :: int where "BLE_SECURITY_TIMEOUT_MS \<equiv> 10000"
abbreviation BLE_GATT_DISCOVERY_TIMEOUT_MS :: int where "BLE_GATT_DISCOVERY_TIMEOUT_MS \<equiv> 10000"
abbreviation BLE_RETRY_INITIAL_MS :: int where "BLE_RETRY_INITIAL_MS \<equiv> 2000"
abbreviation BLE_RETRY_MAX_MS :: int where "BLE_RETRY_MAX_MS \<equiv> 30000"

datatype ble_central_err =
    BLE_CENTRAL_OK
  | BLE_CENTRAL_ERR_INVALID_ARG
  | BLE_CENTRAL_ERR_NOT_READY
  | BLE_CENTRAL_ERR_NOT_FOUND
  | BLE_CENTRAL_ERR_NO_SLOT
  | BLE_CENTRAL_ERR_BUSY
  | BLE_CENTRAL_ERR_CONNECT_IN_PROGRESS
  | BLE_CENTRAL_ERR_NOT_CONNECTED
  | BLE_CENTRAL_ERR_ENCODE
  | BLE_CENTRAL_ERR_MESSAGE_TOO_LARGE
  | BLE_CENTRAL_ERR_STACK
  | BLE_CENTRAL_ERR_NO_RESOURCE
  | BLE_CENTRAL_ERR_STATE

text \<open>\<open>ble_addr_t\<close> of the host stack: the type and the six bytes of the address.\<close>

type_synonym ble_addr = "u8 \<times> u8 list"

datatype ble_device_state =
    BLE_DEVICE_OFFLINE
  | BLE_DEVICE_CONNECTING
  | BLE_DEVICE_CONNECTED
  | BLE_DEVICE_BACKOFF
  | BLE_DEVICE_REMOVING

record ble_device_runtime =
  bd_in_use :: bool
  bd_device_id :: string
  bd_peer_addr :: ble_addr
  bd_has_peer_addr :: bool
  bd_connection_slot :: "nat option"
  bd_state :: ble_device_state
  bd_reconnect_enabled :: bool
  bd_retry_count :: u8
  bd_last_attempt_ms :: int
  bd_next_retry_ms :: int

datatype ble_conn_state =
    BLE_CONN_FREE
  | BLE_CONN_CONNECTING
  | BLE_CONN_SECURING
  | BLE_CONN_DISCOVERING
  | BLE_CONN_READY
  | BLE_CONN_DISCONNECTING

record ble_conn_ref =
  rf_slot_index :: nat
  rf_generation :: u32

record ble_conn_slot =
  bc_state :: ble_conn_state
  bc_device_index :: "nat option"
  bc_generation :: u32
  bc_conn_handle :: u16
  bc_service_start_handle :: u16
  bc_service_end_handle :: u16
  bc_command_val_handle :: u16
  bc_status_val_handle :: u16
  bc_status_cccd_handle :: u16
  bc_mtu :: u16
  bc_started_ms :: int
  bc_discovery_started_ms :: int

record ble_callback_ctx =
  bx_in_use :: bool
  bx_ref :: ble_conn_ref
  bx_conn_handle :: u16

record ble_timeout_entry =
  bt_conn_handle :: u16
  bt_is_discovery :: bool
  bt_device_id :: string

record ble_central_metrics =
  bm_connect_attempts :: u32
  bm_connect_success :: u32
  bm_connect_failures :: u32
  bm_disconnects :: u32
  bm_security_failures :: u32
  bm_discovery_failures :: u32
  bm_reconnect_attempts :: u32
  bm_host_resets :: u32
  bm_stale_callbacks :: u32
  bm_notify_received :: u32
  bm_notify_enqueued :: u32
  bm_notify_dropped :: u32
  bm_notify_decode_errors :: u32
  bm_mtu_rejects :: u32
  bm_identity_persist_failures :: u32

record ble_state =
  bl_connections :: "ble_conn_slot list"
  bl_devices :: "ble_device_runtime list"
  bl_ctxs :: "ble_callback_ctx list"
  bl_metrics :: ble_central_metrics
  bl_host_ready :: bool
  bl_cursor :: nat

definition zero_metrics :: ble_central_metrics where
  "zero_metrics =
     \<lparr>bm_connect_attempts = 0, bm_connect_success = 0, bm_connect_failures = 0, bm_disconnects = 0,
      bm_security_failures = 0, bm_discovery_failures = 0, bm_reconnect_attempts = 0, bm_host_resets = 0,
      bm_stale_callbacks = 0, bm_notify_received = 0, bm_notify_enqueued = 0, bm_notify_dropped = 0,
      bm_notify_decode_errors = 0, bm_mtu_rejects = 0, bm_identity_persist_failures = 0\<rparr>"

definition zero_ble_device :: ble_device_runtime where
  "zero_ble_device =
     \<lparr>bd_in_use = False, bd_device_id = [], bd_peer_addr = (0, replicate 6 0), bd_has_peer_addr = False,
      bd_connection_slot = Some 0, bd_state = BLE_DEVICE_OFFLINE, bd_reconnect_enabled = False,
      bd_retry_count = 0, bd_last_attempt_ms = 0, bd_next_retry_ms = 0\<rparr>"

definition zero_ctx :: ble_callback_ctx where
  "zero_ctx = \<lparr>bx_in_use = False, bx_ref = \<lparr>rf_slot_index = 0, rf_generation = 0\<rparr>, bx_conn_handle = 0\<rparr>"

text \<open>A slot after \<open>memset\<close> and the assignments that follow it, with the generation it keeps.\<close>

definition fresh_slot :: "ble_conn_state \<Rightarrow> nat option \<Rightarrow> u32 \<Rightarrow> ble_conn_slot" where
  "fresh_slot st owner gen =
     \<lparr>bc_state = st, bc_device_index = owner, bc_generation = gen, bc_conn_handle = BLE_HS_CONN_HANDLE_NONE,
      bc_service_start_handle = 0, bc_service_end_handle = 0, bc_command_val_handle = 0,
      bc_status_val_handle = 0, bc_status_cccd_handle = 0, bc_mtu = 23, bc_started_ms = 0,
      bc_discovery_started_ms = 0\<rparr>"

abbreviation conn :: "ble_state \<Rightarrow> nat \<Rightarrow> ble_conn_slot" where "conn s i \<equiv> bl_connections s ! i"
abbreviation dev :: "ble_state \<Rightarrow> nat \<Rightarrow> ble_device_runtime" where "dev s d \<equiv> bl_devices s ! d"

definition conn_map :: "nat \<Rightarrow> (ble_conn_slot \<Rightarrow> ble_conn_slot) \<Rightarrow> ble_state \<Rightarrow> ble_state" where
  "conn_map i f s = s\<lparr>bl_connections := (bl_connections s)[i := f (conn s i)]\<rparr>"

definition dev_map :: "nat \<Rightarrow> (ble_device_runtime \<Rightarrow> ble_device_runtime) \<Rightarrow> ble_state \<Rightarrow> ble_state" where
  "dev_map d f s = s\<lparr>bl_devices := (bl_devices s)[d := f (dev s d)]\<rparr>"

definition ctx_map :: "nat \<Rightarrow> (ble_callback_ctx \<Rightarrow> ble_callback_ctx) \<Rightarrow> ble_state \<Rightarrow> ble_state" where
  "ctx_map x f s = s\<lparr>bl_ctxs := (bl_ctxs s)[x := f (bl_ctxs s ! x)]\<rparr>"

definition count_metric :: "(ble_central_metrics \<Rightarrow> ble_central_metrics) \<Rightarrow> ble_state \<Rightarrow> ble_state" where
  "count_metric f s = s\<lparr>bl_metrics := f (bl_metrics s)\<rparr>"

section \<open>Slots and references\<close>

definition ble_host_set_ready :: "bool \<Rightarrow> ble_state \<Rightarrow> ble_state" where
  "ble_host_set_ready ready s = s\<lparr>bl_host_ready := ready\<rparr>"

definition ble_conn_reset_to_free_unlocked :: "nat \<Rightarrow> ble_state \<Rightarrow> ble_state" where
  "ble_conn_reset_to_free_unlocked i = conn_map i (\<lambda>c. fresh_slot BLE_CONN_FREE None (bc_generation c))"

definition ble_state_reset_slot_free_unlocked :: "nat \<Rightarrow> ble_state \<Rightarrow> ble_state" where
  "ble_state_reset_slot_free_unlocked i s =
     (if BLE_CENTRAL_MAX_CONN \<le> i then s else ble_conn_reset_to_free_unlocked i s)"

definition ble_conn_prepare_new_lifetime_unlocked :: "nat \<Rightarrow> nat \<Rightarrow> ble_state \<Rightarrow> ble_state" where
  "ble_conn_prepare_new_lifetime_unlocked i d =
     conn_map i (\<lambda>c. fresh_slot BLE_CONN_CONNECTING (Some d) (bc_generation c + 1))"

definition ble_ref_valid_unlocked :: "ble_state \<Rightarrow> ble_conn_ref \<Rightarrow> bool" where
  "ble_ref_valid_unlocked s ref \<longleftrightarrow>
     rf_slot_index ref < BLE_CENTRAL_MAX_CONN \<and>
     bc_state (conn s (rf_slot_index ref)) \<noteq> BLE_CONN_FREE \<and>
     bc_generation (conn s (rf_slot_index ref)) = rf_generation ref"

text \<open>\<open>for (i = 0; i < retry_count && delay < BLE_RETRY_MAX_MS; i++) delay *= 2;\<close>\<close>

fun backoff_loop :: "nat \<Rightarrow> int \<Rightarrow> int" where
  "backoff_loop 0 delay = delay"
| "backoff_loop (Suc k) delay = (if delay < BLE_RETRY_MAX_MS then backoff_loop k (delay * 2) else delay)"

definition ble_backoff_delay_ms :: "u8 \<Rightarrow> int" where
  "ble_backoff_delay_ms retry_count =
     (let delay = backoff_loop (unat retry_count) BLE_RETRY_INITIAL_MS
      in if BLE_RETRY_MAX_MS < delay then BLE_RETRY_MAX_MS else delay)"

definition ble_schedule_retry_unlocked :: "int \<Rightarrow> ble_device_runtime \<Rightarrow> ble_device_runtime" where
  "ble_schedule_retry_unlocked now_ms v =
     (let delay = ble_backoff_delay_ms (bd_retry_count v)
      in v\<lparr>bd_retry_count := bd_retry_count v + 1, bd_last_attempt_ms := now_ms,
           bd_next_retry_ms := now_ms + delay\<rparr>)"

text \<open>
  \<open>ble_central_state_init\<close> after the mutex and the event group exist; \<open>notify_ok\<close> is the outcome of
  \<open>ble_central_notify_init\<close>. The memory behind the slots is cleared, so each generation starts at 0.
\<close>

definition ble_central_state_init :: "bool \<Rightarrow> bool \<Rightarrow> bool \<Rightarrow> ble_state \<Rightarrow> ble_state \<times> bool" where
  "ble_central_state_init mutex events notify_ok s =
     (if \<not> mutex \<or> \<not> events then (s, False)
      else (s\<lparr>bl_connections := replicate BLE_CENTRAL_MAX_CONN (fresh_slot BLE_CONN_FREE None 0),
              bl_ctxs := map (\<lambda>x. x\<lparr>bx_in_use := False\<rparr>) (bl_ctxs s),
              bl_metrics := zero_metrics, bl_host_ready := False\<rparr>, notify_ok))"

section \<open>Counters\<close>

definition metric_call :: "bool \<Rightarrow> (ble_central_metrics \<Rightarrow> ble_central_metrics) \<Rightarrow> ble_state \<Rightarrow> ble_state" where
  "metric_call lk f s = (if lk then count_metric f s else s)"

definition ble_central_metrics_connect_failure :: "bool \<Rightarrow> ble_state \<Rightarrow> ble_state" where
  "ble_central_metrics_connect_failure lk = metric_call lk (\<lambda>m. m\<lparr>bm_connect_failures := bm_connect_failures m + 1\<rparr>)"

definition ble_central_metrics_stale_callback :: "bool \<Rightarrow> ble_state \<Rightarrow> ble_state" where
  "ble_central_metrics_stale_callback lk = metric_call lk (\<lambda>m. m\<lparr>bm_stale_callbacks := bm_stale_callbacks m + 1\<rparr>)"

definition ble_central_metrics_security_failure :: "bool \<Rightarrow> ble_state \<Rightarrow> ble_state" where
  "ble_central_metrics_security_failure lk =
     metric_call lk (\<lambda>m. m\<lparr>bm_security_failures := bm_security_failures m + 1\<rparr>)"

definition ble_central_metrics_discovery_failure :: "bool \<Rightarrow> ble_state \<Rightarrow> ble_state" where
  "ble_central_metrics_discovery_failure lk =
     metric_call lk (\<lambda>m. m\<lparr>bm_discovery_failures := bm_discovery_failures m + 1\<rparr>)"

definition ble_central_metrics_notify_enqueued :: "bool \<Rightarrow> ble_state \<Rightarrow> ble_state" where
  "ble_central_metrics_notify_enqueued lk = metric_call lk (\<lambda>m. m\<lparr>bm_notify_enqueued := bm_notify_enqueued m + 1\<rparr>)"

definition ble_central_metrics_notify_dropped :: "bool \<Rightarrow> ble_state \<Rightarrow> ble_state" where
  "ble_central_metrics_notify_dropped lk = metric_call lk (\<lambda>m. m\<lparr>bm_notify_dropped := bm_notify_dropped m + 1\<rparr>)"

definition ble_central_metrics_notify_decode_error :: "bool \<Rightarrow> ble_state \<Rightarrow> ble_state" where
  "ble_central_metrics_notify_decode_error lk =
     metric_call lk (\<lambda>m. m\<lparr>bm_notify_decode_errors := bm_notify_decode_errors m + 1\<rparr>)"

definition ble_central_metrics_mtu_reject :: "bool \<Rightarrow> ble_state \<Rightarrow> ble_state" where
  "ble_central_metrics_mtu_reject lk = metric_call lk (\<lambda>m. m\<lparr>bm_mtu_rejects := bm_mtu_rejects m + 1\<rparr>)"

definition ble_central_metrics_notify_received :: "bool \<Rightarrow> ble_state \<Rightarrow> ble_state" where
  "ble_central_metrics_notify_received lk = metric_call lk (\<lambda>m. m\<lparr>bm_notify_received := bm_notify_received m + 1\<rparr>)"

definition ble_central_metrics_identity_persist_failure :: "bool \<Rightarrow> ble_state \<Rightarrow> ble_state" where
  "ble_central_metrics_identity_persist_failure lk =
     metric_call lk (\<lambda>m. m\<lparr>bm_identity_persist_failures := bm_identity_persist_failures m + 1\<rparr>)"

section \<open>The device table\<close>

text \<open>\<open>device_index < 0 || device_index >= DEVICE_STORE_MAX_DEVICES\<close> is the negation of this test.\<close>

definition index_ok :: "nat option \<Rightarrow> bool" where
  "index_ok d \<longleftrightarrow> (case d of None \<Rightarrow> False | Some i \<Rightarrow> i < DEVICE_STORE_MAX_DEVICES)"

definition ble_runtime_find_unlocked :: "ble_state \<Rightarrow> string \<Rightarrow> nat option" where
  "ble_runtime_find_unlocked s device_id =
     find_index (\<lambda>v. bd_in_use v \<and> bd_device_id v = device_id) (bl_devices s)"

definition new_device :: "string \<Rightarrow> ble_addr option \<Rightarrow> ble_device_runtime" where
  "new_device device_id addr =
     zero_ble_device\<lparr>bd_in_use := True, bd_device_id := strlcpy GW_MSG_DEVICE_ID_LEN device_id,
       bd_peer_addr := (case addr of Some a \<Rightarrow> a | None \<Rightarrow> bd_peer_addr zero_ble_device),
       bd_has_peer_addr := (addr \<noteq> None), bd_connection_slot := None, bd_state := BLE_DEVICE_OFFLINE,
       bd_reconnect_enabled := True\<rparr>"

definition ble_runtime_register_unlocked ::
    "string \<Rightarrow> ble_addr option \<Rightarrow> ble_state \<Rightarrow> ble_state \<times> (ble_central_err + nat)" where
  "ble_runtime_register_unlocked device_id addr s =
     (case find_index (\<lambda>v. \<not> bd_in_use v) (bl_devices s) of
        Some i \<Rightarrow> (dev_map i (\<lambda>_. new_device device_id addr) s, Inr i)
      | None \<Rightarrow> (s, Inl BLE_CENTRAL_ERR_NO_SLOT))"

fun register_stored :: "device_entry list \<Rightarrow> ble_state \<Rightarrow> ble_state" where
  "register_stored [] s = s"
| "register_stored (e # es) s =
     register_stored es
       (if de_has_ble_identity e
        then fst (ble_runtime_register_unlocked (de_device_id e) (Some (de_ble_addr_type e, de_ble_addr e)) s)
        else s)"

text \<open>\<open>stored\<close> is what \<open>device_store_snapshot\<close> returned, \<open>None\<close> when it failed.\<close>

definition ble_central_runtime_init ::
    "bool \<Rightarrow> device_entry list option \<Rightarrow> ble_state \<Rightarrow> ble_state \<times> ble_central_err" where
  "ble_central_runtime_init lk stored s =
     (case stored of
        None \<Rightarrow> (s, BLE_CENTRAL_ERR_STACK)
      | Some devices \<Rightarrow>
          if \<not> lk then (s, BLE_CENTRAL_ERR_STATE)
          else (register_stored devices (s\<lparr>bl_devices := replicate DEVICE_STORE_MAX_DEVICES zero_ble_device\<rparr>),
                BLE_CENTRAL_OK))"

definition ble_runtime_find :: "bool \<Rightarrow> string option \<Rightarrow> ble_state \<Rightarrow> ble_central_err + nat" where
  "ble_runtime_find lk device_id s =
     (case device_id of
        None \<Rightarrow> Inl BLE_CENTRAL_ERR_INVALID_ARG
      | Some ident \<Rightarrow>
          if \<not> lk then Inl BLE_CENTRAL_ERR_INVALID_ARG
          else (case ble_runtime_find_unlocked s ident of
                  Some i \<Rightarrow> Inr i
                | None \<Rightarrow> Inl BLE_CENTRAL_ERR_NOT_FOUND))"

definition ble_runtime_find_or_register ::
    "bool \<Rightarrow> string option \<Rightarrow> ble_addr option \<Rightarrow> ble_state \<Rightarrow> ble_state \<times> (ble_central_err + nat)" where
  "ble_runtime_find_or_register lk device_id addr s =
     (case device_id of
        None \<Rightarrow> (s, Inl BLE_CENTRAL_ERR_INVALID_ARG)
      | Some ident \<Rightarrow>
          if \<not> lk then (s, Inl BLE_CENTRAL_ERR_INVALID_ARG)
          else (case ble_runtime_find_unlocked s ident of
                  Some i \<Rightarrow>
                    ((case addr of
                        Some a \<Rightarrow> dev_map i (\<lambda>v. v\<lparr>bd_peer_addr := a, bd_has_peer_addr := True\<rparr>) s
                      | None \<Rightarrow> s), Inr i)
                | None \<Rightarrow> ble_runtime_register_unlocked ident addr s))"

definition ble_runtime_snapshot :: "bool \<Rightarrow> nat option \<Rightarrow> ble_state \<Rightarrow> ble_device_runtime option" where
  "ble_runtime_snapshot lk d s =
     (if \<not> index_ok d \<or> \<not> lk then None
      else if bd_in_use (dev s (the d)) then Some (dev s (the d)) else None)"

definition ble_runtime_get_peer_addr :: "bool \<Rightarrow> nat option \<Rightarrow> ble_state \<Rightarrow> ble_addr option" where
  "ble_runtime_get_peer_addr lk d s =
     (if \<not> index_ok d \<or> \<not> lk then None
      else if bd_in_use (dev s (the d)) \<and> bd_has_peer_addr (dev s (the d))
           then Some (bd_peer_addr (dev s (the d))) else None)"

definition ble_runtime_set_peer_addr ::
    "bool \<Rightarrow> nat option \<Rightarrow> ble_addr option \<Rightarrow> ble_state \<Rightarrow> ble_state \<times> bool" where
  "ble_runtime_set_peer_addr lk d addr s =
     (case addr of
        None \<Rightarrow> (s, False)
      | Some a \<Rightarrow>
          if \<not> index_ok d \<or> \<not> lk then (s, False)
          else if bd_in_use (dev s (the d))
               then (dev_map (the d) (\<lambda>v. v\<lparr>bd_peer_addr := a, bd_has_peer_addr := True\<rparr>) s, True)
               else (s, False))"

definition ble_runtime_get_device_id :: "bool \<Rightarrow> nat option \<Rightarrow> nat \<Rightarrow> ble_state \<Rightarrow> string option" where
  "ble_runtime_get_device_id lk d cap s =
     (if cap = 0 \<or> \<not> index_ok d \<or> \<not> lk then None
      else if bd_in_use (dev s (the d)) then Some (strlcpy cap (bd_device_id (dev s (the d)))) else None)"

definition ble_runtime_finalize_remove :: "bool \<Rightarrow> nat option \<Rightarrow> ble_state \<Rightarrow> ble_state" where
  "ble_runtime_finalize_remove lk d s =
     (if \<not> index_ok d \<or> \<not> lk then s
      else if bd_in_use (dev s (the d)) \<and> bd_state (dev s (the d)) = BLE_DEVICE_REMOVING
           then dev_map (the d) (\<lambda>_. zero_ble_device) s else s)"

section \<open>The reconnect schedule\<close>

definition ble_scheduler_note_success :: "bool \<Rightarrow> nat option \<Rightarrow> int \<Rightarrow> ble_state \<Rightarrow> ble_state" where
  "ble_scheduler_note_success lk d now_ms s =
     (if \<not> index_ok d \<or> \<not> lk then s
      else if bd_in_use (dev s (the d)) \<and> bd_state (dev s (the d)) \<noteq> BLE_DEVICE_REMOVING
           then dev_map (the d) (\<lambda>v. v\<lparr>bd_retry_count := 0, bd_last_attempt_ms := now_ms, bd_next_retry_ms := 0\<rparr>) s
           else s)"

definition connectable :: "int \<Rightarrow> ble_device_runtime \<Rightarrow> bool" where
  "connectable now_ms v \<longleftrightarrow>
     bd_in_use v \<and> bd_reconnect_enabled v \<and>
     (bd_state v = BLE_DEVICE_OFFLINE \<or> bd_state v = BLE_DEVICE_BACKOFF) \<and>
     bd_connection_slot v = None \<and> bd_has_peer_addr v \<and> bd_next_retry_ms v \<le> now_ms"

text \<open>The loop over \<open>n\<close> looks at the devices from the cursor on and wraps around.\<close>

definition scan_order :: "nat \<Rightarrow> nat list" where
  "scan_order cursor = map (\<lambda>n. (cursor + n) mod DEVICE_STORE_MAX_DEVICES) [0..<DEVICE_STORE_MAX_DEVICES]"

definition ble_scheduler_next_device :: "bool \<Rightarrow> int \<Rightarrow> ble_state \<Rightarrow> ble_state \<times> (ble_central_err + nat)" where
  "ble_scheduler_next_device lk now_ms s =
     (if \<not> lk then (s, Inl BLE_CENTRAL_ERR_STATE)
      else (case find_index (\<lambda>i. connectable now_ms (dev s i)) (scan_order (bl_cursor s)) of
              Some n \<Rightarrow>
                (let i = scan_order (bl_cursor s) ! n
                 in (s\<lparr>bl_cursor := (i + 1) mod DEVICE_STORE_MAX_DEVICES\<rparr>, Inr i))
            | None \<Rightarrow> (s, Inl BLE_CENTRAL_ERR_NOT_FOUND)))"

definition ble_scheduler_note_failure :: "bool \<Rightarrow> nat option \<Rightarrow> int \<Rightarrow> ble_state \<Rightarrow> ble_state" where
  "ble_scheduler_note_failure lk d now_ms s =
     (if \<not> index_ok d \<or> \<not> lk then s
      else let v = dev s (the d)
           in if bd_in_use v \<and> bd_state v = BLE_DEVICE_CONNECTING
              then dev_map (the d)
                     (\<lambda>v. (ble_schedule_retry_unlocked now_ms v)\<lparr>bd_connection_slot := None, bd_state := BLE_DEVICE_BACKOFF\<rparr>)
                     (case bd_connection_slot v of
                        Some i \<Rightarrow> if i < BLE_CENTRAL_MAX_CONN \<and> bc_device_index (conn s i) = d
                                  then ble_state_reset_slot_free_unlocked i s else s
                      | None \<Rightarrow> s)
              else s)"

section \<open>The life of a connection\<close>

definition ble_state_reserve_connection ::
    "bool \<Rightarrow> nat option \<Rightarrow> int \<Rightarrow> ble_state \<Rightarrow> ble_state \<times> (ble_central_err + ble_conn_ref)" where
  "ble_state_reserve_connection lk d now_ms s =
     (if \<not> index_ok d then (s, Inl BLE_CENTRAL_ERR_INVALID_ARG)
      else if \<not> lk then (s, Inl BLE_CENTRAL_ERR_STATE)
      else let v = dev s (the d)
           in if \<not> bd_in_use v then (s, Inl BLE_CENTRAL_ERR_NOT_FOUND)
              else if bd_state v \<noteq> BLE_DEVICE_OFFLINE \<and> bd_state v \<noteq> BLE_DEVICE_BACKOFF
              then (s, Inl BLE_CENTRAL_ERR_BUSY)
              else if bd_connection_slot v \<noteq> None then (s, Inl BLE_CENTRAL_ERR_STATE)
              else if \<exists>c\<in>set (bl_connections s). bc_state c = BLE_CONN_CONNECTING
              then (s, Inl BLE_CENTRAL_ERR_CONNECT_IN_PROGRESS)
              else (case find_index (\<lambda>c. bc_state c = BLE_CONN_FREE) (bl_connections s) of
                      None \<Rightarrow> (s, Inl BLE_CENTRAL_ERR_NO_SLOT)
                    | Some i \<Rightarrow>
                        (let s' = count_metric (\<lambda>m. m\<lparr>bm_connect_attempts := bm_connect_attempts m + 1\<rparr>)
                                    (dev_map (the d)
                                       (\<lambda>v. v\<lparr>bd_connection_slot := Some i, bd_state := BLE_DEVICE_CONNECTING,
                                              bd_last_attempt_ms := now_ms\<rparr>)
                                       (ble_conn_prepare_new_lifetime_unlocked i (the d) s))
                         in (s', Inr \<lparr>rf_slot_index = i, rf_generation = bc_generation (conn s' i)\<rparr>))))"

definition free_owned_slot :: "ble_conn_ref \<Rightarrow> ble_state \<Rightarrow> ble_state" where
  "free_owned_slot ref s =
     (if ble_ref_valid_unlocked s ref \<and> index_ok (bc_device_index (conn s (rf_slot_index ref)))
      then ble_conn_reset_to_free_unlocked (rf_slot_index ref) s else s)"

definition detach_device :: "nat \<Rightarrow> int \<Rightarrow> ble_state \<Rightarrow> ble_state" where
  "detach_device i now_ms s =
     (case find_index (\<lambda>v. bd_in_use v \<and> bd_connection_slot v = Some i) (bl_devices s) of
        None \<Rightarrow> s
      | Some d \<Rightarrow>
          dev_map d (\<lambda>v. if bd_state v = BLE_DEVICE_CONNECTING
                         then ble_schedule_retry_unlocked now_ms
                                (v\<lparr>bd_connection_slot := None, bd_state := BLE_DEVICE_BACKOFF\<rparr>)
                         else v\<lparr>bd_connection_slot := None\<rparr>) s)"

definition ble_state_rollback_connection_start :: "bool \<Rightarrow> ble_conn_ref \<Rightarrow> int \<Rightarrow> ble_state \<Rightarrow> ble_state" where
  "ble_state_rollback_connection_start lk ref now_ms s =
     (if \<not> lk then s
      else count_metric (\<lambda>m. m\<lparr>bm_connect_failures := bm_connect_failures m + 1\<rparr>)
             (detach_device (rf_slot_index ref) now_ms (free_owned_slot ref s)))"

definition ble_conn_snapshot :: "bool \<Rightarrow> ble_conn_ref \<Rightarrow> ble_state \<Rightarrow> ble_conn_slot option" where
  "ble_conn_snapshot lk ref s =
     (if \<not> lk then None
      else if ble_ref_valid_unlocked s ref then Some (conn s (rf_slot_index ref)) else None)"

definition ble_conn_find_by_handle ::
    "bool \<Rightarrow> u16 \<Rightarrow> nat \<Rightarrow> ble_state \<Rightarrow> ble_central_err + nat \<times> ble_conn_ref \<times> string option" where
  "ble_conn_find_by_handle lk conn_handle cap s =
     (if \<not> lk then Inl BLE_CENTRAL_ERR_STATE
      else (case find_index (\<lambda>c. bc_state c \<noteq> BLE_CONN_FREE \<and> bc_conn_handle c = conn_handle) (bl_connections s) of
              None \<Rightarrow> Inl BLE_CENTRAL_ERR_NOT_FOUND
            | Some i \<Rightarrow>
                Inr (i, \<lparr>rf_slot_index = i, rf_generation = bc_generation (conn s i)\<rparr>,
                     if 0 < cap \<and> index_ok (bc_device_index (conn s i))
                     then Some (strlcpy cap (bd_device_id (dev s (the (bc_device_index (conn s i)))))) else None)))"

definition ctx_of_ref :: "ble_conn_ref \<Rightarrow> ble_state \<Rightarrow> nat option" where
  "ctx_of_ref ref s = find_index (\<lambda>x. bx_in_use x \<and> bx_ref x = ref) (bl_ctxs s)"

definition ble_state_ctx_update_handle :: "bool \<Rightarrow> ble_conn_ref \<Rightarrow> u16 \<Rightarrow> ble_state \<Rightarrow> ble_state" where
  "ble_state_ctx_update_handle lk ref conn_handle s =
     (if \<not> lk then s
      else (case ctx_of_ref ref s of
              Some x \<Rightarrow> ctx_map x (\<lambda>x. x\<lparr>bx_conn_handle := conn_handle\<rparr>) s
            | None \<Rightarrow> s))"

definition ble_state_on_connect_success :: "bool \<Rightarrow> ble_conn_ref \<Rightarrow> u16 \<Rightarrow> int \<Rightarrow> ble_state \<Rightarrow> ble_state \<times> bool" where
  "ble_state_on_connect_success lk ref conn_handle now_ms s =
     (if \<not> lk then (s, False)
      else if ble_ref_valid_unlocked s ref \<and> bc_state (conn s (rf_slot_index ref)) = BLE_CONN_CONNECTING
      then (let s' = conn_map (rf_slot_index ref)
                       (\<lambda>c. c\<lparr>bc_conn_handle := conn_handle, bc_state := BLE_CONN_SECURING, bc_started_ms := now_ms\<rparr>) s
            in (case ctx_of_ref ref s' of
                  Some x \<Rightarrow> ctx_map x (\<lambda>x. x\<lparr>bx_conn_handle := conn_handle\<rparr>) s'
                | None \<Rightarrow> s', True))
      else (s, False))"

text \<open>
  What \<open>ble_state_on_disconnect\<close> writes through its pointers: the device's name, whether it is being
  removed, and its address if it has one. The source reads \<open>dev->state\<close> for the second after it gave
  the mutex back; the model reads it within the section.
\<close>

record disconnect_info =
  di_device_id :: string
  di_removing :: bool
  di_peer_addr :: "ble_addr option"

definition event_matches :: "ble_conn_ref \<Rightarrow> u16 \<Rightarrow> ble_state \<Rightarrow> bool" where
  "event_matches ref conn_handle s \<longleftrightarrow>
     ble_ref_valid_unlocked s ref \<and> bc_conn_handle (conn s (rf_slot_index ref)) = conn_handle"

definition live_device :: "nat option \<Rightarrow> ble_state \<Rightarrow> nat option" where
  "live_device d s = (if index_ok d \<and> bd_in_use (dev s (the d)) then d else None)"

definition ble_state_on_disconnect ::
    "bool \<Rightarrow> ble_conn_ref \<Rightarrow> u16 \<Rightarrow> int \<Rightarrow> nat \<Rightarrow> ble_state \<Rightarrow> ble_state \<times> disconnect_info option" where
  "ble_state_on_disconnect lk ref conn_handle now_ms cap s =
     (if \<not> lk then (s, None)
      else if \<not> event_matches ref conn_handle s
      then (count_metric (\<lambda>m. m\<lparr>bm_stale_callbacks := bm_stale_callbacks m + 1\<rparr>) s, None)
      else let owner = live_device (bc_device_index (conn s (rf_slot_index ref))) s;
               s1 = ble_conn_reset_to_free_unlocked (rf_slot_index ref) s;
               s2 = (case owner of
                       None \<Rightarrow> s1
                     | Some d \<Rightarrow>
                         dev_map d (\<lambda>v. if bd_state v \<noteq> BLE_DEVICE_REMOVING
                                        then ble_schedule_retry_unlocked now_ms
                                               (v\<lparr>bd_connection_slot := None, bd_state := BLE_DEVICE_BACKOFF\<rparr>)
                                        else v\<lparr>bd_connection_slot := None\<rparr>) s1);
               info = (case owner of
                         None \<Rightarrow> \<lparr>di_device_id = [], di_removing = False, di_peer_addr = None\<rparr>
                       | Some d \<Rightarrow>
                           \<lparr>di_device_id = strlcpy cap (bd_device_id (dev s d)),
                            di_removing = (bd_state (dev s2 d) = BLE_DEVICE_REMOVING),
                            di_peer_addr = (if bd_has_peer_addr (dev s d) then Some (bd_peer_addr (dev s d)) else None)\<rparr>)
           in (count_metric (\<lambda>m. m\<lparr>bm_disconnects := bm_disconnects m + 1\<rparr>) s2, Some info))"

definition ble_state_mark_disconnecting :: "bool \<Rightarrow> ble_conn_ref \<Rightarrow> ble_state \<Rightarrow> ble_state" where
  "ble_state_mark_disconnecting lk ref s =
     (if \<not> lk then s
      else if ble_ref_valid_unlocked s ref \<and> bc_state (conn s (rf_slot_index ref)) \<noteq> BLE_CONN_DISCONNECTING
      then conn_map (rf_slot_index ref) (\<lambda>c. c\<lparr>bc_state := BLE_CONN_DISCONNECTING\<rparr>) s else s)"

definition ble_state_update_mtu :: "bool \<Rightarrow> ble_conn_ref \<Rightarrow> u16 \<Rightarrow> u16 \<Rightarrow> ble_state \<Rightarrow> ble_state" where
  "ble_state_update_mtu lk ref conn_handle mtu s =
     (if \<not> lk then s
      else if event_matches ref conn_handle s \<and> 23 \<le> mtu
      then conn_map (rf_slot_index ref) (\<lambda>c. c\<lparr>bc_mtu := mtu\<rparr>) s
      else count_metric (\<lambda>m. m\<lparr>bm_stale_callbacks := bm_stale_callbacks m + 1\<rparr>) s)"

definition ble_state_set_ready :: "bool \<Rightarrow> ble_conn_ref \<Rightarrow> ble_state \<Rightarrow> ble_state" where
  "ble_state_set_ready lk ref s =
     (if \<not> lk then s
      else if ble_ref_valid_unlocked s ref
      then conn_map (rf_slot_index ref) (\<lambda>c. c\<lparr>bc_state := BLE_CONN_READY\<rparr>) s else s)"

definition ble_state_begin_discovery :: "bool \<Rightarrow> ble_conn_ref \<Rightarrow> int \<Rightarrow> ble_state \<Rightarrow> ble_state \<times> u16" where
  "ble_state_begin_discovery lk ref now_ms s =
     (if \<not> lk then (s, BLE_HS_CONN_HANDLE_NONE)
      else if ble_ref_valid_unlocked s ref \<and> bc_state (conn s (rf_slot_index ref)) = BLE_CONN_SECURING
      then (conn_map (rf_slot_index ref)
              (\<lambda>c. c\<lparr>bc_state := BLE_CONN_DISCOVERING, bc_discovery_started_ms := now_ms\<rparr>) s,
            bc_conn_handle (conn s (rf_slot_index ref)))
      else (s, BLE_HS_CONN_HANDLE_NONE))"

definition ble_state_set_service_range :: "bool \<Rightarrow> ble_conn_ref \<Rightarrow> u16 \<Rightarrow> u16 \<Rightarrow> ble_state \<Rightarrow> ble_state \<times> bool" where
  "ble_state_set_service_range lk ref start_handle end_handle s =
     (if \<not> lk then (s, False)
      else if ble_ref_valid_unlocked s ref
      then (conn_map (rf_slot_index ref)
              (\<lambda>c. c\<lparr>bc_service_start_handle := start_handle, bc_service_end_handle := end_handle\<rparr>) s, True)
      else (s, False))"

definition ble_state_set_char_handle :: "bool \<Rightarrow> ble_conn_ref \<Rightarrow> u16 \<Rightarrow> u16 \<Rightarrow> ble_state \<Rightarrow> ble_state \<times> bool" where
  "ble_state_set_char_handle lk ref uuid16 val_handle s =
     (if \<not> lk then (s, False)
      else if ble_ref_valid_unlocked s ref
      then (if uuid16 = BLE_GATEWAY_COMMAND_UUID
            then (conn_map (rf_slot_index ref) (\<lambda>c. c\<lparr>bc_command_val_handle := val_handle\<rparr>) s, True)
            else if uuid16 = BLE_GATEWAY_STATUS_UUID
            then (conn_map (rf_slot_index ref) (\<lambda>c. c\<lparr>bc_status_val_handle := val_handle\<rparr>) s, True)
            else (s, False))
      else (s, False))"

definition ble_state_set_cccd_handle :: "bool \<Rightarrow> ble_conn_ref \<Rightarrow> u16 \<Rightarrow> u16 \<Rightarrow> ble_state \<Rightarrow> ble_state \<times> bool" where
  "ble_state_set_cccd_handle lk ref chr_val_handle dsc_handle s =
     (if \<not> lk then (s, False)
      else if ble_ref_valid_unlocked s ref
      then (if bc_status_val_handle (conn s (rf_slot_index ref)) = chr_val_handle
            then (conn_map (rf_slot_index ref) (\<lambda>c. c\<lparr>bc_status_cccd_handle := dsc_handle\<rparr>) s, True)
            else (s, False))
      else (s, False))"

section \<open>Time-outs and resets of the host\<close>

definition security_timeout :: "int \<Rightarrow> ble_conn_slot \<Rightarrow> bool" where
  "security_timeout now_ms c \<longleftrightarrow>
     bc_state c = BLE_CONN_SECURING \<and> BLE_SECURITY_TIMEOUT_MS \<le> now_ms - bc_started_ms c"

definition discovery_timeout :: "int \<Rightarrow> ble_conn_slot \<Rightarrow> bool" where
  "discovery_timeout now_ms c \<longleftrightarrow>
     bc_state c = BLE_CONN_DISCOVERING \<and> 0 < bc_discovery_started_ms c \<and>
     BLE_GATT_DISCOVERY_TIMEOUT_MS \<le> now_ms - bc_discovery_started_ms c"

definition timeout_entry :: "int \<Rightarrow> ble_state \<Rightarrow> ble_conn_slot \<Rightarrow> ble_timeout_entry" where
  "timeout_entry now_ms s c =
     \<lparr>bt_conn_handle = bc_conn_handle c, bt_is_discovery = discovery_timeout now_ms c,
      bt_device_id = (if index_ok (bc_device_index c)
                      then strlcpy GW_MSG_DEVICE_ID_LEN (bd_device_id (dev s (the (bc_device_index c)))) else [])\<rparr>"

definition ble_state_collect_timeouts :: "bool \<Rightarrow> int \<Rightarrow> nat \<Rightarrow> ble_state \<Rightarrow> ble_timeout_entry list" where
  "ble_state_collect_timeouts lk now_ms max_entries s =
     (if max_entries = 0 \<or> \<not> lk then []
      else take max_entries
             (map (timeout_entry now_ms s)
                (filter (\<lambda>c. security_timeout now_ms c \<or> discovery_timeout now_ms c) (bl_connections s))))"

definition reset_slot :: "ble_conn_slot \<Rightarrow> ble_conn_slot" where
  "reset_slot c = (if bc_state c = BLE_CONN_FREE then c else fresh_slot BLE_CONN_FREE None (bc_generation c + 1))"

definition reset_device :: "ble_device_runtime \<Rightarrow> ble_device_runtime" where
  "reset_device v =
     (if \<not> bd_in_use v then v
      else if bd_state v = BLE_DEVICE_REMOVING then zero_ble_device
      else v\<lparr>bd_connection_slot := None,
             bd_state := (if bd_state v = BLE_DEVICE_CONNECTING \<or> bd_state v = BLE_DEVICE_CONNECTED \<or>
                             bd_state v = BLE_DEVICE_BACKOFF then BLE_DEVICE_OFFLINE else bd_state v),
             bd_last_attempt_ms := 0, bd_next_retry_ms := 0\<rparr>)"

definition had_link :: "ble_device_runtime \<Rightarrow> bool" where
  "had_link v \<longleftrightarrow> bd_connection_slot v \<noteq> None \<or> bd_state v = BLE_DEVICE_CONNECTED \<or> bd_state v = BLE_DEVICE_CONNECTING"

definition ble_state_handle_host_reset :: "bool \<Rightarrow> nat \<Rightarrow> ble_state \<Rightarrow> ble_state \<times> string list" where
  "ble_state_handle_host_reset lk max_ids s =
     (if \<not> lk then (s, [])
      else (s\<lparr>bl_connections := map reset_slot (bl_connections s),
              bl_ctxs := map (\<lambda>x. x\<lparr>bx_in_use := False\<rparr>) (bl_ctxs s),
              bl_devices := map reset_device (bl_devices s),
              bl_metrics := (bl_metrics s)\<lparr>bm_host_resets := bm_host_resets (bl_metrics s) + 1\<rparr>\<rparr>,
            take max_ids (map bd_device_id
              (filter (\<lambda>v. bd_in_use v \<and> (had_link v \<or> bd_state v = BLE_DEVICE_REMOVING)) (bl_devices s)))))"

section \<open>Callback contexts\<close>

definition ble_state_ctx_acquire :: "bool \<Rightarrow> ble_conn_ref \<Rightarrow> ble_state \<Rightarrow> ble_state \<times> nat option" where
  "ble_state_ctx_acquire lk ref s =
     (if \<not> lk then (s, None)
      else if \<not> ble_ref_valid_unlocked s ref then (s, None)
      else (case find_index (\<lambda>x. \<not> bx_in_use x) (bl_ctxs s) of
              Some x \<Rightarrow>
                (ctx_map x (\<lambda>_. \<lparr>bx_in_use = True, bx_ref = ref,
                                 bx_conn_handle = bc_conn_handle (conn s (rf_slot_index ref))\<rparr>) s, Some x)
            | None \<Rightarrow> (s, None)))"

definition ble_state_ctx_release_by_ref :: "bool \<Rightarrow> ble_conn_ref \<Rightarrow> ble_state \<Rightarrow> ble_state" where
  "ble_state_ctx_release_by_ref lk ref s =
     (if \<not> lk then s
      else (case ctx_of_ref ref s of
              Some x \<Rightarrow> ctx_map x (\<lambda>x. x\<lparr>bx_in_use := False\<rparr>) s
            | None \<Rightarrow> s))"

definition ble_state_ctx_snapshot :: "bool \<Rightarrow> nat \<Rightarrow> ble_state \<Rightarrow> ble_conn_slot option" where
  "ble_state_ctx_snapshot lk x s =
     (let ctx = bl_ctxs s ! x
      in if \<not> lk then None
         else if bx_in_use ctx \<and> ble_ref_valid_unlocked s (bx_ref ctx)
         then Some (conn s (rf_slot_index (bx_ref ctx))) else None)"

definition ble_central_active_count_unlocked :: "ble_state \<Rightarrow> nat" where
  "ble_central_active_count_unlocked s =
     count_if (\<lambda>c. bc_state c \<noteq> BLE_CONN_FREE \<and> bc_conn_handle c \<noteq> BLE_HS_CONN_HANDLE_NONE) (bl_connections s)"

definition ble_central_calculate_conn_interval :: "bool \<Rightarrow> ble_state \<Rightarrow> u16" where
  "ble_central_calculate_conn_interval lk s =
     (let active = (if lk then ble_central_active_count_unlocked s else 0)
      in if active < 3 then BLE_CONN_ITVL_FAST_UNITS
         else if active < 6 then BLE_CONN_ITVL_MEDIUM_UNITS else BLE_CONN_ITVL_BUSY_UNITS)"

end
