(* ===== verification/Ble_Central.thy ===== *)
theory Ble_Central
  imports Ble_State Cbor_Codec Device_Store
begin

text \<open>
  The BLE central over its tables: the public functions (\<open>ble_central/ble_central.c\<close>), the start of a
  connection (\<open>ble_central_state.c\<close>), the handler of the host stack's GAP events
  (\<open>ble_central_gap.c\<close>), the GATT discovery (\<open>ble_central_gatt.c\<close>) and the reconnect supervisor
  (\<open>ble_central_supervisor.c\<close>).

  NimBLE is not modelled. Its calls are outputs, and what the code reads from it is in the record
  \<open>ble_env\<close>: the result codes of the calls, the descriptor of a connection, whether a scan runs. The
  clock and the outcome of taking the mutex are functions of the place of the call in the text of the
  function, counted from 0. A callback context is its index in \<open>bl_ctxs\<close>.
\<close>

section \<open>The host stack\<close>

datatype hs_rc = HS_OK | BLE_HS_EALREADY | BLE_HS_ENOENT | BLE_HS_EDONE | HS_ERROR nat

datatype ble_output =
    GapConnect ble_addr u16 u16 nat
  | GapConnCancel
  | GapTerminate u16
  | GapSecurityInitiate u16
  | GattExchangeMtu u16
  | GattDiscService u16 nat
  | GattDiscChars u16 u16 u16 nat
  | GattDiscDescriptors u16 u16 u16 nat
  | GattWrite u16 u16 "u8 list" nat
  | GattWriteNoRsp u16 u16 "u8 list"
  | StoreDeletePeer ble_addr
  | IdentitySubmit string ble_addr
  | NotifyEnqueue string "u8 list"
  | EmitReady string
  | EmitDisconnected string

record ble_env =
  be_lock :: "nat \<Rightarrow> bool"
  be_now :: "nat \<Rightarrow> int"
  be_rc :: hs_rc
  be_peer :: "ble_addr option"
  be_disc_active :: bool
  be_ready_cb :: bool
  be_disconnect_cb :: bool

definition ble_central_emit_ready :: "ble_env \<Rightarrow> string \<Rightarrow> ble_output list" where
  "ble_central_emit_ready env device_id = (if be_ready_cb env \<and> device_id \<noteq> [] then [EmitReady device_id] else [])"

definition ble_central_emit_disconnected :: "ble_env \<Rightarrow> string \<Rightarrow> ble_output list" where
  "ble_central_emit_disconnected env device_id =
     (if be_disconnect_cb env \<and> device_id \<noteq> [] then [EmitDisconnected device_id] else [])"

section \<open>Starting a connection\<close>

definition ble_connection_start ::
    "ble_env \<Rightarrow> nat option \<Rightarrow> ble_state \<Rightarrow> ble_state \<times> ble_central_err \<times> ble_output list" where
  "ble_connection_start env d s =
     (case ble_state_reserve_connection (be_lock env 0) d (be_now env 0) s of
        (s1, Inl rc) \<Rightarrow> (s1, rc, [])
      | (s1, Inr ref) \<Rightarrow>
          (case (ble_runtime_get_device_id (be_lock env 1) d GW_MSG_DEVICE_ID_LEN s1,
                 ble_runtime_get_peer_addr (be_lock env 2) d s1) of
             (Some device_id, Some peer_addr) \<Rightarrow>
               (case ble_state_ctx_acquire (be_lock env 4) ref s1 of
                  (s2, None) \<Rightarrow>
                    (ble_state_rollback_connection_start (be_lock env 5) ref (be_now env 2) s2,
                     BLE_CENTRAL_ERR_NO_RESOURCE, [])
                | (s2, Some x) \<Rightarrow>
                    (let out = [GapConnect peer_addr
                                  (ble_central_calculate_conn_interval (be_lock env 6) s2)
                                  (ble_central_calculate_conn_interval (be_lock env 7) s2) x]
                     in if be_rc env \<noteq> HS_OK
                        then (ble_state_rollback_connection_start (be_lock env 9) ref (be_now env 3)
                                (ble_state_ctx_release_by_ref (be_lock env 8) ref s2),
                              BLE_CENTRAL_ERR_STACK, out)
                        else (s2, BLE_CENTRAL_OK, out)))
           | _ \<Rightarrow> (ble_state_rollback_connection_start (be_lock env 3) ref (be_now env 1) s1,
                   BLE_CENTRAL_ERR_NOT_FOUND, [])))"

section \<open>GATT discovery\<close>

text \<open>\<open>ble_ctx_ref\<close> is \<open>ctx->ref\<close>, which the callbacks read without the mutex.\<close>

definition ble_ctx_ref :: "nat \<Rightarrow> ble_state \<Rightarrow> ble_conn_ref" where
  "ble_ctx_ref x s = bx_ref (bl_ctxs s ! x)"

definition ble_central_abort_discovery :: "ble_env \<Rightarrow> nat \<Rightarrow> ble_state \<Rightarrow> ble_state \<times> ble_output list" where
  "ble_central_abort_discovery env x s =
     (case ble_state_ctx_snapshot (be_lock env 10) x s of
        None \<Rightarrow> (ble_central_metrics_stale_callback (be_lock env 11) s, [])
      | Some snap \<Rightarrow>
          (ble_central_metrics_discovery_failure (be_lock env 12) s,
           if bc_conn_handle snap \<noteq> BLE_HS_CONN_HANDLE_NONE then [GapTerminate (bc_conn_handle snap)] else []))"

definition ble_central_start_gatt_discovery :: "ble_env \<Rightarrow> nat \<Rightarrow> ble_state \<Rightarrow> ble_state \<times> ble_output list" where
  "ble_central_start_gatt_discovery env x s =
     (case ble_state_begin_discovery (be_lock env 9) (ble_ctx_ref x s) (be_now env 0) s of
        (s1, conn_handle) \<Rightarrow>
          if conn_handle = BLE_HS_CONN_HANDLE_NONE then (s1, [])
          else if be_rc env \<noteq> HS_OK
          then (case ble_central_abort_discovery env x s1 of
                  (s2, out) \<Rightarrow> (s2, GattDiscService conn_handle x # out))
          else (s1, [GattDiscService conn_handle x]))"

definition gatt_mark_ready :: "ble_env \<Rightarrow> nat \<Rightarrow> ble_conn_slot \<Rightarrow> ble_state \<Rightarrow> ble_state \<times> ble_output list" where
  "gatt_mark_ready env x snap s =
     (let device_id = (case ble_runtime_get_device_id (be_lock env 2) (bc_device_index snap) GW_MSG_DEVICE_ID_LEN s of
                         Some ident \<Rightarrow> ident | None \<Rightarrow> []);
          s1 = ble_state_set_ready (be_lock env 3) (ble_ctx_ref x s) s;
          s2 = ble_scheduler_note_success (be_lock env 4) (bc_device_index snap) (be_now env 0) s1
      in (s2, ble_central_emit_ready env device_id))"

text \<open>The test every GATT callback begins with; the counter is incremented when it fails.\<close>

definition gatt_snapshot :: "ble_env \<Rightarrow> nat \<Rightarrow> u16 \<Rightarrow> ble_state \<Rightarrow> ble_conn_slot option" where
  "gatt_snapshot env x conn_handle s =
     (case ble_state_ctx_snapshot (be_lock env 0) x s of
        None \<Rightarrow> None
      | Some snap \<Rightarrow> if bc_conn_handle snap \<noteq> conn_handle then None else Some snap)"

definition on_subscribe_write ::
    "ble_env \<Rightarrow> nat \<Rightarrow> u16 \<Rightarrow> hs_rc \<Rightarrow> ble_state \<Rightarrow> ble_state \<times> ble_output list" where
  "on_subscribe_write env x conn_handle status s =
     (case gatt_snapshot env x conn_handle s of
        None \<Rightarrow> (ble_central_metrics_stale_callback (be_lock env 1) s, [])
      | Some snap \<Rightarrow>
          if status \<noteq> HS_OK then ble_central_abort_discovery env x s
          else gatt_mark_ready env x snap s)"

text \<open>
  A discovered attribute is \<open>None\<close> when the pointer is \<open>NULL\<close>: a descriptor is its handle and whether
  its UUID is that of a client characteristic configuration, a characteristic its UUID, whether it can
  be written without response and can notify, and its value handle, a service its range.
\<close>

definition on_descriptor_discovered ::
    "ble_env \<Rightarrow> nat \<Rightarrow> u16 \<Rightarrow> hs_rc \<Rightarrow> u16 \<Rightarrow> (bool \<times> u16) option \<Rightarrow> ble_state \<Rightarrow> ble_state \<times> ble_output list" where
  "on_descriptor_discovered env x conn_handle status chr_val_handle descriptor s =
     (case gatt_snapshot env x conn_handle s of
        None \<Rightarrow> (ble_central_metrics_stale_callback (be_lock env 1) s, [])
      | Some snap \<Rightarrow>
          if status = HS_OK \<and> descriptor \<noteq> None
          then (if chr_val_handle = bc_status_val_handle snap \<and> fst (the descriptor)
                then (fst (ble_state_set_cccd_handle (be_lock env 2) (ble_ctx_ref x s) chr_val_handle (snd (the descriptor)) s), [])
                else (s, []))
          else if status \<noteq> BLE_HS_EDONE then ble_central_abort_discovery env x s
          else if bc_status_cccd_handle snap = 0 then ble_central_abort_discovery env x s
          else (let out = GattWrite conn_handle (bc_status_cccd_handle snap) [1, 0] x
                in if be_rc env \<noteq> HS_OK
                   then (case ble_central_abort_discovery env x s of (s1, rest) \<Rightarrow> (s1, out # rest))
                   else (s, [out])))"

definition on_characteristic_discovered ::
    "ble_env \<Rightarrow> nat \<Rightarrow> u16 \<Rightarrow> hs_rc \<Rightarrow> (u16 \<times> bool \<times> bool \<times> u16) option \<Rightarrow> ble_state \<Rightarrow> ble_state \<times> ble_output list" where
  "on_characteristic_discovered env x conn_handle status characteristic s =
     (case gatt_snapshot env x conn_handle s of
        None \<Rightarrow> (ble_central_metrics_stale_callback (be_lock env 1) s, [])
      | Some snap \<Rightarrow>
          if status = HS_OK \<and> characteristic \<noteq> None
          then (case the characteristic of
                  (uuid, write_no_rsp, notify, val_handle) \<Rightarrow>
                    if uuid = BLE_GATEWAY_COMMAND_UUID
                    then (if \<not> write_no_rsp then ble_central_abort_discovery env x s
                          else (fst (ble_state_set_char_handle (be_lock env 2) (ble_ctx_ref x s) uuid val_handle s), []))
                    else if uuid = BLE_GATEWAY_STATUS_UUID
                    then (if \<not> notify then ble_central_abort_discovery env x s
                          else (fst (ble_state_set_char_handle (be_lock env 3) (ble_ctx_ref x s) uuid val_handle s), []))
                    else (s, []))
          else if status \<noteq> BLE_HS_EDONE then ble_central_abort_discovery env x s
          else if bc_command_val_handle snap = 0 \<or> bc_status_val_handle snap = 0
          then ble_central_abort_discovery env x s
          else (let out = GattDiscDescriptors conn_handle (bc_status_val_handle snap) (bc_service_end_handle snap) x
                in if be_rc env \<noteq> HS_OK
                   then (case ble_central_abort_discovery env x s of (s1, rest) \<Rightarrow> (s1, out # rest))
                   else (s, [out])))"

definition on_service_discovered ::
    "ble_env \<Rightarrow> nat \<Rightarrow> u16 \<Rightarrow> hs_rc \<Rightarrow> (u16 \<times> u16) option \<Rightarrow> ble_state \<Rightarrow> ble_state \<times> ble_output list" where
  "on_service_discovered env x conn_handle status service s =
     (case gatt_snapshot env x conn_handle s of
        None \<Rightarrow> (ble_central_metrics_stale_callback (be_lock env 1) s, [])
      | Some snap \<Rightarrow>
          if status = HS_OK \<and> service \<noteq> None
          then (fst (ble_state_set_service_range (be_lock env 2) (ble_ctx_ref x s) (fst (the service)) (snd (the service)) s), [])
          else if status \<noteq> BLE_HS_EDONE then ble_central_abort_discovery env x s
          else if bc_service_end_handle snap = 0 then ble_central_abort_discovery env x s
          else (let out = GattDiscChars conn_handle (bc_service_start_handle snap) (bc_service_end_handle snap) x
                in if be_rc env \<noteq> HS_OK
                   then (case ble_central_abort_discovery env x s of (s1, rest) \<Rightarrow> (s1, out # rest))
                   else (s, [out])))"

section \<open>GAP events\<close>

text \<open>
  \<open>data\<close> of a notification is \<open>None\<close> when the packet cannot be copied out of the stack's buffers;
  otherwise the copied bytes are the packet, whose length is \<open>packet_len\<close>.
\<close>

datatype gap_event =
    GapEventConnect hs_rc u16
  | GapEventDisconnect u16
  | GapEventNotifyRx u16 u16 nat "u8 list option"
  | GapEventMtu u16 u16
  | GapEventEncChange u16 hs_rc
  | GapEventRepeatPairing
  | GapEventOther

datatype gap_return = GAP_DONE | BLE_GAP_REPEAT_PAIRING_RETRY

definition gap_ctx_snapshot :: "ble_env \<Rightarrow> nat \<Rightarrow> u16 \<Rightarrow> ble_state \<Rightarrow> ble_state \<times> ble_conn_slot option" where
  "gap_ctx_snapshot env x conn_handle s =
     (case ble_state_ctx_snapshot (be_lock env 0) x s of
        None \<Rightarrow> (ble_central_metrics_stale_callback (be_lock env 1) s, None)
      | Some snap \<Rightarrow>
          if conn_handle \<noteq> BLE_HS_CONN_HANDLE_NONE \<and> bc_conn_handle snap \<noteq> conn_handle
          then (ble_central_metrics_stale_callback (be_lock env 1) s, None)
          else (s, Some snap))"

definition gap_release_connection ::
    "ble_env \<Rightarrow> ble_conn_ref \<Rightarrow> u16 \<Rightarrow> int \<Rightarrow> ble_state \<Rightarrow> ble_state \<times> ble_output list" where
  "gap_release_connection env ref conn_handle now_ms s =
     (case ble_state_on_disconnect (be_lock env 2) ref conn_handle now_ms GW_MSG_DEVICE_ID_LEN s of
        (s1, None) \<Rightarrow> (s1, [])
      | (s1, Some info) \<Rightarrow>
          (let out = ble_central_emit_disconnected env (di_device_id info)
           in if \<not> di_removing info then (s1, out)
              else let s2 = (case ble_runtime_find (be_lock env 3) (Some (di_device_id info)) s1 of
                               Inr idx \<Rightarrow> ble_runtime_finalize_remove (be_lock env 4) (Some idx) s1
                             | Inl _ \<Rightarrow> s1)
                   in (case di_peer_addr info of
                         None \<Rightarrow> (s2, out)
                       | Some peer_addr \<Rightarrow>
                           if \<not> bl_host_ready s2 then (s2, out) else (s2, out @ [StoreDeletePeer peer_addr]))))"

definition gap_connected ::
    "ble_env \<Rightarrow> nat \<Rightarrow> u16 \<Rightarrow> ble_conn_slot \<Rightarrow> ble_state \<Rightarrow> ble_state \<times> ble_output list" where
  "gap_connected env x conn_handle snap s =
     (let device_id = (case ble_runtime_get_device_id (be_lock env 5) (bc_device_index snap) GW_MSG_DEVICE_ID_LEN s of
                         Some ident \<Rightarrow> ident | None \<Rightarrow> [])
      in case ble_state_on_connect_success (be_lock env 6) (ble_ctx_ref x s) conn_handle (be_now env 0) s of
           (s1, False) \<Rightarrow> (ble_central_metrics_stale_callback (be_lock env 7) s1, [GapTerminate conn_handle])
         | (s1, True) \<Rightarrow>
             (let (s2, found) = (case be_peer env of
                                   Some addr \<Rightarrow>
                                     (fst (ble_runtime_set_peer_addr (be_lock env 7) (bc_device_index snap) (Some addr) s1),
                                      [IdentitySubmit device_id addr])
                                 | None \<Rightarrow> (s1, []));
                  out = found @ [GattExchangeMtu conn_handle, GapSecurityInitiate conn_handle]
              in if be_rc env \<noteq> HS_OK \<and> be_rc env \<noteq> BLE_HS_EALREADY
                 then (ble_central_metrics_security_failure (be_lock env 8) s2, out @ [GapTerminate conn_handle])
                 else (s2, out)))"

definition ble_central_gap_event_handler ::
    "ble_env \<Rightarrow> gap_event \<Rightarrow> nat \<Rightarrow> ble_state \<Rightarrow> ble_state \<times> gap_return \<times> ble_output list" where
  "ble_central_gap_event_handler env ev x s =
     (case ev of
        GapEventConnect status conn_handle \<Rightarrow>
          (case gap_ctx_snapshot env x BLE_HS_CONN_HANDLE_NONE s of
             (s1, None) \<Rightarrow>
               (s1, GAP_DONE, if status = HS_OK \<and> conn_handle \<noteq> BLE_HS_CONN_HANDLE_NONE
                              then [GapTerminate conn_handle] else [])
           | (s1, Some snap) \<Rightarrow>
               if status \<noteq> HS_OK
               then (case gap_release_connection env (ble_ctx_ref x s1) (bx_conn_handle (bl_ctxs s1 ! x)) (be_now env 0) s1 of
                       (s2, out) \<Rightarrow> (ble_state_ctx_release_by_ref (be_lock env 6) (ble_ctx_ref x s2) s2, GAP_DONE, out))
               else (case gap_connected env x conn_handle snap s1 of (s2, out) \<Rightarrow> (s2, GAP_DONE, out)))
      | GapEventDisconnect conn_handle \<Rightarrow>
          (let (s1, out) = (case ble_state_ctx_snapshot (be_lock env 0) x s of
                              Some _ \<Rightarrow> gap_release_connection env (ble_ctx_ref x s) conn_handle (be_now env 0) s
                            | None \<Rightarrow> (ble_central_metrics_stale_callback (be_lock env 1) s, []))
           in (ble_state_ctx_release_by_ref (be_lock env 6) (ble_ctx_ref x s1) s1, GAP_DONE, out))
      | GapEventNotifyRx conn_handle attr_handle packet_len data \<Rightarrow>
          (case gap_ctx_snapshot env x conn_handle s of
             (s1, None) \<Rightarrow> (s1, GAP_DONE, [])
           | (s1, Some snap) \<Rightarrow>
               if attr_handle \<noteq> bc_status_val_handle snap then (s1, GAP_DONE, [])
               else if packet_len = 0 \<or> GW_MSG_MAX_LEN < packet_len then (s1, GAP_DONE, [])
               else (case data of
                       None \<Rightarrow> (s1, GAP_DONE, [])
                     | Some bytes \<Rightarrow>
                         if length bytes \<noteq> packet_len then (s1, GAP_DONE, [])
                         else (case ble_runtime_get_device_id (be_lock env 2) (bc_device_index snap) GW_MSG_DEVICE_ID_LEN s1 of
                                 None \<Rightarrow> (s1, GAP_DONE, [])
                               | Some device_id \<Rightarrow> (s1, GAP_DONE, [NotifyEnqueue device_id bytes]))))
      | GapEventMtu conn_handle value \<Rightarrow>
          (case gap_ctx_snapshot env x conn_handle s of
             (s1, None) \<Rightarrow> (s1, GAP_DONE, [])
           | (s1, Some snap) \<Rightarrow>
               (ble_state_update_mtu (be_lock env 2) (ble_ctx_ref x s1) conn_handle value s1, GAP_DONE, []))
      | GapEventEncChange conn_handle status \<Rightarrow>
          (case gap_ctx_snapshot env x conn_handle s of
             (s1, None) \<Rightarrow> (s1, GAP_DONE, [])
           | (s1, Some snap) \<Rightarrow>
               if status \<noteq> HS_OK
               then (ble_central_metrics_security_failure (be_lock env 3) s1, GAP_DONE, [GapTerminate conn_handle])
               else (case ble_central_start_gatt_discovery env x s1 of (s2, out) \<Rightarrow> (s2, GAP_DONE, out)))
      | GapEventRepeatPairing \<Rightarrow>
          (s, BLE_GAP_REPEAT_PAIRING_RETRY,
           case be_peer env of Some addr \<Rightarrow> [StoreDeletePeer addr] | None \<Rightarrow> [])
      | GapEventOther \<Rightarrow> (s, GAP_DONE, []))"

section \<open>Public functions\<close>

definition on_ble_host_reset :: "ble_env \<Rightarrow> ble_state \<Rightarrow> ble_state \<times> ble_output list" where
  "on_ble_host_reset env s =
     (case ble_state_handle_host_reset (be_lock env 0) DEVICE_STORE_MAX_DEVICES s of
        (s1, device_ids) \<Rightarrow>
          (ble_host_set_ready False s1, concat (map (ble_central_emit_disconnected env) device_ids)))"

definition on_ble_host_sync :: "hs_rc \<Rightarrow> ble_state \<Rightarrow> ble_state" where
  "on_ble_host_sync rc s = (if rc \<noteq> HS_OK then s else ble_host_set_ready True s)"

text \<open>\<open>store_lock\<close> and \<open>store\<close> are those of \<open>device_store_get\<close>; the locks of the start follow the first.\<close>

definition ble_central_connect ::
    "ble_env \<Rightarrow> bool \<Rightarrow> bool \<Rightarrow> store_state \<Rightarrow> string option \<Rightarrow> u8 list option \<Rightarrow> u8 \<Rightarrow> ble_state \<Rightarrow>
     ble_state \<times> ble_central_err \<times> ble_output list" where
  "ble_central_connect env find_lock store_lock store device_id addr addr_type s =
     (if device_id = None \<or> the device_id = [] \<or> addr = None then (s, BLE_CENTRAL_ERR_INVALID_ARG, [])
      else if \<not> bl_host_ready s then (s, BLE_CENTRAL_ERR_NOT_READY, [])
      else if fst (device_store_get store_lock device_id store) \<noteq> DEVICE_STORE_OK
      then (s, BLE_CENTRAL_ERR_NOT_FOUND, [])
      else (case ble_runtime_find_or_register find_lock device_id (Some (addr_type, the addr)) s of
              (s1, Inl rc) \<Rightarrow> (s1, rc, [])
            | (s1, Inr d) \<Rightarrow> ble_connection_start env (Some d) s1))"

text \<open>The slot of a device when \<open>0 <= connection_slot < BLE_CENTRAL_MAX_CONN\<close>.\<close>

definition slot_of :: "nat \<Rightarrow> ble_state \<Rightarrow> nat option" where
  "slot_of d s = (case bd_connection_slot (dev s d) of
                    Some i \<Rightarrow> if i < BLE_CENTRAL_MAX_CONN then Some i else None
                  | None \<Rightarrow> None)"

text \<open>The critical section of \<open>ble_central_disconnect\<close>, and the function around it.\<close>

definition disconnect_link :: "nat \<Rightarrow> ble_state \<Rightarrow> ble_state \<times> u16" where
  "disconnect_link d s =
     (case slot_of d s of
        None \<Rightarrow> (s, BLE_HS_CONN_HANDLE_NONE)
      | Some i \<Rightarrow>
          if bc_state (conn s i) = BLE_CONN_FREE \<or> bc_conn_handle (conn s i) = BLE_HS_CONN_HANDLE_NONE
          then (s, BLE_HS_CONN_HANDLE_NONE)
          else (conn_map i (\<lambda>c. c\<lparr>bc_state := BLE_CONN_DISCONNECTING\<rparr>) s, bc_conn_handle (conn s i)))"

definition ble_central_disconnect ::
    "ble_env \<Rightarrow> string option \<Rightarrow> ble_state \<Rightarrow> ble_state \<times> ble_central_err \<times> ble_output list" where
  "ble_central_disconnect env device_id s =
     (if device_id = None then (s, BLE_CENTRAL_ERR_INVALID_ARG, [])
      else (case ble_runtime_find (be_lock env 0) device_id s of
              Inl _ \<Rightarrow> (s, BLE_CENTRAL_ERR_NOT_FOUND, [])
            | Inr d \<Rightarrow>
                if \<not> be_lock env 1 then (s, BLE_CENTRAL_ERR_STATE, [])
                else (case disconnect_link d s of
                        (s1, conn_handle) \<Rightarrow>
                          if conn_handle = BLE_HS_CONN_HANDLE_NONE then (s1, BLE_CENTRAL_ERR_NOT_CONNECTED, [])
                          else (s1, if be_rc env = HS_OK then BLE_CENTRAL_OK else BLE_CENTRAL_ERR_STACK,
                                [GapTerminate conn_handle]))))"

text \<open>
  The critical section of \<open>ble_central_forget_peer\<close>: the device is marked as being removed and its link
  is taken down. The result says what to do after it.
\<close>

datatype forget_action = FORGET_NO_LINK | FORGET_LINK | FORGET_CANCEL | FORGET_TERMINATE u16

definition forget_link :: "nat \<Rightarrow> ble_state \<Rightarrow> ble_state \<times> forget_action" where
  "forget_link d s =
     (let s1 = (if bd_state (dev s d) \<noteq> BLE_DEVICE_REMOVING
                then dev_map d (\<lambda>v. v\<lparr>bd_reconnect_enabled := False, bd_state := BLE_DEVICE_REMOVING\<rparr>) s else s)
      in case slot_of d s1 of
           None \<Rightarrow> (s1, FORGET_NO_LINK)
         | Some i \<Rightarrow>
             if bc_state (conn s1 i) = BLE_CONN_FREE then (s1, FORGET_NO_LINK)
             else if bc_state (conn s1 i) = BLE_CONN_CONNECTING then (s1, FORGET_CANCEL)
             else if bc_conn_handle (conn s1 i) \<noteq> BLE_HS_CONN_HANDLE_NONE
             then (conn_map i (\<lambda>c. c\<lparr>bc_state := BLE_CONN_DISCONNECTING\<rparr>) s1, FORGET_TERMINATE (bc_conn_handle (conn s1 i)))
             else (s1, FORGET_LINK))"

definition ble_central_forget_peer ::
    "ble_env \<Rightarrow> string option \<Rightarrow> u8 list option \<Rightarrow> u8 \<Rightarrow> bool \<Rightarrow> ble_state \<Rightarrow>
     ble_state \<times> ble_central_err \<times> ble_output list" where
  "ble_central_forget_peer env device_id addr addr_type has_addr s =
     (if device_id = None \<or> the device_id = [] then (s, BLE_CENTRAL_ERR_INVALID_ARG, [])
      else let index = (case ble_runtime_find (be_lock env 0) device_id s of Inr d \<Rightarrow> Some d | Inl _ \<Rightarrow> None)
           in if \<not> be_lock env 1 then (s, BLE_CENTRAL_ERR_STATE, [])
              else let runtime_addr = (case index of
                                         Some d \<Rightarrow> if bd_has_peer_addr (dev s d) then Some (bd_peer_addr (dev s d)) else None
                                       | None \<Rightarrow> None);
                       (s1, act) = (case index of Some d \<Rightarrow> forget_link d s | None \<Rightarrow> (s, FORGET_NO_LINK));
                       bond_addr = (case runtime_addr of
                                      Some a \<Rightarrow> Some a
                                    | None \<Rightarrow> if has_addr then map_option (Pair addr_type) addr else None)
                   in (case act of
                         FORGET_CANCEL \<Rightarrow> (s1, BLE_CENTRAL_OK, [GapConnCancel])
                       | FORGET_TERMINATE conn_handle \<Rightarrow> (s1, BLE_CENTRAL_OK, [GapTerminate conn_handle])
                       | FORGET_LINK \<Rightarrow> (s1, BLE_CENTRAL_OK, [])
                       | FORGET_NO_LINK \<Rightarrow>
                           (let s2 = (case index of Some d \<Rightarrow> ble_runtime_finalize_remove (be_lock env 2) (Some d) s1
                                      | None \<Rightarrow> s1)
                            in (case bond_addr of
                                  None \<Rightarrow> (s2, BLE_CENTRAL_OK, [])
                                | Some a \<Rightarrow>
                                    if \<not> bl_host_ready s2 then (s2, BLE_CENTRAL_ERR_STACK, [])
                                    else (s2, if be_rc env \<noteq> HS_OK \<and> be_rc env \<noteq> BLE_HS_ENOENT
                                              then BLE_CENTRAL_ERR_STACK else BLE_CENTRAL_OK, [StoreDeletePeer a])))))"

text \<open>The critical section of \<open>ble_central_send_command\<close>: handle of the link, of the value, and the MTU.\<close>

definition command_link :: "nat \<Rightarrow> ble_state \<Rightarrow> u16 \<times> u16 \<times> u16" where
  "command_link d s =
     (case slot_of d s of
        None \<Rightarrow> (BLE_HS_CONN_HANDLE_NONE, 0, 23)
      | Some i \<Rightarrow>
          if bc_state (conn s i) = BLE_CONN_FREE then (BLE_HS_CONN_HANDLE_NONE, 0, 23)
          else if bc_state (conn s i) \<noteq> BLE_CONN_READY \<or> bc_conn_handle (conn s i) = BLE_HS_CONN_HANDLE_NONE \<or>
                  bc_command_val_handle (conn s i) = 0
          then (BLE_HS_CONN_HANDLE_NONE, 0, 23)
          else (bc_conn_handle (conn s i), bc_command_val_handle (conn s i), bc_mtu (conn s i)))"

definition max_payload :: "u16 \<Rightarrow> nat" where
  "max_payload mtu = (if 3 < mtu then unat (mtu - 3) else 0)"

definition ble_central_send_command ::
    "qcbor \<Rightarrow> ble_env \<Rightarrow> string option \<Rightarrow> gw_message option \<Rightarrow> ble_state \<Rightarrow>
     ble_state \<times> ble_central_err \<times> ble_output list" where
  "ble_central_send_command Q env device_id msg s =
     (if device_id = None \<or> msg = None then (s, BLE_CENTRAL_ERR_INVALID_ARG, [])
      else (case ble_runtime_find (be_lock env 0) device_id s of
              Inl _ \<Rightarrow> (s, BLE_CENTRAL_ERR_NOT_FOUND, [])
            | Inr d \<Rightarrow>
                if \<not> be_lock env 1 then (s, BLE_CENTRAL_ERR_STATE, [])
                else (case command_link d s of
                        (conn_handle, value_handle, mtu) \<Rightarrow>
                          if conn_handle = BLE_HS_CONN_HANDLE_NONE \<or> value_handle = 0
                          then (s, BLE_CENTRAL_ERR_NOT_CONNECTED, [])
                          else (case cbor_codec_encode Q msg GW_MSG_MAX_LEN of
                                  None \<Rightarrow> (s, BLE_CENTRAL_ERR_ENCODE, [])
                                | Some buffer \<Rightarrow>
                                    if buffer = [] then (s, BLE_CENTRAL_ERR_ENCODE, [])
                                    else if max_payload mtu < length buffer mod 2 ^ 16
                                    then (ble_central_metrics_mtu_reject (be_lock env 2) s,
                                          BLE_CENTRAL_ERR_MESSAGE_TOO_LARGE, [])
                                    else (s, if be_rc env \<noteq> HS_OK then BLE_CENTRAL_ERR_STACK else BLE_CENTRAL_OK,
                                          [GattWriteNoRsp conn_handle value_handle buffer])))))"

definition ble_central_is_connected :: "ble_env \<Rightarrow> string option \<Rightarrow> ble_state \<Rightarrow> bool" where
  "ble_central_is_connected env device_id s =
     (if device_id = None then False
      else (case ble_runtime_find (be_lock env 0) device_id s of
              Inl _ \<Rightarrow> False
            | Inr d \<Rightarrow>
                if \<not> be_lock env 1 then False
                else (case slot_of d s of
                        Some i \<Rightarrow> bc_state (conn s i) = BLE_CONN_READY
                      | None \<Rightarrow> False)))"

definition ble_central_active_count :: "bool \<Rightarrow> ble_state \<Rightarrow> nat" where
  "ble_central_active_count lk s = (if \<not> lk then 0 else ble_central_active_count_unlocked s)"

record ble_central_device_status =
  bst_known :: bool
  bst_connected :: bool
  bst_ready :: bool
  bst_state :: ble_device_state

definition zero_status :: ble_central_device_status where
  "zero_status = \<lparr>bst_known = False, bst_connected = False, bst_ready = False, bst_state = BLE_DEVICE_OFFLINE\<rparr>"

definition ble_central_get_device_status ::
    "bool \<Rightarrow> string option \<Rightarrow> ble_state \<Rightarrow> ble_central_err \<times> ble_central_device_status" where
  "ble_central_get_device_status lk device_id s =
     (if device_id = None then (BLE_CENTRAL_ERR_INVALID_ARG, zero_status)
      else if \<not> lk then (BLE_CENTRAL_ERR_STATE, zero_status)
      else (case ble_runtime_find_unlocked s (the device_id) of
              None \<Rightarrow> (BLE_CENTRAL_ERR_NOT_FOUND, zero_status)
            | Some d \<Rightarrow>
                (let st = zero_status\<lparr>bst_known := True, bst_state := bd_state (dev s d)\<rparr>
                 in (BLE_CENTRAL_OK,
                     case slot_of d s of
                       None \<Rightarrow> st
                     | Some i \<Rightarrow>
                         st\<lparr>bst_connected := (bc_state (conn s i) \<in> {BLE_CONN_SECURING, BLE_CONN_DISCOVERING,
                                                BLE_CONN_READY, BLE_CONN_DISCONNECTING}),
                            bst_ready := (bc_state (conn s i) = BLE_CONN_READY)\<rparr>))))"

section \<open>The supervisor\<close>

fun terminate_entries :: "ble_env \<Rightarrow> ble_timeout_entry list \<Rightarrow> ble_state \<Rightarrow> ble_state \<times> ble_output list" where
  "terminate_entries env [] s = (s, [])"
| "terminate_entries env (e # es) s =
     (let s1 = (if bt_is_discovery e then ble_central_metrics_discovery_failure (be_lock env 11) s
                else ble_central_metrics_security_failure (be_lock env 12) s)
      in case terminate_entries env es s1 of (s2, out) \<Rightarrow> (s2, GapTerminate (bt_conn_handle e) # out))"

definition terminate_timed_out_connections :: "ble_env \<Rightarrow> int \<Rightarrow> ble_state \<Rightarrow> ble_state \<times> ble_output list" where
  "terminate_timed_out_connections env now_ms s =
     terminate_entries env (ble_state_collect_timeouts (be_lock env 10) now_ms BLE_CENTRAL_MAX_CONN s) s"

text \<open>One turn of \<open>reconnect_supervisor_task\<close>, before it sleeps.\<close>

definition supervisor_turn :: "ble_env \<Rightarrow> ble_state \<Rightarrow> ble_state \<times> ble_output list" where
  "supervisor_turn env s =
     (let now_ms = be_now env 10;
          (s1, out) = terminate_timed_out_connections env now_ms s
      in if \<not> bl_host_ready s1 \<or> be_disc_active env then (s1, out)
         else (case ble_scheduler_next_device (be_lock env 13) now_ms s1 of
                 (s2, Inl _) \<Rightarrow> (s2, out)
               | (s2, Inr d) \<Rightarrow>
                   (case ble_connection_start env (Some d) s2 of
                      (s3, rc, started) \<Rightarrow>
                        (if rc \<noteq> BLE_CENTRAL_OK \<and> rc \<noteq> BLE_CENTRAL_ERR_CONNECT_IN_PROGRESS \<and>
                            rc \<noteq> BLE_CENTRAL_ERR_NO_SLOT \<and> rc \<noteq> BLE_CENTRAL_ERR_STACK
                         then ble_scheduler_note_failure (be_lock env 14) (Some d) now_ms s3 else s3,
                         out @ started))))"

datatype ble_supervisor_state = BLE_SUPERVISOR_STOPPED | BLE_SUPERVISOR_RUNNING | BLE_SUPERVISOR_STOPPING

text \<open>
  \<open>task_ok\<close> is the outcome of \<open>xTaskCreate\<close>, \<open>lk2\<close> that of the second time the mutex is taken. The
  state is written by one task at a time, under the mutex.
\<close>

definition ble_central_start_reconnect_supervisor ::
    "bool \<Rightarrow> bool \<Rightarrow> bool \<Rightarrow> ble_supervisor_state \<Rightarrow> ble_supervisor_state \<times> bool" where
  "ble_central_start_reconnect_supervisor lk task_ok lk2 st =
     (if \<not> lk then (st, False)
      else if st \<noteq> BLE_SUPERVISOR_STOPPED then (st, st = BLE_SUPERVISOR_RUNNING)
      else if \<not> task_ok then (if lk2 then BLE_SUPERVISOR_STOPPED else BLE_SUPERVISOR_RUNNING, False)
      else (BLE_SUPERVISOR_RUNNING, True))"

definition ble_central_stop_reconnect_supervisor :: "bool \<Rightarrow> ble_supervisor_state \<Rightarrow> ble_supervisor_state" where
  "ble_central_stop_reconnect_supervisor lk st =
     (if lk \<and> st = BLE_SUPERVISOR_RUNNING then BLE_SUPERVISOR_STOPPING else st)"

end
