(* ===== verification/Ble_Links.thy ===== *)
theory Ble_Links
  imports Ble_Central
begin

text \<open>
  The BLE central as a concurrent system. Each critical section over the tables is a step, with any
  argument, so a path of \<open>ble_step\<close> is any interleaving of the host task, the supervisor and the callers
  of the public functions. \<open>links_ok\<close> is what every path keeps: the slots that are in use and the devices
  that have a slot are paired one to one.

  Three steps have a premise. A rollback is only taken for a reference whose slot was not given out again,
  a removal is only finished for a device without a slot (\<open>Ble_Props\<close> shows what a late rollback does), and
  the identifiers that are registered fit their array, as those of the device store do.
\<close>

section \<open>Steps\<close>

definition reissued :: "ble_state \<Rightarrow> ble_conn_ref \<Rightarrow> bool" where
  "reissued s ref \<longleftrightarrow>
     rf_slot_index ref < BLE_CENTRAL_MAX_CONN \<and> bc_state (conn s (rf_slot_index ref)) \<noteq> BLE_CONN_FREE \<and>
     bc_generation (conn s (rf_slot_index ref)) \<noteq> rf_generation ref"

definition slotless :: "ble_state \<Rightarrow> nat option \<Rightarrow> bool" where
  "slotless s d \<longleftrightarrow> (index_ok d \<and> bd_in_use (dev s (the d)) \<longrightarrow> bd_connection_slot (dev s (the d)) = None)"

inductive table_step :: "ble_state \<Rightarrow> ble_state \<Rightarrow> bool" where
  reserve: "table_step s (fst (ble_state_reserve_connection lk d now s))"
| rollback: "\<not> reissued s ref \<Longrightarrow> table_step s (ble_state_rollback_connection_start lk ref now s)"
| disconnected: "table_step s (fst (ble_state_on_disconnect lk ref h now cap s))"
| mark_disconnecting: "table_step s (ble_state_mark_disconnecting lk ref s)"
| update_mtu: "table_step s (ble_state_update_mtu lk ref h mtu s)"
| begin_discovery: "table_step s (fst (ble_state_begin_discovery lk ref now s))"
| set_range: "table_step s (fst (ble_state_set_service_range lk ref a b s))"
| host_reset: "table_step s (fst (ble_state_handle_host_reset lk m s))"
| host_ready: "table_step s (ble_host_set_ready b s)"
| ctx_acquire: "table_step s (fst (ble_state_ctx_acquire lk ref s))"
| ctx_release: "table_step s (ble_state_ctx_release_by_ref lk ref s)"
| ctx_update: "table_step s (ble_state_ctx_update_handle lk ref h s)"
| register: "(\<And>j. ident = Some j \<Longrightarrow> length j < GW_MSG_DEVICE_ID_LEN) \<Longrightarrow> table_step s (fst (ble_runtime_find_or_register lk ident addr s))"
| set_peer: "table_step s (fst (ble_runtime_set_peer_addr lk d addr s))"
| finalize: "slotless s d \<Longrightarrow> table_step s (ble_runtime_finalize_remove lk d s)"
| note_success: "table_step s (ble_scheduler_note_success lk d now s)"
| next_device: "table_step s (fst (ble_scheduler_next_device lk now s))"
| note_failure: "table_step s (ble_scheduler_note_failure lk d now s)"
| disconnect_link: "e < DEVICE_STORE_MAX_DEVICES \<Longrightarrow> table_step s (fst (disconnect_link e s))"
| forget_link: "e < DEVICE_STORE_MAX_DEVICES \<Longrightarrow> table_step s (fst (forget_link e s))"
| count: "table_step s (count_metric f s)"

text \<open>The steps by which a link comes up: its handle is set, its attributes are found, it is ready.\<close>

inductive ble_step :: "ble_state \<Rightarrow> ble_state \<Rightarrow> bool" where
  table: "table_step s t \<Longrightarrow> ble_step s t"
| connected: "ble_step s (fst (ble_state_on_connect_success lk ref h now s))"
| set_ready: "ble_step s (ble_state_set_ready lk ref s)"
| set_char: "ble_step s (fst (ble_state_set_char_handle lk ref uuid h s))"
| set_cccd: "ble_step s (fst (ble_state_set_cccd_handle lk ref v h s))"

text \<open>The state after a successful \<open>ble_central_init\<close>, before the host stack runs.\<close>

definition ble_power_on :: ble_state where
  "ble_power_on =
     \<lparr>bl_connections = replicate BLE_CENTRAL_MAX_CONN (fresh_slot BLE_CONN_FREE (Some 0) 0),
      bl_devices = replicate DEVICE_STORE_MAX_DEVICES zero_ble_device,
      bl_ctxs = replicate BLE_CENTRAL_MAX_CONN zero_ctx, bl_metrics = zero_metrics,
      bl_host_ready = False, bl_cursor = 0\<rparr>"

definition ble_init_state :: "device_entry list \<Rightarrow> ble_state" where
  "ble_init_state stored =
     fst (ble_central_runtime_init True (Some stored) (fst (ble_central_state_init True True True ble_power_on)))"

definition ble_boot :: "ble_state \<Rightarrow> bool" where
  "ble_boot s \<longleftrightarrow>
     (\<exists>stored. distinct (map de_device_id stored) \<and> (\<forall>e\<in>set stored. length (de_device_id e) < GW_MSG_DEVICE_ID_LEN) \<and>
        s = ble_init_state stored)"

section \<open>The invariant\<close>

definition dev_ok :: "ble_conn_slot list \<Rightarrow> nat \<Rightarrow> ble_device_runtime \<Rightarrow> bool" where
  "dev_ok C d v \<longleftrightarrow>
     (bd_in_use v \<longrightarrow>
        (case bd_connection_slot v of
           None \<Rightarrow> bd_state v \<in> {BLE_DEVICE_OFFLINE, BLE_DEVICE_BACKOFF, BLE_DEVICE_REMOVING}
         | Some i \<Rightarrow> i < BLE_CENTRAL_MAX_CONN \<and> bd_state v \<in> {BLE_DEVICE_CONNECTING, BLE_DEVICE_REMOVING} \<and>
                     bc_state (C ! i) \<noteq> BLE_CONN_FREE \<and> bc_device_index (C ! i) = Some d))"

definition conn_ok :: "ble_device_runtime list \<Rightarrow> nat \<Rightarrow> ble_conn_slot \<Rightarrow> bool" where
  "conn_ok D i c \<longleftrightarrow>
     (bc_state c \<noteq> BLE_CONN_FREE \<longrightarrow>
        (\<exists>d<DEVICE_STORE_MAX_DEVICES. bc_device_index c = Some d \<and> bd_in_use (D ! d) \<and> bd_connection_slot (D ! d) = Some i))"

definition links_ok :: "ble_state \<Rightarrow> bool" where
  "links_ok s \<longleftrightarrow>
     length (bl_connections s) = BLE_CENTRAL_MAX_CONN \<and> length (bl_devices s) = DEVICE_STORE_MAX_DEVICES \<and>
     length (bl_ctxs s) = BLE_CENTRAL_MAX_CONN \<and> bl_cursor s < DEVICE_STORE_MAX_DEVICES \<and>
     (\<forall>d<DEVICE_STORE_MAX_DEVICES. dev_ok (bl_connections s) d (dev s d)) \<and>
     (\<forall>i<BLE_CENTRAL_MAX_CONN. conn_ok (bl_devices s) i (conn s i)) \<and>
     (\<forall>i<BLE_CENTRAL_MAX_CONN. \<forall>j<BLE_CENTRAL_MAX_CONN.
        bc_state (conn s i) = BLE_CONN_CONNECTING \<and> bc_state (conn s j) = BLE_CONN_CONNECTING \<longrightarrow> i = j)"

named_theorems ble_simps

lemmas map_simps [ble_simps] = conn_map_def dev_map_def ctx_map_def count_metric_def

lemma fresh_slot_simps [simp]:
  "bc_state (fresh_slot st owner gen) = st" "bc_device_index (fresh_slot st owner gen) = owner"
  "bc_generation (fresh_slot st owner gen) = gen" "bc_conn_handle (fresh_slot st owner gen) = BLE_HS_CONN_HANDLE_NONE"
  "bc_command_val_handle (fresh_slot st owner gen) = 0" "bc_status_val_handle (fresh_slot st owner gen) = 0"
  "bc_status_cccd_handle (fresh_slot st owner gen) = 0"
  by (simp_all add: fresh_slot_def)

lemma zero_ble_device_simps [simp]:
  "\<not> bd_in_use zero_ble_device" "bd_connection_slot zero_ble_device = Some 0" "bd_state zero_ble_device = BLE_DEVICE_OFFLINE"
  by (simp_all add: zero_ble_device_def)

lemma schedule_retry_simps [simp]:
  "bd_in_use (ble_schedule_retry_unlocked now v) = bd_in_use v"
  "bd_connection_slot (ble_schedule_retry_unlocked now v) = bd_connection_slot v"
  "bd_state (ble_schedule_retry_unlocked now v) = bd_state v"
  "bd_device_id (ble_schedule_retry_unlocked now v) = bd_device_id v"
  by (simp_all add: ble_schedule_retry_unlocked_def Let_def)

lemma index_ok_Some [simp]: "index_ok (Some d) \<longleftrightarrow> d < DEVICE_STORE_MAX_DEVICES" "\<not> index_ok None"
  by (simp_all add: index_ok_def)

lemma index_okD: "index_ok d \<Longrightarrow> \<exists>e. d = Some e \<and> e < DEVICE_STORE_MAX_DEVICES"
  by (cases d) auto

lemma ref_validD:
  "ble_ref_valid_unlocked s ref \<Longrightarrow> rf_slot_index ref < BLE_CENTRAL_MAX_CONN \<and> bc_state (conn s (rf_slot_index ref)) \<noteq> BLE_CONN_FREE"
  by (simp add: ble_ref_valid_unlocked_def)

subsection \<open>What keeps it\<close>

lemma links_okI:
  assumes "length (bl_connections s) = BLE_CENTRAL_MAX_CONN" "length (bl_devices s) = DEVICE_STORE_MAX_DEVICES"
    and "length (bl_ctxs s) = BLE_CENTRAL_MAX_CONN" "bl_cursor s < DEVICE_STORE_MAX_DEVICES"
    and "\<And>d. d < DEVICE_STORE_MAX_DEVICES \<Longrightarrow> dev_ok (bl_connections s) d (dev s d)"
    and "\<And>i. i < BLE_CENTRAL_MAX_CONN \<Longrightarrow> conn_ok (bl_devices s) i (conn s i)"
    and "\<And>i j. \<lbrakk>i < BLE_CENTRAL_MAX_CONN; j < BLE_CENTRAL_MAX_CONN; bc_state (conn s i) = BLE_CONN_CONNECTING;
              bc_state (conn s j) = BLE_CONN_CONNECTING\<rbrakk> \<Longrightarrow> i = j"
  shows "links_ok s"
  using assms unfolding links_ok_def by blast

lemma links_okD:
  assumes "links_ok s"
  shows "length (bl_connections s) = BLE_CENTRAL_MAX_CONN" "length (bl_devices s) = DEVICE_STORE_MAX_DEVICES"
    and "length (bl_ctxs s) = BLE_CENTRAL_MAX_CONN" "bl_cursor s < DEVICE_STORE_MAX_DEVICES"
    and "d < DEVICE_STORE_MAX_DEVICES \<Longrightarrow> dev_ok (bl_connections s) d (dev s d)"
    and "i < BLE_CENTRAL_MAX_CONN \<Longrightarrow> conn_ok (bl_devices s) i (conn s i)"
    and "\<lbrakk>i < BLE_CENTRAL_MAX_CONN; j < BLE_CENTRAL_MAX_CONN; bc_state (conn s i) = BLE_CONN_CONNECTING;
              bc_state (conn s j) = BLE_CONN_CONNECTING\<rbrakk> \<Longrightarrow> i = j"
  using assms unfolding links_ok_def by blast+

lemma dev_ok_conns:
  assumes "dev_ok C d v" "\<And>i. \<lbrakk>bd_in_use v; bd_connection_slot v = Some i; i < BLE_CENTRAL_MAX_CONN\<rbrakk> \<Longrightarrow>
      bc_device_index (C' ! i) = bc_device_index (C ! i) \<and> (bc_state (C' ! i) = BLE_CONN_FREE \<longleftrightarrow> bc_state (C ! i) = BLE_CONN_FREE)"
  shows "dev_ok C' d v"
  using assms by (cases "bd_connection_slot v") (simp_all add: dev_ok_def)

lemma conn_ok_devs:
  assumes "conn_ok D i c" "\<And>d. \<lbrakk>d < DEVICE_STORE_MAX_DEVICES; bc_device_index c = Some d; bd_in_use (D ! d);
      bd_connection_slot (D ! d) = Some i\<rbrakk> \<Longrightarrow> bd_in_use (D' ! d) \<and> bd_connection_slot (D' ! d) = Some i"
  shows "conn_ok D' i c"
  using assms unfolding conn_ok_def by blast

lemma nth_update: "i < length xs \<Longrightarrow> xs[i := y] ! j = (if i = j then y else xs ! j)"
  by (auto simp: nth_list_update)

lemma links_conn_map:
  assumes ok: "links_ok s" and i: "i < BLE_CENTRAL_MAX_CONN"
    and f: "bc_device_index (f (conn s i)) = bc_device_index (conn s i)"
      "bc_state (f (conn s i)) = BLE_CONN_FREE \<longleftrightarrow> bc_state (conn s i) = BLE_CONN_FREE"
      "bc_state (f (conn s i)) = BLE_CONN_CONNECTING \<Longrightarrow> bc_state (conn s i) = BLE_CONN_CONNECTING"
  shows "links_ok (conn_map i f s)"
proof -
  note len = links_okD(1) [OF ok]
  let ?C = "(bl_connections s)[i := f (conn s i)]"
  have dv: "dev_ok ?C d (dev s d)" if "d < DEVICE_STORE_MAX_DEVICES" for d
    by (rule dev_ok_conns [OF links_okD(5) [OF ok that]]) (auto simp: nth_update len i f)
  have cn: "conn_ok (bl_devices s) j (?C ! j)" if "j < BLE_CENTRAL_MAX_CONN" for j
    using links_okD(6) [OF ok that] f by (auto simp: nth_update len i conn_ok_def)
  have one: "j = k" if "j < BLE_CENTRAL_MAX_CONN" "k < BLE_CENTRAL_MAX_CONN"
    "bc_state (?C ! j) = BLE_CONN_CONNECTING" "bc_state (?C ! k) = BLE_CONN_CONNECTING" for j k
    using links_okD(7) [OF ok that(1,2)] that(3,4) f(3) by (simp add: nth_update len i split: if_splits)
  show ?thesis by (rule links_okI) (use links_okD [OF ok] dv cn one in \<open>simp_all add: conn_map_def\<close>)
qed

lemma links_dev_map:
  assumes ok: "links_ok s" and d: "d < DEVICE_STORE_MAX_DEVICES"
    and f: "bd_in_use (f (dev s d)) = bd_in_use (dev s d)" "bd_connection_slot (f (dev s d)) = bd_connection_slot (dev s d)"
      "bd_state (f (dev s d)) \<in> {bd_state (dev s d), BLE_DEVICE_REMOVING}"
  shows "links_ok (dev_map d f s)"
proof -
  note len = links_okD(2) [OF ok]
  let ?D = "(bl_devices s)[d := f (dev s d)]"
  have dv: "dev_ok (bl_connections s) e (?D ! e)" if e: "e < DEVICE_STORE_MAX_DEVICES" for e
  proof (cases "d = e")
    case True
    then show ?thesis using links_okD(5) [OF ok e] f
      by (cases "bd_connection_slot (dev s e)") (auto simp: nth_update len e dev_ok_def)
  next
    case False
    then show ?thesis using links_okD(5) [OF ok e] by simp
  qed
  have cn: "conn_ok ?D i (conn s i)" if "i < BLE_CENTRAL_MAX_CONN" for i
    by (rule conn_ok_devs [OF links_okD(6) [OF ok that]]) (auto simp: nth_update len d f)
  show ?thesis by (rule links_okI) (use links_okD [OF ok] dv cn in \<open>simp_all add: dev_map_def\<close>)
qed

lemma links_new_dev:
  assumes ok: "links_ok s" and d: "d < DEVICE_STORE_MAX_DEVICES"
    and old: "bd_in_use (dev s d) \<Longrightarrow> bd_connection_slot (dev s d) = None"
    and w: "\<not> bd_in_use w \<or> (bd_connection_slot w = None \<and> bd_state w \<in> {BLE_DEVICE_OFFLINE, BLE_DEVICE_BACKOFF, BLE_DEVICE_REMOVING})"
  shows "links_ok (dev_map d (\<lambda>_. w) s)"
proof -
  note len = links_okD(2) [OF ok]
  have dv: "dev_ok (bl_connections s) e ((bl_devices s)[d := w] ! e)" if "e < DEVICE_STORE_MAX_DEVICES" for e
    using links_okD(5) [OF ok that] w by (auto simp: nth_update len d dev_ok_def)
  have cn: "conn_ok ((bl_devices s)[d := w]) i (conn s i)" if "i < BLE_CENTRAL_MAX_CONN" for i
    by (rule conn_ok_devs [OF links_okD(6) [OF ok that]]) (use old in \<open>auto simp: nth_update len d\<close>)
  show ?thesis by (rule links_okI) (use links_okD [OF ok] dv cn in \<open>simp_all add: dev_map_def\<close>)
qed

lemma links_slot_unique:
  assumes "links_ok s" "d < DEVICE_STORE_MAX_DEVICES" "bd_in_use (dev s d)" "bd_connection_slot (dev s d) = Some i"
  shows "i < BLE_CENTRAL_MAX_CONN" "bc_state (conn s i) \<noteq> BLE_CONN_FREE" "bc_device_index (conn s i) = Some d"
    "bd_state (dev s d) \<in> {BLE_DEVICE_CONNECTING, BLE_DEVICE_REMOVING}"
  using links_okD(5) [OF assms(1,2)] assms(3,4) by (auto simp: dev_ok_def)

lemma links_free:
  assumes ok: "links_ok s" and d: "d < DEVICE_STORE_MAX_DEVICES" "bd_in_use (dev s d)" "bd_connection_slot (dev s d) = Some i"
    and f: "bd_in_use (f (dev s d))" "bd_connection_slot (f (dev s d)) = None"
      "bd_state (f (dev s d)) \<in> {BLE_DEVICE_OFFLINE, BLE_DEVICE_BACKOFF, BLE_DEVICE_REMOVING}"
  shows "links_ok (dev_map d f (ble_conn_reset_to_free_unlocked i s))"
proof -
  note len = links_okD(1,2) [OF ok]
  note own = links_slot_unique [OF ok d]
  let ?C = "(bl_connections s)[i := fresh_slot BLE_CONN_FREE None (bc_generation (conn s i))]"
  let ?D = "(bl_devices s)[d := f (dev s d)]"
  have dv: "dev_ok ?C e (?D ! e)" if e: "e < DEVICE_STORE_MAX_DEVICES" for e
  proof (cases "e = d")
    case True
    then show ?thesis using f by (simp add: nth_update len d dev_ok_def)
  next
    case False
    have ne: "k \<noteq> i" if "bd_in_use (dev s e)" "bd_connection_slot (dev s e) = Some k" for k
      using links_slot_unique(3) [OF ok e that] own(3) False by auto
    show ?thesis using False
      by (simp add: nth_update len d) (rule dev_ok_conns [OF links_okD(5) [OF ok e]], use ne own in \<open>auto simp: nth_update len\<close>)
  qed
  have cn: "conn_ok ?D j (?C ! j)" if j: "j < BLE_CENTRAL_MAX_CONN" for j
  proof (cases "j = i")
    case True
    then show ?thesis using own by (simp add: nth_update len conn_ok_def)
  next
    case False
    then show ?thesis
      by (simp add: nth_update len own) (rule conn_ok_devs [OF links_okD(6) [OF ok j]], use d in \<open>auto simp: nth_update len\<close>)
  qed
  show ?thesis
    by (rule links_okI)
       (use links_okD [OF ok] dv cn own in \<open>simp_all add: dev_map_def conn_map_def ble_conn_reset_to_free_unlocked_def nth_update split: if_splits\<close>)
qed

lemma links_cong:
  assumes "links_ok s" "bl_connections t = bl_connections s" "bl_devices t = bl_devices s"
    and "length (bl_ctxs t) = length (bl_ctxs s)" "bl_cursor t < DEVICE_STORE_MAX_DEVICES"
  shows "links_ok t"
  using assms by (simp add: links_ok_def)

lemma links_count [simp]: "links_ok (count_metric f s) = links_ok s"
  by (simp add: links_ok_def count_metric_def)

lemma links_ctx_map [simp]: "links_ok (ctx_map x f s) = links_ok s"
  by (simp add: links_ok_def ctx_map_def)

lemma links_cursor: "links_ok s \<Longrightarrow> bl_cursor s < DEVICE_STORE_MAX_DEVICES"
  by (simp add: links_ok_def)

lemma links_slot_owner:
  assumes "links_ok s" "i < BLE_CENTRAL_MAX_CONN" "bc_state (conn s i) \<noteq> BLE_CONN_FREE"
  obtains d where "d < DEVICE_STORE_MAX_DEVICES" "bc_device_index (conn s i) = Some d" "bd_in_use (dev s d)"
    "bd_connection_slot (dev s d) = Some i"
  using links_okD(6) [OF assms(1,2)] assms(3) unfolding conn_ok_def by blast

subsection \<open>Each step keeps it\<close>

lemma links_reserve:
  assumes ok: "links_ok s" shows "links_ok (fst (ble_state_reserve_connection lk d now s))"
proof (cases "ble_state_reserve_connection lk d now s")
  case (Pair s' r)
  show ?thesis
  proof (cases r)
    case (Inl e)
    with Pair have "s' = s"
      by (auto simp: ble_state_reserve_connection_def Let_def split: if_splits option.splits)
    with ok Pair show ?thesis by simp
  next
    case (Inr ref)
    with Pair obtain e i where e: "d = Some e" "e < DEVICE_STORE_MAX_DEVICES" "bd_in_use (dev s e)"
        "bd_connection_slot (dev s e) = None"
      and idle: "\<forall>c\<in>set (bl_connections s). bc_state c \<noteq> BLE_CONN_CONNECTING"
      and i: "find_index (\<lambda>c. bc_state c = BLE_CONN_FREE) (bl_connections s) = Some i"
      and s': "s' = count_metric (\<lambda>m. m\<lparr>bm_connect_attempts := bm_connect_attempts m + 1\<rparr>)
                 (dev_map e (\<lambda>v. v\<lparr>bd_connection_slot := Some i, bd_state := BLE_DEVICE_CONNECTING,
                                    bd_last_attempt_ms := now\<rparr>)
                   (ble_conn_prepare_new_lifetime_unlocked i e s))"
      by (auto simp: ble_state_reserve_connection_def Let_def dest!: index_okD split: if_splits option.splits)
    note len = links_okD(1,2) [OF ok]
    have free: "i < BLE_CENTRAL_MAX_CONN" "bc_state (conn s i) = BLE_CONN_FREE"
      using find_index_SomeD [OF i] len by auto
    have idle': "bc_state (conn s j) \<noteq> BLE_CONN_CONNECTING" if "j < BLE_CENTRAL_MAX_CONN" for j
      using idle that len by (metis nth_mem)
    let ?c = "fresh_slot BLE_CONN_CONNECTING (Some e) (bc_generation (conn s i) + 1)"
    let ?v = "(dev s e)\<lparr>bd_connection_slot := Some i, bd_state := BLE_DEVICE_CONNECTING, bd_last_attempt_ms := now\<rparr>"
    have dv: "dev_ok ((bl_connections s)[i := ?c]) k ((bl_devices s)[e := ?v] ! k)"
      if k: "k < DEVICE_STORE_MAX_DEVICES" for k
    proof (cases "k = e")
      case True
      then show ?thesis using free e by (simp add: nth_update len dev_ok_def)
    next
      case False
      have "dev_ok ((bl_connections s)[i := ?c]) k (dev s k)"
      proof (rule dev_ok_conns [OF links_okD(5) [OF ok k]])
        fix j assume "bd_in_use (dev s k)" "bd_connection_slot (dev s k) = Some j"
        from links_slot_unique(2) [OF ok k this] free have "i \<noteq> j" by auto
        then show "bc_device_index ((bl_connections s)[i := ?c] ! j) = bc_device_index (conn s j) \<and>
            (bc_state ((bl_connections s)[i := ?c] ! j) = BLE_CONN_FREE \<longleftrightarrow> bc_state (conn s j) = BLE_CONN_FREE)"
          by simp
      qed
      with False show ?thesis by simp
    qed
    have cn: "conn_ok ((bl_devices s)[e := ?v]) j ((bl_connections s)[i := ?c] ! j)" if j: "j < BLE_CENTRAL_MAX_CONN" for j
    proof (cases "j = i")
      case True
      then show ?thesis using free e by (simp add: nth_update len conn_ok_def)
    next
      case False
      have "conn_ok ((bl_devices s)[e := ?v]) j (conn s j)"
        by (rule conn_ok_devs [OF links_okD(6) [OF ok j]]) (use e in \<open>auto simp: nth_update len\<close>)
      with False show ?thesis by simp
    qed
    show ?thesis unfolding Pair fst_conv s' links_count
      by (rule links_okI)
         (use links_okD [OF ok] dv cn free idle' in \<open>simp_all add: dev_map_def conn_map_def
            ble_conn_prepare_new_lifetime_unlocked_def nth_update split: if_splits\<close>)
  qed
qed

lemma detach_device_none:
  assumes ok: "links_ok s" and i: "i < BLE_CENTRAL_MAX_CONN \<Longrightarrow> bc_state (conn s i) = BLE_CONN_FREE"
  shows "detach_device i now s = s"
proof -
  have "\<not> (bd_in_use v \<and> bd_connection_slot v = Some i)" if "v \<in> set (bl_devices s)" for v
  proof
    assume v: "bd_in_use v \<and> bd_connection_slot v = Some i"
    from that obtain d where "d < DEVICE_STORE_MAX_DEVICES" "v = dev s d"
      using links_okD(2) [OF ok] by (auto simp: in_set_conv_nth)
    with links_slot_unique [OF ok] v i show False by blast
  qed
  then have "find_index (\<lambda>v. bd_in_use v \<and> bd_connection_slot v = Some i) (bl_devices s) = None"
    by (auto simp: find_index_None)
  then show ?thesis by (simp add: detach_device_def)
qed

lemma links_rollback:
  assumes ok: "links_ok s" and ref: "\<not> reissued s ref"
  shows "links_ok (ble_state_rollback_connection_start lk ref now s)"
proof (cases "ble_ref_valid_unlocked s ref")
  case True
  let ?i = "rf_slot_index ref"
  note len = links_okD(1,2) [OF ok]
  from ref_validD [OF True] have i: "?i < BLE_CENTRAL_MAX_CONN" "bc_state (conn s ?i) \<noteq> BLE_CONN_FREE" by auto
  obtain d where d: "d < DEVICE_STORE_MAX_DEVICES" "bc_device_index (conn s ?i) = Some d" "bd_in_use (dev s d)"
      "bd_connection_slot (dev s d) = Some ?i"
    by (rule links_slot_owner [OF ok i])
  have uniq: "e = d" if "e < DEVICE_STORE_MAX_DEVICES" "bd_in_use (dev s e)" "bd_connection_slot (dev s e) = Some ?i" for e
    using links_slot_unique(3) [OF ok that] d by simp
  have f: "find_index (\<lambda>v. bd_in_use v \<and> bd_connection_slot v = Some ?i) (bl_devices s) = Some d"
  proof (rule find_index_SomeI)
    show "\<forall>e<d. \<not> (bd_in_use (dev s e) \<and> bd_connection_slot (dev s e) = Some ?i)"
      using uniq d(1) by (metis less_trans order_less_irrefl)
  qed (use d len in simp_all)
  let ?g = "\<lambda>v. if bd_state v = BLE_DEVICE_CONNECTING
      then ble_schedule_retry_unlocked now (v\<lparr>bd_connection_slot := None, bd_state := BLE_DEVICE_BACKOFF\<rparr>)
      else v\<lparr>bd_connection_slot := None\<rparr>"
  have "free_owned_slot ref s = ble_conn_reset_to_free_unlocked ?i s"
    using True d by (simp add: free_owned_slot_def)
  moreover have "detach_device ?i now (ble_conn_reset_to_free_unlocked ?i s) = dev_map d ?g (ble_conn_reset_to_free_unlocked ?i s)"
    using f by (simp add: detach_device_def ble_conn_reset_to_free_unlocked_def conn_map_def)
  moreover have "links_ok (dev_map d ?g (ble_conn_reset_to_free_unlocked ?i s))"
    by (rule links_free [OF ok d(1,3,4)]) (use d links_slot_unique(4) [OF ok d(1,3,4)] in \<open>simp_all split: if_splits\<close>, auto)
  ultimately have "links_ok (detach_device ?i now (free_owned_slot ref s))" by simp
  then show ?thesis using ok by (simp add: ble_state_rollback_connection_start_def)
next
  case False
  then have "free_owned_slot ref s = s" by (simp add: free_owned_slot_def)
  moreover have "detach_device (rf_slot_index ref) now s = s"
    using False ref by (intro detach_device_none [OF ok]) (auto simp: reissued_def ble_ref_valid_unlocked_def)
  ultimately show ?thesis using ok by (simp add: ble_state_rollback_connection_start_def)
qed

lemma links_disconnected:
  assumes ok: "links_ok s" shows "links_ok (fst (ble_state_on_disconnect lk ref h now cap s))"
proof (cases "lk \<and> event_matches ref h s")
  case True
  then have v: "ble_ref_valid_unlocked s ref" by (simp add: event_matches_def)
  let ?i = "rf_slot_index ref"
  from ref_validD [OF v] have i: "?i < BLE_CENTRAL_MAX_CONN" "bc_state (conn s ?i) \<noteq> BLE_CONN_FREE" by auto
  obtain d where d: "d < DEVICE_STORE_MAX_DEVICES" "bc_device_index (conn s ?i) = Some d" "bd_in_use (dev s d)"
      "bd_connection_slot (dev s d) = Some ?i"
    by (rule links_slot_owner [OF ok i])
  have "links_ok (dev_map d (\<lambda>v. if bd_state v \<noteq> BLE_DEVICE_REMOVING
      then ble_schedule_retry_unlocked now (v\<lparr>bd_connection_slot := None, bd_state := BLE_DEVICE_BACKOFF\<rparr>)
      else v\<lparr>bd_connection_slot := None\<rparr>) (ble_conn_reset_to_free_unlocked ?i s))"
    by (rule links_free [OF ok d(1,3,4)]) (use d in auto)
  with True d show ?thesis by (simp add: ble_state_on_disconnect_def live_device_def Let_def)
next
  case False
  then show ?thesis using ok by (auto simp: ble_state_on_disconnect_def)
qed

lemma links_note_failure:
  assumes ok: "links_ok s" shows "links_ok (ble_scheduler_note_failure lk d now s)"
proof (cases "index_ok d \<and> lk \<and> bd_in_use (dev s (the d)) \<and> bd_state (dev s (the d)) = BLE_DEVICE_CONNECTING")
  case True
  then obtain e where e: "d = Some e" "e < DEVICE_STORE_MAX_DEVICES" by (auto dest: index_okD)
  with True have use: "bd_in_use (dev s e)" "bd_state (dev s e) = BLE_DEVICE_CONNECTING" by auto
  with links_okD(5) [OF ok e(2)] obtain i where i: "bd_connection_slot (dev s e) = Some i"
    by (auto simp: dev_ok_def split: option.splits)
  note own = links_slot_unique [OF ok e(2) use(1) i]
  have "links_ok (dev_map e (\<lambda>v. (ble_schedule_retry_unlocked now v)\<lparr>bd_connection_slot := None, bd_state := BLE_DEVICE_BACKOFF\<rparr>)
      (ble_conn_reset_to_free_unlocked i s))"
    by (rule links_free [OF ok e(2) use(1) i]) (use use in auto)
  with True e use i own show ?thesis
    by (simp add: ble_scheduler_note_failure_def Let_def ble_state_reset_slot_free_unlocked_def)
next
  case False
  then show ?thesis using ok by (auto simp: ble_scheduler_note_failure_def Let_def)
qed

lemma links_host_reset:
  assumes ok: "links_ok s" shows "links_ok (fst (ble_state_handle_host_reset lk m s))"
proof (cases lk)
  case True
  note len = links_okD(1,2) [OF ok]
  have dv: "dev_ok (map reset_slot (bl_connections s)) d (reset_device (dev s d))" if "d < DEVICE_STORE_MAX_DEVICES" for d
    using links_okD(5) [OF ok that] by (auto simp: dev_ok_def reset_device_def split: option.splits)
  have "bc_state (reset_slot c) = BLE_CONN_FREE" for c by (simp add: reset_slot_def)
  then have "links_ok (s\<lparr>bl_connections := map reset_slot (bl_connections s),
              bl_ctxs := map (\<lambda>x. x\<lparr>bx_in_use := False\<rparr>) (bl_ctxs s), bl_devices := map reset_device (bl_devices s),
              bl_metrics := (bl_metrics s)\<lparr>bm_host_resets := bm_host_resets (bl_metrics s) + 1\<rparr>\<rparr>)"
    by (intro links_okI) (use links_okD [OF ok] dv in \<open>simp_all add: conn_ok_def\<close>)
  with True show ?thesis by (simp add: ble_state_handle_host_reset_def)
qed (use ok in \<open>simp add: ble_state_handle_host_reset_def\<close>)

lemma links_register:
  assumes ok: "links_ok s" shows "links_ok (fst (ble_runtime_find_or_register lk ident addr s))"
proof -
  have known: "links_ok (dev_map i (\<lambda>v. v\<lparr>bd_peer_addr := a, bd_has_peer_addr := True\<rparr>) s)"
    if "ble_runtime_find_unlocked s j = Some i" for i j a
    using find_index_SomeD [OF that [unfolded ble_runtime_find_unlocked_def]] links_okD(2) [OF ok]
    by (intro links_dev_map [OF ok]) auto
  have fresh: "links_ok (dev_map i (\<lambda>_. new_device j addr) s)"
    if "find_index (\<lambda>v. \<not> bd_in_use v) (bl_devices s) = Some i" for i j
    using find_index_SomeD [OF that] links_okD(2) [OF ok]
    by (intro links_new_dev [OF ok]) (auto simp: new_device_def)
  show ?thesis using ok known fresh
    by (auto simp: ble_runtime_find_or_register_def ble_runtime_register_unlocked_def split: option.splits)
qed

lemma links_link_steps:
  assumes ok: "links_ok s"
  shows "e < DEVICE_STORE_MAX_DEVICES \<Longrightarrow> links_ok (fst (disconnect_link e s))"
    and "e < DEVICE_STORE_MAX_DEVICES \<Longrightarrow> links_ok (fst (forget_link e s))"
proof -
  have closing: "links_ok (conn_map i (\<lambda>c. c\<lparr>bc_state := BLE_CONN_DISCONNECTING\<rparr>) t)"
    if "links_ok t" "slot_of k t = Some i" "bc_state (conn t i) \<noteq> BLE_CONN_FREE" for t k i
    by (rule links_conn_map [OF that(1)]) (use that in \<open>auto simp: slot_of_def split: option.splits if_splits\<close>)
  show "links_ok (fst (disconnect_link e s))"
    using ok closing [OF ok] by (auto simp: disconnect_link_def split: option.splits)
  let ?s1 = "if bd_state (dev s e) \<noteq> BLE_DEVICE_REMOVING
             then dev_map e (\<lambda>v. v\<lparr>bd_reconnect_enabled := False, bd_state := BLE_DEVICE_REMOVING\<rparr>) s else s"
  assume "e < DEVICE_STORE_MAX_DEVICES"
  then have "links_ok ?s1" using ok by (auto intro: links_dev_map)
  then show "links_ok (fst (forget_link e s))"
    unfolding forget_link_def Let_def by (auto simp: closing split: option.splits)
qed

lemma links_finalize:
  assumes "links_ok s" "slotless s d" shows "links_ok (ble_runtime_finalize_remove lk d s)"
  using assms by (auto simp: ble_runtime_finalize_remove_def slotless_def dest!: index_okD intro!: links_new_dev)

lemma links_slot_steps:
  assumes ok: "links_ok s"
  shows "links_ok (fst (ble_state_on_connect_success lk ref h now s))"
    and "links_ok (ble_state_mark_disconnecting lk ref s)"
    and "links_ok (ble_state_update_mtu lk ref h mtu s)"
    and "links_ok (ble_state_set_ready lk ref s)"
    and "links_ok (fst (ble_state_begin_discovery lk ref now s))"
    and "links_ok (fst (ble_state_set_service_range lk ref a b s))"
    and "links_ok (fst (ble_state_set_char_handle lk ref uuid h s))"
    and "links_ok (fst (ble_state_set_cccd_handle lk ref v h s))"
  using ok
  by (auto simp: ble_state_on_connect_success_def ble_state_mark_disconnecting_def ble_state_update_mtu_def
      ble_state_set_ready_def ble_state_begin_discovery_def ble_state_set_service_range_def ble_state_set_char_handle_def
      ble_state_set_cccd_handle_def event_matches_def Let_def dest!: ref_validD intro!: links_conn_map split: option.splits)

lemma links_other_steps:
  assumes ok: "links_ok s"
  shows "links_ok (ble_host_set_ready rdy s)"
    and "links_ok (fst (ble_state_ctx_acquire lk ref s))"
    and "links_ok (ble_state_ctx_release_by_ref lk ref s)"
    and "links_ok (ble_state_ctx_update_handle lk ref h s)"
    and "links_ok (fst (ble_runtime_set_peer_addr lk d addr s))"
    and "links_ok (ble_scheduler_note_success lk d now s)"
    and "links_ok (fst (ble_scheduler_next_device lk now s))"
  using ok links_cong [OF ok, of "s\<lparr>bl_host_ready := rdy\<rparr>"] links_cong [OF ok, of "s\<lparr>bl_cursor := n mod 16\<rparr>" for n] links_cursor [OF ok]
  by (auto simp: ble_host_set_ready_def ble_state_ctx_acquire_def ble_state_ctx_release_by_ref_def ble_state_ctx_update_handle_def
      ble_runtime_set_peer_addr_def ble_scheduler_note_success_def ble_scheduler_next_device_def Let_def
      dest!: index_okD intro!: links_dev_map split: option.splits)

lemma links_table: "table_step s t \<Longrightarrow> links_ok s \<Longrightarrow> links_ok t"
  by (induction rule: table_step.induct)
     (simp_all add: links_reserve links_rollback links_disconnected links_note_failure links_host_reset links_register
        links_link_steps links_finalize links_slot_steps links_other_steps)

lemma links_step: "ble_step s t \<Longrightarrow> links_ok s \<Longrightarrow> links_ok t"
  by (induction rule: ble_step.induct) (simp_all add: links_table links_slot_steps)

lemma register_fresh:
  assumes "length (bl_devices s) = DEVICE_STORE_MAX_DEVICES" "length (bl_connections s) = BLE_CENTRAL_MAX_CONN"
    and "links_ok s" shows "links_ok (register_stored es s)"
  using assms
proof (induction es arbitrary: s)
  case (Cons e es)
  have "links_ok (fst (ble_runtime_register_unlocked (de_device_id e) (Some (de_ble_addr_type e, de_ble_addr e)) s))"
    using Cons.prems find_index_SomeD [of "\<lambda>v. \<not> bd_in_use v" "bl_devices s"]
    by (auto simp: ble_runtime_register_unlocked_def new_device_def intro!: links_new_dev split: option.splits)
  with Cons show ?case by (auto intro: Cons.IH dest: links_okD)
qed simp

lemma links_boot: "ble_boot s \<Longrightarrow> links_ok s"
proof -
  have "links_ok ((fst (ble_central_state_init True True True ble_power_on))\<lparr>bl_devices := replicate DEVICE_STORE_MAX_DEVICES zero_ble_device\<rparr>)"
    by (rule links_okI) (auto simp: ble_central_state_init_def ble_power_on_def dev_ok_def conn_ok_def)
  then show "links_ok s" if "ble_boot s"
    using that links_okD by (auto simp: ble_boot_def ble_init_state_def ble_central_runtime_init_def intro!: register_fresh)
qed

subsection \<open>Identifiers\<close>

definition ids_ok :: "ble_state \<Rightarrow> bool" where
  "ids_ok s \<longleftrightarrow>
     length (bl_devices s) = DEVICE_STORE_MAX_DEVICES \<and>
     (\<forall>d<DEVICE_STORE_MAX_DEVICES. bd_in_use (dev s d) \<longrightarrow> length (bd_device_id (dev s d)) < GW_MSG_DEVICE_ID_LEN) \<and>
     (\<forall>d<DEVICE_STORE_MAX_DEVICES. \<forall>e<DEVICE_STORE_MAX_DEVICES.
        bd_in_use (dev s d) \<and> bd_in_use (dev s e) \<and> bd_device_id (dev s d) = bd_device_id (dev s e) \<longrightarrow> d = e)"

definition keeps_ids :: "ble_device_runtime list \<Rightarrow> ble_device_runtime list \<Rightarrow> bool" where
  "keeps_ids D E \<longleftrightarrow>
     list_all2 (\<lambda>v w. bd_in_use w \<longrightarrow> bd_in_use v \<and> bd_device_id w = bd_device_id v) D E"

lemma keeps_ids_refl [simp]: "keeps_ids D D"
  by (simp add: keeps_ids_def list_all2_refl)

lemma keeps_ids_update:
  "(bd_in_use w \<Longrightarrow> bd_in_use (D ! d) \<and> bd_device_id w = bd_device_id (D ! d)) \<Longrightarrow> keeps_ids D (D[d := w])"
  by (cases "d < length D") (auto simp: keeps_ids_def list_all2_conv_all_nth nth_list_update)

lemma keeps_ids_map: "(\<And>v. bd_in_use (f v) \<Longrightarrow> bd_in_use v \<and> bd_device_id (f v) = bd_device_id v) \<Longrightarrow> keeps_ids D (map f D)"
  by (auto simp: keeps_ids_def list_all2_conv_all_nth)

lemma ids_keeps: "\<lbrakk>ids_ok s; keeps_ids (bl_devices s) (bl_devices t)\<rbrakk> \<Longrightarrow> ids_ok t"
  unfolding ids_ok_def keeps_ids_def list_all2_conv_all_nth by metis

lemma map_devices [simp]:
  "bl_devices (conn_map i f s) = bl_devices s" "bl_devices (ctx_map x g s) = bl_devices s"
  "bl_devices (count_metric c s) = bl_devices s" "bl_devices (dev_map d h s) = (bl_devices s)[d := h (dev s d)]"
  by (simp_all add: map_simps)

lemma ids_new:
  assumes ok: "ids_ok s" and none: "find_index (\<lambda>v. bd_in_use v \<and> bd_device_id v = j) (bl_devices s) = None"
    and free: "find_index (\<lambda>v. \<not> bd_in_use v) (bl_devices s) = Some i" and j: "length j < GW_MSG_DEVICE_ID_LEN"
  shows "ids_ok (dev_map i (\<lambda>_. new_device j addr) s)"
proof -
  have len: "length (bl_devices s) = DEVICE_STORE_MAX_DEVICES" using ok by (simp add: ids_ok_def)
  have i: "i < DEVICE_STORE_MAX_DEVICES" using find_index_SomeD [OF free] len by simp
  have ne: "bd_device_id (dev s d) \<noteq> j" if "d < DEVICE_STORE_MAX_DEVICES" "bd_in_use (dev s d)" for d
    using none that len by (metis (lifting) find_index_None nth_mem)
  have new: "bd_device_id (new_device j addr) = j" "bd_in_use (new_device j addr)"
    using j by (simp_all add: new_device_def)
  show ?thesis
    using ok len i ne j new unfolding ids_ok_def dev_map_def
    by (simp add: nth_update) metis
qed

lemma ids_table: "table_step s t \<Longrightarrow> ids_ok s \<Longrightarrow> ids_ok t"
proof (induction rule: table_step.induct)
  case (register ident s lk addr)
  show ?case
  proof (cases ident)
    case (Some j)
    with register ids_new [of s j] show ?thesis
      by (auto simp: ble_runtime_find_or_register_def ble_runtime_register_unlocked_def ble_runtime_find_unlocked_def
          intro!: ids_keeps [OF register.prems] keeps_ids_update split: option.splits)
  qed (use register in \<open>simp add: ble_runtime_find_or_register_def\<close>)
next
  case (disconnected s lk ref h now cap)
  then show ?case
    by (intro ids_keeps [OF disconnected.prems])
       (auto simp: ble_state_on_disconnect_def ble_conn_reset_to_free_unlocked_def Let_def intro!: keeps_ids_update split: option.splits)
next
  case (rollback s ref lk now)
  then show ?case
    by (intro ids_keeps [OF rollback.prems])
       (auto simp: ble_state_rollback_connection_start_def detach_device_def free_owned_slot_def
          ble_conn_reset_to_free_unlocked_def intro!: keeps_ids_update split: option.splits)
next
  case (note_failure s lk d now)
  then show ?case
    by (intro ids_keeps [OF note_failure.prems])
       (auto simp: ble_scheduler_note_failure_def ble_state_reset_slot_free_unlocked_def
          ble_conn_reset_to_free_unlocked_def Let_def intro!: keeps_ids_update split: option.splits)
next
  case (reserve s lk d now)
  then show ?case
    by (intro ids_keeps [OF reserve.prems])
       (auto simp: ble_state_reserve_connection_def ble_conn_prepare_new_lifetime_unlocked_def Let_def
          intro!: keeps_ids_update split: option.splits)
next
  case (host_reset s lk m)
  then show ?case
    by (intro ids_keeps [OF host_reset.prems])
       (auto simp: ble_state_handle_host_reset_def reset_device_def intro!: keeps_ids_map split: if_splits)
next
  case (forget_link e s)
  then show ?case
    by (intro ids_keeps [OF forget_link.prems])
       (auto simp: forget_link_def Let_def intro!: keeps_ids_update split: option.splits)
qed (auto simp: ble_state_on_connect_success_def ble_state_mark_disconnecting_def ble_state_update_mtu_def
      ble_state_set_ready_def ble_state_begin_discovery_def ble_state_set_service_range_def ble_state_set_char_handle_def
      ble_state_set_cccd_handle_def ble_host_set_ready_def ble_state_ctx_acquire_def ble_state_ctx_release_by_ref_def
      ble_state_ctx_update_handle_def ble_runtime_set_peer_addr_def ble_scheduler_note_success_def
      ble_scheduler_next_device_def ble_runtime_finalize_remove_def disconnect_link_def Let_def
      elim!: ids_keeps intro!: keeps_ids_update split: option.splits)

lemma ids_step: "ble_step s t \<Longrightarrow> ids_ok s \<Longrightarrow> ids_ok t"
  by (induction rule: ble_step.induct)
     (auto simp: ids_table ble_state_on_connect_success_def ble_state_set_ready_def ble_state_set_char_handle_def
        ble_state_set_cccd_handle_def Let_def elim!: ids_keeps split: option.splits)

lemma ids_stored:
  assumes "distinct (map de_device_id es)" "\<forall>e\<in>set es. length (de_device_id e) < GW_MSG_DEVICE_ID_LEN"
    and "ids_ok s" "\<And>d e. \<lbrakk>d < DEVICE_STORE_MAX_DEVICES; bd_in_use (dev s d); e \<in> set es\<rbrakk> \<Longrightarrow> bd_device_id (dev s d) \<noteq> de_device_id e"
  shows "ids_ok (register_stored es s)"
  using assms
proof (induction es arbitrary: s)
  case (Cons e es)
  let ?j = "de_device_id e"
  let ?s = "fst (ble_runtime_register_unlocked ?j (Some (de_ble_addr_type e, de_ble_addr e)) s)"
  have len: "length (bl_devices s) = DEVICE_STORE_MAX_DEVICES" using Cons.prems(3) by (simp add: ids_ok_def)
  have none: "find_index (\<lambda>v. bd_in_use v \<and> bd_device_id v = ?j) (bl_devices s) = None"
    using Cons.prems(4) len by (fastforce simp: find_index_None in_set_conv_nth)
  have "ids_ok ?s \<and> (\<forall>d<DEVICE_STORE_MAX_DEVICES. bd_in_use (dev ?s d) \<longrightarrow> bd_device_id (dev ?s d) \<notin> de_device_id ` set es)"
  proof (cases "find_index (\<lambda>v. \<not> bd_in_use v) (bl_devices s)")
    case None
    with Cons.prems(3,4) show ?thesis by (auto simp: ble_runtime_register_unlocked_def)
  next
    case (Some i)
    have j: "length ?j < GW_MSG_DEVICE_ID_LEN" using Cons.prems(2) by simp
    have "i < DEVICE_STORE_MAX_DEVICES" using find_index_SomeD [OF Some] len by simp
    moreover have "bd_device_id (new_device ?j a) = ?j" for a using j by (simp add: new_device_def)
    ultimately show ?thesis
      using Some ids_new [OF Cons.prems(3) none Some j] Cons.prems(1,4)
      by (auto simp: ble_runtime_register_unlocked_def nth_update len)
  qed
  with Cons.prems show ?case by (auto intro!: Cons.IH)
qed simp

definition ble_inv :: "ble_state \<Rightarrow> bool" where
  "ble_inv s \<longleftrightarrow> links_ok s \<and> ids_ok s"

lemma inv_boot: "ble_boot s \<Longrightarrow> ble_inv s"
  by (auto simp: ble_inv_def links_boot ble_boot_def ble_init_state_def ble_central_runtime_init_def
      intro!: ids_stored) (simp add: ids_ok_def)

interpretation bl: step_system ble_boot ble_step ble_inv
  by unfold_locales (auto simp: ble_inv_def inv_boot [unfolded ble_inv_def] intro: links_step ids_step)

end
