(* ===== verification/Ble_Run.thy ===== *)
theory Ble_Run
  imports Ble_Links
begin

text \<open>
  The functions and callbacks of the BLE central as sequences of the steps of \<open>Ble_Links\<close>: what every
  interleaving of critical sections keeps holds around the calls too. Then what the steps do to the
  generation of a slot, to the cursor of the reconnect schedule, and to the attribute handles a link needs
  before it is ready.
\<close>

section \<open>Functions as sequences of steps\<close>

text \<open>A relation that contains the table steps is closed under the functions that only take such steps.\<close>

named_theorems path_intros

locale path_system =
  fixes R :: "ble_state \<Rightarrow> ble_state \<Rightarrow> bool"
  assumes table: "table_step s t \<Longrightarrow> R s t"
begin

lemma path_step: "\<lbrakk>R\<^sup>*\<^sup>* s t; table_step t u\<rbrakk> \<Longrightarrow> R\<^sup>*\<^sup>* s u"
  by (auto intro: rtranclp.rtrancl_into_rtrancl table)

lemma path_metric: "R\<^sup>*\<^sup>* s t \<Longrightarrow> R\<^sup>*\<^sup>* s (metric_call lk f t)"
  by (auto simp: metric_call_def intro: path_step table_step.count)

lemma path_metrics:
  assumes "R\<^sup>*\<^sup>* s t"
  shows "R\<^sup>*\<^sup>* s (ble_central_metrics_stale_callback lk t)"
    and "R\<^sup>*\<^sup>* s (ble_central_metrics_security_failure lk t)"
    and "R\<^sup>*\<^sup>* s (ble_central_metrics_discovery_failure lk t)"
    and "R\<^sup>*\<^sup>* s (ble_central_metrics_mtu_reject lk t)"
  using assms
  by (simp_all add: ble_central_metrics_stale_callback_def ble_central_metrics_security_failure_def
      ble_central_metrics_discovery_failure_def ble_central_metrics_mtu_reject_def path_metric)

lemmas path_steps =
  path_step [OF _ table_step.disconnected] path_step [OF _ table_step.update_mtu]
  path_step [OF _ table_step.begin_discovery] path_step [OF _ table_step.set_range]
  path_step [OF _ table_step.host_reset] path_step [OF _ table_step.host_ready]
  path_step [OF _ table_step.ctx_acquire] path_step [OF _ table_step.ctx_release]
  path_step [OF _ table_step.set_peer] path_step [OF _ table_step.note_success]
  path_step [OF _ table_step.next_device] path_step [OF _ table_step.note_failure]

lemmas basic_paths [path_intros] = path_metrics path_steps

end

lemma reserve_valid:
  assumes "links_ok s" "ble_state_reserve_connection lk d now s = (s', Inr ref)"
  shows "ble_ref_valid_unlocked s' ref"
  using assms(2) links_okD(1) [OF assms(1)]
  by (auto simp: ble_state_reserve_connection_def ble_ref_valid_unlocked_def map_simps
      ble_conn_prepare_new_lifetime_unlocked_def Let_def dest!: find_index_SomeD split: if_splits option.splits)

lemma valid_not_reissued: "ble_ref_valid_unlocked s ref \<Longrightarrow> \<not> reissued s ref"
  by (simp add: ble_ref_valid_unlocked_def reissued_def)

lemma ctx_keeps_slots [simp]:
  "bl_connections (fst (ble_state_ctx_acquire lk ref s)) = bl_connections s"
  "bl_connections (ble_state_ctx_release_by_ref lk ref s) = bl_connections s"
  "bl_devices (fst (ble_state_ctx_acquire lk ref s)) = bl_devices s"
  "bl_devices (ble_state_ctx_release_by_ref lk ref s) = bl_devices s"
  by (auto simp: ble_state_ctx_acquire_def ble_state_ctx_release_by_ref_def map_simps split: option.splits)

lemma reissued_cong: "bl_connections t = bl_connections s \<Longrightarrow> reissued t ref = reissued s ref"
  by (simp add: reissued_def)

lemma disconnected_slotless:
  assumes inv: "ble_inv s" and dc: "ble_state_on_disconnect lk ref h now GW_MSG_DEVICE_ID_LEN s = (t, Some info)"
    and rem: "di_removing info" and f: "ble_runtime_find lk' (Some (di_device_id info)) t = Inr e"
  shows "slotless t (Some e)"
proof -
  have ok: "links_ok s" and ids: "ids_ok s" using inv by (auto simp: ble_inv_def)
  have step: "table_step s t" using table_step.disconnected [of s lk ref h now GW_MSG_DEVICE_ID_LEN] dc by simp
  have idt: "ids_ok t" by (rule ids_table [OF step ids])
  from dc have m: "event_matches ref h s" and lk: lk
    by (auto simp: ble_state_on_disconnect_def split: if_splits)
  then have v: "ble_ref_valid_unlocked s ref" by (simp add: event_matches_def)
  let ?i = "rf_slot_index ref"
  from ref_validD [OF v] have i: "?i < BLE_CENTRAL_MAX_CONN" "bc_state (conn s ?i) \<noteq> BLE_CONN_FREE" by auto
  obtain d where d: "d < DEVICE_STORE_MAX_DEVICES" "bc_device_index (conn s ?i) = Some d" "bd_in_use (dev s d)"
      "bd_connection_slot (dev s d) = Some ?i"
    by (rule links_slot_owner [OF ok i])
  have len: "length (bl_devices s) = DEVICE_STORE_MAX_DEVICES" using ids by (simp add: ids_ok_def)
  have short: "length (bd_device_id (dev s d)) < GW_MSG_DEVICE_ID_LEN" using ids d by (simp add: ids_ok_def)
  have td: "bd_in_use (dev t d)" "bd_connection_slot (dev t d) = None" "bd_device_id (dev t d) = bd_device_id (dev s d)"
    and info: "di_device_id info = bd_device_id (dev s d)"
    using dc m lk d short len
    by (auto simp: ble_state_on_disconnect_def live_device_def Let_def ble_conn_reset_to_free_unlocked_def nth_update
        split: if_splits)
  from f have e: "ble_runtime_find_unlocked t (di_device_id info) = Some e"
    by (auto simp: ble_runtime_find_def split: if_splits option.splits)
  have "e < DEVICE_STORE_MAX_DEVICES" "bd_in_use (dev t e)" "bd_device_id (dev t e) = bd_device_id (dev t d)"
    using find_index_SomeD [OF e [unfolded ble_runtime_find_unlocked_def]] idt td info by (auto simp: ids_ok_def)
  with idt td d(1) have "e = d" by (simp add: ids_ok_def)
  with td show ?thesis by (simp add: slotless_def)
qed

context path_system
begin

lemma start_path:
  assumes p: "R\<^sup>*\<^sup>* u s" and ok: "links_ok s" shows "R\<^sup>*\<^sup>* u (fst (ble_connection_start env d s))"
proof (cases "ble_state_reserve_connection (be_lock env 0) d (be_now env 0) s")
  case (Pair s1 r)
  have p1: "R\<^sup>*\<^sup>* u s1" using path_step [OF p table_step.reserve] Pair by (metis fst_conv)
  show ?thesis
  proof (cases r)
    case (Inl e)
    with Pair p1 show ?thesis by (simp add: ble_connection_start_def)
  next
    case (Inr ref)
    have nr: "\<not> reissued s1 ref"
      using reserve_valid [OF ok] Pair Inr by (simp add: valid_not_reissued)
    have undo: "R\<^sup>*\<^sup>* u (ble_state_rollback_connection_start lk ref now t)"
      if "R\<^sup>*\<^sup>* u t" "bl_connections t = bl_connections s1" for t lk now
      using path_step [OF that(1) table_step.rollback] that(2) nr reissued_cong by blast
    obtain s2 x where acq: "ble_state_ctx_acquire (be_lock env 4) ref s1 = (s2, x)" by (cases "ble_state_ctx_acquire (be_lock env 4) ref s1")
    have s2: "R\<^sup>*\<^sup>* u s2" "bl_connections s2 = bl_connections s1"
      using path_step [OF p1 table_step.ctx_acquire] acq ctx_keeps_slots(1) by (metis fst_conv)+
    show ?thesis
      using Pair Inr acq s2 p1
      by (auto simp: ble_connection_start_def Let_def intro!: undo path_intros split: option.splits)
  qed
qed

lemma abort_path [path_intros]: "R\<^sup>*\<^sup>* u s \<Longrightarrow> R\<^sup>*\<^sup>* u (fst (ble_central_abort_discovery env x s))"
  by (auto simp: ble_central_abort_discovery_def intro: path_intros split: option.splits)

lemma discovery_path [path_intros]: "R\<^sup>*\<^sup>* u s \<Longrightarrow> R\<^sup>*\<^sup>* u (fst (ble_central_start_gatt_discovery env x s))"
  by (auto simp: ble_central_start_gatt_discovery_def case_prod_beta intro!: path_intros)

lemma release_path:
  assumes p: "R\<^sup>*\<^sup>* u s" and inv: "ble_inv s"
  shows "R\<^sup>*\<^sup>* u (fst (gap_release_connection env ref h now s))"
proof (cases "ble_state_on_disconnect (be_lock env 2) ref h now GW_MSG_DEVICE_ID_LEN s")
  case (Pair t r)
  have pt: "R\<^sup>*\<^sup>* u t" using path_step [OF p table_step.disconnected] Pair by (metis fst_conv)
  show ?thesis
  proof (cases r)
    case None
    with Pair pt show ?thesis by (simp add: gap_release_connection_def)
  next
    case (Some info)
    have fin: "R\<^sup>*\<^sup>* u (ble_runtime_finalize_remove lk (Some e) t)"
      if "di_removing info" "ble_runtime_find lk' (Some (di_device_id info)) t = Inr e" for lk lk' e
      using path_step [OF pt table_step.finalize] disconnected_slotless [OF inv _ that] Pair Some by blast
    show ?thesis
      using Pair Some pt fin
      by (auto simp: gap_release_connection_def Let_def split: option.splits sum.splits)
  qed
qed

lemma gap_snapshot_path [path_intros]: "R\<^sup>*\<^sup>* u s \<Longrightarrow> R\<^sup>*\<^sup>* u (fst (gap_ctx_snapshot env x h s))"
  by (auto simp: gap_ctx_snapshot_def split: option.splits intro!: path_intros)

lemma service_path: "R\<^sup>*\<^sup>* u s \<Longrightarrow> R\<^sup>*\<^sup>* u (fst (on_service_discovered env x h status svc s))"
  by (auto simp: on_service_discovered_def Let_def case_prod_beta split: option.splits intro!: path_intros)

lemma terminate_path: "R\<^sup>*\<^sup>* u s \<Longrightarrow> R\<^sup>*\<^sup>* u (fst (terminate_entries env es s))"
proof (induction es arbitrary: s)
  case (Cons e es)
  then show ?case by (auto simp: case_prod_beta Let_def intro!: Cons.IH path_intros)
qed simp

end

interpretation tab: path_system table_step
  by unfold_locales

interpretation any: path_system ble_step
  by unfold_locales (rule ble_step.table)

abbreviation table_path :: "ble_state \<Rightarrow> ble_state \<Rightarrow> bool" where "table_path \<equiv> table_step\<^sup>*\<^sup>*"
abbreviation ble_path :: "ble_state \<Rightarrow> ble_state \<Rightarrow> bool" where "ble_path \<equiv> ble_step\<^sup>*\<^sup>*"

lemma table_ble_path: "table_path s t \<Longrightarrow> ble_path s t"
  using rtranclp_mono [of table_step ble_step] ble_step.table by blast

lemma table_inv: "\<lbrakk>table_path s t; ble_inv s\<rbrakk> \<Longrightarrow> ble_inv t"
  using bl.inv_steps table_ble_path by blast

lemma progress_paths [path_intros]:
  assumes "ble_path u s"
  shows "ble_path u (fst (ble_state_on_connect_success lk ref h now s))"
    and "ble_path u (ble_state_set_ready lk ref s)"
    and "ble_path u (fst (ble_state_set_char_handle lk ref uuid h s))"
    and "ble_path u (fst (ble_state_set_cccd_handle lk ref v h s))"
  using assms
  by (auto intro: rtranclp.rtrancl_into_rtrancl ble_step.connected ble_step.set_ready ble_step.set_char ble_step.set_cccd)

lemma gatt_paths [path_intros]:
  assumes "ble_path u s"
  shows "ble_path u (fst (on_subscribe_write env x h status s))"
    and "ble_path u (fst (on_descriptor_discovered env x h status v dsc s))"
    and "ble_path u (fst (on_characteristic_discovered env x h status chr s))"
  using assms
  by (auto simp: on_subscribe_write_def gatt_mark_ready_def on_descriptor_discovered_def on_characteristic_discovered_def
      Let_def case_prod_beta split: option.splits intro!: path_intros)

lemma connected_path: "ble_path u s \<Longrightarrow> ble_path u (fst (gap_connected env x h snap s))"
  by (auto simp: gap_connected_def Let_def case_prod_beta split: option.splits bool.splits intro!: path_intros)

text \<open>Only a connection that comes up is more than table steps.\<close>

definition comes_up :: "gap_event \<Rightarrow> bool" where
  "comes_up ev \<longleftrightarrow> (\<exists>h. ev = GapEventConnect HS_OK h)"

lemma event_table:
  assumes inv: "ble_inv s" and quiet: "\<not> comes_up ev" shows "table_path s (fst (ble_central_gap_event_handler env ev x s))"
proof -
  have snap: "table_path s s1" "ble_inv s1" if "gap_ctx_snapshot env x h s = (s1, o1)" for h s1 o1
    using tab.gap_snapshot_path [OF rtranclp.rtrancl_refl, of s env x h] table_inv inv that by fastforce+
  show ?thesis
  proof (cases ev)
    case (GapEventConnect status h)
    show ?thesis
    proof (cases "gap_ctx_snapshot env x BLE_HS_CONN_HANDLE_NONE s")
      case (Pair s1 o1)
      note p = snap [OF Pair]
      show ?thesis using GapEventConnect Pair p tab.release_path [OF p] quiet
        by (auto simp: ble_central_gap_event_handler_def comes_up_def case_prod_beta split: option.splits intro!: path_intros)
    qed
  next
    case (GapEventDisconnect h)
    then show ?thesis using tab.release_path [OF rtranclp.rtrancl_refl inv]
      by (auto simp: ble_central_gap_event_handler_def case_prod_beta Let_def split: option.splits intro!: path_intros)
  next
    case (GapEventNotifyRx h a n data)
    with snap show ?thesis
      by (auto simp: ble_central_gap_event_handler_def split: option.splits prod.splits)
  next
    case (GapEventMtu h v)
    with snap show ?thesis
      by (auto simp: ble_central_gap_event_handler_def split: option.splits prod.splits intro!: path_intros)
  next
    case (GapEventEncChange h status)
    with snap show ?thesis
      by (auto simp: ble_central_gap_event_handler_def case_prod_beta split: option.splits prod.splits intro!: path_intros)
  qed (simp_all add: ble_central_gap_event_handler_def)
qed

lemma event_path:
  assumes inv: "ble_inv s" shows "ble_path s (fst (ble_central_gap_event_handler env ev x s))"
proof (cases "comes_up ev")
  case True
  then obtain h where ev: "ev = GapEventConnect HS_OK h" by (auto simp: comes_up_def)
  show ?thesis
  proof (cases "gap_ctx_snapshot env x BLE_HS_CONN_HANDLE_NONE s")
    case (Pair s1 o1)
    have "ble_path s s1" using any.gap_snapshot_path [OF rtranclp.rtrancl_refl] Pair by (metis fst_conv)
    with ev Pair connected_path show ?thesis
      by (auto simp: ble_central_gap_event_handler_def case_prod_beta split: option.splits)
  qed
qed (use event_table [OF inv] table_ble_path in blast)

section \<open>Calls and their paths\<close>

inductive central_call :: "ble_state \<Rightarrow> ble_state \<Rightarrow> bool" where
  reset: "central_call s (fst (on_ble_host_reset env s))"
| sync: "central_call s (on_ble_host_sync rc s)"
| connect: "store_inv store \<Longrightarrow>
     central_call s (fst (ble_central_connect env find_lock store_lock store ident addr addr_type s))"
| disconnect: "central_call s (fst (ble_central_disconnect env ident s))"
| forget: "central_call s (fst (ble_central_forget_peer env ident addr addr_type has_addr s))"
| send: "central_call s (fst (ble_central_send_command Q env ident msg s))"
| supervisor: "central_call s (fst (supervisor_turn env s))"

inductive central_step :: "ble_state \<Rightarrow> ble_state \<Rightarrow> bool" where
  call: "central_call s t \<Longrightarrow> central_step s t"
| event: "central_step s (fst (ble_central_gap_event_handler env ev x s))"
| service: "central_step s (fst (on_service_discovered env x h status svc s))"
| characteristic: "central_step s (fst (on_characteristic_discovered env x h status chr s))"
| descriptor: "central_step s (fst (on_descriptor_discovered env x h status v dsc s))"
| subscribed: "central_step s (fst (on_subscribe_write env x h status s))"

lemma find_less: "ble_inv s \<Longrightarrow> ble_runtime_find lk ident s = Inr d \<Longrightarrow> d < DEVICE_STORE_MAX_DEVICES"
  by (auto simp: ble_runtime_find_def ble_runtime_find_unlocked_def ble_inv_def ids_ok_def
      dest!: find_index_SomeD split: option.splits if_splits)

lemma forget_slotless:
  assumes inv: "ble_inv s" and d: "d < DEVICE_STORE_MAX_DEVICES" and f: "forget_link d s = (t, FORGET_NO_LINK)"
  shows "slotless t (Some d)"
proof -
  have ok: "links_ok t" using links_link_steps(2) [of s d] inv d f by (simp add: ble_inv_def)
  show ?thesis unfolding slotless_def
  proof (intro impI)
    assume u: "index_ok (Some d) \<and> bd_in_use (dev t (the (Some d)))"
    show "bd_connection_slot (dev t (the (Some d))) = None"
    proof (rule ccontr)
      assume "bd_connection_slot (dev t (the (Some d))) \<noteq> None"
      then obtain i where i: "bd_connection_slot (dev t d) = Some i" by auto
      from links_slot_unique [OF ok d _ i] u have own: "i < BLE_CENTRAL_MAX_CONN" "bc_state (conn t i) \<noteq> BLE_CONN_FREE" by auto
      from f obtain s1 where s1: "t = s1" "slot_of d s1 = None \<or> (\<exists>j. slot_of d s1 = Some j \<and> bc_state (conn s1 j) = BLE_CONN_FREE)"
        by (auto simp: forget_link_def Let_def split: option.splits if_splits)
      with i own show False by (auto simp: slot_of_def)
    qed
  qed
qed

lemma call_path:
  assumes "central_call s t" "ble_inv s" shows "table_path s t"
  using assms
proof (induction rule: central_call.induct)
  case (connect store s env fl sl ident addr ty)
  show ?case
  proof (cases "device_store_get sl ident store")
    case (Pair r e)
    show ?thesis
    proof (cases "r = DEVICE_STORE_OK \<and> ident \<noteq> None")
      case True
      then obtain j where j: "ident = Some j" by auto
      with True Pair have "length j < GW_MSG_DEVICE_ID_LEN"
        using connect.hyps find_index_SomeD [of "\<lambda>e. de_device_id e = j" "store_entries store"]
        by (auto simp: device_store_get_def find_unlocked_def store_inv_def wf_entry_def split: if_splits option.splits)
      then have st: "table_step s (fst (ble_runtime_find_or_register fl ident (Some (ty, the addr)) s))"
        using j by (auto intro: table_step.register)
      with bl.inv_step [OF connect.prems ble_step.table [OF st]]
      have "table_path s (fst (ble_connection_start env d (fst (ble_runtime_find_or_register fl ident (Some (ty, the addr)) s))))" for d
        by (intro tab.start_path) (auto simp: ble_inv_def)
      with st Pair show ?thesis
        by (auto simp: ble_central_connect_def case_prod_beta split: sum.splits)
    qed (use Pair in \<open>auto simp: ble_central_connect_def\<close>)
  qed
next
  case (disconnect s env ident)
  then show ?case using find_less [OF disconnect]
    by (auto simp: ble_central_disconnect_def case_prod_beta split: sum.splits intro!: r_into_rtranclp table_step.disconnect_link)
next
  case (forget s env ident addr ty h)
  show ?case
  proof (cases "ble_runtime_find (be_lock env 0) ident s")
    case (Inl e)
    then show ?thesis by (auto simp: ble_central_forget_peer_def Let_def split: option.splits)
  next
    case (Inr d)
    note d = find_less [OF forget Inr]
    obtain t act where f: "forget_link d s = (t, act)" by (cases "forget_link d s")
    have pt: "table_path s t" using table_step.forget_link [OF d, of s] f by (auto intro: r_into_rtranclp)
    have fin: "table_path s (ble_runtime_finalize_remove lk (Some d) t)" if "act = FORGET_NO_LINK" for lk
      using tab.path_step [OF pt table_step.finalize [OF forget_slotless [OF forget d]]] f that by simp
    show ?thesis using Inr f pt fin
      by (auto simp: ble_central_forget_peer_def Let_def split: option.splits forget_action.splits)
  qed
next
  case (supervisor s env)
  let ?s1 = "fst (terminate_timed_out_connections env (be_now env 10) s)"
  have p1: "table_path s ?s1" by (simp add: terminate_timed_out_connections_def tab.terminate_path)
  let ?n = "ble_scheduler_next_device (be_lock env 13) (be_now env 10) ?s1"
  have p2: "table_path s (fst ?n)" by (rule tab.path_step [OF p1 table_step.next_device])
  have "table_path s (fst (ble_connection_start env d (fst ?n)))" for d
    using tab.start_path [OF p2] table_inv [OF p2 supervisor] by (simp add: ble_inv_def)
  then show ?case using p1 p2
    by (auto simp: supervisor_turn_def Let_def case_prod_beta split: sum.splits intro!: path_intros)
qed (auto simp: on_ble_host_reset_def on_ble_host_sync_def ble_central_send_command_def case_prod_beta
       split: option.splits sum.splits intro!: path_intros)

lemma central_path: "central_step s t \<Longrightarrow> ble_inv s \<Longrightarrow> ble_path s t"
  by (induction rule: central_step.induct)
     (auto simp: table_ble_path call_path event_path gatt_paths any.service_path)

lemma central_inv: "central_step s t \<Longrightarrow> ble_inv s \<Longrightarrow> ble_inv t"
  using central_path bl.inv_steps by blast

interpretation calls: step_system ble_boot central_step ble_inv
  by unfold_locales (auto intro: inv_boot central_inv)

section \<open>Generations\<close>

definition ages :: "nat \<Rightarrow> ble_state \<Rightarrow> ble_state \<Rightarrow> bool" where
  "ages i s t \<longleftrightarrow>
     (bc_generation (conn t i) = bc_generation (conn s i) \<and>
        (bc_state (conn s i) = BLE_CONN_FREE \<longrightarrow> bc_state (conn t i) = BLE_CONN_FREE)) \<or>
     bc_generation (conn t i) = bc_generation (conn s i) + 1"

lemma nth_updated: "i < length xs \<Longrightarrow> xs[j := y] ! i = (if j = i then y else xs ! i)"
  by (auto simp: nth_list_update)

lemma map_connections [simp]:
  "bl_connections (dev_map d h s) = bl_connections s" "bl_connections (ctx_map x g s) = bl_connections s"
  "bl_connections (count_metric c s) = bl_connections s"
  "bl_connections (conn_map j f s) = (bl_connections s)[j := f (conn s j)]"
  by (simp_all add: map_simps)

lemma ages_refl [simp]: "ages i s s"
  by (simp add: ages_def)

lemma ages_same: "bl_connections t = bl_connections s \<Longrightarrow> ages i s t"
  by (simp add: ages_def)

lemma ages_update:
  assumes "i < length (bl_connections s)" "bl_connections t = (bl_connections s)[j := c]"
    and "bc_generation c = bc_generation (conn s j)" "bc_state (conn s j) = BLE_CONN_FREE \<Longrightarrow> bc_state c = BLE_CONN_FREE"
  shows "ages i s t"
  using assms by (auto simp: ages_def nth_updated)

lemma ages_table:
  assumes "table_step s t" "length (bl_connections s) = BLE_CENTRAL_MAX_CONN" "i < BLE_CENTRAL_MAX_CONN"
  shows "ages i s t"
  using assms
proof (induction rule: table_step.induct)
  case (reserve s lk d now)
  then show ?case
    by (auto simp: ages_def ble_state_reserve_connection_def ble_conn_prepare_new_lifetime_unlocked_def nth_updated Let_def
        split: option.splits)
next
  case (host_reset s lk m)
  then show ?case by (auto simp: ages_def ble_state_handle_host_reset_def reset_slot_def)
next
  case (rollback s ref lk now)
  then show ?case
    by (cases "ble_ref_valid_unlocked s ref \<and> index_ok (bc_device_index (conn s (rf_slot_index ref)))")
       (auto simp: ble_state_rollback_connection_start_def detach_device_def free_owned_slot_def
          ble_conn_reset_to_free_unlocked_def intro: ages_same ages_update split: option.splits)
next
  case (disconnected s lk ref h now cap)
  then show ?case
    by (auto simp: ble_state_on_disconnect_def ble_conn_reset_to_free_unlocked_def Let_def
        intro: ages_same ages_update split: option.splits)
next
  case (note_failure s lk d now)
  then show ?case
    by (auto simp: ble_scheduler_note_failure_def ble_state_reset_slot_free_unlocked_def ble_conn_reset_to_free_unlocked_def
        Let_def intro: ages_same ages_update split: option.splits)
next
  case (forget_link e s)
  then show ?case
    by (auto simp: forget_link_def Let_def intro: ages_same ages_update split: option.splits)
next
  case (disconnect_link e s)
  then show ?case
    by (auto simp: disconnect_link_def intro: ages_same ages_update split: option.splits)
qed (auto simp: ble_state_mark_disconnecting_def ble_state_update_mtu_def ble_state_begin_discovery_def
      ble_state_set_service_range_def ble_host_set_ready_def ble_state_ctx_acquire_def ble_state_ctx_release_by_ref_def
      ble_state_ctx_update_handle_def ble_runtime_find_or_register_def ble_runtime_register_unlocked_def
      ble_runtime_set_peer_addr_def ble_runtime_finalize_remove_def ble_scheduler_note_success_def
      ble_scheduler_next_device_def Let_def dest!: ref_validD intro: ages_same ages_update split: option.splits)

lemma ages_step:
  assumes "ble_step s t" "length (bl_connections s) = BLE_CENTRAL_MAX_CONN" "i < BLE_CENTRAL_MAX_CONN"
  shows "ages i s t"
  using assms
  by (induction rule: ble_step.induct)
     (auto simp: ages_table ble_state_on_connect_success_def ble_state_set_ready_def ble_state_set_char_handle_def
        ble_state_set_cccd_handle_def Let_def dest!: ref_validD intro: ages_same ages_update split: option.splits)

lemma ages_path:
  assumes "(ble_step ^^ n) s t" "ble_inv s" "i < BLE_CENTRAL_MAX_CONN"
  shows "\<exists>b\<le>n. bc_generation (conn t i) = bc_generation (conn s i) + of_nat b \<and>
           (b = 0 \<and> bc_state (conn s i) = BLE_CONN_FREE \<longrightarrow> bc_state (conn t i) = BLE_CONN_FREE)"
  using assms(1)
proof (induction n arbitrary: t)
  case (Suc n)
  then obtain u where u: "(ble_step ^^ n) s u" "ble_step u t" by auto
  from Suc.IH [OF u(1)] obtain b where b: "b \<le> n" "bc_generation (conn u i) = bc_generation (conn s i) + of_nat b"
    "b = 0 \<and> bc_state (conn s i) = BLE_CONN_FREE \<longrightarrow> bc_state (conn u i) = BLE_CONN_FREE" by blast
  have "ble_inv u" using bl.inv_steps [OF relpowp_imp_rtranclp [OF u(1)] assms(2)] .
  then have "ages i u t" using ages_step [OF u(2) _ assms(3)] links_okD(1) by (auto simp: ble_inv_def)
  then show ?case
    unfolding ages_def
  proof
    assume "bc_generation (conn t i) = bc_generation (conn u i) + 1"
    with b show ?thesis by (intro exI [of _ "Suc b"]) (auto simp: add.assoc add.commute)
  qed (use b in \<open>auto intro!: exI [of _ b]\<close>)
qed auto

lemma dead_stays_dead:
  assumes "(ble_step ^^ n) s t" "ble_inv s" "\<not> ble_ref_valid_unlocked s ref"
    and room: "unat (bc_generation (conn s (rf_slot_index ref)) - rf_generation ref) + n < 2 ^ 32"
  shows "\<not> ble_ref_valid_unlocked t ref"
proof
  assume v: "ble_ref_valid_unlocked t ref"
  let ?i = "rf_slot_index ref" let ?k = "unat (bc_generation (conn s ?i) - rf_generation ref)"
  from ref_validD [OF v] have i: "?i < BLE_CENTRAL_MAX_CONN" by simp
  from ages_path [OF assms(1,2) i] obtain b where b: "b \<le> n"
    "bc_generation (conn t ?i) = bc_generation (conn s ?i) + of_nat b"
    "b = 0 \<and> bc_state (conn s ?i) = BLE_CONN_FREE \<longrightarrow> bc_state (conn t ?i) = BLE_CONN_FREE" by blast
  from v have "bc_generation (conn t ?i) = rf_generation ref" by (simp add: ble_ref_valid_unlocked_def)
  with b(2) have "(bc_generation (conn s ?i) - rf_generation ref) + of_nat b = (0 :: u32)" by simp
  then have "(of_nat (?k + b) :: u32) = 0" by simp
  moreover have "unat (of_nat (?k + b) :: u32) = ?k + b"
    using room b(1) by (simp add: unsigned_of_nat take_bit_nat_eq_self del: of_nat_add)
  ultimately have z: "?k = 0" "b = 0" by simp_all
  then have "bc_generation (conn s ?i) = rf_generation ref" by (simp add: unat_eq_zero)
  with assms(3) i have "bc_state (conn s ?i) = BLE_CONN_FREE" by (simp add: ble_ref_valid_unlocked_def)
  with b z v show False by (simp add: ble_ref_valid_unlocked_def)
qed

end
