(* ===== verification/Ble_Ready.thy ===== *)
theory Ble_Ready
  imports Ble_Run
begin

text \<open>
  How a link becomes ready. A run is the state of the central together with the GATT procedures the host
  stack was asked for and may still answer, each with the context and the connection handle it was given.
  The stack answers a procedure only on its handle, gives a new connection a handle that no live link and no
  pending procedure has, and reports attribute handles that are not 0 (which ATT reserves).
\<close>

section \<open>Runs\<close>

datatype gatt_proc = PROC_SERVICE | PROC_CHARS | PROC_DESCRIPTORS | PROC_SUBSCRIBE

type_synonym pending_proc = "gatt_proc \<times> nat \<times> u16"

fun proc_of :: "ble_output \<Rightarrow> pending_proc list" where
  "proc_of (GattDiscService h x) = [(PROC_SERVICE, x, h)]"
| "proc_of (GattDiscChars h a b x) = [(PROC_CHARS, x, h)]"
| "proc_of (GattDiscDescriptors h a b x) = [(PROC_DESCRIPTORS, x, h)]"
| "proc_of (GattWrite h v bytes x) = [(PROC_SUBSCRIBE, x, h)]"
| "proc_of out = []"

definition procs :: "ble_output list \<Rightarrow> pending_proc list" where
  "procs out = concat (map proc_of out)"

definition fresh_handle :: "ble_state \<Rightarrow> pending_proc list \<Rightarrow> u16 \<Rightarrow> bool" where
  "fresh_handle s P h \<longleftrightarrow>
     h \<noteq> BLE_HS_CONN_HANDLE_NONE \<and> h \<notin> (snd \<circ> snd) ` set P \<and>
     (\<forall>c\<in>set (bl_connections s). bc_state c \<noteq> BLE_CONN_FREE \<longrightarrow> bc_conn_handle c \<noteq> h)"

inductive gatt_step :: "ble_state \<times> pending_proc list \<Rightarrow> ble_state \<times> pending_proc list \<Rightarrow> bool" where
  call: "central_call s t \<Longrightarrow> gatt_step (s, P) (t, P)"
| event: "\<lbrakk>ble_central_gap_event_handler env ev x s = (t, r, out); \<And>h. ev = GapEventConnect HS_OK h \<Longrightarrow> fresh_handle s P h\<rbrakk> \<Longrightarrow>
     gatt_step (s, P) (t, procs out @ P)"
| service: "\<lbrakk>(PROC_SERVICE, x, h) \<in> set P; on_service_discovered env x h status svc s = (t, out)\<rbrakk> \<Longrightarrow>
     gatt_step (s, P) (t, procs out @ P)"
| characteristic: "\<lbrakk>(PROC_CHARS, x, h) \<in> set P; on_characteristic_discovered env x h status chr s = (t, out);
      \<And>u w n v. chr = Some (u, w, n, v) \<Longrightarrow> v \<noteq> 0\<rbrakk> \<Longrightarrow> gatt_step (s, P) (t, procs out @ P)"
| descriptor: "\<lbrakk>(PROC_DESCRIPTORS, x, h) \<in> set P; on_descriptor_discovered env x h status v dsc s = (t, out);
      \<And>b d. dsc = Some (b, d) \<Longrightarrow> d \<noteq> 0\<rbrakk> \<Longrightarrow> gatt_step (s, P) (t, procs out @ P)"
| subscribed: "\<lbrakk>(PROC_SUBSCRIBE, x, h) \<in> set P; on_subscribe_write env x h status s = (t, out)\<rbrakk> \<Longrightarrow>
     gatt_step (s, P) (t, procs out @ P)"
| finished: "set P' \<subseteq> set P \<Longrightarrow> gatt_step (s, P) (s, P')"

definition gatt_start :: "ble_state \<times> pending_proc list \<Rightarrow> bool" where
  "gatt_start c \<longleftrightarrow> ble_boot (fst c) \<and> snd c = []"

section \<open>What a run keeps\<close>

definition found_chars :: "ble_conn_slot \<Rightarrow> bool" where
  "found_chars c \<longleftrightarrow> bc_command_val_handle c \<noteq> 0 \<and> bc_status_val_handle c \<noteq> 0"

definition ready_ok :: "ble_conn_slot \<Rightarrow> bool" where
  "ready_ok c \<longleftrightarrow>
     (bc_state c = BLE_CONN_READY \<longrightarrow>
        bc_conn_handle c \<noteq> BLE_HS_CONN_HANDLE_NONE \<and> found_chars c \<and> bc_status_cccd_handle c \<noteq> 0)"

definition proc_ok :: "ble_conn_slot list \<Rightarrow> pending_proc \<Rightarrow> bool" where
  "proc_ok C p \<longleftrightarrow>
     (case p of (k, x, h) \<Rightarrow>
        h \<noteq> BLE_HS_CONN_HANDLE_NONE \<and>
        (\<forall>i<BLE_CENTRAL_MAX_CONN. bc_state (C ! i) \<noteq> BLE_CONN_FREE \<and> bc_conn_handle (C ! i) = h \<longrightarrow>
           (k \<in> {PROC_DESCRIPTORS, PROC_SUBSCRIBE} \<longrightarrow> found_chars (C ! i)) \<and>
           (k = PROC_SUBSCRIBE \<longrightarrow> bc_status_cccd_handle (C ! i) \<noteq> 0)))"

definition handles_unique :: "ble_conn_slot list \<Rightarrow> bool" where
  "handles_unique C \<longleftrightarrow>
     (\<forall>i<BLE_CENTRAL_MAX_CONN. \<forall>j<BLE_CENTRAL_MAX_CONN.
        bc_state (C ! i) \<noteq> BLE_CONN_FREE \<and> bc_state (C ! j) \<noteq> BLE_CONN_FREE \<and>
        bc_conn_handle (C ! i) = bc_conn_handle (C ! j) \<and> bc_conn_handle (C ! i) \<noteq> BLE_HS_CONN_HANDLE_NONE \<longrightarrow> i = j)"

definition conns_ok :: "ble_conn_slot list \<Rightarrow> pending_proc list \<Rightarrow> bool" where
  "conns_ok C P \<longleftrightarrow>
     (\<forall>i<BLE_CENTRAL_MAX_CONN. ready_ok (C ! i)) \<and> handles_unique C \<and> (\<forall>p\<in>set P. proc_ok C p)"

definition gatt_ok :: "ble_state \<times> pending_proc list \<Rightarrow> bool" where
  "gatt_ok c \<longleftrightarrow> ble_inv (fst c) \<and> conns_ok (bl_connections (fst c)) (snd c)"

text \<open>What a slot may do in one step as far as the attribute handles go.\<close>

definition slot_quiet :: "ble_conn_slot \<Rightarrow> ble_conn_slot \<Rightarrow> bool" where
  "slot_quiet c d \<longleftrightarrow>
     bc_state d = BLE_CONN_FREE \<or>
     (bc_conn_handle d = BLE_HS_CONN_HANDLE_NONE \<and> bc_state d \<noteq> BLE_CONN_READY) \<or>
     (bc_state c \<noteq> BLE_CONN_FREE \<and> bc_conn_handle d = bc_conn_handle c \<and>
      (found_chars c \<longrightarrow> found_chars d) \<and> (bc_status_cccd_handle c \<noteq> 0 \<longrightarrow> bc_status_cccd_handle d \<noteq> 0) \<and>
      (bc_state d = BLE_CONN_READY \<longrightarrow> bc_state c = BLE_CONN_READY))"

definition gatt_quiet :: "ble_state \<Rightarrow> ble_state \<Rightarrow> bool" where
  "gatt_quiet s t \<longleftrightarrow> (\<forall>i<BLE_CENTRAL_MAX_CONN. slot_quiet (conn s i) (conn t i))"

lemma slot_quiet_refl [simp]: "slot_quiet c c"
  by (auto simp: slot_quiet_def)

lemma slot_quiet_trans: "slot_quiet c d \<Longrightarrow> slot_quiet d e \<Longrightarrow> slot_quiet c e"
  unfolding slot_quiet_def by metis

lemma quiet_refl [simp]: "gatt_quiet s s"
  by (simp add: gatt_quiet_def)

lemma quiet_trans: "gatt_quiet s t \<Longrightarrow> gatt_quiet t u \<Longrightarrow> gatt_quiet s u"
  unfolding gatt_quiet_def using slot_quiet_trans by blast

lemma quiet_same: "bl_connections t = bl_connections s \<Longrightarrow> gatt_quiet s t"
  by (simp add: gatt_quiet_def)

lemma quiet_update:
  assumes "length (bl_connections s) = BLE_CENTRAL_MAX_CONN" "bl_connections t = (bl_connections s)[j := c]" "slot_quiet (conn s j) c"
  shows "gatt_quiet s t"
  using assms by (auto simp: gatt_quiet_def nth_updated)

lemma slot_quietI:
  "bc_state d = BLE_CONN_FREE \<Longrightarrow> slot_quiet c d"
  "\<lbrakk>bc_state c \<noteq> BLE_CONN_FREE; bc_conn_handle d = bc_conn_handle c; bc_command_val_handle d = bc_command_val_handle c;
    bc_status_val_handle d = bc_status_val_handle c; bc_status_cccd_handle d = bc_status_cccd_handle c;
    bc_state d = BLE_CONN_READY \<Longrightarrow> bc_state c = BLE_CONN_READY\<rbrakk> \<Longrightarrow> slot_quiet c d"
  by (auto simp: slot_quiet_def found_chars_def)

lemma slot_quiet_fresh [simp]:
  "slot_quiet c (fresh_slot BLE_CONN_FREE e g)" "slot_quiet c (fresh_slot BLE_CONN_CONNECTING e g)"
  by (simp_all add: slot_quiet_def)

lemma quiet_table:
  assumes "table_step s t" "length (bl_connections s) = BLE_CENTRAL_MAX_CONN" shows "gatt_quiet s t"
  using assms
proof (induction rule: table_step.induct)
  case (reserve s lk d now)
  then show ?case
    by (auto simp: ble_state_reserve_connection_def ble_conn_prepare_new_lifetime_unlocked_def Let_def
        intro: quiet_same quiet_update split: option.splits)
next
  case (host_reset s lk m)
  then show ?case by (auto simp: gatt_quiet_def slot_quiet_def ble_state_handle_host_reset_def reset_slot_def)
next
  case (rollback s ref lk now)
  then show ?case
    by (cases "ble_ref_valid_unlocked s ref \<and> index_ok (bc_device_index (conn s (rf_slot_index ref)))")
       (auto simp: ble_state_rollback_connection_start_def detach_device_def free_owned_slot_def
          ble_conn_reset_to_free_unlocked_def intro: quiet_same quiet_update split: option.splits)
next
  case (disconnected s lk ref h now cap)
  then show ?case
    by (auto simp: ble_state_on_disconnect_def ble_conn_reset_to_free_unlocked_def Let_def
        intro: quiet_same quiet_update split: option.splits)
next
  case (note_failure s lk d now)
  then show ?case
    by (auto simp: ble_scheduler_note_failure_def ble_state_reset_slot_free_unlocked_def ble_conn_reset_to_free_unlocked_def
        Let_def intro: quiet_same quiet_update split: option.splits)
next
  case (forget_link e s)
  then show ?case
    by (auto simp: forget_link_def Let_def intro: quiet_same quiet_update intro!: slot_quietI(2) split: option.splits)
next
  case (disconnect_link e s)
  then show ?case
    by (auto simp: disconnect_link_def intro: quiet_same quiet_update intro!: slot_quietI(2) split: option.splits)
qed (auto simp: ble_state_mark_disconnecting_def ble_state_update_mtu_def event_matches_def ble_state_begin_discovery_def
      ble_state_set_service_range_def ble_host_set_ready_def ble_state_ctx_acquire_def ble_state_ctx_release_by_ref_def
      ble_state_ctx_update_handle_def ble_runtime_find_or_register_def ble_runtime_register_unlocked_def
      ble_runtime_set_peer_addr_def ble_runtime_finalize_remove_def ble_scheduler_note_success_def
      ble_scheduler_next_device_def Let_def dest!: ref_validD intro: quiet_same quiet_update intro!: slot_quietI(2) split: option.splits)

lemma quiet_path: "table_path s t \<Longrightarrow> ble_inv s \<Longrightarrow> gatt_quiet s t"
proof (induction rule: rtranclp_induct)
  case (step t u)
  then have "ble_inv t" by (blast intro: table_inv)
  then have "length (bl_connections t) = BLE_CENTRAL_MAX_CONN" by (auto simp: ble_inv_def dest: links_okD(1))
  with step quiet_table show ?case by (blast intro: quiet_trans)
qed simp

lemma ready_quiet: "slot_quiet c d \<Longrightarrow> ready_ok c \<Longrightarrow> ready_ok d"
  by (auto simp: slot_quiet_def ready_ok_def)

lemma conns_quiet:
  assumes q: "gatt_quiet s t" and ok: "conns_ok (bl_connections s) P" shows "conns_ok (bl_connections t) P"
proof -
  have sq: "slot_quiet (conn s i) (conn t i)" if "i < BLE_CENTRAL_MAX_CONN" for i
    using q that by (simp add: gatt_quiet_def)
  have live: "bc_state (conn s i) \<noteq> BLE_CONN_FREE \<and> bc_conn_handle (conn t i) = bc_conn_handle (conn s i) \<and>
      (found_chars (conn s i) \<longrightarrow> found_chars (conn t i)) \<and>
      (bc_status_cccd_handle (conn s i) \<noteq> 0 \<longrightarrow> bc_status_cccd_handle (conn t i) \<noteq> 0)"
    if "i < BLE_CENTRAL_MAX_CONN" "bc_state (conn t i) \<noteq> BLE_CONN_FREE" "bc_conn_handle (conn t i) \<noteq> BLE_HS_CONN_HANDLE_NONE" for i
    using sq [OF that(1)] that(2,3) by (auto simp: slot_quiet_def)
  have "ready_ok (conn t i)" if "i < BLE_CENTRAL_MAX_CONN" for i
    using ok that ready_quiet [OF sq] by (simp add: conns_ok_def)
  moreover have "handles_unique (bl_connections t)"
    unfolding handles_unique_def
  proof (intro allI impI)
    fix i j assume ij: "i < BLE_CENTRAL_MAX_CONN" "j < BLE_CENTRAL_MAX_CONN"
      "bc_state (conn t i) \<noteq> BLE_CONN_FREE \<and> bc_state (conn t j) \<noteq> BLE_CONN_FREE \<and>
       bc_conn_handle (conn t i) = bc_conn_handle (conn t j) \<and> bc_conn_handle (conn t i) \<noteq> BLE_HS_CONN_HANDLE_NONE"
    with live [of i] live [of j] ok show "i = j" by (auto simp: conns_ok_def handles_unique_def)
  qed
  moreover have "proc_ok (bl_connections t) p" if "p \<in> set P" for p
  proof -
    obtain k x h where p: "p = (k, x, h)" by (cases p)
    have "proc_ok (bl_connections s) (k, x, h)" using ok that p by (auto simp: conns_ok_def)
    then show ?thesis using live unfolding p proc_ok_def prod.case by metis
  qed
  ultimately show ?thesis by (simp add: conns_ok_def)
qed

section \<open>Each step keeps it\<close>

lemma procs_simps [simp]:
  "procs [] = []" "procs (e # out) = proc_of e @ procs out" "procs (a @ b) = procs a @ procs b"
  by (simp_all add: procs_def)

lemma conns_more: "conns_ok C (Q @ P) \<longleftrightarrow> conns_ok C P \<and> (\<forall>p\<in>set Q. proc_ok C p)"
  by (auto simp: conns_ok_def)

lemma proc_service [simp]: "proc_ok C (PROC_SERVICE, x, h) \<longleftrightarrow> h \<noteq> BLE_HS_CONN_HANDLE_NONE"
  and proc_chars [simp]: "proc_ok C (PROC_CHARS, x, h) \<longleftrightarrow> h \<noteq> BLE_HS_CONN_HANDLE_NONE"
  by (auto simp: proc_ok_def)

lemma metric_connections [simp]:
  "bl_connections (metric_call lk f s) = bl_connections s"
  "bl_connections (ble_central_metrics_stale_callback lk s) = bl_connections s"
  "bl_connections (ble_central_metrics_security_failure lk s) = bl_connections s"
  "bl_connections (ble_central_metrics_discovery_failure lk s) = bl_connections s"
  by (auto simp: metric_call_def ble_central_metrics_stale_callback_def ble_central_metrics_security_failure_def
      ble_central_metrics_discovery_failure_def)

lemma abort_simps [simp]:
  "bl_connections (fst (ble_central_abort_discovery env x s)) = bl_connections s"
  "procs (snd (ble_central_abort_discovery env x s)) = []"
  by (auto simp: ble_central_abort_discovery_def split: option.splits)

lemma abort_pair:
  "ble_central_abort_discovery env x s = (t, out) \<Longrightarrow> bl_connections t = bl_connections s \<and> procs out = []"
  using abort_simps [of env x s] by simp

lemma gatt_snapshotD:
  assumes "gatt_snapshot env x h s = Some snap"
  shows "snap = conn s (rf_slot_index (ble_ctx_ref x s)) \<and> ble_ref_valid_unlocked s (ble_ctx_ref x s) \<and> bc_conn_handle snap = h"
  using assms by (auto simp: gatt_snapshot_def ble_state_ctx_snapshot_def ble_ctx_ref_def Let_def split: option.splits if_splits)

lemma snapshot_proc:
  assumes ok: "conns_ok (bl_connections s) P" and snap: "gatt_snapshot env x h s = Some snap" and h: "h \<noteq> BLE_HS_CONN_HANDLE_NONE"
    and chars: "k \<in> {PROC_DESCRIPTORS, PROC_SUBSCRIBE} \<Longrightarrow> found_chars snap"
    and cccd: "k = PROC_SUBSCRIBE \<Longrightarrow> bc_status_cccd_handle snap \<noteq> 0"
  shows "proc_ok (bl_connections s) (k, y, h)"
proof -
  let ?i = "rf_slot_index (ble_ctx_ref x s)"
  note sn = gatt_snapshotD [OF snap]
  have "j = ?i" if "j < BLE_CENTRAL_MAX_CONN" "bc_state (conn s j) \<noteq> BLE_CONN_FREE" "bc_conn_handle (conn s j) = h" for j
    using ok that sn h ref_validD [of s "ble_ctx_ref x s"] by (auto simp: conns_ok_def handles_unique_def)
  then show ?thesis using h chars cccd sn by (auto simp: proc_ok_def)
qed

lemma proc_snapshot:
  assumes ok: "conns_ok (bl_connections s) P" and p: "(k, y, h) \<in> set P" and snap: "gatt_snapshot env x h s = Some snap"
  shows "h \<noteq> BLE_HS_CONN_HANDLE_NONE" "k \<in> {PROC_DESCRIPTORS, PROC_SUBSCRIBE} \<Longrightarrow> found_chars snap"
    "k = PROC_SUBSCRIBE \<Longrightarrow> bc_status_cccd_handle snap \<noteq> 0"
proof -
  have "proc_ok (bl_connections s) (k, y, h)" using ok p by (auto simp: conns_ok_def)
  with gatt_snapshotD [OF snap] ref_validD [of s "ble_ctx_ref x s"]
  show "h \<noteq> BLE_HS_CONN_HANDLE_NONE" "k \<in> {PROC_DESCRIPTORS, PROC_SUBSCRIBE} \<Longrightarrow> found_chars snap"
    "k = PROC_SUBSCRIBE \<Longrightarrow> bc_status_cccd_handle snap \<noteq> 0"
    by (auto simp: proc_ok_def)
qed

lemma set_char_quiet:
  assumes "length (bl_connections s) = BLE_CENTRAL_MAX_CONN" "v \<noteq> 0"
  shows "gatt_quiet s (fst (ble_state_set_char_handle lk ref uuid v s))"
proof -
  have "slot_quiet c (c\<lparr>bc_command_val_handle := v\<rparr>)" "slot_quiet c (c\<lparr>bc_status_val_handle := v\<rparr>)"
    if "bc_state c \<noteq> BLE_CONN_FREE" for c
    using that assms(2) by (auto simp: slot_quiet_def found_chars_def)
  then show ?thesis using assms(1)
    by (auto simp: ble_state_set_char_handle_def dest!: ref_validD intro: quiet_update)
qed

lemma set_cccd_quiet:
  assumes "length (bl_connections s) = BLE_CENTRAL_MAX_CONN" "d \<noteq> 0"
  shows "gatt_quiet s (fst (ble_state_set_cccd_handle lk ref v d s))"
proof -
  have "slot_quiet c (c\<lparr>bc_status_cccd_handle := d\<rparr>)" if "bc_state c \<noteq> BLE_CONN_FREE" for c
    using that assms(2) by (auto simp: slot_quiet_def found_chars_def)
  then show ?thesis using assms(1)
    by (auto simp: ble_state_set_cccd_handle_def dest!: ref_validD intro: quiet_update)
qed

lemma service_ok:
  assumes ok: "gatt_ok (s, P)" and p: "(PROC_SERVICE, x, h) \<in> set P" and c: "on_service_discovered env x h status svc s = (t, out)"
  shows "conns_ok (bl_connections t) (procs out @ P)"
proof -
  have inv: "ble_inv s" and co: "conns_ok (bl_connections s) P" using ok by (simp_all add: gatt_ok_def)
  have "table_path s t" using tab.service_path [OF rtranclp.rtrancl_refl] c by (metis fst_conv)
  then have "conns_ok (bl_connections t) P" by (rule conns_quiet [OF quiet_path [OF _ inv] co])
  moreover have "proc_ok (bl_connections s) (PROC_SERVICE, x, h)" using co p unfolding conns_ok_def by blast
  then have "\<forall>q\<in>set (procs out). proc_ok (bl_connections t) q"
    using c by (auto simp: on_service_discovered_def Let_def split: option.splits if_splits prod.splits dest: abort_pair)
  ultimately show ?thesis by (simp add: conns_more)
qed

lemma characteristic_ok:
  assumes ok: "gatt_ok (s, P)" and p: "(PROC_CHARS, x, h) \<in> set P" and v: "\<And>u w n v. chr = Some (u, w, n, v) \<Longrightarrow> v \<noteq> 0"
    and c: "on_characteristic_discovered env x h status chr s = (t, out)"
  shows "conns_ok (bl_connections t) (procs out @ P)"
proof (cases "gatt_snapshot env x h s")
  case None
  with ok c show ?thesis by (auto simp: on_characteristic_discovered_def gatt_ok_def)
next
  case (Some snap)
  have co: "conns_ok (bl_connections s) P" and len: "length (bl_connections s) = BLE_CENTRAL_MAX_CONN"
    using ok by (auto simp: gatt_ok_def ble_inv_def dest: links_okD(1))
  have set: "conns_ok (bl_connections (fst (ble_state_set_char_handle lk ref u v s))) P" if "chr = Some (u', w, n, v)" for lk ref u u' w n v
    using conns_quiet [OF set_char_quiet [OF len] co] assms(3) that by blast
  have desc: "proc_ok (bl_connections s) (PROC_DESCRIPTORS, x, h)" if "bc_command_val_handle snap \<noteq> 0" "bc_status_val_handle snap \<noteq> 0"
    using snapshot_proc [OF co Some, of PROC_DESCRIPTORS] proc_snapshot(1) [OF co p Some] that by (simp add: found_chars_def)
  show ?thesis
    using c Some co set desc
    by (auto simp: on_characteristic_discovered_def conns_more Let_def split: if_splits prod.splits option.splits dest: abort_pair)
qed

lemma descriptor_ok:
  assumes ok: "gatt_ok (s, P)" and p: "(PROC_DESCRIPTORS, x, h) \<in> set P" and d: "\<And>b d. dsc = Some (b, d) \<Longrightarrow> d \<noteq> 0"
    and c: "on_descriptor_discovered env x h status v dsc s = (t, out)"
  shows "conns_ok (bl_connections t) (procs out @ P)"
proof (cases "gatt_snapshot env x h s")
  case None
  with ok c show ?thesis by (auto simp: on_descriptor_discovered_def gatt_ok_def)
next
  case (Some snap)
  have co: "conns_ok (bl_connections s) P" and len: "length (bl_connections s) = BLE_CENTRAL_MAX_CONN"
    using ok by (auto simp: gatt_ok_def ble_inv_def dest: links_okD(1))
  have set: "conns_ok (bl_connections (fst (ble_state_set_cccd_handle lk ref v d s))) P" if "dsc = Some (b, d)" for lk ref v b d
    using conns_quiet [OF set_cccd_quiet [OF len] co] assms(3) that by blast
  have sub: "proc_ok (bl_connections s) (PROC_SUBSCRIBE, x, h)" if "bc_status_cccd_handle snap \<noteq> 0"
    using snapshot_proc [OF co Some, of PROC_SUBSCRIBE] proc_snapshot [OF co p Some] that by simp
  show ?thesis
    using c Some co set sub
    by (auto simp: on_descriptor_discovered_def conns_more Let_def split: if_splits prod.splits option.splits dest: abort_pair)
qed

lemma proc_ok_same:
  assumes "proc_ok C p" "\<And>j. j < BLE_CENTRAL_MAX_CONN \<Longrightarrow> bc_state (D ! j) \<noteq> BLE_CONN_FREE \<Longrightarrow>
      bc_state (C ! j) \<noteq> BLE_CONN_FREE \<and> bc_conn_handle (C ! j) = bc_conn_handle (D ! j) \<and>
      found_chars (D ! j) = found_chars (C ! j) \<and> bc_status_cccd_handle (D ! j) = bc_status_cccd_handle (C ! j)"
  shows "proc_ok D p"
proof -
  obtain k x h where p: "p = (k, x, h)" by (cases p)
  show ?thesis using assms unfolding p proc_ok_def prod.case by simp
qed

lemma conns_set_ready:
  assumes co: "conns_ok (bl_connections s) P" and len: "length (bl_connections s) = BLE_CENTRAL_MAX_CONN"
    and i: "i < BLE_CENTRAL_MAX_CONN" "bc_state (conn s i) \<noteq> BLE_CONN_FREE" "bc_conn_handle (conn s i) \<noteq> BLE_HS_CONN_HANDLE_NONE"
    "found_chars (conn s i)" "bc_status_cccd_handle (conn s i) \<noteq> 0"
  shows "conns_ok ((bl_connections s)[i := (conn s i)\<lparr>bc_state := BLE_CONN_READY\<rparr>]) P"
proof -
  let ?C = "(bl_connections s)[i := (conn s i)\<lparr>bc_state := BLE_CONN_READY\<rparr>]"
  have nth: "?C ! j = (if j = i then (conn s i)\<lparr>bc_state := BLE_CONN_READY\<rparr> else conn s j)" if "j < BLE_CENTRAL_MAX_CONN" for j
    using that len by (simp add: nth_updated)
  have fc: "found_chars (c\<lparr>bc_state := e\<rparr>) = found_chars c" for c e by (simp add: found_chars_def)
  have "ready_ok (?C ! j)" if "j < BLE_CENTRAL_MAX_CONN" for j
    using co i that by (simp add: nth conns_ok_def ready_ok_def fc)
  moreover have "handles_unique ?C"
    unfolding handles_unique_def
  proof (intro allI impI)
    fix j k assume jk: "j < BLE_CENTRAL_MAX_CONN" "k < BLE_CENTRAL_MAX_CONN"
      "bc_state (?C ! j) \<noteq> BLE_CONN_FREE \<and> bc_state (?C ! k) \<noteq> BLE_CONN_FREE \<and>
       bc_conn_handle (?C ! j) = bc_conn_handle (?C ! k) \<and> bc_conn_handle (?C ! j) \<noteq> BLE_HS_CONN_HANDLE_NONE"
    have "bc_state (?C ! e) \<noteq> BLE_CONN_FREE \<longrightarrow> bc_state (conn s e) \<noteq> BLE_CONN_FREE"
      "bc_conn_handle (?C ! e) = bc_conn_handle (conn s e)" if "e < BLE_CENTRAL_MAX_CONN" for e
      using i(2) by (simp_all add: nth [OF that])
    with jk co show "j = k" unfolding conns_ok_def handles_unique_def by metis
  qed
  moreover have "proc_ok ?C p" if "p \<in> set P" for p
    by (rule proc_ok_same [of "bl_connections s"]) (use co i that in \<open>auto simp: nth fc conns_ok_def\<close>)
  ultimately show ?thesis by (simp add: conns_ok_def)
qed

lemma subscribed_ok:
  assumes ok: "gatt_ok (s, P)" and p: "(PROC_SUBSCRIBE, x, h) \<in> set P" and c: "on_subscribe_write env x h status s = (t, out)"
  shows "conns_ok (bl_connections t) (procs out @ P)"
proof (cases "gatt_snapshot env x h s")
  case None
  with ok c show ?thesis by (auto simp: on_subscribe_write_def gatt_ok_def)
next
  case (Some snap)
  have co: "conns_ok (bl_connections s) P" and len: "length (bl_connections s) = BLE_CENTRAL_MAX_CONN"
    using ok by (auto simp: gatt_ok_def ble_inv_def dest: links_okD(1))
  let ?ref = "ble_ctx_ref x s"
  note sn = gatt_snapshotD [OF Some]
  have "conns_ok (bl_connections (ble_state_set_ready lk ?ref s)) P" for lk
    using conns_set_ready [OF co len, of "rf_slot_index ?ref"] proc_snapshot [OF co p Some] sn ref_validD [of s ?ref] co
    by (auto simp: ble_state_set_ready_def)
  moreover have "bl_connections (ble_scheduler_note_success lk d now u) = bl_connections u" for lk d now u
    by (simp add: ble_scheduler_note_success_def)
  moreover have "procs (ble_central_emit_ready env j) = []" for j by (simp add: ble_central_emit_ready_def)
  ultimately show ?thesis using c Some co
    by (auto simp: on_subscribe_write_def gatt_mark_ready_def Let_def split: if_splits dest: abort_pair)
qed

lemma emit_procs [simp]:
  "procs (ble_central_emit_disconnected env j) = []"
  by (simp add: ble_central_emit_disconnected_def)

lemma release_procs: "gap_release_connection env ref h now s = (t, out) \<Longrightarrow> procs out = []"
  by (auto simp: gap_release_connection_def Let_def split: option.splits prod.splits if_splits)

lemma connected_procs: "gap_connected env x h snap s = (t, out) \<Longrightarrow> procs out = []"
  by (auto simp: gap_connected_def Let_def split: option.splits prod.splits if_splits bool.splits)

lemma discovery_procs:
  "ble_central_start_gatt_discovery env x s = (t, out) \<Longrightarrow> p \<in> set (procs out) \<Longrightarrow> proc_ok C p"
  by (auto simp: ble_central_start_gatt_discovery_def split: prod.splits if_splits dest: abort_pair)

lemma event_procs:
  assumes "ble_central_gap_event_handler env ev x s = (t, r, out)" "p \<in> set (procs out)"
  shows "proc_ok C p"
proof (cases ev)
  case (GapEventConnect status h)
  with assms show ?thesis
    by (auto simp: ble_central_gap_event_handler_def split: option.splits prod.splits if_splits
        dest: release_procs connected_procs)
next
  case (GapEventDisconnect h)
  with assms show ?thesis
    by (auto simp: ble_central_gap_event_handler_def Let_def split: option.splits prod.splits dest: release_procs)
next
  case (GapEventEncChange h status)
  with assms show ?thesis
    by (auto simp: ble_central_gap_event_handler_def split: option.splits prod.splits if_splits dest: discovery_procs)
qed (use assms in \<open>auto simp: ble_central_gap_event_handler_def split: option.splits prod.splits if_splits\<close>)

lemma conns_came_up:
  assumes co: "conns_ok (bl_connections s) P" and len: "length (bl_connections s) = BLE_CENTRAL_MAX_CONN"
    and i: "i < BLE_CENTRAL_MAX_CONN" and h: "fresh_handle s P h"
  shows "conns_ok ((bl_connections s)[i := (conn s i)\<lparr>bc_conn_handle := h, bc_state := BLE_CONN_SECURING, bc_started_ms := now\<rparr>]) P"
proof -
  let ?c = "(conn s i)\<lparr>bc_conn_handle := h, bc_state := BLE_CONN_SECURING, bc_started_ms := now\<rparr>"
  let ?C = "(bl_connections s)[i := ?c]"
  have nth: "?C ! j = (if j = i then ?c else conn s j)" if "j < BLE_CENTRAL_MAX_CONN" for j
    using that len by (simp add: nth_updated)
  have other: "bc_conn_handle (conn s j) \<noteq> h" if "j < BLE_CENTRAL_MAX_CONN" "bc_state (conn s j) \<noteq> BLE_CONN_FREE" for j
    using h that len unfolding fresh_handle_def by (metis nth_mem)
  have "ready_ok (?C ! j)" if "j < BLE_CENTRAL_MAX_CONN" for j
    using co that by (simp add: nth conns_ok_def ready_ok_def)
  moreover have "handles_unique ?C"
    unfolding handles_unique_def
  proof (intro allI impI)
    fix j k assume jk: "j < BLE_CENTRAL_MAX_CONN" "k < BLE_CENTRAL_MAX_CONN"
      "bc_state (?C ! j) \<noteq> BLE_CONN_FREE \<and> bc_state (?C ! k) \<noteq> BLE_CONN_FREE \<and>
       bc_conn_handle (?C ! j) = bc_conn_handle (?C ! k) \<and> bc_conn_handle (?C ! j) \<noteq> BLE_HS_CONN_HANDLE_NONE"
    show "j = k"
    proof (cases "j = i \<or> k = i")
      case True
      then show ?thesis using jk other by (auto simp: nth split: if_splits)
    next
      case False
      then have "?C ! j = conn s j" "?C ! k = conn s k" using jk nth by auto
      with jk co show ?thesis unfolding conns_ok_def handles_unique_def by metis
    qed
  qed
  moreover have "proc_ok ?C p" if p: "p \<in> set P" for p
  proof -
    obtain k y g where e: "p = (k, y, g)" by (cases p)
    have "g \<noteq> h" using h p e by (force simp: fresh_handle_def)
    moreover have "proc_ok (bl_connections s) (k, y, g)" using co p e by (auto simp: conns_ok_def)
    ultimately show ?thesis unfolding e proc_ok_def prod.case by (simp add: nth)
  qed
  ultimately show ?thesis by (simp add: conns_ok_def)
qed

lemma connected_slots:
  "bl_connections (fst (gap_connected env x h snap s)) =
   bl_connections (fst (ble_state_on_connect_success (be_lock env 6) (ble_ctx_ref x s) h (be_now env 0) s))"
  by (auto simp: gap_connected_def ble_runtime_set_peer_addr_def Let_def case_prod_beta split: option.splits bool.splits)

lemma came_up_ok:
  assumes ok: "gatt_ok (s, P)" and h: "fresh_handle s P h"
    and c: "ble_central_gap_event_handler env (GapEventConnect HS_OK h) x s = (t, r, out)"
  shows "conns_ok (bl_connections t) P"
proof (cases "gap_ctx_snapshot env x BLE_HS_CONN_HANDLE_NONE s")
  case (Pair s1 snap)
  have co: "conns_ok (bl_connections s) P" and len: "length (bl_connections s) = BLE_CENTRAL_MAX_CONN"
    using ok by (auto simp: gatt_ok_def ble_inv_def dest: links_okD(1))
  have s1: "bl_connections s1 = bl_connections s"
    using Pair by (auto simp: gap_ctx_snapshot_def split: option.splits if_splits)
  have "conns_ok (bl_connections (fst (ble_state_on_connect_success lk ref h now s1))) P" for lk ref now
    using co conns_came_up [OF co len _ h, of "rf_slot_index ref" now] s1
    by (auto simp: ble_state_on_connect_success_def Let_def ble_ref_valid_unlocked_def split: option.splits)
  then have "conns_ok (bl_connections (fst (gap_connected env x h sn s1))) P" for sn
    by (simp add: connected_slots)
  with c Pair s1 co show ?thesis
    by (auto simp: ble_central_gap_event_handler_def split: option.splits prod.splits) (metis fst_conv)
qed

lemma gatt_step_inv: "gatt_step c d \<Longrightarrow> gatt_ok c \<Longrightarrow> gatt_ok d"
proof (induction rule: gatt_step.induct)
  case (call s t P)
  then have "ble_inv s" "table_path s t" by (auto simp: gatt_ok_def intro: call_path)
  with call show ?case by (auto simp: gatt_ok_def intro: table_inv conns_quiet quiet_path)
next
  case (event env ev x s t r out P)
  then have inv: "ble_inv s" and co: "conns_ok (bl_connections s) P" by (auto simp: gatt_ok_def)
  have "ble_inv t" using central_inv [OF central_step.event [of s env ev x] inv] event.hyps(1) by simp
  moreover have "conns_ok (bl_connections t) P"
  proof (cases "comes_up ev")
    case True
    with event show ?thesis by (auto simp: comes_up_def intro: came_up_ok)
  next
    case False
    have "table_path s t" using event_table [OF inv False, of env x] event.hyps(1) by simp
    then show ?thesis by (rule conns_quiet [OF quiet_path [OF _ inv] co])
  qed
  moreover have "\<forall>p\<in>set (procs out). proc_ok (bl_connections t) p"
    using event_procs [OF event.hyps(1)] by blast
  ultimately show ?case by (simp add: gatt_ok_def conns_more)
next
  case (service x h P env status svc s t out)
  have "ble_inv t" using central_inv [OF central_step.service [of s env x h status svc]] service by (simp add: gatt_ok_def)
  with service service_ok show ?case by (simp add: gatt_ok_def)
next
  case (characteristic x h P env status chr s t out)
  have "ble_inv t" using central_inv [OF central_step.characteristic [of s env x h status chr]] characteristic by (simp add: gatt_ok_def)
  with characteristic characteristic_ok [of s P x h chr env status t out] show ?case by (simp add: gatt_ok_def)
next
  case (descriptor x h P env status v dsc s t out)
  have "ble_inv t" using central_inv [OF central_step.descriptor [of s env x h status v dsc]] descriptor by (simp add: gatt_ok_def)
  with descriptor descriptor_ok [of s P x h dsc env status v t out] show ?case by (simp add: gatt_ok_def)
next
  case (subscribed x h P env status s t out)
  have "ble_inv t" using central_inv [OF central_step.subscribed [of s env x h status]] subscribed by (simp add: gatt_ok_def)
  with subscribed subscribed_ok show ?case by (simp add: gatt_ok_def)
next
  case (finished P' P s)
  then show ?case by (auto simp: gatt_ok_def conns_ok_def)
qed

lemma gatt_boot: "gatt_start c \<Longrightarrow> gatt_ok c"
proof -
  have same: "bl_connections (register_stored es s) = bl_connections s" for es s
    by (induction es arbitrary: s) (auto simp: ble_runtime_register_unlocked_def split: option.splits)
  assume g: "gatt_start c"
  then obtain stored where b: "fst c = ble_init_state stored" "snd c = []" "ble_boot (fst c)"
    by (auto simp: gatt_start_def ble_boot_def)
  have "bl_connections (fst c) = replicate BLE_CENTRAL_MAX_CONN (fresh_slot BLE_CONN_FREE None 0)"
    unfolding b by (simp add: ble_init_state_def ble_central_runtime_init_def same ble_central_state_init_def)
  then show ?thesis
    using b inv_boot by (simp add: gatt_ok_def conns_ok_def ready_ok_def handles_unique_def)
qed

interpretation gatt: step_system gatt_start gatt_step gatt_ok
  by unfold_locales (auto intro: gatt_boot gatt_step_inv)

end
