(* ===== verification/Ble_Notify.thy ===== *)
theory Ble_Notify
  imports Ble_Central
begin

text \<open>
  The way of a notification from the host task to the rest of the gateway (\<open>ble_central/ble_central_notify.c\<close>),
  and the scan for new devices (\<open>ble_central_scan.c\<close>).

  The GAP handler puts the packet into a queue of eight and never waits; a worker takes the packets out,
  decodes them and calls the callback of the application. The FreeRTOS queue is a list.
\<close>

section \<open>Notifications\<close>

abbreviation BLE_NOTIFY_QUEUE_DEPTH :: nat where "BLE_NOTIFY_QUEUE_DEPTH \<equiv> 8"

record ble_notify_event =
  bn_device_id :: string
  bn_cbor :: "u8 list"

record notify_state =
  ns_queue :: "ble_notify_event list"
  ns_high_watermark :: u32
  ns_callback :: bool

definition ble_central_notify_queue_high_watermark :: "notify_state \<Rightarrow> u32" where
  "ble_central_notify_queue_high_watermark ns = ns_high_watermark ns"

text \<open>\<open>queue_ok\<close> and \<open>task_ok\<close>: the queue and the task exist already or could be created.\<close>

definition ble_central_notify_init :: "bool \<Rightarrow> bool \<Rightarrow> bool \<Rightarrow> notify_state \<Rightarrow> notify_state \<times> bool" where
  "ble_central_notify_init queue_ok task_ok callback ns = (ns\<lparr>ns_callback := callback\<rparr>, queue_ok \<and> task_ok)"

text \<open>
  The counters are those of the central's state \<open>s\<close>; \<open>lk\<close> gives the outcome of each lock. The loop around
  the compare-and-swap ends when the watermark is not below the depth.
\<close>

definition ble_central_notify_enqueue ::
    "(nat \<Rightarrow> bool) \<Rightarrow> string option \<Rightarrow> u8 list option \<Rightarrow> notify_state \<times> ble_state \<Rightarrow> notify_state \<times> ble_state" where
  "ble_central_notify_enqueue lk device_id data c =
     (if device_id = None \<or> data = None \<or> the data = [] \<or> GW_MSG_MAX_LEN < length (the data) then c
      else case c of
        (ns, s) \<Rightarrow>
          let s1 = ble_central_metrics_notify_received (lk 0) s;
              event = \<lparr>bn_device_id = strlcpy GW_MSG_DEVICE_ID_LEN (the device_id), bn_cbor = the data\<rparr>
          in if BLE_NOTIFY_QUEUE_DEPTH \<le> length (ns_queue ns)
             then (ns, ble_central_metrics_notify_dropped (lk 1) s1)
             else let queue = ns_queue ns @ [event];
                      depth = of_nat (length queue)
                  in (ns\<lparr>ns_queue := queue,
                         ns_high_watermark := (if ns_high_watermark ns < depth then depth else ns_high_watermark ns)\<rparr>,
                      ble_central_metrics_notify_enqueued (lk 2) s1))"

text \<open>One turn of the worker; the result is the call of the application's callback.\<close>

definition notify_turn ::
    "qcbor \<Rightarrow> (nat \<Rightarrow> bool) \<Rightarrow> notify_state \<times> ble_state \<Rightarrow> (notify_state \<times> ble_state) \<times> (string \<times> gw_message) option" where
  "notify_turn Q lk c =
     (case c of
        (ns, s) \<Rightarrow>
          (case ns_queue ns of
             [] \<Rightarrow> (c, None)
           | event # rest \<Rightarrow>
               (case cbor_codec_decode Q (bn_cbor event) of
                  None \<Rightarrow> ((ns\<lparr>ns_queue := rest\<rparr>, ble_central_metrics_notify_decode_error (lk 0) s), None)
                | Some message \<Rightarrow>
                    ((ns\<lparr>ns_queue := rest\<rparr>, s),
                     if ns_callback ns then Some (bn_device_id event, message) else None))))"

datatype notify_op = NotifyArrives string "u8 list" | NotifyTurn

text \<open>A run with every lock obtained; the result is the calls of the callback in their order.\<close>

fun notify_run ::
    "qcbor \<Rightarrow> notify_op list \<Rightarrow> notify_state \<times> ble_state \<Rightarrow> (notify_state \<times> ble_state) \<times> (string \<times> gw_message) list" where
  "notify_run Q [] c = (c, [])"
| "notify_run Q (NotifyArrives j d # ops) c =
     notify_run Q ops (ble_central_notify_enqueue (\<lambda>_. True) (Some j) (Some d) c)"
| "notify_run Q (NotifyTurn # ops) c =
     (case notify_turn Q (\<lambda>_. True) c of
        (c', call) \<Rightarrow> (case notify_run Q ops c' of (c'', calls) \<Rightarrow> (c'', (case call of None \<Rightarrow> [] | Some k \<Rightarrow> [k]) @ calls)))"

text \<open>
  What the runs implement: a queue that loses what arrives while it is full. \<open>admitted\<close> lists the packets
  that get in, given how many are waiting at the start.
\<close>

definition sound_packet :: "u8 list \<Rightarrow> bool" where
  "sound_packet d \<longleftrightarrow> d \<noteq> [] \<and> length d \<le> GW_MSG_MAX_LEN"

fun admitted :: "nat \<Rightarrow> notify_op list \<Rightarrow> (string \<times> u8 list) list" where
  "admitted n [] = []"
| "admitted n (NotifyArrives j d # ops) =
     (if sound_packet d \<and> n < BLE_NOTIFY_QUEUE_DEPTH
      then (strlcpy GW_MSG_DEVICE_ID_LEN j, d) # admitted (Suc n) ops else admitted n ops)"
| "admitted n (NotifyTurn # ops) = admitted (n - 1) ops"

definition packets :: "notify_state \<Rightarrow> (string \<times> u8 list) list" where
  "packets ns = map (\<lambda>e. (bn_device_id e, bn_cbor e)) (ns_queue ns)"

definition delivered :: "qcbor \<Rightarrow> (string \<times> u8 list) list \<Rightarrow> (string \<times> gw_message) list" where
  "delivered Q ps = concat (map (\<lambda>(j, d). case cbor_codec_decode Q d of None \<Rightarrow> [] | Some m \<Rightarrow> [(j, m)]) ps)"

lemma delivered_simps [simp]:
  "delivered Q [] = []" "delivered Q (p # ps) = (case cbor_codec_decode Q (snd p) of None \<Rightarrow> [] | Some m \<Rightarrow> [(fst p, m)]) @ delivered Q ps"
  by (auto simp: delivered_def split: option.splits prod.splits)

lemma enqueue_fst:
  "fst (ble_central_notify_enqueue lk (Some j) (Some d) (ns, s)) =
     (if sound_packet d \<and> length (ns_queue ns) < BLE_NOTIFY_QUEUE_DEPTH
      then ns\<lparr>ns_queue := ns_queue ns @ [\<lparr>bn_device_id = strlcpy GW_MSG_DEVICE_ID_LEN j, bn_cbor = d\<rparr>],
              ns_high_watermark := max (ns_high_watermark ns) (of_nat (Suc (length (ns_queue ns))))\<rparr>
      else ns)"
  by (auto simp: ble_central_notify_enqueue_def sound_packet_def Let_def max_def)

lemma turn_queue:
  assumes "notify_turn Q lk (ns, s) = ((ns', s'), call)"
  shows "packets ns' = tl (packets ns)" "length (ns_queue ns') = length (ns_queue ns) - 1" "ns_callback ns' = ns_callback ns"
    and "ns_callback ns \<Longrightarrow> (case call of None \<Rightarrow> [] | Some k \<Rightarrow> [k]) = delivered Q (take 1 (packets ns))"
  using assms by (auto simp: notify_turn_def packets_def split: list.splits option.splits)

lemma run_delivers:
  assumes "notify_run Q ops (ns, s) = ((ns', s'), calls)" "ns_callback ns" "length (ns_queue ns) \<le> BLE_NOTIFY_QUEUE_DEPTH"
  shows "\<exists>taken. packets ns @ admitted (length (ns_queue ns)) ops = taken @ packets ns' \<and> calls = delivered Q taken \<and>
           length (ns_queue ns') \<le> BLE_NOTIFY_QUEUE_DEPTH"
  using assms
proof (induction ops arbitrary: ns s calls)
  case Nil
  then show ?case by auto
next
  case (Cons op ops)
  show ?case
  proof (cases op)
    case (NotifyArrives j d)
    obtain n1 s1 where e: "ble_central_notify_enqueue (\<lambda>_. True) (Some j) (Some d) (ns, s) = (n1, s1)" by fastforce
    have n1: "n1 = fst (ble_central_notify_enqueue (\<lambda>_. True) (Some j) (Some d) (ns, s))" by (simp add: e)
    have q: "packets ns @ admitted (length (ns_queue ns)) (op # ops) = packets n1 @ admitted (length (ns_queue n1)) ops"
      "ns_callback n1" "length (ns_queue n1) \<le> BLE_NOTIFY_QUEUE_DEPTH"
      using Cons.prems(2,3) unfolding n1 enqueue_fst NotifyArrives by (auto simp: packets_def)
    have "notify_run Q ops (n1, s1) = ((ns', s'), calls)" using Cons.prems(1) by (simp add: NotifyArrives e)
    from Cons.IH [OF this q(2,3)] q(1) show ?thesis by simp
  next
    case NotifyTurn
    obtain n1 s1 call where e: "notify_turn Q (\<lambda>_. True) (ns, s) = ((n1, s1), call)" by (metis surj_pair)
    obtain rest where r: "notify_run Q ops (n1, s1) = ((ns', s'), rest)" "calls = (case call of None \<Rightarrow> [] | Some k \<Rightarrow> [k]) @ rest"
      using Cons.prems(1) by (auto simp: NotifyTurn e split: prod.splits)
    note t = turn_queue [OF e]
    have "ns_callback n1" "length (ns_queue n1) \<le> BLE_NOTIFY_QUEUE_DEPTH" using t Cons.prems by simp_all
    from Cons.IH [OF r(1) this] obtain taken where tk: "packets n1 @ admitted (length (ns_queue n1)) ops = taken @ packets ns'"
      "rest = delivered Q taken" "length (ns_queue ns') \<le> BLE_NOTIFY_QUEUE_DEPTH" by blast
    show ?thesis
    proof (cases "packets ns")
      case Nil
      with t tk r Cons.prems show ?thesis by (auto simp: NotifyTurn packets_def intro!: exI [of _ taken])
    next
      case (Cons p ps)
      with t tk r \<open>ns_callback ns\<close> show ?thesis by (auto simp: NotifyTurn intro!: exI [of _ "p # taken"])
    qed
  qed
qed

section \<open>Scanning\<close>

record ble_scan_result =
  sr_addr :: "u8 list"
  sr_addr_type :: u8
  sr_rssi :: "8 word"
  sr_name :: "u8 list"

record scan_state =
  sn_callback :: bool
  sn_scanning :: bool

definition ble_central_scan_reset :: "scan_state \<Rightarrow> scan_state" where
  "ble_central_scan_reset sc = sc\<lparr>sn_callback := False, sn_scanning := False\<rparr>"

definition ble_central_scan_start :: "bool \<Rightarrow> bool \<Rightarrow> bool \<Rightarrow> hs_rc \<Rightarrow> scan_state \<Rightarrow> scan_state \<times> bool" where
  "ble_central_scan_start host_ready callback disc_active rc sc =
     (if \<not> host_ready \<or> \<not> callback \<or> disc_active then (sc, False)
      else if rc \<noteq> HS_OK then (sc\<lparr>sn_callback := callback\<rparr>, False)
      else (sc\<lparr>sn_callback := callback, sn_scanning := True\<rparr>, True))"

definition ble_central_scan_stop :: "bool \<Rightarrow> hs_rc \<Rightarrow> scan_state \<Rightarrow> scan_state \<times> bool" where
  "ble_central_scan_stop disc_active rc sc =
     (if \<not> disc_active then (sc\<lparr>sn_scanning := False\<rparr>, True)
      else (sc, rc = HS_OK \<or> rc = BLE_HS_EALREADY))"

definition ble_central_is_scanning :: "bool \<Rightarrow> scan_state \<Rightarrow> bool" where
  "ble_central_is_scanning disc_active sc \<longleftrightarrow> sn_scanning sc \<and> disc_active"

abbreviation BLE_GATEWAY_SERVICE_UUID :: u16 where "BLE_GATEWAY_SERVICE_UUID \<equiv> 0xABF0"

text \<open>\<open>adv\<close> is what \<open>ble_hs_adv_parse_fields\<close> found: the 16-bit UUIDs and the name; \<open>None\<close> when it failed.\<close>

datatype scan_event = ScanDisc ble_addr "8 word" "(u16 list \<times> u8 list option) option" | ScanComplete | ScanOther

definition advertisement_has_gateway_service :: "u16 list \<Rightarrow> bool" where
  "advertisement_has_gateway_service uuids = list_ex (\<lambda>u. u = BLE_GATEWAY_SERVICE_UUID) uuids"

definition scan_event_handler :: "scan_event \<Rightarrow> scan_state \<Rightarrow> scan_state \<times> ble_scan_result option" where
  "scan_event_handler ev sc =
     (case ev of
        ScanComplete \<Rightarrow> (sc\<lparr>sn_scanning := False\<rparr>, None)
      | ScanOther \<Rightarrow> (sc, None)
      | ScanDisc addr rssi adv \<Rightarrow>
          (case adv of
             None \<Rightarrow> (sc, None)
           | Some (uuids, name) \<Rightarrow>
               if \<not> advertisement_has_gateway_service uuids then (sc, None)
               else let result = \<lparr>sr_addr = snd addr, sr_addr_type = fst addr, sr_rssi = rssi,
                                  sr_name = (case name of Some n \<Rightarrow> take 31 n | None \<Rightarrow> [])\<rparr>
                    in (sc, if sn_callback sc then Some result else None)))"

lemma scan_result_bounded:
  "scan_event_handler ev sc = (sc', Some r) \<Longrightarrow> length (sr_name r) < 32"
  by (auto simp: scan_event_handler_def Let_def split: scan_event.splits option.splits if_splits)

end
