(* ===== verification/Ble_Identity.thy ===== *)
theory Ble_Identity
  imports Device_Store
begin

text \<open>
  The deferred persistence of BLE identities (\<open>ble_central/ble_central_identity.c\<close>). Callbacks of the host
  stack leave the latest address of a device in a table of sixteen entries; a worker task writes it with
  \<open>device_store_set_ble_identity\<close> and clears the entry's dirty flag unless a newer address came in
  between. The table is guarded by a spin lock that is always obtained.
\<close>

section \<open>The table\<close>

record identity_pending =
  ip_device_id :: string
  ip_addr :: "u8 list"
  ip_addr_type :: u8
  ip_generation :: u32
  ip_dirty :: bool

definition zero_identity :: identity_pending where
  "zero_identity = \<lparr>ip_device_id = [], ip_addr = replicate 6 0, ip_addr_type = 0, ip_generation = 0, ip_dirty = False\<rparr>"

definition identity_boot :: "identity_pending list" where
  "identity_boot = replicate DEVICE_STORE_MAX_DEVICES zero_identity"

definition pending_slot :: "string \<Rightarrow> identity_pending list \<Rightarrow> nat option" where
  "pending_slot device_id P =
     (case find_index (\<lambda>p. (ip_dirty p \<or> 0 < ip_generation p) \<and> ip_device_id p = device_id) P of
        Some i \<Rightarrow> Some i
      | None \<Rightarrow> find_index (\<lambda>p. ip_generation p = 0) P)"

text \<open>The result tells whether the update was accepted; otherwise a failure is counted.\<close>

definition ble_central_identity_submit ::
    "bool \<Rightarrow> string option \<Rightarrow> (u8 \<times> u8 list) option \<Rightarrow> identity_pending list \<Rightarrow> identity_pending list \<times> bool" where
  "ble_central_identity_submit task device_id addr P =
     (if device_id = None \<or> addr = None \<or> \<not> task then (P, False)
      else (case pending_slot (the device_id) P of
              None \<Rightarrow> (P, False)
            | Some i \<Rightarrow>
                (P[i := (P ! i)\<lparr>ip_device_id := (if ip_generation (P ! i) = 0 then strlcpy DEVICE_ID_MAX_LEN (the device_id)
                                                 else ip_device_id (P ! i)),
                                ip_addr := snd (the addr), ip_addr_type := fst (the addr),
                                ip_generation := ip_generation (P ! i) + 1, ip_dirty := True\<rparr>], True)))"

definition identity_take_next :: "identity_pending list \<Rightarrow> identity_pending option" where
  "identity_take_next P = map_option (nth P) (find_index ip_dirty P)"

definition identity_complete :: "identity_pending \<Rightarrow> bool \<Rightarrow> identity_pending list \<Rightarrow> identity_pending list" where
  "identity_complete snapshot success P =
     (case find_index (\<lambda>p. ip_dirty p \<and> ip_generation p = ip_generation snapshot \<and>
                            ip_device_id p = ip_device_id snapshot) P of
        Some i \<Rightarrow> if success then P[i := (P ! i)\<lparr>ip_dirty := False\<rparr>] else P
      | None \<Rightarrow> P)"

definition terminal_result :: "device_store_result \<Rightarrow> bool" where
  "terminal_result r \<longleftrightarrow>
     r = DEVICE_STORE_OK \<or> r = DEVICE_STORE_ERR_DUPLICATE_BLE_IDENTITY \<or> r = DEVICE_STORE_ERR_NOT_FOUND"

lemma take_next_SomeD:
  "identity_take_next P = Some snap \<Longrightarrow> \<exists>i<length P. P ! i = snap \<and> ip_dirty snap"
  by (auto simp: identity_take_next_def dest: find_index_SomeD)

lemma complete_decreases:
  assumes "identity_take_next P = Some snap"
  shows "count_if ip_dirty (identity_complete snap True P) < count_if ip_dirty P"
proof -
  let ?Q = "\<lambda>p. ip_dirty p \<and> ip_generation p = ip_generation snap \<and> ip_device_id p = ip_device_id snap"
  from take_next_SomeD [OF assms] obtain k where "k < length P" "P ! k = snap" "ip_dirty snap" by blast
  then have "snap \<in> set P" "?Q snap" by auto
  then obtain i where i: "find_index ?Q P = Some i" using find_index_ex [of ?Q P] by blast
  from find_index_SomeD [OF i] count_if_update [of i P ip_dirty "(P ! i)\<lparr>ip_dirty := False\<rparr>"]
  show ?thesis by (simp add: identity_complete_def i)
qed

text \<open>
  The inner loop of the worker: it writes until nothing is dirty, or until a write fails in a way that
  another attempt may cure. The last component tells which, and so how long the task sleeps.
\<close>

function (sequential) identity_drain ::
    "'n nvs_api \<Rightarrow> (identity_pending \<Rightarrow> bool) \<Rightarrow> identity_pending list \<Rightarrow> store_state \<Rightarrow> 'n \<Rightarrow>
     identity_pending list \<times> store_state \<times> 'n \<times> bool" where
  "identity_drain N lock P store n =
     (case identity_take_next P of
        None \<Rightarrow> (P, store, n, False)
      | Some snap \<Rightarrow>
          (case device_store_set_ble_identity N (lock snap) (Some (ip_device_id snap)) (Some (ip_addr snap)) (ip_addr_type snap) store n of
             (store', n', r) \<Rightarrow>
               if terminal_result r then identity_drain N lock (identity_complete snap True P) store' n'
               else (P, store', n', True)))"
  by pat_completeness auto
termination
  by (relation "measure (\<lambda>(N, lock, P, store, n). count_if ip_dirty P)") (auto intro: complete_decreases)

declare identity_drain.simps [simp del]

lemma drain_clean: "identity_drain N lock P store n = (P', store', n', False) \<Longrightarrow> \<forall>p\<in>set P'. \<not> ip_dirty p"
proof (induction N lock P store n rule: identity_drain.induct)
  case (1 N lock P store n)
  show ?case
  proof (cases "identity_take_next P")
    case None
    then have "P' = P" using 1(2) by (simp add: identity_drain.simps [of N lock P])
    with None show ?thesis by (simp add: identity_take_next_def find_index_None)
  next
    case (Some snap)
    obtain st m r where w: "device_store_set_ble_identity N (lock snap) (Some (ip_device_id snap)) (Some (ip_addr snap))
        (ip_addr_type snap) store n = (st, m, r)" by (metis surj_pair)
    from 1(2) have "terminal_result r" "identity_drain N lock (identity_complete snap True P) st m = (P', store', n', False)"
      by (simp_all add: identity_drain.simps [of N lock P] Some w split: if_splits)
    with 1(1) [OF Some w [symmetric] refl] show ?thesis by blast
  qed
qed

section \<open>Runs\<close>

text \<open>
  The worker between taking an entry and completing it holds a copy, while callbacks go on submitting. Two
  histories are kept: the last address accepted for each device, and the last one whose write ended.
\<close>

type_synonym identity = "u8 \<times> u8 list"

record identity_run =
  ir_table :: "identity_pending list"
  ir_work :: "identity_pending option"
  ir_last :: "string \<Rightarrow> identity option"
  ir_settled :: "string \<Rightarrow> identity option"
  ir_submits :: nat

definition pending_identity :: "identity_pending \<Rightarrow> identity" where
  "pending_identity p = (ip_addr_type p, ip_addr p)"

inductive identity_step :: "identity_run \<Rightarrow> identity_run \<Rightarrow> bool" where
  submit: "\<lbrakk>ble_central_identity_submit True (Some j) (Some a) (ir_table c) = (P', True); length j < DEVICE_ID_MAX_LEN\<rbrakk> \<Longrightarrow>
     identity_step c (c\<lparr>ir_table := P', ir_last := (ir_last c)(j := Some a), ir_submits := ir_submits c + 1\<rparr>)"
| take: "\<lbrakk>ir_work c = None; identity_take_next (ir_table c) = Some snap\<rbrakk> \<Longrightarrow>
     identity_step c (c\<lparr>ir_work := Some snap\<rparr>)"
| finish: "\<lbrakk>ir_work c = Some snap; terminal_result r\<rbrakk> \<Longrightarrow>
     identity_step c (c\<lparr>ir_table := identity_complete snap True (ir_table c), ir_work := None,
       ir_settled := (ir_settled c)(ip_device_id snap := Some (pending_identity snap))\<rparr>)"
| retry: "\<lbrakk>ir_work c = Some snap; \<not> terminal_result r\<rbrakk> \<Longrightarrow> identity_step c (c\<lparr>ir_work := None\<rparr>)"

definition identity_start :: "identity_run \<Rightarrow> bool" where
  "identity_start c \<longleftrightarrow>
     c = \<lparr>ir_table = identity_boot, ir_work = None, ir_last = Map.empty, ir_settled = Map.empty, ir_submits = 0\<rparr>"

definition used :: "identity_pending \<Rightarrow> bool" where
  "used p \<longleftrightarrow> 0 < ip_generation p"

definition table_ok :: "nat \<Rightarrow> identity_pending list \<Rightarrow> bool" where
  "table_ok n P \<longleftrightarrow>
     length P = DEVICE_STORE_MAX_DEVICES \<and>
     (\<forall>i<length P. unat (ip_generation (P ! i)) \<le> n \<and> (ip_dirty (P ! i) \<longrightarrow> used (P ! i))) \<and>
     (\<forall>i<length P. \<forall>k<length P. used (P ! i) \<and> used (P ! k) \<and> ip_device_id (P ! i) = ip_device_id (P ! k) \<longrightarrow> i = k)"

definition work_ok :: "identity_pending list \<Rightarrow> identity_pending \<Rightarrow> bool" where
  "work_ok P snap \<longleftrightarrow>
     (\<exists>i<length P. used (P ! i) \<and> ip_dirty (P ! i) \<and> ip_device_id (P ! i) = ip_device_id snap \<and>
        ip_generation snap \<le> ip_generation (P ! i) \<and>
        (ip_generation (P ! i) = ip_generation snap \<longrightarrow> pending_identity (P ! i) = pending_identity snap))"

definition histories_ok :: "identity_run \<Rightarrow> bool" where
  "histories_ok c \<longleftrightarrow>
     (\<forall>j a. ir_last c j = Some a \<longrightarrow>
        (\<exists>i<length (ir_table c). let p = ir_table c ! i in
           used p \<and> ip_device_id p = j \<and> pending_identity p = a \<and> (ip_dirty p \<or> ir_settled c j = Some a)))"

definition identity_inv :: "identity_run \<Rightarrow> bool" where
  "identity_inv c \<longleftrightarrow>
     (ir_submits c < 2 ^ 32 \<longrightarrow>
        table_ok (ir_submits c) (ir_table c) \<and> histories_ok c \<and>
        (\<forall>snap. ir_work c = Some snap \<longrightarrow> work_ok (ir_table c) snap))"

lemma pending_slotD:
  assumes ok: "table_ok n P" and i: "pending_slot j P = Some i"
  shows "i < length P \<and> (used (P ! i) \<and> ip_device_id (P ! i) = j \<or>
           ip_generation (P ! i) = 0 \<and> (\<forall>k<length P. used (P ! k) \<longrightarrow> ip_device_id (P ! k) \<noteq> j))"
proof (cases "find_index (\<lambda>p. (ip_dirty p \<or> 0 < ip_generation p) \<and> ip_device_id p = j) P")
  case None
  then have "\<not> used p \<or> ip_device_id p \<noteq> j" if "p \<in> set P" for p
    using that by (auto simp: find_index_None used_def)
  moreover have "find_index (\<lambda>p. ip_generation p = 0) P = Some i" using None i by (simp add: pending_slot_def)
  ultimately show ?thesis by (auto dest!: find_index_SomeD simp: in_set_conv_nth)
next
  case (Some k)
  with i have "k = i" by (simp add: pending_slot_def)
  with find_index_SomeD [OF Some] ok show ?thesis by (auto simp: table_ok_def used_def)
qed

lemma histories_okD:
  assumes "histories_ok c" "ir_last c j = Some a"
  obtains i where "i < length (ir_table c)" "used (ir_table c ! i)" "ip_device_id (ir_table c ! i) = j"
    "pending_identity (ir_table c ! i) = a" "ip_dirty (ir_table c ! i) \<or> ir_settled c j = Some a"
  using assms unfolding histories_ok_def Let_def by blast

lemma submit_accepted:
  assumes "ble_central_identity_submit True (Some j) (Some a) P = (P', True)" "length j < DEVICE_ID_MAX_LEN"
  obtains i where "pending_slot j P = Some i"
    "P' = P[i := (P ! i)\<lparr>ip_device_id := (if ip_generation (P ! i) = 0 then j else ip_device_id (P ! i)),
                        ip_addr := snd a, ip_addr_type := fst a, ip_generation := ip_generation (P ! i) + 1, ip_dirty := True\<rparr>]"
  using assms by (auto simp: ble_central_identity_submit_def split: option.splits)

lemma next_generation:
  fixes g :: u32
  assumes "unat g \<le> n" "n + 1 < 2 ^ 32"
  shows "unat (g + 1) = unat g + 1" "0 < g + 1" "g < g + 1"
proof -
  show u: "unat (g + 1) = unat g + 1"
    using assms by (simp add: unat_word_ariths)
  then show "0 < g + 1" by (simp add: word_less_nat_alt)
  show "g < g + 1" using u by (simp add: word_less_nat_alt)
qed

lemma identity_submit_inv:
  assumes inv: "identity_inv c" and s: "ble_central_identity_submit True (Some j) (Some a) (ir_table c) = (P', True)"
    and j: "length j < DEVICE_ID_MAX_LEN"
  shows "identity_inv (c\<lparr>ir_table := P', ir_last := (ir_last c)(j := Some a), ir_submits := ir_submits c + 1\<rparr>)"
proof (cases "ir_submits c + 1 < 2 ^ 32")
  case room: True
  let ?P = "ir_table c"
  have ok: "table_ok (ir_submits c) ?P" and hist: "histories_ok c"
    and work: "\<And>snap. ir_work c = Some snap \<Longrightarrow> work_ok ?P snap"
    using inv room by (auto simp: identity_inv_def)
  obtain i where sl: "pending_slot j ?P = Some i"
    and P': "P' = ?P[i := (?P ! i)\<lparr>ip_device_id := (if ip_generation (?P ! i) = 0 then j else ip_device_id (?P ! i)),
      ip_addr := snd a, ip_addr_type := fst a, ip_generation := ip_generation (?P ! i) + 1, ip_dirty := True\<rparr>]"
    using submit_accepted [OF s j] by blast
  note slot = pending_slotD [OF ok sl]
  have i: "i < length ?P" using slot by blast
  define q where "q = (?P ! i)\<lparr>ip_device_id := (if ip_generation (?P ! i) = 0 then j else ip_device_id (?P ! i)),
      ip_addr := snd a, ip_addr_type := fst a, ip_generation := ip_generation (?P ! i) + 1, ip_dirty := True\<rparr>"
  have gen: "unat (ip_generation (?P ! i)) \<le> ir_submits c" using ok i by (simp add: table_ok_def)
  note up = next_generation [OF gen room]
  have q: "ip_device_id q = j" "used q" "ip_dirty q" "pending_identity q = a" "ip_generation q = ip_generation (?P ! i) + 1"
    using slot up by (auto simp: q_def used_def pending_identity_def)
  have nth: "P' ! k = (if i = k then q else ?P ! k)" if "k < length ?P" for k
    using that by (simp add: P' q_def nth_list_update)
  have len: "length P' = length ?P" by (simp add: P')
  have alone: "\<not> used (?P ! k) \<or> ip_device_id (?P ! k) \<noteq> j" if "k < length ?P" "k \<noteq> i" for k
    using slot ok that unfolding table_ok_def by metis
  have "table_ok (ir_submits c + 1) P'"
    unfolding table_ok_def len
  proof (intro conjI allI impI)
    show "length ?P = DEVICE_STORE_MAX_DEVICES" using ok by (simp add: table_ok_def)
    fix k assume k: "k < length ?P"
    show "unat (ip_generation (P' ! k)) \<le> ir_submits c + 1"
      using ok k up(1) gen q(5) by (auto simp: nth table_ok_def intro: le_SucI)
    show "used (P' ! k)" if "ip_dirty (P' ! k)" using ok k that q(2) by (simp add: nth table_ok_def split: if_splits)
    fix e assume e: "e < length ?P" and same: "used (P' ! k) \<and> used (P' ! e) \<and> ip_device_id (P' ! k) = ip_device_id (P' ! e)"
    show "k = e"
    proof (cases "k = i \<or> e = i")
      case True
      with same k e alone [of k] alone [of e] q(1) show ?thesis by (auto simp: nth split: if_splits)
    next
      case False
      then have "P' ! k = ?P ! k" "P' ! e = ?P ! e" using k e by (auto simp: nth)
      with same k e ok show ?thesis unfolding table_ok_def by metis
    qed
  qed
  moreover have "work_ok P' snap" if "ir_work c = Some snap" for snap
  proof -
    from work [OF that] obtain k where k: "k < length ?P" "used (?P ! k)" "ip_dirty (?P ! k)"
      "ip_device_id (?P ! k) = ip_device_id snap" "ip_generation snap \<le> ip_generation (?P ! k)"
      "ip_generation (?P ! k) = ip_generation snap \<longrightarrow> pending_identity (?P ! k) = pending_identity snap"
      by (auto simp: work_ok_def)
    show ?thesis
    proof (cases "k = i")
      case True
      with k(2) have "ip_device_id (?P ! i) = j" using slot by (auto simp: used_def)
      moreover have "ip_generation snap < ip_generation q" using k(5) True up(3) q(5) by simp
      ultimately show ?thesis using k True i q unfolding work_ok_def len by (intro exI [of _ i]) (auto simp: nth)
    qed (use k in \<open>auto simp: work_ok_def len nth intro!: exI [of _ k]\<close>)
  qed
  moreover have "histories_ok (c\<lparr>ir_table := P', ir_last := (ir_last c)(j := Some a), ir_submits := ir_submits c + 1\<rparr>)"
    unfolding histories_ok_def
  proof (intro allI impI)
    fix j' a' assume l: "ir_last (c\<lparr>ir_table := P', ir_last := (ir_last c)(j := Some a), ir_submits := ir_submits c + 1\<rparr>) j' = Some a'"
    show "\<exists>i<length (ir_table (c\<lparr>ir_table := P', ir_last := (ir_last c)(j := Some a), ir_submits := ir_submits c + 1\<rparr>)).
      let p = ir_table (c\<lparr>ir_table := P', ir_last := (ir_last c)(j := Some a), ir_submits := ir_submits c + 1\<rparr>) ! i in
        used p \<and> ip_device_id p = j' \<and> pending_identity p = a' \<and>
        (ip_dirty p \<or> ir_settled (c\<lparr>ir_table := P', ir_last := (ir_last c)(j := Some a), ir_submits := ir_submits c + 1\<rparr>) j' = Some a')"
    proof (cases "j' = j")
      case True
      with l i q show ?thesis by (intro exI [of _ i]) (simp add: len nth Let_def)
    next
      case False
      with l have "ir_last c j' = Some a'" by simp
      from histories_okD [OF hist this] obtain k where k: "k < length ?P" "used (?P ! k)" "ip_device_id (?P ! k) = j'"
        "pending_identity (?P ! k) = a'" "ip_dirty (?P ! k) \<or> ir_settled c j' = Some a'" by blast
      have "k \<noteq> i" using slot k False by (auto simp: used_def)
      with k show ?thesis by (intro exI [of _ k]) (simp add: len nth Let_def)
    qed
  qed
  ultimately show ?thesis by (simp add: identity_inv_def)
qed (simp add: identity_inv_def)

lemma take_inv:
  assumes inv: "identity_inv c" and s: "identity_take_next (ir_table c) = Some snap"
  shows "identity_inv (c\<lparr>ir_work := Some snap\<rparr>)"
proof -
  from take_next_SomeD [OF s] obtain i where i: "i < length (ir_table c)" "ir_table c ! i = snap" "ip_dirty snap" by blast
  then have "work_ok (ir_table c) snap" if "table_ok (ir_submits c) (ir_table c)"
    using that unfolding table_ok_def work_ok_def by blast
  with inv show ?thesis by (auto simp: identity_inv_def histories_ok_def)
qed

lemma finish_inv:
  assumes inv: "identity_inv c" and w: "ir_work c = Some snap"
  shows "identity_inv (c\<lparr>ir_table := identity_complete snap True (ir_table c), ir_work := None,
           ir_settled := (ir_settled c)(ip_device_id snap := Some (pending_identity snap))\<rparr>)"
proof (cases "ir_submits c < 2 ^ 32")
  case True
  let ?P = "ir_table c" and ?j = "ip_device_id snap" and ?a = "pending_identity snap"
  let ?Q = "\<lambda>p. ip_dirty p \<and> ip_generation p = ip_generation snap \<and> ip_device_id p = ?j"
  let ?c = "c\<lparr>ir_table := identity_complete snap True ?P, ir_work := None, ir_settled := (ir_settled c)(?j := Some ?a)\<rparr>"
  have ok: "table_ok (ir_submits c) ?P" and hist: "histories_ok c" and wk: "work_ok ?P snap"
    using inv True w by (auto simp: identity_inv_def)
  obtain i where i: "i < length ?P" "used (?P ! i)" "ip_dirty (?P ! i)" "ip_device_id (?P ! i) = ?j"
    "ip_generation (?P ! i) = ip_generation snap \<longrightarrow> pending_identity (?P ! i) = ?a"
    using wk by (auto simp: work_ok_def)
  have only: "k = i" if "k < length ?P" "used (?P ! k)" "ip_device_id (?P ! k) = ?j" for k
    using ok i that unfolding table_ok_def by metis
  have table: "identity_complete snap True ?P =
      (if ip_generation (?P ! i) = ip_generation snap then ?P[i := (?P ! i)\<lparr>ip_dirty := False\<rparr>] else ?P)"
  proof (cases "find_index ?Q ?P")
    case None
    then have "\<not> ?Q (?P ! i)" using i(1) unfolding find_index_None by (metis nth_mem)
    then have "ip_generation (?P ! i) \<noteq> ip_generation snap" using i by simp
    with None show ?thesis by (simp add: identity_complete_def)
  next
    case (Some k)
    note k = find_index_SomeD [OF Some]
    have "used (?P ! k)" using ok k by (simp add: table_ok_def)
    with only k have "k = i" by simp
    with Some k show ?thesis by (simp add: identity_complete_def)
  qed
  have nth: "ip_device_id (identity_complete snap True ?P ! k) = ip_device_id (?P ! k)"
    "pending_identity (identity_complete snap True ?P ! k) = pending_identity (?P ! k)"
    "ip_generation (identity_complete snap True ?P ! k) = ip_generation (?P ! k)"
    "used (identity_complete snap True ?P ! k) = used (?P ! k)"
    "ip_dirty (identity_complete snap True ?P ! k) = (ip_dirty (?P ! k) \<and> \<not> (k = i \<and> ip_generation (?P ! i) = ip_generation snap))"
    if "k < length ?P" for k
    using that i by (auto simp: table nth_list_update used_def pending_identity_def)
  have len: "length (identity_complete snap True ?P) = length ?P" by (simp add: table)
  have "table_ok (ir_submits c) (identity_complete snap True ?P)"
    using ok unfolding table_ok_def len by (simp add: nth)
  moreover have "histories_ok ?c"
    unfolding histories_ok_def
  proof (intro allI impI)
    fix j a assume l: "ir_last ?c j = Some a"
    then have "ir_last c j = Some a" by simp
    from histories_okD [OF hist this] obtain k where k: "k < length ?P" "used (?P ! k)" "ip_device_id (?P ! k) = j"
      "pending_identity (?P ! k) = a" "ip_dirty (?P ! k) \<or> ir_settled c j = Some a" by blast
    have "ip_dirty (identity_complete snap True ?P ! k) \<or> ((ir_settled c)(?j := Some ?a)) j = Some a"
    proof (cases "k = i")
      case True
      then show ?thesis using i k nth(5) [OF i(1)] by auto
    next
      case False
      with only k have "j \<noteq> ?j" by blast
      with False k nth(5) [OF k(1)] show ?thesis by auto
    qed
    with k show "\<exists>i<length (ir_table ?c). let p = ir_table ?c ! i in
        used p \<and> ip_device_id p = j \<and> pending_identity p = a \<and> (ip_dirty p \<or> ir_settled ?c j = Some a)"
      by (intro exI [of _ k]) (simp add: len nth Let_def)
  qed
  ultimately show ?thesis by (simp add: identity_inv_def)
qed (simp add: identity_inv_def)

lemma identity_step_inv: "identity_step c d \<Longrightarrow> identity_inv c \<Longrightarrow> identity_inv d"
proof (induction rule: identity_step.induct)
  case (submit j a c P')
  then show ?case by (intro identity_submit_inv)
next
  case (take c snap)
  then show ?case by (intro take_inv)
next
  case (finish c snap r)
  then show ?case by (intro finish_inv)
next
  case (retry c snap r)
  then show ?case by (auto simp: identity_inv_def histories_ok_def)
qed

lemma identity_boot_inv: "identity_start c \<Longrightarrow> identity_inv c"
  by (auto simp: identity_start_def identity_inv_def table_ok_def histories_ok_def identity_boot_def zero_identity_def used_def)

interpretation idr: step_system identity_start identity_step identity_inv
  by unfold_locales (auto intro: identity_boot_inv identity_step_inv)

section \<open>Properties\<close>

text \<open>
  C16. Whatever the interleaving of the callbacks that submit identities and the worker that writes them,
  the last identity accepted for a device is either still marked for writing or is the last one whose
  write ended for that device: an update that arrives while an older one is being written is not lost. This
  holds for the first \<open>2^32 - 1\<close> submissions, after which the generations may repeat.
\<close>

theorem latest_identity_is_not_lost:
  assumes "identity_start c0" and "identity_step\<^sup>*\<^sup>* c0 c" and "ir_submits c < 2 ^ 32" and "ir_last c j = Some a"
  shows "(\<exists>p\<in>set (ir_table c). ip_device_id p = j \<and> pending_identity p = a \<and> ip_dirty p) \<or> ir_settled c j = Some a"
proof -
  have "histories_ok c" using idr.inv_reachable [OF assms(1,2)] assms(3) by (simp add: identity_inv_def)
  from histories_okD [OF this assms(4)] show ?thesis by (metis nth_mem)
qed

text \<open>A run of submissions alone.\<close>

fun submit_all :: "(string \<times> identity) list \<Rightarrow> identity_run \<Rightarrow> identity_run option" where
  "submit_all [] c = Some c"
| "submit_all ((j, a) # js) c =
     (case ble_central_identity_submit True (Some j) (Some a) (ir_table c) of
        (P', ok) \<Rightarrow>
          if ok \<and> length j < DEVICE_ID_MAX_LEN
          then submit_all js (c\<lparr>ir_table := P', ir_last := (ir_last c)(j := Some a), ir_submits := ir_submits c + 1\<rparr>)
          else None)"

lemma submit_all_path: "submit_all js c = Some d \<Longrightarrow> identity_step\<^sup>*\<^sup>* c d"
proof (induction js c rule: submit_all.induct)
  case (2 j a js c)
  then show ?case
    by (auto split: prod.splits if_splits intro: converse_rtranclp_into_rtranclp identity_step.submit)
qed simp

definition identity_init :: identity_run where
  "identity_init =
     \<lparr>ir_table = identity_boot, ir_work = None, ir_last = Map.empty, ir_settled = Map.empty, ir_submits = 0\<rparr>"

lemma identity_init_start [simp]: "identity_start identity_init"
  by (simp add: identity_start_def identity_init_def)

lemma submit_twice:
  "\<exists>d. submit_all [(''a'', 0, [1]), (''a'', 0, [2])] identity_init = Some d \<and> ir_last d ''a'' = Some (0, [2]) \<and>
       ir_submits d = 2"
  by (simp add: identity_init_def ble_central_identity_submit_def pending_slot_def identity_boot_def zero_identity_def
      numeral_eq_Suc)

theorem latest_identity_is_not_lost_witness:
  "\<exists>d. identity_step\<^sup>*\<^sup>* identity_init d \<and> ir_last d ''a'' = Some (0, [2]) \<and>
     ((\<exists>p\<in>set (ir_table d). ip_device_id p = ''a'' \<and> pending_identity p = (0, [2]) \<and> ip_dirty p) \<or>
      ir_settled d ''a'' = Some (0, [2]))"
proof -
  obtain d where d: "submit_all [(''a'', 0, [1]), (''a'', 0, [2])] identity_init = Some d"
    "ir_last d ''a'' = Some (0, [2])" "ir_submits d = 2"
    using submit_twice by blast
  note path = submit_all_path [OF d(1)]
  from latest_identity_is_not_lost [OF identity_init_start path _ d(2)] d(2,3) path show ?thesis by auto
qed

text \<open>
  C40. The table never gives an entry back: once sixteen different devices have left an identity, the
  identity of any other device is refused from then on, although all sixteen may long be written and their
  devices removed. Its address is then never stored, and the device is not reconnected after a restart.
\<close>

theorem identity_table_fills_up:
  assumes "identity_start c0" and "identity_step\<^sup>*\<^sup>* c0 c" and "ir_submits c < 2 ^ 32"
    and "distinct js" and "length js = DEVICE_STORE_MAX_DEVICES" and "\<forall>k\<in>set js. ir_last c k \<noteq> None" and "j \<notin> set js"
  shows "ble_central_identity_submit True (Some j) (Some a) (ir_table c) = (ir_table c, False)"
proof -
  let ?P = "ir_table c"
  have ok: "table_ok (ir_submits c) ?P" and hist: "histories_ok c"
    using idr.inv_reachable [OF assms(1,2)] assms(3) by (simp_all add: identity_inv_def)
  let ?f = "\<lambda>i. ip_device_id (?P ! i)"
  have "set js \<subseteq> ?f ` {i. i < length ?P \<and> used (?P ! i)}"
  proof
    fix k assume "k \<in> set js"
    with assms(6) obtain b where "ir_last c k = Some b" by auto
    from histories_okD [OF hist this] show "k \<in> ?f ` {i. i < length ?P \<and> used (?P ! i)}" by blast
  qed
  then have ids: "card (set js) \<le> card (?f ` {i. i < length ?P \<and> used (?P ! i)})" by (intro card_mono) auto
  also have "\<dots> \<le> card {i. i < length ?P \<and> used (?P ! i)}" by (intro card_image_le) simp
  finally have "DEVICE_STORE_MAX_DEVICES \<le> card {i. i < length ?P \<and> used (?P ! i)}"
    using assms(4,5) by (simp add: distinct_card)
  moreover have len: "length ?P = DEVICE_STORE_MAX_DEVICES" using ok by (simp add: table_ok_def)
  ultimately have all: "{i. i < length ?P \<and> used (?P ! i)} = {..<length ?P}"
    by (intro card_seteq) auto
  have "?f ` {..<length ?P} = set js"
    using card_seteq [of "?f ` {..<length ?P}" "set js"] \<open>set js \<subseteq> _\<close> all len assms(4,5) card_image_le [of "{..<length ?P}" ?f]
    by (auto simp: distinct_card)
  then have taken: "used p \<and> ip_device_id p \<noteq> j" if "p \<in> set ?P" for p
  proof -
    from that obtain i where i: "i < length ?P" "p = ?P ! i" by (metis in_set_conv_nth)
    then have "i \<in> {i. i < length ?P \<and> used (?P ! i)}" "?f i \<in> ?f ` {..<length ?P}" unfolding all by auto
    with i \<open>?f ` _ = set js\<close> assms(7) show ?thesis by auto
  qed
  then have "find_index (\<lambda>p. (ip_dirty p \<or> 0 < ip_generation p) \<and> ip_device_id p = j) ?P = None"
    and "find_index (\<lambda>p. ip_generation p = 0) ?P = None"
    by (force simp: find_index_None used_def)+
  then show ?thesis by (simp add: ble_central_identity_submit_def pending_slot_def)
qed

lemma sixteen_devices:
  "\<exists>d. submit_all (map (\<lambda>k. ([k], 0, [1])) ''abcdefghijklmnop'') identity_init = Some d \<and> ir_submits d = 16 \<and>
       (\<forall>k\<in>set ''abcdefghijklmnop''. ir_last d [k] \<noteq> None)"
  by (simp add: identity_init_def ble_central_identity_submit_def pending_slot_def identity_boot_def zero_identity_def
      numeral_eq_Suc)

theorem identity_table_fills_up_witness:
  "\<exists>d. identity_step\<^sup>*\<^sup>* identity_init d \<and>
     ble_central_identity_submit True (Some ''new'') (Some (0, [1])) (ir_table d) = (ir_table d, False)"
proof -
  obtain d where d: "submit_all (map (\<lambda>k. ([k], 0, [1])) ''abcdefghijklmnop'') identity_init = Some d"
    "ir_submits d = 16" "\<forall>k\<in>set ''abcdefghijklmnop''. ir_last d [k] \<noteq> None"
    using sixteen_devices by blast
  note path = submit_all_path [OF d(1)]
  have "distinct (map (\<lambda>k. [k]) ''abcdefghijklmnop'')" "length (map (\<lambda>k. [k]) ''abcdefghijklmnop'') = DEVICE_STORE_MAX_DEVICES"
    "''new'' \<notin> set (map (\<lambda>k. [k]) ''abcdefghijklmnop'')" by simp_all
  with identity_table_fills_up [OF identity_init_start path _ _ _ _ , of "map (\<lambda>k. [k]) ''abcdefghijklmnop''" "''new''" "(0, [1])"]
    d(2,3) path show ?thesis by auto
qed

end
