(* ===== verification/Ble_Props.thy ===== *)
theory Ble_Props
  imports Ble_Ready Ble_Notify Ble_Identity Cbor_Props
begin

text \<open>
  The properties of the BLE central: the pairing of slots and devices over every interleaving, late
  callbacks, the fairness of the reconnect schedule, what a ready link has, the delivery of notifications,
  and three situations in which the tables say something else than the link.
\<close>

section \<open>Slots and devices\<close>

text \<open>Any interleaving of single critical sections with whole calls and callbacks.\<close>

definition central_run :: "ble_state \<Rightarrow> ble_state \<Rightarrow> bool" where
  "central_run = (\<lambda>s t. ble_step s t \<or> central_step s t)\<^sup>*\<^sup>*"

lemma run_inv: "central_run s t \<Longrightarrow> ble_inv s \<Longrightarrow> ble_inv t"
  unfolding central_run_def
  by (induction rule: rtranclp_induct) (auto intro: bl.inv_step central_inv)

lemma run_event: "central_run s t \<Longrightarrow> central_run s (fst (ble_central_gap_event_handler env ev x t))"
  unfolding central_run_def by (erule rtranclp.rtrancl_into_rtrancl) (simp add: central_step.event)

text \<open>One device that is registered, after the host stack has come up.\<close>

definition demo_store :: "device_entry list" where
  "demo_store = [zero_entry\<lparr>de_device_id := ''lamp'', de_has_ble_identity := True\<rparr>]"

definition ble_demo_start :: ble_state where
  "ble_demo_start = on_ble_host_sync HS_OK (ble_init_state demo_store)"

definition demo_ble_env :: ble_env where
  "demo_ble_env = \<lparr>be_lock = (\<lambda>_. True), be_now = (\<lambda>_. 5000), be_rc = HS_OK, be_peer = None, be_disc_active = False,
     be_ready_cb = True, be_disconnect_cb = True\<rparr>"

definition demo_connecting :: ble_state where
  "demo_connecting = fst (supervisor_turn demo_ble_env ble_demo_start)"

lemma demo_boot: "ble_boot (ble_init_state demo_store)"
  unfolding ble_boot_def by (rule exI [of _ demo_store]) (simp add: demo_store_def)

lemma ble_demo_run: "central_run (ble_init_state demo_store) ble_demo_start" "central_run ble_demo_start demo_connecting"
  unfolding central_run_def ble_demo_start_def demo_connecting_def
  by (auto intro: central_step.call central_call.sync central_call.supervisor)

lemma demo_connected: "central_run (ble_init_state demo_store) demo_connecting"
  using ble_demo_run unfolding central_run_def by (rule rtranclp_trans)



section \<open>Late callbacks\<close>

lemma dead_context:
  assumes "\<not> ble_ref_valid_unlocked s (bx_ref (bl_ctxs s ! x))"
  shows "ble_state_ctx_snapshot lk x s = None"
  using assms by (simp add: ble_state_ctx_snapshot_def Let_def)

lemma same_tables_stale [simp]:
  "bl_devices (ble_central_metrics_stale_callback lk s) = bl_devices s"
  by (simp add: ble_central_metrics_stale_callback_def metric_call_def)

text \<open>
  C15. A context whose connection is over does nothing any more. Once a reference is not valid, no
  sequence of fewer than \<open>2^32\<close> steps makes it valid again, whoever uses its slot meanwhile, and then every
  GAP event and every GATT callback that comes with a context of that reference leaves the slots and the
  devices as they are.
\<close>

theorem late_callbacks_are_ignored:
  assumes "ble_boot s0" and "central_run s0 s" and "\<not> ble_ref_valid_unlocked s ref"
    and "(ble_step ^^ n) s t" and "unat (bc_generation (conn s (rf_slot_index ref)) - rf_generation ref) + n < 2 ^ 32"
    and "ble_ctx_ref x t = ref"
    and "u \<in> {fst (ble_central_gap_event_handler env ev x t), fst (on_service_discovered env x h st svc t),
              fst (on_characteristic_discovered env x h st chr t), fst (on_descriptor_discovered env x h st v dsc t),
              fst (on_subscribe_write env x h st t)}"
  shows "\<not> ble_ref_valid_unlocked t ref \<and> bl_connections u = bl_connections t \<and> bl_devices u = bl_devices t"
proof -
  have inv: "ble_inv s" by (rule run_inv [OF assms(2) inv_boot [OF assms(1)]])
  have dead: "\<not> ble_ref_valid_unlocked t ref" by (rule dead_stays_dead [OF assms(4) inv assms(3,5)])
  then have none: "ble_state_ctx_snapshot lk x t = None" for lk
    using assms(6) by (intro dead_context) (simp add: ble_ctx_ref_def)
  have gatt: "gatt_snapshot env x h t = None" by (simp add: gatt_snapshot_def none)
  have gap: "gap_ctx_snapshot env x g t = (ble_central_metrics_stale_callback (be_lock env 1) t, None)" for g
    by (simp add: gap_ctx_snapshot_def none)
  have "bl_connections (fst (ble_central_gap_event_handler env ev x t)) = bl_connections t \<and>
        bl_devices (fst (ble_central_gap_event_handler env ev x t)) = bl_devices t"
    by (cases ev) (auto simp: ble_central_gap_event_handler_def gap none Let_def)
  with assms(7) dead show ?thesis
    by (auto simp: on_service_discovered_def on_characteristic_discovered_def on_descriptor_discovered_def
        on_subscribe_write_def gatt)
qed

text \<open>The connection attempt of \<open>demo_connecting\<close> fails; its context is then used once more.\<close>

definition demo_failed :: ble_state where
  "demo_failed = fst (ble_central_gap_event_handler demo_ble_env (GapEventConnect (HS_ERROR 1) 0) 0 demo_connecting)"

theorem late_callbacks_are_ignored_witness:
  "bl_connections (fst (ble_central_gap_event_handler demo_ble_env (GapEventConnect HS_OK 7) 0 demo_failed)) =
     bl_connections demo_failed"
proof -
  have run: "central_run (ble_init_state demo_store) demo_failed"
    unfolding demo_failed_def by (rule run_event [OF demo_connected])
  have dead: "\<not> ble_ref_valid_unlocked demo_failed (ble_ctx_ref 0 demo_failed)" by code_simp
  have "bc_generation (conn demo_failed (rf_slot_index (ble_ctx_ref 0 demo_failed))) =
      rf_generation (ble_ctx_ref 0 demo_failed)" by code_simp
  then have room: "unat (bc_generation (conn demo_failed (rf_slot_index (ble_ctx_ref 0 demo_failed))) -
      rf_generation (ble_ctx_ref 0 demo_failed)) + 0 < 2 ^ 32" by simp
  have "(ble_step ^^ 0) demo_failed demo_failed" by simp
  from late_callbacks_are_ignored [OF demo_boot run dead this room refl, where env = demo_ble_env and
      ev = "GapEventConnect HS_OK 7" and u = "fst (ble_central_gap_event_handler demo_ble_env (GapEventConnect HS_OK 7) 0 demo_failed)"]
  show ?thesis by simp
qed

section \<open>The reconnect schedule\<close>

lemma only_schedule_moves_cursor:
  "table_step s t \<Longrightarrow> bl_cursor t = bl_cursor s \<or> (\<exists>lk now. t = fst (ble_scheduler_next_device lk now s))"
proof (induction rule: table_step.induct)
  case (next_device s lk now)
  then show ?case by blast
qed (auto simp: ble_state_reserve_connection_def ble_conn_prepare_new_lifetime_unlocked_def ble_state_rollback_connection_start_def
      detach_device_def free_owned_slot_def ble_conn_reset_to_free_unlocked_def ble_state_on_disconnect_def
      ble_state_mark_disconnecting_def ble_state_update_mtu_def ble_state_begin_discovery_def ble_state_set_service_range_def
      ble_state_handle_host_reset_def ble_host_set_ready_def ble_state_ctx_acquire_def ble_state_ctx_release_by_ref_def
      ble_state_ctx_update_handle_def ble_runtime_find_or_register_def ble_runtime_register_unlocked_def
      ble_runtime_set_peer_addr_def ble_runtime_finalize_remove_def ble_scheduler_note_success_def ble_scheduler_note_failure_def
      ble_state_reset_slot_free_unlocked_def disconnect_link_def forget_link_def map_simps Let_def split: option.splits)

text \<open>How far device \<open>d\<close> is ahead of the cursor.\<close>

definition ahead :: "nat \<Rightarrow> nat \<Rightarrow> nat" where
  "ahead d c = (d + DEVICE_STORE_MAX_DEVICES - c) mod DEVICE_STORE_MAX_DEVICES"

lemma scan_order_nth [simp]: "n < DEVICE_STORE_MAX_DEVICES \<Longrightarrow> scan_order c ! n = (c + n) mod DEVICE_STORE_MAX_DEVICES"
  "length (scan_order c) = DEVICE_STORE_MAX_DEVICES"
  by (simp_all add: scan_order_def)

lemma wrap_once: "n < 2 * DEVICE_STORE_MAX_DEVICES \<Longrightarrow>
    n mod DEVICE_STORE_MAX_DEVICES = (if n < DEVICE_STORE_MAX_DEVICES then n else n - DEVICE_STORE_MAX_DEVICES)"
  by (simp add: mod_if)

lemma ahead_if:
  assumes "c < DEVICE_STORE_MAX_DEVICES" "d < DEVICE_STORE_MAX_DEVICES"
  shows "ahead d c = (if c \<le> d then d - c else d + DEVICE_STORE_MAX_DEVICES - c)"
  using assms wrap_once [of "d + DEVICE_STORE_MAX_DEVICES - c"] by (simp add: ahead_def)

lemma ahead_position:
  assumes "c < DEVICE_STORE_MAX_DEVICES" "d < DEVICE_STORE_MAX_DEVICES"
  shows "ahead d c < DEVICE_STORE_MAX_DEVICES" "(c + ahead d c) mod DEVICE_STORE_MAX_DEVICES = d"
proof -
  show "ahead d c < DEVICE_STORE_MAX_DEVICES" by (simp add: ahead_def)
  have "c + ahead d c = (if c \<le> d then d else d + DEVICE_STORE_MAX_DEVICES)" using assms by (simp add: ahead_if)
  then show "(c + ahead d c) mod DEVICE_STORE_MAX_DEVICES = d" using assms(2) by simp
qed

lemma ahead_after:
  assumes "c < DEVICE_STORE_MAX_DEVICES" "d < DEVICE_STORE_MAX_DEVICES" "n < ahead d c"
  shows "ahead d (((c + n) mod DEVICE_STORE_MAX_DEVICES + 1) mod DEVICE_STORE_MAX_DEVICES) < ahead d c"
proof -
  have "((c + n) mod DEVICE_STORE_MAX_DEVICES + 1) mod DEVICE_STORE_MAX_DEVICES = (c + n + 1) mod DEVICE_STORE_MAX_DEVICES"
    by (simp add: mod_simps)
  moreover have "c + n + 1 < 2 * DEVICE_STORE_MAX_DEVICES" using assms by (simp add: ahead_if split: if_splits)
  moreover have "(c + n + 1) mod DEVICE_STORE_MAX_DEVICES < DEVICE_STORE_MAX_DEVICES" by simp
  ultimately have e: "((c + n) mod DEVICE_STORE_MAX_DEVICES + 1) mod DEVICE_STORE_MAX_DEVICES =
      (if c + n + 1 < DEVICE_STORE_MAX_DEVICES then c + n + 1 else c + n + 1 - DEVICE_STORE_MAX_DEVICES)"
    using wrap_once [of "c + n + 1"] by simp
  show ?thesis
    unfolding e using assms by (cases "c \<le> d"; cases "c + n + 1 < DEVICE_STORE_MAX_DEVICES") (simp_all add: ahead_if, arith+)
qed

lemma next_device_progress:
  assumes c: "bl_cursor s < DEVICE_STORE_MAX_DEVICES" and d: "d < DEVICE_STORE_MAX_DEVICES" "connectable now (dev s d)"
  shows "snd (ble_scheduler_next_device True now s) = Inr d \<or>
     (ahead d (bl_cursor (fst (ble_scheduler_next_device True now s))) < ahead d (bl_cursor s) \<and>
      bl_cursor (fst (ble_scheduler_next_device True now s)) < DEVICE_STORE_MAX_DEVICES)"
proof -
  let ?c = "bl_cursor s" let ?P = "\<lambda>i. connectable now (dev s i)"
  note a = ahead_position [OF c d(1)]
  have "?P (scan_order ?c ! ahead d ?c)" using a d by simp
  then have "\<exists>x\<in>set (scan_order ?c). ?P x" using a(1) by (metis nth_mem scan_order_nth(2))
  then obtain n where n: "find_index ?P (scan_order ?c) = Some n" using find_index_ex [of ?P "scan_order ?c"] by blast
  note f = find_index_SomeD [OF n]
  have le: "n \<le> ahead d ?c" using f \<open>?P (scan_order ?c ! ahead d ?c)\<close> by (metis not_le)
  have sel: "ble_scheduler_next_device True now s =
      (s\<lparr>bl_cursor := ((?c + n) mod DEVICE_STORE_MAX_DEVICES + 1) mod DEVICE_STORE_MAX_DEVICES\<rparr>,
       Inr ((?c + n) mod DEVICE_STORE_MAX_DEVICES))"
    using n f by (simp add: ble_scheduler_next_device_def Let_def)
  show ?thesis
  proof (cases "n = ahead d ?c")
    case True
    with sel a show ?thesis by simp
  next
    case False
    with le have "n < ahead d ?c" by simp
    with ahead_after [OF c d(1) this] sel show ?thesis by simp
  qed
qed

text \<open>
  C29. The reconnect schedule is fair. Take sixteen calls of the schedule, at any times, with anything
  happening between them but another call of it: a device that can be connected at each of these calls is
  selected by one of them, whatever the other devices ask for.
\<close>

theorem reconnect_schedule_is_fair:
  assumes "bl_cursor (ss 0) < DEVICE_STORE_MAX_DEVICES" and "d < DEVICE_STORE_MAX_DEVICES"
    and "\<forall>k<DEVICE_STORE_MAX_DEVICES. connectable (now k) (dev (ss k) d)"
    and "\<forall>k<DEVICE_STORE_MAX_DEVICES - 1. bl_cursor (ss (Suc k)) = bl_cursor (fst (ble_scheduler_next_device True (now k) (ss k)))"
  shows "\<exists>k<DEVICE_STORE_MAX_DEVICES. snd (ble_scheduler_next_device True (now k) (ss k)) = Inr d"
proof (rule ccontr)
  assume none: "\<not> ?thesis"
  have "bl_cursor (ss k) < DEVICE_STORE_MAX_DEVICES \<and> ahead d (bl_cursor (ss k)) + k < DEVICE_STORE_MAX_DEVICES"
    if "k < DEVICE_STORE_MAX_DEVICES" for k
    using that
  proof (induction k)
    case 0
    then show ?case using ahead_position(1) [OF assms(1,2)] assms(1) by simp
  next
    case (Suc k)
    then have IH: "bl_cursor (ss k) < DEVICE_STORE_MAX_DEVICES" "ahead d (bl_cursor (ss k)) + k < DEVICE_STORE_MAX_DEVICES" by auto
    have "snd (ble_scheduler_next_device True (now k) (ss k)) \<noteq> Inr d" using none Suc.prems by auto
    with next_device_progress [OF IH(1) assms(2), of "now k"] assms(3,4) Suc.prems IH(2) show ?case by auto
  qed
  from this [of 15] have z: "bl_cursor (ss 15) < DEVICE_STORE_MAX_DEVICES" "ahead d (bl_cursor (ss 15)) = 0" by auto
  with next_device_progress [OF z(1) assms(2), of "now 15"] assms(3) none show False by auto
qed

theorem reconnect_schedule_is_fair_witness:
  "\<exists>k<DEVICE_STORE_MAX_DEVICES. snd (ble_scheduler_next_device True 5000
     (ble_demo_start\<lparr>bl_cursor := (if k = 0 then 0 else 1)\<rparr>)) = Inr 0"
proof -
  let ?ss = "\<lambda>k :: nat. ble_demo_start\<lparr>bl_cursor := (if k = 0 then 0 else 1)\<rparr>"
  have con: "connectable 5000 (dev (?ss k) 0)" for k
  proof -
    have "connectable 5000 (dev ble_demo_start 0)" by code_simp
    then show ?thesis by simp
  qed
  have sel: "bl_cursor (fst (ble_scheduler_next_device True 5000 (ble_demo_start\<lparr>bl_cursor := 0\<rparr>))) = 1"
    "bl_cursor (fst (ble_scheduler_next_device True 5000 (ble_demo_start\<lparr>bl_cursor := 1\<rparr>))) = 1" by code_simp+
  show ?thesis
    by (rule reconnect_schedule_is_fair [of ?ss 0 "\<lambda>_. 5000"]) (use con sel in auto)
qed

section \<open>Ready links\<close>

text \<open>A script of callbacks, for runs on concrete inputs.\<close>

datatype link_move =
    MoveEvent ble_env gap_event nat
  | MoveService ble_env nat u16 hs_rc "(u16 \<times> u16) option"
  | MoveChar ble_env nat u16 hs_rc "(u16 \<times> bool \<times> bool \<times> u16) option"
  | MoveDescriptor ble_env nat u16 hs_rc u16 "(bool \<times> u16) option"
  | MoveSubscribed ble_env nat u16 hs_rc

fun connect_handle :: "gap_event \<Rightarrow> u16 option" where
  "connect_handle (GapEventConnect HS_OK h) = Some h"
| "connect_handle ev = None"

definition fresh_code :: "ble_state \<Rightarrow> pending_proc list \<Rightarrow> u16 \<Rightarrow> bool" where
  "fresh_code s P h \<longleftrightarrow>
     h \<noteq> BLE_HS_CONN_HANDLE_NONE \<and> list_all (\<lambda>p. snd (snd p) \<noteq> h) P \<and>
     list_all (\<lambda>c. bc_state c = BLE_CONN_FREE \<or> bc_conn_handle c \<noteq> h) (bl_connections s)"

lemma fresh_codeD: "fresh_code s P h \<Longrightarrow> fresh_handle s P h"
  by (auto simp: fresh_code_def fresh_handle_def list_all_iff)

fun play :: "link_move list \<Rightarrow> ble_state \<times> pending_proc list \<Rightarrow> (ble_state \<times> pending_proc list) option" where
  "play [] c = Some c"
| "play (MoveEvent env ev x # ms) (s, P) =
     (case ble_central_gap_event_handler env ev x s of
        (t, r, out) \<Rightarrow>
          if (case connect_handle ev of None \<Rightarrow> True | Some h \<Rightarrow> fresh_code s P h) then play ms (t, procs out @ P) else None)"
| "play (MoveService env x h st svc # ms) (s, P) =
     (case on_service_discovered env x h st svc s of
        (t, out) \<Rightarrow> if (PROC_SERVICE, x, h) \<in> set P then play ms (t, procs out @ P) else None)"
| "play (MoveChar env x h st chr # ms) (s, P) =
     (case on_characteristic_discovered env x h st chr s of
        (t, out) \<Rightarrow> if (PROC_CHARS, x, h) \<in> set P \<and> (case chr of None \<Rightarrow> True | Some (u, w, n, v) \<Rightarrow> v \<noteq> 0)
                   then play ms (t, procs out @ P) else None)"
| "play (MoveDescriptor env x h st v dsc # ms) (s, P) =
     (case on_descriptor_discovered env x h st v dsc s of
        (t, out) \<Rightarrow> if (PROC_DESCRIPTORS, x, h) \<in> set P \<and> (case dsc of None \<Rightarrow> True | Some (b, d) \<Rightarrow> d \<noteq> 0)
                   then play ms (t, procs out @ P) else None)"
| "play (MoveSubscribed env x h st # ms) (s, P) =
     (case on_subscribe_write env x h st s of
        (t, out) \<Rightarrow> if (PROC_SUBSCRIBE, x, h) \<in> set P then play ms (t, procs out @ P) else None)"

lemmas first_step = converse_rtranclp_into_rtranclp [of gatt_step]

lemma play_run: "play ms c = Some d \<Longrightarrow> gatt_step\<^sup>*\<^sup>* c d"
proof (induction ms c rule: play.induct)
  case (2 env ev x ms s P)
  obtain t r out where e: "ble_central_gap_event_handler env ev x s = (t, r, out)" by (metis surj_pair)
  from 2(2) have c: "case connect_handle ev of None \<Rightarrow> True | Some h \<Rightarrow> fresh_code s P h" and p: "play ms (t, procs out @ P) = Some d"
    by (simp_all add: e split: if_splits)
  have "gatt_step (s, P) (t, procs out @ P)"
    by (rule gatt_step.event [OF e]) (use c fresh_codeD in simp)
  from first_step [OF this 2(1) [OF e [symmetric] refl c p]] show ?case .
next
  case (3 env x h st svc ms s P)
  obtain t out where e: "on_service_discovered env x h st svc s = (t, out)" by (metis surj_pair)
  from 3(2) have c: "(PROC_SERVICE, x, h) \<in> set P" and p: "play ms (t, procs out @ P) = Some d"
    by (simp_all add: e split: if_splits)
  have "gatt_step (s, P) (t, procs out @ P)" by (rule gatt_step.service [OF _ e]) (use c in auto)
  from first_step [OF this 3(1) [OF e [symmetric] c p]] show ?case .
next
  case (4 env x h st chr ms s P)
  obtain t out where e: "on_characteristic_discovered env x h st chr s = (t, out)" by (metis surj_pair)
  from 4(2) have c: "(PROC_CHARS, x, h) \<in> set P \<and> (case chr of None \<Rightarrow> True | Some (u, w, n, v) \<Rightarrow> v \<noteq> 0)" and p: "play ms (t, procs out @ P) = Some d"
    by (simp_all add: e split: if_splits)
  have "gatt_step (s, P) (t, procs out @ P)" by (rule gatt_step.characteristic [OF _ e]) (use c in auto)
  from first_step [OF this 4(1) [OF e [symmetric] c p]] show ?case .
next
  case (5 env x h st v dsc ms s P)
  obtain t out where e: "on_descriptor_discovered env x h st v dsc s = (t, out)" by (metis surj_pair)
  from 5(2) have c: "(PROC_DESCRIPTORS, x, h) \<in> set P \<and> (case dsc of None \<Rightarrow> True | Some (b, d) \<Rightarrow> d \<noteq> 0)" and p: "play ms (t, procs out @ P) = Some d"
    by (simp_all add: e split: if_splits)
  have "gatt_step (s, P) (t, procs out @ P)" by (rule gatt_step.descriptor [OF _ e]) (use c in auto)
  from first_step [OF this 5(1) [OF e [symmetric] c p]] show ?case .
next
  case (6 env x h st ms s P)
  obtain t out where e: "on_subscribe_write env x h st s = (t, out)" by (metis surj_pair)
  from 6(2) have c: "(PROC_SUBSCRIBE, x, h) \<in> set P" and p: "play ms (t, procs out @ P) = Some d"
    by (simp_all add: e split: if_splits)
  have "gatt_step (s, P) (t, procs out @ P)" by (rule gatt_step.subscribed [OF _ e]) (use c in auto)
  from first_step [OF this 6(1) [OF e [symmetric] c p]] show ?case .
qed simp

definition demo_moves :: "link_move list" where
  "demo_moves =
     [MoveEvent demo_ble_env (GapEventConnect HS_OK 7) 0, MoveEvent demo_ble_env (GapEventEncChange 7 HS_OK) 0,
      MoveService demo_ble_env 0 7 HS_OK (Some (1, 9)), MoveService demo_ble_env 0 7 BLE_HS_EDONE None,
      MoveChar demo_ble_env 0 7 HS_OK (Some (BLE_GATEWAY_COMMAND_UUID, True, False, 3)),
      MoveChar demo_ble_env 0 7 HS_OK (Some (BLE_GATEWAY_STATUS_UUID, False, True, 5)), MoveChar demo_ble_env 0 7 BLE_HS_EDONE None,
      MoveDescriptor demo_ble_env 0 7 HS_OK 5 (Some (True, 6)), MoveDescriptor demo_ble_env 0 7 BLE_HS_EDONE 5 None]"

definition demo_subscribing :: "ble_state \<times> pending_proc list" where
  "demo_subscribing = the (play demo_moves (demo_connecting, []))"

definition ble_demo_ready :: "ble_state \<times> pending_proc list" where
  "ble_demo_ready = the (play [MoveSubscribed demo_ble_env 0 7 HS_OK] demo_subscribing)"

lemma demo_gatt: "gatt_start (ble_init_state demo_store, [])" "gatt_step\<^sup>*\<^sup>* (ble_init_state demo_store, []) (demo_connecting, [])"
proof -
  show "gatt_start (ble_init_state demo_store, [])" using demo_boot by (simp add: gatt_start_def)
  have "gatt_step (ble_init_state demo_store, []) (ble_demo_start, [])" "gatt_step (ble_demo_start, []) (demo_connecting, [])"
    unfolding ble_demo_start_def demo_connecting_def by (auto intro: gatt_step.call central_call.sync central_call.supervisor)
  then show "gatt_step\<^sup>*\<^sup>* (ble_init_state demo_store, []) (demo_connecting, [])" by (meson rtranclp.simps)
qed

lemma demo_subscribing_run: "gatt_step\<^sup>*\<^sup>* (ble_init_state demo_store, []) demo_subscribing"
proof -
  have "play demo_moves (demo_connecting, []) \<noteq> None" by code_simp
  then have "play demo_moves (demo_connecting, []) = Some demo_subscribing" by (auto simp: demo_subscribing_def)
  from rtranclp_trans [OF demo_gatt(2) play_run [OF this]] show ?thesis .
qed

lemma demo_ready_run: "gatt_step\<^sup>*\<^sup>* (ble_init_state demo_store, []) ble_demo_ready"
proof -
  have "play [MoveSubscribed demo_ble_env 0 7 HS_OK] demo_subscribing \<noteq> None" by code_simp
  then have "play [MoveSubscribed demo_ble_env 0 7 HS_OK] demo_subscribing = Some ble_demo_ready" by (auto simp: ble_demo_ready_def)
  from rtranclp_trans [OF demo_subscribing_run play_run [OF this]] show ?thesis .
qed

lemma found_device:
  assumes "ble_runtime_find lk ident s = Inr d" "lk'" shows "ble_runtime_find lk' ident s = Inr d"
  using assms by (auto simp: ble_runtime_find_def split: option.splits if_splits)

lemma ready_send:
  assumes ok: "gatt_ok (s, P)" and "ble_central_is_connected env ident s"
    and "qcbor_contract Q" and "be_lock env' 0" and "be_lock env' 1"
    and "ble_central_send_command Q env' ident (Some msg) s = (s', err, out)"
  shows "err \<in> {BLE_CENTRAL_OK, BLE_CENTRAL_ERR_ENCODE, BLE_CENTRAL_ERR_MESSAGE_TOO_LARGE, BLE_CENTRAL_ERR_STACK} \<and>
    (err = BLE_CENTRAL_OK \<longrightarrow>
       (\<exists>d i buf. ble_runtime_find True ident s = Inr d \<and> bd_connection_slot (dev s d) = Some i \<and>
          bc_state (conn s i) = BLE_CONN_READY \<and>
          out = [GattWriteNoRsp (bc_conn_handle (conn s i)) (bc_command_val_handle (conn s i)) buf] \<and>
          bc_conn_handle (conn s i) \<noteq> BLE_HS_CONN_HANDLE_NONE \<and> bc_command_val_handle (conn s i) \<noteq> 0 \<and>
          length buf \<le> max_payload (bc_mtu (conn s i))))"
proof -
  from assms(2) obtain d i where f: "ident \<noteq> None" "ble_runtime_find (be_lock env 0) ident s = Inr d" "slot_of d s = Some i"
    "bc_state (conn s i) = BLE_CONN_READY"
    by (auto simp: ble_central_is_connected_def split: if_splits sum.splits option.splits)
  have i: "i < BLE_CENTRAL_MAX_CONN" "bd_connection_slot (dev s d) = Some i"
    using f(3) by (auto simp: slot_of_def split: option.splits if_splits)
  have "ready_ok (conn s i)" using ok i by (simp add: gatt_ok_def conns_ok_def)
  then have h: "bc_conn_handle (conn s i) \<noteq> BLE_HS_CONN_HANDLE_NONE" "bc_command_val_handle (conn s i) \<noteq> 0"
    using f(4) by (auto simp: ready_ok_def found_chars_def)
  have link: "command_link d s = (bc_conn_handle (conn s i), bc_command_val_handle (conn s i), bc_mtu (conn s i))"
    using f h by (simp add: command_link_def)
  have fit: "length buf \<le> GW_MSG_MAX_LEN" if "cbor_codec_encode Q (Some msg) GW_MSG_MAX_LEN = Some buf" for buf
    using that qcbor_contract.encode_fits [OF assms(3)] by (auto simp: cbor_codec_encode_def split: if_splits)
  note find = found_device [OF f(2)]
  show ?thesis
    using assms(4-6) f(1) h i f(4) fit find [of True] find [of "be_lock env' 0"]
    by (auto simp: ble_central_send_command_def link not_less split: if_splits option.splits)
qed



section \<open>Notifications\<close>

text \<open>
  C30. Notifications reach the application in the order in which they came, each at most once. For
  every sequence of arrivals and turns of the worker the calls of the callback are the messages decoded from
  an initial part of the packets that were admitted, and the rest of them are still in the queue, of which
  there are at most eight. A packet is admitted exactly when it has 1 to 256 bytes and fewer than eight are
  waiting.
\<close>

theorem notifications_delivered_in_order:
  assumes "notify_run Q ops (ns, s) = ((ns', s'), calls)" and "ns_queue ns = []" and "ns_callback ns"
  shows "\<exists>taken. admitted 0 ops = taken @ packets ns' \<and> calls = delivered Q taken \<and>
           length (ns_queue ns') \<le> BLE_NOTIFY_QUEUE_DEPTH"
  using run_delivers [OF assms(1,3)] assms(2) by (simp add: packets_def)

definition demo_notify :: notify_state where
  "demo_notify = \<lparr>ns_queue = [], ns_high_watermark = 0, ns_callback = True\<rparr>"

theorem notifications_delivered_in_order_witness:
  "\<exists>ns' s' calls taken. notify_run plain_cbor [NotifyArrives ''a'' [1], NotifyTurn, NotifyArrives ''b'' [2]] (demo_notify, ble_demo_start) =
       ((ns', s'), calls) \<and> [(''a'', [1]), (''b'', [2])] = taken @ packets ns' \<and> calls = delivered plain_cbor taken"
proof -
  obtain ns' s' calls where r: "notify_run plain_cbor [NotifyArrives ''a'' [1], NotifyTurn, NotifyArrives ''b'' [2]] (demo_notify, ble_demo_start) =
      ((ns', s'), calls)" by (metis surj_pair)
  have "admitted 0 [NotifyArrives ''a'' [1], NotifyTurn, NotifyArrives ''b'' [2]] = [(''a'', [1]), (''b'', [2])]"
    by (simp add: sound_packet_def)
  with notifications_delivered_in_order [OF r] r show ?thesis by (auto simp: demo_notify_def)
qed

section \<open>Where the tables and the links part\<close>

text \<open>
  C37. A device that is being removed can be reported as ready. \<open>ble_state_set_ready\<close> does not look at the
  state of the slot: when \<open>ble_central_forget_peer\<close> has asked for the end of a link whose last discovery
  step is still to be answered, that answer makes the slot ready again, the application is told that the
  device is ready, and commands are written to it until the disconnection comes.
\<close>

theorem ready_overrides_removal:
  assumes "ble_central_forget_peer env ident addr ty has_addr s = (t, err, [GapTerminate g])" and "ble_inv s"
    and "gatt_snapshot env' x h t = Some snap" and "bc_device_index snap = Some d" and "ble_runtime_find True ident s = Inr d"
    and "\<forall>n. be_lock env' n" and "be_ready_cb env'"
  shows "bc_state snap = BLE_CONN_DISCONNECTING \<and> bd_state (dev t d) = BLE_DEVICE_REMOVING \<and>
    (\<exists>u. on_subscribe_write env' x h HS_OK t = (u, [EmitReady (the ident)]) \<and> ble_central_is_connected env' ident u)"
proof -
  have ok: "links_ok s" and ids: "ids_ok s" using assms(2) by (auto simp: ble_inv_def)
  obtain j where j: "ident = Some j" "j \<noteq> []" using assms(1,5)
    by (cases ident) (auto simp: ble_runtime_find_def ble_central_forget_peer_def split: if_splits)
  have fd: "find_index (\<lambda>v. bd_in_use v \<and> bd_device_id v = j) (bl_devices s) = Some d"
    using assms(5) j by (auto simp: ble_runtime_find_def ble_runtime_find_unlocked_def split: option.splits)
  have d: "d < DEVICE_STORE_MAX_DEVICES" "bd_in_use (dev s d)" "bd_device_id (dev s d) = j"
    using find_index_SomeD [OF fd] ids by (auto simp: ids_ok_def)
  have short: "length j < GW_MSG_DEVICE_ID_LEN" using ids d by (auto simp: ids_ok_def)
  have fl: "forget_link d s = (t, FORGET_TERMINATE g)"
  proof (cases "forget_link d s")
    case (Pair u act)
    then show ?thesis
      using assms(1) fd j by (auto simp: ble_central_forget_peer_def ble_runtime_find_def ble_runtime_find_unlocked_def Let_def
          split: if_splits forget_action.splits option.splits)
  qed
  let ?s1 = "if bd_state (dev s d) \<noteq> BLE_DEVICE_REMOVING
             then dev_map d (\<lambda>v. v\<lparr>bd_reconnect_enabled := False, bd_state := BLE_DEVICE_REMOVING\<rparr>) s else s"
  obtain i where i: "slot_of d ?s1 = Some i" "t = conn_map i (\<lambda>c. c\<lparr>bc_state := BLE_CONN_DISCONNECTING\<rparr>) ?s1"
    using fl unfolding forget_link_def Let_def by (auto split: option.splits if_splits)
  have len: "length (bl_connections s) = BLE_CENTRAL_MAX_CONN" "length (bl_devices s) = DEVICE_STORE_MAX_DEVICES"
    using links_okD [OF ok] by blast+
  have dv: "bd_in_use (dev t e) = bd_in_use (dev s e)" "bd_device_id (dev t e) = bd_device_id (dev s e)"
    "bd_connection_slot (dev t e) = bd_connection_slot (dev s e)" if "e < DEVICE_STORE_MAX_DEVICES" for e
    using i(2) that len by (auto simp: nth_updated)
  have rem: "bd_state (dev t d) = BLE_DEVICE_REMOVING" "length (bl_devices t) = DEVICE_STORE_MAX_DEVICES"
    using i(2) d(1) len by (auto simp: nth_updated)
  have slot: "bd_connection_slot (dev t d) = Some i" "i < BLE_CENTRAL_MAX_CONN"
    using i by (auto simp: slot_of_def split: option.splits if_splits)
  let ?ref = "ble_ctx_ref x t" let ?k = "rf_slot_index ?ref"
  note sn = gatt_snapshotD [OF assms(3)]
  have tok: "links_ok t" using links_link_steps(2) [OF ok d(1)] fl by simp
  have k: "?k < BLE_CENTRAL_MAX_CONN" "bc_state (conn t ?k) \<noteq> BLE_CONN_FREE" using ref_validD sn by blast+
  obtain e where "bc_device_index (conn t ?k) = Some e" "bd_connection_slot (dev t e) = Some ?k"
    by (rule links_slot_owner [OF tok k])
  then have ki: "?k = i" using sn assms(4) slot by simp
  have st: "bc_state snap = BLE_CONN_DISCONNECTING" using sn ki i(2) slot len by (auto simp: nth_updated)
  let ?u = "ble_state_set_ready True ?ref t"
  have w: "bc_state (conn ?u i) = BLE_CONN_READY" "bl_devices ?u = bl_devices t"
    using sn ki slot links_okD(1) [OF tok] by (auto simp: ble_state_set_ready_def nth_updated)
  have "ble_runtime_get_device_id True (Some d) GW_MSG_DEVICE_ID_LEN t = Some j"
    using d short dv by (simp add: ble_runtime_get_device_id_def)
  moreover have "ble_scheduler_note_success True (Some d) n ?u = ?u" for n
    using d dv w rem by (simp add: ble_scheduler_note_success_def)
  ultimately have call: "on_subscribe_write env' x h HS_OK t = (?u, [EmitReady j])"
    using assms(3,4,6,7) j by (simp add: on_subscribe_write_def gatt_mark_ready_def ble_central_emit_ready_def)
  have "find_index (\<lambda>v. bd_in_use v \<and> bd_device_id v = j) (bl_devices ?u) = Some d"
  proof (rule find_index_SomeI)
    show "\<forall>e<d. \<not> (bd_in_use (dev ?u e) \<and> bd_device_id (dev ?u e) = j)"
      using find_index_SomeD [OF fd] dv d(1) unfolding w(2) by auto
  qed (use w dv d rem in auto)
  then have "ble_central_is_connected env' ident ?u"
    using j assms(6) slot w by (simp add: ble_central_is_connected_def ble_runtime_find_def ble_runtime_find_unlocked_def slot_of_def)
  with st call j rem show ?thesis by auto
qed

text \<open>The device of \<open>demo_subscribing\<close> is removed before the answer to its subscription.\<close>

definition demo_forgotten :: "ble_state \<times> ble_central_err \<times> ble_output list" where
  "demo_forgotten = ble_central_forget_peer demo_ble_env (Some ''lamp'') None 0 False (fst demo_subscribing)"

theorem ready_overrides_removal_witness:
  "\<exists>t u. demo_forgotten = (t, BLE_CENTRAL_OK, [GapTerminate 7]) \<and> bd_state (dev t 0) = BLE_DEVICE_REMOVING \<and>
     on_subscribe_write demo_ble_env 0 7 HS_OK t = (u, [EmitReady ''lamp'']) \<and> ble_central_is_connected demo_ble_env (Some ''lamp'') u"
proof -
  obtain t err out where dc: "demo_forgotten = (t, err, out)" using prod_cases3 by blast
  have r: "fst (snd demo_forgotten) = BLE_CENTRAL_OK" "snd (snd demo_forgotten) = [GapTerminate 7]"
    "map_option bc_device_index (gatt_snapshot demo_ble_env 0 7 (fst demo_forgotten)) = Some (Some 0)"
    "ble_runtime_find True (Some ''lamp'') (fst demo_subscribing) = Inr 0"
    by code_simp+
  obtain snap where snap: "gatt_snapshot demo_ble_env 0 7 t = Some snap" "bc_device_index snap = Some 0"
    using r(3) by (auto simp: dc)
  have inv: "ble_inv (fst demo_subscribing)"
    using gatt.inv_reachable [OF demo_gatt(1) demo_subscribing_run] by (simp add: gatt_ok_def)
  have env: "\<forall>n. be_lock demo_ble_env n" "be_ready_cb demo_ble_env" by (simp_all add: demo_ble_env_def)
  have dc': "demo_forgotten = (t, BLE_CENTRAL_OK, [GapTerminate 7])" using r(1,2) unfolding dc by simp
  from ready_overrides_removal [OF dc' [unfolded demo_forgotten_def] inv snap r(4) env] dc' show ?thesis by auto
qed

text \<open>
  A rollback that comes after its slot was given out again takes the slot away from the new owner, while
  the slot stays in use and still names it: the loop over the devices compares the slot but not the
  generation.
\<close>

lemma late_rollback_detaches_owner:
  assumes inv: "ble_inv s" and re: "reissued s ref"
  shows "\<exists>d<DEVICE_STORE_MAX_DEVICES. bc_device_index (conn s (rf_slot_index ref)) = Some d \<and>
     (let t = ble_state_rollback_connection_start True ref now s
      in conn t (rf_slot_index ref) = conn s (rf_slot_index ref) \<and> bc_state (conn t (rf_slot_index ref)) \<noteq> BLE_CONN_FREE \<and>
         bd_connection_slot (dev t d) = None)"
proof -
  let ?i = "rf_slot_index ref"
  have ok: "links_ok s" using inv by (simp add: ble_inv_def)
  from re have i: "?i < BLE_CENTRAL_MAX_CONN" "bc_state (conn s ?i) \<noteq> BLE_CONN_FREE" "\<not> ble_ref_valid_unlocked s ref"
    by (auto simp: reissued_def ble_ref_valid_unlocked_def)
  obtain d where d: "d < DEVICE_STORE_MAX_DEVICES" "bc_device_index (conn s ?i) = Some d" "bd_in_use (dev s d)"
      "bd_connection_slot (dev s d) = Some ?i"
    by (rule links_slot_owner [OF ok i(1,2)])
  have len: "length (bl_devices s) = DEVICE_STORE_MAX_DEVICES" by (rule links_okD [OF ok])
  have f: "find_index (\<lambda>v. bd_in_use v \<and> bd_connection_slot v = Some ?i) (bl_devices s) = Some d"
  proof (rule find_index_SomeI)
    have "e = d" if "e < DEVICE_STORE_MAX_DEVICES" "bd_in_use (dev s e)" "bd_connection_slot (dev s e) = Some ?i" for e
      using links_slot_unique(3) [OF ok that] d by simp
    then show "\<forall>e<d. \<not> (bd_in_use (dev s e) \<and> bd_connection_slot (dev s e) = Some ?i)"
      using d(1) by (metis less_trans order_less_irrefl)
  qed (use d len in simp_all)
  have "ble_state_rollback_connection_start True ref now s =
      count_metric (\<lambda>m. m\<lparr>bm_connect_failures := bm_connect_failures m + 1\<rparr>) (detach_device ?i now s)"
    using i(3) by (simp add: ble_state_rollback_connection_start_def free_owned_slot_def)
  with d f len i show ?thesis
    by (intro exI [of _ d]) (simp add: detach_device_def Let_def)
qed

text \<open>
  A device that was cleared has slot 0 in its record, so a caller that found it before it was cleared and
  enters its own critical section afterwards works on the link of whichever device owns slot 0.
\<close>

lemma cleared_device_reaches_slot_zero:
  assumes "dev s d = zero_ble_device" and "bc_state (conn s 0) = BLE_CONN_READY"
    and "bc_conn_handle (conn s 0) \<noteq> BLE_HS_CONN_HANDLE_NONE" and "bc_command_val_handle (conn s 0) \<noteq> 0"
  shows "command_link d s = (bc_conn_handle (conn s 0), bc_command_val_handle (conn s 0), bc_mtu (conn s 0)) \<and>
     snd (disconnect_link d s) = bc_conn_handle (conn s 0)"
  using assms by (simp add: command_link_def disconnect_link_def slot_of_def)

text \<open>The delay doubles from two seconds to thirty, until the eight-bit count of attempts wraps around.\<close>

lemma backoff_delays:
  "map (\<lambda>n. ble_backoff_delay_ms (of_nat n)) [0, 1, 2, 3, 4, 5, 255, 256] = [2000, 4000, 8000, 16000, 30000, 30000, 30000, 2000]"
  by code_simp

end
