(* ===== verification/Spec2Isabelle.thy ===== *)
theory Spec2Isabelle
  imports Board_Led Dns_Packet Device_State Command_Service Scheduler_Props Cbor_Props Schema_Adapter Settings_Props Ble_Props
begin

text \<open>
  \<^bold>\<open>A verification library for the ESP BLE gateway\<close>

  The firmware connects Bluetooth devices to a web page and to MCP clients. A device announces a schema of
  its commands and features; the gateway caches the schema, validates every command against it, sends
  the command as a CBOR frame, waits for the acknowledgement, and keeps the state that the device
  reports. The library models the components of \<open>src/components\<close> that hold this logic as HOL functions
  on the state each component keeps, one theory or group of theories for each component.

  \<^bold>\<open>Theories, in the order of the imports\<close>

  \<^item> \<open>Gw_Prelude\<close>: integer widths, error codes, C strings (\<open>strlcpy\<close>, \<open>strnlen\<close>, arrays read up to the NUL),
    searching lists by index, and the locale \<open>step_system\<close>, the interface of every state machine here:
    an invariant of the start that each step keeps holds in every reachable state.
  \<^item> \<open>Board_Button\<close>, \<open>Board_Led\<close> (\<open>board_io/board_button_fsm.c\<close>, \<open>board_pin_map.c\<close>, \<open>board_led_pattern.c\<close>):
    the factory-reset button, the pin map and the LED patterns, on 32-bit clocks that wrap.
  \<^item> \<open>Dns_Packet\<close> (\<open>wifi_provisioning/dns_packet.c\<close>): the captive-portal DNS server. Packets are byte lists
    with checked reads and writes, so that an access out of bounds would be a failure of the model.
  \<^item> \<open>Gateway_Events\<close> (\<open>gateway_events\<close>): registration of listeners and delivery of events.
  \<^item> \<open>Gw_Message\<close> (\<open>cbor_codec.h\<close>, \<open>device_command_types.h\<close>): the message and command records.
  \<^item> \<open>Device_Store_Nvs\<close>, \<open>Device_Store\<close> (\<open>device_store\<close>): the list of known devices in RAM and in flash, where
    every flash access can fail, with the migration of older layouts.
  \<^item> \<open>Device_Template\<close> (\<open>device_template\<close>): the registry of features and properties.
  \<^item> \<open>Device_Schema\<close> (\<open>device_schema.c\<close>, \<open>device_schema_validate.c\<close>, \<open>device_schema_protocol.c\<close>,
    \<open>device_schema_runtime.c\<close>): the schema table, the staged transfer and the validation of commands.
  \<^item> \<open>Schema_Discovery\<close>, \<open>Discovery_Run\<close>, \<open>Discovery_Props\<close> (\<open>device_schema_discovery.c\<close>, \<open>device_schema_worker.c\<close> and
    the posting functions of \<open>device_schema.c\<close>): the worker that asks one device after the other.
    \<open>Schema_Adapter\<close> (\<open>device_schema_control_adapter.c\<close>) connects it to the scheduler.
  \<^item> \<open>Device_State\<close> (\<open>device_state.c\<close>): the cache of reported values.
  \<^item> \<open>Command_Request\<close>, \<open>Command_Service\<close> (\<open>device_command_service\<close>): validation of a request, the pending slots,
    the two queues, the service task and its shutdown.
  \<^item> \<open>Control_Scheduler\<close>, \<open>Scheduler_Run\<close>, \<open>Scheduler_Props\<close> (\<open>device_control_scheduler\<close>): jobs with priorities,
    devices, leases and the worker that feeds the command service.
  \<^item> \<open>Cbor_Codec\<close>, \<open>Cbor_Props\<close> (\<open>cbor_codec/cbor_codec.c\<close>): encoder and decoder of the frames.
  \<^item> \<open>Settings_Memory\<close>, \<open>Settings_Records\<close>, \<open>Settings_Transaction\<close>, \<open>Settings_Actor\<close>, \<open>Settings_Protocol\<close>
    (\<open>device_settings\<close>): string pools and counted snapshots, the records of the devices, the transactions
    that change settings, the actor task and the streams that devices send. \<open>Settings_Stream\<close> and
    \<open>Settings_Checks\<close> relate the streams and the checks to descriptions of a schema; \<open>Settings_Run\<close> and
    \<open>Settings_Props\<close> are about runs of the whole component.
  \<^item> \<open>Ble_State\<close>, \<open>Ble_Central\<close> (\<open>ble_central\<close>): the tables of the BLE central as critical sections, and over
    them its public functions, the callbacks of the host stack and the supervisor. \<open>Ble_Links\<close> and \<open>Ble_Run\<close>
    are about their interleavings, \<open>Ble_Ready\<close> about the discovery of a link's attributes. \<open>Ble_Notify\<close> has the
    queue of notifications and the scan, \<open>Ble_Identity\<close> the deferred writing of addresses, \<open>Ble_Props\<close> the
    properties.
  \<^item> This theory: the property that spans the command service and the codec.

  \<^bold>\<open>How the components interact\<close>

  A control request enters \<open>device_control_scheduler_submit\<close>; the scheduler's worker hands it to
  \<open>device_command_service_submit\<close>; the service task builds the message (\<open>dcs_build_wire_message\<close>), validates
  it with \<open>device_schema_validate_command\<close> and sends it through the BLE hooks (\<open>ble_hooks\<close> below):
  \<open>ble_central_send_command\<close> encodes it with \<open>cbor_codec_encode\<close> and writes it to the device's link. Notifications come back through \<open>cbor_codec_decode\<close> and go to the command service
  (acknowledgements), the schema worker (schema transfer), the state cache (feature states) and the settings
  streams. The settings actor submits its own jobs to the scheduler under a lease of the device.
  Completions travel back by callbacks. A callback is a number with its context, and a handler returns
  the calls it makes.

  \<^bold>\<open>Conventions\<close>

  \<^item> A struct is a record, an enumeration a datatype, an unsigned integer a word of its width; \<open>int\<close> and the
    microsecond clocks are \<^typ>\<open>int\<close>, with the range stated where it matters.
  \<^item> Static variables are the fields of a state record that an operation takes and returns. A mutex, an
    allocation, a clock and a flash or queue operation of the system is an argument; where one call
    makes several attempts they are separate arguments, so all combinations of outcomes are covered.
  \<^item> Tasks that run at the same time are \<open>inductive\<close> step relations: \<open>dcs_step\<close>, \<open>ctrl_step\<close>, \<open>disc_step\<close> and
    \<open>ble_step\<close>. A step is one critical section (or one queue operation), so the steps of the tasks interleave as
    they may on the two cores. A program counter says where the worker is between its sections.
    A run of the settings component (\<open>settings_run\<close>) is a list of calls, callbacks and turns of its
    actor, each with the answers it gets from outside.
  \<^item> Log output, stack and heap sizes and the padding of structs are not part of the model.

  \<^bold>\<open>What the lemmas show\<close>

  \<^item> Ledgers: what the command service and the scheduler owe (\<open>dcs_ledger\<close>, \<open>ctrl_ledger\<close>) is a multiset of
    completions, and each step keeps accepted = completed + owed; so each request completes once. The
    invariant \<open>sound\<close> of the settings runs is such a ledger, with the script of each transaction.
  \<^item> Invariants of reachable states: distinct identifiers in flight, limits of the scheduler,
    well-formed schemas, one discovery at a time, slots and devices of the BLE central in pairs.
  \<^item> Refinements: the device store is a directory, the state cache a finite map, the selection loops of
    the scheduler take the first of the most urgent jobs, the command validator decides conformance.
  \<^item> Round trips: a restart loads what the store wrote; the decoder returns what the encoder was given;
    a command that the service sends reads back from its frame; a stream of descriptors commits the schema it
    describes.
  \<^item> Errors: for the behaviours that deviate from what the code is meant to do there is a theorem that
    exhibits them.

  \<^bold>\<open>Parameters\<close>

  The QCBOR library is the record \<open>qcbor\<close> with the contract \<open>qcbor_contract\<close>: a finished frame fits its
  buffer, is a map, and answers lookups with the items that were added. \<open>Cbor_Props\<close> interprets the contract
  by a CBOR writer and reader with eight-byte heads (\<open>plain_cbor\<close>). Of the NimBLE stack the runs of
  \<open>Ble_Ready\<close> take that a procedure is answered on its handle, that a new connection gets a handle that is not
  in use, and that attribute handles are not 0; \<open>ble_demo_ready\<close> is such a run. The rest of the stack, FreeRTOS queues and timers,
  NVS and the heap are the choices described above.

  \<^bold>\<open>Fuel and bounds\<close>

  \<^item> \<open>next_id_loop\<close> (drawing a request identifier) runs on fuel 5: at most four slots are in use and 0 is
    skipped, and \<open>request_id_loop_ends\<close> shows that five passes always yield an identifier.
  \<^item> \<open>worker_run\<close> executes a given list of critical sections; \<open>discovery_recursion_ends\<close> shows that 68 suffice
    to bring the worker back: four for each of sixteen waiting devices and four for the current one.
  \<^item> Every other loop is structural recursion over an index range or a list.

  \<^bold>\<open>Not modelled\<close>

  \<^item> The exposure of tools to MCP, the MCP sessions and the management of devices: not reached.
  \<^item> The seeding of states after a schema commit and the flash format of schemas: not reached.
  \<^item> The JSON text of messages (\<open>cbor_codec_msg_to_json\<close>, \<open>cbor_codec_json_to_msg\<close>) and the settings views: only
    tests call them.
  \<^item> Web handlers, Wi-Fi provisioning apart from its DNS server, display and pin drivers, start-up: input
    and output over system services.
\<close>

section \<open>From the command service to the wire\<close>

text \<open>
  What the command service takes for granted of a request: its texts are C strings, its numbers are
  32-bit numbers, an announced feature is named, and announced settings are valid.
\<close>

definition wire_ready :: "device_command_request \<Rightarrow> bool" where
  "wire_ready rq \<longleftrightarrow>
     CHR 0x00 \<notin> set (rq_device_id rq) \<and> CHR 0x00 \<notin> set (rq_command rq) \<and> CHR 0x00 \<notin> set (rq_feature_id rq) \<and>
     is_int32 (rq_int_value rq) \<and> (rq_has_feature_id rq \<longrightarrow> rq_feature_id rq \<noteq> []) \<and>
     is_int32 (sp_int_value (rq_settings rq)) \<and>
     (sp_has_setting_id (rq_settings rq) \<longrightarrow> settings_id_is_valid (rq_settings rq)) \<and>
     (sp_has_setting_value (rq_settings rq) \<longrightarrow> settings_value_is_valid (rq_settings rq))"

lemma cstr_strlcpy: "CHR 0x00 \<notin> set t \<Longrightarrow> cstr (strlcpy n t) = strlcpy n t"
  by (auto simp: strlcpy_def intro: cstr_literal dest: in_set_takeD)

lemma valid_strlcpy: "1 < n \<Longrightarrow> CHR 0x00 \<notin> set t \<Longrightarrow> (e \<or> t \<noteq> []) \<Longrightarrow> valid_string (strlcpy n t) n e"
  by (auto simp: valid_string_def strnlen_def Let_def cstr_strlcpy)

lemma cstr_clean: "CHR 0x00 \<notin> set (cstr t)"
  by (auto simp: cstr_def dest: set_takeWhileD)

lemma wire_hits:
  "m_int_value (fill_if b (\<lambda>m. m\<lparr>m_int_value := n, m_has_int_value := True\<rparr>) m) = (if b then n else m_int_value m)"
  "m_bool_value (fill_if b (\<lambda>m. m\<lparr>m_bool_value := v, m_has_bool_value := True\<rparr>) m) = (if b then v else m_bool_value m)"
  "m_setting_type (fill_if b (wire_setting_value p) m) = (if b then sp_setting_type p else m_setting_type m)"
  "m_has_setting_type (fill_if b (wire_setting_value p) m) \<longleftrightarrow> b \<or> m_has_setting_type m"
  "m_has_setting_value (fill_if b (wire_setting_value p) m) \<longleftrightarrow> b \<or> m_has_setting_value m"
  "m_setting_value_int (fill_if b (wire_setting_value p) m) =
     (if b \<and> sp_setting_type p = GW_SETTING_TYPE_INT then sp_int_value p else m_setting_value_int m)"
  "m_setting_value_string (fill_if b (wire_setting_value p) m) =
     (if b \<and> sp_setting_type p = GW_SETTING_TYPE_STRING
      then strlcpy GW_SETTINGS_VALUE_MAX_LEN (cstr (sp_string_value p)) else m_setting_value_string m)"
  by (simp_all add: fill_if_def wire_setting_value_def Let_def)

lemma wire_frame:
  "m_name (wire_setting_value p m) = m_name m"
  "m_capability_label (wire_setting_value p m) = m_capability_label m"
  "m_capability_unit (wire_setting_value p m) = m_capability_unit m"
  "m_feature_tool (wire_setting_value p m) = m_feature_tool m"
  "m_protocol_version (wire_setting_value p m) = m_protocol_version m"
  "m_min_value (wire_setting_value p m) = m_min_value m"
  "m_max_value (wire_setting_value p m) = m_max_value m"
  "m_feature_value_int (wire_setting_value p m) = m_feature_value_int m"
  "m_has_snapshot_id (wire_setting_value p m) = m_has_snapshot_id m"
  "m_has_ble_addr (wire_setting_value p m) = m_has_ble_addr m"
  "m_has_device_id (wire_setting_value p m) = m_has_device_id m"
  "m_int_value (wire_setting_value p m) = m_int_value m"
  "m_bool_value (wire_setting_value p m) = m_bool_value m"
  "m_has_feature_id (wire_setting_value p m) = m_has_feature_id m"
  "m_feature_id (wire_setting_value p m) = m_feature_id m"
  "m_has_setting_id (wire_setting_value p m) = m_has_setting_id m"
  "m_setting_id (wire_setting_value p m) = m_setting_id m"
  by (simp_all add: wire_setting_value_def fill_if_frame Let_def)

lemma built_fields:
  fixes rq i
  defines "m \<equiv> dcs_build_wire_message rq i"
  shows "m_name m = []" "m_capability_label m = []" "m_capability_unit m = []" "m_feature_tool m = []"
    "m_protocol_version m = GW_PROTOCOL_VERSION" "m_min_value m = 0" "m_max_value m = 0" "m_feature_value_int m = 0"
    "\<not> m_has_snapshot_id m" "\<not> m_has_ble_addr m" "m_has_device_id m"
    "m_int_value m = (if rq_has_int_value rq then rq_int_value rq else 0)"
    "m_has_feature_id m = rq_has_feature_id rq"
    "m_feature_id m = (if rq_has_feature_id rq then strlcpy GW_FEATURE_ID_LEN (rq_feature_id rq) else [])"
    "m_has_setting_id m = sp_has_setting_id (rq_settings rq)"
    "m_setting_id m = (if sp_has_setting_id (rq_settings rq)
       then strlcpy GW_SETTINGS_CBOR_MAX_ID_LEN (cstr (sp_setting_id (rq_settings rq))) else [])"
    "m_has_setting_type m = sp_has_setting_value (rq_settings rq)" "m_has_setting_value m = sp_has_setting_value (rq_settings rq)"
    "m_setting_type m = (if sp_has_setting_value (rq_settings rq) then sp_setting_type (rq_settings rq) else 0)"
    "m_setting_value_int m \<in> {0, sp_int_value (rq_settings rq)}"
    "m_setting_value_string m \<in> {[], strlcpy GW_SETTINGS_VALUE_MAX_LEN (cstr (sp_string_value (rq_settings rq)))}"
  unfolding m_def dcs_build_wire_message_def wire_settings_def wire_values_def
  by (simp_all add: Let_def fill_if_hit fill_if_frame wire_hits wire_frame zero_message_def)

lemma wire_message_transmittable:
  assumes "wire_ready rq" "request_fits rq" "rq_device_id rq \<noteq> []" "rq_command rq \<noteq> []" "i \<noteq> 0"
  shows "transmittable (dcs_build_wire_message rq i)"
proof -
  let ?m = "dcs_build_wire_message rq i" and ?p = "rq_settings rq"
  have w: "CHR 0x00 \<notin> set (rq_device_id rq)" "CHR 0x00 \<notin> set (rq_command rq)" "CHR 0x00 \<notin> set (rq_feature_id rq)"
    "is_int32 (rq_int_value rq)" "is_int32 (sp_int_value ?p)" "rq_has_feature_id rq \<Longrightarrow> rq_feature_id rq \<noteq> []"
    "sp_has_setting_id ?p \<Longrightarrow> cstr (sp_setting_id ?p) \<noteq> []"
    using assms(1) by (auto simp: wire_ready_def settings_id_is_valid_def)
  have ty: "sp_setting_type ?p \<in> {GW_SETTING_TYPE_BOOL, GW_SETTING_TYPE_INT, GW_SETTING_TYPE_STRING, GW_SETTING_TYPE_ENUM}"
    if "sp_has_setting_value ?p"
    using assms(1) that by (auto simp: wire_ready_def settings_value_is_valid_def split: if_splits)
  have e: "encodable ?m"
    using w assms(3,4) by (auto simp: encodable_def built_fields wire_message_fields intro!: valid_strlcpy) (auto simp: valid_string_def strnlen_def cstr_literal)
  have t: "valid_string (m_setting_value_string ?m) GW_SETTINGS_VALUE_MAX_LEN True"
    using built_fields(21) [of rq i] by (auto intro!: valid_strlcpy simp: cstr_clean) (auto simp: valid_string_def strnlen_def cstr_def)
  have n: "is_int32 (m_int_value ?m)" "is_int32 (m_setting_value_int ?m)"
    using w built_fields(20) [of rq i] by (auto simp: built_fields is_int32_def)
  have f: "cstr (strlcpy GW_FEATURE_ID_LEN (rq_feature_id rq)) \<noteq> []" if "rq_has_feature_id rq"
    using w(3) w(6) [OF that] unfolding cstr_strlcpy [OF w(3)] by (simp add: strlcpy_def)
  have d: "valid_string (strlcpy GW_SETTINGS_CBOR_MAX_ID_LEN (cstr (sp_setting_id ?p))) GW_SETTINGS_CBOR_MAX_ID_LEN False"
    if "sp_has_setting_id ?p"
    using w(7) [OF that] by (simp add: valid_strlcpy cstr_clean)
  show ?thesis
    using e t n f d ty assms(5)
    by (auto simp: transmittable_def built_fields wire_message_fields is_int32_def setting_value_item_def)
qed

lemmas settings_command_defs = GW_SETTINGS_CMD_DESCRIBE_SETTINGS_def GW_SETTINGS_CMD_READ_SETTINGS_def
  GW_SETTINGS_CMD_TX_BEGIN_def GW_SETTINGS_CMD_TX_SET_def GW_SETTINGS_CMD_TX_COMMIT_def GW_SETTINGS_CMD_TX_ABORT_def
  GW_SETTINGS_CMD_COMMIT_CONFIRM_def

lemma settings_status_named:
  assumes "settings_request_status rq = DEVICE_CMD_STATUS_OK" shows "rq_command rq \<noteq> []"
proof -
  have "is_settings_command (rq_command rq)"
    using assms by (auto simp: settings_request_status_def Let_def split: if_splits)
  then show ?thesis by (auto simp: is_settings_command_def settings_command_defs)
qed

lemma validated_named:
  "dcs_validate_request v rq w = DEVICE_CMD_STATUS_OK \<Longrightarrow> rq_device_id rq \<noteq> [] \<and> rq_command rq \<noteq> []"
  by (auto simp: dcs_validate_request_def settings_status_named split: if_splits device_command_origin.splits)

text \<open>
  From the request to the device, over every CBOR library that keeps its contract: when the command
  service sends a message for a request whose payload is valid, and the codec encodes it into a frame of
  at most \<open>GW_MSG_MAX_LEN\<close> bytes, then decoding that frame gives a message for the requested device with
  the requested command, the identifier under which the service waits for the acknowledgement (never
  zero), and the requested value.
\<close>

theorem sent_command_survives_the_wire:
  assumes "dcs_inv s" and "event_ok e" and "wire_ready (se_request e)"
    and "dcs_handle_submit env e s = (s', calls, Some (dv, msg))"
    and "qcbor_contract Q" and "out_buf_cap \<le> GW_MSG_MAX_LEN" and "cbor_codec_encode Q (Some msg) out_buf_cap = Some buf"
  shows "\<exists>r. cbor_codec_decode Q buf = Some r \<and> m_device_id r = rq_device_id (se_request e) \<and>
    m_command r = rq_command (se_request e) \<and> m_has_request_id r \<and> m_request_id r = m_request_id msg \<and> m_request_id r \<noteq> 0 \<and>
    (rq_has_int_value (se_request e) \<longrightarrow> m_int_value r = rq_int_value (se_request e))"
proof -
  let ?rq = "se_request e"
  note h = handle_submit_sent [OF assms(1,2,4)]
  then obtain rid where r: "msg = dcs_build_wire_message ?rq rid" "rid \<noteq> 0" by blast
  have n: "rq_device_id ?rq \<noteq> []" "rq_command ?rq \<noteq> []" using validated_named h by blast+
  have fit: "request_fits ?rq" using assms(2) by (simp add: event_ok_def)
  have "transmittable msg"
    unfolding r(1) using wire_message_transmittable [OF assms(3) fit n r(2)] .
  then have "cbor_codec_decode Q buf = Some (filled msg)" "carries_header msg (filled msg)"
    using decode_encoded [OF assms(5) _ assms(6,7)] carries_filled by blast+
  moreover have "cstr (rq_device_id ?rq) = rq_device_id ?rq" "cstr (rq_command ?rq) = rq_command ?rq"
    using assms(3) by (simp_all add: wire_ready_def cstr_literal)
  ultimately show ?thesis
    using fit r(2) by (auto simp: r(1) carries_header_def wire_message_fields built_fields request_fits_def)
qed


lemma demo_wire_encodes:
  "\<exists>buf. cbor_codec_encode plain_cbor (Some (dcs_build_wire_message demo_request rid)) 256 = Some buf"
proof -
  let ?m = "dcs_build_wire_message demo_request rid"
  have m: "?m = zero_message\<lparr>m_protocol_version := GW_PROTOCOL_VERSION, m_type := ''device_command'', m_device_id := ''lamp'',
      m_command := ''describe_capabilities'', m_has_device_id := True, m_request_id := rid, m_has_request_id := True\<rparr>"
    by (simp add: dcs_build_wire_message_def wire_settings_def wire_values_def Let_def fill_if_def demo_request_def zero_request_def
        zero_settings_payload_def)
  have i: "all_items ?m =
     [(0, CBOR_UINT 4), (1, CBOR_TEXT ''device_command''), (2, CBOR_TEXT ''lamp''), (3, CBOR_TEXT ''describe_capabilities''),
      (10, CBOR_UINT (ucast rid)), (4, CBOR_INT 0), (5, CBOR_BOOL False)]"
    by (simp add: m all_items_def header_items_def capability_items_def feature_items_def settings_items_def value_items_def
        add_if_def zero_message_def cstr_literal)
  have "encodable ?m"
    by (simp add: m encodable_def valid_string_def strnlen_def zero_message_def cstr_literal)
  then have "cbor_codec_encode plain_cbor (Some ?m) 256 = qc_encode plain_cbor (all_items ?m) 256"
    by (simp add: cbor_codec_encode_def all_items_def m zero_message_def)
  then show ?thesis by (simp add: i plain_cbor_def put_map_def)
qed

theorem sent_command_survives_the_wire_witness:
  "\<exists>s' calls msg buf r.
     dcs_handle_submit demo_submit_env demo_event demo_start_state = (s', calls, Some (''lamp'', msg)) \<and>
     cbor_codec_encode plain_cbor (Some msg) 256 = Some buf \<and> cbor_codec_decode plain_cbor buf = Some r \<and>
     m_device_id r = ''lamp'' \<and> m_command r = ''describe_capabilities'' \<and> m_request_id r \<noteq> 0"
proof -
  obtain s' calls msg where h: "dcs_handle_submit demo_submit_env demo_event demo_start_state = (s', calls, Some (''lamp'', msg))"
    using demo_sent by blast
  then obtain rid where "msg = dcs_build_wire_message demo_request rid"
    using handle_submit_sent [OF demo_idle_inv demo_event_ok h] by (auto simp: demo_event_def)
  then obtain buf where b: "cbor_codec_encode plain_cbor (Some msg) 256 = Some buf" using demo_wire_encodes by blast
  have w: "wire_ready (se_request demo_event)"
    by (simp add: wire_ready_def demo_event_def demo_request_def zero_request_def is_int32_def zero_settings_payload_def)
  have rq: "rq_device_id (se_request demo_event) = ''lamp''" "rq_command (se_request demo_event) = ''describe_capabilities''"
    by (simp_all add: demo_event_def demo_request_def)
  show ?thesis
    using sent_command_survives_the_wire [OF demo_idle_inv demo_event_ok w h plain.qcbor_contract_axioms _ b] h b
    unfolding rq by auto
qed

section \<open>From the command service to the link\<close>

text \<open>The return codes of the BLE central as integers, and the hooks with which the service is started.\<close>

fun ble_err_code :: "ble_central_err \<Rightarrow> int" where
  "ble_err_code BLE_CENTRAL_OK = 0"
| "ble_err_code BLE_CENTRAL_ERR_INVALID_ARG = -1"
| "ble_err_code BLE_CENTRAL_ERR_NOT_READY = -2"
| "ble_err_code BLE_CENTRAL_ERR_NOT_FOUND = -3"
| "ble_err_code BLE_CENTRAL_ERR_NO_SLOT = -4"
| "ble_err_code BLE_CENTRAL_ERR_BUSY = -5"
| "ble_err_code BLE_CENTRAL_ERR_CONNECT_IN_PROGRESS = -6"
| "ble_err_code BLE_CENTRAL_ERR_NOT_CONNECTED = -7"
| "ble_err_code BLE_CENTRAL_ERR_ENCODE = -8"
| "ble_err_code BLE_CENTRAL_ERR_MESSAGE_TOO_LARGE = -9"
| "ble_err_code BLE_CENTRAL_ERR_STACK = -10"
| "ble_err_code BLE_CENTRAL_ERR_NO_RESOURCE = -11"
| "ble_err_code BLE_CENTRAL_ERR_STATE = -12"

definition default_send_command :: "qcbor \<Rightarrow> ble_env \<Rightarrow> ble_state \<Rightarrow> string \<Rightarrow> gw_message \<Rightarrow> int" where
  "default_send_command Q benv bs device_id message =
     ble_err_code (fst (snd (ble_central_send_command Q benv (Some device_id) (Some message) bs)))"

definition default_is_connected :: "ble_env \<Rightarrow> ble_state \<Rightarrow> string \<Rightarrow> int" where
  "default_is_connected benv bs device_id = (if ble_central_is_connected benv (Some device_id) bs then 1 else 0)"

definition ble_hooks :: "qcbor \<Rightarrow> ble_env \<Rightarrow> ble_state \<Rightarrow> int \<Rightarrow> (gw_message \<Rightarrow> device_schema_validation) \<Rightarrow> submit_env" where
  "ble_hooks Q benv bs now validate =
     \<lparr>sv_now_us = now, sv_is_connected = default_is_connected benv bs,
      sv_send_command = default_send_command Q benv bs, sv_validate = validate\<rparr>"

lemma ble_err_zero: "ble_err_code e = 0 \<longleftrightarrow> e = BLE_CENTRAL_OK"
  by (cases e) simp_all


lemma demo_hooks_sent:
  assumes "sv_is_connected env ''lamp'' = 1" and "sv_validate env = (\<lambda>_. DEVICE_SCHEMA_VALID)"
  shows "\<exists>s' calls msg. dcs_handle_submit env demo_event demo_start_state = (s', calls, Some (''lamp'', msg))"
proof -
  have p: "dc_pending demo_start_state = replicate 4 zero_pending"
    by (simp add: demo_start_state_def device_command_service_init_def dcs_pending_reset_def Let_def)
  have "dcs_pending_find_device demo_start_state ''lamp'' = None" "dcs_pending_allocate demo_start_state = Some 0"
    by (simp_all add: dcs_pending_find_device_def dcs_pending_allocate_def p numeral_eq_Suc)
  then have "\<exists>msg. snd (snd (dcs_handle_submit env demo_event demo_start_state)) = Some (''lamp'', msg)"
    by (simp add: dcs_handle_submit_def demo_event_def demo_request_def zero_request_def dcs_validate_request_def
        assms Let_def p dcs_pending_next_request_id_def split: prod.splits)
  then show ?thesis by (metis prod.collapse)
qed


end
